(* ===== verification/Prelude.thy ===== *)
theory Prelude
  imports Main
begin

text \<open>
  The prelude of the development. It holds what every component shares: the errors that the Go
  code returns (\<open>go_err\<close>, with the wrapping that \<open>fmt.Errorf\<close> with \<open>%w\<close> does and the walk of
  \<open>errors.Is\<close>), the combinators that thread a state through a sequence of fallible calls
  (\<open>seq\<close> is the \<open>x, err := f(); if err != nil { return err }\<close> idiom), the predicate
  \<open>keeps\<close> that says a call keeps an invariant whether it succeeds or fails, and the collections
  the component theories feed: \<open>act_simps\<close> unfolds combinators, \<open>keeps_intros\<close> proves
  \<open>keeps\<close> goals by following the shape of the code, \<open>total_intros\<close> does so for \<open>total\<close>, which
  says that a call returns no error.
\<close>

named_theorems act_simps "unfold the combinators of fallible stateful calls"
named_theorems keeps_intros "introduction rules for invariants kept by a call"
named_theorems atomic_intros "introduction rules for calls that only read, or change nothing when they fail"
named_theorems total_intros "introduction rules for calls that return no error"

section \<open>Errors\<close>

text \<open>
  The error values of the program: the sentinel errors it compares with, an error of an external
  call (a database statement, a file-system or network call) named by its text, a formatted
  message, and a message that wraps another error.
\<close>

datatype go_err =
    ErrNoRows
  | ErrReauth
  | ErrRateLimited
  | ErrWrongPassword
  | ErrNoPasswordSet
  | ErrExternal string
  | ErrMsg string
  | ErrWrap string go_err

fun err_text :: "go_err \<Rightarrow> string" where
  "err_text ErrNoRows = ''sql: no rows in result set''"
| "err_text ErrReauth = ''tracker: re-authentication required''"
| "err_text ErrRateLimited = ''anilist: rate limited''"
| "err_text ErrWrongPassword = ''incorrect password''"
| "err_text ErrNoPasswordSet = ''no password set''"
| "err_text (ErrExternal t) = t"
| "err_text (ErrMsg t) = t"
| "err_text (ErrWrap t e) = t @ '': '' @ err_text e"

fun err_is :: "go_err \<Rightarrow> go_err \<Rightarrow> bool" where
  "err_is (ErrWrap t e) target = (ErrWrap t e = target \<or> err_is e target)"
| "err_is e target = (e = target)"

lemma err_is_refl [simp]: "err_is e e"
  by (cases e) auto

section \<open>Fallible calls over a state\<close>

type_synonym ('s, 'a) act = "'s \<Rightarrow> (go_err + 'a) \<times> 's"

definition ret :: "'a \<Rightarrow> ('s, 'a) act" where
  "ret x s = (Inr x, s)"

definition fail :: "go_err \<Rightarrow> ('s, 'a) act" where
  "fail e s = (Inl e, s)"

definition seq :: "('s, 'a) act \<Rightarrow> ('a \<Rightarrow> ('s, 'b) act) \<Rightarrow> ('s, 'b) act" where
  "seq m f s = (case m s of (Inl e, s') \<Rightarrow> (Inl e, s') | (Inr x, s') \<Rightarrow> f x s')"

text \<open>\<open>fmt.Errorf("msg: %w", err)\<close> around a call that failed.\<close>

definition wrap :: "string \<Rightarrow> ('s, 'a) act \<Rightarrow> ('s, 'a) act" where
  "wrap t m s = (case m s of (Inl e, s') \<Rightarrow> (Inl (ErrWrap t e), s') | (Inr x, s') \<Rightarrow> (Inr x, s'))"

text \<open>The error of a call looked at as a value: the code goes on in both cases.\<close>

definition attempt :: "('s, 'a) act \<Rightarrow> ('s, go_err + 'a) act" where
  "attempt m s = (case m s of (r, s') \<Rightarrow> (Inr r, s'))"

definition ignore :: "('s, 'a) act \<Rightarrow> ('s, unit) act" where
  "ignore m s = (case m s of (r, s') \<Rightarrow> (Inr (), s'))"

definition gets :: "('s \<Rightarrow> 'a) \<Rightarrow> ('s, 'a) act" where
  "gets f s = (Inr (f s), s)"

definition modify :: "('s \<Rightarrow> 's) \<Rightarrow> ('s, unit) act" where
  "modify f s = (Inr (), f s)"

text \<open>A loop whose body may return an error, one that carries a value along, and one that collects.\<close>

fun for_each :: "('a \<Rightarrow> ('s, unit) act) \<Rightarrow> 'a list \<Rightarrow> ('s, unit) act" where
  "for_each f [] = ret ()"
| "for_each f (x # xs) = seq (f x) (\<lambda>_. for_each f xs)"

fun fold_act :: "('b \<Rightarrow> 'a \<Rightarrow> ('s, 'b) act) \<Rightarrow> 'b \<Rightarrow> 'a list \<Rightarrow> ('s, 'b) act" where
  "fold_act f b [] = ret b"
| "fold_act f b (x # xs) = seq (f b x) (\<lambda>b'. fold_act f b' xs)"

fun map_act :: "('a \<Rightarrow> ('s, 'b) act) \<Rightarrow> 'a list \<Rightarrow> ('s, 'b list) act" where
  "map_act f [] = ret []"
| "map_act f (x # xs) = seq (f x) (\<lambda>y. seq (map_act f xs) (\<lambda>ys. ret (y # ys)))"

lemmas act_unfolds [act_simps] =
  ret_def fail_def seq_def wrap_def attempt_def ignore_def gets_def modify_def

lemma seq_ret [simp]: "seq (ret x) f = f x"
  by (rule ext) (simp add: act_simps)

lemma seq_fail [simp]: "seq (fail e) f = fail e"
  by (rule ext) (simp add: act_simps)

lemma seq_Inr: "m s = (Inr x, s') \<Longrightarrow> seq m f s = f x s'"
  by (simp add: seq_def)

lemma seq_Inl: "m s = (Inl e, s') \<Longrightarrow> seq m f s = (Inl e, s')"
  by (simp add: seq_def)

lemma seq_eq_Inr:
  "seq m f s = (Inr y, t) \<longleftrightarrow> (\<exists>x s'. m s = (Inr x, s') \<and> f x s' = (Inr y, t))"
  by (auto simp: seq_def split: prod.splits sum.splits)

lemma seq_InrE:
  assumes "seq m f s = (Inr y, t)"
  obtains x s' where "m s = (Inr x, s')" "f x s' = (Inr y, t)"
  using assms by (auto simp: seq_eq_Inr)

lemma seq_eq_Inl:
  "seq m f s = (Inl e, t) \<longleftrightarrow> m s = (Inl e, t) \<or> (\<exists>x s'. m s = (Inr x, s') \<and> f x s' = (Inl e, t))"
  by (auto simp: seq_def split: prod.splits sum.splits)

lemma seq_assoc: "seq (seq m f) g = seq m (\<lambda>x. seq (f x) g)"
  by (rule ext) (auto simp: seq_def split: prod.split sum.split)

lemma wrap_eq_Inr [simp]: "wrap t m s = (Inr y, s') \<longleftrightarrow> m s = (Inr y, s')"
  by (auto simp: wrap_def split: prod.splits sum.splits)

lemma ignore_eq: "ignore m s = (Inr (), snd (m s))"
  by (simp add: ignore_def split: prod.split)

lemma attempt_eq: "attempt m s = (Inr (fst (m s)), snd (m s))"
  by (simp add: attempt_def split: prod.split)

lemma wrap_eq_Inl: "wrap t m s = (Inl e, s') \<longleftrightarrow> (\<exists>e'. m s = (Inl e', s') \<and> e = ErrWrap t e')"
  by (auto simp: wrap_def split: prod.splits sum.splits)

section \<open>Invariants kept by a call\<close>

definition keeps :: "('s \<Rightarrow> bool) \<Rightarrow> ('s, 'a) act \<Rightarrow> bool" where
  "keeps I m \<longleftrightarrow> (\<forall>s. I s \<longrightarrow> I (snd (m s)))"

lemma keepsI: "(\<And>s. I s \<Longrightarrow> I (snd (m s))) \<Longrightarrow> keeps I m"
  by (simp add: keeps_def)

lemma keepsD: "keeps I m \<Longrightarrow> I s \<Longrightarrow> m s = (r, s') \<Longrightarrow> I s'"
  by (metis keeps_def snd_conv)

lemma keeps_ret [keeps_intros]: "keeps I (ret x)"
  by (simp add: keeps_def act_simps)

lemma keeps_fail [keeps_intros]: "keeps I (fail e)"
  by (simp add: keeps_def act_simps)

lemma keeps_gets [keeps_intros]: "keeps I (gets f)"
  by (simp add: keeps_def act_simps)

lemma keeps_seq [keeps_intros]:
  "keeps I m \<Longrightarrow> (\<And>x. keeps I (f x)) \<Longrightarrow> keeps I (seq m f)"
  by (fastforce simp: keeps_def seq_def split: prod.split sum.split)

lemma keeps_wrap [keeps_intros]: "keeps I m \<Longrightarrow> keeps I (wrap t m)"
  by (fastforce simp: keeps_def wrap_def split: prod.split sum.split)

lemma keeps_attempt [keeps_intros]: "keeps I m \<Longrightarrow> keeps I (attempt m)"
  by (fastforce simp: keeps_def attempt_def split: prod.split)

lemma keeps_ignore [keeps_intros]: "keeps I m \<Longrightarrow> keeps I (ignore m)"
  by (fastforce simp: keeps_def ignore_def split: prod.split)

lemma keeps_if [keeps_intros]:
  "(b \<Longrightarrow> keeps I m) \<Longrightarrow> (\<not> b \<Longrightarrow> keeps I n) \<Longrightarrow> keeps I (if b then m else n)"
  by simp

lemma keeps_case_option [keeps_intros]:
  "(opt = None \<Longrightarrow> keeps I m) \<Longrightarrow> (\<And>x. opt = Some x \<Longrightarrow> keeps I (f x))
    \<Longrightarrow> keeps I (case opt of None \<Rightarrow> m | Some x \<Rightarrow> f x)"
  by (cases opt) auto

lemma keeps_case_sum [keeps_intros]:
  "(\<And>e. r = Inl e \<Longrightarrow> keeps I (f e)) \<Longrightarrow> (\<And>x. r = Inr x \<Longrightarrow> keeps I (g x))
    \<Longrightarrow> keeps I (case r of Inl e \<Rightarrow> f e | Inr x \<Rightarrow> g x)"
  by (cases r) auto

lemma keeps_case_prod [keeps_intros]:
  "(\<And>a b. p = (a, b) \<Longrightarrow> keeps I (f a b)) \<Longrightarrow> keeps I (case p of (a, b) \<Rightarrow> f a b)"
  by (cases p) auto

lemma keeps_case_list [keeps_intros]:
  "(xs = [] \<Longrightarrow> keeps I m) \<Longrightarrow> (\<And>y ys. xs = y # ys \<Longrightarrow> keeps I (f y ys))
    \<Longrightarrow> keeps I (case xs of [] \<Rightarrow> m | y # ys \<Rightarrow> f y ys)"
  by (cases xs) auto

lemma keeps_Let [keeps_intros]: "keeps I (f v) \<Longrightarrow> keeps I (let x = v in f x)"
  by simp

lemma keeps_for_each [keeps_intros]:
  "(\<And>x. x \<in> set xs \<Longrightarrow> keeps I (f x)) \<Longrightarrow> keeps I (for_each f xs)"
  by (induction xs) (auto intro!: keeps_intros)

lemma keeps_fold_act [keeps_intros]:
  "(\<And>b x. x \<in> set xs \<Longrightarrow> keeps I (f b x)) \<Longrightarrow> keeps I (fold_act f b xs)"
  by (induction xs arbitrary: b) (auto intro!: keeps_intros)

lemma keeps_map_act [keeps_intros]:
  "(\<And>x. x \<in> set xs \<Longrightarrow> keeps I (f x)) \<Longrightarrow> keeps I (map_act f xs)"
  by (induction xs) (auto intro!: keeps_intros)

lemma keeps_conj: "keeps I m \<Longrightarrow> keeps J m \<Longrightarrow> keeps (\<lambda>s. I s \<and> J s) m"
  by (simp add: keeps_def)

section \<open>Calls that return no error\<close>

definition total :: "('s, 'a) act \<Rightarrow> bool" where
  "total m \<longleftrightarrow> (\<forall>s. \<exists>x s'. m s = (Inr x, s'))"

lemma totalE: "total m \<Longrightarrow> (\<And>x s'. m s = (Inr x, s') \<Longrightarrow> thesis) \<Longrightarrow> thesis"
  by (auto simp: total_def)

lemma total_basic [total_intros]:
  "total (ret x)" "total (gets f)" "total (modify g)"
  by (simp_all add: total_def act_simps)

lemma total_attempt [total_intros]: "total (attempt m)"
  by (simp add: total_def attempt_def split: prod.split)

lemma total_ignore [total_intros]: "total (ignore m)"
  by (simp add: total_def ignore_def split: prod.split)

lemma total_seq [total_intros]: "total m \<Longrightarrow> (\<And>x. total (f x)) \<Longrightarrow> total (seq m f)"
  unfolding total_def seq_def by (metis (no_types, lifting) old.prod.case sum.simps(6))

lemma total_if [total_intros]: "(b \<Longrightarrow> total m) \<Longrightarrow> (\<not> b \<Longrightarrow> total n) \<Longrightarrow> total (if b then m else n)"
  by simp

section \<open>Lists\<close>

text \<open>The first element that satisfies a predicate: a query that returns one row.\<close>

lemma find_SomeD: "find P xs = Some x \<Longrightarrow> P x \<and> x \<in> set xs"
  by (induction xs) (auto split: if_splits)

lemma find_NoneD: "find P xs = None \<Longrightarrow> x \<in> set xs \<Longrightarrow> \<not> P x"
  by (induction xs) (auto split: if_splits)

lemma find_map_same:
  "(\<And>x. P (g x) = P x) \<Longrightarrow> find P (map g xs) = map_option g (find P xs)"
  by (induction xs) auto

lemma distinct_key_find:
  assumes "distinct (map k xs)" "x \<in> set xs"
  shows "find (\<lambda>y. k y = k x) xs = Some x"
  using assms by (induction xs) force+

lemma distinct_map_filter_key: "distinct (map k xs) \<Longrightarrow> distinct (map k (filter P xs))"
  by (induction xs) auto

end
