(* ===== verification/Float64.thy ===== *)
theory Float64
  imports Complex_Main Prelude
begin

text \<open>
  Go's \<open>float64\<close> as the rational number it denotes. An arithmetic operation computes the exact
  result and rounds it to 53 significant bits, to the nearest value with ties to the even
  significand (\<open>fl\<close>), as IEEE 754 requires. The exponent is not bounded: overflow to an infinity,
  subnormal results and NaN are outside the model (the numbers of this program are chapter
  numbers, scores, progress fractions and byte counts). \<open>go_round\<close> is \<open>math.Round\<close>.
\<close>

type_synonym f64 = rat

section \<open>Binary exponent\<close>

fun nbits :: "nat \<Rightarrow> nat" where
  "nbits n = (if n = 0 then 0 else Suc (nbits (n div 2)))"

declare nbits.simps [simp del]

lemma nbits_0 [simp]: "nbits 0 = 0"
  by (simp add: nbits.simps)

lemma nbits_pos [simp]: "0 < n \<Longrightarrow> 0 < nbits n"
  by (subst nbits.simps) simp

lemma less_nbits: "n < 2 ^ nbits n"
proof (induction n rule: nbits.induct)
  case (1 n)
  show ?case
  proof (cases "n = 0")
    case False
    then have "n div 2 < 2 ^ nbits (n div 2)" using 1 by simp
    then have "n < 2 * 2 ^ nbits (n div 2)" by linarith
    with False show ?thesis by (subst nbits.simps) simp
  qed simp
qed

lemma nbits_le: "0 < n \<Longrightarrow> 2 ^ (nbits n - 1) \<le> n"
proof (induction n rule: nbits.induct)
  case (1 n)
  show ?case
  proof (cases "n div 2 = 0")
    case True
    with 1 have "n = 1" by linarith
    then show ?thesis by (simp add: nbits.simps)
  next
    case False
    then obtain k where k: "nbits (n div 2) = Suc k"
      using nbits_pos [of "n div 2"] by (metis gr0_implies_Suc gr0I)
    have "2 ^ (nbits (n div 2) - 1) \<le> n div 2" using 1 False by simp
    then have "2 * 2 ^ k \<le> n" using k by simp
    then show ?thesis using 1 k by (subst nbits.simps) simp
  qed
qed

definition pow2 :: "int \<Rightarrow> rat" where
  "pow2 e = (if 0 \<le> e then 2 ^ nat e else 1 / 2 ^ nat (- e))"

lemma pow2_powi: "pow2 e = 2 powi e"
  by (simp add: pow2_def power_int_def inverse_eq_divide power_one_over)

lemma pow2_of_nat [simp]: "pow2 (int k) = 2 ^ k"
  by (simp add: pow2_def)

lemma pow2_pos [simp]: "0 < pow2 e"
  by (simp add: pow2_powi)

lemma pow2_add: "pow2 (a + b) = pow2 a * pow2 b"
  by (simp add: pow2_powi power_int_add)

lemma pow2_diff: "pow2 (a - b) = pow2 a / pow2 b"
  by (simp add: pow2_powi power_int_diff)

lemma pow2_mono: "a \<le> b \<Longrightarrow> pow2 a \<le> pow2 b"
  by (simp add: pow2_powi power_int_increasing)

text \<open>The exponent \<open>e\<close> with \<open>2\<^sup>e \<le> |x| < 2\<^sup>e\<^sup>+\<^sup>1\<close>.\<close>

definition bin_exp :: "rat \<Rightarrow> int" where
  "bin_exp x = (let (n, d) = quotient_of \<bar>x\<bar>;
                    e = int (nbits (nat n)) - int (nbits (nat d))
                in if pow2 e \<le> \<bar>x\<bar> then e else e - 1)"

lemma bin_exp_le:
  assumes "x \<noteq> 0"
  shows "pow2 (bin_exp x) \<le> \<bar>x\<bar>"
proof -
  obtain n d where nd: "quotient_of \<bar>x\<bar> = (n, d)" by (cases "quotient_of \<bar>x\<bar>")
  have d: "0 < d" using nd by (rule quotient_of_denom_pos)
  have x: "\<bar>x\<bar> = of_int n / of_int d" using nd by (rule quotient_of_div)
  have n: "0 < n" using x d assms by (metis abs_of_pos divide_eq_0_iff linorder_neqE_linordered_idom
        mult_sgn_abs of_int_0 of_int_less_0_iff of_int_pos abs_ge_zero divide_neg_pos not_le zero_less_abs_iff)
  let ?a = "nbits (nat n)" and ?b = "nbits (nat d)"
  have lo: "(2 :: rat) ^ (?a - 1) \<le> of_int n"
  proof -
    have "2 ^ (?a - 1) \<le> nat n" using n by (intro nbits_le) simp
    then have "int (2 ^ (?a - 1)) \<le> n" using n by linarith
    then have "(of_int (int (2 ^ (?a - 1))) :: rat) \<le> of_int n" by (simp only: of_int_le_iff)
    then show ?thesis by simp
  qed
  have hi: "(of_int d :: rat) < 2 ^ ?b"
  proof -
    have "nat d < 2 ^ ?b" by (rule less_nbits)
    then have "d < int (2 ^ ?b)" using d by linarith
    then have "(of_int d :: rat) < of_int (int (2 ^ ?b))" by (simp only: of_int_less_iff)
    then show ?thesis by simp
  qed
  have a: "0 < ?a" using n by simp
  have e1: "pow2 (int ?a - int ?b - 1) = 2 ^ (?a - 1) / 2 ^ ?b"
  proof -
    have "int ?a - int ?b - 1 = int (?a - 1) - int ?b" using a by linarith
    then show ?thesis by (simp only: pow2_diff pow2_of_nat)
  qed
  have "2 ^ (?a - 1) / 2 ^ ?b \<le> (of_int n / of_int d :: rat)"
    using lo hi d n by (intro frac_le) auto
  with x e1 nd show ?thesis by (auto simp: bin_exp_def Let_def)
qed

section \<open>Rounding\<close>

definition round_even :: "rat \<Rightarrow> int" where
  "round_even y = (let f = \<lfloor>y\<rfloor>; r = y - of_int f in
     if r < 1 / 2 then f else if 1 / 2 < r then f + 1 else if even f then f else f + 1)"

lemma round_even_error: "\<bar>of_int (round_even y) - y\<bar> \<le> 1 / 2"
proof -
  have "of_int \<lfloor>y\<rfloor> \<le> y" "y < of_int \<lfloor>y\<rfloor> + 1" by linarith+
  then show ?thesis by (auto simp: round_even_def Let_def abs_le_iff)
qed

lemma round_even_of_int [simp]: "round_even (of_int i) = i"
  by (simp add: round_even_def)

definition ulp :: "rat \<Rightarrow> rat" where
  "ulp x = pow2 (bin_exp x - 52)"

definition fl :: "rat \<Rightarrow> f64" where
  "fl x = (if x = 0 then 0 else of_int (round_even (x / ulp x)) * ulp x)"

lemma ulp_pos [simp]: "0 < ulp x"
  by (simp add: ulp_def)

lemma ulp_le: "x \<noteq> 0 \<Longrightarrow> ulp x \<le> \<bar>x\<bar> / 2 ^ 52"
  using bin_exp_le [of x] by (simp add: ulp_def pow2_diff) (simp add: pow2_def)

lemma fl_0 [simp]: "fl 0 = 0"
  by (simp add: fl_def)

text \<open>The error of one rounding: half a unit in the last place, so relatively at most \<open>2\<^sup>-\<^sup>5\<^sup>3\<close>.\<close>

lemma fl_error: "\<bar>fl x - x\<bar> \<le> \<bar>x\<bar> / 2 ^ 53"
proof (cases "x = 0")
  case False
  let ?r = "of_int (round_even (x / ulp x)) :: rat"
  have "fl x - x = (?r - x / ulp x) * ulp x"
    using False ulp_pos [of x] by (simp add: fl_def field_simps less_imp_neq [THEN not_sym])
  then have "\<bar>fl x - x\<bar> = \<bar>?r - x / ulp x\<bar> * ulp x"
    by (simp add: abs_mult abs_of_pos)
  also have "\<dots> \<le> 1 / 2 * ulp x"
    by (rule mult_right_mono [OF round_even_error]) (simp add: less_imp_le)
  also have "\<dots> \<le> 1 / 2 * (\<bar>x\<bar> / 2 ^ 52)"
    using ulp_le [OF False] by (intro mult_left_mono) auto
  finally show ?thesis by simp
qed simp

lemma fl_pos: "0 < x \<Longrightarrow> 0 < fl x"
  using fl_error [of x] by (simp add: abs_if split: if_splits)

lemma fl_nonneg: "0 \<le> x \<Longrightarrow> 0 \<le> fl x"
  using fl_pos [of x] by (cases "x = 0") auto

section \<open>\<open>math.Round\<close>\<close>

definition go_round :: "f64 \<Rightarrow> int" where
  "go_round x = (if 0 \<le> x then \<lfloor>x + 1 / 2\<rfloor> else - \<lfloor>- x + 1 / 2\<rfloor>)"

lemma go_round_near:
  assumes "\<bar>x - of_int i\<bar> < 1 / 2"
  shows "go_round x = i"
proof (cases "0 \<le> x")
  case True
  with assms have "\<lfloor>x + 1 / 2\<rfloor> = i"
    by (intro floor_unique) (auto simp: abs_if split: if_splits)
  with True show ?thesis by (simp add: go_round_def)
next
  case False
  with assms have "\<lfloor>- x + 1 / 2\<rfloor> = - i"
    by (intro floor_unique) (auto simp: abs_if split: if_splits)
  with False show ?thesis by (simp add: go_round_def)
qed

lemma go_round_error: "\<bar>of_int (go_round x) - x\<bar> \<le> 1 / 2"
proof -
  have f: "of_int \<lfloor>y\<rfloor> \<le> y \<and> y < of_int \<lfloor>y\<rfloor> + 1" for y :: rat by linarith
  show ?thesis
  proof (cases "0 \<le> x")
    case True
    then show ?thesis using f [of "x + 1 / 2"] unfolding go_round_def abs_le_iff by (simp only: if_True) linarith
  next
    case False
    then show ?thesis using f [of "- x + 1 / 2"] unfolding go_round_def abs_le_iff by (simp only: if_False of_int_minus) linarith
  qed
qed

lemma go_round_nonneg: "0 \<le> x \<Longrightarrow> 0 \<le> go_round x"
  by (simp add: go_round_def)

end
