(* ===== verification/ChapterNum.thy ===== *)
theory ChapterNum
  imports GoStrings Float64
begin

text \<open>
  Chapter numbers (\<open>internal/chapternum/chapternum.go\<close>): the number in a chapter's title, found
  by three regular expressions in turn, and the rounding to two decimals that every number goes
  through before it is stored. Each regular expression is written out as the matcher it denotes
  (leftmost match, alternatives in order, greedy repetition), on the bytes of the title.
\<close>

section \<open>The regular expressions\<close>

text \<open>
  \<open>[0-9]+(?:\.[0-9]+)?\<close> at the start of a string: the digits, the digits of the fraction when
  there is one, and what follows.
\<close>

definition number_at :: "string \<Rightarrow> (string \<times> string option \<times> string) option" where
  "number_at s =
     (let d = takeWhile is_digit s; r = dropWhile is_digit s in
      if d = [] then None
      else (case r of
          c # r' \<Rightarrow> if c = CHR ''.'' \<and> takeWhile is_digit r' \<noteq> []
                    then Some (d, Some (takeWhile is_digit r'), dropWhile is_digit r')
                    else Some (d, None, r)
        | [] \<Rightarrow> Some (d, None, r)))"

definition number_text :: "string \<times> string option \<times> string \<Rightarrow> string \<times> string" where
  "number_text m = (case m of (d, fr, r) \<Rightarrow> (d, case fr of None \<Rightarrow> [] | Some f \<Rightarrow> f))"

text \<open>A keyword (in any case), \<open>\W*\<close> and a number, at the start of a string.\<close>

fun keyword_number :: "string list \<Rightarrow> string \<Rightarrow> (string \<times> string) option" where
  "keyword_number [] s = None"
| "keyword_number (k # ks) s =
     (if has_prefix (to_lower s) k
      then (case number_at (dropWhile (\<lambda>c. \<not> is_word c) (drop (length k) s)) of
              Some m \<Rightarrow> Some (number_text m)
            | None \<Rightarrow> keyword_number ks s)
      else keyword_number ks s)"

text \<open>\<open>(?i)(?:chapter|episode)\W*(number)\<close>, anywhere.\<close>

fun re_long :: "string \<Rightarrow> (string \<times> string) option" where
  "re_long [] = None"
| "re_long (c # cs) =
     (case keyword_number [''chapter'', ''episode''] (c # cs) of
        Some m \<Rightarrow> Some m
      | None \<Rightarrow> re_long cs)"

text \<open>
  \<open>(?i)\b(?:chap|ch|ep|#)\W*(number)\<close>, anywhere; the first argument says whether the byte before
  is a word character, which \<open>\b\<close> compares with the byte after.
\<close>

fun re_short :: "bool \<Rightarrow> string \<Rightarrow> (string \<times> string) option" where
  "re_short w [] = None"
| "re_short w (c # cs) =
     (case (if w \<noteq> is_word c then keyword_number [''chap'', ''ch'', ''ep'', ''#''] (c # cs) else None) of
        Some m \<Rightarrow> Some m
      | None \<Rightarrow> re_short (is_word c) cs)"

text \<open>
  \<open>^\s*(number)\b\<close>. The trailing \<open>\b\<close> makes the engine give the fraction back when a word
  character follows it: the digits before the point then end at a boundary.
\<close>

definition is_re_space :: "char \<Rightarrow> bool" where
  "is_re_space c \<longleftrightarrow> ch c = 32 \<or> ch c = 9 \<or> ch c = 10 \<or> ch c = 12 \<or> ch c = 13"

definition starts_word :: "string \<Rightarrow> bool" where
  "starts_word s = (case s of [] \<Rightarrow> False | c # _ \<Rightarrow> is_word c)"

definition re_leading :: "string \<Rightarrow> (string \<times> string) option" where
  "re_leading s =
     (case number_at (dropWhile is_re_space s) of
        None \<Rightarrow> None
      | Some (d, Some f, r) \<Rightarrow> if starts_word r then Some (d, []) else Some (d, f)
      | Some (d, None, r) \<Rightarrow> if starts_word r then None else Some (d, []))"

definition regexes :: "(string \<Rightarrow> (string \<times> string) option) list" where
  "regexes = [re_long, re_short False, re_leading]"

section \<open>Parsing and rounding\<close>

text \<open>\<open>strconv.ParseFloat\<close> on digits and fraction digits; \<open>None\<close> is the range error.\<close>

definition decimal_value :: "string \<times> string \<Rightarrow> rat" where
  "decimal_value m = (case m of (d, f) \<Rightarrow>
     of_nat (digits_val d) + of_nat (digits_val f) / 10 ^ length f)"

definition parse_float :: "string \<times> string \<Rightarrow> f64 option" where
  "parse_float m = (if decimal_value m < 2 ^ 1024 - 2 ^ 970 then Some (fl (decimal_value m)) else None)"

definition round_num :: "f64 \<Rightarrow> f64" where
  "round_num num = fl (of_int (go_round (fl (num * 100))) / 100)"

fun from_title_with :: "(string \<Rightarrow> (string \<times> string) option) list \<Rightarrow> string \<Rightarrow> f64" where
  "from_title_with [] t = 0"
| "from_title_with (re # res) t =
     (case re t of
        None \<Rightarrow> from_title_with res t
      | Some m \<Rightarrow> (case parse_float m of
            None \<Rightarrow> from_title_with res t
          | Some f \<Rightarrow> if f > 0 then round_num f else from_title_with res t))"

definition from_title :: "string \<Rightarrow> f64" where
  "from_title title = from_title_with regexes (trim_space title)"

definition resolve :: "f64 \<Rightarrow> string \<Rightarrow> f64" where
  "resolve num title = (if num > 0 then round_num num else from_title title)"

section \<open>Rounding is exact on integers and idempotent\<close>

lemma bin_exp_less:
  assumes "x \<noteq> 0" "\<bar>x\<bar> < 2 ^ k"
  shows "bin_exp x < int k"
proof (rule ccontr)
  assume "\<not> bin_exp x < int k"
  then have "pow2 (int k) \<le> pow2 (bin_exp x)" by (intro pow2_mono) simp
  with bin_exp_le [OF assms(1)] assms(2) show False by simp
qed

lemma fl_of_int:
  assumes "\<bar>i\<bar> < 2 ^ 53"
  shows "fl (of_int i) = of_int i"
proof (cases "i = 0")
  case False
  let ?x = "of_int i :: rat"
  have "\<bar>?x\<bar> < 2 ^ 53"
    using assms by (metis of_int_abs of_int_less_iff of_int_numeral of_int_power)
  then have "bin_exp ?x < 53" using bin_exp_less [of ?x 53] False by simp
  then have k: "bin_exp ?x - 52 = - int (nat (52 - bin_exp ?x))" by simp
  define k where "k = nat (52 - bin_exp ?x)"
  have u: "ulp ?x = 1 / 2 ^ k"
    using k by (cases "k = 0") (auto simp: ulp_def pow2_def k_def)
  have "?x / ulp ?x = of_int (i * 2 ^ k)" by (simp add: u)
  then have "round_even (?x / ulp ?x) = i * 2 ^ k" by (simp only: round_even_of_int)
  then show ?thesis using False by (simp add: fl_def u)
qed simp

lemma fl_of_nat: "n < 2 ^ 53 \<Longrightarrow> fl (of_nat n) = of_nat n"
  using fl_of_int [of "int n"] by simp

lemma go_round_of_int [simp]: "go_round (of_int i) = i"
  by (rule go_round_near) simp

lemma round_num_of_nat:
  assumes "n < 2 ^ 46"
  shows "round_num (of_nat n) = of_nat n"
proof -
  have "int n * 100 < 2 ^ 53" using assms by simp
  then have "fl (of_int (int n * 100)) = of_int (int n * 100)" by (intro fl_of_int) simp
  then have "go_round (fl (of_nat n * 100)) = int n * 100" by (metis go_round_of_int of_int_mult of_int_numeral of_int_of_nat_eq)
  then show ?thesis using assms by (simp add: round_num_def fl_of_nat)
qed

text \<open>The hundredths of a number that was rounded: rounding it again finds the same integer.\<close>

lemma go_round_hundredths:
  assumes "\<bar>i\<bar> \<le> 2 ^ 50"
  shows "go_round (fl (fl (of_int i / 100) * 100)) = i"
proof (rule go_round_near)
  let ?q = "of_int i / 100 :: rat" and ?a = "\<bar>of_int i\<bar> :: rat"
  let ?y = "fl ?q * 100"
  have a: "?a \<le> 2 ^ 50"
    using assms by (metis of_int_abs of_int_le_iff of_int_numeral of_int_power)
  have 1: "\<bar>?y - of_int i\<bar> \<le> ?a / 2 ^ 53"
  proof -
    have "?y - of_int i = (fl ?q - ?q) * 100" by simp
    then have "\<bar>?y - of_int i\<bar> = \<bar>fl ?q - ?q\<bar> * 100" by (simp only: abs_mult abs_numeral)
    then show ?thesis using fl_error [of ?q] by simp
  qed
  then have y: "\<bar>?y\<bar> \<le> 2 * ?a" by (auto simp: abs_if split: if_splits)
  have "\<bar>fl ?y - ?y\<bar> \<le> \<bar>?y\<bar> / 2 ^ 53" by (rule fl_error)
  also have "\<dots> \<le> 2 * ?a / 2 ^ 53" using y by (intro divide_right_mono) auto
  finally have 2: "\<bar>fl ?y - ?y\<bar> \<le> 2 * ?a / 2 ^ 53" .
  have "\<bar>fl ?y - of_int i\<bar> \<le> \<bar>fl ?y - ?y\<bar> + \<bar>?y - of_int i\<bar>" by simp
  also have "\<dots> \<le> 3 * ?a / 2 ^ 53" using 1 2 by simp
  also have "\<dots> < 1 / 2" using a by simp
  finally show "\<bar>fl ?y - of_int i\<bar> < 1 / 2" .
qed

lemma round_num_idem_strong:
  assumes "\<bar>x\<bar> \<le> 2 ^ 42"
  shows "round_num (round_num x) = round_num x"
proof -
  let ?i = "go_round (fl (x * 100))"
  have "\<bar>fl (x * 100)\<bar> \<le> 2 * \<bar>x * 100\<bar>"
    using fl_error [of "x * 100"] by (auto simp: abs_if split: if_splits)
  moreover have "\<bar>of_int ?i - fl (x * 100)\<bar> \<le> 1 / 2" by (rule go_round_error)
  ultimately have "\<bar>of_int ?i\<bar> \<le> 200 * \<bar>x\<bar> + 1"
    by (auto simp: abs_if abs_mult split: if_splits)
  with assms have "(of_int \<bar>?i\<bar> :: rat) \<le> of_int (2 ^ 50)"
    by simp
  then have "\<bar>?i\<bar> \<le> 2 ^ 50" by (simp only: of_int_le_iff)
  then show ?thesis by (simp add: round_num_def go_round_hundredths)
qed

lemma round_num_nonneg: "0 \<le> x \<Longrightarrow> 0 \<le> round_num x"
  by (simp add: round_num_def fl_nonneg go_round_nonneg)

section \<open>Titles of a known shape\<close>

lemma takeWhile_digits_append:
  "\<not> starts_word r \<or> (\<exists>c t. r = c # t \<and> \<not> is_digit c) \<Longrightarrow>
    takeWhile is_digit (nat_digits n @ r) = nat_digits n \<and> dropWhile is_digit (nat_digits n @ r) = r"
  by (cases r) (auto simp: takeWhile_append dropWhile_append nat_digits_all_digits starts_word_def
      is_word_def is_alnum_def)

text \<open>What may follow a whole number: neither a digit nor a point with a digit after it.\<close>

definition ends_number :: "string \<Rightarrow> bool" where
  "ends_number r = (case r of
      [] \<Rightarrow> True
    | c # r' \<Rightarrow> \<not> is_digit c \<and> \<not> (c = CHR ''.'' \<and> takeWhile is_digit r' \<noteq> []))"

lemma number_at_nat_digits:
  assumes "ends_number r"
  shows "number_at (nat_digits n @ r) = Some (nat_digits n, None, r)"
proof -
  have "takeWhile is_digit (nat_digits n @ r) = nat_digits n \<and> dropWhile is_digit (nat_digits n @ r) = r"
    using assms by (intro takeWhile_digits_append)
      (cases r; auto simp: ends_number_def starts_word_def)
  then show ?thesis
    using assms by (auto simp: number_at_def Let_def ends_number_def split: list.splits)
qed

lemma parse_float_nat_digits:
  assumes "n < 2 ^ 53"
  shows "parse_float (nat_digits n, []) = Some (of_nat n)"
proof -
  have "decimal_value (nat_digits n, []) = of_nat n"
    by (simp add: decimal_value_def digits_val_def [of "[]"])
  moreover have "(of_nat n :: rat) < 2 ^ 53" using assms by (metis of_nat_less_iff of_nat_numeral of_nat_power)
  moreover have "(2 ^ 53 :: rat) < 2 ^ 1024 - 2 ^ 970" by simp
  ultimately show ?thesis using assms by (simp add: parse_float_def fl_of_nat)
qed

section \<open>Titles the matchers do not read\<close>

lemma to_lower_digits: "list_all is_digit s \<Longrightarrow> to_lower s = s"
  by (induction s) (auto simp: to_lower_def lower_char_def is_digit_def is_upper_def)

lemma keyword_number_other_start:
  assumes "\<And>k. k \<in> set ks \<Longrightarrow> k \<noteq> [] \<and> hd k \<noteq> lower_char c"
  shows "keyword_number ks (c # cs) = None"
  using assms
proof (induction ks)
  case (Cons k ks)
  then have k: "k \<noteq> []" "hd k \<noteq> lower_char c" by auto
  then have "\<not> has_prefix (to_lower (c # cs)) k" by (cases k) (auto simp: to_lower_def)
  with Cons show ?case by auto
qed simp

lemma digit_not_keyword:
  assumes "is_digit c"
  shows "lower_char c \<noteq> CHR ''c''" "lower_char c \<noteq> CHR ''e''" "lower_char c \<noteq> CHR ''#''"
  using assms by (auto simp: lower_char_def is_digit_def is_upper_def ch_def)

lemma re_long_digits: "list_all is_digit s \<Longrightarrow> re_long s = None"
proof (induction s)
  case (Cons c cs)
  have "keyword_number [''chapter'', ''episode''] (c # cs) = None"
    using Cons.prems digit_not_keyword [of c] by (intro keyword_number_other_start) auto
  with Cons show ?case by simp
qed simp

lemma re_short_digits: "list_all is_digit s \<Longrightarrow> re_short w s = None"
proof (induction s arbitrary: w)
  case (Cons c cs)
  have "keyword_number [''chap'', ''ch'', ''ep'', ''#''] (c # cs) = None"
    using Cons.prems digit_not_keyword [of c] by (intro keyword_number_other_start) auto
  with Cons show ?case by simp
qed simp

lemma trim_by_no: "list_all (\<lambda>c. \<not> P c) s \<Longrightarrow> trim_by P s = s"
proof -
  assume a: "list_all (\<lambda>c. \<not> P c) s"
  have d: "dropWhile P t = t" if "list_all (\<lambda>c. \<not> P c) t" for t
    using that by (cases t) auto
  have "list_all (\<lambda>c. \<not> P c) (rev s)" using a by (simp add: list_all_iff)
  then show ?thesis using a by (simp add: trim_by_def d)
qed

lemma nat_digits_list_all: "list_all is_digit (nat_digits n)"
  by (simp add: list_all_iff nat_digits_all_digits)

text \<open>Trimming the blanks at the end of a title leaves what follows the number of the same shape.\<close>

definition trim_right :: "string \<Rightarrow> string" where
  "trim_right s = rev (dropWhile is_space (rev s))"

lemma trim_space_prefix:
  assumes "p \<noteq> []" "\<not> is_space (hd p)" "\<not> is_space (last p)"
  shows "trim_space (p @ r) = p @ trim_right r"
proof -
  have 1: "dropWhile is_space (p @ r) = p @ r" using assms(1,2) by (cases p) auto
  have "rev p \<noteq> []" "\<not> is_space (hd (rev p))" using assms by (auto simp: hd_rev)
  then have "dropWhile is_space (rev r @ rev p) = dropWhile is_space (rev r) @ rev p"
    by (cases "rev p") (auto simp: dropWhile_append)
  then show ?thesis by (simp add: trim_space_def trim_by_def 1 trim_right_def)
qed

lemma trim_right_split: "\<exists>t. s = trim_right s @ t \<and> list_all is_space t"
proof -
  have "s = trim_right s @ rev (takeWhile is_space (rev s))"
    unfolding trim_right_def by (metis rev_append rev_rev_ident takeWhile_dropWhile_id)
  moreover have "list_all is_space (rev (takeWhile is_space (rev s)))"
    by (auto simp: list_all_iff dest: set_takeWhileD)
  ultimately show ?thesis by blast
qed

lemma ends_number_trim_right:
  assumes "ends_number r"
  shows "ends_number (trim_right r)"
proof -
  obtain t where t: "r = trim_right r @ t" "list_all is_space t" using trim_right_split by blast
  show ?thesis
  proof (cases "trim_right r")
    case (Cons c r')
    have "takeWhile is_digit (r' @ t) = [] \<Longrightarrow> takeWhile is_digit r' = []" by (cases r') (auto split: if_splits)
    then show ?thesis using assms t(1) Cons unfolding ends_number_def by (auto split: list.splits)
  qed (simp add: ends_number_def)
qed

lemma re_long_chapter:
  assumes "ends_number r"
  shows "re_long (''Chapter '' @ nat_digits n @ r) = Some (nat_digits n, [])"
proof -
  obtain c cs where d: "nat_digits n = c # cs" by (cases "nat_digits n") auto
  have "is_digit c" using nat_digits_all_digits [of c n] d by simp
  then have w: "is_word c" by (simp add: is_word_def is_alnum_def)
  have "\<not> is_word (CHR '' '')" by code_simp
  have "dropWhile (\<lambda>c. \<not> is_word c) (CHR '' '' # nat_digits n @ r) = nat_digits n @ r"
    using d w \<open>\<not> is_word (CHR '' '')\<close> by simp
  moreover have "to_lower ''Chapter '' = ''chapter ''" by code_simp
  ultimately have "keyword_number [''chapter'', ''episode''] (''Chapter '' @ nat_digits n @ r) = Some (nat_digits n, [])"
    using number_at_nat_digits [OF assms, of n]
    by (simp add: to_lower_def number_text_def)
  then show ?thesis by simp
qed

section \<open>Properties\<close>

text \<open>
  C40: A title of the form "Chapter n" followed by anything that does not continue the number
  (the end, a blank, a colon, a dash, a point that starts no fraction) gives exactly the number n:
  parsing, the rounding to hundredths in double precision and the division lose nothing for
  every n below \<open>2\<^sup>4\<^sup>6\<close>.
\<close>

theorem from_title_reads_chapter_number:
  assumes "0 < n" "n < 2 ^ 46" "ends_number rest"
  shows "from_title (''Chapter '' @ nat_digits n @ rest) = of_nat n"
proof -
  let ?p = "''Chapter '' @ nat_digits n"
  have l: "last ?p = last (nat_digits n)" by simp
  have "is_digit (last (nat_digits n))" by (rule nat_digits_all_digits [of _ n]) simp
  then have "\<not> is_space (last ?p)" unfolding l by (auto simp: is_digit_def is_space_def)
  moreover have "\<not> is_space (hd ?p)" by (simp add: is_space_def ch_def)
  ultimately have "trim_space (?p @ rest) = ?p @ trim_right rest" by (intro trim_space_prefix) auto
  moreover have "re_long (?p @ trim_right rest) = Some (nat_digits n, [])"
    using re_long_chapter [OF ends_number_trim_right [OF assms(3)], of n] by simp
  moreover have "parse_float (nat_digits n, []) = Some (of_nat n)"
    using assms(2) by (intro parse_float_nat_digits) simp
  ultimately show ?thesis
    using assms round_num_of_nat [of n] by (simp add: from_title_def regexes_def)
qed

theorem from_title_reads_chapter_number_witness:
  "from_title (''Chapter '' @ nat_digits 12 @ '': The End '') = 12"
proof -
  have "ends_number '': The End ''" by code_simp
  then show ?thesis using from_title_reads_chapter_number [of 12 "'': The End ''"] by simp
qed

text \<open>
  A stored number is canonical: resolving it again, with whatever title, gives the same number
  (numbers up to \<open>2\<^sup>4\<^sup>2\<close>), so a repeated sync or backfill does not change it.
\<close>

theorem resolve_idempotent:
  assumes "0 < num" "num \<le> 2 ^ 42" "0 < resolve num title"
  shows "resolve (resolve num title) title' = resolve num title"
  using assms round_num_idem_strong [of num] by (simp add: resolve_def)

theorem resolve_idempotent_witness: "resolve (resolve (1 / 3) ''a'') ''Chapter 9'' = resolve (1 / 3) ''a''"
proof -
  have "0 < resolve (1 / 3) ''a''" by code_simp
  then show ?thesis using resolve_idempotent [of "1 / 3" "''a''" "''Chapter 9''"] by simp
qed

text \<open>
  The alternative \<open>#\<close> of the short pattern is dead at the start of a title: \<open>\b\<close> asks for a word
  character on exactly one side and neither the start of the text nor \<open>#\<close> is one. A title that is
  "#n" gives no number, whatever n is.
\<close>

theorem hash_title_has_no_number: "from_title (CHR ''#'' # nat_digits n) = 0"
proof -
  have all: "list_all (\<lambda>c. \<not> is_space c) (CHR ''#'' # nat_digits n)"
    using nat_digits_list_all [of n] by (auto simp: list_all_iff is_space_def is_digit_def ch_def)
  have "keyword_number [''chapter'', ''episode''] (CHR ''#'' # nat_digits n) = None"
    by (intro keyword_number_other_start) (auto simp: lower_char_def is_upper_def ch_def)
  then have 1: "re_long (CHR ''#'' # nat_digits n) = None"
    by (simp add: re_long_digits [OF nat_digits_list_all])
  have 2: "re_short False (CHR ''#'' # nat_digits n) = None"
    by (simp add: re_short_digits [OF nat_digits_list_all] is_word_def is_alnum_def is_digit_def
        is_upper_def is_lower_def ch_def)
  have 3: "re_leading (CHR ''#'' # nat_digits n) = None"
    by (simp add: re_leading_def number_at_def is_re_space_def is_digit_def ch_def)
  show ?thesis
    using 1 2 3 by (simp add: from_title_def trim_space_def trim_by_no [OF all] regexes_def)
qed

end
