(* ===== verification/World.thy ===== *)
theory World
  imports GoStrings Float64
begin

text \<open>
  The state the components share. The rows of the SQLite tables follow
  \<open>internal/db/sqlcgen/models.go\<close> (a nullable column is an \<open>option\<close>, a timestamp the second it
  denotes), a table is the list of its rows in row-id order, and \<open>db\<close> is the record of tables.
  A statement reads the clock and the tables and returns a result, or an error with the tables as
  they were. \<open>db_call\<close> runs one: the schedule \<open>w_faults\<close> decides for each external call, in the
  order they are made, whether it fails and with what error, so a property that holds for every
  schedule holds whatever calls fail. \<open>in_tx\<close> is \<open>BeginTx\<close> / deferred \<open>Rollback\<close> / \<open>Commit\<close>.
\<close>

section \<open>Rows\<close>

record anime_stream =
  as_chapter :: int
  as_stream_url :: "string option"
  as_local_path :: "string option"

record app_setting =
  se_key :: string
  se_value :: string
  se_updated_at :: int

record chapter_row =
  c_id :: int
  c_media :: int
  c_external_id :: string
  c_title :: "string option"
  c_number :: "f64 option"
  c_uploaded_at :: "int option"
  c_source_order :: "int option"
  c_first_seen_at :: "int option"
  c_scanlator :: string

record cf_rule =
  r_id :: int
  r_category :: string
  r_field :: string
  r_keyword :: string
  r_min_weight :: int
  r_block_level :: int
  r_is_default :: int

text \<open>The values the CHECK constraint of \<open>downloads.status\<close> admits.\<close>

datatype dl_status = Queued | Downloading | Done | Failed

record download =
  d_id :: int
  d_chapter :: int
  d_status :: dl_status
  d_progress :: f64
  d_bytes :: "int option"
  d_bytes_per_sec :: "f64 option"
  d_position :: "int option"
  d_error :: "string option"
  d_created_at :: int
  d_completed_at :: "int option"

record extension =
  x_id :: int
  x_repository :: int
  x_package :: string
  x_name :: string
  x_version :: string
  x_content_type :: string
  x_lang :: string
  x_icon_url :: "string option"
  x_icon_local_path :: "string option"
  x_apk_url :: string
  x_jar_url :: "string option"
  x_jar_path :: "string option"
  x_installed :: bool
  x_enabled :: bool
  x_installed_at :: "int option"
  x_installed_version :: "string option"
  x_is_nsfw :: bool
  x_supports_latest :: bool
  x_source_id :: int

record folder =
  f_id :: int
  f_name :: string
  f_kind :: string
  f_system_key :: "string option"
  f_parent :: "int option"
  f_sort_order :: int
  f_include_in_update :: int
  f_include_in_download :: int

record genre =
  g_id :: int
  g_name :: string

record manga_page =
  p_chapter :: int
  p_number :: int
  p_local_path :: "string option"

record medium =
  m_id :: int
  m_extension_id :: "int option"
  m_extension_name :: string
  m_external_id :: string
  m_content_type :: string
  m_title :: string
  m_cover_path :: "string option"
  m_cover_local_path :: "string option"
  m_description :: "string option"
  m_status :: "string option"
  m_author :: "string option"
  m_artist :: "string option"
  m_extension_removed_at :: "int option"
  m_added_at :: "int option"
  m_last_viewed_at :: "int option"
  m_details_fetched_at :: "int option"
  m_chapters_synced_at :: "int option"
  m_cover_override :: "string option"
  m_content_block_rank :: "int option"
  m_search_failed_at :: "int option"

record metadata_link =
  l_id :: int
  l_media :: int
  l_provider :: string
  l_provider_id :: string
  l_provider_url :: string
  l_confidence :: f64
  l_locked :: int
  l_matched_at :: int
  l_cover_url :: string

record novel_content =
  n_chapter :: int
  n_local_path :: "string option"

record reading_progress =
  rp_id :: int
  rp_media :: int
  rp_chapter :: int
  rp_progress :: f64
  rp_completed :: bool
  rp_position_seconds :: "f64 option"
  rp_duration_seconds :: "f64 option"
  rp_updated_at :: int

record repository =
  re_id :: int
  re_index_url :: string
  re_name :: "string option"
  re_content_type :: string
  re_added_at :: int
  re_last_synced_at :: "int option"

record tag =
  t_id :: int
  t_name :: string

record media_tag =
  mt_media :: int
  mt_tag :: int
  mt_weight :: int

record tracker_account =
  ta_id :: int
  ta_type :: string
  ta_access_token :: string
  ta_refresh_token :: "string option"
  ta_expires_at :: "int option"
  ta_username :: string
  ta_score_format :: string

record tracker_link =
  tl_id :: int
  tl_media :: int
  tl_account :: int
  tl_external_id :: string
  tl_sync_progress :: bool
  tl_last_synced_at :: "int option"
  tl_library_id :: "string option"
  tl_title :: string
  tl_remote_url :: string
  tl_status :: int
  tl_last_chapter_read :: f64
  tl_total_chapters :: int
  tl_score :: f64
  tl_started_at :: "int option"
  tl_finished_at :: "int option"
  tl_private :: int

section \<open>The tables and the world\<close>

record db =
  streams :: "anime_stream list"
  app_settings :: "app_setting list"
  chapters :: "chapter_row list"
  cf_rules :: "cf_rule list"
  downloads :: "download list"
  extensions :: "extension list"
  folders :: "folder list"
  genres :: "genre list"
  manga_pages :: "manga_page list"
  media :: "medium list"
  media_folders :: "(int \<times> int) list"
  media_genres :: "(int \<times> int) list"
  media_tags :: "media_tag list"
  metadata_links :: "metadata_link list"
  novel_contents :: "novel_content list"
  progresses :: "reading_progress list"
  repositories :: "repository list"
  tags :: "tag list"
  tracker_accounts :: "tracker_account list"
  tracker_links :: "tracker_link list"

definition empty_db :: db where
  "empty_db = \<lparr>streams = [], app_settings = [], chapters = [], cf_rules = [], downloads = [],
     extensions = [], folders = [], genres = [], manga_pages = [], media = [], media_folders = [],
     media_genres = [], media_tags = [], metadata_links = [], novel_contents = [], progresses = [],
     repositories = [], tags = [], tracker_accounts = [], tracker_links = []\<rparr>"

record world =
  w_db :: db
  w_now :: int
  w_faults :: "go_err option list"

type_synonym 'a stmt = "int \<Rightarrow> db \<Rightarrow> (go_err + 'a) \<times> db"

text \<open>One external call: take the next outcome of the schedule.\<close>

definition next_fault :: "'z world_scheme \<Rightarrow> go_err option \<times> 'z world_scheme" where
  "next_fault w = (case w_faults w of
      [] \<Rightarrow> (None, w)
    | f # fs \<Rightarrow> (f, w\<lparr>w_faults := fs\<rparr>))"

definition db_call :: "'a stmt \<Rightarrow> ('z world_scheme, 'a) act" where
  "db_call q w = (case next_fault w of
      (Some e, w') \<Rightarrow> (Inl e, w')
    | (None, w') \<Rightarrow> (case q (w_now w') (w_db w') of (r, d) \<Rightarrow> (r, w'\<lparr>w_db := d\<rparr>)))"

text \<open>The two functions wrap an error of \<open>BeginTx\<close> and of \<open>Commit\<close>.\<close>

definition in_tx ::
    "(go_err \<Rightarrow> go_err) \<Rightarrow> (go_err \<Rightarrow> go_err) \<Rightarrow> ('z world_scheme, 'a) act \<Rightarrow> ('z world_scheme, 'a) act" where
  "in_tx on_begin on_commit body w = (case next_fault w of
      (Some e, w') \<Rightarrow> (Inl (on_begin e), w')
    | (None, w1) \<Rightarrow> (case body w1 of
          (Inl e, w2) \<Rightarrow> (Inl e, w2\<lparr>w_db := w_db w\<rparr>)
        | (Inr x, w2) \<Rightarrow> (case next_fault w2 of
              (Some e, w3) \<Rightarrow> (Inl (on_commit e), w3\<lparr>w_db := w_db w\<rparr>)
            | (None, w3) \<Rightarrow> (Inr x, w3))))"

section \<open>Shapes of statements\<close>

definition select_all :: "(db \<Rightarrow> 'a) \<Rightarrow> 'a stmt" where
  "select_all f now d = (Inr (f d), d)"

definition select_one :: "(db \<Rightarrow> 'a option) \<Rightarrow> 'a stmt" where
  "select_one f now d = (case f d of None \<Rightarrow> (Inl ErrNoRows, d) | Some x \<Rightarrow> (Inr x, d))"

definition exec :: "(int \<Rightarrow> db \<Rightarrow> db) \<Rightarrow> unit stmt" where
  "exec f now d = (Inr (), f now d)"

text \<open>The row id SQLite gives a new row: one more than the largest.\<close>

definition next_id :: "int list \<Rightarrow> int" where
  "next_id ids = fold max ids 0 + 1"

definition update_where :: "('r \<Rightarrow> bool) \<Rightarrow> ('r \<Rightarrow> 'r) \<Rightarrow> 'r list \<Rightarrow> 'r list" where
  "update_where P f rows = map (\<lambda>r. if P r then f r else r) rows"

definition delete_where :: "('r \<Rightarrow> bool) \<Rightarrow> 'r list \<Rightarrow> 'r list" where
  "delete_where P rows = filter (\<lambda>r. \<not> P r) rows"

text \<open>
  \<open>INSERT ... ON CONFLICT DO UPDATE\<close>: the row that conflicts is updated in place, otherwise the
  new row is appended; in both cases the resulting row is returned.
\<close>

definition upsert :: "('r \<Rightarrow> bool) \<Rightarrow> ('r \<Rightarrow> 'r) \<Rightarrow> 'r \<Rightarrow> 'r list \<Rightarrow> 'r \<times> 'r list" where
  "upsert P f new rows = (case find P rows of
      Some r \<Rightarrow> (f r, update_where P f rows)
    | None \<Rightarrow> (new, rows @ [new]))"

text \<open>A statement that inserts a reference fails when the row it refers to is missing
  (\<open>foreign_keys(1)\<close> in \<open>internal/db/db.go\<close>).\<close>

definition fk_error :: go_err where
  "fk_error = ErrExternal ''FOREIGN KEY constraint failed''"

definition with_fk :: "(db \<Rightarrow> bool) \<Rightarrow> 'a stmt \<Rightarrow> 'a stmt" where
  "with_fk ok q now d = (if ok d then q now d else (Inl fk_error, d))"

text \<open>\<open>UPDATE ... WHERE id = ? RETURNING *\<close>: the changed row, or no row.\<close>

definition update_returning :: "('r \<Rightarrow> bool) \<Rightarrow> ('r \<Rightarrow> 'r) \<Rightarrow> 'r list \<Rightarrow> (go_err + 'r) \<times> 'r list" where
  "update_returning P f rows = (case find P rows of
      None \<Rightarrow> (Inl ErrNoRows, rows)
    | Some r \<Rightarrow> (Inr (f r), update_where P f rows))"

text \<open>Columns of type TEXT hold NULL where the code passes an invalid \<open>sql.NullString\<close>.\<close>

definition null_string :: "string \<Rightarrow> string option" where
  "null_string s = (if s = [] then None else Some s)"

definition string_of :: "string option \<Rightarrow> string" where
  "string_of x = (case x of None \<Rightarrow> [] | Some s \<Rightarrow> s)"

definition coalesce :: "'a option \<Rightarrow> 'a option \<Rightarrow> 'a option" where
  "coalesce x y = (case x of None \<Rightarrow> y | Some v \<Rightarrow> Some v)"

definition nullif_empty :: "string option \<Rightarrow> string option" where
  "nullif_empty x = (if x = Some [] then None else x)"

lemmas stmt_simps [act_simps] = select_all_def select_one_def exec_def

section \<open>General facts\<close>

lemma fold_max_ge: "(m :: int) \<le> fold max xs m"
  by (induction xs arbitrary: m) (auto intro: order.trans [OF max.cobounded2])

lemma fold_max_in: "x \<in> set xs \<Longrightarrow> (x :: int) \<le> fold max xs m"
proof (induction xs arbitrary: m)
  case (Cons y ys)
  show ?case
  proof (cases "x = y")
    case True
    have "y \<le> max y m" by simp
    also have "\<dots> \<le> fold max ys (max y m)" by (rule fold_max_ge)
    finally show ?thesis using True by simp
  qed (use Cons in auto)
qed simp

lemma next_id_fresh: "x \<in> set ids \<Longrightarrow> x < next_id ids"
  using fold_max_in [of x ids 0] by (simp add: next_id_def)

lemma next_id_notin [simp]: "next_id ids \<notin> set ids"
  using next_id_fresh by blast

lemma next_id_pos: "0 < next_id ids"
  using fold_max_ge [of 0 ids] by (simp add: next_id_def)

lemma map_update_where:
  "(\<And>r. P r \<Longrightarrow> k (f r) = k r) \<Longrightarrow> map k (update_where P f rows) = map k rows"
  by (auto simp: update_where_def)

lemma set_update_where:
  "r \<in> set (update_where P f rows) \<Longrightarrow>
    (\<exists>r0 \<in> set rows. (P r0 \<and> r = f r0) \<or> (\<not> P r0 \<and> r = r0))"
  by (auto simp: update_where_def)

lemma set_delete_where [simp]: "set (delete_where P rows) = {r \<in> set rows. \<not> P r}"
  by (auto simp: delete_where_def)

lemma distinct_delete_where: "distinct (map k rows) \<Longrightarrow> distinct (map k (delete_where P rows))"
  by (simp add: delete_where_def distinct_map_filter_key)

text \<open>What an upsert leaves under its own key and under any other.\<close>

lemma upsert_find:
  assumes "\<And>r. P r \<Longrightarrow> P (f r)" "P new"
  shows "find P (snd (upsert P f new rows)) = Some (case find P rows of None \<Rightarrow> new | Some r \<Rightarrow> f r)"
proof -
  have "find P (rows @ [new]) = Some new" if "find P rows = None" for rows
    using that assms(2) by (induction rows) (auto split: if_splits)
  moreover have "find P (update_where P f rows) = Some (f r)" if "find P rows = Some r" for rows r
    using that assms(1) by (induction rows) (auto simp: update_where_def split: if_splits)
  ultimately show ?thesis by (cases "find P rows") (simp_all add: upsert_def)
qed

lemma upsert_find_other:
  assumes "\<And>r. P r \<Longrightarrow> \<not> Q r \<and> \<not> Q (f r)" "\<not> Q new"
  shows "find Q (snd (upsert P f new rows)) = find Q rows"
proof -
  have "find Q (update_where P f rows) = find Q rows" for rows
    using assms(1) by (induction rows) (auto simp: update_where_def)
  moreover have "find Q (rows @ [new]) = find Q rows" for rows
    using assms(2) by (induction rows) auto
  ultimately show ?thesis by (auto simp: upsert_def split: option.split)
qed

lemma set_upsert: "set (snd (upsert P f new rows)) \<subseteq> insert new (set rows \<union> f ` {r \<in> set rows. P r})"
  by (auto simp: upsert_def update_where_def split: option.split)

lemma upsert_keys:
  "(\<And>r. P r \<Longrightarrow> k (f r) = k r) \<Longrightarrow> set (map k (snd (upsert P f new rows))) =
    (if find P rows = None then insert (k new) (k ` set rows) else k ` set rows)"
  by (auto simp: upsert_def map_update_where [of P k f] simp del: set_map split: option.split) (simp_all add: map_update_where)

lemma distinct_upsert:
  assumes "distinct (map k rows)" "\<And>r. P r \<Longrightarrow> k (f r) = k r" "find P rows = None \<Longrightarrow> k new \<notin> k ` set rows"
  shows "distinct (map k (snd (upsert P f new rows)))"
  using assms by (auto simp: upsert_def map_update_where split: option.split)

lemma coalesce_simps [simp]:
  "coalesce None y = y" "coalesce (Some v) y = Some v"
  by (simp_all add: coalesce_def)

lemma string_of_simps [simp]: "string_of None = []" "string_of (Some s) = s"
  by (simp_all add: string_of_def)

text \<open>No external call fails.\<close>

abbreviation fault_free :: "'z world_scheme \<Rightarrow> bool" where
  "fault_free w \<equiv> w_faults w = []"

lemma next_fault_free [simp]: "fault_free w \<Longrightarrow> next_fault w = (None, w)"
  by (simp add: next_fault_def)

lemma next_fault_result: "next_fault w = (f, w') \<Longrightarrow> \<exists>fs. w' = w\<lparr>w_faults := fs\<rparr>"
  by (cases "w_faults w") (auto simp: next_fault_def intro: exI [of _ "[]"])

lemma next_fault_db [simp]: "next_fault w = (f, w') \<Longrightarrow> w_db w' = w_db w \<and> w_now w' = w_now w"
  by (auto dest!: next_fault_result)

text \<open>All a statement does to the world: it takes an outcome and may change the tables.\<close>

lemma db_call_result:
  assumes "db_call q w = (r, w')"
  shows "\<exists>fs d. w' = w\<lparr>w_faults := fs, w_db := d\<rparr> \<and>
           ((\<exists>e. r = Inl e \<and> d = w_db w) \<or> q (w_now w) (w_db w) = (r, d))"
proof -
  obtain f w1 where f: "next_fault w = (f, w1)" by (cases "next_fault w")
  then obtain fs where w1: "w1 = w\<lparr>w_faults := fs\<rparr>" using next_fault_result by blast
  show ?thesis
  proof (cases f)
    case None
    obtain r1 d1 where q: "q (w_now w) (w_db w) = (r1, d1)" by fastforce
    then have "r = r1" "w' = w\<lparr>w_faults := fs, w_db := d1\<rparr>"
      using assms f w1 None by (auto simp: db_call_def)
    with q show ?thesis by blast
  next
    case (Some e)
    then have "r = Inl e" "w' = w\<lparr>w_faults := fs\<rparr>"
      using assms f w1 by (auto simp: db_call_def)
    then have "w' = w\<lparr>w_faults := fs, w_db := w_db w\<rparr>" by simp
    with \<open>r = Inl e\<close> show ?thesis by blast
  qed
qed

lemma db_call_free:
  "fault_free w \<Longrightarrow> db_call q w = (case q (w_now w) (w_db w) of (r, d) \<Rightarrow> (r, w\<lparr>w_db := d\<rparr>))"
  by (simp add: db_call_def)

text \<open>A statement keeps an invariant of the tables when its effect on them does.\<close>

lemma keeps_db_call:
  assumes "\<And>now d. I d \<Longrightarrow> I (snd (q now d))"
  shows "keeps (\<lambda>w :: 'z world_scheme. I (w_db w)) (db_call q)"
proof (rule keepsI)
  fix w :: "'z world_scheme" assume w: "I (w_db w)"
  obtain f w' where f: "next_fault w = (f, w')" by (cases "next_fault w")
  then have d: "w_db w' = w_db w" by simp
  obtain r d' where q: "q (w_now w') (w_db w') = (r, d')" by (cases "q (w_now w') (w_db w')")
  have "I d'" using assms [of "w_db w'" "w_now w'"] w d q by simp
  then show "I (w_db (snd (db_call q w)))"
    using f q w d by (simp add: db_call_def split: option.split)
qed

lemma keeps_db_select [keeps_intros]:
  "keeps (\<lambda>w. I (w_db w)) (db_call (select_all f))"
  "keeps (\<lambda>w. I (w_db w)) (db_call (select_one g))"
  by (auto intro!: keeps_db_call simp: act_simps split: option.split)

lemma keeps_db_exec:
  "(\<And>now d. I d \<Longrightarrow> I (f now d)) \<Longrightarrow> keeps (\<lambda>w. I (w_db w)) (db_call (exec f))"
  by (auto intro!: keeps_db_call simp: act_simps)

text \<open>A transaction is atomic: when it returns an error the tables are those it started from.\<close>

lemma in_tx_atomic:
  assumes "in_tx ob oc body w = (Inl e, w')"
  shows "w_db w' = w_db w"
  using assms next_fault_db [of w]
  by (auto simp: in_tx_def split: prod.splits option.splits sum.splits)

lemma in_tx_commit:
  assumes "in_tx ob oc body w = (Inr x, w')"
  obtains w1 w2 where "next_fault w = (None, w1)" "body w1 = (Inr x, w2)" "next_fault w2 = (None, w')"
  using assms by (auto simp: in_tx_def split: prod.splits option.splits sum.splits)

lemma keeps_in_tx [keeps_intros]:
  fixes body :: "('z world_scheme, 'a) act"
  assumes "keeps (\<lambda>w. I (w_db w)) body"
  shows "keeps (\<lambda>w. I (w_db w)) (in_tx ob oc body)"
proof (rule keepsI)
  fix w :: "'z world_scheme" assume w: "I (w_db w)"
  obtain r w' where r: "in_tx ob oc body w = (r, w')" by (cases "in_tx ob oc body w")
  show "I (w_db (snd (in_tx ob oc body w)))"
  proof (cases r)
    case (Inl e)
    then show ?thesis using r w in_tx_atomic [of ob oc body w e w'] by simp
  next
    case (Inr x)
    then obtain w1 w2 where "next_fault w = (None, w1)" "body w1 = (Inr x, w2)" "next_fault w2 = (None, w')"
      using r in_tx_commit by metis
    then show ?thesis
      using r w assms by (metis (no_types, lifting) keeps_def next_fault_db snd_conv)
  qed
qed

text \<open>Only what a committed body leaves counts.\<close>

lemma keeps_in_tx_commit:
  fixes body :: "('z world_scheme, 'a) act"
  assumes "\<And>w x w'. I (w_db w) \<Longrightarrow> body w = (Inr x, w') \<Longrightarrow> I (w_db w')"
  shows "keeps (\<lambda>w. I (w_db w)) (in_tx ob oc body)"
proof (rule keepsI)
  fix w :: "'z world_scheme" assume w: "I (w_db w)"
  obtain r w' where r: "in_tx ob oc body w = (r, w')" by fastforce
  show "I (w_db (snd (in_tx ob oc body w)))"
  proof (cases r)
    case (Inl e)
    then show ?thesis using r w in_tx_atomic [of ob oc body w e w'] by simp
  next
    case (Inr x)
    obtain w1 w2 where t: "next_fault w = (None, w1)" "body w1 = (Inr x, w2)" "next_fault w2 = (None, w')"
      using in_tx_commit [OF r [unfolded Inr]] .
    then have "I (w_db w2)" using assms [OF _ t(2)] w by simp
    then show ?thesis using t(3) r by simp
  qed
qed

lemma in_tx_free:
  assumes "fault_free w" "body w = (r, w')" "fault_free w'"
  shows "in_tx ob oc body w = (r, case r of Inl e \<Rightarrow> w'\<lparr>w_db := w_db w\<rparr> | Inr x \<Rightarrow> w')"
  using assms by (simp add: in_tx_def split: sum.split)

text \<open>Calls that only read.\<close>

lemma db_select_one_state:
  assumes "db_call (select_one f) w = (r, w')"
  shows "w_db w' = w_db w \<and> w_now w' = w_now w"
  using db_call_result [OF assms] by (auto simp: select_one_def split: option.splits)

lemma db_select_all_state:
  assumes "db_call (select_all f) w = (r, w')"
  shows "w_db w' = w_db w \<and> w_now w' = w_now w"
  using db_call_result [OF assms] by (auto simp: select_all_def)

lemma db_select_one_ok:
  assumes "db_call (select_one f) w = (Inr x, w')"
  shows "f (w_db w) = Some x"
  using db_call_result [OF assms] by (auto simp: select_one_def split: option.splits)

lemma db_select_all_ok:
  assumes "db_call (select_all f) w = (Inr x, w')"
  shows "x = f (w_db w)"
  using db_call_result [OF assms] by (auto simp: select_all_def)

lemma db_exec_state:
  assumes "db_call (exec f) w = (r, w')"
  shows "w_now w' = w_now w \<and> (w_db w' = w_db w \<or> w_db w' = f (w_now w) (w_db w))"
  using db_call_result [OF assms] by (auto simp: exec_def)

lemma db_exec_ok:
  assumes "db_call (exec f) w = (Inr x, w')"
  shows "w_now w' = w_now w \<and> w_db w' = f (w_now w) (w_db w)"
  using db_call_result [OF assms] by (auto simp: exec_def)

section \<open>Reading and atomic calls\<close>

text \<open>
  \<open>reads\<close>: the call leaves the tables alone. \<open>atomic\<close>: the call leaves them alone when it returns an
  error. The introduction rules follow the shape of the code: reads, then one atomic step, then
  calls whose errors are ignored.
\<close>

definition reads :: "('z world_scheme, 'a) act \<Rightarrow> bool" where
  "reads m \<longleftrightarrow> (\<forall>w r w'. m w = (r, w') \<longrightarrow> w_db w' = w_db w \<and> w_now w' = w_now w)"

definition atomic :: "('z world_scheme, 'a) act \<Rightarrow> bool" where
  "atomic m \<longleftrightarrow> (\<forall>w e w'. m w = (Inl e, w') \<longrightarrow> w_db w' = w_db w)"

lemma readsD: "reads m \<Longrightarrow> m w = (r, w') \<Longrightarrow> w_db w' = w_db w \<and> w_now w' = w_now w"
  by (simp add: reads_def)

lemma atomicD: "atomic m \<Longrightarrow> m w = (Inl e, w') \<Longrightarrow> w_db w' = w_db w"
  by (simp add: atomic_def)

lemma seq_readsE:
  assumes "seq m f w = (r, w')" "reads m"
  obtains e where "r = Inl e" "w_db w' = w_db w"
    | x w1 where "m w = (Inr x, w1)" "w_db w1 = w_db w" "f x w1 = (r, w')"
proof -
  obtain r1 w1 where 1: "m w = (r1, w1)" by fastforce
  then have "w_db w1 = w_db w" using readsD [OF assms(2)] by blast
  with 1 assms(1) that show thesis by (cases r1) (auto simp: seq_def)
qed

lemma reads_select [atomic_intros]:
  "reads (db_call (select_one f))" "reads (db_call (select_all g))"
  unfolding reads_def using db_select_one_state db_select_all_state by blast+

lemma reads_basic [atomic_intros]: "reads (ret x)" "reads (fail e)" "reads (gets f)"
  by (simp_all add: reads_def act_simps)

lemma reads_seq [atomic_intros]: "reads m \<Longrightarrow> (\<And>x. reads (f x)) \<Longrightarrow> reads (seq m f)"
  unfolding reads_def seq_def by (simp split: prod.splits sum.splits)

lemma reads_wrap [atomic_intros]: "reads m \<Longrightarrow> reads (wrap t m)"
  unfolding reads_def wrap_def by (simp split: prod.splits sum.splits)

lemma reads_attempt [atomic_intros]: "reads m \<Longrightarrow> reads (attempt m)"
  unfolding reads_def attempt_def by (simp split: prod.splits)

lemma reads_if [atomic_intros]: "reads m \<Longrightarrow> reads n \<Longrightarrow> reads (if b then m else n)"
  by simp

lemma reads_case_option [atomic_intros]:
  "reads m \<Longrightarrow> (\<And>x. reads (f x)) \<Longrightarrow> reads (case opt of None \<Rightarrow> m | Some x \<Rightarrow> f x)"
  by (cases opt) auto

lemma reads_case_sum [atomic_intros]:
  "(\<And>e. reads (f e)) \<Longrightarrow> (\<And>x. reads (g x)) \<Longrightarrow> reads (case r of Inl e \<Rightarrow> f e | Inr x \<Rightarrow> g x)"
  by (cases r) auto

lemma atomic_db_call [atomic_intros]:
  assumes "\<And>now d e d'. q now d = (Inl e, d') \<Longrightarrow> d' = d"
  shows "atomic (db_call q)"
  unfolding atomic_def using db_call_result [of q] assms by fastforce

lemma atomic_in_tx [atomic_intros]: "atomic (in_tx ob oc body)"
  unfolding atomic_def using in_tx_atomic by blast

lemma atomic_reads: "reads m \<Longrightarrow> atomic m"
  unfolding atomic_def reads_def by blast

lemma atomic_total: "total m \<Longrightarrow> atomic m"
  unfolding atomic_def total_def by (metis Inl_Inr_False prod.inject)

lemma atomic_seq [atomic_intros]: "reads m \<Longrightarrow> (\<And>x. atomic (f x)) \<Longrightarrow> atomic (seq m f)"
  unfolding atomic_def reads_def seq_def by (simp split: prod.splits sum.splits)

lemma atomic_seq_total: "atomic m \<Longrightarrow> (\<And>x. total (f x)) \<Longrightarrow> atomic (seq m f)"
  unfolding atomic_def total_def seq_def
  by (simp split: prod.splits sum.splits) (metis Inl_Inr_False prod.inject)

lemma atomic_wrap [atomic_intros]: "atomic m \<Longrightarrow> atomic (wrap t m)"
  unfolding atomic_def wrap_def by (simp split: prod.splits sum.splits)

lemma atomic_fail [atomic_intros]: "atomic (fail e)" "atomic (ret x)"
  by (simp_all add: atomic_def act_simps)

lemma atomic_if [atomic_intros]: "atomic m \<Longrightarrow> atomic n \<Longrightarrow> atomic (if b then m else n)"
  by simp

lemma atomic_case_option [atomic_intros]:
  "atomic m \<Longrightarrow> (\<And>x. atomic (f x)) \<Longrightarrow> atomic (case opt of None \<Rightarrow> m | Some x \<Rightarrow> f x)"
  by (cases opt) auto

end
