(* ===== verification/Q_Filter.thy ===== *)
theory Q_Filter
  imports World "HOL-Library.Char_ord" "HOL-Library.List_Lexorder" "HOL-Library.Product_Lexorder"
begin

text \<open>
  The statements on content filter rules, genres and tags (\<open>internal/db/queries/content_filter.sql\<close>,
  \<open>genres.sql\<close> and \<open>tags.sql\<close>, compiled into \<open>internal/db/sqlcgen\<close>). \<open>ORDER BY\<close> on text
  columns compares bytes, which is the lexicographic order on strings.
\<close>

section \<open>Content filter rules\<close>

definition q_list_content_filter_rules :: "cf_rule list stmt" where
  "q_list_content_filter_rules =
     select_all (\<lambda>d. sort_key (\<lambda>r. (r_category r, r_field r, r_keyword r)) (cf_rules d))"

text \<open>The columns of the UNIQUE constraint: field, keyword and category.\<close>

definition q_create_content_filter_rule ::
    "string \<Rightarrow> string \<Rightarrow> string \<Rightarrow> int \<Rightarrow> int \<Rightarrow> cf_rule stmt" where
  "q_create_content_filter_rule category field keyword min_weight block_level now d =
     (let (row, rows) = upsert
            (\<lambda>r. r_field r = field \<and> r_keyword r = keyword \<and> r_category r = category)
            (\<lambda>r. r\<lparr>r_min_weight := min_weight, r_block_level := block_level\<rparr>)
            \<lparr>r_id = next_id (map r_id (cf_rules d)), r_category = category, r_field = field,
             r_keyword = keyword, r_min_weight = min_weight, r_block_level = block_level,
             r_is_default = 0\<rparr>
            (cf_rules d)
      in (Inr row, d\<lparr>cf_rules := rows\<rparr>))"

definition q_delete_content_filter_rule :: "int \<Rightarrow> unit stmt" where
  "q_delete_content_filter_rule i =
     exec (\<lambda>now d. d\<lparr>cf_rules := delete_where (\<lambda>r. r_id r = i) (cf_rules d)\<rparr>)"

definition q_delete_user_content_filter_rules :: "unit stmt" where
  "q_delete_user_content_filter_rules =
     exec (\<lambda>now d. d\<lparr>cf_rules := delete_where (\<lambda>r. r_is_default r = 0) (cf_rules d)\<rparr>)"

definition q_set_media_content_block_rank :: "int option \<Rightarrow> int \<Rightarrow> unit stmt" where
  "q_set_media_content_block_rank rank i =
     exec (\<lambda>now d. d\<lparr>media := update_where (\<lambda>m. m_id m = i) (\<lambda>m. m\<lparr>m_content_block_rank := rank\<rparr>) (media d)\<rparr>)"

definition q_list_recomputable_media_ids :: "int list stmt" where
  "q_list_recomputable_media_ids =
     select_all (\<lambda>d. sort (map m_id (filter (\<lambda>m. m_added_at m \<noteq> None) (media d))))"

definition q_get_content_filter_inputs :: "int \<Rightarrow> (string \<times> string option) stmt" where
  "q_get_content_filter_inputs i =
     select_one (\<lambda>d. map_option (\<lambda>m. (m_title m, m_description m)) (find (\<lambda>m. m_id m = i) (media d)))"

definition q_list_media_ids_with_sparse_tags :: "int \<Rightarrow> int list stmt" where
  "q_list_media_ids_with_sparse_tags n =
     select_all (\<lambda>d. [m_id m. m \<leftarrow> media d, l \<leftarrow> metadata_links d,
        l_media l = m_id m \<and> l_provider l = ''anilist'' \<and> m_added_at m \<noteq> None \<and>
        int (length (filter (\<lambda>t. mt_media t = m_id m) (media_tags d))) < n])"

section \<open>Genres\<close>

definition q_create_genre :: "string \<Rightarrow> genre stmt" where
  "q_create_genre name now d =
     (let (row, rows) = upsert (\<lambda>g. g_name g = name) (\<lambda>g. g\<lparr>g_name := name\<rparr>)
            \<lparr>g_id = next_id (map g_id (genres d)), g_name = name\<rparr> (genres d)
      in (Inr row, d\<lparr>genres := rows\<rparr>))"

definition q_add_genre_to_media :: "int \<Rightarrow> int \<Rightarrow> unit stmt" where
  "q_add_genre_to_media media_id genre_id =
     exec (\<lambda>now d. if (media_id, genre_id) \<in> set (media_genres d) then d
                   else d\<lparr>media_genres := media_genres d @ [(media_id, genre_id)]\<rparr>)"

definition q_clear_genres_for_media :: "int \<Rightarrow> unit stmt" where
  "q_clear_genres_for_media media_id =
     exec (\<lambda>now d. d\<lparr>media_genres := delete_where (\<lambda>p. fst p = media_id) (media_genres d)\<rparr>)"

definition q_list_genres_for_media :: "int \<Rightarrow> genre list stmt" where
  "q_list_genres_for_media media_id =
     select_all (\<lambda>d. sort_key g_name
        (filter (\<lambda>g. (media_id, g_id g) \<in> set (media_genres d)) (genres d)))"

section \<open>Tags\<close>

definition q_create_tag :: "string \<Rightarrow> tag stmt" where
  "q_create_tag name now d =
     (let (row, rows) = upsert (\<lambda>t. t_name t = name) (\<lambda>t. t\<lparr>t_name := name\<rparr>)
            \<lparr>t_id = next_id (map t_id (tags d)), t_name = name\<rparr> (tags d)
      in (Inr row, d\<lparr>tags := rows\<rparr>))"

definition q_add_tag_to_media :: "int \<Rightarrow> int \<Rightarrow> int \<Rightarrow> unit stmt" where
  "q_add_tag_to_media media_id tag_id weight now d =
     (Inr (), d\<lparr>media_tags := snd (upsert
        (\<lambda>t. mt_media t = media_id \<and> mt_tag t = tag_id)
        (\<lambda>t. t\<lparr>mt_weight := max (mt_weight t) weight\<rparr>)
        \<lparr>mt_media = media_id, mt_tag = tag_id, mt_weight = weight\<rparr> (media_tags d))\<rparr>)"

definition q_list_tags_with_weight_for_media :: "int \<Rightarrow> (string \<times> int) list stmt" where
  "q_list_tags_with_weight_for_media media_id =
     select_all (\<lambda>d. sort_key (\<lambda>p. (- snd p, fst p))
        [(t_name t, mt_weight mt). t \<leftarrow> tags d, mt \<leftarrow> media_tags d,
           mt_tag mt = t_id t \<and> mt_media mt = media_id])"

end
