(* ===== verification/ContentFilter.thy ===== *)
theory ContentFilter
  imports Q_Filter
begin

text \<open>
  The content filter (\<open>internal/contentfilter/matcher.go\<close> and \<open>manager.go\<close>): rules that match a
  title, a description, genres or weighted tags, the block rank a set of rules gives to an entry,
  the decision to hide it at a level, and the manager that keeps the compiled rules and writes the
  ranks to the database. The level is the \<open>int\<close> of the code: 0 unrestricted, 1 moderate, 2 strict.
\<close>

section \<open>Levels\<close>

definition unrestricted :: int where "unrestricted = 0"
definition moderate :: int where "moderate = 1"
definition strict :: int where "strict = 2"

definition norm :: "string \<Rightarrow> string" where
  "norm s = to_lower (trim_space s)"

definition parse_level :: "string \<Rightarrow> int" where
  "parse_level s = (let t = to_lower (trim_space s) in
     if t = ''strict'' then strict else if t = ''moderate'' then moderate else unrestricted)"

definition level_string :: "int \<Rightarrow> string" where
  "level_string l = (if l = strict then ''strict'' else if l = moderate then ''moderate'' else ''unrestricted'')"

definition hidden :: "int \<Rightarrow> int \<Rightarrow> bool" where
  "hidden block_rank lvl \<longleftrightarrow> block_rank \<noteq> 0 \<and> block_rank \<le> lvl"

section \<open>The matcher\<close>

definition genre_alias :: "string \<rightharpoonup> string" where
  "genre_alias = map_of
     [(''18+'', ''adult''), (''r-18'', ''adult''), (''r18'', ''adult''),
      (''explicit'', ''pornographic''), (''h'', ''hentai''), (''doujinshi (18+)'', ''hentai''),
      (''guro'', ''gore''), (''splatter'', ''gore''), (''grotesque'', ''gore'')]"

record matcher =
  mx_genre :: "cf_rule list"
  mx_tag :: "cf_rule list"
  mx_title :: "cf_rule list"
  mx_desc :: "cf_rule list"

definition empty_matcher :: matcher where
  "empty_matcher = \<lparr>mx_genre = [], mx_tag = [], mx_title = [], mx_desc = []\<rparr>"

definition add_to_matcher :: "cf_rule \<Rightarrow> matcher \<Rightarrow> matcher" where
  "add_to_matcher r m =
     (if r_field r = ''genre'' then m\<lparr>mx_genre := mx_genre m @ [r]\<rparr>
      else if r_field r = ''tag'' then m\<lparr>mx_tag := mx_tag m @ [r]\<rparr>
      else if r_field r = ''title'' then m\<lparr>mx_title := mx_title m @ [r]\<rparr>
      else if r_field r = ''description'' then m\<lparr>mx_desc := mx_desc m @ [r]\<rparr>
      else m)"

definition norm_rule :: "cf_rule \<Rightarrow> cf_rule" where
  "norm_rule r = r\<lparr>r_keyword := norm (r_keyword r)\<rparr>"

fun build_matcher_from :: "matcher \<Rightarrow> cf_rule list \<Rightarrow> matcher" where
  "build_matcher_from m [] = m"
| "build_matcher_from m (r # rs) =
     (let r' = norm_rule r in
      if r_keyword r' = [] then build_matcher_from m rs
      else build_matcher_from (add_to_matcher r' m) rs)"

definition build_matcher :: "cf_rule list \<Rightarrow> matcher" where
  "build_matcher rules = build_matcher_from empty_matcher rules"

definition has_rules :: "matcher \<Rightarrow> bool" where
  "has_rules m \<longleftrightarrow> length (mx_genre m) + length (mx_tag m) + length (mx_title m) + length (mx_desc m) > 0"

text \<open>The closure \<open>take\<close> of \<open>blockRank\<close>: keep the smallest level other than 0.\<close>

definition take_level :: "int \<Rightarrow> int \<Rightarrow> int" where
  "take_level bl best = (if bl \<noteq> 0 \<and> (best = 0 \<or> bl < best) then bl else best)"

definition take_matching :: "(cf_rule \<Rightarrow> bool) \<Rightarrow> cf_rule list \<Rightarrow> int \<Rightarrow> int" where
  "take_matching P rs best = fold (\<lambda>r b. if P r then take_level (r_block_level r) b else b) rs best"

fun expand :: "string list \<Rightarrow> string list" where
  "expand [] = []"
| "expand (t # ts) =
     (let t' = norm t in
      if t' = [] then expand ts
      else t' # (case genre_alias t' of None \<Rightarrow> [] | Some a \<Rightarrow> [a]) @ expand ts)"

fun expand_weighted :: "string list \<Rightarrow> int list \<Rightarrow> (string \<times> int) list" where
  "expand_weighted [] ws = []"
| "expand_weighted (t # ts) ws =
     (let t' = norm t;
          w = (case ws of [] \<Rightarrow> 0 | w # _ \<Rightarrow> w);
          ws' = (case ws of [] \<Rightarrow> [] | _ # ws' \<Rightarrow> ws')
      in if t' = [] then expand_weighted ts ws'
         else (t', w) # (case genre_alias t' of None \<Rightarrow> [] | Some a \<Rightarrow> [(a, w)]) @ expand_weighted ts ws')"

definition block_rank :: "matcher \<Rightarrow> string \<Rightarrow> string \<Rightarrow> string list \<Rightarrow> string list \<Rightarrow> int list \<Rightarrow> int" where
  "block_rank m title desc gs ts ws =
     (let b0 = 0;
          b1 = (if mx_title m \<noteq> []
                then (let tl = norm title in take_matching (\<lambda>r. contains tl (r_keyword r)) (mx_title m) b0)
                else b0);
          b2 = (if mx_desc m \<noteq> [] \<and> desc \<noteq> []
                then (let dl = norm desc in take_matching (\<lambda>r. contains dl (r_keyword r)) (mx_desc m) b1)
                else b1);
          b3 = (if mx_genre m \<noteq> []
                then (let g = expand gs in
                      take_matching (\<lambda>r. list_ex (\<lambda>x. x = r_keyword r \<or> contains x (r_keyword r)) g)
                        (mx_genre m) b2)
                else b2);
          b4 = (if mx_tag m \<noteq> []
                then (let t = expand_weighted ts ws in
                      take_matching (\<lambda>r. list_ex (\<lambda>(s, w). w \<ge> r_min_weight r \<and>
                          (s = r_keyword r \<or> contains s (r_keyword r))) t)
                        (mx_tag m) b3)
                else b3)
      in b4)"

definition title_block_rank :: "matcher \<Rightarrow> string \<Rightarrow> int" where
  "title_block_rank m title =
     (let tl = norm title in
      fold (\<lambda>r best. if contains tl (r_keyword r) \<and> (best = 0 \<or> r_block_level r < best)
                     then r_block_level r else best) (mx_title m) 0)"

section \<open>What a rule matches\<close>

text \<open>
  The contract of the matcher, stated on one rule: its normalised keyword is not empty and occurs
  in the text its field names, where a genre or tag also stands for its alias and a tag counts from
  the rule's weight on.
\<close>

definition rule_matches :: "cf_rule \<Rightarrow> string \<Rightarrow> string \<Rightarrow> string list \<Rightarrow> string list \<Rightarrow> int list \<Rightarrow> bool" where
  "rule_matches r title desc gs ts ws \<longleftrightarrow>
     (let k = norm (r_keyword r) in k \<noteq> [] \<and>
       ((r_field r = ''genre'' \<and> (\<exists>x \<in> set (expand gs). contains x k)) \<or>
        (r_field r = ''tag'' \<and> (\<exists>(s, w) \<in> set (expand_weighted ts ws). r_min_weight r \<le> w \<and> contains s k)) \<or>
        (r_field r = ''title'' \<and> contains (norm title) k) \<or>
        (r_field r = ''description'' \<and> desc \<noteq> [] \<and> contains (norm desc) k)))"

text \<open>The levels the database admits (the CHECK constraint of the table).\<close>

definition level_ok :: "cf_rule \<Rightarrow> bool" where
  "level_ok r \<longleftrightarrow> r_block_level r = 1 \<or> r_block_level r = 2"

definition rules_ok :: "cf_rule list \<Rightarrow> bool" where
  "rules_ok rs \<longleftrightarrow> (\<forall>r \<in> set rs. level_ok r)"

section \<open>Facts about the matcher\<close>

lemma norm_rule_simps [simp]:
  "r_keyword (norm_rule r) = norm (r_keyword r)" "r_field (norm_rule r) = r_field r"
  "r_block_level (norm_rule r) = r_block_level r" "r_min_weight (norm_rule r) = r_min_weight r"
  "level_ok (norm_rule r) = level_ok r"
  by (simp_all add: norm_rule_def level_ok_def)

lemma build_matcher_from_fields:
  "mx_genre (build_matcher_from m rs) = mx_genre m @ map norm_rule (filter (\<lambda>r. norm (r_keyword r) \<noteq> [] \<and> r_field r = ''genre'') rs)"
  "mx_tag (build_matcher_from m rs) = mx_tag m @ map norm_rule (filter (\<lambda>r. norm (r_keyword r) \<noteq> [] \<and> r_field r = ''tag'') rs)"
  "mx_title (build_matcher_from m rs) = mx_title m @ map norm_rule (filter (\<lambda>r. norm (r_keyword r) \<noteq> [] \<and> r_field r = ''title'') rs)"
  "mx_desc (build_matcher_from m rs) = mx_desc m @ map norm_rule (filter (\<lambda>r. norm (r_keyword r) \<noteq> [] \<and> r_field r = ''description'') rs)"
  by (induction rs arbitrary: m) (auto simp: add_to_matcher_def Let_def)

lemmas build_matcher_fields =
  build_matcher_from_fields [of empty_matcher, folded build_matcher_def, simplified empty_matcher_def matcher.simps append_Nil]

lemma take_matching_eq_0:
  assumes "rules_ok rs"
  shows "take_matching P rs b = 0 \<longleftrightarrow> b = 0 \<and> (\<forall>r \<in> set rs. \<not> P r)"
  using assms by (induction rs arbitrary: b) (auto simp: take_matching_def take_level_def rules_ok_def level_ok_def)

text \<open>
  The fold behaves like "hidden at this level" says: a level is reached by the result exactly when
  it was reached before or some matching rule reaches it.
\<close>

lemma hidden_take_matching:
  assumes "rules_ok rs"
  shows "hidden (take_matching P rs b) lvl \<longleftrightarrow> hidden b lvl \<or> (\<exists>r \<in> set rs. P r \<and> r_block_level r \<le> lvl)"
  using assms
  by (induction rs arbitrary: b) (auto simp: take_matching_def take_level_def hidden_def rules_ok_def level_ok_def)

lemma hidden_0 [simp]: "\<not> hidden 0 lvl"
  by (simp add: hidden_def)

lemma norm_Nil [simp]: "norm [] = []"
  by (simp add: norm_def trim_space_def)

lemma contains_eq_or: "x = k \<or> contains x k \<longleftrightarrow> contains x k"
  by auto

lemma hidden_block_rank:
  assumes "rules_ok rules"
  shows "hidden (block_rank (build_matcher rules) title desc gs ts ws) lvl \<longleftrightarrow>
         (\<exists>r \<in> set rules. rule_matches r title desc gs ts ws \<and> r_block_level r \<le> lvl)"
proof -
  let ?m = "build_matcher rules"
  have ok: "rules_ok (mx_title ?m)" "rules_ok (mx_desc ?m)" "rules_ok (mx_genre ?m)" "rules_ok (mx_tag ?m)"
    using assms by (auto simp: build_matcher_fields rules_ok_def level_ok_def)
  have "hidden (block_rank ?m title desc gs ts ws) lvl \<longleftrightarrow>
      (\<exists>r \<in> set (mx_title ?m). contains (norm title) (r_keyword r) \<and> r_block_level r \<le> lvl) \<or>
      (desc \<noteq> [] \<and> (\<exists>r \<in> set (mx_desc ?m). contains (norm desc) (r_keyword r) \<and> r_block_level r \<le> lvl)) \<or>
      (\<exists>r \<in> set (mx_genre ?m). (\<exists>x \<in> set (expand gs). contains x (r_keyword r)) \<and> r_block_level r \<le> lvl) \<or>
      (\<exists>r \<in> set (mx_tag ?m). (\<exists>(s, w) \<in> set (expand_weighted ts ws). r_min_weight r \<le> w \<and> contains s (r_keyword r))
          \<and> r_block_level r \<le> lvl)"
    using ok by (simp add: block_rank_def Let_def hidden_take_matching contains_eq_or list_ex_iff)
  also have "\<dots> \<longleftrightarrow> (\<exists>r \<in> set rules. rule_matches r title desc gs ts ws \<and> r_block_level r \<le> lvl)"
    by (simp add: build_matcher_fields rule_matches_def Let_def) blast
  finally show ?thesis .
qed

lemma hidden_title_block_rank:
  assumes "rules_ok rules"
  shows "hidden (title_block_rank (build_matcher rules) title) lvl \<longleftrightarrow>
         (\<exists>r \<in> set rules. r_field r = ''title'' \<and> norm (r_keyword r) \<noteq> [] \<and>
            contains (norm title) (norm (r_keyword r)) \<and> r_block_level r \<le> lvl)"
proof -
  let ?m = "build_matcher rules"
  have ok: "rules_ok (mx_title ?m)"
    using assms by (auto simp: build_matcher_fields rules_ok_def level_ok_def)
  have fold: "hidden (fold (\<lambda>r best. if P r \<and> (best = 0 \<or> r_block_level r < best) then r_block_level r else best) rs b) lvl
      \<longleftrightarrow> hidden b lvl \<or> (\<exists>r \<in> set rs. P r \<and> r_block_level r \<le> lvl)"
    if "rules_ok rs" for P rs b
    using that by (induction rs arbitrary: b) (auto simp: hidden_def rules_ok_def level_ok_def)
  show ?thesis
    using fold [OF ok, of "\<lambda>r. contains (norm title) (r_keyword r)" 0]
    by (auto simp: title_block_rank_def Let_def build_matcher_fields)
qed

section \<open>The manager\<close>

text \<open>
  The manager's own state: the compiled matcher and the rules it was compiled from, the current
  level and the flag of a running recomputation.
\<close>

record cf_world = world +
  cf_matcher :: matcher
  cf_cached_rules :: "cf_rule list"
  cf_level :: int
  cf_recomputing :: bool

definition set_level :: "int \<Rightarrow> 'z cf_world_scheme \<Rightarrow> 'z cf_world_scheme" where
  "set_level l w = w\<lparr>cf_level := l\<rparr>"

definition reload :: "('z cf_world_scheme, unit) act" where
  "reload = seq (db_call q_list_content_filter_rules)
     (\<lambda>rows. modify (\<lambda>w. w\<lparr>cf_matcher := build_matcher rows, cf_cached_rules := rows\<rparr>))"

definition valid_field :: "string \<Rightarrow> bool" where
  "valid_field f \<longleftrightarrow> f = ''genre'' \<or> f = ''tag'' \<or> f = ''title'' \<or> f = ''description''"

text \<open>
  Each of the three operations ends by starting \<open>RecomputeAll\<close> in a goroutine of its own, which is
  \<open>recompute_all\<close> below, run by the scheduler at some later time.
\<close>

definition add_rule :: "string \<Rightarrow> string \<Rightarrow> string \<Rightarrow> int \<Rightarrow> int \<Rightarrow> ('z cf_world_scheme, cf_rule) act" where
  "add_rule category field keyword min_weight block_level =
     (if category = [] \<or> keyword = [] then fail (ErrMsg ''category and keyword are required'')
      else if \<not> valid_field field
      then fail (ErrMsg ''field must be genre/tag/title/description'')
      else if block_level \<noteq> 1 \<and> block_level \<noteq> 2
      then fail (ErrMsg ''blockLevel must be 1 (moderate) or 2 (strict)'')
      else seq (db_call (q_create_content_filter_rule category field (norm keyword)
                           (if min_weight < 0 then 0 else min_weight) block_level))
             (\<lambda>row. seq reload (\<lambda>_. ret row)))"

definition remove_rule :: "int \<Rightarrow> ('z cf_world_scheme, unit) act" where
  "remove_rule i = seq (db_call (q_delete_content_filter_rule i)) (\<lambda>_. reload)"

definition reset_rules :: "('z cf_world_scheme, unit) act" where
  "reset_rules = seq (db_call q_delete_user_content_filter_rules) (\<lambda>_. reload)"

text \<open>The rows of a query whose error the code drops: none then.\<close>

definition rows_or_nil :: "('s, 'a list) act \<Rightarrow> ('s, 'a list) act" where
  "rows_or_nil m = seq (attempt m) (\<lambda>r. ret (case r of Inl _ \<Rightarrow> [] | Inr rows \<Rightarrow> rows))"

definition recompute_media :: "int \<Rightarrow> ('z cf_world_scheme, unit) act" where
  "recompute_media i =
     seq (gets cf_matcher) (\<lambda>m.
     if \<not> has_rules m then db_call (q_set_media_content_block_rank None i)
     else seq (db_call (q_get_content_filter_inputs i)) (\<lambda>(title, desc).
     seq (rows_or_nil (db_call (q_list_genres_for_media i))) (\<lambda>genre_rows.
     seq (rows_or_nil (db_call (q_list_tags_with_weight_for_media i))) (\<lambda>tag_rows.
     let rank = block_rank m title (string_of desc) (map g_name genre_rows) (map fst tag_rows) (map snd tag_rows)
     in db_call (q_set_media_content_block_rank (if rank > 0 then Some rank else None) i)))))"

text \<open>\<open>RecomputeAll\<close>: a compare-and-swap lets one run at a time; the error of one entry is logged.\<close>

definition recompute_all :: "('z cf_world_scheme, unit) act" where
  "recompute_all w =
     (if cf_recomputing w then (Inr (), w)
      else (case seq (db_call q_list_recomputable_media_ids)
                   (for_each (\<lambda>i. ignore (recompute_media i)))
                   (w\<lparr>cf_recomputing := True\<rparr>) of
              (r, w') \<Rightarrow> (r, w'\<lparr>cf_recomputing := False\<rparr>)))"

definition browse_allowed :: "string \<Rightarrow> string list \<Rightarrow> 'z cf_world_scheme \<Rightarrow> bool" where
  "browse_allowed title gs w =
     (let lvl = cf_level w in
      if lvl = unrestricted then True
      else (let m = cf_matcher w;
                rank = title_block_rank m title;
                rank' = (if gs \<noteq> [] then
                           (let r = block_rank m [] [] gs [] [] in
                            if r \<noteq> 0 \<and> (rank = 0 \<or> r < rank) then r else rank)
                         else rank)
            in \<not> hidden rank' lvl))"

definition title_allowed :: "string \<Rightarrow> 'z cf_world_scheme \<Rightarrow> bool" where
  "title_allowed title w = browse_allowed title [] w"

section \<open>Invariants of the manager\<close>

text \<open>The table holds only admissible levels, and so does what is compiled from it.\<close>

definition cf_inv :: "'z cf_world_scheme \<Rightarrow> bool" where
  "cf_inv w \<longleftrightarrow> rules_ok (cf_rules (w_db w)) \<and> rules_ok (cf_cached_rules w) \<and>
     cf_matcher w = build_matcher (cf_cached_rules w)"

lemma rules_ok_append [simp]: "rules_ok (xs @ ys) \<longleftrightarrow> rules_ok xs \<and> rules_ok ys"
  by (auto simp: rules_ok_def)

lemma rules_ok_sort_key [simp]: "rules_ok (sort_key f rs) = rules_ok rs"
  by (simp add: rules_ok_def)

lemma rules_ok_upsert:
  assumes "upsert P f new rs = (r, rs')" "rules_ok rs" "\<And>x. level_ok (f x)" "level_ok new"
  shows "rules_ok rs'"
  using assms by (auto simp: upsert_def rules_ok_def update_where_def split: option.splits)

lemma db_call_frame:
  assumes "db_call q (w :: 'z cf_world_scheme) = (r, w')"
  shows "cf_matcher w' = cf_matcher w" "cf_cached_rules w' = cf_cached_rules w"
    "cf_level w' = cf_level w" "cf_recomputing w' = cf_recomputing w"
  using db_call_result [OF assms] by auto

lemma db_call_db:
  assumes "db_call q w = (r, w')"
  shows "w_db w' = w_db w \<or> w_db w' = snd (q (w_now w) (w_db w))"
  using db_call_result [OF assms] by auto

lemma keeps_cf_db_call:
  assumes "\<And>now d. rules_ok (cf_rules d) \<Longrightarrow> rules_ok (cf_rules (snd (q now d)))"
  shows "keeps cf_inv (db_call q :: ('a cf_world_scheme, 'b) act)"
proof (rule keepsI)
  fix w :: "'a cf_world_scheme"
  assume inv: "cf_inv w"
  obtain r w' where r: "db_call q w = (r, w')" by (cases "db_call q w")
  show "cf_inv (snd (db_call q w))"
    using inv assms db_call_db [OF r] db_call_frame [OF r] r by (auto simp: cf_inv_def)
qed

lemma keeps_cf_select [keeps_intros]:
  "keeps cf_inv (db_call (select_all f))" "keeps cf_inv (db_call (select_one g))"
  by (auto intro!: keeps_cf_db_call simp: act_simps split: option.split)

lemma keeps_cf_set_rank [keeps_intros]: "keeps cf_inv (db_call (q_set_media_content_block_rank r i))"
  by (intro keeps_cf_db_call) (simp add: q_set_media_content_block_rank_def act_simps)

lemma keeps_cf_delete [keeps_intros]: "keeps cf_inv (db_call (q_delete_content_filter_rule i))"
  by (rule keeps_cf_db_call) (simp add: q_delete_content_filter_rule_def act_simps rules_ok_def)

lemma keeps_cf_delete_user [keeps_intros]: "keeps cf_inv (db_call q_delete_user_content_filter_rules)"
  by (rule keeps_cf_db_call) (simp add: q_delete_user_content_filter_rules_def act_simps rules_ok_def)

lemma keeps_cf_create [keeps_intros]:
  "b = 1 \<or> b = 2 \<Longrightarrow> keeps cf_inv (db_call (q_create_content_filter_rule c f k w b))"
  by (intro keeps_cf_db_call)
     (auto simp: q_create_content_filter_rule_def Let_def level_ok_def elim: rules_ok_upsert split: prod.split)

lemma keeps_cf_reload [keeps_intros]: "keeps cf_inv reload"
proof (rule keepsI)
  fix w :: "'a cf_world_scheme"
  assume inv: "cf_inv w"
  obtain r w' where r: "db_call q_list_content_filter_rules w = (r, w')"
    by (cases "db_call q_list_content_filter_rules w")
  have inv': "cf_inv w'"
    using keepsD [OF keeps_cf_select(1) inv] r by (metis q_list_content_filter_rules_def)
  show "cf_inv (snd (reload w))"
  proof (cases r)
    case (Inr rows)
    then have "rules_ok rows"
      using db_call_result [OF r] inv
      by (auto simp: q_list_content_filter_rules_def cf_inv_def act_simps)
    then show ?thesis
      using inv' r Inr by (simp add: reload_def seq_def modify_def cf_inv_def)
  qed (use inv' r in \<open>simp add: reload_def seq_def\<close>)
qed

lemma keeps_recompute_media [keeps_intros]: "keeps cf_inv (recompute_media i)"
  unfolding recompute_media_def rows_or_nil_def q_get_content_filter_inputs_def
    q_list_genres_for_media_def q_list_tags_with_weight_for_media_def
  by (intro keeps_intros)

lemma cf_inv_recomputing [simp]: "cf_inv (w\<lparr>cf_recomputing := b\<rparr>) = cf_inv w"
  by (simp add: cf_inv_def)

lemma keeps_recompute_all [keeps_intros]: "keeps cf_inv recompute_all"
proof (rule keepsI)
  fix w :: "'a cf_world_scheme"
  assume inv: "cf_inv w"
  let ?m = "seq (db_call q_list_recomputable_media_ids) (for_each (\<lambda>i. ignore (recompute_media i)))"
  have "keeps cf_inv (?m :: ('a cf_world_scheme, unit) act)"
    unfolding q_list_recomputable_media_ids_def by (intro keeps_intros)
  moreover have "cf_inv (w\<lparr>cf_recomputing := True\<rparr>)" using inv by simp
  ultimately have "cf_inv (snd (?m (w\<lparr>cf_recomputing := True\<rparr>)))"
    by (simp only: keeps_def)
  then show "cf_inv (snd (recompute_all w))"
    using inv by (auto simp: recompute_all_def split: prod.split)
qed

lemma keeps_add_rule: "keeps cf_inv (add_rule c f k w b)"
  unfolding add_rule_def by (intro keeps_intros) auto

lemma keeps_remove_rule: "keeps cf_inv (remove_rule i)"
  unfolding remove_rule_def by (intro keeps_intros)

lemma keeps_reset_rules: "keeps cf_inv reset_rules"
  unfolding reset_rules_def by (intro keeps_intros)

section \<open>The stored rank\<close>

text \<open>What the filter says of an entry of the database under the rules it compiled.\<close>

definition entry_matches :: "cf_rule \<Rightarrow> db \<Rightarrow> medium \<Rightarrow> bool" where
  "entry_matches r d m =
     rule_matches r (m_title m) (string_of (m_description m))
       (map g_name (sort_key g_name (filter (\<lambda>g. (m_id m, g_id g) \<in> set (media_genres d)) (genres d))))
       (map fst (sort_key (\<lambda>p. (- snd p, fst p))
          [(t_name t, mt_weight mt). t \<leftarrow> tags d, mt \<leftarrow> media_tags d, mt_tag mt = t_id t \<and> mt_media mt = m_id m]))
       (map snd (sort_key (\<lambda>p. (- snd p, fst p))
          [(t_name t, mt_weight mt). t \<leftarrow> tags d, mt \<leftarrow> media_tags d, mt_tag mt = t_id t \<and> mt_media mt = m_id m]))"

definition rank_value :: "int option \<Rightarrow> int" where
  "rank_value r = (case r of None \<Rightarrow> 0 | Some v \<Rightarrow> v)"

text \<open>A stored rank says, at every level, whether some rule of that level or below matches.\<close>

definition rank_correct :: "cf_rule list \<Rightarrow> db \<Rightarrow> medium \<Rightarrow> bool" where
  "rank_correct rs d m \<longleftrightarrow>
     (\<forall>lvl. hidden (rank_value (m_content_block_rank m)) lvl \<longleftrightarrow>
            (\<exists>r \<in> set rs. entry_matches r d m \<and> r_block_level r \<le> lvl))"

lemma has_rules_iff:
  "has_rules (build_matcher rs) \<longleftrightarrow> (\<exists>r \<in> set rs. norm (r_keyword r) \<noteq> [] \<and> valid_field (r_field r))"
  by (auto simp: has_rules_def build_matcher_fields valid_field_def filter_empty_conv)

lemma block_rank_nonneg:
  assumes "rules_ok rs"
  shows "0 \<le> block_rank (build_matcher rs) t d gs ts ws"
proof (rule ccontr)
  assume "\<not> 0 \<le> block_rank (build_matcher rs) t d gs ts ws"
  then have "hidden (block_rank (build_matcher rs) t d gs ts ws) 0" by (simp add: hidden_def)
  then show False using assms by (auto simp: hidden_block_rank rules_ok_def level_ok_def)
qed

text \<open>The rank the manager computes for a row, as a function of the tables.\<close>

definition genre_names :: "db \<Rightarrow> int \<Rightarrow> string list" where
  "genre_names d i = map g_name (sort_key g_name (filter (\<lambda>g. (i, g_id g) \<in> set (media_genres d)) (genres d)))"

definition weighted_tags :: "db \<Rightarrow> int \<Rightarrow> (string \<times> int) list" where
  "weighted_tags d i = sort_key (\<lambda>p. (- snd p, fst p))
     [(t_name t, mt_weight mt). t \<leftarrow> tags d, mt \<leftarrow> media_tags d, mt_tag mt = t_id t \<and> mt_media mt = i]"

definition rank_for :: "cf_rule list \<Rightarrow> db \<Rightarrow> medium \<Rightarrow> int option" where
  "rank_for rs d m =
     (if \<not> has_rules (build_matcher rs) then None
      else (let rank = block_rank (build_matcher rs) (m_title m) (string_of (m_description m))
                 (genre_names d (m_id m)) (map fst (weighted_tags d (m_id m))) (map snd (weighted_tags d (m_id m)))
            in if rank > 0 then Some rank else None))"

definition set_rank :: "cf_rule list \<Rightarrow> int \<Rightarrow> db \<Rightarrow> db" where
  "set_rank rs i d = d\<lparr>media := update_where (\<lambda>m. m_id m = i)
     (\<lambda>m. m\<lparr>m_content_block_rank := rank_for rs d m\<rparr>) (media d)\<rparr>"

lemma rank_for_frame [simp]:
  "rank_for rs (d\<lparr>media := ms\<rparr>) m = rank_for rs d m"
  "rank_for rs d (m\<lparr>m_content_block_rank := r\<rparr>) = rank_for rs d m"
  by (simp_all add: rank_for_def genre_names_def weighted_tags_def)

lemma entry_matches_frame [simp]:
  "entry_matches r (d\<lparr>media := ms\<rparr>) m = entry_matches r d m"
  "entry_matches r d (m\<lparr>m_content_block_rank := k\<rparr>) = entry_matches r d m"
  by (simp_all add: entry_matches_def)

lemma rank_for_correct:
  assumes "rules_ok rs"
  shows "rank_correct rs d (m\<lparr>m_content_block_rank := rank_for rs d m\<rparr>)"
proof -
  let ?b = "block_rank (build_matcher rs) (m_title m) (string_of (m_description m))
     (genre_names d (m_id m)) (map fst (weighted_tags d (m_id m))) (map snd (weighted_tags d (m_id m)))"
  have b: "hidden ?b lvl \<longleftrightarrow> (\<exists>r \<in> set rs. entry_matches r d m \<and> r_block_level r \<le> lvl)" for lvl
    using assms by (simp add: hidden_block_rank entry_matches_def genre_names_def weighted_tags_def)
  have "hidden (rank_value (rank_for rs d m)) lvl \<longleftrightarrow> hidden ?b lvl" for lvl
  proof (cases "has_rules (build_matcher rs)")
    case True
    have "0 \<le> ?b" by (rule block_rank_nonneg [OF assms])
    with True show ?thesis by (auto simp: rank_for_def rank_value_def Let_def hidden_def)
  next
    case False
    have "\<not> (\<exists>r \<in> set rs. entry_matches r d m \<and> r_block_level r \<le> lvl)"
      using False by (auto simp: has_rules_iff entry_matches_def rule_matches_def valid_field_def Let_def)
    then show ?thesis using b False by (simp add: rank_for_def rank_value_def)
  qed
  with b show ?thesis by (simp add: rank_correct_def)
qed

lemma update_where_id: "(\<And>x. x \<in> set rows \<Longrightarrow> P x \<Longrightarrow> f x = x) \<Longrightarrow> update_where P f rows = rows"
  by (induction rows) (auto simp: update_where_def)

lemma update_where_cong:
  "(\<And>x. x \<in> set rows \<Longrightarrow> P x \<Longrightarrow> f x = g x) \<Longrightarrow> update_where P f rows = update_where P g rows"
  by (auto simp: update_where_def)

lemma recompute_media_free:
  assumes "fault_free w" "cf_matcher w = build_matcher rs" "distinct (map m_id (media (w_db w)))"
  shows "snd (recompute_media i w) = w\<lparr>w_db := set_rank rs i (w_db w)\<rparr>"
proof (cases "has_rules (build_matcher rs)")
  case False
  then show ?thesis
    using assms by (simp add: recompute_media_def act_simps db_call_free
        q_set_media_content_block_rank_def set_rank_def rank_for_def)
next
  case True
  let ?d = "w_db w"
  show ?thesis
  proof (cases "find (\<lambda>m. m_id m = i) (media ?d)")
    case None
    have "media (set_rank rs i ?d) = media ?d"
      using find_NoneD [OF None] by (auto simp: set_rank_def intro: update_where_id)
    then have "set_rank rs i ?d = ?d" by (simp add: set_rank_def)
    with True None assms show ?thesis
      by (simp add: recompute_media_def act_simps db_call_free q_get_content_filter_inputs_def)
  next
    case (Some m)
    have m: "m_id m = i" "m \<in> set (media ?d)" using find_SomeD [OF Some] by auto
    have same: "x = m" if "x \<in> set (media ?d)" "m_id x = i" for x
      using distinct_key_find [OF assms(3) that(1)] Some that(2) by simp
    have eq: "update_where (\<lambda>m. m_id m = i) (\<lambda>x. x\<lparr>m_content_block_rank := rank_for rs ?d m\<rparr>) (media ?d) =
        media (set_rank rs i ?d)"
      using same by (auto simp: set_rank_def intro!: update_where_cong)
    show ?thesis
      using True Some assms m eq
      by (simp add: recompute_media_def act_simps db_call_free q_get_content_filter_inputs_def
          rows_or_nil_def q_list_genres_for_media_def q_list_tags_with_weight_for_media_def
          q_set_media_content_block_rank_def rank_for_def Let_def genre_names_def weighted_tags_def
          set_rank_def)
  qed
qed

lemma media_fold_set_rank:
  "fold (set_rank rs) ids d = d\<lparr>media := map (\<lambda>m. if m_id m \<in> set ids
      then m\<lparr>m_content_block_rank := rank_for rs d m\<rparr> else m) (media d)\<rparr>"
proof (induction ids arbitrary: d)
  case (Cons i ids)
  show ?case
    by (simp add: Cons) (auto simp: set_rank_def update_where_def)
qed simp

lemma distinct_set_rank: "map m_id (media (set_rank rs i d)) = map m_id (media d)"
  by (simp add: set_rank_def map_update_where)

lemma recompute_each_free:
  assumes "fault_free w" "cf_matcher w = build_matcher rs" "distinct (map m_id (media (w_db w)))"
  shows "for_each (\<lambda>i. ignore (recompute_media i)) ids w =
           (Inr (), w\<lparr>w_db := fold (set_rank rs) ids (w_db w)\<rparr>)"
  using assms
proof (induction ids arbitrary: w)
  case (Cons i ids)
  have "ignore (recompute_media i) w = (Inr (), w\<lparr>w_db := set_rank rs i (w_db w)\<rparr>)"
    using recompute_media_free [OF Cons.prems, of i] by (cases "recompute_media i w") (simp add: ignore_def)
  then have "for_each (\<lambda>i. ignore (recompute_media i)) (i # ids) w =
      for_each (\<lambda>i. ignore (recompute_media i)) ids (w\<lparr>w_db := set_rank rs i (w_db w)\<rparr>)"
    by (simp add: seq_Inr)
  also have "\<dots> = (Inr (), w\<lparr>w_db := fold (set_rank rs) ids (set_rank rs i (w_db w))\<rparr>)"
    using Cons.prems by (subst Cons.IH) (simp_all add: distinct_set_rank)
  finally show ?case by simp
qed (simp add: act_simps)

lemma recompute_all_free:
  assumes "fault_free w" "cf_matcher w = build_matcher rs" "\<not> cf_recomputing w"
    "distinct (map m_id (media (w_db w)))"
  shows "recompute_all w = (Inr (), w\<lparr>w_db :=
      fold (set_rank rs) (sort (map m_id (filter (\<lambda>m. m_added_at m \<noteq> None) (media (w_db w))))) (w_db w)\<rparr>)"
  using assms
  by (simp add: recompute_all_def seq_def db_call_free q_list_recomputable_media_ids_def
      select_all_def recompute_each_free)

section \<open>Browsing\<close>

lemma hidden_smaller:
  "hidden (if r \<noteq> 0 \<and> (rank = 0 \<or> r < rank) then r else rank) lvl \<longleftrightarrow> hidden rank lvl \<or> hidden r lvl"
  by (auto simp: hidden_def)

lemma rule_matches_title:
  "rule_matches r title [] [] [] [] \<longleftrightarrow>
     r_field r = ''title'' \<and> norm (r_keyword r) \<noteq> [] \<and> contains (norm title) (norm (r_keyword r))"
  by (auto simp: rule_matches_def Let_def)

lemma rule_matches_split:
  "rule_matches r title [] gs [] [] \<longleftrightarrow> rule_matches r title [] [] [] [] \<or> rule_matches r [] [] gs [] []"
  by (auto simp: rule_matches_def Let_def)

lemma hidden_title_rank:
  assumes "rules_ok rs"
  shows "hidden (title_block_rank (build_matcher rs) title) lvl \<longleftrightarrow>
     (\<exists>r \<in> set rs. rule_matches r title [] [] [] [] \<and> r_block_level r \<le> lvl)"
  using assms by (auto simp: hidden_title_block_rank rule_matches_title)

lemma hidden_genre_rank:
  assumes "rules_ok rs"
  shows "hidden (if gs \<noteq> [] then
       (let r = block_rank (build_matcher rs) [] [] gs [] [] in
        if r \<noteq> 0 \<and> (rank = 0 \<or> r < rank) then r else rank) else rank) lvl \<longleftrightarrow>
     hidden rank lvl \<or> (\<exists>r \<in> set rs. rule_matches r [] [] gs [] [] \<and> r_block_level r \<le> lvl)"
proof (cases "gs = []")
  case True
  have "\<not> rule_matches r [] [] [] [] []" for r
    by (auto simp: rule_matches_def Let_def)
  with True show ?thesis by simp
next
  case False
  then show ?thesis
    using hidden_smaller [of "block_rank (build_matcher rs) [] [] gs [] []" rank lvl]
    by (simp add: Let_def hidden_block_rank [OF assms])
qed

section \<open>Sequences of operations\<close>

datatype cf_op =
    SetLevel int
  | AddRule string string string int int
  | RemoveRule int
  | ResetRules
  | RecomputeMedia int
  | RecomputeAll

fun cf_apply :: "cf_op \<Rightarrow> ('z cf_world_scheme, unit) act" where
  "cf_apply (SetLevel l) = modify (set_level l)"
| "cf_apply (AddRule c f k w b) = seq (add_rule c f k w b) (\<lambda>_. ret ())"
| "cf_apply (RemoveRule i) = remove_rule i"
| "cf_apply ResetRules = reset_rules"
| "cf_apply (RecomputeMedia i) = recompute_media i"
| "cf_apply RecomputeAll = recompute_all"

definition cf_run :: "cf_op list \<Rightarrow> 'z cf_world_scheme \<Rightarrow> 'z cf_world_scheme" where
  "cf_run ops w = fold (\<lambda>op w. snd (cf_apply op w)) ops w"

lemma keeps_cf_apply: "keeps cf_inv (cf_apply op)"
proof (cases op)
  case (SetLevel l)
  then show ?thesis by (auto simp: keeps_def act_simps set_level_def cf_inv_def)
qed (auto intro!: keeps_intros keeps_add_rule keeps_remove_rule keeps_reset_rules)

lemma reload_free:
  "fault_free w \<Longrightarrow> reload w = (Inr (), w\<lparr>cf_matcher := build_matcher (sort_key (\<lambda>r. (r_category r, r_field r, r_keyword r)) (cf_rules (w_db w))),
      cf_cached_rules := sort_key (\<lambda>r. (r_category r, r_field r, r_keyword r)) (cf_rules (w_db w))\<rparr>)"
  by (simp add: reload_def seq_def db_call_free q_list_content_filter_rules_def select_all_def modify_def)

text \<open>Without faults the cached rules are the table's.\<close>

definition cf_fresh :: "'z cf_world_scheme \<Rightarrow> bool" where
  "cf_fresh w \<longleftrightarrow> fault_free w \<and>
     cf_cached_rules w = sort_key (\<lambda>r. (r_category r, r_field r, r_keyword r)) (cf_rules (w_db w))"

lemma keeps_fresh_db_call:
  assumes "\<And>now d. cf_rules (snd (q now d)) = cf_rules d"
  shows "keeps cf_fresh (db_call q :: ('a cf_world_scheme, 'b) act)"
  using assms by (auto simp: keeps_def cf_fresh_def db_call_free split: prod.split) (metis snd_conv)

lemma fresh_create:
  assumes "fault_free w"
  shows "cf_fresh (snd (seq (db_call (q_create_content_filter_rule c f k mw b)) (\<lambda>row. seq reload (\<lambda>_. ret row)) w))"
proof -
  have "\<exists>row d. q_create_content_filter_rule c f k mw b (w_now w) (w_db w) = (Inr row, d)"
    by (simp add: q_create_content_filter_rule_def Let_def case_prod_unfold)
  then obtain row d where "q_create_content_filter_rule c f k mw b (w_now w) (w_db w) = (Inr row, d)" by blast
  then show ?thesis using assms by (simp add: seq_def db_call_free reload_free cf_fresh_def ret_def)
qed

lemma keeps_fresh_recompute_media: "keeps cf_fresh (recompute_media i)"
  unfolding recompute_media_def rows_or_nil_def q_get_content_filter_inputs_def
    q_list_genres_for_media_def q_list_tags_with_weight_for_media_def q_set_media_content_block_rank_def
  by (intro keeps_intros keeps_fresh_db_call) (auto simp: act_simps split: option.split)

lemma keeps_fresh_recompute_all: "keeps cf_fresh recompute_all"
proof (rule keepsI)
  fix w :: "'a cf_world_scheme"
  assume fresh: "cf_fresh w"
  let ?m = "seq (db_call q_list_recomputable_media_ids) (for_each (\<lambda>i. ignore (recompute_media i)))"
  have "keeps cf_fresh (?m :: ('a cf_world_scheme, unit) act)"
    unfolding q_list_recomputable_media_ids_def
    by (intro keeps_intros keeps_fresh_recompute_media keeps_fresh_db_call) (simp add: act_simps)
  moreover have "cf_fresh (w\<lparr>cf_recomputing := True\<rparr>)" using fresh by (simp add: cf_fresh_def)
  ultimately have "cf_fresh (snd (?m (w\<lparr>cf_recomputing := True\<rparr>)))" by (simp only: keeps_def)
  then show "cf_fresh (snd (recompute_all w))"
    using fresh by (auto simp: recompute_all_def cf_fresh_def split: prod.split)
qed

lemma keeps_fresh_add_rule: "keeps cf_fresh (add_rule c f k mw b)"
proof (rule keepsI)
  fix w :: "'a cf_world_scheme" assume "cf_fresh w"
  then show "cf_fresh (snd (add_rule c f k mw b w))"
    unfolding add_rule_def using fresh_create [of w] by (simp add: fail_def cf_fresh_def)
qed

lemma keeps_fresh_remove_rule: "keeps cf_fresh (remove_rule i)"
  by (rule keepsI) (auto simp: remove_rule_def seq_def db_call_free reload_free cf_fresh_def q_delete_content_filter_rule_def exec_def)

lemma keeps_fresh_reset_rules: "keeps cf_fresh reset_rules"
  by (rule keepsI) (auto simp: reset_rules_def seq_def db_call_free reload_free cf_fresh_def q_delete_user_content_filter_rules_def exec_def)

lemma keeps_fresh_apply: "keeps cf_fresh (cf_apply op)"
proof (cases op)
  case (SetLevel l)
  then show ?thesis by (auto simp: keeps_def act_simps set_level_def cf_fresh_def)
qed (auto intro!: keeps_intros keeps_fresh_add_rule keeps_fresh_remove_rule
    keeps_fresh_reset_rules keeps_fresh_recompute_media keeps_fresh_recompute_all)

section \<open>Properties\<close>

text \<open>
  C11: The block rank hides exactly what the rules say. For every set of rules with the levels the
  database admits, an entry's block rank hides it at a level if and only if some rule of that level
  or a lower one matches the entry: its normalised keyword occurs in the field the rule names,
  genres and tags being expanded by their aliases and tags counting from the rule's weight on.
\<close>

theorem hidden_iff_some_rule_matches:
  assumes "rules_ok rules"
  shows "hidden (block_rank (build_matcher rules) title desc gs ts ws) lvl \<longleftrightarrow>
         (\<exists>r \<in> set rules. rule_matches r title desc gs ts ws \<and> r_block_level r \<le> lvl)"
  using assms by (rule hidden_block_rank)

definition guro_rule :: cf_rule where
  "guro_rule = \<lparr>r_id = 19, r_category = ''gore'', r_field = ''tag'', r_keyword = '' Gore '',
     r_min_weight = 40, r_block_level = 2, r_is_default = 1\<rparr>"

theorem hidden_iff_some_rule_matches_witness:
  "hidden (block_rank (build_matcher [guro_rule]) ''Parasyte'' [] [] [''Guro''] [60]) 2 \<and>
   \<not> hidden (block_rank (build_matcher [guro_rule]) ''Parasyte'' [] [] [''Guro''] [60]) 1"
proof -
  have ok: "rules_ok [guro_rule]" by (simp add: rules_ok_def level_ok_def guro_rule_def)
  have m: "rule_matches guro_rule ''Parasyte'' [] [] [''Guro''] [60]" by code_simp
  have l: "r_block_level guro_rule = 2" by (simp add: guro_rule_def)
  show ?thesis
    using hidden_iff_some_rule_matches [OF ok, of "''Parasyte''" "[]" "[]" "[''Guro'']" "[60]" 2]
      hidden_iff_some_rule_matches [OF ok, of "''Parasyte''" "[]" "[]" "[''Guro'']" "[60]" 1] m l
    by simp
qed

text \<open>
  Browsing shows a title exactly when no rule of the current level or below matches it by title
  or genre; at the unrestricted level everything is shown. The two ranks the code computes (one for
  the title, one for the genres) and their combination give the same answer as the whole matcher.
\<close>

theorem browse_allowed_iff_no_rule_matches:
  assumes "cf_inv w"
  shows "browse_allowed title gs w \<longleftrightarrow>
         cf_level w = unrestricted \<or>
         \<not> (\<exists>r \<in> set (cf_cached_rules w). rule_matches r title [] gs [] [] \<and> r_block_level r \<le> cf_level w)"
proof -
  have ok: "rules_ok (cf_cached_rules w)" and m: "cf_matcher w = build_matcher (cf_cached_rules w)"
    using assms by (auto simp: cf_inv_def)
  have "browse_allowed title gs w \<longleftrightarrow> cf_level w = unrestricted \<or>
      \<not> hidden (if gs \<noteq> [] then
       (let r = block_rank (cf_matcher w) [] [] gs [] [] in
        if r \<noteq> 0 \<and> (title_block_rank (cf_matcher w) title = 0 \<or> r < title_block_rank (cf_matcher w) title)
        then r else title_block_rank (cf_matcher w) title) else title_block_rank (cf_matcher w) title) (cf_level w)"
    by (simp add: browse_allowed_def Let_def)
  then show ?thesis
    unfolding m hidden_genre_rank [OF ok] hidden_title_rank [OF ok] rule_matches_split [of _ title gs]
    by blast
qed

definition demo_filter :: cf_world where
  "demo_filter = \<lparr>w_db = empty_db\<lparr>cf_rules := [guro_rule, guro_rule\<lparr>r_id := 1, r_field := ''genre'', r_keyword := ''ecchi'', r_block_level := 1\<rparr>]\<rparr>,
     w_now = 0, w_faults = [],
     cf_matcher = build_matcher [guro_rule, guro_rule\<lparr>r_id := 1, r_field := ''genre'', r_keyword := ''ecchi'', r_block_level := 1\<rparr>],
     cf_cached_rules = [guro_rule, guro_rule\<lparr>r_id := 1, r_field := ''genre'', r_keyword := ''ecchi'', r_block_level := 1\<rparr>],
     cf_level = 1, cf_recomputing = False\<rparr>"

lemma demo_filter_inv: "cf_inv demo_filter"
  by (simp add: cf_inv_def demo_filter_def rules_ok_def level_ok_def guro_rule_def)

theorem browse_allowed_iff_no_rule_matches_witness:
  "\<not> browse_allowed ''Any'' [''Ecchi''] demo_filter \<and> browse_allowed ''Any'' [''Drama''] demo_filter"
proof -
  let ?rs = "cf_cached_rules demo_filter"
  have l: "cf_level demo_filter \<noteq> unrestricted" by (simp add: demo_filter_def unrestricted_def)
  have 1: "\<exists>r \<in> set ?rs. rule_matches r ''Any'' [] [''Ecchi''] [] [] \<and> r_block_level r \<le> cf_level demo_filter"
    by code_simp
  have 2: "\<not> (\<exists>r \<in> set ?rs. rule_matches r ''Any'' [] [''Drama''] [] [] \<and> r_block_level r \<le> cf_level demo_filter)"
    by code_simp
  show ?thesis
    using browse_allowed_iff_no_rule_matches [OF demo_filter_inv, of "''Any''" "[''Ecchi'']"]
      browse_allowed_iff_no_rule_matches [OF demo_filter_inv, of "''Any''" "[''Drama'']"] l 1 2
    by blast
qed

text \<open>
  C12: After a \<open>RecomputeAll\<close> that starts while no other is running and in which no call
  fails, the stored rank of every library entry is right: at every level, the entry is hidden if and
  only if some cached rule of that level or below matches its title, description, genres or weighted
  tags. Entries outside the library keep their row unchanged. (A call during another run returns at
  once, and a failing read of the genres or tags counts as none.)
\<close>

theorem recompute_all_ranks_correct:
  assumes "fault_free w" "cf_inv w" "\<not> cf_recomputing w" "distinct (map m_id (media (w_db w)))"
  defines "w' \<equiv> snd (recompute_all w)"
  shows "(\<forall>m \<in> set (media (w_db w')). m_added_at m \<noteq> None \<longrightarrow> rank_correct (cf_cached_rules w) (w_db w') m) \<and>
         (\<forall>m \<in> set (media (w_db w)). m_added_at m = None \<longrightarrow> m \<in> set (media (w_db w')))"
proof -
  let ?rs = "cf_cached_rules w" and ?d = "w_db w"
  let ?lib = "m_id ` {m \<in> set (media ?d). m_added_at m \<noteq> None}"
  have ok: "rules_ok ?rs" and m: "cf_matcher w = build_matcher ?rs"
    using assms(2) by (auto simp: cf_inv_def)
  have d': "w_db w' = ?d\<lparr>media := map (\<lambda>m. if m_id m \<in> ?lib
      then m\<lparr>m_content_block_rank := rank_for ?rs ?d m\<rparr> else m) (media ?d)\<rparr>"
    using assms(1,3,4) m by (simp add: w'_def recompute_all_free media_fold_set_rank)
  have same: "m1 = m2" if "m1 \<in> set (media ?d)" "m2 \<in> set (media ?d)" "m_id m1 = m_id m2" for m1 m2
    using assms(4) that by (auto dest: inj_onD simp: distinct_map)
  show ?thesis
  proof (intro conjI ballI impI)
    fix m assume "m \<in> set (media (w_db w'))" "m_added_at m \<noteq> None"
    then obtain m0 where "m0 \<in> set (media ?d)" "m = m0\<lparr>m_content_block_rank := rank_for ?rs ?d m0\<rparr>"
      unfolding d' by (auto split: if_splits)
    then show "rank_correct ?rs (w_db w') m"
      using rank_for_correct [OF ok, of ?d m0] by (simp add: d' rank_correct_def)
  next
    fix m assume mm: "m \<in> set (media ?d)" "m_added_at m = None"
    have "m_id m \<notin> ?lib"
    proof
      assume "m_id m \<in> ?lib"
      then obtain m2 where "m2 \<in> set (media ?d)" "m_added_at m2 \<noteq> None" "m_id m2 = m_id m" by auto
      then show False using same [OF mm(1), of m2] mm(2) by simp
    qed
    with mm(1) show "m \<in> set (media (w_db w'))" by (force simp: d' image_iff)
  qed
qed

definition demo_entry :: medium where
  "demo_entry = \<lparr>m_id = 7, m_extension_id = None, m_extension_name = ''Local'', m_external_id = ''local:manga/A'',
     m_content_type = ''manga'', m_title = ''A'', m_cover_path = None, m_cover_local_path = None,
     m_description = None, m_status = None, m_author = None, m_artist = None, m_extension_removed_at = None,
     m_added_at = Some 1, m_last_viewed_at = None, m_details_fetched_at = None, m_chapters_synced_at = None,
     m_cover_override = None, m_content_block_rank = Some 2, m_search_failed_at = None\<rparr>"

theorem recompute_all_ranks_correct_witness:
  "\<exists>w :: cf_world. fault_free w \<and> media (w_db w) = [demo_entry] \<and>
     (\<forall>m \<in> set (media (w_db (snd (recompute_all w)))). m_added_at m \<noteq> None \<longrightarrow>
        rank_correct (cf_cached_rules w) (w_db (snd (recompute_all w))) m)"
proof -
  let ?w = "demo_filter\<lparr>w_db := (w_db demo_filter)\<lparr>media := [demo_entry]\<rparr>\<rparr>"
  have "fault_free ?w" "\<not> cf_recomputing ?w" "distinct (map m_id (media (w_db ?w)))"
    by (simp_all add: demo_filter_def)
  moreover have "cf_inv ?w" using demo_filter_inv by (simp add: cf_inv_def)
  ultimately show ?thesis
    using recompute_all_ranks_correct [of ?w] by (intro exI [of _ ?w]) simp
qed

lemma keeps_cf_run: "(\<And>op. keeps I (cf_apply op :: ('z cf_world_scheme, unit) act)) \<Longrightarrow> I w \<Longrightarrow> I (cf_run ops (w :: 'z cf_world_scheme))"
  by (induction ops arbitrary: w) (auto simp: cf_run_def keeps_def)

text \<open>
  C13: Whatever sequence of operations the manager performs and whatever database calls fail, the
  rules table keeps only the levels 1 and 2, and the compiled matcher is the one of the cached rules;
  as long as no call fails, the cached rules are those of the table.
\<close>

theorem manager_operations_keep_invariant:
  fixes w :: "'z cf_world_scheme"
  assumes "cf_inv w"
  shows "cf_inv (cf_run ops w) \<and> (cf_fresh w \<longrightarrow> cf_fresh (cf_run ops w))"
  using assms keeps_cf_apply keeps_fresh_apply by (blast intro: keeps_cf_run)

theorem manager_operations_keep_invariant_witness:
  "cf_inv (cf_run [AddRule ''a'' ''tag'' ''b'' 0 2, RemoveRule 1, ResetRules, RecomputeAll]
     (demo_filter\<lparr>w_faults := [None, Some (ErrExternal ''disk I/O error'')]\<rparr>))"
proof -
  have "cf_inv (demo_filter\<lparr>w_faults := [None, Some (ErrExternal ''disk I/O error'')]\<rparr>)"
    using demo_filter_inv by (simp add: cf_inv_def)
  then show ?thesis using manager_operations_keep_invariant by blast
qed

text \<open>
  \<open>ResetRules\<close> does not restore the default rules. \<open>AddRule\<close> with the category, field and
  keyword of a default rule overwrites that rule's weight and level and leaves it marked as a
  default, and \<open>ResetRules\<close> only deletes the rules not so marked: the edited level stays.
\<close>

theorem reset_keeps_edited_defaults:
  assumes "fault_free w" "r \<in> set (cf_rules (w_db w))" "r_is_default r \<noteq> 0"
    "r_category r \<noteq> []" "r_keyword r \<noteq> []" "norm (r_keyword r) = r_keyword r" "valid_field (r_field r)"
    "level = 1 \<or> level = 2"
  defines "w1 \<equiv> snd (add_rule (r_category r) (r_field r) (r_keyword r) 0 level w)"
  shows "\<exists>r' \<in> set (cf_rules (w_db (snd (reset_rules w1)))). r_id r' = r_id r \<and> r_block_level r' = level"
proof -
  let ?P = "\<lambda>x. r_field x = r_field r \<and> r_keyword x = r_keyword r \<and> r_category x = r_category r"
  let ?f = "\<lambda>x. x\<lparr>r_min_weight := 0, r_block_level := level\<rparr>"
  obtain r0 where r0: "find ?P (cf_rules (w_db w)) = Some r0"
    using find_NoneD [of ?P "cf_rules (w_db w)" r] assms(2) by (cases "find ?P (cf_rules (w_db w))") auto
  have w1: "fault_free w1" "cf_rules (w_db w1) = update_where ?P ?f (cf_rules (w_db w))"
    using assms(1,4-8) r0
    by (auto simp: w1_def add_rule_def seq_def db_call_free q_create_content_filter_rule_def upsert_def
        reload_free ret_def)
  have "?f r \<in> set (cf_rules (w_db w1))"
    using assms(2) by (force simp: w1 update_where_def)
  then have "?f r \<in> set (cf_rules (w_db (snd (reset_rules w1))))"
    using assms(3) w1(1)
    by (simp add: reset_rules_def seq_def db_call_free q_delete_user_content_filter_rules_def exec_def reload_free)
  then show ?thesis by (intro bexI [of _ "?f r"]) auto
qed

theorem reset_keeps_edited_defaults_witness:
  "\<exists>r' \<in> set (cf_rules (w_db (snd (reset_rules (snd (add_rule ''gore'' ''genre'' ''ecchi'' 0 2 demo_filter)))))).
     r_id r' = 1 \<and> r_block_level r' = 2"
proof -
  let ?r = "guro_rule\<lparr>r_id := 1, r_field := ''genre'', r_keyword := ''ecchi'', r_block_level := 1\<rparr>"
  have n: "norm ''ecchi'' = ''ecchi''" by code_simp
  have r: "r_category ?r = ''gore''" "r_field ?r = ''genre''" "r_keyword ?r = ''ecchi''" "r_id ?r = 1"
    "r_is_default ?r \<noteq> 0" by (simp_all add: guro_rule_def)
  have "?r \<in> set (cf_rules (w_db demo_filter))" "fault_free demo_filter"
    by (simp_all add: demo_filter_def)
  then show ?thesis
    using reset_keeps_edited_defaults [of demo_filter ?r 2] r n by (simp add: valid_field_def)
qed

end
