(* ===== verification/GoPath.thy ===== *)
theory GoPath
  imports GoStrings "HOL-Library.Sublist"
begin

text \<open>
  Go's \<open>path/filepath\<close> on Unix: \<open>Clean\<close>, \<open>Join\<close>, \<open>Dir\<close>, \<open>Base\<close> and \<open>Ext\<close>. \<open>Clean\<close> works on the
  elements between slashes with a stack: an empty element or a dot is dropped, a double dot takes
  the last element back. \<open>location\<close> is the place a path denotes, a rooted flag and its elements;
  the lemmas say that joining proper names to a directory goes strictly below it.
\<close>

section \<open>The functions\<close>

type_synonym location = "bool \<times> string list"

definition rooted :: "string \<Rightarrow> bool" where
  "rooted p \<longleftrightarrow> has_prefix p ''/''"

text \<open>One element of the path; the stack holds the elements so far, the last one first.\<close>

definition clean_step :: "bool \<Rightarrow> string \<Rightarrow> string list \<Rightarrow> string list" where
  "clean_step rt c st =
     (if c = [] \<or> c = ''.'' then st
      else if c = ''..'' then
        (case st of
           [] \<Rightarrow> if rt then [] else [''..'']
         | t # ts \<Rightarrow> if t = ''..'' then ''..'' # st else ts)
      else c # st)"

definition clean_stack :: "bool \<Rightarrow> string \<Rightarrow> string list" where
  "clean_stack rt p = fold (clean_step rt) (split_on (CHR ''/'') p) []"

definition location :: "string \<Rightarrow> location" where
  "location p = (rooted p, rev (clean_stack (rooted p) p))"

definition path_of :: "location \<Rightarrow> string" where
  "path_of l = (case l of (rt, cs) \<Rightarrow>
     if rt then CHR ''/'' # join ''/'' cs else if cs = [] then ''.'' else join ''/'' cs)"

definition path_clean :: "string \<Rightarrow> string" where
  "path_clean p = path_of (location p)"

definition path_join :: "string list \<Rightarrow> string" where
  "path_join es = (case dropWhile (\<lambda>e. e = []) es of
      [] \<Rightarrow> []
    | e # es' \<Rightarrow> path_clean (join ''/'' (e # es')))"

definition path_dir :: "string \<Rightarrow> string" where
  "path_dir p = (case cut_last p (CHR ''/'') of
      None \<Rightarrow> ''.''
    | Some (a, b) \<Rightarrow> path_clean (a @ ''/''))"

definition strip_slashes :: "string \<Rightarrow> string" where
  "strip_slashes p = rev (dropWhile (\<lambda>c. c = CHR ''/'') (rev p))"

definition path_base :: "string \<Rightarrow> string" where
  "path_base p =
     (if p = [] then ''.''
      else let q = strip_slashes p;
               b = (case cut_last q (CHR ''/'') of None \<Rightarrow> q | Some (a, b) \<Rightarrow> b)
           in if b = [] then ''/'' else b)"

text \<open>The suffix from the last dot of the last element on.\<close>

definition path_ext :: "string \<Rightarrow> string" where
  "path_ext p =
     (let b = (case cut_last p (CHR ''/'') of None \<Rightarrow> p | Some (a, b) \<Rightarrow> b)
      in case cut_last b (CHR ''.'') of None \<Rightarrow> [] | Some (a, e) \<Rightarrow> CHR ''.'' # e)"

section \<open>Splitting at slashes\<close>

lemma split_on_append_sep:
  "split_on c (s @ c # t) = split_on c s @ split_on c t"
  by (induction s) (auto split: list.splits)

lemma split_on_no_sep_single: "c \<notin> set s \<Longrightarrow> split_on c s = [s]"
  by (induction s) auto

lemma split_on_join:
  assumes "xs \<noteq> []" "\<And>x. x \<in> set xs \<Longrightarrow> c \<notin> set x"
  shows "split_on c (join [c] xs) = xs"
  using assms
proof (induction xs)
  case (Cons x xs)
  show ?case
  proof (cases "xs = []")
    case True
    then show ?thesis using Cons.prems by (simp add: split_on_no_sep_single)
  next
    case False
    then have "split_on c (join [c] xs) = xs" using Cons by simp
    then show ?thesis
      using False Cons.prems by (simp add: join_Cons split_on_append_sep split_on_no_sep_single)
  qed
qed simp

section \<open>Names and locations\<close>

text \<open>A proper file name: not empty, no slash, not a dot or a double dot.\<close>

definition name_ok :: "string \<Rightarrow> bool" where
  "name_ok n \<longleftrightarrow> n \<noteq> [] \<and> n \<noteq> ''.'' \<and> n \<noteq> ''..'' \<and> CHR ''/'' \<notin> set n"

lemma clean_step_name: "name_ok n \<Longrightarrow> clean_step rt n st = n # st"
  by (simp add: name_ok_def clean_step_def)

lemma clean_step_dotdot: "m \<noteq> ''..'' \<Longrightarrow> clean_step rt ''..'' (m # st) = st"
  by (simp add: clean_step_def)

lemma fold_clean_names:
  "list_all name_ok ns \<Longrightarrow> fold (clean_step rt) ns st = rev ns @ st"
  by (induction ns arbitrary: st) (auto simp: clean_step_name)

lemma rooted_append: "s \<noteq> [] \<Longrightarrow> rooted (s @ t) = rooted s"
  by (cases s) (auto simp: rooted_def)

lemma clean_stack_append:
  "clean_stack rt (s @ CHR ''/'' # t) = fold (clean_step rt) (split_on (CHR ''/'') t) (clean_stack rt s)"
  by (simp add: clean_stack_def split_on_append_sep)

lemma names_no_slash: "list_all name_ok ns \<Longrightarrow> x \<in> set ns \<Longrightarrow> CHR ''/'' \<notin> set x"
  by (auto simp: list_all_iff name_ok_def)

lemma location_append_names:
  assumes "d \<noteq> []" "ns \<noteq> []" "list_all name_ok ns"
  shows "location (d @ CHR ''/'' # join ''/'' ns) = (rooted d, snd (location d) @ ns)"
proof -
  have "split_on (CHR ''/'') (join ''/'' ns) = ns"
    by (rule split_on_join [OF assms(2)]) (use names_no_slash [OF assms(3)] in blast)
  then show ?thesis
    using assms by (simp add: location_def clean_stack_append rooted_append fold_clean_names)
qed

text \<open>The elements of a cleaned path: proper names, and double dots only in front of a relative one.\<close>

definition elem_ok :: "bool \<Rightarrow> string \<Rightarrow> bool" where
  "elem_ok rt c \<longleftrightarrow> c \<noteq> [] \<and> c \<noteq> ''.'' \<and> CHR ''/'' \<notin> set c \<and> (rt \<longrightarrow> c \<noteq> ''..'')"

fun stack_ok :: "bool \<Rightarrow> string list \<Rightarrow> bool" where
  "stack_ok rt [] = True"
| "stack_ok rt (c # st) = (elem_ok rt c \<and> (c = ''..'' \<longrightarrow> (\<forall>x \<in> set st. x = ''..'')) \<and> stack_ok rt st)"

lemma stack_ok_step:
  "stack_ok rt st \<Longrightarrow> CHR ''/'' \<notin> set c \<Longrightarrow> stack_ok rt (clean_step rt c st)"
  by (cases st) (auto simp: clean_step_def elem_ok_def)

lemma stack_ok_fold:
  "stack_ok rt st \<Longrightarrow> \<forall>c \<in> set cs. CHR ''/'' \<notin> set c \<Longrightarrow> stack_ok rt (fold (clean_step rt) cs st)"
  by (induction cs arbitrary: st) (auto simp: stack_ok_step)

lemma stack_ok_clean: "stack_ok rt (clean_stack rt p)"
  unfolding clean_stack_def by (rule stack_ok_fold) (auto dest: split_on_no_sep)

lemma stack_ok_elems: "stack_ok rt st \<Longrightarrow> c \<in> set st \<Longrightarrow> elem_ok rt c"
  by (induction st) auto

lemma clean_step_ok: "stack_ok rt (c # st) \<Longrightarrow> clean_step rt c st = c # st"
proof -
  assume ok: "stack_ok rt (c # st)"
  show ?thesis
  proof (cases "c = ''..''")
    case True
    with ok have "\<not> rt" "\<forall>x \<in> set st. x = ''..''" by (simp_all add: elem_ok_def)
    then have "st = [] \<or> hd st = ''..''" by (cases st) simp_all
    then show ?thesis using True \<open>\<not> rt\<close> by (cases st) (simp_all add: clean_step_def)
  qed (use ok in \<open>simp add: clean_step_def elem_ok_def\<close>)
qed

lemma clean_step_Nil [simp]: "clean_step rt [] st = st"
  by (simp add: clean_step_def)

lemma fold_clean_stack: "stack_ok rt st \<Longrightarrow> fold (clean_step rt) (rev st) [] = st"
proof (induction st)
  case (Cons c st)
  then have "fold (clean_step rt) (rev st) [] = st" by simp
  then show ?case using clean_step_ok [OF Cons.prems] by simp
qed simp

lemma rooted_path_of:
  assumes "stack_ok rt (rev cs)"
  shows "rooted (path_of (rt, cs)) = rt"
proof (cases cs)
  case (Cons c cs')
  then have "elem_ok rt c" using assms by (intro stack_ok_elems [of rt "rev cs"]) auto
  then obtain a c' where "c = a # c'" "a \<noteq> CHR ''/''" by (cases c) (auto simp: elem_ok_def)
  then show ?thesis using Cons by (auto simp: path_of_def rooted_def join_Cons)
qed (simp add: path_of_def rooted_def)

lemma path_of_not_Nil: "stack_ok rt (rev cs) \<Longrightarrow> path_of (rt, cs) \<noteq> []"
proof (cases cs)
  case (Cons c cs')
  assume "stack_ok rt (rev cs)"
  then have "elem_ok rt c" using Cons by (intro stack_ok_elems [of rt "rev cs"]) auto
  then show ?thesis using Cons by (auto simp: path_of_def join_Cons elem_ok_def)
qed (simp add: path_of_def)

text \<open>\<open>Clean\<close> gives the canonical path of the location.\<close>

lemma location_path_of:
  assumes "stack_ok rt (rev cs)"
  shows "location (path_of (rt, cs)) = (rt, cs)"
proof -
  have r: "rooted (path_of (rt, cs)) = rt" using assms by (rule rooted_path_of)
  have ns: "\<And>x. x \<in> set cs \<Longrightarrow> CHR ''/'' \<notin> set x"
    using stack_ok_elems [OF assms] by (auto simp: elem_ok_def)
  have f: "fold (clean_step rt) cs [] = rev cs" using fold_clean_stack [OF assms] by simp
  have "clean_stack rt (path_of (rt, cs)) = rev cs"
  proof (cases "cs = []")
    case True
    then show ?thesis by (simp add: path_of_def clean_stack_def clean_step_def)
  next
    case False
    then have s: "split_on (CHR ''/'') (join ''/'' cs) = cs" using ns by (intro split_on_join) auto
    show ?thesis
      using s f False by (cases rt) (simp_all add: path_of_def clean_stack_def)
  qed
  then show ?thesis using r by (simp add: location_def)
qed

lemma location_clean [simp]: "location (path_clean p) = location p"
  unfolding path_clean_def location_def by (subst location_def [symmetric], rule location_path_of)
    (simp add: stack_ok_clean)

lemma path_clean_idem [simp]: "path_clean (path_clean p) = path_clean p"
  by (simp add: path_clean_def [of "path_clean p"]) (simp add: path_clean_def)

lemma path_join_clean: "d \<noteq> [] \<Longrightarrow> path_join (d # ns) = path_of (location (path_join (d # ns)))"
  by (simp add: path_join_def) (simp only: path_clean_def)

text \<open>Two paths denote one place exactly when \<open>Clean\<close> gives the same string for both.\<close>

lemma path_clean_eq_iff: "path_clean p = path_clean q \<longleftrightarrow> location p = location q"
  by (metis location_clean path_clean_def)

lemma location_join_names:
  assumes "d \<noteq> []" "ns \<noteq> []" "list_all name_ok ns"
  shows "location (path_join (d # ns)) = (rooted d, snd (location d) @ ns)"
  using location_append_names [OF assms] assms(1,2) by (simp add: path_join_def join_Cons)

lemma location_fst: "fst (location p) = rooted p"
  by (simp add: location_def)

section \<open>Being inside a directory\<close>

definition inside :: "location \<Rightarrow> location \<Rightarrow> bool" where
  "inside d l \<longleftrightarrow> fst d = fst l \<and> prefix (snd d) (snd l)"

definition strictly_inside :: "location \<Rightarrow> location \<Rightarrow> bool" where
  "strictly_inside d l \<longleftrightarrow> fst d = fst l \<and> strict_prefix (snd d) (snd l)"

lemma inside_refl [simp]: "inside l l"
  by (simp add: inside_def)

lemma inside_trans: "inside a b \<Longrightarrow> inside b c \<Longrightarrow> inside a c"
  by (auto simp: inside_def intro: prefix_order.trans)

lemma join_names_strictly_inside:
  assumes "d \<noteq> []" "ns \<noteq> []" "list_all name_ok ns"
  shows "strictly_inside (location d) (location (path_join (d # ns)))"
  using assms by (simp add: strictly_inside_def location_join_names location_fst strict_prefix_def)

definition parent :: "location \<Rightarrow> location" where
  "parent l = (fst l, butlast (snd l))"

text \<open>\<open>Dir\<close> takes the last element of a cleaned path away.\<close>

lemma join_snoc: "cs \<noteq> [] \<Longrightarrow> join ''/'' (cs @ [n]) = join ''/'' cs @ CHR ''/'' # n"
  by (induction cs) (auto simp: join_Cons)

lemma clean_slash_end: "q \<noteq> [] \<Longrightarrow> location (q @ ''/'') = location q"
  using clean_stack_append [of _ q "[]"] by (simp add: location_def rooted_append)

lemma path_dir_path_of:
  assumes "stack_ok rt (rev (cs @ [c]))"
  shows "path_dir (path_of (rt, cs @ [c])) = path_of (rt, cs)"
proof -
  have ok: "stack_ok rt (rev cs)" using assms by simp
  have slash: "CHR ''/'' \<notin> set c" using stack_ok_elems [OF assms, of c] by (simp add: elem_ok_def)
  show ?thesis
  proof (cases "cs = []")
    case True
    have "path_clean ''/'' = ''/''" by (simp add: path_clean_def location_def rooted_def clean_stack_def path_of_def)
    then show ?thesis
      using True slash cut_last_Some [of "CHR ''/'' # c" "CHR ''/''" "[]" c] cut_last_None [of c "CHR ''/''"]
      by (simp add: path_of_def path_dir_def)
  next
    case False
    define q where "q = path_of (rt, cs)"
    have q: "q \<noteq> []" unfolding q_def using ok by (rule path_of_not_Nil)
    have p: "path_of (rt, cs @ [c]) = q @ CHR ''/'' # c"
      using False by (simp add: q_def path_of_def join_snoc)
    have "cut_last (q @ CHR ''/'' # c) (CHR ''/'') = Some (q, c)"
      using slash by (simp add: cut_last_Some)
    then have "path_dir (q @ CHR ''/'' # c) = path_of (location q)"
      using clean_slash_end [OF q] by (simp add: path_dir_def path_clean_def)
    moreover have "location q = (rt, cs)" unfolding q_def using ok by (rule location_path_of)
    ultimately show ?thesis using p q_def by simp
  qed
qed

lemma stack_ok_location: "stack_ok (rooted p) (rev (snd (location p)))"
  by (simp add: location_def stack_ok_clean)

lemma location_dir_clean:
  "path_clean p = p \<Longrightarrow> location (path_dir p) = parent (location p)"
proof -
  assume c: "path_clean p = p"
  then have p: "p = path_of (location p)" by (simp add: path_clean_def)
  define cs where "cs = snd (location p)"
  have l: "location p = (rooted p, cs)" by (simp add: cs_def location_def)
  have ok: "stack_ok (rooted p) (rev cs)" using stack_ok_location [of p] by (simp add: cs_def)
  show ?thesis
  proof (cases cs rule: rev_cases)
    case Nil
    then have "p = path_of (rooted p, [])" using p l by simp
    then have "p = (if rooted p then ''/'' else ''.'')" unfolding path_of_def by (cases "rooted p") simp_all
    moreover have "location (path_dir ''/'') = (True, [])" "location (path_dir ''.'') = (False, [])"
      by code_simp+
    ultimately have "location (path_dir p) = (rooted p, [])" by (cases "rooted p") simp_all
    then show ?thesis using l Nil by (simp add: parent_def)
  next
    case (snoc cs' c)
    then have "path_dir p = path_of (rooted p, cs')"
      using path_dir_path_of [of "rooted p" cs' c] ok p l by simp
    moreover have "stack_ok (rooted p) (rev cs')" using ok snoc by simp
    ultimately show ?thesis using l snoc by (simp add: location_path_of parent_def)
  qed
qed

lemma path_clean_not_Nil: "path_clean p \<noteq> []"
  using path_of_not_Nil [OF stack_ok_location [of p]] by (simp add: path_clean_def location_def)

lemma path_dir_clean: "path_clean (path_dir p) = path_dir p"
proof (cases "cut_last p (CHR ''/'')")
  case None
  then show ?thesis by (simp add: path_dir_def path_clean_def location_def clean_stack_def rooted_def
        clean_step_def path_of_def)
qed (auto simp: path_dir_def)

lemma path_join_names_clean: "d \<noteq> [] \<Longrightarrow> path_clean (path_join (d # ns)) = path_join (d # ns)"
  by (simp add: path_join_def)

lemma location_dir_join:
  assumes "d \<noteq> []" "list_all name_ok (ns @ [n])"
  shows "location (path_dir (path_join (d # ns @ [n]))) = (rooted d, snd (location d) @ ns)"
  using location_join_names [of d "ns @ [n]"] assms
    location_dir_clean [OF path_join_names_clean, of d "ns @ [n]"]
  by (simp add: parent_def butlast_append)

end
