(* ===== verification/GoFs.thy ===== *)
theory GoFs
  imports World GoPath
begin

text \<open>
  The file system as the program uses it through \<open>os\<close>: an association list from locations to
  directories and regular files, without links or permissions, the current directory being the
  location with no elements. Each call takes an outcome from the schedule of the world like a
  database statement does, so that any of them may fail; a call that fails leaves the files as they
  were (a partial write or removal is not modelled). The lemmas say which locations a call can
  change, and \<open>fs_frame\<close> turns that into an invariant kept by every call that stays in a region.
\<close>

section \<open>Files\<close>

text \<open>A zip archive is kept as the list of its entries, a name and the bytes of each.\<close>

datatype content = Bytes string | Archive "(string \<times> string) list"

datatype node = DirNode | FileNode content

type_synonym fs = "(location \<times> node) list"

definition fs_get :: "fs \<Rightarrow> location \<Rightarrow> node option" where
  "fs_get fs l = map_of fs l"

definition fs_put :: "location \<Rightarrow> node \<Rightarrow> fs \<Rightarrow> fs" where
  "fs_put l n fs = (l, n) # filter (\<lambda>e. fst e \<noteq> l) fs"

definition fs_drop :: "(location \<Rightarrow> bool) \<Rightarrow> fs \<Rightarrow> fs" where
  "fs_drop P fs = filter (\<lambda>e. \<not> P (fst e)) fs"

definition is_dir :: "fs \<Rightarrow> location \<Rightarrow> bool" where
  "is_dir fs l \<longleftrightarrow> snd l = [] \<or> fs_get fs l = Some DirNode"

definition is_file :: "fs \<Rightarrow> location \<Rightarrow> bool" where
  "is_file fs l \<longleftrightarrow> (case fs_get fs l of Some (FileNode _) \<Rightarrow> True | _ \<Rightarrow> False)"

definition has_children :: "fs \<Rightarrow> location \<Rightarrow> bool" where
  "has_children fs l \<longleftrightarrow> list_ex (\<lambda>e. strictly_inside l (fst e)) fs"

definition err_not_exist :: go_err where
  "err_not_exist = ErrExternal ''no such file or directory''"

definition is_not_exist :: "go_err \<Rightarrow> bool" where
  "is_not_exist e \<longleftrightarrow> e = err_not_exist"

definition fs_err :: "string \<Rightarrow> go_err" where
  "fs_err t = ErrExternal t"

section \<open>The calls\<close>

type_synonym 'a fs_op = "fs \<Rightarrow> (go_err + 'a) \<times> fs"

text \<open>\<open>os.MkdirAll\<close>: every missing directory on the way, outermost first.\<close>

fun mkdirs :: "bool \<Rightarrow> string list \<Rightarrow> string list \<Rightarrow> fs \<Rightarrow> (go_err + unit) \<times> fs" where
  "mkdirs rt dn [] fs = (Inr (), fs)"
| "mkdirs rt dn (c # cs) fs =
     (case fs_get fs (rt, dn @ [c]) of
        Some DirNode \<Rightarrow> mkdirs rt (dn @ [c]) cs fs
      | Some (FileNode _) \<Rightarrow> (Inl (fs_err ''not a directory''), fs)
      | None \<Rightarrow> mkdirs rt (dn @ [c]) cs (fs_put (rt, dn @ [c]) DirNode fs))"

definition os_mkdir_all :: "string \<Rightarrow> unit fs_op" where
  "os_mkdir_all p fs = (case location p of (rt, cs) \<Rightarrow> mkdirs rt [] cs fs)"

text \<open>\<open>os.WriteFile\<close>; \<open>os.Create\<close> is the same with no content.\<close>

definition os_write_file :: "string \<Rightarrow> content \<Rightarrow> unit fs_op" where
  "os_write_file p data fs =
     (let l = location p in
      if is_dir fs l then (Inl (fs_err ''is a directory''), fs)
      else if \<not> is_dir fs (parent l) then (Inl err_not_exist, fs)
      else (Inr (), fs_put l (FileNode data) fs))"

definition os_read_file :: "string \<Rightarrow> content fs_op" where
  "os_read_file p fs = (case fs_get fs (location p) of
      Some (FileNode data) \<Rightarrow> (Inr data, fs)
    | Some DirNode \<Rightarrow> (Inl (fs_err ''is a directory''), fs)
    | None \<Rightarrow> (Inl err_not_exist, fs))"

text \<open>\<open>os.Remove\<close>: a file or an empty directory.\<close>

definition os_remove :: "string \<Rightarrow> unit fs_op" where
  "os_remove p fs =
     (let l = location p in
      case fs_get fs l of
        None \<Rightarrow> (Inl (if snd l = [] then fs_err ''device or resource busy'' else err_not_exist), fs)
      | Some (FileNode _) \<Rightarrow> (Inr (), fs_drop (\<lambda>x. x = l) fs)
      | Some DirNode \<Rightarrow> if has_children fs l then (Inl (fs_err ''directory not empty''), fs)
                        else (Inr (), fs_drop (\<lambda>x. x = l) fs))"

text \<open>\<open>os.RemoveAll\<close>: nothing for the empty path, an error for one that ends in a dot.\<close>

definition ends_with_dot :: "string \<Rightarrow> bool" where
  "ends_with_dot p \<longleftrightarrow> p = ''.'' \<or> has_suffix p ''/.''"

definition os_remove_all :: "string \<Rightarrow> unit fs_op" where
  "os_remove_all p fs =
     (if p = [] then (Inr (), fs)
      else if ends_with_dot p then (Inl (fs_err ''invalid argument''), fs)
      else (Inr (), fs_drop (inside (location p)) fs))"

text \<open>\<open>os.Rename\<close>; a directory moves with everything in it.\<close>

definition relocate_entry :: "location \<Rightarrow> location \<Rightarrow> location \<times> node \<Rightarrow> location \<times> node" where
  "relocate_entry a b e = (if inside a (fst e)
     then ((fst b, snd b @ drop (length (snd a)) (snd (fst e))), snd e) else e)"

definition os_rename :: "string \<Rightarrow> string \<Rightarrow> unit fs_op" where
  "os_rename p q fs =
     (let a = location p; b = location q in
      case fs_get fs a of
        None \<Rightarrow> (Inl err_not_exist, fs)
      | Some n \<Rightarrow>
          if \<not> is_dir fs (parent b) then (Inl err_not_exist, fs)
          else if a = b then (Inr (), fs)
          else (case n of
              FileNode data \<Rightarrow> if is_dir fs b then (Inl (fs_err ''file exists''), fs)
                 else (Inr (), fs_put b (FileNode data) (fs_drop (\<lambda>x. x = a) fs))
            | DirNode \<Rightarrow> if fs_get fs b \<noteq> None \<or> snd b = [] \<or> inside a b then (Inl (fs_err ''file exists''), fs)
                 else (Inr (), map (relocate_entry a b) fs)))"

text \<open>\<open>os.Stat\<close>: what is there.\<close>

definition os_stat :: "string \<Rightarrow> node fs_op" where
  "os_stat p fs = (case fs_get fs (location p) of
      Some n \<Rightarrow> (Inr n, fs)
    | None \<Rightarrow> if snd (location p) = [] then (Inr DirNode, fs) else (Inl err_not_exist, fs))"

text \<open>The size of a regular file; an archive is never shorter than its end record.\<close>

definition file_size :: "node \<Rightarrow> nat" where
  "file_size n = (case n of
      DirNode \<Rightarrow> 0
    | FileNode (Bytes s) \<Rightarrow> length s
    | FileNode (Archive es) \<Rightarrow> 22 + sum_list (map (\<lambda>(name, data). length name + length data) es))"

text \<open>\<open>os.ReadDir\<close>: the names in a directory with what they are; the caller's order is by name.\<close>

definition children :: "fs \<Rightarrow> location \<Rightarrow> (string \<times> node) list" where
  "children fs l = List.map_filter (\<lambda>(e, n).
     if fst e = fst l \<and> butlast (snd e) = snd l \<and> snd e \<noteq> [] then Some (last (snd e), n) else None) fs"

fun string_less_eq :: "string \<Rightarrow> string \<Rightarrow> bool" where
  "string_less_eq [] t = True"
| "string_less_eq (a # s) [] = False"
| "string_less_eq (a # s) (b # t) = (ch a < ch b \<or> (a = b \<and> string_less_eq s t))"

fun insert_name :: "string \<times> 'n \<Rightarrow> (string \<times> 'n) list \<Rightarrow> (string \<times> 'n) list" where
  "insert_name x [] = [x]"
| "insert_name x (y # ys) = (if string_less_eq (fst x) (fst y) then x # y # ys else y # insert_name x ys)"

definition os_read_dir :: "string \<Rightarrow> (string \<times> node) list fs_op" where
  "os_read_dir p fs =
     (let l = location p in
      if is_dir fs l then (Inr (foldr insert_name (children fs l) []), fs)
      else (Inl (if fs_get fs l = None then err_not_exist else fs_err ''not a directory''), fs))"

section \<open>Calls on the world\<close>

record fs_world = world +
  w_fs :: fs

definition fs_call :: "'a fs_op \<Rightarrow> ('z fs_world_scheme, 'a) act" where
  "fs_call f w = (case next_fault w of
      (Some e, w') \<Rightarrow> (Inl e, w')
    | (None, w') \<Rightarrow> (case f (w_fs w') of (r, fs) \<Rightarrow> (r, w'\<lparr>w_fs := fs\<rparr>)))"

text \<open>An external call (network, process) whose answer is a function of its arguments.\<close>

definition ext_call :: "(go_err + 'a) \<Rightarrow> ('z world_scheme, 'a) act" where
  "ext_call r w = (case next_fault w of (Some e, w') \<Rightarrow> (Inl e, w') | (None, w') \<Rightarrow> (r, w'))"

lemma fs_call_free:
  "fault_free w \<Longrightarrow> fs_call f w = (case f (w_fs w) of (r, fs) \<Rightarrow> (r, w\<lparr>w_fs := fs\<rparr>))"
  by (simp add: fs_call_def)

lemma ext_call_free [simp]: "fault_free w \<Longrightarrow> ext_call r w = (r, w)"
  by (simp add: ext_call_def)

lemma next_fault_fs [simp]: "next_fault (w :: 'z fs_world_scheme) = (f, w') \<Longrightarrow> w_fs w' = w_fs w"
  by (auto dest!: next_fault_result)

section \<open>Where a call acts\<close>

lemma fs_get_put [simp]: "fs_get (fs_put l n fs) x = (if x = l then Some n else fs_get fs x)"
  by (induction fs) (auto simp: fs_put_def fs_get_def)

lemma fs_get_drop [simp]: "fs_get (fs_drop P fs) x = (if P x then None else fs_get fs x)"
  by (induction fs) (auto simp: fs_drop_def fs_get_def)

text \<open>The files of a region: an effect that stays in it leaves every location outside as it was.\<close>

definition same_outside :: "(location \<Rightarrow> bool) \<Rightarrow> fs \<Rightarrow> fs \<Rightarrow> bool" where
  "same_outside R fs fs' \<longleftrightarrow> (\<forall>l. \<not> R l \<longrightarrow> fs_get fs' l = fs_get fs l)"

text \<open>Only regular files count: directories may come and go.\<close>

definition files_kept_outside :: "(location \<Rightarrow> bool) \<Rightarrow> fs \<Rightarrow> fs \<Rightarrow> bool" where
  "files_kept_outside R fs fs' \<longleftrightarrow>
     (\<forall>l data. \<not> R l \<longrightarrow> fs_get fs l = Some (FileNode data) \<longrightarrow> fs_get fs' l = Some (FileNode data))"

lemma files_kept_refl [simp]: "files_kept_outside R fs fs"
  by (simp add: files_kept_outside_def)

lemma files_kept_trans:
  "files_kept_outside R a b \<Longrightarrow> files_kept_outside R b c \<Longrightarrow> files_kept_outside R a c"
  by (simp add: files_kept_outside_def)

lemma files_kept_mono:
  "files_kept_outside R a b \<Longrightarrow> (\<And>l. R l \<Longrightarrow> S l) \<Longrightarrow> files_kept_outside S a b"
  by (auto simp: files_kept_outside_def)

lemma files_keptD:
  "files_kept_outside R a b \<Longrightarrow> \<not> R l \<Longrightarrow> fs_get a l = Some (FileNode c) \<Longrightarrow> fs_get b l = Some (FileNode c)"
  unfolding files_kept_outside_def by blast

lemma mkdirs_files: "fs_get fs l = Some (FileNode data) \<Longrightarrow>
    fs_get (snd (mkdirs rt dn cs fs)) l = Some (FileNode data)"
proof (induction rt dn cs fs rule: mkdirs.induct)
  case (2 rt dn c cs fs)
  show ?case
  proof (cases "l = (rt, dn @ [c])")
    case True
    then show ?thesis using 2 by simp
  next
    case False
    then show ?thesis using 2 by (auto split: option.splits node.splits)
  qed
qed simp

lemma mkdir_all_files: "files_kept_outside R fs (snd (os_mkdir_all p fs))"
  by (auto simp: files_kept_outside_def os_mkdir_all_def mkdirs_files split: prod.split)

lemma write_file_files: "R (location p) \<Longrightarrow> files_kept_outside R fs (snd (os_write_file p data fs))"
  by (auto simp: files_kept_outside_def os_write_file_def Let_def)

lemma read_file_fs [simp]: "snd (os_read_file p fs) = fs"
  by (auto simp: os_read_file_def split: option.split node.split)

lemma stat_fs [simp]: "snd (os_stat p fs) = fs"
  by (auto simp: os_stat_def split: option.split)

lemma read_dir_fs [simp]: "snd (os_read_dir p fs) = fs"
  by (auto simp: os_read_dir_def Let_def)

lemma remove_files: "R (location p) \<Longrightarrow> files_kept_outside R fs (snd (os_remove p fs))"
  by (auto simp: files_kept_outside_def os_remove_def Let_def split: option.splits node.splits)

text \<open>Removing a directory never removes a file.\<close>

lemma remove_all_files:
  "(\<And>l. inside (location p) l \<Longrightarrow> R l) \<Longrightarrow> files_kept_outside R fs (snd (os_remove_all p fs))"
  by (auto simp: files_kept_outside_def os_remove_all_def)

lemma remove_dir_files:
  "\<not> is_file fs (location p) \<Longrightarrow> files_kept_outside R fs (snd (os_remove p fs))"
  by (auto simp: files_kept_outside_def os_remove_def Let_def is_file_def split: option.splits node.splits)

lemma is_file_listed: "is_file fs l \<Longrightarrow> l \<in> fst ` set fs"
  by (auto simp: is_file_def fs_get_def split: option.splits dest!: map_of_SomeD intro: rev_image_eqI)

section \<open>Invariants of the files\<close>

lemma keeps_fs_call:
  assumes "\<And>fs. I fs \<Longrightarrow> I (snd (f fs))"
  shows "keeps (\<lambda>w :: 'z fs_world_scheme. I (w_fs w)) (fs_call f)"
proof (rule keepsI)
  fix w :: "'z fs_world_scheme" assume w: "I (w_fs w)"
  obtain g w' where g: "next_fault w = (g, w')" by (cases "next_fault w")
  then have "w_fs w' = w_fs w" by simp
  moreover obtain r fs where q: "f (w_fs w') = (r, fs)" by (cases "f (w_fs w')")
  ultimately have "I fs" using assms [of "w_fs w'"] w by simp
  then show "I (w_fs (snd (fs_call f w)))"
    using g q w by (simp add: fs_call_def split: option.split)
qed

lemma keeps_files_fs_call:
  assumes "\<And>fs. files_kept_outside R fs (snd (f fs))"
  shows "keeps (\<lambda>w :: 'z fs_world_scheme. files_kept_outside R fs0 (w_fs w)) (fs_call f)"
  using assms by (intro keeps_fs_call) (blast intro: files_kept_trans)

lemma db_call_fs: "w_fs (snd (db_call q (w :: 'z fs_world_scheme))) = w_fs w"
proof -
  obtain r w' where "db_call q w = (r, w')" by (cases "db_call q w")
  then show ?thesis using db_call_result [of q w r w'] by auto
qed

lemma keeps_db_call_fs [keeps_intros]: "keeps (\<lambda>w :: 'z fs_world_scheme. I (w_fs w)) (db_call q)"
  by (rule keepsI) (simp add: db_call_fs)

lemma fs_call_db: "w_db (snd (fs_call f (w :: 'z fs_world_scheme))) = w_db w"
  using next_fault_db [of w]
  by (auto simp: fs_call_def split: prod.split option.split)

lemma keeps_fs_call_db [keeps_intros]: "keeps (\<lambda>w :: 'z fs_world_scheme. I (w_db w)) (fs_call f)"
  by (rule keepsI) (simp add: fs_call_db)

lemma keeps_ext_call_fs [keeps_intros]: "keeps (\<lambda>w :: 'z fs_world_scheme. I (w_fs w)) (ext_call r)"
  by (rule keepsI) (auto simp: ext_call_def split: prod.split option.split)

lemma keeps_ext_call_db [keeps_intros]: "keeps (\<lambda>w :: 'z world_scheme. I (w_db w)) (ext_call r)"
  using next_fault_db
  by (intro keepsI) (fastforce simp: ext_call_def split: prod.split option.split)

lemma keeps_fs_read [keeps_intros]:
  "keeps (\<lambda>w :: 'z fs_world_scheme. I (w_fs w)) (fs_call (os_read_file p))"
  "keeps (\<lambda>w :: 'z fs_world_scheme. I (w_fs w)) (fs_call (os_stat p))"
  "keeps (\<lambda>w :: 'z fs_world_scheme. I (w_fs w)) (fs_call (os_read_dir p))"
  by (auto intro!: keeps_fs_call)


section \<open>Results of calls\<close>

text \<open>What one call can do: fail without an effect, which it does not without a fault, or run.\<close>

lemma next_fault_cases:
  assumes "next_fault w = (f, w')"
  obtains fl where "w' = w\<lparr>w_faults := fl\<rparr>" "fault_free w \<longrightarrow> f = None \<and> fl = []"
  using assms by (cases "w_faults w") (auto simp: next_fault_def)

lemma ext_call_cases:
  assumes "ext_call r w = (x, w')"
  obtains e fl where "x = Inl e" "w' = w\<lparr>w_faults := fl\<rparr>" "\<not> fault_free w"
    | fl where "x = r" "w' = w\<lparr>w_faults := fl\<rparr>" "fault_free w \<longrightarrow> fl = []"
proof -
  obtain f w1 where f: "next_fault w = (f, w1)" by (cases "next_fault w")
  then obtain fl where fl: "w1 = w\<lparr>w_faults := fl\<rparr>" "fault_free w \<longrightarrow> f = None \<and> fl = []"
    by (rule next_fault_cases)
  show thesis
    using assms f fl that by (cases f) (auto simp: ext_call_def)
qed

lemma fs_call_cases:
  assumes "fs_call q w = (x, w')"
  obtains e fl where "x = Inl e" "w' = w\<lparr>w_faults := fl\<rparr>" "\<not> fault_free w"
    | fl fs where "q (w_fs w) = (x, fs)" "w' = w\<lparr>w_faults := fl, w_fs := fs\<rparr>" "fault_free w \<longrightarrow> fl = []"
proof -
  obtain f w1 where f: "next_fault w = (f, w1)" by (cases "next_fault w")
  then obtain fl where fl: "w1 = w\<lparr>w_faults := fl\<rparr>" "fault_free w \<longrightarrow> f = None \<and> fl = []"
    by (rule next_fault_cases)
  obtain y fs where q: "q (w_fs w) = (y, fs)" by fastforce
  show thesis
  proof (cases f)
    case None
    then have "x = y" "w' = w\<lparr>w_faults := fl, w_fs := fs\<rparr>"
      using assms f fl q by (simp_all add: fs_call_def)
    then show ?thesis using that(2) q fl by simp
  next
    case (Some e)
    then have "x = Inl e" "w' = w\<lparr>w_faults := fl\<rparr>" "\<not> fault_free w"
      using assms f fl by (auto simp: fs_call_def)
    then show ?thesis by (rule that(1))
  qed
qed

lemma db_call_cases:
  assumes "db_call q w = (x, w')"
  obtains e fl where "x = Inl e" "w' = w\<lparr>w_faults := fl\<rparr>" "\<not> fault_free w"
    | fl d where "q (w_now w) (w_db w) = (x, d)" "w' = w\<lparr>w_faults := fl, w_db := d\<rparr>" "fault_free w \<longrightarrow> fl = []"
proof -
  obtain f w1 where f: "next_fault w = (f, w1)" by (cases "next_fault w")
  then obtain fl where fl: "w1 = w\<lparr>w_faults := fl\<rparr>" "fault_free w \<longrightarrow> f = None \<and> fl = []"
    by (rule next_fault_cases)
  obtain y d where q: "q (w_now w) (w_db w) = (y, d)" by fastforce
  show thesis
  proof (cases f)
    case None
    then have "x = y" "w' = w\<lparr>w_faults := fl, w_db := d\<rparr>"
      using assms f fl q by (simp_all add: db_call_def)
    then show ?thesis using that(2) q fl by simp
  next
    case (Some e)
    then have "x = Inl e" "w' = w\<lparr>w_faults := fl\<rparr>" "\<not> fault_free w"
      using assms f fl by (auto simp: db_call_def)
    then show ?thesis by (rule that(1))
  qed
qed

section \<open>Creating directories\<close>

lemma mkdirs_ok:
  assumes "\<And>k. k < length cs \<Longrightarrow> \<not> is_file fs (rt, dn @ take (Suc k) cs)"
  shows "fst (mkdirs rt dn cs fs) = Inr ()"
  using assms
proof (induction rt dn cs fs rule: mkdirs.induct)
  case (2 rt dn c cs fs)
  have nf: "\<not> is_file fs (rt, dn @ [c])" using 2(3) [of 0] by simp
  have step: "\<not> is_file fs (rt, (dn @ [c]) @ take (Suc k) cs)" if "k < length cs" for k
    using 2(3) [of "Suc k"] that by simp
  show ?case
  proof (cases "fs_get fs (rt, dn @ [c])")
    case None
    have n: "\<not> is_file (fs_put (rt, dn @ [c]) DirNode fs) (rt, (dn @ [c]) @ take (Suc k) cs)"
      if "k < length cs" for k
      using step [OF that] that by (cases cs) (auto simp: is_file_def)
    have "fst (mkdirs rt (dn @ [c]) cs (fs_put (rt, dn @ [c]) DirNode fs)) = Inr ()"
      by (rule 2(1) [OF None]) (rule n)
    then show ?thesis using None by simp
  next
    case (Some n)
    then have "n = DirNode" using nf by (cases n) (auto simp: is_file_def)
    then show ?thesis using 2(2) [OF Some _ step] Some by simp
  qed
qed simp

lemma mkdirs_get:
  "fs_get (snd (mkdirs rt dn cs fs)) l = fs_get fs l \<or> (fs_get fs l = None \<and> fs_get (snd (mkdirs rt dn cs fs)) l = Some DirNode)"
proof (induction rt dn cs fs rule: mkdirs.induct)
  case (2 rt dn c cs fs)
  then show ?case
    by (cases "fs_get fs (rt, dn @ [c])"; cases "l = (rt, dn @ [c])") (auto split: node.split)
qed simp

lemma mkdirs_keep_dir: "fs_get fs l = Some DirNode \<Longrightarrow> fs_get (snd (mkdirs rt dn cs fs)) l = Some DirNode"
  using mkdirs_get [of rt dn cs fs l] by auto

lemma mkdirs_dir:
  "fst (mkdirs rt dn cs fs) = Inr () \<Longrightarrow> cs \<noteq> [] \<Longrightarrow> fs_get (snd (mkdirs rt dn cs fs)) (rt, dn @ cs) = Some DirNode"
proof (induction rt dn cs fs rule: mkdirs.induct)
  case (2 rt dn c cs fs)
  show ?case
  proof (cases "fs_get fs (rt, dn @ [c])")
    case None
    then show ?thesis using 2 mkdirs_keep_dir [of "fs_put (rt, dn @ [c]) DirNode fs" "(rt, dn @ [c])"]
      by (cases cs) auto
  next
    case (Some n)
    then show ?thesis using 2 mkdirs_keep_dir [of fs "(rt, dn @ [c])"]
      by (cases cs; cases n) auto
  qed
qed simp

lemma mkdir_all_result:
  assumes "os_mkdir_all p fs = (x, fs')"
  shows "(\<forall>l. fs_get fs' l = fs_get fs l \<or> fs_get fs l = None \<and> fs_get fs' l = Some DirNode) \<and>
         (x = Inr () \<longrightarrow> is_dir fs' (location p)) \<and>
         ((\<forall>l. inside l (location p) \<longrightarrow> \<not> is_file fs l) \<longrightarrow> x = Inr ())"
proof -
  obtain rt cs where l: "location p = (rt, cs)" by (cases "location p")
  then have r: "mkdirs rt [] cs fs = (x, fs')" using assms by (simp add: os_mkdir_all_def)
  have 1: "\<forall>l. fs_get fs' l = fs_get fs l \<or> fs_get fs l = None \<and> fs_get fs' l = Some DirNode"
    using mkdirs_get [of rt "[]" cs fs] r by simp
  have 2: "x = Inr () \<longrightarrow> is_dir fs' (location p)"
    using mkdirs_dir [of rt "[]" cs fs] r l by (cases "cs = []") (auto simp: is_dir_def)
  have 3: "x = Inr ()" if "\<forall>l. inside l (location p) \<longrightarrow> \<not> is_file fs l"
  proof -
    have "\<not> is_file fs (rt, [] @ take (Suc k) cs)" for k
      using that l by (simp add: inside_def take_is_prefix)
    then show ?thesis using mkdirs_ok [of cs fs rt "[]"] r by simp
  qed
  show ?thesis using 1 2 3 by blast
qed


lemma mkdirs_outside:
  "\<not> prefix (snd l) (dn @ cs) \<or> fst l \<noteq> rt \<Longrightarrow> fs_get (snd (mkdirs rt dn cs fs)) l = fs_get fs l"
proof (induction rt dn cs fs rule: mkdirs.induct)
  case (2 rt dn c cs fs)
  have "l \<noteq> (rt, dn @ [c])" using 2(3) by (auto simp: prefix_def)
  then show ?case using 2 by (auto split: option.split node.split)
qed simp

lemma mkdir_all_outside:
  assumes "os_mkdir_all p fs = (x, fs')" "\<not> inside l (location p)"
  shows "fs_get fs' l = fs_get fs l"
  using assms mkdirs_outside [of l "[]" "snd (location p)" "fst (location p)" fs]
  by (auto simp: os_mkdir_all_def inside_def split: prod.splits)

end
