(* ===== verification/Sandbox.thy ===== *)
theory Sandbox
  imports GoFs
begin

text \<open>
  The extension sandbox as its clients see it (\<open>internal/sandbox/client.go\<close>): a process that runs
  the source extensions and answers over gRPC. Its answers are a parameter of the model, the record
  \<open>source\<close> of one function per remote call, from the call's arguments to an error or the message's
  fields. \<open>ask\<close> makes a call: it may also fail by the schedule (a timeout, a dead process), which
  is how \<open>SupervisedClient.Ensure\<close> fails.
\<close>

record chapter_summary =
  cs_source_id :: string
  cs_name :: string
  cs_number :: f64
  cs_upload_ts :: int

record entry_details =
  ed_source_entry_id :: string
  ed_title :: string
  ed_cover_url :: string
  ed_description :: string
  ed_status :: string
  ed_authors :: "string list"
  ed_genres :: "string list"

record image_data =
  im_content_type :: string
  im_data :: string

record text_content =
  tc_format :: string
  tc_content :: string

record stream_info =
  si_stream_url :: string
  si_headers :: "(string \<times> string) list"

record extension_meta =
  em_package :: string
  em_name :: string
  em_lang :: string
  em_content_type :: string

record source =
  src_details :: "string \<Rightarrow> string \<Rightarrow> go_err + entry_details"
  src_chapters :: "string \<Rightarrow> string \<Rightarrow> go_err + chapter_summary list"
  src_episodes :: "string \<Rightarrow> string \<Rightarrow> go_err + chapter_summary list"
  src_pages :: "string \<Rightarrow> string \<Rightarrow> string \<Rightarrow> go_err + string list"
  src_text :: "string \<Rightarrow> string \<Rightarrow> string \<Rightarrow> go_err + text_content"
  src_stream :: "string \<Rightarrow> string \<Rightarrow> string \<Rightarrow> go_err + stream_info"
  src_image :: "string \<Rightarrow> string \<Rightarrow> go_err + image_data"
  src_peek :: "string \<Rightarrow> go_err + extension_meta"

definition ask :: "(go_err + 'a) \<Rightarrow> ('z world_scheme, 'a) act" where
  "ask r = ext_call r"

definition sandbox_ensure :: "('z world_scheme, unit) act" where
  "sandbox_ensure = ext_call (Inr ())"

lemma keeps_ask [keeps_intros]:
  "keeps (\<lambda>w :: 'z fs_world_scheme. I (w_fs w)) (ask r)"
  "keeps (\<lambda>w :: 'z world_scheme. J (w_db w)) (ask r)"
  by (auto simp: ask_def intro: keeps_intros)

lemma keeps_ensure [keeps_intros]:
  "keeps (\<lambda>w :: 'z fs_world_scheme. I (w_fs w)) sandbox_ensure"
  "keeps (\<lambda>w :: 'z world_scheme. J (w_db w)) sandbox_ensure"
  by (auto simp: sandbox_ensure_def intro: keeps_intros)

lemma ask_free [simp]: "fault_free w \<Longrightarrow> ask r w = (r, w)"
  by (simp add: ask_def)

lemma ensure_free [simp]: "fault_free w \<Longrightarrow> sandbox_ensure w = (Inr (), w)"
  by (simp add: sandbox_ensure_def)

lemma ask_state:
  assumes "ask r w = (x, w')"
  shows "w_db w' = w_db w \<and> w_now w' = w_now w \<and> (\<forall>v. x = Inr v \<longrightarrow> r = Inr v)"
  using assms by (auto simp: ask_def elim: ext_call_cases)

lemma reads_ask [atomic_intros]: "reads (ask r)" "reads sandbox_ensure"
  by (auto simp: reads_def ask_def sandbox_ensure_def elim!: ext_call_cases)

end
