(* ===== verification/Sha1.thy ===== *)
theory Sha1
  imports GoStrings "HOL-Library.Word"
begin

unbundle bit_operations_syntax

text \<open>
  SHA-1 (\<open>crypto/sha1\<close>) and the hexadecimal encoding of its sum (\<open>encoding/hex\<close>), on 32-bit words.
  The digest names the folders of source ids that are not fit for a file name.
\<close>

section \<open>The digest\<close>

type_synonym w32 = "32 word"

definition rotl32 :: "nat \<Rightarrow> w32 \<Rightarrow> w32" where
  "rotl32 n x = push_bit n x OR drop_bit (32 - n) x"

definition be_word :: "string \<Rightarrow> w32" where
  "be_word bs = fold (\<lambda>c acc. push_bit 8 acc OR of_nat (ch c)) bs 0"

fun chunks_of :: "nat \<Rightarrow> 'a list \<Rightarrow> 'a list list" where
  "chunks_of n xs = (if xs = [] \<or> n = 0 then [] else take n xs # chunks_of n (drop n xs))"

declare chunks_of.simps [simp del]

definition be_bytes :: "nat \<Rightarrow> int \<Rightarrow> string" where
  "be_bytes k n = map (\<lambda>i. char_of (n div 256 ^ (k - 1 - i) mod 256)) [0..<k]"

definition sha1_pad :: "string \<Rightarrow> string" where
  "sha1_pad s = s @ char_of (128::nat) # replicate ((119 - length s mod 64) mod 64) (char_of (0::nat))
     @ be_bytes 8 (8 * int (length s))"

fun extend_schedule :: "nat \<Rightarrow> w32 list \<Rightarrow> w32 list" where
  "extend_schedule 0 ws = ws"
| "extend_schedule (Suc k) ws =
     (let i = length ws
      in extend_schedule k (ws @ [rotl32 1 (ws ! (i - 3) XOR ws ! (i - 8) XOR ws ! (i - 14) XOR ws ! (i - 16))]))"

definition round_word :: "nat \<Rightarrow> w32 \<Rightarrow> w32 \<Rightarrow> w32 \<Rightarrow> w32" where
  "round_word t b c d =
     (if t < 20 then (b AND c) OR (NOT b AND d)
      else if t < 40 then b XOR c XOR d
      else if t < 60 then (b AND c) OR (b AND d) OR (c AND d)
      else b XOR c XOR d)"

definition round_const :: "nat \<Rightarrow> w32" where
  "round_const t = (if t < 20 then 0x5A827999 else if t < 40 then 0x6ED9EBA1
     else if t < 60 then 0x8F1BBCDC else 0xCA62C1D6)"

type_synonym sha1_state = "w32 \<times> w32 \<times> w32 \<times> w32 \<times> w32"

definition sha1_round :: "nat \<times> w32 \<Rightarrow> sha1_state \<Rightarrow> sha1_state" where
  "sha1_round tw st = (case tw of (t, w) \<Rightarrow> case st of (a, b, c, d, e) \<Rightarrow>
     (rotl32 5 a + round_word t b c d + e + round_const t + w, a, rotl32 30 b, c, d))"

definition sha1_block :: "string \<Rightarrow> sha1_state \<Rightarrow> sha1_state" where
  "sha1_block blk st =
     (let ws = extend_schedule 64 (map be_word (chunks_of 4 blk));
          (a, b, c, d, e) = fold sha1_round (zip [0..<80] ws) st
      in case st of (h0, h1, h2, h3, h4) \<Rightarrow> (h0 + a, h1 + b, h2 + c, h3 + d, h4 + e))"

definition sha1 :: "string \<Rightarrow> string" where
  "sha1 s = (case fold sha1_block (chunks_of 64 (sha1_pad s))
        (0x67452301, 0xEFCDAB89, 0x98BADCFE, 0x10325476, 0xC3D2E1F0)
     of (a, b, c, d, e) \<Rightarrow> concat (map (\<lambda>w. be_bytes 4 (uint w)) [a, b, c, d, e]))"

section \<open>Hexadecimal\<close>

definition hex_digit :: "nat \<Rightarrow> char" where
  "hex_digit n = (if n < 10 then char_of (48 + n) else char_of (87 + n))"

definition hex_encode :: "string \<Rightarrow> string" where
  "hex_encode s = concat (map (\<lambda>c. [hex_digit (ch c div 16), hex_digit (ch c mod 16)]) s)"

text \<open>The value of a hexadecimal digit of either case.\<close>

definition hex_val :: "char \<Rightarrow> nat option" where
  "hex_val c = (if is_digit c then Some (ch c - 48)
     else if 97 \<le> ch c \<and> ch c \<le> 102 then Some (ch c - 87)
     else if 65 \<le> ch c \<and> ch c \<le> 70 then Some (ch c - 55)
     else None)"

lemma length_sha1 [simp]: "length (sha1 s) = 20"
  by (simp add: sha1_def be_bytes_def split: prod.split)

lemma length_hex_encode [simp]: "length (hex_encode s) = 2 * length s"
  by (induction s) (auto simp: hex_encode_def)

lemma ch_less: "ch c < 256"
  by (simp add: ch_def)

lemma hex_digit_alnum: "n < 16 \<Longrightarrow> is_alnum (hex_digit n)"
  by (auto simp: hex_digit_def is_alnum_def is_digit_def is_lower_def ch_def)

lemma hex_encode_alnum: "c \<in> set (hex_encode s) \<Longrightarrow> is_alnum c"
  using ch_less by (auto simp: hex_encode_def less_mult_imp_div_less intro!: hex_digit_alnum)

lemma hex_val_hex_digit: "n < 16 \<Longrightarrow> hex_val (hex_digit n) = Some n"
  by (auto simp: hex_digit_def hex_val_def is_digit_def ch_def)

end
