(* ===== verification/FileNames.thy ===== *)
theory FileNames
  imports Sha1 GoPath Float64
begin

text \<open>
  The names the download manager gives to files and folders (\<open>internal/download/manager.go\<close>):
  sanitising a title, the fallback for ids that are not fit for a name, the name of a chapter's
  folder and the extension of a page image.
\<close>

section \<open>Query unescaping\<close>

text \<open>\<open>url.QueryUnescape\<close>: a plus is a space, \<open>%XX\<close> a byte; \<open>None\<close> is the error.\<close>

fun query_unescape :: "string \<Rightarrow> string option" where
  "query_unescape [] = Some []"
| "query_unescape (c # cs) =
     (if c = CHR ''%'' then
        (case cs of
           a # b # rest \<Rightarrow>
             (case (hex_val a, hex_val b) of
                (Some x, Some y) \<Rightarrow> map_option (\<lambda>t. char_of (16 * x + y) # t) (query_unescape rest)
              | _ \<Rightarrow> None)
         | _ \<Rightarrow> None)
      else if c = CHR ''+'' then map_option (\<lambda>t. CHR '' '' # t) (query_unescape cs)
      else map_option (\<lambda>t. c # t) (query_unescape cs))"

section \<open>Segments\<close>

definition segment_char :: "char \<Rightarrow> bool" where
  "segment_char c \<longleftrightarrow> is_alnum c \<or> c = CHR ''.'' \<or> c = CHR ''_'' \<or> c = CHR ''-''"

definition safe_segment_re :: "string \<Rightarrow> bool" where
  "safe_segment_re s \<longleftrightarrow> s \<noteq> [] \<and> list_all segment_char s"

definition safe_segment :: "string \<Rightarrow> string" where
  "safe_segment raw =
     (let s = (case query_unescape raw of Some u \<Rightarrow> u | None \<Rightarrow> raw);
          s = trim_space s
      in if s \<noteq> [] \<and> length s \<le> 120 \<and> safe_segment_re s then s
         else hex_encode (sha1 raw))"

definition illegal_char :: "char \<Rightarrow> bool" where
  "illegal_char c \<longleftrightarrow> c \<in> set ''<>:/|?*{}'' \<or> ch c = 34 \<or> ch c = 92 \<or> ch c < 32"

text \<open>
  \<open>^\\s*[\\{\\[]\<close> as it is written between back quotes: a literal backslash, letters \<open>s\<close>, and one of
  a backslash, an opening brace and an opening bracket.
\<close>

definition looks_like_structured_data :: "string \<Rightarrow> bool" where
  "looks_like_structured_data s =
     (case s of
        [] \<Rightarrow> False
      | c # cs \<Rightarrow> ch c = 92 \<and>
          (case dropWhile (\<lambda>x. x = CHR ''s'') cs of
             [] \<Rightarrow> False
           | d # _ \<Rightarrow> ch d = 92 \<or> d = CHR ''{'' \<or> d = CHR ''[''))"

definition space_or_dot :: "char \<Rightarrow> bool" where
  "space_or_dot c \<longleftrightarrow> c = CHR '' '' \<or> c = CHR ''.''"

definition sanitize_filename :: "string \<Rightarrow> string" where
  "sanitize_filename s =
     (if looks_like_structured_data s then []
      else let s = trim_space s;
               s = map (\<lambda>c. if illegal_char c then CHR ''_'' else c) s;
               s = trim_by space_or_dot s
           in if s = [] then []
              else if length s > 150 then take 150 s else s)"

section \<open>Folder names\<close>

definition content_type_dir :: "string \<Rightarrow> string" where
  "content_type_dir t = (if t = ''novel'' then ''novels'' else t)"

definition folder_segment :: "string \<Rightarrow> string \<Rightarrow> string" where
  "folder_segment primary fallback =
     (let name = sanitize_filename primary in if name \<noteq> [] then name else safe_segment fallback)"

definition extension_folder_name :: "string \<Rightarrow> string" where
  "extension_folder_name pkg = folder_segment pkg pkg"

definition title_folder_name :: "string \<Rightarrow> string \<Rightarrow> string" where
  "title_folder_name title fallback_id = folder_segment title fallback_id"

text \<open>
  \<open>strconv.FormatFloat(n, 'f', -1, 64)\<close> of a number that is not an integer: the fewest decimals that
  read back as the number. No double needs more than 1074 of them.
\<close>

definition decimals :: "nat \<Rightarrow> rat \<Rightarrow> int" where
  "decimals p x = round_even (x * 10 ^ p)"

fun shortest_decimals :: "nat \<Rightarrow> nat \<Rightarrow> rat \<Rightarrow> nat" where
  "shortest_decimals 0 p x = p"
| "shortest_decimals (Suc fuel) p x =
     (if fl (of_int (decimals p x) / 10 ^ p) = x then p else shortest_decimals fuel (Suc p) x)"

definition decimal_string :: "nat \<Rightarrow> int \<Rightarrow> string" where
  "decimal_string p n =
     (let m = nat \<bar>n\<bar>; f = nat_digits (m mod 10 ^ p)
      in (if n < 0 then ''-'' else []) @ nat_digits (m div 10 ^ p) @ ''.'' @
         replicate (p - length f) (CHR ''0'') @ f)"

definition format_chapter_number :: "f64 \<Rightarrow> string" where
  "format_chapter_number n =
     (if n = of_int \<lfloor>n\<rfloor> then int_digits \<lfloor>n\<rfloor>
      else let p = shortest_decimals 1074 1 n in decimal_string p (decimals p n))"

text \<open>
  \<open>(?i)^noun\s+0*numStr\b\<close>: the zeros before the number are taken greedily and given back one by
  one, so any number of them may stand before it.
\<close>

definition re_blank :: "char \<Rightarrow> bool" where
  "re_blank c \<longleftrightarrow> ch c = 32 \<or> ch c = 9 \<or> ch c = 10 \<or> ch c = 12 \<or> ch c = 13"

definition word_start :: "string \<Rightarrow> bool" where
  "word_start s = (case s of [] \<Rightarrow> False | c # _ \<Rightarrow> is_word c)"

definition number_prefix_re :: "string \<Rightarrow> string \<Rightarrow> string \<Rightarrow> bool" where
  "number_prefix_re noun num s =
     (has_prefix (to_lower s) (to_lower noun) \<and>
      (let r = drop (length noun) s; b = takeWhile re_blank r; t = dropWhile re_blank r;
           z = length (takeWhile (\<lambda>c. c = CHR ''0'') t)
       in b \<noteq> [] \<and>
          list_ex (\<lambda>k. case cut_prefix (drop k t) num of
               None \<Rightarrow> False
             | Some rest \<Rightarrow> word_start (rev num) \<noteq> word_start rest) [0..<Suc z]))"

definition chapter_folder_name :: "string \<Rightarrow> string option \<Rightarrow> f64 option \<Rightarrow> string \<Rightarrow> string" where
  "chapter_folder_name content_type title number fallback_id =
     (let noun = (if content_type = ''anime'' then ''Episode'' else ''Chapter'');
          title_text = (case title of None \<Rightarrow> [] | Some t \<Rightarrow> t);
          has_title = (title \<noteq> None \<and> sanitize_filename title_text \<noteq> [])
      in if has_title \<and> number \<noteq> None \<and>
            number_prefix_re noun (format_chapter_number (the number)) (trim_space title_text)
         then sanitize_filename title_text
         else (case (has_title, number) of
             (True, Some n) \<Rightarrow> sanitize_filename (noun @ '' '' @ format_chapter_number n @ '' - '' @ title_text)
           | (True, None) \<Rightarrow> sanitize_filename title_text
           | (False, Some n) \<Rightarrow> sanitize_filename (noun @ '' '' @ format_chapter_number n)
           | (False, None) \<Rightarrow> safe_segment fallback_id))"

definition ext_from_content_type :: "string \<Rightarrow> string" where
  "ext_from_content_type ct =
     (if contains ct ''png'' then ''.png''
      else if contains ct ''webp'' then ''.webp''
      else if contains ct ''gif'' then ''.gif''
      else ''.jpg'')"

section \<open>Names are proper\<close>

text \<open>What the file systems the program runs on accept: no separator, reserved or control byte.\<close>

definition portable_name :: "string \<Rightarrow> bool" where
  "portable_name n \<longleftrightarrow> n \<noteq> [] \<and> (\<forall>c \<in> set n. \<not> illegal_char c) \<and> hd n \<noteq> CHR '' '' \<and> hd n \<noteq> CHR ''.''"

lemma illegal_slash: "illegal_char (CHR ''/'')"
  by code_simp

lemma portable_name_ok:
  assumes "portable_name n"
  shows "name_ok n"
proof -
  have "hd n \<noteq> CHR ''.''" "n \<noteq> []" using assms by (simp_all add: portable_name_def)
  then have "n \<noteq> ''.''" "n \<noteq> ''..''" by auto
  moreover have "CHR ''/'' \<notin> set n" using assms illegal_slash unfolding portable_name_def by blast
  ultimately show ?thesis using \<open>n \<noteq> []\<close> by (simp add: name_ok_def)
qed

lemma set_trim_by: "set (trim_by P s) \<subseteq> set s"
  by (auto simp: trim_by_def dest!: set_dropWhileD)

lemma sanitize_filename_portable:
  assumes "sanitize_filename s \<noteq> []"
  shows "portable_name (sanitize_filename s)"
proof -
  let ?f = "\<lambda>c. if illegal_char c then CHR ''_'' else c"
  define u where "u = trim_by space_or_dot (map ?f (trim_space s))"
  have u: "sanitize_filename s = take 150 u" "u \<noteq> []"
    using assms by (auto simp: sanitize_filename_def u_def Let_def split: if_splits)
  have us: "\<not> illegal_char (CHR ''_'')" by (simp add: illegal_char_def ch_def)
  have "set u \<subseteq> set (map ?f (trim_space s))" unfolding u_def by (rule set_trim_by)
  then have "\<not> illegal_char c" if "c \<in> set u" for c using that us by (auto split: if_splits)
  moreover have "\<not> space_or_dot (hd u)"
    using u(2) trim_by_hd unfolding u_def by (metis list.exhaust_sel)
  moreover have "hd (take 150 u) = hd u" using u(2) by (cases u) auto
  ultimately show ?thesis
    using u by (auto simp: portable_name_def space_or_dot_def dest: in_set_takeD)
qed

lemma hex_sha1_name_ok: "name_ok (hex_encode (sha1 raw))"
proof -
  have "length (hex_encode (sha1 raw)) = 40" by simp
  then have "hex_encode (sha1 raw) \<noteq> []" "hex_encode (sha1 raw) \<noteq> ''.''" "hex_encode (sha1 raw) \<noteq> ''..''"
    by (metis length_greater_0_conv zero_less_numeral, auto simp del: length_hex_encode)
  moreover have "CHR ''/'' \<notin> set (hex_encode (sha1 raw))"
    using hex_encode_alnum [of "CHR ''/''" "sha1 raw"]
    by (auto simp: is_alnum_def is_digit_def is_upper_def is_lower_def ch_def)
  ultimately show ?thesis by (simp add: name_ok_def)
qed

text \<open>The only names the fallback lets through that are not proper are the dot and the double dot.\<close>

definition dot_id :: "string \<Rightarrow> bool" where
  "dot_id raw \<longleftrightarrow> (let s = trim_space (case query_unescape raw of Some u \<Rightarrow> u | None \<Rightarrow> raw)
     in s = ''.'' \<or> s = ''..'')"

lemma safe_segment_name_ok: "\<not> dot_id raw \<Longrightarrow> name_ok (safe_segment raw)"
proof -
  assume nd: "\<not> dot_id raw"
  let ?s = "trim_space (case query_unescape raw of Some u \<Rightarrow> u | None \<Rightarrow> raw)"
  show ?thesis
  proof (cases "?s \<noteq> [] \<and> length ?s \<le> 120 \<and> safe_segment_re ?s")
    case True
    have "CHR ''/'' \<notin> set ?s"
      using True by (auto simp: safe_segment_re_def list_all_iff segment_char_def is_alnum_def is_digit_def
          is_upper_def is_lower_def ch_def)
    then show ?thesis using True nd by (simp add: safe_segment_def name_ok_def dot_id_def Let_def)
  next
    case False
    then have "safe_segment raw = hex_encode (sha1 raw)"
      by (simp only: safe_segment_def Let_def if_not_P [OF False] if_False)
    then show ?thesis using hex_sha1_name_ok by simp
  qed
qed

lemma folder_segment_name_ok: "sanitize_filename primary \<noteq> [] \<or> \<not> dot_id fallback \<Longrightarrow>
    name_ok (folder_segment primary fallback)"
  using portable_name_ok [OF sanitize_filename_portable] safe_segment_name_ok
  by (auto simp: folder_segment_def Let_def)

lemma sanitize_noun:
  assumes "noun = ''Episode'' \<or> noun = ''Chapter''"
  shows "sanitize_filename (noun @ '' '' @ t) \<noteq> []"
proof -
  let ?f = "\<lambda>c. if illegal_char c then CHR ''_'' else c"
  let ?s = "noun @ '' '' @ t"
  let ?good = "\<lambda>c. \<not> is_space c \<and> \<not> illegal_char c \<and> \<not> space_or_dot c \<and> ch c \<noteq> 92"
  have "?good (CHR ''E'')" "?good (CHR ''C'')" by code_simp+
  then obtain c cs where n: "noun = c # cs" "\<not> is_space c" "\<not> illegal_char c" "\<not> space_or_dot c" "ch c \<noteq> 92"
    using assms by blast
  have "\<not> looks_like_structured_data ?s"
    using n by (simp add: looks_like_structured_data_def)
  moreover have "trim_by space_or_dot (map ?f (trim_space ?s)) \<noteq> []"
  proof -
    have "c \<in> set (trim_space ?s)"
    proof -
      have 1: "dropWhile is_space ?s = c # cs @ '' '' @ t" using n by simp
      have 2: "c \<in> set (rev (dropWhile is_space (rev (c # v))))" for v
        using n(2) by (induction v rule: rev_induct) auto
      show ?thesis unfolding trim_space_def trim_by_def 1 by (rule 2)
    qed
    then have "c \<in> set (map ?f (trim_space ?s))" using n(3) by force
    moreover have "c \<in> set u \<Longrightarrow> trim_by space_or_dot u \<noteq> []" for u
      using n(4) by (auto simp: trim_by_def dropWhile_eq_Nil_conv dest: set_dropWhileD)
        (metis n(4) set_dropWhileD takeWhile_dropWhile_id Un_iff set_append set_takeWhileD)
    ultimately show ?thesis by blast
  qed
  ultimately show ?thesis by (auto simp: sanitize_filename_def Let_def)
qed

lemma chapter_folder_name_ok:
  assumes "(title \<noteq> None \<and> sanitize_filename (the title) \<noteq> []) \<or> number \<noteq> None \<or> \<not> dot_id fallback_id"
  shows "name_ok (chapter_folder_name ct title number fallback_id)"
proof -
  have s: "sanitize_filename x \<noteq> [] \<Longrightarrow> name_ok (sanitize_filename x)" for x
    using portable_name_ok [OF sanitize_filename_portable] .
  define noun where "noun = (if ct = ''anime'' then ''Episode'' else ''Chapter'')"
  have n: "name_ok (sanitize_filename (noun @ '' '' @ x))" for x
    unfolding noun_def by (rule s [OF sanitize_noun]) simp
  note unfolded = chapter_folder_name_def noun_def [symmetric] Let_def
  show ?thesis
  proof (cases "title \<noteq> None \<and> sanitize_filename (the title) \<noteq> []")
    case True
    then obtain t where "title = Some t" "sanitize_filename t \<noteq> []" by auto
    then show ?thesis
      unfolding unfolded using s [of t] n by (cases number) (simp_all del: append.simps)
  next
    case False
    then have h: "(title \<noteq> None \<and> sanitize_filename (case title of None \<Rightarrow> [] | Some t \<Rightarrow> t) \<noteq> []) = False"
      by (cases title) simp_all
    show ?thesis
      unfolding unfolded h using assms False n safe_segment_name_ok [of fallback_id]
      by (cases number) (auto simp del: append.simps)
  qed
qed

end
