(* ===== verification/ZipPath.thy ===== *)
theory ZipPath
  imports GoStrings
begin

text \<open>
  The virtual paths of \<open>internal/localsource/zippath.go\<close>: a page inside an archive is stored as
  \<open>zip://<archive>!<entry>\<close> and a DOCX book as \<open>docx://<path>\<close>, in the column that otherwise holds
  a file's path. The locale \<open>codec\<close> is the contract of such an encoding: decoding what was encoded
  gives it back, on the values the encoding is used for.
\<close>

section \<open>Round trips\<close>

locale codec =
  fixes enc :: "'a \<Rightarrow> 'b" and dec :: "'b \<Rightarrow> 'a option" and ok :: "'a \<Rightarrow> bool"
  assumes dec_enc: "ok x \<Longrightarrow> dec (enc x) = Some x"
begin

lemma enc_inj: "ok x \<Longrightarrow> ok y \<Longrightarrow> enc x = enc y \<longleftrightarrow> x = y"
  using dec_enc by (metis option.inject)

lemma enc_inj_on: "inj_on enc {x. ok x}"
  by (rule inj_onI) (simp add: enc_inj)

lemma distinct_map_enc: "list_all ok xs \<Longrightarrow> distinct (map enc xs) \<longleftrightarrow> distinct xs"
  unfolding distinct_map list_all_iff by (meson enc_inj inj_onI)

end

section \<open>The encodings\<close>

definition zip_prefix :: string where "zip_prefix = ''zip://''"

definition zip_page_path :: "string \<Rightarrow> string \<Rightarrow> string" where
  "zip_page_path archive_path entry_name = zip_prefix @ archive_path @ ''!'' @ entry_name"

definition parse_zip_page_path :: "string \<Rightarrow> (string \<times> string) option" where
  "parse_zip_page_path p =
     (case cut_prefix p zip_prefix of
        None \<Rightarrow> None
      | Some rest \<Rightarrow> cut_last rest (CHR ''!''))"

definition docx_prefix :: string where "docx_prefix = ''docx://''"

definition docx_book_path :: "string \<Rightarrow> string" where
  "docx_book_path p = docx_prefix @ p"

definition parse_docx_book_path :: "string \<Rightarrow> string option" where
  "parse_docx_book_path p = cut_prefix p docx_prefix"

interpretation zip_codec: codec "\<lambda>(a, e). zip_page_path a e" parse_zip_page_path "\<lambda>(a, e). CHR ''!'' \<notin> set e"
  by unfold_locales
    (auto simp: zip_page_path_def parse_zip_page_path_def zip_prefix_def cut_last_Some cut_prefix_def)

interpretation docx_codec: codec docx_book_path parse_docx_book_path "\<lambda>_. True"
  by unfold_locales (simp add: docx_book_path_def parse_docx_book_path_def)

lemma parse_zip_page_path_Some:
  "parse_zip_page_path p = Some (a, e) \<longleftrightarrow> p = zip_page_path a e \<and> CHR ''!'' \<notin> set e"
  by (auto simp: parse_zip_page_path_def zip_page_path_def cut_prefix_Some cut_last_Some split: option.splits)

lemma zip_not_docx: "parse_docx_book_path (zip_page_path a e) = None"
  by (simp add: parse_docx_book_path_def zip_page_path_def zip_prefix_def docx_prefix_def cut_prefix_def)

lemma docx_not_zip: "parse_zip_page_path (docx_book_path b) = None"
  by (simp add: parse_zip_page_path_def docx_book_path_def zip_prefix_def docx_prefix_def cut_prefix_def)

lemma plain_not_zip: "has_prefix p ''/'' \<Longrightarrow> parse_zip_page_path p = None"
  by (cases p) (auto simp: parse_zip_page_path_def zip_prefix_def cut_prefix_def)

text \<open>
  A page path is read back as it was written: parsing \<open>zip://archive!entry\<close> gives the archive
  and the entry whatever bytes the archive's path has (exclamation marks included), as long as the
  entry name has none, and no path of a DOCX book or absolute file path is taken for one.
\<close>

theorem zip_page_path_roundtrip:
  assumes "CHR ''!'' \<notin> set e"
  shows "parse_zip_page_path (zip_page_path a e) = Some (a, e) \<and>
         parse_zip_page_path (docx_book_path b) = None \<and>
         parse_zip_page_path (CHR ''/'' # b) = None"
  using zip_codec.dec_enc [of "(a, e)"] assms plain_not_zip [of "CHR ''/'' # b"] docx_not_zip
  by simp

theorem zip_page_path_roundtrip_witness:
  "parse_zip_page_path (zip_page_path ''/m/Wow!.cbz'' ''001.jpg'') = Some (''/m/Wow!.cbz'', ''001.jpg'')"
  using zip_page_path_roundtrip [of "''001.jpg''" "''/m/Wow!.cbz''" "[]"] by simp

text \<open>
  An entry name with an exclamation mark is not read back: the name is cut at its last mark and
  the rest goes to the archive's path, so the page of an archive with such an entry is looked for
  in a file that does not exist.
\<close>

theorem zip_entry_with_mark_misread:
  assumes "CHR ''!'' \<in> set e"
  shows "parse_zip_page_path (zip_page_path a e) \<noteq> Some (a, e) \<and>
         (\<exists>x y. parse_zip_page_path (zip_page_path a e) = Some (a @ ''!'' @ x, y) \<and> e = x @ ''!'' @ y)"
proof -
  obtain x y where e: "cut_last e (CHR ''!'') = Some (x, y)"
    using assms cut_last_None by (cases "cut_last e (CHR ''!'')") fastforce+
  then have xy: "e = x @ CHR ''!'' # y" "CHR ''!'' \<notin> set y" by (simp_all add: cut_last_Some)
  then have "cut_last (a @ CHR ''!'' # e) (CHR ''!'') = Some (a @ CHR ''!'' # x, y)"
    by (simp add: cut_last_Some)
  then have "parse_zip_page_path (zip_page_path a e) = Some (a @ CHR ''!'' # x, y)"
    by (simp add: parse_zip_page_path_def zip_page_path_def cut_prefix_def zip_prefix_def)
  with xy show ?thesis by auto
qed

theorem zip_entry_with_mark_misread_witness:
  "parse_zip_page_path (zip_page_path ''/a.cbz'' ''p!1.jpg'') \<noteq> Some (''/a.cbz'', ''p!1.jpg'')"
  using zip_entry_with_mark_misread [of "''p!1.jpg''" "''/a.cbz''"] by simp

end
