(* ===== verification/Q_Downloads.thy ===== *)
theory Q_Downloads
  imports World
begin

text \<open>
  The statements on the download queue (\<open>internal/db/queries/downloads.sql\<close>). \<open>ORDER BY position\<close>
  puts rows without a position first and leaves rows of equal position in row-id order.
\<close>

definition position_key :: "download \<Rightarrow> int \<times> int" where
  "position_key r = (case d_position r of None \<Rightarrow> (0, 0) | Some p \<Rightarrow> (1, p))"

definition position_le :: "download \<Rightarrow> download \<Rightarrow> bool" where
  "position_le a b = (case d_position a of
      None \<Rightarrow> True
    | Some p \<Rightarrow> (case d_position b of None \<Rightarrow> False | Some q \<Rightarrow> p \<le> q))"

text \<open>A stable insertion sort by an order on rows.\<close>

fun insert_row :: "('r \<Rightarrow> 'r \<Rightarrow> bool) \<Rightarrow> 'r \<Rightarrow> 'r list \<Rightarrow> 'r list" where
  "insert_row le x [] = [x]"
| "insert_row le x (y # ys) = (if le x y then x # y # ys else y # insert_row le x ys)"

definition order_by :: "('r \<Rightarrow> 'r \<Rightarrow> bool) \<Rightarrow> 'r list \<Rightarrow> 'r list" where
  "order_by le xs = foldr (insert_row le) xs []"

definition queued :: "db \<Rightarrow> download list" where
  "queued d = filter (\<lambda>r. d_status r = Queued) (downloads d)"

definition max_queued_position :: "db \<Rightarrow> int option" where
  "max_queued_position d = (case List.map_filter d_position (queued d) of
      [] \<Rightarrow> None | p # ps \<Rightarrow> Some (fold max ps p))"

definition q_enqueue_download :: "int \<Rightarrow> download stmt" where
  "q_enqueue_download chapter_id = with_fk (\<lambda>d. chapter_id \<in> set (map c_id (chapters d))) (\<lambda>now d.
     let row = \<lparr>d_id = next_id (map d_id (downloads d)), d_chapter = chapter_id, d_status = Queued,
                d_progress = 0, d_bytes = None, d_bytes_per_sec = None,
                d_position = Some ((case max_queued_position d of None \<Rightarrow> 0 | Some p \<Rightarrow> p) + 1),
                d_error = None, d_created_at = now, d_completed_at = None\<rparr>
     in (Inr row, d\<lparr>downloads := downloads d @ [row]\<rparr>))"

definition q_list_queued_downloads :: "download list stmt" where
  "q_list_queued_downloads = select_all (\<lambda>d. order_by position_le (queued d))"

definition update_download :: "(download \<Rightarrow> bool) \<Rightarrow> (download \<Rightarrow> download) \<Rightarrow> db \<Rightarrow> db" where
  "update_download P f d = d\<lparr>downloads := update_where P f (downloads d)\<rparr>"

definition q_update_download_progress :: "dl_status \<Rightarrow> f64 \<Rightarrow> int \<Rightarrow> unit stmt" where
  "q_update_download_progress status progress i =
     exec (\<lambda>now. update_download (\<lambda>r. d_id r = i) (\<lambda>r. r\<lparr>d_status := status, d_progress := progress\<rparr>))"

definition q_complete_download :: "int \<Rightarrow> unit stmt" where
  "q_complete_download i =
     exec (\<lambda>now. update_download (\<lambda>r. d_id r = i)
       (\<lambda>r. r\<lparr>d_status := Done, d_progress := 1, d_completed_at := Some now\<rparr>))"

definition q_fail_download :: "string option \<Rightarrow> int \<Rightarrow> unit stmt" where
  "q_fail_download err i =
     exec (\<lambda>now. update_download (\<lambda>r. d_id r = i) (\<lambda>r. r\<lparr>d_status := Failed, d_error := err\<rparr>))"

definition q_delete_download :: "int \<Rightarrow> unit stmt" where
  "q_delete_download i = exec (\<lambda>now d. d\<lparr>downloads := delete_where (\<lambda>r. d_id r = i) (downloads d)\<rparr>)"

definition q_requeue_orphaned_downloads :: "unit stmt" where
  "q_requeue_orphaned_downloads =
     exec (\<lambda>now. update_download (\<lambda>r. d_status r = Downloading) (\<lambda>r. r\<lparr>d_status := Queued, d_progress := 0\<rparr>))"

definition q_update_download_stats ::
    "dl_status \<Rightarrow> f64 \<Rightarrow> int option \<Rightarrow> f64 option \<Rightarrow> int \<Rightarrow> unit stmt" where
  "q_update_download_stats status progress bytes bps i =
     exec (\<lambda>now. update_download (\<lambda>r. d_id r = i)
       (\<lambda>r. r\<lparr>d_status := status, d_progress := progress, d_bytes := bytes, d_bytes_per_sec := bps\<rparr>))"

definition latest_download :: "int \<Rightarrow> download list \<Rightarrow> download option" where
  "latest_download chapter_id rows =
     (case order_by (\<lambda>a b. d_created_at b \<le> d_created_at a) (filter (\<lambda>r. d_chapter r = chapter_id) rows) of
        [] \<Rightarrow> None | r # _ \<Rightarrow> Some r)"

definition q_get_latest_download_for_chapter :: "int \<Rightarrow> download stmt" where
  "q_get_latest_download_for_chapter chapter_id = select_one (\<lambda>d. latest_download chapter_id (downloads d))"

definition q_retry_download :: "int \<Rightarrow> download stmt" where
  "q_retry_download i now d =
     (case update_returning (\<lambda>r. d_id r = i \<and> d_status r = Failed)
             (\<lambda>r. r\<lparr>d_status := Queued, d_progress := 0, d_error := None, d_bytes := None, d_bytes_per_sec := None\<rparr>)
             (downloads d) of (r, rows) \<Rightarrow> (r, d\<lparr>downloads := rows\<rparr>))"

definition q_delete_download_by_chapter :: "int \<Rightarrow> unit stmt" where
  "q_delete_download_by_chapter chapter_id =
     exec (\<lambda>now d. d\<lparr>downloads := delete_where (\<lambda>r. d_chapter r = chapter_id) (downloads d)\<rparr>)"

definition q_delete_downloads_by_chapters :: "int list \<Rightarrow> unit stmt" where
  "q_delete_downloads_by_chapters ids =
     exec (\<lambda>now d. d\<lparr>downloads := delete_where (\<lambda>r. d_chapter r \<in> set ids) (downloads d)\<rparr>)"

definition q_get_queued_download_by_chapter :: "int \<Rightarrow> download stmt" where
  "q_get_queued_download_by_chapter chapter_id =
     select_one (\<lambda>d. find (\<lambda>r. d_chapter r = chapter_id \<and> d_status r = Queued) (downloads d))"

definition q_set_download_position :: "int option \<Rightarrow> int \<Rightarrow> unit stmt" where
  "q_set_download_position pos i =
     exec (\<lambda>now. update_download (\<lambda>r. d_id r = i) (\<lambda>r. r\<lparr>d_position := pos\<rparr>))"

definition q_clear_downloads :: "unit stmt" where
  "q_clear_downloads =
     exec (\<lambda>now d. d\<lparr>downloads := delete_where (\<lambda>r. d_status r = Queued \<or> d_status r = Failed) (downloads d)\<rparr>)"

definition q_clear_downloads_by_status :: "dl_status list \<Rightarrow> unit stmt" where
  "q_clear_downloads_by_status statuses =
     exec (\<lambda>now d. d\<lparr>downloads := delete_where (\<lambda>r. d_status r \<in> set statuses) (downloads d)\<rparr>)"

section \<open>Facts\<close>

lemma set_insert_row [simp]: "set (insert_row le x ys) = insert x (set ys)"
  by (induction ys) auto

lemma set_order_by [simp]: "set (order_by le xs) = set xs"
  by (induction xs) (auto simp: order_by_def)

lemma length_insert_row [simp]: "length (insert_row le x ys) = Suc (length ys)"
  by (induction ys) auto

lemma length_order_by [simp]: "length (order_by le xs) = length xs"
  by (induction xs) (auto simp: order_by_def)

lemma distinct_map_insert_row:
  "distinct (map k (insert_row le x ys)) \<longleftrightarrow> k x \<notin> k ` set ys \<and> distinct (map k ys)"
  by (induction ys) auto

lemma distinct_map_order_by [simp]: "distinct (map k (order_by le xs)) \<longleftrightarrow> distinct (map k xs)"
proof (induction xs)
  case (Cons x xs)
  have "set (foldr (insert_row le) xs []) = set xs"
    using set_order_by [of le xs] by (simp only: order_by_def)
  with Cons show ?case by (simp add: order_by_def distinct_map_insert_row)
qed (simp add: order_by_def)

lemma sorted_wrt_insert_row:
  assumes "transp le" "\<And>a b. le a b \<or> le b a" "sorted_wrt le ys"
  shows "sorted_wrt le (insert_row le x ys)"
  using assms(3)
proof (induction ys)
  case (Cons y ys)
  show ?case
  proof (cases "le x y")
    case True
    with Cons.prems show ?thesis using assms(1) by (auto elim: transpE)
  next
    case False
    then have "le y x" using assms(2) by blast
    with Cons False show ?thesis by auto
  qed
qed simp

lemma sorted_wrt_order_by:
  assumes "transp le" "\<And>a b. le a b \<or> le b a"
  shows "sorted_wrt le (order_by le xs)"
  by (induction xs) (auto simp: order_by_def sorted_wrt_insert_row [OF assms])

lemma position_le_total: "position_le a b \<or> position_le b a"
  by (auto simp: position_le_def split: option.splits)

lemma position_le_trans: "transp position_le"
  by (rule transpI) (auto simp: position_le_def split: option.splits)

lemma insert_row_front: "(\<And>y. y \<in> set ys \<Longrightarrow> le x y) \<Longrightarrow> insert_row le x ys = x # ys"
  by (cases ys) auto

lemma order_by_sorted: "sorted_wrt le xs \<Longrightarrow> order_by le xs = xs"
  by (induction xs) (auto simp: order_by_def insert_row_front)

end
