(* ===== verification/Q_Chapters.thy ===== *)
theory Q_Chapters
  imports World
begin

text \<open>
  The statements on chapters, their downloaded files and the reading progress
  (\<open>internal/db/queries/chapters.sql\<close> and \<open>reading_progress.sql\<close>).
\<close>

section \<open>Chapters\<close>

record create_chapter_params =
  cp_media :: int
  cp_external_id :: string
  cp_title :: "string option"
  cp_number :: "f64 option"
  cp_uploaded_at :: "int option"
  cp_source_order :: "int option"
  cp_scanlator :: string

definition chapter_updated :: "create_chapter_params \<Rightarrow> chapter_row \<Rightarrow> chapter_row" where
  "chapter_updated p c = c\<lparr>c_title := cp_title p, c_number := cp_number p, c_uploaded_at := cp_uploaded_at p,
     c_source_order := cp_source_order p, c_scanlator := cp_scanlator p\<rparr>"

definition chapter_created :: "create_chapter_params \<Rightarrow> int \<Rightarrow> int \<Rightarrow> chapter_row" where
  "chapter_created p i now = \<lparr>c_id = i, c_media = cp_media p, c_external_id = cp_external_id p,
     c_title = cp_title p, c_number = cp_number p, c_uploaded_at = cp_uploaded_at p,
     c_source_order = cp_source_order p, c_first_seen_at = Some now, c_scanlator = cp_scanlator p\<rparr>"

definition same_chapter :: "create_chapter_params \<Rightarrow> chapter_row \<Rightarrow> bool" where
  "same_chapter p c \<longleftrightarrow> c_media c = cp_media p \<and> c_external_id c = cp_external_id p"

definition q_create_chapter :: "create_chapter_params \<Rightarrow> chapter_row stmt" where
  "q_create_chapter p = with_fk (\<lambda>d. cp_media p \<in> set (map m_id (media d))) (\<lambda>now d.
     let (row, rows) = upsert (same_chapter p) (chapter_updated p)
            (chapter_created p (next_id (map c_id (chapters d))) now) (chapters d)
     in (Inr row, d\<lparr>chapters := rows\<rparr>))"

definition q_get_chapter :: "int \<Rightarrow> chapter_row stmt" where
  "q_get_chapter i = select_one (\<lambda>d. find (\<lambda>c. c_id c = i) (chapters d))"

definition q_get_chapter_by_media_and_external_id :: "int \<Rightarrow> string \<Rightarrow> chapter_row stmt" where
  "q_get_chapter_by_media_and_external_id media_id ext =
     select_one (\<lambda>d. find (\<lambda>c. c_media c = media_id \<and> c_external_id c = ext) (chapters d))"

text \<open>\<open>ORDER BY source_order, number\<close>, NULL first.\<close>

definition nulls_first :: "'a::linorder option \<Rightarrow> 'a option \<Rightarrow> bool" where
  "nulls_first a b = (case a of None \<Rightarrow> True | Some x \<Rightarrow> (case b of None \<Rightarrow> False | Some y \<Rightarrow> x \<le> y))"

definition chapter_le :: "chapter_row \<Rightarrow> chapter_row \<Rightarrow> bool" where
  "chapter_le a b = (if c_source_order a = c_source_order b then nulls_first (c_number a) (c_number b)
     else nulls_first (c_source_order a) (c_source_order b))"

fun insert_chapter :: "chapter_row \<Rightarrow> chapter_row list \<Rightarrow> chapter_row list" where
  "insert_chapter x [] = [x]"
| "insert_chapter x (y # ys) = (if chapter_le x y then x # y # ys else y # insert_chapter x ys)"

definition q_list_chapters_by_media :: "int \<Rightarrow> chapter_row list stmt" where
  "q_list_chapters_by_media media_id =
     select_all (\<lambda>d. foldr insert_chapter (filter (\<lambda>c. c_media c = media_id) (chapters d)) [])"

definition q_list_chapter_external_ids_by_media :: "int \<Rightarrow> string list stmt" where
  "q_list_chapter_external_ids_by_media media_id =
     select_all (\<lambda>d. map c_external_id (filter (\<lambda>c. c_media c = media_id) (chapters d)))"

definition q_list_chapters_missing_number :: "(int \<times> string option) list stmt" where
  "q_list_chapters_missing_number =
     select_all (\<lambda>d. map (\<lambda>c. (c_id c, c_title c))
       (filter (\<lambda>c. case c_number c of None \<Rightarrow> True | Some n \<Rightarrow> n \<le> 0) (chapters d)))"

definition q_set_chapter_number :: "f64 option \<Rightarrow> int \<Rightarrow> unit stmt" where
  "q_set_chapter_number n i =
     exec (\<lambda>now d. d\<lparr>chapters := update_where (\<lambda>c. c_id c = i) (\<lambda>c. c\<lparr>c_number := n\<rparr>) (chapters d)\<rparr>)"

text \<open>The columns of the join that \<open>GetChapterDownloadContext\<close> selects.\<close>

record download_context =
  dc_chapter_id :: int
  dc_source_chapter_id :: string
  dc_chapter_title :: "string option"
  dc_chapter_number :: "f64 option"
  dc_source_entry_id :: string
  dc_library_title :: string
  dc_content_type :: string
  dc_package_name :: string

definition download_context_of :: "db \<Rightarrow> int \<Rightarrow> download_context option" where
  "download_context_of d i =
     (case find (\<lambda>c. c_id c = i) (chapters d) of None \<Rightarrow> None | Some c \<Rightarrow>
      (case find (\<lambda>m. m_id m = c_media c) (media d) of None \<Rightarrow> None | Some m \<Rightarrow>
       (case find (\<lambda>x. Some (x_id x) = m_extension_id m) (extensions d) of None \<Rightarrow> None | Some x \<Rightarrow>
        Some \<lparr>dc_chapter_id = c_id c, dc_source_chapter_id = c_external_id c, dc_chapter_title = c_title c,
              dc_chapter_number = c_number c, dc_source_entry_id = m_external_id m,
              dc_library_title = m_title m, dc_content_type = m_content_type m,
              dc_package_name = x_package x\<rparr>)))"

definition q_get_chapter_download_context :: "int \<Rightarrow> download_context stmt" where
  "q_get_chapter_download_context i = select_one (\<lambda>d. download_context_of d i)"

section \<open>Downloaded files\<close>

definition has_chapter :: "int \<Rightarrow> db \<Rightarrow> bool" where
  "has_chapter i d \<longleftrightarrow> i \<in> set (map c_id (chapters d))"

definition nonempty_path :: "string option \<Rightarrow> bool" where
  "nonempty_path p \<longleftrightarrow> p \<noteq> None \<and> p \<noteq> Some []"

definition q_upsert_manga_page :: "int \<Rightarrow> int \<Rightarrow> string option \<Rightarrow> unit stmt" where
  "q_upsert_manga_page i page path = with_fk (has_chapter i) (\<lambda>now d.
     (Inr (), d\<lparr>manga_pages := snd (upsert (\<lambda>p. p_chapter p = i \<and> p_number p = page)
        (\<lambda>p. p\<lparr>p_local_path := path\<rparr>) \<lparr>p_chapter = i, p_number = page, p_local_path = path\<rparr>
        (manga_pages d))\<rparr>))"

definition q_list_manga_pages :: "int \<Rightarrow> manga_page list stmt" where
  "q_list_manga_pages i = select_all (\<lambda>d. sort_key p_number (filter (\<lambda>p. p_chapter p = i) (manga_pages d)))"

definition q_set_manga_page_path :: "string option \<Rightarrow> int \<Rightarrow> int \<Rightarrow> unit stmt" where
  "q_set_manga_page_path path i page =
     exec (\<lambda>now d. d\<lparr>manga_pages := update_where (\<lambda>p. p_chapter p = i \<and> p_number p = page)
       (\<lambda>p. p\<lparr>p_local_path := path\<rparr>) (manga_pages d)\<rparr>)"

definition q_delete_manga_pages :: "int \<Rightarrow> unit stmt" where
  "q_delete_manga_pages i = exec (\<lambda>now d. d\<lparr>manga_pages := delete_where (\<lambda>p. p_chapter p = i) (manga_pages d)\<rparr>)"

definition q_delete_manga_page :: "int \<Rightarrow> int \<Rightarrow> unit stmt" where
  "q_delete_manga_page i page =
     exec (\<lambda>now d. d\<lparr>manga_pages := delete_where (\<lambda>p. p_chapter p = i \<and> p_number p = page) (manga_pages d)\<rparr>)"

definition q_list_all_manga_page_paths :: "manga_page list stmt" where
  "q_list_all_manga_page_paths = select_all (\<lambda>d. filter (\<lambda>p. nonempty_path (p_local_path p)) (manga_pages d))"

definition q_upsert_novel_chapter_content :: "int \<Rightarrow> string option \<Rightarrow> unit stmt" where
  "q_upsert_novel_chapter_content i path = with_fk (has_chapter i) (\<lambda>now d.
     (Inr (), d\<lparr>novel_contents := snd (upsert (\<lambda>n. n_chapter n = i) (\<lambda>n. n\<lparr>n_local_path := path\<rparr>)
        \<lparr>n_chapter = i, n_local_path = path\<rparr> (novel_contents d))\<rparr>))"

definition q_get_novel_chapter_content :: "int \<Rightarrow> novel_content stmt" where
  "q_get_novel_chapter_content i = select_one (\<lambda>d. find (\<lambda>n. n_chapter n = i) (novel_contents d))"

definition q_set_novel_chapter_content_path :: "string option \<Rightarrow> int \<Rightarrow> unit stmt" where
  "q_set_novel_chapter_content_path path i =
     exec (\<lambda>now d. d\<lparr>novel_contents := update_where (\<lambda>n. n_chapter n = i) (\<lambda>n. n\<lparr>n_local_path := path\<rparr>) (novel_contents d)\<rparr>)"

definition q_delete_novel_chapter_content :: "int \<Rightarrow> unit stmt" where
  "q_delete_novel_chapter_content i =
     exec (\<lambda>now d. d\<lparr>novel_contents := delete_where (\<lambda>n. n_chapter n = i) (novel_contents d)\<rparr>)"

definition q_list_all_novel_content_paths :: "novel_content list stmt" where
  "q_list_all_novel_content_paths = select_all (\<lambda>d. filter (\<lambda>n. nonempty_path (n_local_path n)) (novel_contents d))"

definition q_upsert_anime_episode_stream :: "int \<Rightarrow> string option \<Rightarrow> string option \<Rightarrow> unit stmt" where
  "q_upsert_anime_episode_stream i url path = with_fk (has_chapter i) (\<lambda>now d.
     (Inr (), d\<lparr>streams := snd (upsert (\<lambda>s. as_chapter s = i) (\<lambda>s. s\<lparr>as_stream_url := url, as_local_path := path\<rparr>)
        \<lparr>as_chapter = i, as_stream_url = url, as_local_path = path\<rparr> (streams d))\<rparr>))"

definition q_get_anime_episode_stream :: "int \<Rightarrow> anime_stream stmt" where
  "q_get_anime_episode_stream i = select_one (\<lambda>d. find (\<lambda>s. as_chapter s = i) (streams d))"

definition q_set_anime_episode_stream_path :: "string option \<Rightarrow> int \<Rightarrow> unit stmt" where
  "q_set_anime_episode_stream_path path i =
     exec (\<lambda>now d. d\<lparr>streams := update_where (\<lambda>s. as_chapter s = i) (\<lambda>s. s\<lparr>as_local_path := path\<rparr>) (streams d)\<rparr>)"

definition q_delete_anime_episode_stream :: "int \<Rightarrow> unit stmt" where
  "q_delete_anime_episode_stream i =
     exec (\<lambda>now d. d\<lparr>streams := delete_where (\<lambda>s. as_chapter s = i) (streams d)\<rparr>)"

definition q_list_all_episode_stream_paths :: "anime_stream list stmt" where
  "q_list_all_episode_stream_paths = select_all (\<lambda>d. filter (\<lambda>s. nonempty_path (as_local_path s)) (streams d))"

section \<open>Reading progress\<close>

record progress_params =
  pp_media :: int
  pp_chapter :: int
  pp_progress :: f64
  pp_completed :: bool
  pp_position_seconds :: "f64 option"
  pp_duration_seconds :: "f64 option"

definition progress_updated :: "progress_params \<Rightarrow> int \<Rightarrow> reading_progress \<Rightarrow> reading_progress" where
  "progress_updated p now r = r\<lparr>rp_progress := pp_progress p, rp_completed := pp_completed p,
     rp_position_seconds := pp_position_seconds p, rp_duration_seconds := pp_duration_seconds p,
     rp_updated_at := now\<rparr>"

definition progress_created :: "progress_params \<Rightarrow> int \<Rightarrow> int \<Rightarrow> reading_progress" where
  "progress_created p i now = \<lparr>rp_id = i, rp_media = pp_media p, rp_chapter = pp_chapter p,
     rp_progress = pp_progress p, rp_completed = pp_completed p,
     rp_position_seconds = pp_position_seconds p, rp_duration_seconds = pp_duration_seconds p,
     rp_updated_at = now\<rparr>"

definition q_upsert_reading_progress :: "progress_params \<Rightarrow> reading_progress stmt" where
  "q_upsert_reading_progress p =
     with_fk (\<lambda>d. pp_media p \<in> set (map m_id (media d)) \<and> has_chapter (pp_chapter p) d) (\<lambda>now d.
     let (row, rows) = upsert (\<lambda>r. rp_media r = pp_media p \<and> rp_chapter r = pp_chapter p)
            (progress_updated p now) (progress_created p (next_id (map rp_id (progresses d))) now) (progresses d)
     in (Inr row, d\<lparr>progresses := rows\<rparr>))"

definition q_list_reading_progress_by_media :: "int \<Rightarrow> reading_progress list stmt" where
  "q_list_reading_progress_by_media media_id =
     select_all (\<lambda>d. sort_key (\<lambda>r. - rp_updated_at r) (filter (\<lambda>r. rp_media r = media_id) (progresses d)))"

text \<open>The join of completed progress rows with their chapters.\<close>

definition completed_chapters :: "db \<Rightarrow> int \<Rightarrow> chapter_row list" where
  "completed_chapters d media_id =
     [c. r \<leftarrow> progresses d, rp_media r = media_id \<and> rp_completed r, c \<leftarrow> chapters d, c_id c = rp_chapter r]"

definition q_max_read_chapter_number :: "int \<Rightarrow> f64 stmt" where
  "q_max_read_chapter_number media_id =
     select_all (\<lambda>d. case List.map_filter c_number (completed_chapters d media_id) of
        [] \<Rightarrow> 0 | n # ns \<Rightarrow> fold max ns n)"

definition q_list_completed_chapter_titles :: "int \<Rightarrow> (f64 option \<times> string option) list stmt" where
  "q_list_completed_chapter_titles media_id =
     select_all (\<lambda>d. map (\<lambda>c. (c_number c, c_title c)) (completed_chapters d media_id))"

text \<open>\<open>INSERT ... SELECT ... ON CONFLICT DO UPDATE ... WHERE completed = 0\<close>, one chapter after another.\<close>

definition mark_chapter_read :: "int \<Rightarrow> int \<Rightarrow> int \<Rightarrow> reading_progress list \<Rightarrow> reading_progress list" where
  "mark_chapter_read media_id now i rows =
     snd (upsert (\<lambda>r. rp_media r = media_id \<and> rp_chapter r = i)
       (\<lambda>r. if rp_completed r then r else r\<lparr>rp_completed := True, rp_progress := 1, rp_updated_at := now\<rparr>)
       \<lparr>rp_id = next_id (map rp_id rows), rp_media = media_id, rp_chapter = i, rp_progress = 1,
        rp_completed = True, rp_position_seconds = None, rp_duration_seconds = None, rp_updated_at = now\<rparr>
       rows)"

definition chapters_up_to :: "db \<Rightarrow> int \<Rightarrow> f64 option \<Rightarrow> int list" where
  "chapters_up_to d media_id up_to =
     map c_id (filter (\<lambda>c. c_media c = media_id \<and>
        (case (c_number c, up_to) of (Some n, Some u) \<Rightarrow> n > 0 \<and> n \<le> u | _ \<Rightarrow> False)) (chapters d))"

definition q_mark_chapters_read_up_to_number :: "int \<Rightarrow> f64 option \<Rightarrow> unit stmt" where
  "q_mark_chapters_read_up_to_number media_id up_to =
     exec (\<lambda>now d. d\<lparr>progresses := fold (mark_chapter_read media_id now) (chapters_up_to d media_id up_to) (progresses d)\<rparr>)"

end
