(* ===== verification/Downloads.thy ===== *)
theory Downloads
  imports Sandbox FileNames ZipPath Q_Downloads Q_Chapters
begin

text \<open>
  Downloading one chapter (\<open>internal/download/manager.go\<close>): where its files go, fetching pages,
  text or video through the sandbox, the rows that record the files, and the removal of a chapter's
  files and of what a failed or cancelled job left behind. The queue that runs the jobs is in
  \<open>DownloadQueue\<close>.
\<close>

section \<open>The manager's state\<close>

text \<open>
  \<open>dl_running\<close> is the map \<open>running\<close> from chapters to the cancel function of the job's context; a
  context is a number, and \<open>dl_cancelled\<close> holds those whose cancel function was called.
\<close>

record dl_world = fs_world +
  dl_media_dir :: string
  dl_downloads_dir :: string
  dl_image_format :: string
  dl_paused :: bool
  dl_woken :: bool
  dl_running :: "(int \<times> nat) list"
  dl_cancelled :: "nat list"
  dl_next_ctx :: nat
  dl_cwd :: string

definition normal_format :: "string \<Rightarrow> string" where
  "normal_format f = (if f \<noteq> ''cbz'' then ''loose'' else f)"

definition normal_dir :: "string \<Rightarrow> string \<Rightarrow> string" where
  "normal_dir media_dir dir = (if trim_space dir = [] then media_dir else dir)"

definition set_downloads_dir :: "string \<Rightarrow> 'z dl_world_scheme \<Rightarrow> 'z dl_world_scheme" where
  "set_downloads_dir dir w = w\<lparr>dl_downloads_dir := normal_dir (dl_media_dir w) dir\<rparr>"

definition set_image_format :: "string \<Rightarrow> 'z dl_world_scheme \<Rightarrow> 'z dl_world_scheme" where
  "set_image_format f w = w\<lparr>dl_image_format := normal_format f\<rparr>"

section \<open>Where a chapter's files go\<close>

definition build_chapter_dir :: "string \<Rightarrow> download_context \<Rightarrow> string" where
  "build_chapter_dir downloads_dir dctx = path_join
     [downloads_dir,
      content_type_dir (dc_content_type dctx),
      extension_folder_name (dc_package_name dctx),
      title_folder_name (dc_library_title dctx) (dc_source_entry_id dctx),
      chapter_folder_name (dc_content_type dctx) (dc_chapter_title dctx) (dc_chapter_number dctx)
        (dc_source_chapter_id dctx)]"

definition chapter_dir :: "download_context \<Rightarrow> ('z dl_world_scheme, string) act" where
  "chapter_dir dctx = gets (\<lambda>w. build_chapter_dir (dl_downloads_dir w) dctx)"

text \<open>
  Empty directories are removed upwards until the media or the downloads directory, the current
  directory or the root. The fuel is the number of elements of the path: each step after the first
  takes one away.
\<close>

fun remove_empty_dirs_loop :: "nat \<Rightarrow> string \<Rightarrow> ('z dl_world_scheme, unit) act" where
  "remove_empty_dirs_loop 0 dir = ret ()"
| "remove_empty_dirs_loop (Suc fuel) dir =
     seq (gets (\<lambda>w. (dl_media_dir w, dl_downloads_dir w))) (\<lambda>(media_dir, downloads_dir).
     let clean = path_clean dir in
     if clean = path_clean media_dir \<or> clean = path_clean downloads_dir \<or> clean = ''.'' \<or> clean = ''/''
     then ret ()
     else seq (attempt (fs_call (os_remove dir))) (\<lambda>r.
       case r of Inl _ \<Rightarrow> ret () | Inr _ \<Rightarrow> remove_empty_dirs_loop fuel (path_dir dir)))"

definition remove_empty_dirs :: "string \<Rightarrow> ('z dl_world_scheme, unit) act" where
  "remove_empty_dirs dir = remove_empty_dirs_loop (length (snd (location dir)) + 2) dir"

section \<open>Manga\<close>

definition step_progress :: "nat \<Rightarrow> nat \<Rightarrow> f64" where
  "step_progress i count = fl (of_nat (i + 1) / of_nat count)"

definition set_progress :: "int \<Rightarrow> f64 \<Rightarrow> ('z world_scheme, unit) act" where
  "set_progress job p = db_call (q_update_download_progress Downloading p job)"

definition page_label :: "string \<Rightarrow> nat \<Rightarrow> string" where
  "page_label what i = what @ nat_digits (i + 1)"

definition page_file_name :: "nat \<Rightarrow> image_data \<Rightarrow> string" where
  "page_file_name i img = pad3 (i + 1) @ ext_from_content_type (im_content_type img)"

fun manga_pages_loop :: "source \<Rightarrow> download_context \<Rightarrow> int \<Rightarrow> string \<Rightarrow> nat \<Rightarrow> nat \<Rightarrow> string list
    \<Rightarrow> ('z dl_world_scheme, unit) act" where
  "manga_pages_loop src dctx job dir count i [] = ret ()"
| "manga_pages_loop src dctx job dir count i (url # urls) =
     seq (wrap (page_label ''fetching page '' i) (ask (src_image src (dc_package_name dctx) url))) (\<lambda>img.
     let local_path = path_join [dir, page_file_name i img] in
     seq (wrap (page_label ''writing page '' i) (fs_call (os_write_file local_path (Bytes (im_data img))))) (\<lambda>_.
     seq (wrap (page_label ''recording page '' i)
            (db_call (q_upsert_manga_page (dc_chapter_id dctx) (int i + 1) (Some local_path)))) (\<lambda>_.
     seq (ignore (set_progress job (step_progress i count))) (\<lambda>_.
     manga_pages_loop src dctx job dir count (i + 1) urls))))"

fun cbz_entries_loop :: "source \<Rightarrow> download_context \<Rightarrow> int \<Rightarrow> string \<Rightarrow> nat \<Rightarrow> nat \<Rightarrow> string list
    \<Rightarrow> ('z dl_world_scheme, (string \<times> string) list) act" where
  "cbz_entries_loop src dctx job tmp count i [] = ret []"
| "cbz_entries_loop src dctx job tmp count i (url # urls) =
     seq (attempt (ask (src_image src (dc_package_name dctx) url))) (\<lambda>r.
     case r of
       Inl e \<Rightarrow> seq (ignore (fs_call (os_remove tmp))) (\<lambda>_. fail (ErrWrap (page_label ''fetching page '' i) e))
     | Inr img \<Rightarrow>
         seq (attempt (ext_call (Inr ()))) (\<lambda>r2.
         case r2 of
           Inl e \<Rightarrow> seq (ignore (fs_call (os_remove tmp))) (\<lambda>_. fail (ErrWrap (page_label ''packing page '' i) e))
         | Inr _ \<Rightarrow>
             seq (ignore (set_progress job (step_progress i count))) (\<lambda>_.
             seq (cbz_entries_loop src dctx job tmp count (i + 1) urls) (\<lambda>es.
             ret ((page_file_name i img, im_data img) # es)))))"

fun record_cbz_pages :: "int \<Rightarrow> string \<Rightarrow> nat \<Rightarrow> string list \<Rightarrow> ('z dl_world_scheme, unit) act" where
  "record_cbz_pages chap archive_path i [] = ret ()"
| "record_cbz_pages chap archive_path i (e # es) =
     seq (wrap (page_label ''recording page '' i)
            (db_call (q_upsert_manga_page chap (int i + 1) (Some (zip_page_path archive_path e))))) (\<lambda>_.
     record_cbz_pages chap archive_path (i + 1) es)"

text \<open>Closing the zip writer writes the archive; closing the file may fail after that.\<close>

definition close_archive :: "string \<Rightarrow> (string \<times> string) list \<Rightarrow> ('z dl_world_scheme, unit) act" where
  "close_archive tmp es =
     seq (attempt (seq (fs_call (os_write_file tmp (Archive es))) (\<lambda>_. ext_call (Inr ())))) (\<lambda>r.
     case r of
       Inl e \<Rightarrow> seq (ignore (fs_call (os_remove tmp))) (\<lambda>_. fail (ErrWrap ''closing archive'' e))
     | Inr _ \<Rightarrow> ret ())"

definition download_manga_cbz :: "source \<Rightarrow> int \<Rightarrow> download_context \<Rightarrow> string list \<Rightarrow> ('z dl_world_scheme, unit) act" where
  "download_manga_cbz src job dctx urls =
     seq (chapter_dir dctx) (\<lambda>dir.
     seq (wrap ''creating chapter parent dir'' (fs_call (os_mkdir_all (path_dir dir)))) (\<lambda>_.
     let archive_path = dir @ ''.cbz''; tmp_path = archive_path @ ''.part'' in
     seq (wrap ''creating archive'' (fs_call (os_write_file tmp_path (Bytes [])))) (\<lambda>_.
     seq (cbz_entries_loop src dctx job tmp_path (length urls) 0 urls) (\<lambda>es.
     seq (close_archive tmp_path es) (\<lambda>_.
     seq (wrap ''finalizing archive'' (fs_call (os_rename tmp_path archive_path))) (\<lambda>_.
     record_cbz_pages (dc_chapter_id dctx) archive_path 0 (map fst es)))))))"

definition download_manga :: "source \<Rightarrow> int \<Rightarrow> download_context \<Rightarrow> ('z dl_world_scheme, unit) act" where
  "download_manga src job dctx =
     seq (wrap ''fetching page list''
            (ask (src_pages src (dc_package_name dctx) (dc_source_entry_id dctx) (dc_source_chapter_id dctx)))) (\<lambda>urls.
     if urls = [] then fail (ErrMsg ''source returned no pages'')
     else seq (gets dl_image_format) (\<lambda>fmt.
       if fmt = ''cbz'' then download_manga_cbz src job dctx urls
       else seq (chapter_dir dctx) (\<lambda>dir.
         seq (wrap ''creating chapter dir'' (fs_call (os_mkdir_all dir))) (\<lambda>_.
         manga_pages_loop src dctx job dir (length urls) 0 urls))))"

section \<open>Novels\<close>

definition download_novel :: "source \<Rightarrow> int \<Rightarrow> download_context \<Rightarrow> ('z dl_world_scheme, unit) act" where
  "download_novel src job dctx =
     seq (wrap ''fetching chapter text''
            (ask (src_text src (dc_package_name dctx) (dc_source_entry_id dctx) (dc_source_chapter_id dctx)))) (\<lambda>text.
     seq (chapter_dir dctx) (\<lambda>dir.
     seq (wrap ''creating chapter dir'' (fs_call (os_mkdir_all dir))) (\<lambda>_.
     let ext = (if tc_format text \<noteq> [] \<and> tc_format text \<noteq> ''html'' then ''.'' @ tc_format text else ''.html'');
         local_path = path_join [dir, ''content'' @ ext]
     in seq (wrap ''writing chapter content'' (fs_call (os_write_file local_path (Bytes (tc_content text))))) (\<lambda>_.
        seq (wrap ''recording chapter content''
               (db_call (q_upsert_novel_chapter_content (dc_chapter_id dctx) (Some local_path)))) (\<lambda>_.
        set_progress job 1)))))"

section \<open>Anime\<close>

text \<open>
  Video goes through the external program \<open>ffmpeg\<close> and plain HTTP: both are parameters, \<open>av_ffmpeg\<close>
  from arguments and files to an exit error, what it printed and the files it leaves, \<open>av_get\<close> from a
  URL and headers to a status and a body, \<open>av_resolve\<close> the resolution of a segment's reference
  against the playlist's URL (\<open>net/url\<close>), \<open>None\<close> when it does not parse. The goroutines that keep
  the sandbox alive and poll the progress file while \<open>ffmpeg\<close> runs do not change what the job
  returns; the sample the poller stores is \<open>ffmpeg_progress\<close> below.
\<close>

record av =
  av_ffmpeg :: "string list \<Rightarrow> fs \<Rightarrow> (go_err option \<times> string) \<times> fs"
  av_get :: "string \<Rightarrow> (string \<times> string) list \<Rightarrow> go_err + (int \<times> string)"
  av_resolve :: "string \<Rightarrow> string \<Rightarrow> string option"

definition ctx_err :: "nat \<Rightarrow> ('z dl_world_scheme, bool) act" where
  "ctx_err ctx = gets (\<lambda>w. ctx \<in> set (dl_cancelled w))"

definition err_canceled :: go_err where
  "err_canceled = ErrExternal ''context canceled''"

definition truncate_for_error :: "string \<Rightarrow> string" where
  "truncate_for_error s = (if length s \<le> 500 then s else drop (length s - 500) s)"

definition crlf :: string where
  "crlf = [char_of (13::nat), char_of (10::nat)]"

definition header_args :: "(string \<times> string) list \<Rightarrow> string list \<times> string" where
  "header_args hs = fold (\<lambda>(k, v) (args, sb).
       let l = to_lower k in
       if l = ''user-agent'' then (args @ [''-user_agent'', v], sb)
       else if l = ''referer'' \<or> l = ''referrer'' then (args @ [''-referer'', v], sb)
       else if l = ''accept-encoding'' then (args, sb)
       else (args, sb @ k @ '': '' @ v @ crlf))
     hs ([''-y''], ''Accept-Encoding: identity'' @ crlf)"

definition input_args :: "stream_info \<Rightarrow> string list" where
  "input_args st =
     (let (args, sb) = header_args (si_headers st); url = si_stream_url st
      in args @ [''-headers'', sb] @
         (if contains url ''.m3u8'' \<or> contains url ''/m3u8?''
          then [''-protocol_whitelist'', ''file,http,https,tcp,tls,crypto,data'',
                ''-allowed_extensions'', ''ALL'', ''-allowed_segment_extensions'', ''ALL'']
          else []) @
         [''-reconnect'', ''1'', ''-reconnect_streamed'', ''1'', ''-reconnect_delay_max'', ''5'',
          ''-reconnect_on_network_error'', ''1'', ''-analyzeduration'', ''20M'', ''-probesize'', ''20M'',
          ''-fflags'', ''+genpts+igndts+discardcorrupt'', ''-err_detect'', ''ignore_err'', ''-i'', url])"

definition copy_args :: "string list" where
  "copy_args = [''-c'', ''copy'', ''-bsf:a'', ''aac_adtstoasc'', ''-movflags'', ''+faststart'']"

definition transcode_args :: "string list" where
  "transcode_args = [''-c:v'', ''libx264'', ''-preset'', ''veryfast'', ''-crf'', ''21'', ''-c:a'', ''aac'',
     ''-b:a'', ''160k'', ''-movflags'', ''+faststart'']"

definition map_args :: "string list" where
  "map_args = [''-map'', ''0:v:0?'', ''-map'', ''0:a:0?'']"

definition run_ffmpeg :: "av \<Rightarrow> string list \<Rightarrow> ('z dl_world_scheme, go_err option \<times> string) act" where
  "run_ffmpeg env args = (\<lambda>w.
     case next_fault w of
       (Some e, w') \<Rightarrow> (Inr (Some e, []), w')
     | (None, w') \<Rightarrow> (case av_ffmpeg env args (w_fs w') of (r, fs) \<Rightarrow> (Inr r, w'\<lparr>w_fs := fs\<rparr>)))"

definition has_output :: "string \<Rightarrow> ('z dl_world_scheme, bool) act" where
  "has_output p = seq (attempt (fs_call (os_stat p))) (\<lambda>r.
     ret (case r of Inl _ \<Rightarrow> False | Inr n \<Rightarrow> 0 < file_size n))"

definition no_output_error :: go_err where
  "no_output_error = ErrMsg ''ffmpeg reported success but produced no output''"

text \<open>The two passes; the result is the last error with the output of the run it is of.\<close>

fun ffmpeg_passes :: "av \<Rightarrow> nat \<Rightarrow> string list \<Rightarrow> string \<Rightarrow> nat \<Rightarrow> string list list \<Rightarrow> go_err option \<Rightarrow> string
    \<Rightarrow> ('z dl_world_scheme, go_err option \<times> string) act" where
  "ffmpeg_passes env ctx inputs output i [] last_err last_out = ret (last_err, last_out)"
| "ffmpeg_passes env ctx inputs output i (out # outs) last_err last_out =
     (let progress = output @ ''.progress'' in
      seq (run_ffmpeg env ([''-progress'', progress, ''-nostats''] @ inputs @ out)) (\<lambda>(err, stderr).
      seq (ignore (fs_call (os_remove progress))) (\<lambda>_.
      seq (if err = None then has_output output else ret False) (\<lambda>good.
      if good then ret (None, last_out)
      else let err' = (case err of None \<Rightarrow> no_output_error | Some e \<Rightarrow> e) in
        seq (ctx_err ctx) (\<lambda>cancelled.
        if cancelled then fail err_canceled
        else seq (if i = 0 then ignore (fs_call (os_remove output)) else ret ()) (\<lambda>_.
          ffmpeg_passes env ctx inputs output (i + 1) outs (Some err') (truncate_for_error stderr)))))))"

text \<open>The lines of a playlist that name segments.\<close>

definition replacement_char :: string where
  "replacement_char = [char_of (239::nat), char_of (191::nat), char_of (189::nat)]"

fun playlist_segments :: "av \<Rightarrow> string \<Rightarrow> string list \<Rightarrow> go_err + string list" where
  "playlist_segments env base [] = Inr []"
| "playlist_segments env base (l # ls) =
     (let line = trim_space l in
      if line = [] \<or> has_prefix line ''#'' then playlist_segments env base ls
      else if contains line replacement_char
      then Inl (ErrMsg ''playlist looks corrupted (binary/compressed response not decoded)'')
      else case playlist_segments env base ls of
          Inl e \<Rightarrow> Inl e
        | Inr segs \<Rightarrow> Inr (case av_resolve env base line of None \<Rightarrow> segs | Some u \<Rightarrow> u # segs))"

definition segment_headers :: "(string \<times> string) list \<Rightarrow> (string \<times> string) list" where
  "segment_headers hs = [(''Accept'', ''*/*''), (''Accept-Encoding'', ''identity'')] @ hs"

definition status_error :: "string \<Rightarrow> int \<Rightarrow> go_err" where
  "status_error what code = ErrMsg (what @ '' HTTP '' @ int_digits code)"

definition segment_label :: "nat \<Rightarrow> string" where
  "segment_label i = ''segment '' @ nat_digits i"

definition append_raw :: "string \<Rightarrow> string \<Rightarrow> ('z dl_world_scheme, unit) act" where
  "append_raw p data =
     fs_call (\<lambda>fs. case fs_get fs (location p) of
        Some (FileNode (Bytes s)) \<Rightarrow> (Inr (), fs_put (location p) (FileNode (Bytes (s @ data))) fs)
      | _ \<Rightarrow> (Inl err_not_exist, fs))"

fun fetch_segments :: "av \<Rightarrow> nat \<Rightarrow> int \<Rightarrow> (string \<times> string) list \<Rightarrow> string \<Rightarrow> nat \<Rightarrow> nat \<Rightarrow> string list
    \<Rightarrow> ('z dl_world_scheme, unit) act" where
  "fetch_segments env ctx job hs raw count i [] = ret ()"
| "fetch_segments env ctx job hs raw count i (seg # segs) =
     seq (ctx_err ctx) (\<lambda>cancelled.
     if cancelled then fail err_canceled
     else seq (wrap (segment_label i) (ask (av_get env seg hs))) (\<lambda>(status, body).
       if status \<noteq> 200 then fail (status_error (segment_label i @ '':'') status)
       else seq (wrap (segment_label i @ '' write'') (append_raw raw body)) (\<lambda>_.
         seq (if (i + 1) mod 10 = 0 \<or> i + 1 = count
              then ignore (set_progress job (fl (fl (1 / 10) + fl (fl (fl (7 / 10) * of_nat (i + 1)) / of_nat count))))
              else ret ()) (\<lambda>_.
         fetch_segments env ctx job hs raw count (i + 1) segs))))"

fun mux_passes :: "av \<Rightarrow> nat \<Rightarrow> string list \<Rightarrow> string \<Rightarrow> string list list \<Rightarrow> ('z dl_world_scheme, bool) act" where
  "mux_passes env ctx common output [] = ret False"
| "mux_passes env ctx common output (out # outs) =
     seq (run_ffmpeg env (common @ out)) (\<lambda>(err, _).
     seq (if err = None then has_output output else ret False) (\<lambda>good.
     if good then ret True
     else seq (ctx_err ctx) (\<lambda>cancelled.
       if cancelled then fail err_canceled
       else seq (ignore (fs_call (os_remove output))) (\<lambda>_.
         mux_passes env ctx common output outs))))"

definition mux_common :: "string \<Rightarrow> string list" where
  "mux_common raw = [''-y'', ''-analyzeduration'', ''40M'', ''-probesize'', ''40M'',
     ''-fflags'', ''+genpts+igndts+discardcorrupt'', ''-err_detect'', ''ignore_err'', ''-i'', raw]"

definition mux_via_segments :: "av \<Rightarrow> nat \<Rightarrow> int \<Rightarrow> string \<Rightarrow> (string \<times> string) list \<Rightarrow> string
    \<Rightarrow> ('z dl_world_scheme, unit) act" where
  "mux_via_segments env ctx job playlist_url headers output =
     (let hs = segment_headers headers in
      seq (wrap ''fetch playlist'' (ask (av_get env playlist_url hs))) (\<lambda>(status, body).
      if status \<noteq> 200 then fail (status_error ''playlist'' status)
      else case playlist_segments env playlist_url (split_on (char_of (10::nat)) body) of
          Inl e \<Rightarrow> fail e
        | Inr segs \<Rightarrow>
            if segs = [] then fail (ErrMsg ''no segments in playlist'')
            else let raw = path_join [path_dir output, ''raw.ts''] in
              seq (fs_call (os_write_file raw (Bytes []))) (\<lambda>_.
              seq (attempt (seq (fetch_segments env ctx job hs raw (length segs) 0 segs) (\<lambda>_.
                     seq (ext_call (Inr ())) (\<lambda>_. mux_passes env ctx (mux_common raw) output
                       [copy_args @ [output], transcode_args @ [output]])))) (\<lambda>r.
              seq (ignore (fs_call (os_remove raw))) (\<lambda>_.
              case r of
                Inl e \<Rightarrow> fail e
              | Inr True \<Rightarrow> ret ()
              | Inr False \<Rightarrow> fail (ErrMsg (''ffmpeg could not mux '' @ nat_digits (length segs) @
                                '' concatenated segments'')))))))"

definition download_anime :: "source \<Rightarrow> av \<Rightarrow> nat \<Rightarrow> int \<Rightarrow> download_context \<Rightarrow> ('z dl_world_scheme, unit) act" where
  "download_anime src env ctx job dctx =
     seq (wrap ''fetching video stream''
            (ask (src_stream src (dc_package_name dctx) (dc_source_entry_id dctx) (dc_source_chapter_id dctx)))) (\<lambda>st.
     let url = si_stream_url st in
     if url = [] then fail (ErrMsg ''source returned no video stream'')
     else seq (chapter_dir dctx) (\<lambda>dir.
       seq (wrap ''creating chapter dir'' (fs_call (os_mkdir_all dir))) (\<lambda>_.
       let output = path_join [dir, ''episode.mp4''] in
       seq (ignore (set_progress job (fl (1 / 10)))) (\<lambda>_.
       seq (ffmpeg_passes env ctx (input_args st) output 0
              [map_args @ copy_args @ [output], map_args @ transcode_args @ [output]] None []) (\<lambda>(err, out).
       seq (case err of
              None \<Rightarrow> ret ()
            | Some e \<Rightarrow> seq (attempt (mux_via_segments env ctx job url (si_headers st) output)) (\<lambda>r.
                (case r of
                   Inr _ \<Rightarrow> ret ()
                 | Inl e2 \<Rightarrow> fail (ErrMsg (''ffmpeg failed: '' @ err_text e @ '' (output: '' @ out @
                                  ''); segment fallback: '' @ err_text e2))))) (\<lambda>_.
       seq (wrap ''ffmpeg reported success but output file missing'' (fs_call (os_stat output))) (\<lambda>_.
       seq (wrap ''recording episode stream''
              (db_call (q_upsert_anime_episode_stream (dc_chapter_id dctx) (Some url) (Some output)))) (\<lambda>_.
       set_progress job 1))))))))"

text \<open>What \<open>watchFfmpegProgress\<close> stores for a progress file's total size.\<close>

definition ffmpeg_progress :: "int \<Rightarrow> f64" where
  "ffmpeg_progress total_size =
     (if total_size > 0
      then let p = fl (fl (of_int total_size) / 314572800) in
           let p = (if p > fl (95 / 100) then fl (95 / 100) else p) in
           (if p < fl (1 / 10) then fl (1 / 10) else p)
      else fl (1 / 10))"

section \<open>One job\<close>

definition run_job :: "source \<Rightarrow> av \<Rightarrow> nat \<Rightarrow> int \<Rightarrow> int \<Rightarrow> ('z dl_world_scheme, unit) act" where
  "run_job src env ctx job chap =
     seq (wrap ''resolving chapter context'' (db_call (q_get_chapter_download_context chap))) (\<lambda>dctx.
     seq (wrap ''sandbox unavailable'' sandbox_ensure) (\<lambda>_.
     if dc_content_type dctx = ''manga'' then download_manga src job dctx
     else if dc_content_type dctx = ''novel'' then download_novel src job dctx
     else if dc_content_type dctx = ''anime'' then download_anime src env ctx job dctx
     else fail (ErrMsg (''unsupported content type for download: '' @ dc_content_type dctx))))"

section \<open>Removing files\<close>

definition discard_partial :: "int \<Rightarrow> ('z dl_world_scheme, unit) act" where
  "discard_partial chap =
     seq (attempt (db_call (q_get_chapter_download_context chap))) (\<lambda>r.
     case r of
       Inl _ \<Rightarrow> ret ()
     | Inr dctx \<Rightarrow>
         seq (chapter_dir dctx) (\<lambda>dir.
         seq (ignore (fs_call (os_remove_all dir))) (\<lambda>_.
         seq (ignore (fs_call (os_remove (dir @ ''.cbz'')))) (\<lambda>_.
         seq (ignore (fs_call (os_remove (dir @ ''.cbz.part'')))) (\<lambda>_.
         seq (remove_empty_dirs (path_dir dir)) (\<lambda>_.
         seq (ignore (db_call (q_delete_manga_pages chap))) (\<lambda>_.
         seq (ignore (db_call (q_delete_novel_chapter_content chap))) (\<lambda>_.
         ignore (db_call (q_delete_anime_episode_stream chap))))))))))"

text \<open>
  The files of the pages: an archive is removed once; the directory looked at for emptiness is that
  of the first page that has a path.
\<close>

fun delete_page_files :: "manga_page list \<Rightarrow> string \<Rightarrow> string list \<Rightarrow> ('z dl_world_scheme, string) act" where
  "delete_page_files [] dir removed = ret dir"
| "delete_page_files (p # ps) dir removed =
     (case p_local_path p of
        None \<Rightarrow> delete_page_files ps dir removed
      | Some lp \<Rightarrow>
          (case parse_zip_page_path lp of
             Some (archive_path, _) \<Rightarrow>
               let dir' = (if dir = [] then path_dir archive_path else dir) in
               if archive_path \<in> set removed then delete_page_files ps dir' removed
               else seq (ignore (fs_call (os_remove archive_path))) (\<lambda>_.
                      delete_page_files ps dir' (archive_path # removed))
           | None \<Rightarrow>
               let dir' = (if dir = [] then path_dir lp else dir) in
               seq (ignore (fs_call (os_remove lp))) (\<lambda>_. delete_page_files ps dir' removed)))"

text \<open>The row of a query that may have none; any other error is returned with a message.\<close>

definition delete_recorded_file :: "string option \<Rightarrow> ('z dl_world_scheme, unit) act" where
  "delete_recorded_file path =
     (case path of
        None \<Rightarrow> ret ()
      | Some p \<Rightarrow> seq (ignore (fs_call (os_remove p))) (\<lambda>_. remove_empty_dirs (path_dir p)))"

definition clear_job_row :: "int \<Rightarrow> ('z dl_world_scheme, unit) act" where
  "clear_job_row chap = ignore (db_call (q_delete_download_by_chapter chap))"

definition delete_chapter_files :: "int \<Rightarrow> ('z dl_world_scheme, unit) act" where
  "delete_chapter_files chap =
     seq (wrap ''resolving chapter context'' (db_call (q_get_chapter_download_context chap))) (\<lambda>dctx.
     if dc_content_type dctx = ''manga'' then
       seq (wrap ''listing manga pages'' (db_call (q_list_manga_pages chap))) (\<lambda>pages.
       seq (delete_page_files pages [] []) (\<lambda>dir.
       seq (if dir \<noteq> [] then remove_empty_dirs dir else ret ()) (\<lambda>_.
       seq (wrap ''deleting manga page rows'' (db_call (q_delete_manga_pages chap))) (\<lambda>_.
       clear_job_row chap))))
     else if dc_content_type dctx = ''novel'' then
       seq (attempt (db_call (q_get_novel_chapter_content chap))) (\<lambda>r.
       case r of
         Inl e \<Rightarrow> if e = ErrNoRows then ret () else fail (ErrWrap ''fetching novel content'' e)
       | Inr c \<Rightarrow>
           seq (delete_recorded_file (n_local_path c)) (\<lambda>_.
           seq (wrap ''deleting novel content row'' (db_call (q_delete_novel_chapter_content chap))) (\<lambda>_.
           clear_job_row chap)))
     else if dc_content_type dctx = ''anime'' then
       seq (attempt (db_call (q_get_anime_episode_stream chap))) (\<lambda>r.
       case r of
         Inl e \<Rightarrow> if e = ErrNoRows then ret () else fail (ErrWrap ''fetching anime stream'' e)
       | Inr s \<Rightarrow>
           seq (delete_recorded_file (as_local_path s)) (\<lambda>_.
           seq (wrap ''deleting anime stream row'' (db_call (q_delete_anime_episode_stream chap))) (\<lambda>_.
           clear_job_row chap)))
     else fail (ErrMsg (''unsupported content type for delete: '' @ dc_content_type dctx)))"

end
