(* ===== verification/DownloadQueue.thy ===== *)
theory DownloadQueue
  imports Downloads "HOL-Library.AList"
begin

text \<open>
  The download queue (\<open>internal/download/manager.go\<close>): the workers that take the first queued job,
  run it and record its outcome, cancelling, pausing and reordering. A worker's pass is
  \<open>process_one\<close>; for the interleavings of two workers with the user's operations it is split where
  another goroutine can act: \<open>claim_job\<close> (listing the queue, then marking the job) and \<open>finish_job\<close>.
\<close>

section \<open>Pausing, waking and cancelling\<close>

definition wake :: "'z dl_world_scheme \<Rightarrow> 'z dl_world_scheme" where
  "wake w = w\<lparr>dl_woken := True\<rparr>"

definition pause :: "'z dl_world_scheme \<Rightarrow> 'z dl_world_scheme" where
  "pause w = w\<lparr>dl_paused := True\<rparr>"

definition resume :: "'z dl_world_scheme \<Rightarrow> 'z dl_world_scheme" where
  "resume w = wake (w\<lparr>dl_paused := False\<rparr>)"

definition cancel :: "int \<Rightarrow> 'z dl_world_scheme \<Rightarrow> 'z dl_world_scheme" where
  "cancel chap w = (case map_of (dl_running w) chap of
      None \<Rightarrow> w
    | Some ctx \<Rightarrow> w\<lparr>dl_cancelled := ctx # dl_cancelled w\<rparr>)"

text \<open>\<open>Start\<close>: jobs left over from a process that died are queued again.\<close>

definition start :: "('z dl_world_scheme, unit) act" where
  "start = ignore (db_call q_requeue_orphaned_downloads)"

section \<open>A worker's pass\<close>

text \<open>The job at the head of the queue, if the list can be read and is not empty.\<close>

definition first_queued :: "('z world_scheme, download option) act" where
  "first_queued = seq (attempt (db_call q_list_queued_downloads)) (\<lambda>r.
     ret (case r of Inl _ \<Rightarrow> None | Inr [] \<Rightarrow> None | Inr (job # _) \<Rightarrow> Some job))"

text \<open>Marking it and registering the cancel function of a new context.\<close>

definition mark_job :: "download \<Rightarrow> ('z dl_world_scheme, nat option) act" where
  "mark_job job = seq (attempt (db_call (q_update_download_progress Downloading 0 (d_id job)))) (\<lambda>r.
     case r of
       Inl _ \<Rightarrow> ret None
     | Inr _ \<Rightarrow> seq (gets dl_next_ctx) (\<lambda>ctx.
         seq (modify (\<lambda>w. w\<lparr>dl_running := AList.update (d_chapter job) ctx (dl_running w),
                           dl_next_ctx := Suc ctx\<rparr>)) (\<lambda>_.
         ret (Some ctx))))"

definition release :: "int \<Rightarrow> nat \<Rightarrow> 'z dl_world_scheme \<Rightarrow> 'z dl_world_scheme" where
  "release chap ctx w = w\<lparr>dl_running := AList.delete chap (dl_running w),
     dl_cancelled := ctx # dl_cancelled w\<rparr>"

definition finish_job :: "source \<Rightarrow> av \<Rightarrow> download \<Rightarrow> nat \<Rightarrow> ('z dl_world_scheme, unit) act" where
  "finish_job src env job ctx =
     seq (attempt (run_job src env ctx (d_id job) (d_chapter job))) (\<lambda>r.
     seq (ctx_err ctx) (\<lambda>cancelled.
     seq (if cancelled
          then seq (discard_partial (d_chapter job)) (\<lambda>_.
               ignore (db_call (q_delete_download_by_chapter (d_chapter job))))
          else (case r of
              Inl e \<Rightarrow> seq (discard_partial (d_chapter job)) (\<lambda>_.
                       ignore (db_call (q_fail_download (Some (err_text e)) (d_id job))))
            | Inr _ \<Rightarrow> ignore (db_call (q_complete_download (d_id job))))) (\<lambda>_.
     modify (release (d_chapter job) ctx))))"

definition process_one :: "source \<Rightarrow> av \<Rightarrow> ('z dl_world_scheme, unit) act" where
  "process_one src env =
     seq first_queued (\<lambda>job.
     case job of
       None \<Rightarrow> ret ()
     | Some job \<Rightarrow> seq (mark_job job) (\<lambda>ctx.
         case ctx of None \<Rightarrow> ret () | Some ctx \<Rightarrow> finish_job src env job ctx))"

text \<open>One turn of the loop of a worker: a tick of the timer or the wake-up signal.\<close>

definition worker_turn :: "source \<Rightarrow> av \<Rightarrow> ('z dl_world_scheme, unit) act" where
  "worker_turn src env = seq (gets dl_paused) (\<lambda>p. if p then ret () else process_one src env)"

section \<open>Operations on the queue\<close>

fun set_positions :: "int \<Rightarrow> int list \<Rightarrow> ('z dl_world_scheme, unit) act" where
  "set_positions i [] = ret ()"
| "set_positions i (d # ds) =
     seq (wrap (''updating position for download '' @ int_digits d)
            (db_call (q_set_download_position (Some (i + 1)) d))) (\<lambda>_.
     set_positions (i + 1) ds)"

definition clamp_position :: "int \<Rightarrow> int \<Rightarrow> int" where
  "clamp_position p n = (let p = (if p < 1 then 1 else p) in if p > n + 1 then n + 1 else p)"

definition reordered :: "int list \<Rightarrow> int \<Rightarrow> int \<Rightarrow> int list" where
  "reordered queue target new_position =
     (let rest = filter (\<lambda>d. d \<noteq> target) queue;
          pos = nat (clamp_position new_position (int (length rest)) - 1)
      in take pos rest @ target # drop pos rest)"

definition reorder :: "int \<Rightarrow> int \<Rightarrow> ('z dl_world_scheme, unit) act" where
  "reorder chap new_position =
     seq (wrap (''chapter '' @ int_digits chap @ '' has no queued download'')
            (db_call (q_get_queued_download_by_chapter chap))) (\<lambda>target.
     seq (wrap ''listing queued downloads'' (db_call q_list_queued_downloads)) (\<lambda>queue.
     set_positions 0 (reordered (map d_id queue) (d_id target) new_position)))"

definition clear_queue :: "('z dl_world_scheme, unit) act" where
  "clear_queue = db_call q_clear_downloads"

end
