(* ===== verification/Q_Library.thy ===== *)
theory Q_Library
  imports World "HOL-Library.Char_ord" "HOL-Library.List_Lexorder" "HOL-Library.Product_Lexorder"
begin

text \<open>
  The statements on library entries, folders, extensions and repositories
  (\<open>internal/db/queries/media.sql\<close>, \<open>folders.sql\<close>, \<open>extensions.sql\<close>, \<open>repositories.sql\<close>).
\<close>

section \<open>Library entries\<close>

definition q_get_media :: "int \<Rightarrow> medium stmt" where
  "q_get_media i = select_one (\<lambda>d. find (\<lambda>m. m_id m = i) (media d))"

definition q_get_media_by_extension_and_external_id :: "int option \<Rightarrow> string \<Rightarrow> medium stmt" where
  "q_get_media_by_extension_and_external_id ext_id external_id =
     select_one (\<lambda>d. find (\<lambda>m. ext_id \<noteq> None \<and> m_extension_id m = ext_id \<and> m_external_id m = external_id) (media d))"

definition q_list_media_by_ids :: "int list \<Rightarrow> medium list stmt" where
  "q_list_media_by_ids ids = select_all (\<lambda>d. filter (\<lambda>m. m_id m \<in> set ids) (media d))"

definition q_update_media :: "int \<Rightarrow> (int \<Rightarrow> medium \<Rightarrow> medium) \<Rightarrow> medium stmt" where
  "q_update_media i f now d = (case update_returning (\<lambda>m. m_id m = i) (f now) (media d) of
      (r, rows) \<Rightarrow> (r, d\<lparr>media := rows\<rparr>))"

definition q_add_media_to_library :: "int \<Rightarrow> medium stmt" where
  "q_add_media_to_library i =
     q_update_media i (\<lambda>now m. m\<lparr>m_added_at := coalesce (m_added_at m) (Some now)\<rparr>)"

definition q_remove_media_from_library :: "int \<Rightarrow> medium stmt" where
  "q_remove_media_from_library i = q_update_media i (\<lambda>now m. m\<lparr>m_added_at := None\<rparr>)"

definition q_touch_media_viewed :: "int \<Rightarrow> unit stmt" where
  "q_touch_media_viewed i =
     exec (\<lambda>now d. d\<lparr>media := update_where (\<lambda>m. m_id m = i) (\<lambda>m. m\<lparr>m_last_viewed_at := Some now\<rparr>) (media d)\<rparr>)"

definition q_mark_chapters_synced :: "int \<Rightarrow> unit stmt" where
  "q_mark_chapters_synced i =
     exec (\<lambda>now d. d\<lparr>media := update_where (\<lambda>m. m_id m = i) (\<lambda>m. m\<lparr>m_chapters_synced_at := Some now\<rparr>) (media d)\<rparr>)"

definition q_update_media_cover_local_path :: "string option \<Rightarrow> int \<Rightarrow> unit stmt" where
  "q_update_media_cover_local_path path i =
     exec (\<lambda>now d. d\<lparr>media := update_where (\<lambda>m. m_id m = i) (\<lambda>m. m\<lparr>m_cover_local_path := path\<rparr>) (media d)\<rparr>)"

definition q_mark_media_extension_removed :: "int option \<Rightarrow> unit stmt" where
  "q_mark_media_extension_removed ext_id =
     exec (\<lambda>now d. d\<lparr>media := update_where
       (\<lambda>m. ext_id \<noteq> None \<and> m_extension_id m = ext_id \<and> m_extension_removed_at m = None)
       (\<lambda>m. m\<lparr>m_extension_removed_at := Some now\<rparr>) (media d)\<rparr>)"

record details_params =
  dp_extension_id :: int
  dp_extension_name :: string
  dp_external_id :: string
  dp_content_type :: string
  dp_title :: string
  dp_cover_path :: "string option"
  dp_description :: "string option"
  dp_status :: "string option"
  dp_author :: "string option"

definition details_updated :: "details_params \<Rightarrow> int \<Rightarrow> medium \<Rightarrow> medium" where
  "details_updated p now m = m\<lparr>
     m_title := (case nullif_empty (Some (dp_title p)) of None \<Rightarrow> m_title m | Some t \<Rightarrow> t),
     m_cover_path := coalesce (nullif_empty (dp_cover_path p)) (m_cover_path m),
     m_description := coalesce (nullif_empty (dp_description p)) (m_description m),
     m_status := coalesce (nullif_empty (dp_status p)) (m_status m),
     m_author := coalesce (nullif_empty (dp_author p)) (m_author m),
     m_details_fetched_at := Some now\<rparr>"

definition details_created :: "details_params \<Rightarrow> int \<Rightarrow> int \<Rightarrow> medium" where
  "details_created p i now = \<lparr>m_id = i, m_extension_id = Some (dp_extension_id p),
     m_extension_name = dp_extension_name p, m_external_id = dp_external_id p,
     m_content_type = dp_content_type p, m_title = dp_title p, m_cover_path = dp_cover_path p,
     m_cover_local_path = None, m_description = dp_description p, m_status = dp_status p,
     m_author = dp_author p, m_artist = None, m_extension_removed_at = None, m_added_at = None,
     m_last_viewed_at = None, m_details_fetched_at = Some now, m_chapters_synced_at = None,
     m_cover_override = None, m_content_block_rank = None, m_search_failed_at = None\<rparr>"

definition q_upsert_media_details :: "details_params \<Rightarrow> medium stmt" where
  "q_upsert_media_details p = with_fk (\<lambda>d. dp_extension_id p \<in> set (map x_id (extensions d))) (\<lambda>now d.
     let (row, rows) = upsert
            (\<lambda>m. m_extension_id m = Some (dp_extension_id p) \<and> m_external_id m = dp_external_id p)
            (details_updated p now) (details_created p (next_id (map m_id (media d))) now) (media d)
     in (Inr row, d\<lparr>media := rows\<rparr>))"

definition folder_with :: "(folder \<Rightarrow> bool) \<Rightarrow> db \<Rightarrow> int \<Rightarrow> bool" where
  "folder_with P d i \<longleftrightarrow> (\<exists>p \<in> set (media_folders d). fst p = i \<and> (\<exists>f \<in> set (folders d). f_id f = snd p \<and> P f))"

definition update_target :: "db \<Rightarrow> medium \<Rightarrow> bool" where
  "update_target d m \<longleftrightarrow>
     (folder_with (\<lambda>f. f_include_in_update f = 1) d (m_id m) \<or>
      (m_added_at m \<noteq> None \<and> m_id m \<notin> fst ` set (media_folders d))) \<and>
     \<not> folder_with (\<lambda>f. f_include_in_update f = 0) d (m_id m)"

definition q_list_update_target_media_ids :: "int list stmt" where
  "q_list_update_target_media_ids =
     select_all (\<lambda>d. map m_id (sort_key m_title (filter (update_target d) (media d))))"

section \<open>Folders\<close>

definition q_get_folder_by_system_key :: "string option \<Rightarrow> folder stmt" where
  "q_get_folder_by_system_key key =
     select_one (\<lambda>d. find (\<lambda>f. key \<noteq> None \<and> f_system_key f = key) (folders d))"

definition q_add_media_to_folder :: "int \<Rightarrow> int \<Rightarrow> unit stmt" where
  "q_add_media_to_folder media_id folder_id =
     with_fk (\<lambda>d. media_id \<in> set (map m_id (media d)) \<and> folder_id \<in> set (map f_id (folders d)))
       (exec (\<lambda>now d. if (media_id, folder_id) \<in> set (media_folders d) then d
                      else d\<lparr>media_folders := media_folders d @ [(media_id, folder_id)]\<rparr>))"

definition q_remove_media_from_all_folders :: "int \<Rightarrow> unit stmt" where
  "q_remove_media_from_all_folders media_id =
     exec (\<lambda>now d. d\<lparr>media_folders := delete_where (\<lambda>p. fst p = media_id) (media_folders d)\<rparr>)"

definition q_remove_media_from_folders_by_kind :: "int \<Rightarrow> string \<Rightarrow> unit stmt" where
  "q_remove_media_from_folders_by_kind media_id kind =
     exec (\<lambda>now d. d\<lparr>media_folders := delete_where
       (\<lambda>p. fst p = media_id \<and> (\<exists>f \<in> set (folders d). f_id f = snd p \<and> f_kind f = kind)) (media_folders d)\<rparr>)"

definition q_remove_media_from_folder :: "int \<Rightarrow> int \<Rightarrow> unit stmt" where
  "q_remove_media_from_folder media_id folder_id =
     exec (\<lambda>now d. d\<lparr>media_folders := delete_where (\<lambda>p. p = (media_id, folder_id)) (media_folders d)\<rparr>)"

text \<open>\<open>ORDER BY mf.media_id, f.kind, f.sort_order, f.name\<close>.\<close>

definition q_list_folders_by_media_ids :: "int list \<Rightarrow> (int \<times> folder) list stmt" where
  "q_list_folders_by_media_ids ids =
     select_all (\<lambda>d. sort_key (\<lambda>(i, f). (i, f_kind f, f_sort_order f, f_name f))
       [(fst p, f). f \<leftarrow> folders d, p \<leftarrow> media_folders d, snd p = f_id f \<and> fst p \<in> set ids])"

definition q_list_media_in_folder :: "int \<Rightarrow> medium list stmt" where
  "q_list_media_in_folder folder_id =
     select_all (\<lambda>d. sort_key (\<lambda>m. case m_added_at m of None \<Rightarrow> (1::int, 0) | Some t \<Rightarrow> (0, - t))
       (filter (\<lambda>m. (m_id m, folder_id) \<in> set (media_folders d)) (media d)))"

section \<open>Extensions\<close>

record extension_params =
  ep_repository :: int
  ep_package :: string
  ep_name :: string
  ep_version :: string
  ep_content_type :: string
  ep_lang :: string
  ep_icon_url :: "string option"
  ep_apk_url :: string
  ep_jar_url :: "string option"
  ep_is_nsfw :: bool

definition extension_updated :: "extension_params \<Rightarrow> extension \<Rightarrow> extension" where
  "extension_updated p x = x\<lparr>x_name := ep_name p, x_version := ep_version p,
     x_content_type := ep_content_type p, x_lang := ep_lang p, x_icon_url := ep_icon_url p,
     x_apk_url := ep_apk_url p, x_jar_url := ep_jar_url p, x_is_nsfw := ep_is_nsfw p\<rparr>"

definition extension_created :: "extension_params \<Rightarrow> int \<Rightarrow> extension" where
  "extension_created p i = \<lparr>x_id = i, x_repository = ep_repository p, x_package = ep_package p,
     x_name = ep_name p, x_version = ep_version p, x_content_type = ep_content_type p, x_lang = ep_lang p,
     x_icon_url = ep_icon_url p, x_icon_local_path = None, x_apk_url = ep_apk_url p,
     x_jar_url = ep_jar_url p, x_jar_path = None, x_installed = False, x_enabled = True,
     x_installed_at = None, x_installed_version = None, x_is_nsfw = ep_is_nsfw p,
     x_supports_latest = True, x_source_id = 0\<rparr>"

text \<open>The CHECK constraint on the content type of extensions and repositories.\<close>

definition content_type_ok :: "string \<Rightarrow> bool" where
  "content_type_ok t \<longleftrightarrow> t = ''manga'' \<or> t = ''novel'' \<or> t = ''anime''"

definition check_error :: go_err where
  "check_error = ErrExternal ''CHECK constraint failed''"

definition q_upsert_extension :: "extension_params \<Rightarrow> extension stmt" where
  "q_upsert_extension p now d =
     (if \<not> content_type_ok (ep_content_type p) then (Inl check_error, d)
      else with_fk (\<lambda>d. ep_repository p \<in> set (map re_id (repositories d))) (\<lambda>now d.
        let (row, rows) = upsert (\<lambda>x. x_package x = ep_package p) (extension_updated p)
               (extension_created p (next_id (map x_id (extensions d)))) (extensions d)
        in (Inr row, d\<lparr>extensions := rows\<rparr>)) now d)"

definition q_get_extension :: "int \<Rightarrow> extension stmt" where
  "q_get_extension i = select_one (\<lambda>d. find (\<lambda>x. x_id x = i) (extensions d))"

definition q_get_extension_by_package_name :: "string \<Rightarrow> extension stmt" where
  "q_get_extension_by_package_name pkg = select_one (\<lambda>d. find (\<lambda>x. x_package x = pkg) (extensions d))"

definition q_list_extensions_by_repository :: "int \<Rightarrow> extension list stmt" where
  "q_list_extensions_by_repository i =
     select_all (\<lambda>d. sort_key x_name (filter (\<lambda>x. x_repository x = i) (extensions d)))"

definition q_list_installed_extensions :: "extension list stmt" where
  "q_list_installed_extensions =
     select_all (\<lambda>d. sort_key x_name (filter (\<lambda>x. x_installed x \<and> x_enabled x) (extensions d)))"

definition q_update_extension :: "int \<Rightarrow> (int \<Rightarrow> extension \<Rightarrow> extension) \<Rightarrow> extension stmt" where
  "q_update_extension i f now d = (case update_returning (\<lambda>x. x_id x = i) (f now) (extensions d) of
      (r, rows) \<Rightarrow> (r, d\<lparr>extensions := rows\<rparr>))"

definition q_mark_extension_installed :: "string option \<Rightarrow> int \<Rightarrow> extension stmt" where
  "q_mark_extension_installed path i = q_update_extension i (\<lambda>now x. x\<lparr>x_installed := True,
     x_jar_path := path, x_installed_version := Some (x_version x), x_installed_at := Some now\<rparr>)"

definition q_mark_extension_updated :: "string option \<Rightarrow> int \<Rightarrow> extension stmt" where
  "q_mark_extension_updated path i = q_update_extension i (\<lambda>now x. x\<lparr>x_jar_path := path,
     x_installed_version := Some (x_version x), x_installed_at := Some now\<rparr>)"

definition q_mark_extension_uninstalled :: "int \<Rightarrow> extension stmt" where
  "q_mark_extension_uninstalled i = q_update_extension i (\<lambda>now x. x\<lparr>x_installed := False,
     x_jar_path := None, x_installed_version := None, x_installed_at := None\<rparr>)"

definition q_update_extension_supports_latest :: "bool \<Rightarrow> int \<Rightarrow> extension stmt" where
  "q_update_extension_supports_latest b i = q_update_extension i (\<lambda>now x. x\<lparr>x_supports_latest := b\<rparr>)"

definition q_update_extension_source_id :: "int \<Rightarrow> int \<Rightarrow> extension stmt" where
  "q_update_extension_source_id s i = q_update_extension i (\<lambda>now x. x\<lparr>x_source_id := s\<rparr>)"

text \<open>
  SQLite's \<open>LIKE\<close>: \<open>%\<close> matches any text, \<open>_\<close> any character, letters match either case. A search text is
  put between two \<open>%\<close>, so it may hold wildcards itself.
\<close>

fun like :: "string \<Rightarrow> string \<Rightarrow> bool" where
  "like [] [] \<longleftrightarrow> True"
| "like [] (c # cs) \<longleftrightarrow> False"
| "like (p # ps) [] \<longleftrightarrow> p = CHR ''%'' \<and> like ps []"
| "like (p # ps) (c # cs) \<longleftrightarrow>
     (if p = CHR ''%'' then like ps (c # cs) \<or> like (p # ps) cs
      else (p = CHR ''_'' \<or> lower_char p = lower_char c) \<and> like ps cs)"

definition matches_search :: "string \<Rightarrow> string \<Rightarrow> bool" where
  "matches_search text s \<longleftrightarrow> like (CHR ''%'' # text @ ''%'') s"

record extension_filter =
  xf_repository :: "int option"
  xf_content_type :: "string option"
  xf_lang :: "string option"
  xf_installed :: "bool option"
  xf_search :: "string option"

definition extension_matches :: "extension_filter \<Rightarrow> extension \<Rightarrow> bool" where
  "extension_matches q x \<longleftrightarrow>
     (case xf_repository q of None \<Rightarrow> True | Some i \<Rightarrow> x_repository x = i) \<and>
     (case xf_content_type q of None \<Rightarrow> True | Some t \<Rightarrow> x_content_type x = t) \<and>
     (case xf_lang q of None \<Rightarrow> True | Some l \<Rightarrow> x_lang x = l) \<and>
     (case xf_installed q of None \<Rightarrow> True | Some b \<Rightarrow> x_installed x = b) \<and>
     (case xf_search q of None \<Rightarrow> True | Some t \<Rightarrow> matches_search t (x_name x) \<or> matches_search t (x_package x))"

definition q_count_extensions :: "extension_filter \<Rightarrow> int stmt" where
  "q_count_extensions q = select_all (\<lambda>d. int (length (filter (extension_matches q) (extensions d))))"

text \<open>\<open>LIMIT ? OFFSET ?\<close> for a limit and an offset that are not negative.\<close>

definition page_of :: "int \<Rightarrow> int \<Rightarrow> 'a list \<Rightarrow> 'a list" where
  "page_of lm off rows = take (nat lm) (drop (nat off) rows)"

definition q_query_extensions :: "extension_filter \<Rightarrow> int \<Rightarrow> int \<Rightarrow> extension list stmt" where
  "q_query_extensions q lm off = select_all (\<lambda>d. page_of lm off
     (sort_key (\<lambda>x. (if x_installed x then 0 else 1 :: int, x_name x)) (filter (extension_matches q) (extensions d))))"

definition q_list_extension_languages :: "extension_filter \<Rightarrow> string list stmt" where
  "q_list_extension_languages q = select_all (\<lambda>d.
     sort (remdups (map x_lang (filter (extension_matches (q\<lparr>xf_lang := None\<rparr>)) (extensions d)))))"

text \<open>The generated column \<open>needs_update\<close>.\<close>

definition needs_update :: "extension \<Rightarrow> bool" where
  "needs_update x \<longleftrightarrow> x_installed x \<and> x_installed_version x \<noteq> None \<and> x_installed_version x \<noteq> Some (x_version x)"

section \<open>Repositories\<close>

definition q_create_repository :: "string \<Rightarrow> string option \<Rightarrow> string \<Rightarrow> repository stmt" where
  "q_create_repository url name content_type now d =
     (if \<not> content_type_ok content_type then (Inl check_error, d)
      else if url \<in> set (map re_index_url (repositories d))
      then (Inl (ErrExternal ''UNIQUE constraint failed: repositories.index_url''), d)
      else let row = \<lparr>re_id = next_id (map re_id (repositories d)), re_index_url = url, re_name = name,
                     re_content_type = content_type, re_added_at = now, re_last_synced_at = None\<rparr>
           in (Inr row, d\<lparr>repositories := repositories d @ [row]\<rparr>))"

definition q_get_repository :: "int \<Rightarrow> repository stmt" where
  "q_get_repository i = select_one (\<lambda>d. find (\<lambda>r. re_id r = i) (repositories d))"

definition q_get_repository_by_url :: "string \<Rightarrow> repository stmt" where
  "q_get_repository_by_url url = select_one (\<lambda>d. find (\<lambda>r. re_index_url r = url) (repositories d))"

definition q_list_repositories :: "repository list stmt" where
  "q_list_repositories = select_all (\<lambda>d. sort_key re_added_at (repositories d))"

definition q_touch_repository_sync :: "int \<Rightarrow> unit stmt" where
  "q_touch_repository_sync i =
     exec (\<lambda>now d. d\<lparr>repositories := update_where (\<lambda>r. re_id r = i) (\<lambda>r. r\<lparr>re_last_synced_at := Some now\<rparr>) (repositories d)\<rparr>)"

definition q_update_repository_name :: "string option \<Rightarrow> int \<Rightarrow> repository stmt" where
  "q_update_repository_name name i now d =
     (case update_returning (\<lambda>r. re_id r = i) (\<lambda>r. r\<lparr>re_name := name\<rparr>) (repositories d) of
        (r, rows) \<Rightarrow> (r, d\<lparr>repositories := rows\<rparr>))"

text \<open>
  Deleting a repository deletes its extensions (\<open>ON DELETE CASCADE\<close>), and an entry of a deleted
  extension loses the reference (\<open>ON DELETE SET NULL\<close>).
\<close>

definition q_delete_repository :: "int \<Rightarrow> unit stmt" where
  "q_delete_repository i = exec (\<lambda>now d.
     let gone = map x_id (filter (\<lambda>x. x_repository x = i) (extensions d))
     in d\<lparr>repositories := delete_where (\<lambda>r. re_id r = i) (repositories d),
          extensions := delete_where (\<lambda>x. x_repository x = i) (extensions d),
          media := update_where (\<lambda>m. \<exists>g \<in> set gone. m_extension_id m = Some g)
                     (\<lambda>m. m\<lparr>m_extension_id := None\<rparr>) (media d)\<rparr>)"

end
