(* ===== verification/DownloadSafety.thy ===== *)
theory DownloadSafety
  imports Downloads Q_Library
begin

text \<open>
  Where the download manager reads, writes and removes files: the folder of a chapter lies inside
  the downloads directory when the source's ids are proper, what a failed job's clean-up can remove,
  and what happens when an id is a double dot.
\<close>

section \<open>The chapter's folder\<close>

definition proper_ids :: "download_context \<Rightarrow> bool" where
  "proper_ids dctx \<longleftrightarrow>
     content_type_ok (dc_content_type dctx) \<and>
     (sanitize_filename (dc_package_name dctx) \<noteq> [] \<or> \<not> dot_id (dc_package_name dctx)) \<and>
     (sanitize_filename (dc_library_title dctx) \<noteq> [] \<or> \<not> dot_id (dc_source_entry_id dctx)) \<and>
     ((dc_chapter_title dctx \<noteq> None \<and> sanitize_filename (the (dc_chapter_title dctx)) \<noteq> []) \<or>
      dc_chapter_number dctx \<noteq> None \<or> \<not> dot_id (dc_source_chapter_id dctx))"

definition title_segments :: "download_context \<Rightarrow> string list" where
  "title_segments dctx =
     [content_type_dir (dc_content_type dctx), extension_folder_name (dc_package_name dctx),
      title_folder_name (dc_library_title dctx) (dc_source_entry_id dctx)]"

definition chapter_segment :: "download_context \<Rightarrow> string" where
  "chapter_segment dctx = chapter_folder_name (dc_content_type dctx) (dc_chapter_title dctx)
     (dc_chapter_number dctx) (dc_source_chapter_id dctx)"

lemma build_chapter_dir_segments:
  "build_chapter_dir dd dctx = path_join (dd # title_segments dctx @ [chapter_segment dctx])"
  by (simp add: build_chapter_dir_def title_segments_def chapter_segment_def)

lemma content_type_dir_ok: "content_type_ok t \<Longrightarrow> name_ok (content_type_dir t)"
  by (auto simp: content_type_ok_def content_type_dir_def name_ok_def)

lemma proper_segments:
  assumes "proper_ids dctx"
  shows "list_all name_ok (title_segments dctx @ [chapter_segment dctx])"
  using assms folder_segment_name_ok [of "dc_package_name dctx" "dc_package_name dctx"]
    folder_segment_name_ok [of "dc_library_title dctx" "dc_source_entry_id dctx"]
    chapter_folder_name_ok [of "dc_chapter_title dctx" "dc_chapter_number dctx" "dc_source_chapter_id dctx"
      "dc_content_type dctx"] content_type_dir_ok [of "dc_content_type dctx"]
  unfolding proper_ids_def title_segments_def chapter_segment_def extension_folder_name_def title_folder_name_def
  by simp

lemma location_chapter_dir:
  assumes "proper_ids dctx" "dd \<noteq> []"
  shows "location (build_chapter_dir dd dctx) =
         (rooted dd, snd (location dd) @ title_segments dctx @ [chapter_segment dctx])"
  unfolding build_chapter_dir_segments using proper_segments [OF assms(1)] assms(2)
  by (intro location_join_names) auto

lemma location_chapter_parent:
  assumes "proper_ids dctx" "dd \<noteq> []"
  shows "location (path_dir (build_chapter_dir dd dctx)) = (rooted dd, snd (location dd) @ title_segments dctx)"
  unfolding build_chapter_dir_segments using proper_segments [OF assms(1)] assms(2)
  by (intro location_dir_join) auto

text \<open>
  C1: The folder a chapter is downloaded to lies strictly inside the downloads directory, exactly
  four levels down (content type, extension, title, chapter), each level a proper file name, for
  every title, number, package and id a source can send, except an id that is a dot or a double dot
  where no title or number replaces it.
\<close>

theorem chapter_dir_inside_downloads:
  assumes "proper_ids dctx" "downloads_dir \<noteq> []"
  shows "strictly_inside (location downloads_dir) (location (build_chapter_dir downloads_dir dctx)) \<and>
         (\<exists>ns. length ns = 4 \<and> list_all name_ok ns \<and>
            snd (location (build_chapter_dir downloads_dir dctx)) = snd (location downloads_dir) @ ns)"
proof
  show "strictly_inside (location downloads_dir) (location (build_chapter_dir downloads_dir dctx))"
    unfolding build_chapter_dir_segments using proper_segments [OF assms(1)] assms(2)
    by (intro join_names_strictly_inside) auto
  show "\<exists>ns. length ns = 4 \<and> list_all name_ok ns \<and>
      snd (location (build_chapter_dir downloads_dir dctx)) = snd (location downloads_dir) @ ns"
    using location_chapter_dir [OF assms] proper_segments [OF assms(1)]
    by (intro exI [of _ "title_segments dctx @ [chapter_segment dctx]"]) (simp add: title_segments_def)
qed

definition demo_dctx :: download_context where
  "demo_dctx = \<lparr>dc_chapter_id = 5, dc_source_chapter_id = ''../../c'', dc_chapter_title = None,
     dc_chapter_number = None, dc_source_entry_id = ''/manga/1'', dc_library_title = ''../etc: passwd'',
     dc_content_type = ''manga'', dc_package_name = ''eu.kanade.mangadex''\<rparr>"

lemma demo_dctx_proper: "proper_ids demo_dctx"
  by code_simp

theorem chapter_dir_inside_downloads_witness:
  "strictly_inside (location ''/data/dl'') (location (build_chapter_dir ''/data/dl'' demo_dctx))"
  using chapter_dir_inside_downloads [OF demo_dctx_proper, of "''/data/dl''"] by simp

section \<open>What the clean-up of a job can remove\<close>

lemma total_remove_empty_dirs: "total (remove_empty_dirs dir)"
proof -
  have "total (remove_empty_dirs_loop fuel dir)" for fuel
    by (induction fuel arbitrary: dir) (auto simp: Let_def split: prod.split sum.split intro!: total_intros)
  then show ?thesis unfolding remove_empty_dirs_def by blast
qed

lemma total_discard_partial: "total (discard_partial chap)"
  unfolding discard_partial_def chapter_dir_def
  by (auto split: sum.split intro!: total_intros total_remove_empty_dirs)

lemma keeps_remove_empty_dirs_loop:
  assumes "path_clean dir = dir" "inside (location dir) L"
  shows "keeps (\<lambda>w :: 'z dl_world_scheme. files_kept_outside (\<lambda>l. inside l L \<or> R l) fs0 (w_fs w))
           (remove_empty_dirs_loop fuel dir)"
  using assms
proof (induction fuel arbitrary: dir)
  case (Suc fuel)
  let ?I = "\<lambda>w :: 'z dl_world_scheme. files_kept_outside (\<lambda>l. inside l L \<or> R l) fs0 (w_fs w)"
  have rm: "keeps ?I (attempt (fs_call (os_remove dir)))"
  proof (intro keeps_attempt keeps_fs_call)
    fix fs assume "files_kept_outside (\<lambda>l. inside l L \<or> R l) fs0 fs"
    moreover have "files_kept_outside (\<lambda>l. inside l L \<or> R l) fs (snd (os_remove dir fs))"
      using Suc.prems(2) by (intro remove_files) simp
    ultimately show "files_kept_outside (\<lambda>l. inside l L \<or> R l) fs0 (snd (os_remove dir fs))"
      by (rule files_kept_trans)
  qed
  have "inside (location (path_dir dir)) L"
    using Suc.prems location_dir_clean [of dir]
    by (auto simp: inside_def parent_def intro: prefix_order.trans prefixeq_butlast)
  then have "keeps ?I (remove_empty_dirs_loop fuel (path_dir dir))"
    using Suc.IH [of "path_dir dir"] path_dir_clean by blast
  then show ?case using rm
    by (auto simp: Let_def split: prod.split sum.split intro!: keeps_intros)
qed (simp add: keeps_ret)

text \<open>The clean-up once the chapter's folder is known.\<close>

definition discard_dir :: "int \<Rightarrow> string \<Rightarrow> ('z dl_world_scheme, unit) act" where
  "discard_dir chap dir =
     seq (ignore (fs_call (os_remove_all dir))) (\<lambda>_.
     seq (ignore (fs_call (os_remove (dir @ ''.cbz'')))) (\<lambda>_.
     seq (ignore (fs_call (os_remove (dir @ ''.cbz.part'')))) (\<lambda>_.
     seq (remove_empty_dirs (path_dir dir)) (\<lambda>_.
     seq (ignore (db_call (q_delete_manga_pages chap))) (\<lambda>_.
     seq (ignore (db_call (q_delete_novel_chapter_content chap))) (\<lambda>_.
     ignore (db_call (q_delete_anime_episode_stream chap))))))))"

lemma discard_partial_cases:
  obtains e w1 where "db_call (q_get_chapter_download_context chap) w = (Inl e, w1)"
      "discard_partial chap w = (Inr (), w1)" "w_fs w1 = w_fs w"
    | dctx w1 where "download_context_of (w_db w) chap = Some dctx"
      "db_call (q_get_chapter_download_context chap) w = (Inr dctx, w1)"
      "discard_partial chap w = discard_dir chap (build_chapter_dir (dl_downloads_dir w) dctx) w1"
      "w_fs w1 = w_fs w" "w_db w1 = w_db w" "dl_downloads_dir w1 = dl_downloads_dir w"
proof -
  obtain r w1 where c: "db_call (q_get_chapter_download_context chap) w = (r, w1)"
    by (cases "db_call (q_get_chapter_download_context chap) w")
  from db_call_result [OF this] obtain fs d where w1: "w1 = w\<lparr>w_faults := fs, w_db := d\<rparr>"
    and q: "(\<exists>e. r = Inl e \<and> d = w_db w) \<or> q_get_chapter_download_context chap (w_now w) (w_db w) = (r, d)" by blast
  show thesis
  proof (cases r)
    case (Inl e)
    have "discard_partial chap w = (Inr (), w1)"
      using c Inl by (simp add: discard_partial_def act_simps)
    with that(1) c Inl w1 show ?thesis by simp
  next
    case (Inr dctx)
    then have "download_context_of (w_db w) chap = Some dctx" "d = w_db w"
      using q by (auto simp: q_get_chapter_download_context_def select_one_def split: option.splits)
    moreover have "discard_partial chap w = discard_dir chap (build_chapter_dir (dl_downloads_dir w1) dctx) w1"
      using c Inr by (simp add: discard_partial_def seq_def attempt_def chapter_dir_def gets_def discard_dir_def)
    ultimately show ?thesis using that(2) c Inr w1 by simp
  qed
qed

definition chapter_region :: "string \<Rightarrow> location \<Rightarrow> bool" where
  "chapter_region dir l \<longleftrightarrow> inside (location dir) l \<or> l = location (dir @ ''.cbz'') \<or> l = location (dir @ ''.cbz.part'')"

lemma keeps_discard_dir:
  assumes "path_clean dir = dir"
  shows "keeps (\<lambda>w :: 'z dl_world_scheme.
           files_kept_outside (\<lambda>l. inside l (location dir) \<or> chapter_region dir l) fs0 (w_fs w)) (discard_dir chap dir)"
proof -
  let ?R = "\<lambda>l. inside l (location dir) \<or> chapter_region dir l"
  have 1: "files_kept_outside ?R fs (snd (os_remove_all dir fs))" for fs
    by (rule remove_all_files) (simp add: chapter_region_def)
  have 2: "files_kept_outside ?R fs (snd (os_remove (dir @ x) fs))" if "x = ''.cbz'' \<or> x = ''.cbz.part''" for fs x
    using that by (intro remove_files) (auto simp: chapter_region_def)
  have "inside (location (path_dir dir)) (location dir)"
    using location_dir_clean [OF assms] by (simp add: parent_def inside_def prefixeq_butlast)
  then have 3: "keeps (\<lambda>w :: 'z dl_world_scheme. files_kept_outside ?R fs0 (w_fs w)) (remove_empty_dirs (path_dir dir))"
    unfolding remove_empty_dirs_def by (intro keeps_remove_empty_dirs_loop path_dir_clean)
  show ?thesis
    unfolding discard_dir_def
    by (intro keeps_intros keeps_files_fs_call 1 2 3) auto
qed

text \<open>
  C2: Cleaning up after a failed or cancelled job loses no file beside the chapter's: whatever calls
  fail on the way, a regular file that is neither in the chapter's folder nor its archive (finished or
  partial), and that does not stand where the chapter's folder or one of the folders it lies in should
  be, is still there with its content. (Folders above the chapter's that became empty are removed by
  name, and a regular file that stood there instead of a folder would go with them: such places are left
  out.)
\<close>

theorem discard_keeps_other_files:
  fixes w :: "'z dl_world_scheme"
  assumes "dl_downloads_dir w \<noteq> []"
    "download_context_of (w_db w) chap = Some dctx"
    "fs_get (w_fs w) l = Some (FileNode c)"
    "\<not> inside l (location (build_chapter_dir (dl_downloads_dir w) dctx))"
    "\<not> chapter_region (build_chapter_dir (dl_downloads_dir w) dctx) l"
  shows "fs_get (w_fs (snd (discard_partial chap w))) l = Some (FileNode c)"
proof (cases rule: discard_partial_cases [of chap w])
  case (1 e w1)
  then show ?thesis using assms(3) by simp
next
  case (2 dctx' w1)
  let ?dir = "build_chapter_dir (dl_downloads_dir w) dctx"
  let ?R = "\<lambda>l. inside l (location ?dir) \<or> chapter_region ?dir l"
  have "dctx' = dctx" using assms(2) 2 by simp
  moreover have "path_clean ?dir = ?dir"
    unfolding build_chapter_dir_segments by (rule path_join_names_clean [OF assms(1)])
  then have "keeps (\<lambda>x. files_kept_outside ?R (w_fs w1) (w_fs x)) (discard_dir chap ?dir :: ('z dl_world_scheme, unit) act)"
    by (rule keeps_discard_dir)
  then have "files_kept_outside ?R (w_fs w1) (w_fs (snd (discard_dir chap ?dir w1)))"
    by (simp add: keeps_def)
  moreover have "\<not> ?R l" using assms(4,5) by blast
  moreover have "fs_get (w_fs w1) l = Some (FileNode c)" using assms(3) 2 by simp
  ultimately show ?thesis using 2(3) by (metis files_keptD)
qed


definition demo_chapter :: chapter_row where
  "demo_chapter = \<lparr>c_id = 5, c_media = 7, c_external_id = ''..'', c_title = None, c_number = None,
     c_uploaded_at = None, c_source_order = Some 0, c_first_seen_at = Some 1, c_scanlator = []\<rparr>"

definition demo_title :: medium where
  "demo_title = \<lparr>m_id = 7, m_extension_id = Some 3, m_extension_name = ''S'', m_external_id = ''x'',
     m_content_type = ''manga'', m_title = ''T'', m_cover_path = None, m_cover_local_path = None,
     m_description = None, m_status = None, m_author = None, m_artist = None, m_extension_removed_at = None,
     m_added_at = Some 1, m_last_viewed_at = None, m_details_fetched_at = None, m_chapters_synced_at = None,
     m_cover_override = None, m_content_block_rank = None, m_search_failed_at = None\<rparr>"

definition demo_extension :: extension where
  "demo_extension = extension_created \<lparr>ep_repository = 1, ep_package = ''pkg'', ep_name = ''S'', ep_version = ''1'',
     ep_content_type = ''manga'', ep_lang = ''en'', ep_icon_url = None, ep_apk_url = [], ep_jar_url = None,
     ep_is_nsfw = False\<rparr> 3"

definition demo_dl_world :: dl_world where
  "demo_dl_world = \<lparr>
     w_db = empty_db\<lparr>chapters := [demo_chapter, demo_chapter\<lparr>c_id := 6, c_external_id := ''b'', c_number := Some 2\<rparr>],
                     media := [demo_title], extensions := [demo_extension]\<rparr>,
     w_now = 0, w_faults = [],
     w_fs = [(location ''/dl/manga/pkg/U/Chapter 1/001.jpg'', FileNode (Bytes ''p'')), (location ''/keep'', FileNode (Bytes ''k''))],
     dl_media_dir = ''/m'', dl_downloads_dir = ''/dl'', dl_image_format = ''loose'', dl_paused = False, dl_woken = False,
     dl_running = [], dl_cancelled = [], dl_next_ctx = 0, dl_cwd = ''/''\<rparr>"

theorem discard_keeps_other_files_witness:
  "fs_get (w_fs (snd (discard_partial 6 demo_dl_world))) (location ''/dl/manga/pkg/U/Chapter 1/001.jpg'')
     = Some (FileNode (Bytes ''p''))"
proof -
  let ?dctx = "\<lparr>dc_chapter_id = 6, dc_source_chapter_id = ''b'', dc_chapter_title = None, dc_chapter_number = Some 2,
      dc_source_entry_id = ''x'', dc_library_title = ''T'', dc_content_type = ''manga'', dc_package_name = ''pkg''\<rparr>"
  have 1: "dl_downloads_dir demo_dl_world \<noteq> []" by code_simp
  have 2: "download_context_of (w_db demo_dl_world) 6 = Some ?dctx" by code_simp
  have 3: "fs_get (w_fs demo_dl_world) (location ''/dl/manga/pkg/U/Chapter 1/001.jpg'') = Some (FileNode (Bytes ''p''))"
    by code_simp
  have d: "build_chapter_dir (dl_downloads_dir demo_dl_world) ?dctx = ''/dl/manga/pkg/T/Chapter 2''" by code_simp
  have 4: "\<not> inside (location ''/dl/manga/pkg/U/Chapter 1/001.jpg'') (location ''/dl/manga/pkg/T/Chapter 2'')"
    "\<not> chapter_region ''/dl/manga/pkg/T/Chapter 2'' (location ''/dl/manga/pkg/U/Chapter 1/001.jpg'')"
    by code_simp+
  show ?thesis by (rule discard_keeps_other_files [OF 1 2 3, unfolded d, OF 4])
qed

section \<open>An id that is a double dot\<close>

lemma location_join_dotdot:
  assumes "d \<noteq> []" "ns \<noteq> []" "list_all name_ok ns"
  shows "location (path_join (d # ns @ [''..''])) = (rooted d, snd (location d) @ butlast ns)"
proof -
  obtain ms m where ns: "ns = ms @ [m]" using assms(2) by (cases ns rule: rev_cases) auto
  have m: "m \<noteq> ''..''" using assms(3) ns by (simp add: name_ok_def)
  have "split_on (CHR ''/'') (join ''/'' (ns @ [''..''])) = ns @ [''..'']"
    using names_no_slash [OF assms(3)] by (intro split_on_join) auto
  then have "clean_stack (rooted d) (d @ CHR ''/'' # join ''/'' (ns @ [''..''])) = rev ms @ clean_stack (rooted d) d"
    using assms(3) m ns clean_step_dotdot [OF m]
    by (simp add: clean_stack_append fold_clean_names clean_step_name)
  moreover have "location (path_join (d # ns @ [''..''])) = location (d @ CHR ''/'' # join ''/'' (ns @ [''..'']))"
    using assms(1) by (simp add: path_join_def join_Cons)
  moreover have "location (d @ CHR ''/'' # t) = (rooted d, rev (clean_stack (rooted d) (d @ CHR ''/'' # t)))" for t
    using assms(1) by (simp add: location_def rooted_append)
  ultimately show ?thesis using ns by (simp add: location_def [of d])
qed

lemma remove_stays_missing:
  "fs_get fs l = None \<Longrightarrow> fs_get (snd (os_remove p fs)) l = None"
  by (auto simp: os_remove_def Let_def split: option.splits node.splits)

lemma keeps_missing_remove [keeps_intros]:
  "keeps (\<lambda>w :: 'z fs_world_scheme. fs_get (w_fs w) l = None) (fs_call (os_remove p))"
  using remove_stays_missing by (intro keeps_fs_call)

lemma keeps_missing_loop [keeps_intros]:
  "keeps (\<lambda>w :: 'z dl_world_scheme. fs_get (w_fs w) l = None) (remove_empty_dirs_loop fuel dir)"
proof (induction fuel arbitrary: dir)
  case (Suc fuel)
  then show ?case by (auto simp: Let_def split: prod.split sum.split intro!: keeps_intros)
qed (simp add: keeps_ret)

lemma clean_not_dot:
  assumes "path_clean p = p" "snd (location p) \<noteq> []"
  shows "\<not> ends_with_dot p"
proof
  assume dot: "ends_with_dot p"
  obtain cs c where cs: "snd (location p) = cs @ [c]" using assms(2) by (cases "snd (location p)" rule: rev_cases) auto
  have p: "p = path_of (rooted p, cs @ [c])"
  proof -
    have "location p = (rooted p, cs @ [c])" using cs by (simp add: prod_eq_iff location_fst)
    then show ?thesis using assms(1) by (simp add: path_clean_def)
  qed
  have ok: "elem_ok (rooted p) c" using stack_ok_location [of p] cs by simp
  then have c: "c \<noteq> ''.''" "CHR ''/'' \<notin> set c" by (simp_all add: elem_ok_def)
  have "p \<noteq> ''.''"
  proof
    assume "p = ''.''"
    then have "location p = (False, [])" by (simp only:) code_simp
    then show False using assms(2) by simp
  qed
  then obtain t where t: "p = t @ CHR ''/'' # ''.''" using dot by (auto simp: ends_with_dot_def has_suffix_iff)
  then have "cut_last p (CHR ''/'') = Some (t, ''.'')" by (subst cut_last_Some) simp
  moreover have "cut_last p (CHR ''/'') = None \<or> (\<exists>u. cut_last p (CHR ''/'') = Some (u, c))"
  proof (cases "cs = []")
    case True
    then have "p = (if rooted p then CHR ''/'' # c else c)" using p by (simp add: path_of_def split: if_splits)
    then show ?thesis using c(2) cut_last_Some [of p "CHR ''/''" "[]" c] cut_last_None [of c "CHR ''/''"]
      by (cases "rooted p") auto
  next
    case False
    then obtain u where "p = u @ CHR ''/'' # c"
      using p join_snoc [OF False, of c] by (cases "rooted p") (auto simp: path_of_def)
    then show ?thesis using c(2) cut_last_Some [of p "CHR ''/''" u c] by blast
  qed
  ultimately show False using c(1) by auto
qed

lemma discard_dir_clears:
  fixes w :: "'z dl_world_scheme"
  assumes "fault_free w" "path_clean dir = dir" "snd (location dir) \<noteq> []" "inside (location dir) l"
  shows "fs_get (w_fs (snd (discard_dir chap dir w))) l = None"
proof -
  define rest :: "('z dl_world_scheme, unit) act" where "rest =
      seq (ignore (fs_call (os_remove (dir @ ''.cbz'')))) (\<lambda>_.
      seq (ignore (fs_call (os_remove (dir @ ''.cbz.part'')))) (\<lambda>_.
      seq (remove_empty_dirs (path_dir dir)) (\<lambda>_.
      seq (ignore (db_call (q_delete_manga_pages chap))) (\<lambda>_.
      seq (ignore (db_call (q_delete_novel_chapter_content chap))) (\<lambda>_.
      ignore (db_call (q_delete_anime_episode_stream chap)))))))"
  have "dir \<noteq> []" using path_clean_not_Nil [of dir] assms(2) by simp
  then have "discard_dir chap dir w = rest (w\<lparr>w_fs := fs_drop (inside (location dir)) (w_fs w)\<rparr>)"
    using assms(1) clean_not_dot [OF assms(2,3)]
    by (simp add: discard_dir_def rest_def seq_def ignore_def fs_call_free os_remove_all_def)
  moreover have "keeps (\<lambda>x. fs_get (w_fs x) l = None) rest"
    unfolding rest_def remove_empty_dirs_def by (intro keeps_intros)
  ultimately show ?thesis using assms(4) by (simp add: keeps_def)
qed

lemma discard_partial_free:
  "fault_free w \<Longrightarrow> download_context_of (w_db w) chap = Some dctx \<Longrightarrow>
    discard_partial chap w = discard_dir chap (build_chapter_dir (dl_downloads_dir w) dctx) w"
  by (simp add: discard_partial_def discard_dir_def seq_def attempt_def db_call_free
      q_get_chapter_download_context_def select_one_def chapter_dir_def gets_def)

text \<open>
  Of a source that lists a chapter without title and number under the id "..", one failed
  download removes every file downloaded from that source: the chapter's folder is then the
  extension's folder, and the clean-up removes all of it.
\<close>

theorem dotdot_chapter_id_discards_source:
  fixes w :: "'z dl_world_scheme"
  assumes "fault_free w" "dl_downloads_dir w \<noteq> []"
    "download_context_of (w_db w) chap = Some dctx"
    "dc_chapter_title dctx = None" "dc_chapter_number dctx = None" "dc_source_chapter_id dctx = ''..''"
    "list_all name_ok (title_segments dctx)"
    "inside (rooted (dl_downloads_dir w), snd (location (dl_downloads_dir w)) @
       [content_type_dir (dc_content_type dctx), extension_folder_name (dc_package_name dctx)]) l"
  shows "fs_get (w_fs (snd (discard_partial chap w))) l = None"
proof -
  let ?dd = "dl_downloads_dir w" and ?dir = "build_chapter_dir (dl_downloads_dir w) dctx"
  have seg: "chapter_segment dctx = ''..''"
  proof -
    have "safe_segment ''..'' = ''..''" by code_simp
    then show ?thesis using assms(4-6) by (simp add: chapter_segment_def chapter_folder_name_def Let_def)
  qed
  have loc: "location ?dir = (rooted ?dd, snd (location ?dd) @
      [content_type_dir (dc_content_type dctx), extension_folder_name (dc_package_name dctx)])"
    unfolding build_chapter_dir_segments seg
    using location_join_dotdot [OF assms(2) _ assms(7)] by (simp add: title_segments_def)
  have "path_clean ?dir = ?dir" unfolding build_chapter_dir_segments by (rule path_join_names_clean [OF assms(2)])
  have "inside (location ?dir) l" using assms(8) by (simp add: loc)
  moreover have "discard_partial chap w = discard_dir chap ?dir w"
    using assms(1,3) by (rule discard_partial_free)
  ultimately show ?thesis
    using discard_dir_clears [OF assms(1) \<open>path_clean ?dir = ?dir\<close>, of l chap] loc by simp
qed

theorem dotdot_chapter_id_discards_source_witness:
  "fs_get (w_fs (snd (discard_partial 5 demo_dl_world))) (location ''/dl/manga/pkg/U/Chapter 1/001.jpg'') = None"
proof -
  let ?dctx = "\<lparr>dc_chapter_id = 5, dc_source_chapter_id = ''..'', dc_chapter_title = None, dc_chapter_number = None,
      dc_source_entry_id = ''x'', dc_library_title = ''T'', dc_content_type = ''manga'', dc_package_name = ''pkg''\<rparr>"
  have 1: "fault_free demo_dl_world" "dl_downloads_dir demo_dl_world \<noteq> []" by code_simp+
  have 2: "download_context_of (w_db demo_dl_world) 5 = Some ?dctx" by code_simp
  have 3: "list_all name_ok (title_segments ?dctx)" by code_simp
  have 4: "inside (rooted (dl_downloads_dir demo_dl_world), snd (location (dl_downloads_dir demo_dl_world)) @
       [content_type_dir (dc_content_type ?dctx), extension_folder_name (dc_package_name ?dctx)])
       (location ''/dl/manga/pkg/U/Chapter 1/001.jpg'')" by code_simp
  show ?thesis using dotdot_chapter_id_discards_source [OF 1 2 _ _ _ 3 4] by simp
qed

end
