(* ===== verification/JobFrame.thy ===== *)
theory JobFrame
  imports DownloadQueue DownloadSafety
begin

text \<open>
  What running one job may change. The locale \<open>job_steps\<close> is the contract between a job and whoever
  reasons about the rest of the state: an invariant that survives a change of the files, a consumed
  outcome of the schedule, and each of the statements a job executes, is kept by the whole job,
  whichever of the three content types it downloads. It is interpreted on the queue's other rows, on
  the manager's control state, and on the tables a job only reads.
\<close>

section \<open>The statements of a job\<close>

inductive job_write :: "int \<Rightarrow> unit stmt \<Rightarrow> bool" for job where
  jw_progress: "job_write job (q_update_download_progress Downloading p job)"
| jw_page: "job_write job (q_upsert_manga_page chap n path)"
| jw_novel: "job_write job (q_upsert_novel_chapter_content chap path)"
| jw_stream: "job_write job (q_upsert_anime_episode_stream chap url path)"

inductive_cases job_writeE: "job_write job q"

locale job_steps =
  fixes I :: "'z dl_world_scheme \<Rightarrow> bool" and job :: int
  assumes ext_step: "I w \<Longrightarrow> fault_free w \<longrightarrow> ft = [] \<Longrightarrow> I (w\<lparr>w_faults := ft\<rparr>)"
    and fs_step: "I w \<Longrightarrow> fault_free w \<longrightarrow> ft = [] \<Longrightarrow> I (w\<lparr>w_faults := ft, w_fs := fs\<rparr>)"
    and write_step: "I w \<Longrightarrow> fault_free w \<longrightarrow> ft = [] \<Longrightarrow> job_write job q \<Longrightarrow>
          I (w\<lparr>w_faults := ft, w_db := snd (q (w_now w) (w_db w))\<rparr>)"
begin

lemma keeps_ext: "keeps I (ext_call r)"
proof (rule keepsI)
  fix w assume w: "I w"
  obtain x w' where c: "ext_call r w = (x, w')" by fastforce
  then have "I w'" using w ext_step by (cases rule: ext_call_cases) auto
  with c show "I (snd (ext_call r w))" by simp
qed

lemma keeps_asks: "keeps I (ask r)" "keeps I sandbox_ensure"
  unfolding ask_def sandbox_ensure_def by (rule keeps_ext)+

lemma keeps_fs: "keeps I (fs_call f)"
proof (rule keepsI)
  fix w assume w: "I w"
  obtain x w' where c: "fs_call f w = (x, w')" by fastforce
  then have "I w'" using w fs_step ext_step by (cases rule: fs_call_cases) auto
  with c show "I (snd (fs_call f w))" by simp
qed

lemma keeps_read_only:
  assumes q: "\<And>now d. snd (q now d) = d"
  shows "keeps I (db_call q)"
proof (rule keepsI)
  fix w assume w: "I w"
  obtain x w' where c: "db_call q w = (x, w')" by fastforce
  then have "I w'"
  proof (cases rule: db_call_cases)
    case (2 ft d)
    then have "d = w_db w" using q [of "w_now w" "w_db w"] by simp
    then have "w' = w\<lparr>w_faults := ft\<rparr>" using 2(2) by simp
    then show ?thesis using ext_step [OF w] 2(3) by simp
  qed (use w ext_step in auto)
  with c show "I (snd (db_call q w))" by simp
qed

lemma keeps_select: "keeps I (db_call (select_all f))" "keeps I (db_call (select_one g))"
  by (rule keeps_read_only, simp add: select_all_def select_one_def split: option.split)+

lemma keeps_write: "job_write job q \<Longrightarrow> keeps I (db_call q)"
proof (rule keepsI)
  fix w assume q: "job_write job q" and w: "I w"
  obtain x w' where c: "db_call q w = (x, w')" by fastforce
  then have "I w'"
  proof (cases rule: db_call_cases)
    case (2 ft d)
    then show ?thesis using write_step [OF w _ q, of ft] by simp
  qed (use w ext_step in auto)
  with c show "I (snd (db_call q w))" by simp
qed

lemma keeps_progress: "keeps I (set_progress job p)"
  unfolding set_progress_def by (intro keeps_write jw_progress)

lemma keeps_context: "keeps I (db_call (q_get_chapter_download_context c))"
  unfolding q_get_chapter_download_context_def by (rule keeps_select)

lemma keeps_chapter_dir: "keeps I (chapter_dir dctx)"
  unfolding chapter_dir_def by (rule keeps_gets)

lemmas step_intros = keeps_intros keeps_ext keeps_asks keeps_fs keeps_progress keeps_context keeps_chapter_dir
  keeps_write [OF jw_page] keeps_write [OF jw_novel] keeps_write [OF jw_stream]

lemma keeps_manga_pages_loop: "keeps I (manga_pages_loop src dctx job dir n i urls)"
  by (induction urls arbitrary: i) (auto simp: Let_def intro!: step_intros)

lemma keeps_cbz_entries_loop: "keeps I (cbz_entries_loop src dctx job tmp n i urls)"
  by (induction urls arbitrary: i) (auto split: sum.split intro!: step_intros)

lemma keeps_record_cbz_pages: "keeps I (record_cbz_pages c p i es)"
  by (induction es arbitrary: i) (auto intro!: step_intros)

lemma keeps_close_archive: "keeps I (close_archive tmp es)"
  unfolding close_archive_def by (auto split: sum.split intro!: step_intros)

lemma keeps_download_manga: "keeps I (download_manga src job dctx)"
  unfolding download_manga_def download_manga_cbz_def
  by (auto simp: Let_def intro!: step_intros keeps_manga_pages_loop keeps_cbz_entries_loop
      keeps_record_cbz_pages keeps_close_archive)

lemma keeps_download_novel: "keeps I (download_novel src job dctx)"
  unfolding download_novel_def by (auto simp: Let_def intro!: step_intros)

lemma keeps_run_ffmpeg: "keeps I (run_ffmpeg env args)"
proof (rule keepsI)
  fix w assume w: "I w"
  obtain f w' where f: "next_fault w = (f, w')" by (cases "next_fault w")
  then obtain ft where ft: "w' = w\<lparr>w_faults := ft\<rparr>" "fault_free w \<longrightarrow> f = None \<and> ft = []"
    by (rule next_fault_cases)
  show "I (snd (run_ffmpeg env args w))"
    using f ft w ext_step [OF w, of ft] fs_step [OF w, of ft]
    by (auto simp: run_ffmpeg_def split: option.split prod.split)
qed

lemma keeps_has_output: "keeps I (has_output p)"
  unfolding has_output_def by (intro step_intros)

lemma keeps_ctx_err: "keeps I (ctx_err ctx)"
  unfolding ctx_err_def by (rule keeps_gets)

lemmas av_intros = step_intros keeps_run_ffmpeg keeps_has_output keeps_ctx_err

lemma keeps_ffmpeg_passes: "keeps I (ffmpeg_passes env ctx inputs output i outs e out)"
  by (induction outs arbitrary: i e out) (auto simp: Let_def split: prod.split intro!: av_intros)

lemma keeps_append_raw: "keeps I (append_raw p data)"
  unfolding append_raw_def by (rule keeps_fs)

lemma keeps_fetch_segments: "keeps I (fetch_segments env ctx job hs raw n i segs)"
  by (induction segs arbitrary: i) (auto split: prod.split intro!: av_intros keeps_append_raw)

lemma keeps_mux_passes: "keeps I (mux_passes env ctx common output outs)"
  by (induction outs) (auto split: prod.split intro!: av_intros)

lemma keeps_mux_via_segments: "keeps I (mux_via_segments env ctx job url headers output)"
  unfolding mux_via_segments_def
  by (auto simp: Let_def split: prod.split sum.split bool.split
      intro!: av_intros keeps_fetch_segments keeps_mux_passes)

lemma keeps_download_anime: "keeps I (download_anime src env ctx job dctx)"
  unfolding download_anime_def
  by (auto simp: Let_def split: prod.split sum.split option.split
      intro!: av_intros keeps_ffmpeg_passes keeps_mux_via_segments)

theorem keeps_run_job: "keeps I (run_job src env ctx job chap)"
  unfolding run_job_def
  by (auto intro!: step_intros keeps_download_manga keeps_download_novel keeps_download_anime)

end

section \<open>Instances\<close>

text \<open>The tables a job does not write, its own row of the queue apart.\<close>

definition other_downloads :: "int \<Rightarrow> download list \<Rightarrow> download list" where
  "other_downloads job rows = filter (\<lambda>r. d_id r \<noteq> job) rows"

definition read_only :: "db \<Rightarrow> chapter_row list \<times> medium list \<times> extension list" where
  "read_only d = (chapters d, media d, extensions d)"

lemma job_write_tables:
  assumes "job_write job q"
  shows "other_downloads job (downloads (snd (q now d))) = other_downloads job (downloads d)"
    "map d_id (downloads (snd (q now d))) = map d_id (downloads d)"
    "read_only (snd (q now d)) = read_only d"
proof -
  have u: "filter (\<lambda>r. d_id r \<noteq> job) (update_where (\<lambda>r. d_id r = job) f rows) = filter (\<lambda>r. d_id r \<noteq> job) rows"
    if "\<And>r. d_id (f r) = d_id r" for f rows
    using that by (induction rows) (auto simp: update_where_def)
  have m: "map d_id (update_where P f rows) = map d_id rows" if "\<And>r. d_id (f r) = d_id r" for P f rows
    using that by (simp add: map_update_where)
  show "other_downloads job (downloads (snd (q now d))) = other_downloads job (downloads d)"
    using assms by cases (simp_all add: other_downloads_def q_update_download_progress_def exec_def update_download_def u
        q_upsert_manga_page_def q_upsert_novel_chapter_content_def q_upsert_anime_episode_stream_def with_fk_def)
  show "map d_id (downloads (snd (q now d))) = map d_id (downloads d)"
    using assms by cases (simp_all add: q_update_download_progress_def exec_def update_download_def m
        q_upsert_manga_page_def q_upsert_novel_chapter_content_def q_upsert_anime_episode_stream_def with_fk_def)
  show "read_only (snd (q now d)) = read_only d"
    using assms by cases (simp_all add: read_only_def q_update_download_progress_def exec_def update_download_def
        q_upsert_manga_page_def q_upsert_novel_chapter_content_def q_upsert_anime_episode_stream_def with_fk_def)
qed

interpretation queue_rows: job_steps
    "\<lambda>w. other_downloads job (downloads (w_db w)) = rows \<and> map d_id (downloads (w_db w)) = ids" job
  for rows ids job
  by unfold_locales (simp_all add: job_write_tables)

interpretation tables_read: job_steps "\<lambda>w. read_only (w_db w) = t" job for t job
  by unfold_locales (simp_all add: job_write_tables)

definition control :: "'z dl_world_scheme \<Rightarrow> (int \<times> nat) list \<times> nat list \<times> nat \<times> bool \<times> string \<times> int" where
  "control w = (dl_running w, dl_cancelled w, dl_next_ctx w, dl_paused w, dl_downloads_dir w, w_now w)"

interpretation control_state: job_steps "\<lambda>w. control w = c" job for c job
  by unfold_locales (simp_all add: control_def)

interpretation no_faults: job_steps "\<lambda>w. fault_free w" job for job
  by unfold_locales simp_all

end
