(* ===== verification/QueueOrder.thy ===== *)
theory QueueOrder
  imports DownloadQueue
begin

text \<open>
  The order of the download queue: a new download goes to the end, and \<open>Reorder\<close> puts a download at
  the requested place, clamped to the queue, with the others in their old order.
\<close>

definition queue_ids :: "db \<Rightarrow> int list" where
  "queue_ids d = map d_id (order_by position_le (queued d))"

section \<open>Enqueueing\<close>

lemma insert_row_before_last:
  "le y x \<Longrightarrow> insert_row le y (zs @ [x]) = insert_row le y zs @ [x]"
  by (induction zs) auto

lemma order_by_snoc:
  assumes "\<And>y. y \<in> set xs \<Longrightarrow> le y x"
  shows "order_by le (xs @ [x]) = order_by le xs @ [x]"
  using assms by (induction xs) (auto simp: order_by_def insert_row_before_last)

lemma map_filter_set: "p \<in> set (List.map_filter f xs) \<longleftrightarrow> (\<exists>x \<in> set xs. f x = Some p)"
  by (induction xs) (auto simp: List.map_filter_def split: option.splits)

lemma max_queued_ge:
  assumes "r \<in> set (queued d)" "d_position r = Some p"
  shows "\<exists>m. max_queued_position d = Some m \<and> p \<le> m"
proof -
  have "p \<in> set (List.map_filter d_position (queued d))"
    using assms by (auto simp: map_filter_set)
  then show ?thesis
    using fold_max_in fold_max_ge by (auto simp: max_queued_position_def split: list.split)
qed

lemma queued_append [simp]:
  "queued (d\<lparr>downloads := downloads d @ rs\<rparr>) = queued d @ filter (\<lambda>r. d_status r = Queued) rs"
  by (simp add: queued_def)

text \<open>
  A chapter that is enqueued goes to the end of the queue: the workers take every download that
  was queued before it first, in their old order, whatever positions those have (also none).
\<close>

theorem enqueue_goes_last:
  assumes "has_chapter chap d" "q_enqueue_download chap now d = (r, d')"
  shows "\<exists>row. r = Inr row \<and> d_chapter row = chap \<and> d_status row = Queued \<and>
           d_id row \<notin> set (map d_id (downloads d)) \<and> queue_ids d' = queue_ids d @ [d_id row]"
proof -
  let ?row = "\<lparr>d_id = next_id (map d_id (downloads d)), d_chapter = chap, d_status = Queued,
                d_progress = 0, d_bytes = None, d_bytes_per_sec = None,
                d_position = Some ((case max_queued_position d of None \<Rightarrow> 0 | Some p \<Rightarrow> p) + 1),
                d_error = None, d_created_at = now, d_completed_at = None\<rparr>"
  have r: "r = Inr ?row" "d' = d\<lparr>downloads := downloads d @ [?row]\<rparr>"
    using assms by (auto simp: q_enqueue_download_def with_fk_def has_chapter_def Let_def)
  have le: "position_le y ?row" if "y \<in> set (queued d)" for y
    using max_queued_ge [OF that] by (auto simp: position_le_def split: option.split)
  have "order_by position_le (queued d') = order_by position_le (queued d) @ [?row]"
    unfolding r(2) using order_by_snoc [of "queued d" position_le ?row] le by simp
  then show ?thesis using r(1) next_id_notin [of "map d_id (downloads d)"] by (simp add: queue_ids_def)
qed

definition demo_download :: "int \<Rightarrow> int \<Rightarrow> dl_status \<Rightarrow> int option \<Rightarrow> download" where
  "demo_download i c st pos = \<lparr>d_id = i, d_chapter = c, d_status = st, d_progress = 0, d_bytes = None,
     d_bytes_per_sec = None, d_position = pos, d_error = None, d_created_at = 0, d_completed_at = None\<rparr>"

definition demo_chapter_row :: "int \<Rightarrow> chapter_row" where
  "demo_chapter_row i = \<lparr>c_id = i, c_media = 1, c_external_id = nat_digits (nat i), c_title = None, c_number = None,
     c_uploaded_at = None, c_source_order = None, c_first_seen_at = None, c_scanlator = []\<rparr>"

definition demo_queue_db :: db where
  "demo_queue_db = empty_db\<lparr>chapters := map demo_chapter_row [1, 2, 3, 4],
     downloads := [demo_download 10 1 Queued (Some 3), demo_download 11 2 Queued (Some 7),
                   demo_download 12 3 Queued None, demo_download 13 4 Done (Some 9)]\<rparr>"

theorem enqueue_goes_last_witness:
  "queue_ids (snd (q_enqueue_download 4 0 demo_queue_db)) = [12, 10, 11, 14]"
proof -
  have "has_chapter 4 demo_queue_db" by code_simp
  moreover obtain r d' where e: "q_enqueue_download 4 0 demo_queue_db = (r, d')" by fastforce
  ultimately obtain row where "r = Inr row" "queue_ids d' = queue_ids demo_queue_db @ [d_id row]"
    using enqueue_goes_last [of 4 demo_queue_db 0 r d'] by auto
  moreover have "queue_ids demo_queue_db = [12, 10, 11]" by code_simp
  moreover have "map_sum (\<lambda>_. 0) d_id (fst (q_enqueue_download 4 0 demo_queue_db)) = (Inr 14 :: int + int)" by code_simp
  ultimately show ?thesis using e by simp
qed

section \<open>Reordering\<close>

lemma q_set_position:
  "q_set_download_position p i now d = (Inr (), update_download (\<lambda>r. d_id r = i) (\<lambda>r. r\<lparr>d_position := p\<rparr>) d)"
  by (simp add: q_set_download_position_def exec_def)

text \<open>The rows after a run over a list of ids: each gets its place in the list, counted from the start.\<close>

fun reposition :: "int \<Rightarrow> int list \<Rightarrow> download list \<Rightarrow> download list" where
  "reposition i [] rows = rows"
| "reposition i (d # ds) rows =
     reposition (i + 1) ds (update_where (\<lambda>r. d_id r = d) (\<lambda>r. r\<lparr>d_position := Some (i + 1)\<rparr>) rows)"

lemma set_positions_free:
  assumes "fault_free w"
  shows "set_positions i ids w = (Inr (), w\<lparr>w_db := (w_db w)\<lparr>downloads := reposition i ids (downloads (w_db w))\<rparr>\<rparr>)"
  using assms
proof (induction ids arbitrary: i w)
  case (Cons d ds)
  then show ?case
    by (simp add: seq_def wrap_def db_call_free q_set_position update_download_def)
qed (simp add: ret_def)

definition index_position :: "int \<Rightarrow> int list \<Rightarrow> int \<Rightarrow> int \<Rightarrow> bool" where
  "index_position i ids d p \<longleftrightarrow> (\<exists>k < length ids. ids ! k = d \<and> p = i + 1 + int k)"

lemma reposition_rows:
  assumes "distinct ids"
  shows "map (\<lambda>r. r\<lparr>d_position := None\<rparr>) (reposition i ids rows) = map (\<lambda>r. r\<lparr>d_position := None\<rparr>) rows \<and>
         (\<forall>r \<in> set (reposition i ids rows).
            (d_id r \<in> set ids \<longrightarrow> (\<exists>p. d_position r = Some p \<and> index_position i ids (d_id r) p)) \<and>
            (d_id r \<notin> set ids \<longrightarrow> r \<in> set rows))"
  using assms
proof (induction ids arbitrary: i rows)
  case (Cons d ds)
  let ?rows = "update_where (\<lambda>r. d_id r = d) (\<lambda>r. r\<lparr>d_position := Some (i + 1)\<rparr>) rows"
  have IH: "map (\<lambda>r. r\<lparr>d_position := None\<rparr>) (reposition (i + 1) ds ?rows) = map (\<lambda>r. r\<lparr>d_position := None\<rparr>) ?rows"
    "\<And>r. r \<in> set (reposition (i + 1) ds ?rows) \<Longrightarrow> d_id r \<in> set ds \<Longrightarrow>
        \<exists>p. d_position r = Some p \<and> index_position (i + 1) ds (d_id r) p"
    "\<And>r. r \<in> set (reposition (i + 1) ds ?rows) \<Longrightarrow> d_id r \<notin> set ds \<Longrightarrow> r \<in> set ?rows"
    using Cons.IH [of "i + 1" ?rows] Cons.prems by auto
  have 1: "map (\<lambda>r. r\<lparr>d_position := None\<rparr>) ?rows = map (\<lambda>r. r\<lparr>d_position := None\<rparr>) rows"
    by (rule map_update_where) simp
  have shift: "index_position (i + 1) ds x p \<Longrightarrow> index_position i (d # ds) x p" for x p
    unfolding index_position_def by (metis Suc_less_eq add.assoc add.commute length_Cons nth_Cons_Suc of_nat_Suc)
  have here: "index_position i (d # ds) d (i + 1)" by (auto simp: index_position_def intro: exI [of _ 0])
  have "(d_id r \<in> set (d # ds) \<longrightarrow> (\<exists>p. d_position r = Some p \<and> index_position i (d # ds) (d_id r) p)) \<and>
        (d_id r \<notin> set (d # ds) \<longrightarrow> r \<in> set rows)"
    if r: "r \<in> set (reposition (i + 1) ds ?rows)" for r
  proof (cases "d_id r \<in> set ds")
    case True
    then show ?thesis using IH(2) [OF r] shift by auto
  next
    case False
    then have "r \<in> set ?rows" using IH(3) r by blast
    then show ?thesis using False here by (auto dest!: set_update_where)
  qed
  then show ?case using IH(1) 1 by simp
qed simp

lemma map_none_same:
  fixes xs ys :: "download list"
  assumes a: "map (\<lambda>r. r\<lparr>d_position := None\<rparr>) xs = map (\<lambda>r. r\<lparr>d_position := None\<rparr>) ys"
  shows "map d_id xs = map d_id ys \<and> map d_status xs = map d_status ys"
proof -
  have "map f xs = map f ys" if "\<And>r. f (r\<lparr>d_position := None\<rparr>) = f r" for f :: "download \<Rightarrow> 'x"
    using arg_cong [OF a, of "map f"] that by (simp add: comp_def)
  from this [of d_id] this [of d_status] show ?thesis by simp
qed

text \<open>A list sorted by position whose positions are the places in a list of ids has these ids.\<close>

lemma ids_by_index:
  assumes "distinct ids" "sorted_wrt position_le rows" "distinct (map d_id rows)" "set (map d_id rows) = set ids"
    "\<And>r. r \<in> set rows \<Longrightarrow> \<exists>p. d_position r = Some p \<and> index_position 0 ids (d_id r) p"
  shows "map d_id rows = ids"
proof -
  define f where "f x = (THE k. k < length ids \<and> ids ! k = x)" for x
  have idx: "f (ids ! k) = k" if "k < length ids" for k
    unfolding f_def using that assms(1) by (auto intro!: the_equality simp: nth_eq_iff_index_eq)
  have pos: "d_position r = Some (1 + int (f (d_id r)))" if r: "r \<in> set rows" for r
  proof -
    obtain k where k: "k < length ids" "ids ! k = d_id r" "d_position r = Some (0 + 1 + int k)"
      using assms(5) [OF r] by (auto simp: index_position_def)
    then show ?thesis using idx [OF k(1)] by simp
  qed
  have "sorted_wrt (\<lambda>a b. f (d_id a) \<le> f (d_id b)) rows"
    using assms(2) by (rule sorted_wrt_mono_rel [rotated]) (auto simp: position_le_def pos)
  then have s: "sorted (map f (map d_id rows))" by (simp add: sorted_map)
  have inj: "inj_on f (set ids)"
  proof (rule inj_onI)
    fix x y assume "x \<in> set ids" "y \<in> set ids" "f x = f y"
    then show "x = y" using idx by (metis in_set_conv_nth)
  qed
  have "inj_on f (set (map d_id rows))" by (subst assms(4)) (rule inj)
  then have "distinct (map f (map d_id rows))" using assms(3) by (simp only: distinct_map)
  with s have "sorted_list_of_set (set (map f (map d_id rows))) = map f (map d_id rows)"
    by (rule sorted_list_of_set.idem_if_sorted_distinct)
  moreover have m: "map f ids = [0 ..< length ids]"
    by (rule nth_equalityI) (auto simp: idx)
  then have "sorted_list_of_set (set (map f ids)) = map f ids"
    by (intro sorted_list_of_set.idem_if_sorted_distinct) simp_all
  moreover have "set (map f (map d_id rows)) = set (map f ids)"
    unfolding set_map [of f] by (rule arg_cong [OF assms(4)])
  ultimately have e: "map f (map d_id rows) = map f ids" by simp
  have "inj_on f (set (map d_id rows) \<union> set ids)" unfolding assms(4) using inj by simp
  with e show ?thesis using inj_on_map_eq_map by blast
qed

lemma reordered_facts:
  assumes "distinct queue" "target \<in> set queue"
  shows "distinct (reordered queue target p)" "set (reordered queue target p) = set queue"
proof -
  let ?rest = "filter (\<lambda>d. d \<noteq> target) queue"
  define k where "k = nat (clamp_position p (int (length ?rest)) - 1)"
  have r: "reordered queue target p = take k ?rest @ target # drop k ?rest"
    by (simp add: reordered_def k_def Let_def)
  have d: "distinct (take k ?rest @ drop k ?rest)" "set (take k ?rest @ drop k ?rest) = set queue - {target}"
    using assms(1) by auto
  obtain a b where ab: "take k ?rest = a" "drop k ?rest = b" by blast
  have t: "target \<notin> set (a @ b)" "distinct (a @ b)" using d unfolding ab by simp_all
  show "distinct (reordered queue target p)" unfolding r ab using t by simp
  have "set (a @ target # b) = insert target (set (a @ b))" by simp
  then show "set (reordered queue target p) = set queue" unfolding r ab using d(2) assms(2) unfolding ab by auto
qed

lemma filter_remove1: "distinct xs \<Longrightarrow> filter (\<lambda>y. y \<noteq> x) xs = remove1 x xs"
  by (simp add: distinct_remove1_removeAll removeAll_filter_not_eq eq_commute [of x])

lemma reordered_moves:
  assumes "distinct queue" "target \<in> set queue"
  shows "remove1 target (reordered queue target p) = remove1 target queue"
    "length (reordered queue target p) = length queue"
    "reordered queue target p ! (nat (max 1 (min p (int (length queue)))) - 1) = target"
proof -
  let ?rest = "filter (\<lambda>d. d \<noteq> target) queue"
  define k where "k = nat (clamp_position p (int (length ?rest)) - 1)"
  have r: "reordered queue target p = take k ?rest @ target # drop k ?rest"
    by (simp add: reordered_def k_def Let_def)
  have rest: "?rest = remove1 target queue" using assms(1) by (rule filter_remove1)
  have pos: "0 < length queue" using assms(2) by (cases queue) auto
  then have len: "length ?rest = length queue - 1" "1 \<le> length queue" using assms(2) unfolding rest
    by (simp_all add: length_remove1 Suc_le_eq)
  show l: "length (reordered queue target p) = length queue" unfolding r using len by simp
  have "target \<notin> set (take k ?rest)" using set_take_subset [of k ?rest] by auto
  then show "remove1 target (reordered queue target p) = remove1 target queue"
    unfolding r by (simp add: remove1_append rest [symmetric])
  have "k = nat (max 1 (min p (int (length queue)))) - 1"
    unfolding k_def clamp_position_def Let_def len(1) using len(2) by (simp add: of_nat_diff min_def max_def nat_diff_distrib)
  moreover have "k \<le> length ?rest"
    unfolding k_def clamp_position_def Let_def by (auto simp: nat_le_iff)
  ultimately show "reordered queue target p ! (nat (max 1 (min p (int (length queue)))) - 1) = target"
    unfolding r by (simp add: nth_append)
qed

lemma same_queued:
  "map d_id xs = map d_id ys \<Longrightarrow> map d_status xs = map d_status ys \<Longrightarrow>
    map d_id (filter (\<lambda>r. d_status r = Queued) xs) = map d_id (filter (\<lambda>r. d_status r = Queued) ys)"
  for xs ys :: "download list"
proof (induction xs arbitrary: ys)
  case (Cons x xs)
  then obtain y zs where ys: "ys = y # zs" by (cases ys) auto
  then have "d_id x = d_id y" "d_status x = d_status y" using Cons.prems by simp_all
  moreover have "map d_id (filter (\<lambda>r. d_status r = Queued) xs) = map d_id (filter (\<lambda>r. d_status r = Queued) zs)"
    using Cons ys by simp
  ultimately show ?case unfolding ys by (cases "d_status y = Queued") simp_all
qed simp

text \<open>
  C27: When no database call fails, \<open>Reorder\<close> of a chapter that waits in the queue does what the user
  asked: the chapter's download is then at the requested place, counted from 1, a place before the
  first or after the last being the first or the last; without it the queue is as it was, and the
  statuses and all other columns of all downloads stay.
\<close>

theorem reorder_moves_download:
  assumes "fault_free w" "distinct (map d_id (downloads (w_db w)))"
    "find (\<lambda>r. d_chapter r = chap \<and> d_status r = Queued) (downloads (w_db w)) = Some target"
    "reorder chap p w = (r, w')"
  shows "r = Inr () \<and>
         queue_ids (w_db w') ! (nat (max 1 (min p (int (length (queue_ids (w_db w)))))) - 1) = d_id target \<and>
         length (queue_ids (w_db w')) = length (queue_ids (w_db w)) \<and>
         remove1 (d_id target) (queue_ids (w_db w')) = remove1 (d_id target) (queue_ids (w_db w)) \<and>
         map (\<lambda>r. r\<lparr>d_position := None\<rparr>) (downloads (w_db w')) = map (\<lambda>r. r\<lparr>d_position := None\<rparr>) (downloads (w_db w))"
proof -
  let ?ids = "reordered (queue_ids (w_db w)) (d_id target) p" and ?rows = "downloads (w_db w)"
  let ?rows' = "reposition 0 ?ids ?rows"
  have t: "target \<in> set (queued (w_db w))" using find_SomeD [OF assms(3)] by (simp add: queued_def)
  have q: "distinct (queue_ids (w_db w))" "set (queue_ids (w_db w)) = set (map d_id (queued (w_db w)))"
    using assms(2) by (auto simp: queue_ids_def queued_def distinct_map_filter_key simp del: map_map)
  have tq: "d_id target \<in> set (queue_ids (w_db w))" unfolding q(2) using t by simp
  have ids: "distinct ?ids" "set ?ids = set (map d_id (queued (w_db w)))"
    using reordered_facts [OF q(1), of "d_id target" p] q(2) t by auto
  have run: "r = Inr ()" "w' = w\<lparr>w_db := (w_db w)\<lparr>downloads := ?rows'\<rparr>\<rparr>"
    using assms(1,3,4) set_positions_free [OF assms(1), of 0 ?ids]
    by (simp_all add: reorder_def seq_def wrap_def db_call_free q_get_queued_download_by_chapter_def select_one_def
        q_list_queued_downloads_def select_all_def queue_ids_def)
  have rows: "map (\<lambda>r. r\<lparr>d_position := None\<rparr>) ?rows' = map (\<lambda>r. r\<lparr>d_position := None\<rparr>) ?rows"
    "\<And>r. r \<in> set ?rows' \<Longrightarrow> d_id r \<in> set ?ids \<Longrightarrow> \<exists>p. d_position r = Some p \<and> index_position 0 ?ids (d_id r) p"
    using reposition_rows [OF ids(1), of 0 ?rows] by auto
  have qd: "queued (w_db w') = filter (\<lambda>r. d_status r = Queued) ?rows'" by (simp add: run queued_def)
  have mid: "map d_id (queued (w_db w')) = map d_id (queued (w_db w))"
    unfolding qd queued_def [of "w_db w"] using map_none_same [OF rows(1)] by (intro same_queued) simp_all
  have "map d_id (order_by position_le (queued (w_db w'))) = ?ids"
  proof (rule ids_by_index [OF ids(1)])
    show "sorted_wrt position_le (order_by position_le (queued (w_db w')))"
      by (rule sorted_wrt_order_by [OF position_le_trans position_le_total])
    show "distinct (map d_id (order_by position_le (queued (w_db w'))))"
      using mid assms(2) by (simp add: queued_def distinct_map_filter_key)
    show "set (map d_id (order_by position_le (queued (w_db w')))) = set ?ids"
      using arg_cong [OF mid, of set] ids(2) by simp
    fix x assume "x \<in> set (order_by position_le (queued (w_db w')))"
    then have x: "x \<in> set (queued (w_db w'))" by simp
    then have "d_id x \<in> set (map d_id (queued (w_db w)))" unfolding mid [symmetric] by simp
    then have "d_id x \<in> set ?ids" by (simp only: ids(2))
    moreover have "x \<in> set ?rows'" using x qd by simp
    ultimately show "\<exists>p. d_position x = Some p \<and> index_position 0 ?ids (d_id x) p" using rows(2) by blast
  qed
  then have "queue_ids (w_db w') = ?ids" by (simp add: queue_ids_def)
  then show ?thesis using run rows(1) reordered_moves [OF q(1) tq, of p] by simp
qed

definition demo_queue_world :: dl_world where
  "demo_queue_world = \<lparr>w_db = demo_queue_db, w_now = 0, w_faults = [], w_fs = [], dl_media_dir = ''/m'',
     dl_downloads_dir = ''/dl'', dl_image_format = ''loose'', dl_paused = False, dl_woken = False,
     dl_running = [], dl_cancelled = [], dl_next_ctx = 0, dl_cwd = ''/''\<rparr>"

theorem reorder_moves_download_witness:
  "queue_ids (w_db (snd (reorder 3 99 demo_queue_world))) = [10, 11, 12]"
proof -
  obtain r w' where e: "reorder 3 99 demo_queue_world = (r, w')" by fastforce
  have "fault_free demo_queue_world" "distinct (map d_id (downloads (w_db demo_queue_world)))"
    "find (\<lambda>r. d_chapter r = 3 \<and> d_status r = Queued) (downloads (w_db demo_queue_world))
       = Some (demo_download 12 3 Queued None)" by code_simp+
  note moved = reorder_moves_download [OF this e]
  have q: "queue_ids (w_db demo_queue_world) = [12, 10, 11]" by code_simp
  have m: "queue_ids (w_db w') ! 2 = 12" "length (queue_ids (w_db w')) = 3" "remove1 12 (queue_ids (w_db w')) = [10, 11]"
    using moved unfolding q by (simp_all add: demo_download_def)
  then obtain a b where "queue_ids (w_db w') = [a, b, 12]" by (auto simp: numeral_3_eq_3 numeral_2_eq_2 length_Suc_conv)
  then show ?thesis using m(3) e by (auto split: if_splits)
qed

end
