(* ===== verification/FileTrees.thy ===== *)
theory FileTrees
  imports GoFs
begin

text \<open>
  Lemmas on trees of files: paths with a suffix, what is in a directory and in which order, the part of
  the file system below a directory and the calls that leave it alone.
\<close>

section \<open>Paths\<close>

lemma path_of_suffix: "path_of (rt, cs @ [n]) @ s = path_of (rt, cs @ [n @ s])"
  by (cases "cs = []") (simp_all add: path_of_def join_snoc)

lemma location_suffix:
  assumes "location p = (rt, cs @ [n])" "path_clean p = p" "name_ok n" "name_ok (n @ s)"
  shows "location (p @ s) = (rt, cs @ [n @ s])"
proof -
  have rt: "rt = rooted p" using assms(1) location_fst [of p] by simp
  then have ok: "stack_ok rt (rev (cs @ [n]))" using stack_ok_location [of p] assms(1) by simp
  have p: "p = path_of (rt, cs @ [n])" using assms(1,2) by (simp add: path_clean_def)
  have "stack_ok rt (rev (cs @ [n @ s]))"
    using ok assms(4) by (auto simp: elem_ok_def name_ok_def)
  then show ?thesis unfolding p path_of_suffix by (rule location_path_of)
qed

text \<open>A cleaned path below an absolute directory.\<close>

lemma location_join_dot:
  assumes "d \<noteq> []"
  shows "location (path_join [d, ''.'']) = location d"
proof -
  have "location (path_join [d, ''.'']) = location (d @ ''/.'')"
    using assms by (simp add: path_join_def join_Cons)
  also have "\<dots> = location d"
    using clean_stack_append [of _ d "''.''"] assms by (simp add: location_def rooted_append clean_step_def)
  finally show ?thesis .
qed

lemma join_dot_clean: "d \<noteq> [] \<Longrightarrow> path_clean (path_join (d # ns)) = path_join (d # ns)"
  by (simp add: path_join_def)

section \<open>What is in a directory\<close>

lemma string_less_eq_linear: "string_less_eq a b \<or> string_less_eq b a"
proof (induction a b rule: string_less_eq.induct)
  case (3 a s b t)
  have "ch a < ch b \<or> ch b < ch a \<or> a = b"
    by (metis ch_def linorder_neqE_nat of_char_eq_iff)
  then show ?case using 3 by auto
qed simp_all

lemma string_less_eq_trans: "string_less_eq a b \<Longrightarrow> string_less_eq b c \<Longrightarrow> string_less_eq a c"
proof (induction a b arbitrary: c rule: string_less_eq.induct)
  case (3 a s b t)
  then show ?case by (cases c) auto
qed simp_all

text \<open>A name that continues another one comes after it.\<close>

lemma string_less_eq_longer: "u \<noteq> [] \<Longrightarrow> \<not> string_less_eq (s @ u) s"
  by (induction s) (auto simp: neq_Nil_conv)

lemma set_insert_name [simp]: "set (insert_name e es) = insert e (set es)"
  by (induction es) auto

lemma set_names_sorted: "set (foldr insert_name xs []) = set xs"
  by (induction xs) auto

lemma names_sorted: "sorted_wrt (\<lambda>x y. string_less_eq (fst x) (fst y)) (foldr insert_name xs [])"
proof (induction xs)
  case (Cons x xs)
  have "sorted_wrt (\<lambda>x y. string_less_eq (fst x) (fst y)) (insert_name x es)"
    if "sorted_wrt (\<lambda>x y. string_less_eq (fst x) (fst y)) es" for es
    using that
  proof (induction es)
    case (Cons e es)
    then show ?case using string_less_eq_linear [of "fst x" "fst e"]
      by (auto intro: string_less_eq_trans)
  qed simp
  then show ?case using Cons by simp
qed simp

lemma distinct_insert_name: "distinct (map fst (insert_name e es)) \<longleftrightarrow> distinct (map fst (e # es))"
  by (induction es) auto

lemma distinct_names_sorted: "distinct (map fst (foldr insert_name xs [])) \<longleftrightarrow> distinct (map fst xs)"
proof (induction xs)
  case (Cons x xs)
  have "fst ` set (foldr insert_name xs []) = fst ` set xs" by (simp only: set_names_sorted)
  then show ?case using Cons distinct_insert_name [of x "foldr insert_name xs []"] by simp
qed simp

section \<open>The part below a directory\<close>

definition part :: "location \<Rightarrow> fs \<Rightarrow> fs" where
  "part s fs = filter (\<lambda>e. inside s (fst e)) fs"

lemma map_filter_filter: "(\<And>x. \<not> P x \<Longrightarrow> f x = None) \<Longrightarrow> List.map_filter f (filter P xs) = List.map_filter f xs"
  by (induction xs) (auto simp: List.map_filter_def)

lemma fs_get_part: "inside s l \<Longrightarrow> fs_get (part s fs) l = fs_get fs l"
  unfolding fs_get_def part_def by (induction fs) auto

lemma children_part: "inside s l \<Longrightarrow> children (part s fs) l = children fs l"
  unfolding children_def part_def
proof (rule map_filter_filter)
  fix x assume i: "inside s l" and x: "\<not> inside s (fst (x :: location \<times> node))"
  have "inside s (fst x)" if "fst (fst x) = fst l" "butlast (snd (fst x)) = snd l" "snd (fst x) \<noteq> []"
  proof -
    have "prefix (snd l) (snd (fst x))" using that by (metis append_butlast_last_id prefixI)
    then show ?thesis using i that(1) by (auto simp: inside_def intro: prefix_order.trans)
  qed
  then show "(case x of (e, n) \<Rightarrow> if fst e = fst l \<and> butlast (snd e) = snd l \<and> snd e \<noteq> [] then Some (last (snd e), n) else None) = None"
    using x by (auto split: prod.split)
qed

lemma read_dir_part:
  assumes "part s fs = part s fs'" "inside s (location p)"
  shows "fst (os_read_dir p fs) = fst (os_read_dir p fs')"
proof -
  have "fs_get fs (location p) = fs_get fs' (location p)" "children fs (location p) = children fs' (location p)"
    using assms by (metis fs_get_part, metis children_part)
  then show ?thesis by (simp add: os_read_dir_def is_dir_def Let_def)
qed

lemma part_put [simp]: "\<not> inside s l \<Longrightarrow> part s (fs_put l n fs) = part s fs"
  unfolding part_def fs_put_def by (induction fs) auto

lemma part_drop [simp]: "(\<And>l. P l \<Longrightarrow> \<not> inside s l) \<Longrightarrow> part s (fs_drop P fs) = part s fs"
  unfolding part_def fs_drop_def by (induction fs) auto

lemma part_drop_one [simp]: "\<not> inside s l \<Longrightarrow> part s (fs_drop (\<lambda>x. x = l) fs) = part s fs"
  by (rule part_drop) simp

lemma part_mkdirs: "\<not> inside s (rt, dn @ cs) \<Longrightarrow> part s (snd (mkdirs rt dn cs fs)) = part s fs"
proof (induction rt dn cs fs rule: mkdirs.induct)
  case (2 rt dn c cs fs)
  have "prefix (dn @ [c]) (dn @ c # cs)" by simp
  then have "\<not> inside s (rt, dn @ [c])" using 2(3) by (auto simp: inside_def intro: prefix_order.trans)
  then show ?case using 2 by (auto split: option.split node.split)
qed simp

lemma part_calls:
  assumes "\<not> inside s (location p)"
  shows "part s (snd (os_mkdir_all p fs)) = part s fs"
    "part s (snd (os_write_file p data fs)) = part s fs"
    "part s (snd (os_remove p fs)) = part s fs"
  using assms part_mkdirs [of s "fst (location p)" "[]" "snd (location p)" fs]
  by (auto simp: os_mkdir_all_def os_write_file_def os_remove_def Let_def split: prod.split option.split node.split)

lemma part_rename_file:
  assumes "\<not> inside s (location p)" "\<not> inside s (location q)" "fs_get fs (location p) \<noteq> Some DirNode"
  shows "part s (snd (os_rename p q fs)) = part s fs"
  using assms by (auto simp: os_rename_def Let_def split: option.split node.split)

text \<open>A tree: no key twice, absolute places with proper names, every place in a directory.\<close>

definition tree_ok :: "fs \<Rightarrow> bool" where
  "tree_ok fs \<longleftrightarrow> distinct (map fst fs) \<and>
     (\<forall>e \<in> set fs. fst (fst e) \<and> snd (fst e) \<noteq> [] \<and> list_all name_ok (snd (fst e)) \<and> is_dir fs (parent (fst e)))"

lemma tree_ancestor:
  assumes "tree_ok fs" "inside a k" "a \<noteq> k" "snd a \<noteq> []" "fs_get fs k \<noteq> None"
  shows "fs_get fs a = Some DirNode"
proof -
  obtain ms where k: "k = (fst a, snd a @ ms)" using assms(2) by (cases k) (auto simp: inside_def prefix_def)
  then have "ms \<noteq> []" using assms(3) by auto
  then show ?thesis using assms(5) unfolding k
  proof (induction ms rule: rev_induct)
    case (snoc m ms)
    have "((fst a, snd a @ ms @ [m]), the (fs_get fs (fst a, snd a @ ms @ [m]))) \<in> set fs"
      using snoc.prems(2) by (auto simp: fs_get_def dest: map_of_SomeD)
    then have "is_dir fs (fst a, snd a @ ms)" using assms(1) by (force simp: tree_ok_def parent_def butlast_append)
    then have "fs_get fs (fst a, snd a @ ms) = Some DirNode" using assms(4) by (simp add: is_dir_def)
    then show ?case using snoc.IH by (cases ms) auto
  qed simp
qed

text \<open>What lies below a directory lies below one of its entries.\<close>

lemma below_entry:
  assumes "tree_ok fs" "inside l k" "k \<noteq> l" "fs_get fs k \<noteq> None"
  obtains c m where "fs_get fs (fst l, snd l @ [c]) = Some m" "inside (fst l, snd l @ [c]) k"
proof -
  obtain zs where zs: "k = (fst l, snd l @ zs)" using assms(2) by (cases k) (auto simp: inside_def prefix_def)
  then obtain c ms where k: "k = (fst l, snd l @ c # ms)" using assms(3) by (cases zs) auto
  let ?a = "(fst l, snd l @ [c])"
  have i: "inside ?a k" using k by (simp add: inside_def)
  have "fs_get fs ?a \<noteq> None" using tree_ancestor [OF assms(1) i] assms(4) by (cases "?a = k") auto
  then show ?thesis using i that by blast
qed

lemma entry_key:
  "fst e = fst l \<and> butlast (snd e) = snd l \<and> snd e \<noteq> [] \<and> last (snd e) = c \<longleftrightarrow> e = (fst l, snd l @ [c])" for e l :: location
  by (cases e; cases l; cases "snd e" rule: rev_cases) auto

lemma in_children: "(c, m) \<in> set (children fs l) \<longleftrightarrow> ((fst l, snd l @ [c]), m) \<in> set fs"
proof (induction fs)
  case (Cons x fs)
  obtain e n where x: "x = (e, n)" by (cases x)
  have "children (x # fs) l = (if fst e = fst l \<and> butlast (snd e) = snd l \<and> snd e \<noteq> [] then [(last (snd e), n)] else []) @ children fs l"
    using x by (simp add: children_def List.map_filter_def)
  then show ?case using Cons entry_key [of e l c] x by auto
qed (simp add: children_def List.map_filter_def)

lemma children_get:
  "distinct (map fst fs) \<Longrightarrow> fs_get fs (fst l, snd l @ [c]) = Some m \<longleftrightarrow> (c, m) \<in> set (children fs l)"
  by (simp add: in_children fs_get_def)

lemma distinct_children: "distinct (map fst fs) \<Longrightarrow> distinct (map fst (children fs l))"
proof (induction fs)
  case (Cons x fs)
  obtain e n where x: "x = (e, n)" by (cases x)
  show ?case
  proof (cases "fst e = fst l \<and> butlast (snd e) = snd l \<and> snd e \<noteq> []")
    case True
    then have e: "e = (fst l, snd l @ [last (snd e)])" using entry_key [of e l "last (snd e)"] by simp
    have "last (snd e) \<notin> fst ` set (children fs l)"
    proof
      assume "last (snd e) \<in> fst ` set (children fs l)"
      then obtain m where "(last (snd e), m) \<in> set (children fs l)" by auto
      then have "(e, m) \<in> set fs" using e by (simp add: in_children)
      then have "e \<in> fst ` set fs" by force
      then show False using Cons.prems x by simp
    qed
    moreover have "children (x # fs) l = (last (snd e), n) # children fs l"
      using True x by (simp add: children_def List.map_filter_def)
    ultimately show ?thesis using Cons by simp
  next
    case False
    then have "children (x # fs) l = children fs l" using x by (auto simp: children_def List.map_filter_def)
    then show ?thesis using Cons by simp
  qed
qed (simp add: children_def List.map_filter_def)

section \<open>Creating one directory\<close>

lemma mkdirs_present:
  assumes "\<And>k. k < length cs \<Longrightarrow> is_dir fs (rt, dn @ take (Suc k) cs)"
  shows "mkdirs rt dn cs fs = (Inr (), fs)"
  using assms
proof (induction cs arbitrary: dn)
  case (Cons c cs)
  have "is_dir fs (rt, dn @ [c])" using Cons.prems [of 0] by simp
  moreover have "mkdirs rt (dn @ [c]) cs fs = (Inr (), fs)"
    using Cons.prems [of "Suc _"] by (intro Cons.IH) simp
  ultimately show ?case by (simp add: is_dir_def)
qed simp

lemma mkdir_all_present:
  assumes "\<And>l. inside l (location p) \<Longrightarrow> is_dir fs l"
  shows "os_mkdir_all p fs = (Inr (), fs)"
proof -
  obtain rt cs where l: "location p = (rt, cs)" by (cases "location p")
  then have "mkdirs rt [] cs fs = (Inr (), fs)"
    using assms by (intro mkdirs_present) (simp add: inside_def take_is_prefix)
  then show ?thesis by (simp add: os_mkdir_all_def l)
qed

lemma mkdirs_last:
  assumes "\<And>k. k < length cs \<Longrightarrow> is_dir fs (rt, dn @ take (Suc k) cs)" "fs_get fs (rt, dn @ cs @ [c]) = None"
  shows "mkdirs rt dn (cs @ [c]) fs = (Inr (), fs_put (rt, dn @ cs @ [c]) DirNode fs)"
  using assms
proof (induction cs arbitrary: dn)
  case (Cons b cs)
  have "is_dir fs (rt, dn @ [b])" using Cons.prems(1) [of 0] by simp
  moreover have "mkdirs rt (dn @ [b]) (cs @ [c]) fs = (Inr (), fs_put (rt, (dn @ [b]) @ cs @ [c]) DirNode fs)"
    using Cons.prems(1) [of "Suc _"] Cons.prems(2) by (intro Cons.IH) simp_all
  ultimately show ?case by (simp add: is_dir_def)
qed simp

lemma mkdir_all_last:
  assumes "\<And>l. inside l (parent (location p)) \<Longrightarrow> is_dir fs l" "fs_get fs (location p) = None" "snd (location p) \<noteq> []"
  shows "os_mkdir_all p fs = (Inr (), fs_put (location p) DirNode fs)"
proof -
  obtain rt cs c where l: "location p = (rt, cs @ [c])"
    using assms(3) by (cases "location p", cases "snd (location p)" rule: rev_cases) auto
  have "mkdirs rt [] (cs @ [c]) fs = (Inr (), fs_put (rt, [] @ cs @ [c]) DirNode fs)"
    using assms l by (intro mkdirs_last) (simp_all add: parent_def inside_def take_is_prefix)
  then show ?thesis by (simp add: os_mkdir_all_def l)
qed

end
