(* ===== verification/DownloadPages.thy ===== *)
theory DownloadPages
  imports DownloadSafety FileTrees
begin

text \<open>
  What a finished manga download has stored: for every page of the source, in order, a file with the
  page's bytes, or an entry of the chapter's archive, and a row that records its path. The proofs follow
  the loop of \<open>downloadManga\<close> one page at a time, for every schedule of failing calls; for the archive
  they compose along the code what each step \<open>delivers\<close>.
\<close>

section \<open>Page names\<close>

lemma is_digit_pad3: "c \<in> set (pad3 n) \<Longrightarrow> is_digit c"
proof -
  assume c: "c \<in> set (pad3 n)"
  have "is_digit (CHR ''0'')" by code_simp
  moreover have "c = CHR ''0'' \<or> c \<in> set (nat_digits n)" using c by (auto simp: pad3_def Let_def)
  ultimately show ?thesis using nat_digits_all_digits by blast
qed

lemma digits_val_zeros: "digits_val (replicate k (CHR ''0'') @ s) = digits_val s"
  by (induction k) (auto simp: digits_val_def digit_val_def ch_def)

lemma digits_val_pad3 [simp]: "digits_val (pad3 n) = n"
  by (simp add: pad3_def Let_def digits_val_zeros)

lemma ext_from_content_type_dot: "\<exists>t. ext_from_content_type ct = CHR ''.'' # t \<and> CHR ''/'' \<notin> set t"
  by (auto simp: ext_from_content_type_def)

lemma takeWhile_page_file_name: "takeWhile is_digit (page_file_name i img) = pad3 (i + 1)"
proof -
  obtain t where "ext_from_content_type (im_content_type img) = CHR ''.'' # t"
    using ext_from_content_type_dot by blast
  moreover have "\<not> is_digit (CHR ''.'')" by code_simp
  ultimately show ?thesis
    using is_digit_pad3 [of _ "i + 1"] by (simp add: page_file_name_def takeWhile_append2)
qed

lemma page_file_name_inj: "page_file_name i a = page_file_name j b \<Longrightarrow> i = j"
  using takeWhile_page_file_name [of i a] takeWhile_page_file_name [of j b] digits_val_pad3 [of "i + 1"]
    digits_val_pad3 [of "j + 1"] by simp

lemma page_file_name_ok: "name_ok (page_file_name i img)"
proof -
  obtain t where t: "ext_from_content_type (im_content_type img) = CHR ''.'' # t" "CHR ''/'' \<notin> set t"
    using ext_from_content_type_dot by blast
  have "pad3 (i + 1) \<noteq> []" by (simp add: pad3_def Let_def)
  then obtain c cs where c: "pad3 (i + 1) = c # cs" by (cases "pad3 (i + 1)") auto
  then have "is_digit c" using is_digit_pad3 [of c "i + 1"] by simp
  moreover have "\<not> is_digit (CHR ''.'')" "\<not> is_digit (CHR ''/'')" by code_simp+
  moreover have "CHR ''/'' \<notin> set (pad3 (i + 1))" using is_digit_pad3 \<open>\<not> is_digit (CHR ''/'')\<close> by blast
  ultimately show ?thesis using t c by (auto simp: name_ok_def page_file_name_def)
qed

section \<open>One page\<close>

definition page_path :: "string \<Rightarrow> nat \<Rightarrow> image_data \<Rightarrow> string" where
  "page_path dir i img = path_join [dir, page_file_name i img]"

definition page_row :: "int \<Rightarrow> nat \<Rightarrow> manga_page \<Rightarrow> bool" where
  "page_row chap i r \<longleftrightarrow> p_chapter r = chap \<and> p_number r = int i + 1"

definition page_saved :: "string \<Rightarrow> int \<Rightarrow> nat \<Rightarrow> image_data \<Rightarrow> 'z dl_world_scheme \<Rightarrow> bool" where
  "page_saved dir chap i img w \<longleftrightarrow>
     fs_get (w_fs w) (location (page_path dir i img)) = Some (FileNode (Bytes (im_data img))) \<and>
     find (page_row chap i) (manga_pages (w_db w)) =
       Some \<lparr>p_chapter = chap, p_number = int i + 1, p_local_path = Some (page_path dir i img)\<rparr>"

lemma location_page_path:
  "dir \<noteq> [] \<Longrightarrow> location (page_path dir i img) = (rooted dir, snd (location dir) @ [page_file_name i img])"
  unfolding page_path_def by (rule location_join_names) (simp_all add: page_file_name_ok)

lemma parent_page_path: "dir \<noteq> [] \<Longrightarrow> parent (location (page_path dir i img)) = location dir"
  by (simp add: location_page_path parent_def location_fst [symmetric])

lemma page_path_not_dir: "dir \<noteq> [] \<Longrightarrow> location (page_path dir i img) \<noteq> location dir"
  by (simp add: location_page_path prod_eq_iff)

lemma page_path_inj: "dir \<noteq> [] \<Longrightarrow> location (page_path dir i a) = location (page_path dir j b) \<Longrightarrow> i = j"
  by (auto simp: location_page_path dest: page_file_name_inj)

definition one_page :: "source \<Rightarrow> download_context \<Rightarrow> int \<Rightarrow> string \<Rightarrow> nat \<Rightarrow> nat \<Rightarrow> string
    \<Rightarrow> ('z dl_world_scheme, unit) act" where
  "one_page src dctx job dir count i url =
     seq (wrap (page_label ''fetching page '' i) (ask (src_image src (dc_package_name dctx) url))) (\<lambda>img.
     seq (wrap (page_label ''writing page '' i) (fs_call (os_write_file (page_path dir i img) (Bytes (im_data img))))) (\<lambda>_.
     seq (wrap (page_label ''recording page '' i)
            (db_call (q_upsert_manga_page (dc_chapter_id dctx) (int i + 1) (Some (page_path dir i img))))) (\<lambda>_.
     ignore (set_progress job (step_progress i count)))))"

lemma manga_pages_loop_Cons:
  "manga_pages_loop src dctx job dir count i (url # urls) =
     seq (one_page src dctx job dir count i url) (\<lambda>_. manga_pages_loop src dctx job dir count (i + 1) urls)"
  by (simp add: one_page_def seq_assoc page_path_def Let_def)

text \<open>The world around a page: the folder is there and the page's place is not taken by a directory.\<close>

definition page_ready :: "string \<Rightarrow> int \<Rightarrow> nat \<Rightarrow> image_data \<Rightarrow> 'z dl_world_scheme \<Rightarrow> bool" where
  "page_ready dir chap i img w \<longleftrightarrow> is_dir (w_fs w) (location dir) \<and> has_chapter chap (w_db w) \<and>
     \<not> is_dir (w_fs w) (location (page_path dir i img))"

definition only_page_changed :: "string \<Rightarrow> int \<Rightarrow> nat \<Rightarrow> image_data \<Rightarrow> 'z dl_world_scheme \<Rightarrow> 'z dl_world_scheme \<Rightarrow> bool" where
  "only_page_changed dir chap i img w w' \<longleftrightarrow>
     (\<forall>l. l \<noteq> location (page_path dir i img) \<longrightarrow> fs_get (w_fs w') l = fs_get (w_fs w) l) \<and>
     (\<forall>j. j \<noteq> i \<longrightarrow> find (page_row chap j) (manga_pages (w_db w')) = find (page_row chap j) (manga_pages (w_db w))) \<and>
     chapters (w_db w') = chapters (w_db w)"

lemma write_page:
  assumes "is_dir fs (location dir)" "\<not> is_dir fs (location (page_path dir i img))" "dir \<noteq> []"
  shows "os_write_file (page_path dir i img) c fs = (Inr (), fs_put (location (page_path dir i img)) (FileNode c) fs)"
  using assms by (simp add: os_write_file_def Let_def parent_page_path)

lemma upsert_page:
  assumes "has_chapter chap d"
  shows "\<exists>d'. q_upsert_manga_page chap (int i + 1) p now d = (Inr (), d') \<and> chapters d' = chapters d \<and>
     find (page_row chap i) (manga_pages d') = Some \<lparr>p_chapter = chap, p_number = int i + 1, p_local_path = p\<rparr> \<and>
     (\<forall>j. j \<noteq> i \<longrightarrow> find (page_row chap j) (manga_pages d') = find (page_row chap j) (manga_pages d))"
proof -
  let ?f = "\<lambda>r. r\<lparr>p_local_path := p\<rparr>" and ?new = "\<lparr>p_chapter = chap, p_number = int i + 1, p_local_path = p\<rparr>"
  let ?rows = "snd (upsert (page_row chap i) ?f ?new (manga_pages d))"
  have P: "page_row chap i = (\<lambda>r. p_chapter r = chap \<and> p_number r = int i + 1)"
    by (rule ext) (simp add: page_row_def)
  have q: "q_upsert_manga_page chap (int i + 1) p now d = (Inr (), d\<lparr>manga_pages := ?rows\<rparr>)"
    using assms by (simp add: q_upsert_manga_page_def with_fk_def P)
  have "find (page_row chap i) ?rows = Some (case find (page_row chap i) (manga_pages d) of None \<Rightarrow> ?new | Some r \<Rightarrow> ?f r)"
    by (rule upsert_find) (simp_all add: page_row_def)
  then have 1: "find (page_row chap i) ?rows = Some ?new"
    by (auto dest!: find_SomeD simp: page_row_def split: option.splits)
  have 2: "find (page_row chap j) ?rows = find (page_row chap j) (manga_pages d)" if "j \<noteq> i" for j
    by (rule upsert_find_other) (use that in \<open>auto simp: page_row_def\<close>)
  show ?thesis using q 1 2 by simp
qed

lemma set_progress_effect:
  assumes "ignore (set_progress job p) w = (r, w')"
  shows "r = Inr () \<and> w_fs w' = w_fs (w :: 'z dl_world_scheme) \<and> chapters (w_db w') = chapters (w_db w) \<and>
         manga_pages (w_db w') = manga_pages (w_db w) \<and> (fault_free w \<longrightarrow> fault_free w')"
proof -
  obtain x w1 where c: "db_call (q_update_download_progress Downloading p job) w = (x, w1)" by fastforce
  then have "r = Inr ()" "w' = w1" using assms by (simp_all add: ignore_def set_progress_def)
  moreover from c have "w_fs w1 = w_fs w \<and> chapters (w_db w1) = chapters (w_db w) \<and>
      manga_pages (w_db w1) = manga_pages (w_db w) \<and> (fault_free w \<longrightarrow> fault_free w1)"
    by (cases rule: db_call_cases) (auto simp: q_update_download_progress_def exec_def update_download_def)
  ultimately show ?thesis by simp
qed

lemma one_page_result:
  fixes w :: "'z dl_world_scheme"
  assumes r: "one_page src dctx job dir count i url w = (r, w')"
    and im: "src_image src (dc_package_name dctx) url = Inr img"
    and ready: "page_ready dir (dc_chapter_id dctx) i img w" and dir: "dir \<noteq> []"
  shows "(r = Inr () \<longrightarrow> page_saved dir (dc_chapter_id dctx) i img w' \<and> only_page_changed dir (dc_chapter_id dctx) i img w w') \<and>
         (fault_free w \<longrightarrow> r = Inr () \<and> fault_free w')"
proof -
  let ?chap = "dc_chapter_id dctx" and ?p = "page_path dir i img"
  obtain x1 w1 where c1: "ask (Inr img) w = (x1, w1)" by fastforce
  from c1 show ?thesis
    unfolding ask_def
  proof (cases rule: ext_call_cases)
    case (1 e fl)
    then show ?thesis using r c1 by (auto simp: one_page_def im seq_def wrap_def)
  next
    case (2 fl1)
    obtain x2 w2 where c2: "fs_call (os_write_file ?p (Bytes (im_data img))) w1 = (x2, w2)" by fastforce
    have r2: "(r, w') = seq (wrap (page_label ''writing page '' i) (fs_call (os_write_file ?p (Bytes (im_data img))))) (\<lambda>_.
       seq (wrap (page_label ''recording page '' i) (db_call (q_upsert_manga_page ?chap (int i + 1) (Some ?p)))) (\<lambda>_.
       ignore (set_progress job (step_progress i count)))) w1"
      using r c1 2 by (simp add: one_page_def im seq_def wrap_def)
    have ready1: "page_ready dir ?chap i img w1" using ready 2 by (simp add: page_ready_def)
    from c2 show ?thesis
    proof (cases rule: fs_call_cases)
      case (1 e fl)
      then show ?thesis using r2 c2 2 by (auto simp: seq_def wrap_def)
    next
      case (2 fl2 fs2)
      note c2' = 2
      have fs2: "x2 = Inr ()" "fs2 = fs_put (location ?p) (FileNode (Bytes (im_data img))) (w_fs w)"
        using c2'(1) write_page [OF _ _ dir, of "w_fs w1" i img] ready1 \<open>w1 = w\<lparr>w_faults := fl1\<rparr>\<close>
        by (auto simp: page_ready_def)
      obtain x3 w3 where c3: "db_call (q_upsert_manga_page ?chap (int i + 1) (Some ?p)) w2 = (x3, w3)" by fastforce
      have r3: "(r, w') = seq (wrap (page_label ''recording page '' i) (db_call (q_upsert_manga_page ?chap (int i + 1) (Some ?p)))) (\<lambda>_.
         ignore (set_progress job (step_progress i count))) w2"
        using r2 c2 fs2 by (simp add: seq_def wrap_def)
      have chap: "has_chapter ?chap (w_db w2)"
        using ready1 c2'(2) by (simp add: page_ready_def)
      from c3 show ?thesis
      proof (cases rule: db_call_cases)
        case (1 e fl)
        then show ?thesis using r3 c3 c2' \<open>fault_free w \<longrightarrow> fl1 = []\<close> \<open>w1 = w\<lparr>w_faults := fl1\<rparr>\<close>
          by (auto simp: seq_def wrap_def)
      next
        case (2 fl3 d3)
        from upsert_page [OF chap, of i "Some ?p" "w_now w2"] obtain d' where d': "x3 = Inr ()" "d3 = d'"
          "chapters d' = chapters (w_db w2)"
          "find (page_row ?chap i) (manga_pages d') = Some \<lparr>p_chapter = ?chap, p_number = int i + 1, p_local_path = Some ?p\<rparr>"
          "\<forall>j. j \<noteq> i \<longrightarrow> find (page_row ?chap j) (manga_pages d') = find (page_row ?chap j) (manga_pages (w_db w2))"
          using 2(1) by auto
        have "ignore (set_progress job (step_progress i count)) w3 = (r, w')"
          using r3 c3 d' by (simp add: seq_def wrap_def)
        from set_progress_effect [OF this] show ?thesis
          using 2 d' c2' fs2 \<open>fault_free w \<longrightarrow> fl1 = []\<close> \<open>w1 = w\<lparr>w_faults := fl1\<rparr>\<close>
          by (auto simp: page_saved_def only_page_changed_def)
      qed
    qed
  qed
qed


section \<open>All pages\<close>

lemma only_page_changed_keeps:
  assumes "only_page_changed dir chap i img w w'" "dir \<noteq> []"
  shows "is_dir (w_fs w') (location dir) = is_dir (w_fs w) (location dir)"
    "has_chapter chap (w_db w') = has_chapter chap (w_db w)"
    "k \<noteq> i \<Longrightarrow> is_dir (w_fs w') (location (page_path dir k im)) = is_dir (w_fs w) (location (page_path dir k im))"
    "k \<noteq> i \<Longrightarrow> page_saved dir chap k im w' = page_saved dir chap k im w"
proof -
  have "location (page_path dir i img) \<noteq> location dir" using page_path_not_dir [OF assms(2)] .
  then show "is_dir (w_fs w') (location dir) = is_dir (w_fs w) (location dir)"
    using assms(1) unfolding is_dir_def only_page_changed_def by metis
  show "has_chapter chap (w_db w') = has_chapter chap (w_db w)"
    using assms(1) by (simp add: has_chapter_def only_page_changed_def)
  show "is_dir (w_fs w') (location (page_path dir k im)) = is_dir (w_fs w) (location (page_path dir k im))" if "k \<noteq> i"
    using assms page_path_inj [OF assms(2)] that unfolding is_dir_def only_page_changed_def by metis
  show "page_saved dir chap k im w' = page_saved dir chap k im w" if "k \<noteq> i"
    using assms page_path_inj [OF assms(2)] that unfolding page_saved_def only_page_changed_def by metis
qed

lemma manga_pages_loop_result:
  fixes w :: "'z dl_world_scheme"
  assumes "manga_pages_loop src dctx job dir count i urls w = (r, w')"
    "\<And>u. u \<in> set urls \<Longrightarrow> src_image src (dc_package_name dctx) u = Inr (img u)"
    "is_dir (w_fs w) (location dir)" "has_chapter (dc_chapter_id dctx) (w_db w)" "dir \<noteq> []"
    "\<And>j. j < length urls \<Longrightarrow> \<not> is_dir (w_fs w) (location (page_path dir (i + j) (img (urls ! j))))"
  shows "(r = Inr () \<longrightarrow> (\<forall>j < length urls. page_saved dir (dc_chapter_id dctx) (i + j) (img (urls ! j)) w') \<and>
           (\<forall>k im. k < i \<longrightarrow> page_saved dir (dc_chapter_id dctx) k im w \<longrightarrow> page_saved dir (dc_chapter_id dctx) k im w')) \<and>
         (fault_free w \<longrightarrow> r = Inr ())"
  using assms
proof (induction urls arbitrary: i w)
  case Nil
  then show ?case by (simp add: ret_def)
next
  case (Cons u us)
  let ?chap = "dc_chapter_id dctx"
  obtain x w1 where c: "one_page src dctx job dir count i u w = (x, w1)" by fastforce
  have im: "src_image src (dc_package_name dctx) u = Inr (img u)" using Cons.prems(2) by simp
  have "page_ready dir ?chap i (img u) w"
    using Cons.prems(3,4) Cons.prems(6) [of 0] by (simp add: page_ready_def)
  note res = one_page_result [OF c im this Cons.prems(5)]
  show ?case
  proof (cases x)
    case (Inl e)
    then have "r = Inl e" using Cons.prems(1) c by (simp only: manga_pages_loop_Cons) (simp add: seq_def)
    then show ?thesis using res Inl by simp
  next
    case (Inr y)
    then have loop: "manga_pages_loop src dctx job dir count (i + 1) us w1 = (r, w')"
      using Cons.prems(1) c by (simp only: manga_pages_loop_Cons) (simp add: seq_def)
    from res Inr have saved: "page_saved dir ?chap i (img u) w1" and ch: "only_page_changed dir ?chap i (img u) w w1"
      and free: "fault_free w \<longrightarrow> fault_free w1" by simp_all
    note keep = only_page_changed_keeps [OF ch Cons.prems(5)]
    have nd: "\<not> is_dir (w_fs w1) (location (page_path dir (i + 1 + j) (img (us ! j))))" if "j < length us" for j
      using Cons.prems(6) [of "Suc j"] that keep(3) [of "i + 1 + j" "img (us ! j)"] by simp
    have IH: "(r = Inr () \<longrightarrow> (\<forall>j < length us. page_saved dir ?chap (i + 1 + j) (img (us ! j)) w') \<and>
           (\<forall>k im. k < i + 1 \<longrightarrow> page_saved dir ?chap k im w1 \<longrightarrow> page_saved dir ?chap k im w')) \<and>
         (fault_free w1 \<longrightarrow> r = Inr ())"
    proof (rule Cons.IH [OF loop])
      show "src_image src (dc_package_name dctx) u' = Inr (img u')" if "u' \<in> set us" for u'
        using Cons.prems(2) that by simp
      show "is_dir (w_fs w1) (location dir)" using keep(1) Cons.prems(3) by simp
      show "has_chapter ?chap (w_db w1)" using keep(2) Cons.prems(4) by simp
    qed (use nd Cons.prems(5) in auto)
    have "page_saved dir ?chap (i + j) (img ((u # us) ! j)) w'" if "r = Inr ()" "j < length (u # us)" for j
    proof (cases j)
      case 0
      then show ?thesis using IH saved that(1) by simp
    next
      case (Suc j')
      then show ?thesis using IH that by simp
    qed
    moreover have "page_saved dir ?chap k im w'" if "r = Inr ()" "k < i" "page_saved dir ?chap k im w" for k im
      using IH keep(4) [of k im] that by simp
    ultimately show ?thesis using IH free by blast
  qed
qed

lemma loose_download_complete:
  fixes w :: "'z dl_world_scheme"
  assumes "download_manga src job dctx w = (r, w')"
    and src: "src_pages src (dc_package_name dctx) (dc_source_entry_id dctx) (dc_source_chapter_id dctx) = Inr urls"
      "urls \<noteq> []" "\<And>u. u \<in> set urls \<Longrightarrow> src_image src (dc_package_name dctx) u = Inr (img u)"
    and w: "dl_image_format w \<noteq> ''cbz''" "dl_downloads_dir w \<noteq> []" "has_chapter (dc_chapter_id dctx) (w_db w)"
      "\<And>j. j < length urls \<Longrightarrow> \<not> is_dir (w_fs w)
         (location (page_path (build_chapter_dir (dl_downloads_dir w) dctx) j (img (urls ! j))))"
      "\<And>l. inside l (location (build_chapter_dir (dl_downloads_dir w) dctx)) \<Longrightarrow> \<not> is_file (w_fs w) l"
  shows "(r = Inr () \<longrightarrow> (\<forall>j < length urls.
            page_saved (build_chapter_dir (dl_downloads_dir w) dctx) (dc_chapter_id dctx) j (img (urls ! j)) w')) \<and>
         (fault_free w \<longrightarrow> r = Inr ())"
proof -
  let ?dir = "build_chapter_dir (dl_downloads_dir w) dctx"
  have clean: "path_clean ?dir = ?dir" unfolding build_chapter_dir_segments by (rule path_join_names_clean [OF w(2)])
  have ne: "?dir \<noteq> []" using path_clean_not_Nil [of ?dir] clean by simp
  obtain x1 w1 where c1: "ask (src_pages src (dc_package_name dctx) (dc_source_entry_id dctx) (dc_source_chapter_id dctx)) w = (x1, w1)"
    by fastforce
  from c1 show ?thesis
    unfolding ask_def
  proof (cases rule: ext_call_cases)
    case (1 e fl)
    then have "r \<noteq> Inr ()" "\<not> fault_free w" using assms(1) c1 by (auto simp: download_manga_def seq_def wrap_def)
    then show ?thesis by simp
  next
    case (2 fl1)
    obtain x2 w2 where c2: "fs_call (os_mkdir_all ?dir) w1 = (x2, w2)" by fastforce
    have r2: "(r, w') = seq (wrap ''creating chapter dir'' (fs_call (os_mkdir_all ?dir)))
        (\<lambda>_. manga_pages_loop src dctx job ?dir (length urls) 0 urls) w1"
      using assms(1) c1 2 src(1,2) w(1)
      by (simp add: download_manga_def seq_def wrap_def gets_def chapter_dir_def)
    from c2 show ?thesis
    proof (cases rule: fs_call_cases)
      case (1 e fl)
      then have "r \<noteq> Inr ()" "\<not> fault_free w" using r2 c2 2 by (auto simp: seq_def wrap_def)
      then show ?thesis by simp
    next
      case (2 fl2 fs2)
      have mk: "(\<forall>l. fs_get fs2 l = fs_get (w_fs w) l \<or> fs_get (w_fs w) l = None \<and> fs_get fs2 l = Some DirNode)"
        "x2 = Inr () \<longrightarrow> is_dir fs2 (location ?dir)" "x2 = Inr ()"
        using mkdir_all_result [OF 2(1)] \<open>w1 = w\<lparr>w_faults := fl1\<rparr>\<close> w(5) by auto
      then have loop: "manga_pages_loop src dctx job ?dir (length urls) 0 urls w2 = (r, w')"
        using r2 c2 by (simp add: seq_def wrap_def)
      have nd: "\<not> is_dir (w_fs w2) (location (page_path ?dir (0 + j) (img (urls ! j))))" if "j < length urls" for j
      proof -
        let ?l = "location (page_path ?dir j (img (urls ! j)))"
        have "fs_get (w_fs w) ?l \<noteq> Some DirNode" "snd ?l \<noteq> []" using w(4) [OF that] by (auto simp: is_dir_def)
        moreover have "fs_get fs2 ?l = fs_get (w_fs w) ?l"
        proof -
          have "\<not> inside ?l (location ?dir)"
            by (auto simp: location_page_path [OF ne] inside_def dest: prefix_length_le)
          then show ?thesis using mkdir_all_outside [OF 2(1)] \<open>w1 = w\<lparr>w_faults := fl1\<rparr>\<close> by simp
        qed
        ultimately show ?thesis using 2(2) by (simp add: is_dir_def)
      qed
      have "(r = Inr () \<longrightarrow> (\<forall>j < length urls. page_saved ?dir (dc_chapter_id dctx) (0 + j) (img (urls ! j)) w') \<and>
           (\<forall>k im. k < 0 \<longrightarrow> page_saved ?dir (dc_chapter_id dctx) k im w2 \<longrightarrow> page_saved ?dir (dc_chapter_id dctx) k im w')) \<and>
         (fault_free w2 \<longrightarrow> r = Inr ())"
        by (rule manga_pages_loop_result [OF loop src(3)])
          (use mk 2 w(3) ne nd \<open>w1 = w\<lparr>w_faults := fl1\<rparr>\<close> in auto)
      then show ?thesis using 2 \<open>fault_free w \<longrightarrow> fl1 = []\<close> \<open>w1 = w\<lparr>w_faults := fl1\<rparr>\<close> by auto
    qed
  qed
qed

section \<open>One archive\<close>

text \<open>
  What a run promises: when it starts where \<open>P\<close> holds and returns a value, \<open>Q\<close> holds of it; and it does
  return one, without using up a fault, when no call fails.
\<close>

definition delivers :: "('z dl_world_scheme \<Rightarrow> bool) \<Rightarrow> ('z dl_world_scheme, 'a) act \<Rightarrow>
    ('a \<Rightarrow> 'z dl_world_scheme \<Rightarrow> bool) \<Rightarrow> bool" where
  "delivers P m Q \<longleftrightarrow> (\<forall>w r w'. P w \<longrightarrow> m w = (r, w') \<longrightarrow>
     (\<forall>x. r = Inr x \<longrightarrow> Q x w') \<and> (fault_free w \<longrightarrow> fault_free w' \<and> (\<exists>x. r = Inr x)))"

definition always_fails :: "('s, 'a) act \<Rightarrow> bool" where
  "always_fails m \<longleftrightarrow> (\<forall>w x. fst (m w) \<noteq> Inr x)"

lemma deliversI:
  "(\<And>w r w'. P w \<Longrightarrow> m w = (r, w') \<Longrightarrow>
     (\<forall>x. r = Inr x \<longrightarrow> Q x w') \<and> (fault_free w \<longrightarrow> fault_free w' \<and> (\<exists>x. r = Inr x))) \<Longrightarrow> delivers P m Q"
  unfolding delivers_def by blast

lemma deliversD:
  assumes "delivers P m Q" "P w" "m w = (r, w')"
  shows "r = Inr x \<Longrightarrow> Q x w'" "fault_free w \<Longrightarrow> fault_free w'" "fault_free w \<Longrightarrow> \<exists>x. r = Inr x"
  using assms unfolding delivers_def by blast+

lemma delivers_seq:
  assumes "delivers P m Q" "\<And>x. delivers (Q x) (f x) R"
  shows "delivers P (seq m f) R"
proof (rule deliversI)
  fix w r w' assume w: "P w" and r: "seq m f w = (r, w')"
  obtain y w1 where m: "m w = (y, w1)" by (cases "m w")
  note 1 = deliversD [OF assms(1) w m]
  show "(\<forall>x. r = Inr x \<longrightarrow> R x w') \<and> (fault_free w \<longrightarrow> fault_free w' \<and> (\<exists>x. r = Inr x))"
  proof (cases y)
    case (Inl e)
    then show ?thesis using m r 1(3) by (auto simp: seq_def)
  next
    case (Inr x)
    then have "f x w1 = (r, w')" using m r by (simp add: seq_def)
    note 2 = deliversD [OF assms(2) 1(1) [OF Inr] this]
    show ?thesis using 1(2) 2 by blast
  qed
qed

lemma delivers_wrap:
  assumes "delivers P m Q"
  shows "delivers P (wrap t m) Q"
proof (rule deliversI)
  fix w r w' assume w: "P w" and r: "wrap t m w = (r, w')"
  obtain y where m: "m w = (y, w')" "r = (case y of Inl e \<Rightarrow> Inl (ErrWrap t e) | Inr x \<Rightarrow> Inr x)"
    using r by (auto simp: wrap_def split: prod.splits sum.splits)
  show "(\<forall>x. r = Inr x \<longrightarrow> Q x w') \<and> (fault_free w \<longrightarrow> fault_free w' \<and> (\<exists>x. r = Inr x))"
    using deliversD [OF assms w m(1)] m(2) by (cases y) auto
qed

lemma delivers_catch:
  assumes "delivers P m Q" "\<And>x. delivers (Q x) (f x) R" "\<And>e. always_fails (h e)"
  shows "delivers P (seq (attempt m) (\<lambda>r. case r of Inl e \<Rightarrow> h e | Inr x \<Rightarrow> f x)) R"
proof (rule deliversI)
  fix w r w' assume w: "P w" and r: "seq (attempt m) (\<lambda>r. case r of Inl e \<Rightarrow> h e | Inr x \<Rightarrow> f x) w = (r, w')"
  obtain y w1 where m: "m w = (y, w1)" by (cases "m w")
  note 1 = deliversD [OF assms(1) w m]
  show "(\<forall>x. r = Inr x \<longrightarrow> R x w') \<and> (fault_free w \<longrightarrow> fault_free w' \<and> (\<exists>x. r = Inr x))"
  proof (cases y)
    case (Inl e)
    then have "h e w1 = (r, w')" using m r by (simp add: seq_def attempt_def)
    then have "r \<noteq> Inr x" for x using assms(3) [of e] unfolding always_fails_def by (metis fst_conv)
    moreover have "\<not> fault_free w" using 1(3) Inl by auto
    ultimately show ?thesis by blast
  next
    case (Inr x)
    then have "f x w1 = (r, w')" using m r by (simp add: seq_def attempt_def)
    note 2 = deliversD [OF assms(2) 1(1) [OF Inr] this]
    show ?thesis using 1(2) 2 by blast
  qed
qed

lemma delivers_conseq:
  assumes "delivers P m Q" "\<And>w. P' w \<Longrightarrow> P w" "\<And>x w. Q x w \<Longrightarrow> R x w"
  shows "delivers P' m R"
proof (rule deliversI)
  fix w r w' assume "P' w" "m w = (r, w')"
  from deliversD [OF assms(1) assms(2) [OF this(1)] this(2)]
  show "(\<forall>x. r = Inr x \<longrightarrow> R x w') \<and> (fault_free w \<longrightarrow> fault_free w' \<and> (\<exists>x. r = Inr x))"
    using assms(3) by blast
qed

lemma delivers_known: "(b \<Longrightarrow> delivers P m Q) \<Longrightarrow> delivers (\<lambda>w. b \<and> P w) m Q"
  by (auto simp: delivers_def)

lemma delivers_ret: "(\<And>w. P w \<Longrightarrow> Q x w) \<Longrightarrow> delivers P (ret x) Q"
  by (simp add: delivers_def ret_def)

lemma delivers_gets: "(\<And>w. P w \<Longrightarrow> Q (f w) w) \<Longrightarrow> delivers P (gets f) Q"
  by (simp add: delivers_def gets_def)

lemma delivers_ext_call:
  fixes P :: "'z dl_world_scheme \<Rightarrow> bool"
  assumes "\<And>w fl. P w \<Longrightarrow> P (w\<lparr>w_faults := fl\<rparr>)"
  shows "delivers P (ext_call (Inr x)) (\<lambda>y w. y = x \<and> P w)"
proof (rule deliversI)
  fix w r and w' :: "'z dl_world_scheme" assume w: "P w" and c: "ext_call (Inr x) w = (r, w')"
  from c show "(\<forall>y. r = Inr y \<longrightarrow> y = x \<and> P w') \<and> (fault_free w \<longrightarrow> fault_free w' \<and> (\<exists>x. r = Inr x))"
    by (cases rule: ext_call_cases) (use assms [OF w] in auto)
qed

lemma delivers_fs_call:
  fixes P :: "'z dl_world_scheme \<Rightarrow> bool"
  assumes "\<And>w. P w \<Longrightarrow> \<exists>x fs. q (w_fs w) = (Inr x, fs) \<and> (\<forall>fl. Q x (w\<lparr>w_faults := fl, w_fs := fs\<rparr>))"
  shows "delivers P (fs_call q) Q"
proof (rule deliversI)
  fix w r and w' :: "'z dl_world_scheme" assume w: "P w" and c: "fs_call q w = (r, w')"
  from c show "(\<forall>x. r = Inr x \<longrightarrow> Q x w') \<and> (fault_free w \<longrightarrow> fault_free w' \<and> (\<exists>x. r = Inr x))"
    by (cases rule: fs_call_cases) (use assms [OF w] in auto)
qed

lemma delivers_db_call:
  fixes P :: "'z dl_world_scheme \<Rightarrow> bool"
  assumes "\<And>w. P w \<Longrightarrow> \<exists>x d. q (w_now w) (w_db w) = (Inr x, d) \<and> (\<forall>fl. Q x (w\<lparr>w_faults := fl, w_db := d\<rparr>))"
  shows "delivers P (db_call q) Q"
proof (rule deliversI)
  fix w r and w' :: "'z dl_world_scheme" assume w: "P w" and c: "db_call q w = (r, w')"
  from c show "(\<forall>x. r = Inr x \<longrightarrow> Q x w') \<and> (fault_free w \<longrightarrow> fault_free w' \<and> (\<exists>x. r = Inr x))"
    by (cases rule: db_call_cases) (use assms [OF w] in auto)
qed

text \<open>What a step on the way knows: something of the files, and that the chapter has its row.\<close>

abbreviation stage :: "(fs \<Rightarrow> bool) \<Rightarrow> int \<Rightarrow> 'z dl_world_scheme \<Rightarrow> bool" where
  "stage S chap \<equiv> \<lambda>w. S (w_fs w) \<and> has_chapter chap (w_db w)"

lemma delivers_progress:
  "delivers (stage S chap :: 'z dl_world_scheme \<Rightarrow> bool) (ignore (set_progress job p)) (\<lambda>_. stage S chap)"
proof (rule deliversI)
  fix w r and w' :: "'z dl_world_scheme" assume w: "stage S chap w" and c: "ignore (set_progress job p) w = (r, w')"
  show "(\<forall>x. r = Inr x \<longrightarrow> stage S chap w') \<and> (fault_free w \<longrightarrow> fault_free w' \<and> (\<exists>x. r = Inr x))"
    using set_progress_effect [OF c] w by (simp add: has_chapter_def)
qed

lemma fails_after_cleanup: "always_fails (seq (ignore m) (\<lambda>_. fail e))"
  by (simp add: always_fails_def seq_def ignore_def fail_def split: prod.split)

definition archive_entries :: "(string \<Rightarrow> image_data) \<Rightarrow> nat \<Rightarrow> string list \<Rightarrow> (string \<times> string) list" where
  "archive_entries img i urls = map (\<lambda>(j, u). (page_file_name j (img u), im_data (img u))) (enumerate i urls)"

lemma delivers_entries:
  assumes "\<And>u. u \<in> set urls \<Longrightarrow> src_image src (dc_package_name dctx) u = Inr (img u)"
  shows "delivers (stage S chap :: 'z dl_world_scheme \<Rightarrow> bool) (cbz_entries_loop src dctx job tmp count i urls)
    (\<lambda>es w. es = archive_entries img i urls \<and> stage S chap w)"
  using assms
proof (induction urls arbitrary: i)
  case Nil
  then show ?case by (auto simp: archive_entries_def intro!: delivers_ret)
next
  case (Cons u urls)
  have im: "src_image src (dc_package_name dctx) u = Inr (img u)" using Cons.prems by simp
  let ?Q = "\<lambda>es w. es = archive_entries img i (u # urls) \<and> stage S chap w"
  have rest: "delivers (stage S chap :: 'z dl_world_scheme \<Rightarrow> bool) (seq (cbz_entries_loop src dctx job tmp count (i + 1) urls)
      (\<lambda>es. ret ((page_file_name i (img u), im_data (img u)) # es))) ?Q"
    by (rule delivers_seq, rule Cons.IH) (use Cons.prems in \<open>auto simp: archive_entries_def intro!: delivers_ret\<close>)
  have packed: "delivers (stage S chap :: 'z dl_world_scheme \<Rightarrow> bool) (seq (attempt (ext_call (Inr ()))) (\<lambda>r2. case r2 of
        Inl e \<Rightarrow> seq (ignore (fs_call (os_remove tmp))) (\<lambda>_. fail (ErrWrap (page_label ''packing page '' i) e))
      | Inr _ \<Rightarrow> seq (ignore (set_progress job (step_progress i count))) (\<lambda>_.
          seq (cbz_entries_loop src dctx job tmp count (i + 1) urls)
            (\<lambda>es. ret ((page_file_name i (img u), im_data (img u)) # es))))) ?Q"
    by (rule delivers_catch, rule delivers_ext_call)
      (auto simp: fails_after_cleanup intro!: delivers_known delivers_seq [OF delivers_progress] rest [unfolded Suc_eq_plus1 [symmetric]])
  show ?case
    unfolding cbz_entries_loop.simps im ask_def
    by (rule delivers_catch, rule delivers_ext_call)
      (use packed in \<open>auto simp: fails_after_cleanup intro!: delivers_known\<close>)
qed

definition archived_page :: "string \<Rightarrow> int \<Rightarrow> nat \<Rightarrow> string \<Rightarrow> 'z dl_world_scheme \<Rightarrow> bool" where
  "archived_page path chap j name w \<longleftrightarrow> find (page_row chap j) (manga_pages (w_db w)) =
     Some \<lparr>p_chapter = chap, p_number = int j + 1, p_local_path = Some (zip_page_path path name)\<rparr>"

lemma delivers_record:
  "delivers (\<lambda>w :: 'z dl_world_scheme. stage S chap w \<and> (\<forall>k < i. archived_page path chap k (names ! k) w))
     (record_cbz_pages chap path i es)
     (\<lambda>_ w. stage S chap w \<and> (\<forall>k < length names. archived_page path chap k (names ! k) w))"
  if "es = drop i names" "i \<le> length names" for i es
  using that
proof (induction es arbitrary: i)
  case Nil
  then show ?case by (auto intro!: delivers_ret)
next
  case (Cons e es)
  then have i: "i < length names" "names ! i = e" "es = drop (i + 1) names"
    by (metis Cons_nth_drop_Suc drop_all le_neq_implies_less linorder_not_less list.distinct(1) list.inject Suc_eq_plus1)+
  have "delivers (\<lambda>w :: 'z dl_world_scheme. stage S chap w \<and> (\<forall>k < i. archived_page path chap k (names ! k) w))
      (db_call (q_upsert_manga_page chap (int i + 1) (Some (zip_page_path path e))))
      (\<lambda>_ w. stage S chap w \<and> (\<forall>k < i + 1. archived_page path chap k (names ! k) w))"
  proof (rule delivers_db_call)
    fix w :: "'z dl_world_scheme" assume w: "stage S chap w \<and> (\<forall>k < i. archived_page path chap k (names ! k) w)"
    then obtain d where d: "q_upsert_manga_page chap (int i + 1) (Some (zip_page_path path e)) (w_now w) (w_db w) = (Inr (), d)"
      "chapters d = chapters (w_db w)"
      "find (page_row chap i) (manga_pages d) = Some \<lparr>p_chapter = chap, p_number = int i + 1, p_local_path = Some (zip_page_path path e)\<rparr>"
      "\<forall>j. j \<noteq> i \<longrightarrow> find (page_row chap j) (manga_pages d) = find (page_row chap j) (manga_pages (w_db w))"
      using upsert_page [of chap "w_db w" i "Some (zip_page_path path e)" "w_now w"] by auto
    then show "\<exists>x d. q_upsert_manga_page chap (int i + 1) (Some (zip_page_path path e)) (w_now w) (w_db w) = (Inr x, d) \<and>
        (\<forall>fl. stage S chap (w\<lparr>w_faults := fl, w_db := d\<rparr>) \<and>
          (\<forall>k < i + 1. archived_page path chap k (names ! k) (w\<lparr>w_faults := fl, w_db := d\<rparr>)))"
      using w i(2) by (intro exI [of _ "()"] exI [of _ d]) (auto simp: archived_page_def has_chapter_def less_Suc_eq)
  qed
  then show ?case
    unfolding record_cbz_pages.simps
    by (rule delivers_seq [OF delivers_wrap]) (rule Cons.IH, use i in auto)
qed

text \<open>The places of an archive and of its part stand beside the chapter's folder.\<close>

lemma archive_places:
  assumes "proper_ids dctx" "dd \<noteq> []"
  defines "dir \<equiv> build_chapter_dir dd dctx"
  shows "parent (location (dir @ ''.cbz'')) = location (path_dir dir)" "parent (location (dir @ ''.cbz.part'')) = location (path_dir dir)"
    "location (dir @ ''.cbz'') \<noteq> location (dir @ ''.cbz.part'')"
    "\<not> inside (location (dir @ ''.cbz'')) (location (path_dir dir))" "\<not> inside (location (dir @ ''.cbz.part'')) (location (path_dir dir))"
    "inside l (location (path_dir dir)) \<Longrightarrow> inside l (location dir)"
proof -
  let ?cs = "snd (location dd) @ title_segments dctx" and ?n = "chapter_segment dctx"
  have clean: "path_clean dir = dir"
    unfolding dir_def build_chapter_dir_segments by (rule path_join_names_clean [OF assms(2)])
  have loc: "location dir = (rooted dd, ?cs @ [?n])"
    unfolding dir_def using location_chapter_dir [OF assms(1,2)] by simp
  have up: "location (path_dir dir) = (rooted dd, ?cs)" unfolding dir_def by (rule location_chapter_parent [OF assms(1,2)])
  have n: "name_ok ?n" using proper_segments [OF assms(1)] by auto
  have "name_ok (?n @ x)" if "x = ''.cbz'' \<or> x = ''.cbz.part''" for x
    using n that by (auto simp: name_ok_def append_eq_Cons_conv)
  then have "location (dir @ ''.cbz'') = (rooted dd, ?cs @ [?n @ ''.cbz''])"
    "location (dir @ ''.cbz.part'') = (rooted dd, ?cs @ [?n @ ''.cbz.part''])"
    by (intro location_suffix [OF loc clean n]; simp)+
  then show "parent (location (dir @ ''.cbz'')) = location (path_dir dir)" "parent (location (dir @ ''.cbz.part'')) = location (path_dir dir)"
    "location (dir @ ''.cbz'') \<noteq> location (dir @ ''.cbz.part'')"
    "\<not> inside (location (dir @ ''.cbz'')) (location (path_dir dir))" "\<not> inside (location (dir @ ''.cbz.part'')) (location (path_dir dir))"
    by (auto simp: parent_def up inside_def butlast_append simp flip: append_assoc dest: prefix_length_le)
  show "inside l (location (path_dir dir)) \<Longrightarrow> inside l (location dir)" by (auto simp: up loc inside_def simp del: append_assoc intro: prefix_prefix)
qed

definition place_free :: "location \<Rightarrow> fs \<Rightarrow> bool" where
  "place_free l fs \<longleftrightarrow> is_dir fs (parent l) \<and> \<not> is_dir fs l"

lemma write_free: "place_free (location p) fs \<Longrightarrow> os_write_file p c fs = (Inr (), fs_put (location p) (FileNode c) fs)"
  by (simp add: os_write_file_def place_free_def Let_def)

lemma place_free_put:
  "place_free l fs \<Longrightarrow> parent l \<noteq> k \<Longrightarrow> place_free l (fs_put k (FileNode c) fs)"
  by (auto simp: place_free_def is_dir_def)

lemma archive_download_complete:
  fixes w :: "'z dl_world_scheme"
  assumes "download_manga src job dctx w = (r, w')"
    and src: "src_pages src (dc_package_name dctx) (dc_source_entry_id dctx) (dc_source_chapter_id dctx) = Inr urls"
      "urls \<noteq> []" "\<And>u. u \<in> set urls \<Longrightarrow> src_image src (dc_package_name dctx) u = Inr (img u)"
    and w: "dl_image_format w = ''cbz''" "dl_downloads_dir w \<noteq> []" "has_chapter (dc_chapter_id dctx) (w_db w)" "proper_ids dctx"
      "\<not> is_dir (w_fs w) (location (build_chapter_dir (dl_downloads_dir w) dctx @ ''.cbz''))"
      "\<not> is_dir (w_fs w) (location (build_chapter_dir (dl_downloads_dir w) dctx @ ''.cbz.part''))"
      "\<And>l. inside l (location (build_chapter_dir (dl_downloads_dir w) dctx)) \<Longrightarrow> \<not> is_file (w_fs w) l"
  defines "path \<equiv> build_chapter_dir (dl_downloads_dir w) dctx @ ''.cbz''"
  shows "(r = Inr () \<longrightarrow> fs_get (w_fs w') (location path) = Some (FileNode (Archive (archive_entries img 0 urls))) \<and>
           (\<forall>j < length urls. archived_page path (dc_chapter_id dctx) j (page_file_name j (img (urls ! j))) w')) \<and>
         (fault_free w \<longrightarrow> r = Inr ())"
proof -
  let ?dd = "dl_downloads_dir w" and ?chap = "dc_chapter_id dctx"
  define dir where "dir = build_chapter_dir ?dd dctx"
  define es where "es = archive_entries img 0 urls"
  note places = archive_places [OF w(4,2), folded dir_def]
  let ?a = "location (dir @ ''.cbz'')" and ?t = "location (dir @ ''.cbz.part'')"
  let ?start = "\<lambda>fs. (\<forall>l. inside l (location dir) \<longrightarrow> \<not> is_file fs l) \<and> \<not> is_dir fs ?a \<and> \<not> is_dir fs ?t"
  let ?free = "\<lambda>fs. place_free ?a fs \<and> place_free ?t fs"
  have 1: "delivers (stage ?start ?chap :: 'z dl_world_scheme \<Rightarrow> bool) (fs_call (os_mkdir_all (path_dir dir))) (\<lambda>_. stage ?free ?chap)"
  proof (rule delivers_fs_call)
    fix w :: "'z dl_world_scheme" assume w: "stage ?start ?chap w"
    obtain x fs where q: "os_mkdir_all (path_dir dir) (w_fs w) = (x, fs)" by fastforce
    have x: "x = Inr ()" "is_dir fs (location (path_dir dir))" using mkdir_all_result [OF q] w places(6) by auto
    have "fs_get fs ?a = fs_get (w_fs w) ?a" "fs_get fs ?t = fs_get (w_fs w) ?t"
      using mkdir_all_outside [OF q] places(4,5) by blast+
    moreover have "snd ?a \<noteq> []" "snd ?t \<noteq> []" using w by (auto simp: is_dir_def)
    ultimately have "?free fs" using x(2) w places(1,2) by (auto simp: place_free_def is_dir_def)
    then show "\<exists>x fs. os_mkdir_all (path_dir dir) (w_fs w) = (Inr x, fs) \<and> (\<forall>fl. stage ?free ?chap (w\<lparr>w_faults := fl, w_fs := fs\<rparr>))"
      using q x(1) w by simp
  qed
  have up: "location (path_dir dir) \<noteq> ?a" "location (path_dir dir) \<noteq> ?t"
    using places(4,5) by (metis inside_refl)+
  have put: "?free (fs_put ?t (FileNode c) fs)" if "?free fs" for c fs
    using that places(1,2) up by (auto simp: place_free_def is_dir_def)
  have wr: "delivers (stage ?free ?chap :: 'z dl_world_scheme \<Rightarrow> bool) (fs_call (os_write_file (dir @ ''.cbz.part'') c))
      (\<lambda>_. stage (\<lambda>fs. ?free fs \<and> fs_get fs ?t = Some (FileNode c)) ?chap)" for c
    by (rule delivers_fs_call) (use put write_free [of "dir @ ''.cbz.part''"] in auto)
  let ?S = "stage (\<lambda>fs. ?free fs \<and> fs_get fs ?t = Some (FileNode (Archive es))) ?chap :: 'z dl_world_scheme \<Rightarrow> bool"
  have closing: "delivers ?S (ext_call (Inr ())) (\<lambda>_. ?S)"
    by (rule delivers_conseq [OF delivers_ext_call [where P = ?S]]) auto
  have 2: "delivers (stage ?free ?chap :: 'z dl_world_scheme \<Rightarrow> bool) (close_archive (dir @ ''.cbz.part'') es)
      (\<lambda>_. stage (\<lambda>fs. ?free fs \<and> fs_get fs ?t = Some (FileNode (Archive es))) ?chap)"
    unfolding close_archive_def
    by (rule delivers_catch [OF delivers_seq [OF wr closing] _ fails_after_cleanup], rule delivers_ret, simp)
  have 3: "delivers (stage (\<lambda>fs. ?free fs \<and> fs_get fs ?t = Some (FileNode (Archive es))) ?chap :: 'z dl_world_scheme \<Rightarrow> bool)
      (fs_call (os_rename (dir @ ''.cbz.part'') (dir @ ''.cbz'')))
      (\<lambda>_. stage (\<lambda>fs. fs_get fs ?a = Some (FileNode (Archive es))) ?chap)"
    by (rule delivers_fs_call) (use places(3) in \<open>auto simp: os_rename_def place_free_def Let_def\<close>)
  have 4: "delivers (stage (\<lambda>fs. fs_get fs ?a = Some (FileNode (Archive es))) ?chap :: 'z dl_world_scheme \<Rightarrow> bool)
      (record_cbz_pages ?chap (dir @ ''.cbz'') 0 (map fst es))
      (\<lambda>_ w. stage (\<lambda>fs. fs_get fs ?a = Some (FileNode (Archive es))) ?chap w \<and>
        (\<forall>k < length (map fst es). archived_page (dir @ ''.cbz'') ?chap k (map fst es ! k) w))"
    using delivers_record [of "map fst es" 0 "map fst es"] by simp
  have entries: "delivers (stage ?free ?chap :: 'z dl_world_scheme \<Rightarrow> bool) (cbz_entries_loop src dctx job (dir @ ''.cbz.part'') (length urls) 0 urls)
      (\<lambda>x w. x = es \<and> stage ?free ?chap w)"
    unfolding es_def by (rule delivers_entries) (rule src(3))
  have body: "delivers (stage ?start ?chap :: 'z dl_world_scheme \<Rightarrow> bool)
     (seq (wrap ''creating chapter parent dir'' (fs_call (os_mkdir_all (path_dir dir)))) (\<lambda>_.
     seq (wrap ''creating archive'' (fs_call (os_write_file (dir @ ''.cbz.part'') (Bytes [])))) (\<lambda>_.
     seq (cbz_entries_loop src dctx job (dir @ ''.cbz.part'') (length urls) 0 urls) (\<lambda>es.
     seq (close_archive (dir @ ''.cbz.part'') es) (\<lambda>_.
     seq (wrap ''finalizing archive'' (fs_call (os_rename (dir @ ''.cbz.part'') (dir @ ''.cbz'')))) (\<lambda>_.
     record_cbz_pages ?chap (dir @ ''.cbz'') 0 (map fst es)))))))
     (\<lambda>_ w. stage (\<lambda>fs. fs_get fs ?a = Some (FileNode (Archive es))) ?chap w \<and>
        (\<forall>k < length (map fst es). archived_page (dir @ ''.cbz'') ?chap k (map fst es ! k) w))"
    apply (rule delivers_seq [OF delivers_wrap [OF 1]])
    apply (rule delivers_seq [OF delivers_wrap [OF delivers_conseq [OF wr, where R = "\<lambda>_. stage ?free ?chap"]]], simp, simp)
    apply (rule delivers_seq [OF entries])
    apply (rule delivers_known, hypsubst)
    apply (rule delivers_seq [OF 2])
    apply (rule delivers_seq [OF delivers_wrap [OF 3]])
    apply (rule 4)
    done
  have all: "delivers (\<lambda>v :: 'z dl_world_scheme. stage ?start ?chap v \<and> dl_image_format v = ''cbz'' \<and> dl_downloads_dir v = ?dd)
     (download_manga src job dctx)
     (\<lambda>_ w. stage (\<lambda>fs. fs_get fs ?a = Some (FileNode (Archive es))) ?chap w \<and>
        (\<forall>k < length (map fst es). archived_page (dir @ ''.cbz'') ?chap k (map fst es ! k) w))"
    (is "delivers ?begin _ ?end")
  proof -
    have pages: "delivers ?begin (wrap ''fetching page list'' (ask (Inr urls))) (\<lambda>y w. y = urls \<and> ?begin w)"
      unfolding ask_def by (rule delivers_wrap [OF delivers_ext_call]) simp
    have fmt: "delivers ?begin (gets dl_image_format) (\<lambda>f w. f = ''cbz'' \<and> ?begin w)" by (rule delivers_gets) simp
    have place: "delivers ?begin (chapter_dir dctx) (\<lambda>y w. y = dir \<and> stage ?start ?chap w)"
      unfolding chapter_dir_def by (rule delivers_gets) (simp add: dir_def)
    have cbz: "delivers ?begin (download_manga_cbz src job dctx urls) ?end"
      unfolding download_manga_cbz_def Let_def
      apply (rule delivers_seq [OF place])
      apply (rule delivers_known, hypsubst)
      using body apply simp
      done
    show ?thesis
      unfolding download_manga_def src(1)
      apply (rule delivers_seq [OF pages])
      apply (rule delivers_known, hypsubst)
      unfolding if_not_P [OF src(2)]
      apply (rule delivers_seq [OF fmt])
      apply (rule delivers_known)
      using cbz apply simp
      done
  qed
  have es': "length es = length urls" "j < length urls \<Longrightarrow> map fst es ! j = page_file_name j (img (urls ! j))" for j
    by (simp_all add: es_def archive_entries_def nth_enumerate_eq)
  have start: "stage ?start ?chap w \<and> dl_image_format w = ''cbz'' \<and> dl_downloads_dir w = ?dd"
    using w by (simp add: dir_def)
  show ?thesis
    using deliversD [OF all start assms(1)] es' unfolding path_def dir_def [symmetric] es_def [symmetric]
    by (auto simp: es'(1))
qed

section \<open>Either format\<close>

text \<open>The places a download writes to, and what a finished one has stored.\<close>

definition chapter_places :: "bool \<Rightarrow> string \<Rightarrow> image_data list \<Rightarrow> location set" where
  "chapter_places cbz dir imgs = (if cbz then {location (dir @ ''.cbz''), location (dir @ ''.cbz.part'')}
     else {l. \<exists>j < length imgs. l = location (page_path dir j (imgs ! j))})"

definition chapter_stored :: "bool \<Rightarrow> string \<Rightarrow> int \<Rightarrow> image_data list \<Rightarrow> 'z dl_world_scheme \<Rightarrow> bool" where
  "chapter_stored cbz dir chap imgs w \<longleftrightarrow>
     (if cbz
      then fs_get (w_fs w) (location (dir @ ''.cbz'')) = Some (FileNode (Archive
             (map (\<lambda>j. (page_file_name j (imgs ! j), im_data (imgs ! j))) [0..<length imgs]))) \<and>
           (\<forall>j < length imgs. find (page_row chap j) (manga_pages (w_db w)) =
              Some \<lparr>p_chapter = chap, p_number = int j + 1,
                p_local_path = Some (zip_page_path (dir @ ''.cbz'') (page_file_name j (imgs ! j)))\<rparr>)
      else (\<forall>j < length imgs. page_saved dir chap j (imgs ! j) w))"

lemma archive_entries_nth:
  "archive_entries img 0 urls = map (\<lambda>j. (page_file_name j (map img urls ! j), im_data (map img urls ! j))) [0..<length urls]"
  by (rule nth_equalityI) (simp_all add: archive_entries_def nth_enumerate_eq)

text \<open>
  C3: When the download of a manga chapter returns no error, every page of the source's list is stored, in
  order, with the bytes the source sent: as loose images, each in its file, with the row of each page
  number recording exactly that file; in the image format \<open>cbz\<close>, all of them in one archive, under names
  that count from 1, with the row of each page number recording the archive and that name. And it does
  return no error when no call fails. The source answers with a list that is not empty and with every
  image, the chapter has its row, no regular file stands where the chapter's folder or a folder above it
  goes and no directory where a page or the archive goes; for an archive no id of the chapter is a dot or
  a double dot.
\<close>

theorem manga_download_complete:
  fixes w :: "'z dl_world_scheme"
  assumes "download_manga src job dctx w = (r, w')"
    and src: "src_pages src (dc_package_name dctx) (dc_source_entry_id dctx) (dc_source_chapter_id dctx) = Inr urls"
      "urls \<noteq> []" "\<And>u. u \<in> set urls \<Longrightarrow> src_image src (dc_package_name dctx) u = Inr (img u)"
    and w: "dl_downloads_dir w \<noteq> []" "has_chapter (dc_chapter_id dctx) (w_db w)" "dl_image_format w = ''cbz'' \<Longrightarrow> proper_ids dctx"
      "\<And>l. l \<in> chapter_places (dl_image_format w = ''cbz'') (build_chapter_dir (dl_downloads_dir w) dctx) (map img urls) \<Longrightarrow> \<not> is_dir (w_fs w) l"
      "\<And>l. inside l (location (build_chapter_dir (dl_downloads_dir w) dctx)) \<Longrightarrow> \<not> is_file (w_fs w) l"
  shows "(r = Inr () \<longrightarrow> chapter_stored (dl_image_format w = ''cbz'') (build_chapter_dir (dl_downloads_dir w) dctx)
            (dc_chapter_id dctx) (map img urls) w') \<and>
         (fault_free w \<longrightarrow> r = Inr ())"
proof (cases "dl_image_format w = ''cbz''")
  case True
  have "\<not> is_dir (w_fs w) (location (build_chapter_dir (dl_downloads_dir w) dctx @ ''.cbz''))"
    "\<not> is_dir (w_fs w) (location (build_chapter_dir (dl_downloads_dir w) dctx @ ''.cbz.part''))"
    using w(4) True by (simp_all add: chapter_places_def)
  from archive_download_complete [OF assms(1) src(1,2) _ True w(1,2) w(3) [OF True] this w(5)] src(3)
  show ?thesis using True by (simp add: chapter_stored_def archived_page_def archive_entries_nth cong: map_cong)
next
  case False
  have "\<not> is_dir (w_fs w) (location (page_path (build_chapter_dir (dl_downloads_dir w) dctx) j (img (urls ! j))))"
    if "j < length urls" for j
  proof (rule w(4))
    show "location (page_path (build_chapter_dir (dl_downloads_dir w) dctx) j (img (urls ! j)))
        \<in> chapter_places (dl_image_format w = ''cbz'') (build_chapter_dir (dl_downloads_dir w) dctx) (map img urls)"
      using that False by (auto simp: chapter_places_def intro!: exI [of _ j])
  qed
  from loose_download_complete [OF assms(1) src(1,2) _ False w(1,2) this w(5)] src(3)
  show ?thesis using False by (simp add: chapter_stored_def)
qed

definition demo_source :: source where
  "demo_source = \<lparr>src_details = \<lambda>_ _. Inl ErrNoRows, src_chapters = \<lambda>_ _. Inr [], src_episodes = \<lambda>_ _. Inr [],
     src_pages = \<lambda>_ _ _. Inr [''u1'', ''u2''], src_text = \<lambda>_ _ _. Inl ErrNoRows, src_stream = \<lambda>_ _ _. Inl ErrNoRows,
     src_image = \<lambda>_ u. Inr \<lparr>im_content_type = ''image/png'', im_data = u\<rparr>, src_peek = \<lambda>_. Inl ErrNoRows\<rparr>"



definition demo_page_dctx :: download_context where
  "demo_page_dctx = \<lparr>dc_chapter_id = 6, dc_source_chapter_id = ''b'', dc_chapter_title = None,
     dc_chapter_number = Some 2, dc_source_entry_id = ''x'', dc_library_title = ''T'',
     dc_content_type = ''manga'', dc_package_name = ''pkg''\<rparr>"

definition demo_cbz_world :: dl_world where
  "demo_cbz_world = demo_dl_world\<lparr>dl_image_format := ''cbz''\<rparr>"

theorem manga_download_complete_witness:
  "fst (download_manga demo_source 1 demo_page_dctx demo_dl_world) = Inr () \<and>
   fs_get (w_fs (snd (download_manga demo_source 1 demo_page_dctx demo_dl_world)))
     (location ''/dl/manga/pkg/T/Chapter 2/002.png'') = Some (FileNode (Bytes ''u2'')) \<and>
   fst (download_manga demo_source 1 demo_page_dctx demo_cbz_world) = Inr () \<and>
   fs_get (w_fs (snd (download_manga demo_source 1 demo_page_dctx demo_cbz_world)))
     (location ''/dl/manga/pkg/T/Chapter 2.cbz'') = Some (FileNode (Archive [(''001.png'', ''u1''), (''002.png'', ''u2'')]))"
proof -
  let ?img = "\<lambda>u. \<lparr>im_content_type = ''image/png'', im_data = u\<rparr>" and ?dir = "''/dl/manga/pkg/T/Chapter 2''"
  have dirs: "build_chapter_dir (dl_downloads_dir demo_dl_world) demo_page_dctx = ?dir"
    "build_chapter_dir (dl_downloads_dir demo_cbz_world) demo_page_dctx = ?dir" by code_simp+
  have 1: "src_pages demo_source (dc_package_name demo_page_dctx) (dc_source_entry_id demo_page_dctx)
      (dc_source_chapter_id demo_page_dctx) = Inr [''u1'', ''u2'']" by (simp add: demo_source_def)
  have 2: "src_image demo_source (dc_package_name demo_page_dctx) u = Inr (?img u)" for u
    by (simp add: demo_source_def)
  have 3: "dl_downloads_dir demo_dl_world \<noteq> []" "has_chapter (dc_chapter_id demo_page_dctx) (w_db demo_dl_world)"
    "fault_free demo_dl_world" "dl_image_format demo_dl_world \<noteq> ''cbz''" "proper_ids demo_page_dctx" by code_simp+
  have same: "dl_downloads_dir demo_cbz_world = dl_downloads_dir demo_dl_world" "w_db demo_cbz_world = w_db demo_dl_world"
    "w_fs demo_cbz_world = w_fs demo_dl_world" "fault_free demo_cbz_world \<longleftrightarrow> fault_free demo_dl_world"
    "dl_image_format demo_cbz_world = ''cbz''" by (simp_all add: demo_cbz_world_def)
  have free: "\<not> is_dir (w_fs demo_dl_world) (location (page_path ?dir 0 (?img ''u1'')))"
      "\<not> is_dir (w_fs demo_dl_world) (location (page_path ?dir 1 (?img ''u2'')))"
      "\<not> is_dir (w_fs demo_dl_world) (location (?dir @ ''.cbz''))" "\<not> is_dir (w_fs demo_dl_world) (location (?dir @ ''.cbz.part''))"
    by code_simp+
  have 4: "\<not> is_dir (w_fs demo_dl_world) l" if "l \<in> chapter_places b ?dir (map ?img [''u1'', ''u2''])" for l b
    using that free unfolding chapter_places_def by (cases b) (auto simp: less_Suc_eq numeral_2_eq_2)
  have 5: "\<not> is_file (w_fs demo_dl_world) l" if "inside l (location ?dir)" for l
  proof -
    have "\<forall>e \<in> set (w_fs demo_dl_world). \<not> inside (fst e) (location ?dir)" by code_simp
    then show ?thesis using that is_file_listed [of "w_fs demo_dl_world" l] by auto
  qed
  obtain r w' where d: "download_manga demo_source 1 demo_page_dctx demo_dl_world = (r, w')" by fastforce
  have loose: "r = Inr ()" "chapter_stored False ?dir (dc_chapter_id demo_page_dctx) (map ?img [''u1'', ''u2'']) w'"
    using manga_download_complete [OF d 1 _ 2 3(1,2), unfolded dirs, OF _ _ 4 5] 3(3-5) by fastforce+
  obtain s v where c: "download_manga demo_source 1 demo_page_dctx demo_cbz_world = (s, v)" by fastforce
  have cbz: "s = Inr ()" "chapter_stored True ?dir (dc_chapter_id demo_page_dctx) (map ?img [''u1'', ''u2'']) v"
    using manga_download_complete [OF c 1 _ 2, unfolded dirs same, OF _ 3(1,2) _ 4 5] 3(3-5) by fastforce+
  have n: "page_path ?dir 1 (?img ''u2'') = ''/dl/manga/pkg/T/Chapter 2/002.png''"
    "page_file_name 0 (?img ''u1'') = ''001.png''" "page_file_name 1 (?img ''u2'') = ''002.png''" by code_simp+
  have "fs_get (w_fs w') (location (page_path ?dir 1 (?img ''u2''))) = Some (FileNode (Bytes ''u2''))"
    using loose(2) by (auto simp: chapter_stored_def page_saved_def)
  moreover have "fs_get (w_fs v) (location (?dir @ ''.cbz'')) = Some (FileNode (Archive [(''001.png'', ''u1''), (''002.png'', ''u2'')]))"
    using cbz(2) n(2,3) by (simp add: chapter_stored_def upt_rec)
  ultimately show ?thesis using loose(1) cbz(1) d c n(1) by simp
qed

end
