(* ===== verification/DownloadWorkers.thy ===== *)
theory DownloadWorkers
  imports JobFrame QueueOrder DownloadPages
begin

text \<open>
  What a worker's pass does to the queue, and the interleavings of several workers with the user's
  operations as a step relation.
\<close>

section \<open>The outcome of a pass\<close>

lemma discard_partial_downloads:
  "keeps (\<lambda>w :: 'z dl_world_scheme. J (downloads (w_db w))) (discard_partial chap)"
proof -
  have q: "keeps (\<lambda>w :: 'z dl_world_scheme. J (downloads (w_db w))) (db_call (q_delete_manga_pages chap))"
    "keeps (\<lambda>w :: 'z dl_world_scheme. J (downloads (w_db w))) (db_call (q_delete_novel_chapter_content chap))"
    "keeps (\<lambda>w :: 'z dl_world_scheme. J (downloads (w_db w))) (db_call (q_delete_anime_episode_stream chap))"
    by (auto intro!: keeps_db_call [of "\<lambda>d. J (downloads d)"] simp: exec_def q_delete_manga_pages_def
        q_delete_novel_chapter_content_def q_delete_anime_episode_stream_def)
  have l: "keeps (\<lambda>w :: 'z dl_world_scheme. J (downloads (w_db w))) (remove_empty_dirs_loop fuel dir)" for fuel dir
  proof (induction fuel arbitrary: dir)
    case (Suc fuel)
    then show ?case
      by (auto simp: Let_def split: prod.split sum.split
          intro!: keeps_intros keeps_fs_call_db [of "\<lambda>d. J (downloads d)"])
  qed (simp add: keeps_ret)
  show ?thesis
    unfolding discard_partial_def remove_empty_dirs_def chapter_dir_def q_get_chapter_download_context_def
    by (auto split: sum.split intro!: keeps_intros q l keeps_fs_call_db [of "\<lambda>d. J (downloads d)"]
        keeps_db_select(2) [of "\<lambda>d. J (downloads d)"])
qed

lemma fault_free_fs_call: "fault_free w \<Longrightarrow> fault_free (snd (fs_call f w))"
  by (simp add: fs_call_free split: prod.split)

lemma discard_partial_control:
  "keeps (\<lambda>w :: 'z dl_world_scheme. control w = c \<and> (b \<longrightarrow> fault_free w)) (discard_partial chap)"
proof -
  let ?I = "\<lambda>w :: 'z dl_world_scheme. control w = c \<and> (b \<longrightarrow> fault_free w)"
  have d: "keeps ?I (db_call q)" for q
  proof (rule keepsI)
    fix w :: "'z dl_world_scheme" assume w: "?I w"
    obtain x w' where c: "db_call q w = (x, w')" by fastforce
    then have "?I w'" using w by (cases rule: db_call_cases) (auto simp: control_def)
    with c show "?I (snd (db_call q w))" by simp
  qed
  have f: "keeps ?I (fs_call q)" for q
  proof (rule keepsI)
    fix w :: "'z dl_world_scheme" assume w: "?I w"
    obtain x w' where c: "fs_call q w = (x, w')" by fastforce
    then have "?I w'" using w by (cases rule: fs_call_cases) (auto simp: control_def)
    with c show "?I (snd (fs_call q w))" by simp
  qed
  have l: "keeps ?I (remove_empty_dirs_loop fuel dir)" for fuel dir
  proof (induction fuel arbitrary: dir)
    case (Suc fuel)
    then show ?case by (auto simp: Let_def split: prod.split sum.split intro!: keeps_intros f)
  qed (simp add: keeps_ret)
  show ?thesis
    unfolding discard_partial_def remove_empty_dirs_def chapter_dir_def
    by (auto split: sum.split intro!: keeps_intros d f l)
qed

text \<open>The run of the job the pass takes, from the world in which it is marked.\<close>

definition marked :: "download \<Rightarrow> 'z dl_world_scheme \<Rightarrow> 'z dl_world_scheme" where
  "marked job w = snd (mark_job job w)"

lemma mark_job_free:
  assumes "fault_free w"
  shows "mark_job job w = (Inr (Some (dl_next_ctx w)), marked job w)" "fault_free (marked job w)"
    "w_db (marked job w) = update_download (\<lambda>r. d_id r = d_id job) (\<lambda>r. r\<lparr>d_status := Downloading, d_progress := 0\<rparr>) (w_db w)"
    "w_fs (marked job w) = w_fs w"
    "control (marked job w) = (AList.update (d_chapter job) (dl_next_ctx w) (dl_running w), dl_cancelled w,
       Suc (dl_next_ctx w), dl_paused w, dl_downloads_dir w, w_now w)"
  using assms by (simp_all add: marked_def mark_job_def seq_def attempt_def db_call_free gets_def modify_def ret_def
      q_update_download_progress_def exec_def control_def)

lemma first_queued_free:
  assumes "fault_free w" "order_by position_le (queued (w_db w)) = job # rest"
  shows "first_queued w = (Inr (Some job), w)"
  using assms by (simp add: first_queued_def seq_def attempt_def db_call_free q_list_queued_downloads_def
      select_all_def ret_def)

lemma rows_of_job:
  assumes "map d_id rows' = map d_id rows" "job \<in> set (map d_id rows)"
  shows "\<exists>r \<in> set rows'. d_id r = job"
  using assms by (metis (mono_tags, lifting) imageE list.set_map)

lemma other_downloads_update:
  "(\<And>r. d_id (f r) = d_id r) \<Longrightarrow> other_downloads job (update_where (\<lambda>r. d_id r = job) f rows) = other_downloads job rows"
  by (induction rows) (auto simp: other_downloads_def update_where_def)

lemma update_where_row:
  "r \<in> set rows \<Longrightarrow> P r \<Longrightarrow> f r \<in> set (update_where P f rows)"
  by (auto simp: update_where_def)

text \<open>
  C10: A worker's pass over a queue, when no call fails and the job's context is not cancelled
  beforehand, takes the first queued download and settles it: its row ends as done, with full progress
  and the time, exactly when the job returned without an error, and as failed with the text of the error
  otherwise; no other download's row changes, and the chapter is no longer registered as running.
\<close>

theorem process_one_settles_first:
  fixes w :: "'z dl_world_scheme"
  assumes "fault_free w" "order_by position_le (queued (w_db w)) = job # rest"
    "dl_next_ctx w \<notin> set (dl_cancelled w)"
    "run_job src env (dl_next_ctx w) (d_id job) (d_chapter job) (marked job w) = (res, w2)"
  defines "w' \<equiv> snd (process_one src env w)"
  shows "(\<exists>r \<in> set (downloads (w_db w')). d_id r = d_id job \<and>
            (case res of
               Inr _ \<Rightarrow> d_status r = Done \<and> d_progress r = 1 \<and> d_completed_at r = Some (w_now w)
             | Inl e \<Rightarrow> d_status r = Failed \<and> d_error r = Some (err_text e))) \<and>
         other_downloads (d_id job) (downloads (w_db w')) = other_downloads (d_id job) (downloads (w_db w)) \<and>
         map_of (dl_running w') (d_chapter job) = None"
proof -
  let ?ctx = "dl_next_ctx w" and ?i = "d_id job"
  note mark = mark_job_free [OF assms(1), of job]
  have jobin: "job \<in> set (downloads (w_db w))"
    using assms(2) by (metis filter_is_subset list.set_intros(1) queued_def set_order_by subsetD)
  have "process_one src env w = finish_job src env job ?ctx (marked job w)"
    using mark(1) first_queued_free [OF assms(1,2)] by (simp add: process_one_def seq_def)
  then have w': "w' = snd (finish_job src env job ?ctx (marked job w))" by (simp add: w'_def)
  have free2: "fault_free w2"
    using no_faults.keeps_run_job [of src env ?ctx ?i "d_chapter job"] mark(2) assms(4)
    unfolding keeps_def by (metis snd_conv)
  have ctl2: "control w2 = control (marked job w)"
    using control_state.keeps_run_job [of "control (marked job w)" src env ?ctx ?i "d_chapter job"] assms(4)
    unfolding keeps_def by (metis snd_conv)
  have rows2: "other_downloads ?i (downloads (w_db w2)) = other_downloads ?i (downloads (w_db w))"
      "map d_id (downloads (w_db w2)) = map d_id (downloads (w_db w))"
  proof -
    have "other_downloads ?i (downloads (w_db (marked job w))) = other_downloads ?i (downloads (w_db w))"
        "map d_id (downloads (w_db (marked job w))) = map d_id (downloads (w_db w))"
      by (simp_all add: mark(3) update_download_def other_downloads_update map_update_where)
    then show "other_downloads ?i (downloads (w_db w2)) = other_downloads ?i (downloads (w_db w))"
        "map d_id (downloads (w_db w2)) = map d_id (downloads (w_db w))"
      using queue_rows.keeps_run_job [of ?i "other_downloads ?i (downloads (w_db w))" "map d_id (downloads (w_db w))"
          src env ?ctx "d_chapter job"] assms(4)
      unfolding keeps_def by (metis (no_types, lifting) snd_conv)+
  qed
  have nc: "?ctx \<notin> set (dl_cancelled w2)" and now2: "w_now w2 = w_now w"
    using ctl2 mark(5) assms(3) by (simp_all add: control_def)
  have nokey: "map_of (AList.delete k xs) k = None" for k :: int and xs :: "(int \<times> nat) list"
    by (simp add: delete_conv')
  show ?thesis
  proof (cases res)
    case (Inr u)
    let ?P = "\<lambda>r. d_id r = ?i" and ?f = "\<lambda>r. r\<lparr>d_status := Done, d_progress := 1, d_completed_at := Some (w_now w)\<rparr>"
    have e: "w' = release (d_chapter job) ?ctx (w2\<lparr>w_db := (w_db w2)\<lparr>downloads := update_where ?P ?f (downloads (w_db w2))\<rparr>\<rparr>)"
      using w' assms(4) Inr nc free2 now2
      by (simp add: finish_job_def seq_def attempt_def ctx_err_def gets_def ignore_def db_call_free modify_def
          q_complete_download_def exec_def update_download_def)
    obtain r where r: "r \<in> set (downloads (w_db w2))" "d_id r = ?i"
      using rows_of_job [OF rows2(2), of ?i] jobin by auto
    have "?f r \<in> set (update_where ?P ?f (downloads (w_db w2)))" using r by (intro update_where_row)
    then show ?thesis
      using r(2) rows2(1) Inr by (intro conjI bexI [of _ "?f r"])
        (simp_all add: e release_def other_downloads_update nokey)
  next
    case (Inl err)
    obtain w3 where d: "discard_partial (d_chapter job) w2 = (Inr (), w3)"
      by (metis old.unit.exhaust total_discard_partial totalE)
    have "keeps (\<lambda>x :: 'z dl_world_scheme. control x = control w2 \<and> (True \<longrightarrow> fault_free x)) (discard_partial (d_chapter job))"
      by (rule discard_partial_control)
    then have c3: "control w3 = control w2" "fault_free w3" using d free2 unfolding keeps_def by (metis snd_conv)+
    have "keeps (\<lambda>x :: 'z dl_world_scheme. downloads (w_db x) = downloads (w_db w2)) (discard_partial (d_chapter job))"
      by (rule discard_partial_downloads)
    then have d3: "downloads (w_db w3) = downloads (w_db w2)" using d unfolding keeps_def by (metis snd_conv)
    let ?P = "\<lambda>r. d_id r = ?i" and ?f = "\<lambda>r. r\<lparr>d_status := Failed, d_error := Some (err_text err)\<rparr>"
    have e: "w' = release (d_chapter job) ?ctx (w3\<lparr>w_db := (w_db w3)\<lparr>downloads := update_where ?P ?f (downloads (w_db w2))\<rparr>\<rparr>)"
      using w' assms(4) Inl nc c3 d3 d
      by (simp add: finish_job_def seq_def attempt_def ctx_err_def gets_def ignore_def db_call_free modify_def
          q_fail_download_def exec_def update_download_def)
    obtain r where r: "r \<in> set (downloads (w_db w2))" "d_id r = ?i"
      using rows_of_job [OF rows2(2), of ?i] jobin by auto
    have "?f r \<in> set (update_where ?P ?f (downloads (w_db w2)))" using r by (intro update_where_row)
    then show ?thesis
      using r(2) rows2(1) Inl by (intro conjI bexI [of _ "?f r"])
        (simp_all add: e release_def other_downloads_update nokey)
  qed
qed


definition demo_job_world :: dl_world where
  "demo_job_world = demo_dl_world\<lparr>w_db := (w_db demo_dl_world)\<lparr>downloads :=
     [demo_download 10 6 Queued (Some 1), demo_download 11 5 Queued (Some 2)]\<rparr>\<rparr>"

definition demo_av :: av where
  "demo_av = \<lparr>av_ffmpeg = \<lambda>_ fs. ((None, []), fs), av_get = \<lambda>_ _. Inl ErrNoRows, av_resolve = \<lambda>_ _. None\<rparr>"

lemma demo_job_facts:
  "fault_free demo_job_world" "\<not> dl_paused demo_job_world"
  "order_by position_le (queued (w_db demo_job_world)) = demo_download 10 6 Queued (Some 1) # [demo_download 11 5 Queued (Some 2)]"
  "dl_next_ctx demo_job_world \<notin> set (dl_cancelled demo_job_world)"
  by code_simp+

theorem process_one_settles_first_witness:
  "\<exists>r \<in> set (downloads (w_db (snd (process_one demo_source demo_av demo_job_world)))).
     d_id r = 10 \<and> (d_status r = Done \<or> d_status r = Failed)"
proof -
  let ?job = "demo_download 10 6 Queued (Some 1)"
  obtain res w2 where "run_job demo_source demo_av (dl_next_ctx demo_job_world) (d_id ?job) (d_chapter ?job)
      (marked ?job demo_job_world) = (res, w2)" by fastforce
  from process_one_settles_first [OF demo_job_facts(1,3,4) this]
  show ?thesis by (cases res) (auto simp: demo_download_def)
qed

section \<open>What a failed job leaves\<close>

lemma download_context_read_only:
  assumes "read_only d = read_only d'"
  shows "download_context_of d i = download_context_of d' i"
proof -
  have e: "chapters d = chapters d'" "media d = media d'" "extensions d = extensions d'"
    using assms by (simp_all add: read_only_def)
  show ?thesis unfolding download_context_of_def e ..
qed

lemma discard_dir_rows:
  fixes w :: "'z dl_world_scheme"
  assumes "fault_free w"
  shows "\<forall>p \<in> set (manga_pages (w_db (snd (discard_dir chap dir w)))). p_chapter p \<noteq> chap"
proof -
  define pre :: "('z dl_world_scheme, unit) act" where "pre =
      seq (ignore (fs_call (os_remove_all dir))) (\<lambda>_.
      seq (ignore (fs_call (os_remove (dir @ ''.cbz'')))) (\<lambda>_.
      seq (ignore (fs_call (os_remove (dir @ ''.cbz.part'')))) (\<lambda>_. remove_empty_dirs (path_dir dir))))"
  have split: "discard_dir chap dir = seq pre (\<lambda>_.
      seq (ignore (db_call (q_delete_manga_pages chap))) (\<lambda>_.
      seq (ignore (db_call (q_delete_novel_chapter_content chap))) (\<lambda>_.
      ignore (db_call (q_delete_anime_episode_stream chap)))))"
    by (simp add: discard_dir_def pre_def seq_assoc)
  have "keeps (\<lambda>w :: 'z dl_world_scheme. fault_free w) (remove_empty_dirs_loop n d)" for n d
    by (induction n arbitrary: d) (auto simp: Let_def split: prod.split sum.split
        intro!: keeps_intros no_faults.keeps_fs)
  then have "keeps (\<lambda>w. fault_free w) pre"
    unfolding pre_def remove_empty_dirs_def by (intro keeps_intros no_faults.keeps_fs)
  moreover have "total pre" unfolding pre_def by (intro total_intros total_remove_empty_dirs)
  ultimately obtain x w1 where pre: "pre w = (Inr x, w1)" "fault_free w1"
    using assms unfolding keeps_def by (metis snd_conv totalE)
  show ?thesis
    unfolding split using pre
    by (simp add: seq_def ignore_def db_call_free q_delete_manga_pages_def q_delete_novel_chapter_content_def
        q_delete_anime_episode_stream_def exec_def)
qed

text \<open>
  A job that fails leaves nothing behind: after the pass no file or folder is left in the
  chapter's folder and no row records a page of the chapter. This includes what an earlier download
  of the chapter that had succeeded left there: a failing second download takes the first one away.
\<close>

theorem failed_job_leaves_nothing:
  fixes w :: "'z dl_world_scheme"
  assumes "fault_free w" "order_by position_le (queued (w_db w)) = job # rest"
    "dl_next_ctx w \<notin> set (dl_cancelled w)"
    "run_job src env (dl_next_ctx w) (d_id job) (d_chapter job) (marked job w) = (Inl e, w2)"
    "download_context_of (w_db w) (d_chapter job) = Some dctx" "proper_ids dctx" "dl_downloads_dir w \<noteq> []"
  defines "w' \<equiv> snd (process_one src env w)"
  shows "(\<forall>l. inside (location (build_chapter_dir (dl_downloads_dir w) dctx)) l \<longrightarrow> fs_get (w_fs w') l = None) \<and>
         (\<forall>p \<in> set (manga_pages (w_db w')). p_chapter p \<noteq> d_chapter job)"
proof -
  let ?ctx = "dl_next_ctx w" and ?chap = "d_chapter job" and ?dir = "build_chapter_dir (dl_downloads_dir w) dctx"
  note mark = mark_job_free [OF assms(1), of job]
  have free2: "fault_free w2"
    using no_faults.keeps_run_job [of src env ?ctx "d_id job" ?chap] mark(2) assms(4)
    unfolding keeps_def by (metis snd_conv)
  have ctl2: "control w2 = control (marked job w)"
    using control_state.keeps_run_job [of "control (marked job w)" src env ?ctx "d_id job" ?chap] assms(4)
    unfolding keeps_def by (metis snd_conv)
  have "read_only (w_db w2) = read_only (w_db (marked job w))"
    using tables_read.keeps_run_job [of "read_only (w_db (marked job w))" src env ?ctx "d_id job" ?chap] assms(4)
    unfolding keeps_def by (metis snd_conv)
  also have "\<dots> = read_only (w_db w)" by (simp add: mark(3) read_only_def update_download_def)
  finally have dctx2: "download_context_of (w_db w2) ?chap = Some dctx"
    using download_context_read_only assms(5) by metis
  have dd: "dl_downloads_dir w2 = dl_downloads_dir w" "?ctx \<notin> set (dl_cancelled w2)"
    using ctl2 mark(5) assms(3) by (simp_all add: control_def)
  have clean: "path_clean ?dir = ?dir" unfolding build_chapter_dir_segments by (rule path_join_names_clean [OF assms(7)])
  have ne: "snd (location ?dir) \<noteq> []" using location_chapter_dir [OF assms(6,7)] by simp
  obtain w3 where d: "discard_partial ?chap w2 = (Inr (), w3)" by (metis old.unit.exhaust total_discard_partial totalE)
  have "discard_partial ?chap w2 = discard_dir ?chap ?dir w2"
    using discard_partial_free [OF free2 dctx2] dd by simp
  then have w3: "w3 = snd (discard_dir ?chap ?dir w2)" using d by (metis snd_conv)
  have files: "fs_get (w_fs w3) l = None" if "inside (location ?dir) l" for l
    unfolding w3 using discard_dir_clears [OF free2 clean ne that] .
  have pages: "\<forall>p \<in> set (manga_pages (w_db w3)). p_chapter p \<noteq> ?chap"
    unfolding w3 using discard_dir_rows [OF free2] .
  have "process_one src env w = finish_job src env job ?ctx (marked job w)"
    using mark(1) first_queued_free [OF assms(1,2)] by (simp add: process_one_def seq_def)
  then have "w_fs w' = w_fs (snd (db_call (q_fail_download (Some (err_text e)) (d_id job)) w3)) \<and>
      w_db w' = w_db (snd (db_call (q_fail_download (Some (err_text e)) (d_id job)) w3))"
    using assms(4) dd d by (simp add: w'_def finish_job_def seq_def attempt_def ctx_err_def gets_def ignore_def
        modify_def release_def split: prod.split)
  moreover have "manga_pages (w_db (snd (db_call (q_fail_download x i) w3))) = manga_pages (w_db w3)" for x i
  proof -
    obtain y w4 where c: "db_call (q_fail_download x i) w3 = (y, w4)" by fastforce
    then have "manga_pages (w_db w4) = manga_pages (w_db w3)"
      by (cases rule: db_call_cases) (auto simp: q_fail_download_def exec_def update_download_def)
    then show ?thesis using c by simp
  qed
  ultimately show ?thesis using files pages by (simp add: db_call_fs)
qed

definition broken_source :: source where
  "broken_source = demo_source\<lparr>src_pages := \<lambda>_ _ _. Inl (ErrExternal ''HTTP 503'')\<rparr>"

definition demo_done_world :: dl_world where
  "demo_done_world = demo_job_world\<lparr>
     w_db := (w_db demo_job_world)\<lparr>manga_pages := [\<lparr>p_chapter = 6, p_number = 1,
        p_local_path = Some ''/dl/manga/pkg/T/Chapter 2/001.png''\<rparr>]\<rparr>,
     w_fs := (location ''/dl/manga/pkg/T/Chapter 2/001.png'', FileNode (Bytes ''u1'')) # w_fs demo_job_world\<rparr>"

theorem failed_job_leaves_nothing_witness:
  "fs_get (w_fs demo_done_world) (location ''/dl/manga/pkg/T/Chapter 2/001.png'') \<noteq> None \<and>
   fs_get (w_fs (snd (process_one broken_source demo_av demo_done_world)))
     (location ''/dl/manga/pkg/T/Chapter 2/001.png'') = None"
proof -
  let ?job = "demo_download 10 6 Queued (Some 1)"
  have 1: "fault_free demo_done_world" "dl_next_ctx demo_done_world \<notin> set (dl_cancelled demo_done_world)"
    "order_by position_le (queued (w_db demo_done_world)) = ?job # [demo_download 11 5 Queued (Some 2)]" by code_simp+
  obtain res w2 where r: "run_job broken_source demo_av (dl_next_ctx demo_done_world) (d_id ?job) (d_chapter ?job)
      (marked ?job demo_done_world) = (res, w2)" by fastforce
  have "fst (run_job broken_source demo_av (dl_next_ctx demo_done_world) (d_id ?job) (d_chapter ?job)
      (marked ?job demo_done_world)) = Inl (ErrWrap ''fetching page list'' (ErrExternal ''HTTP 503''))" by code_simp
  then obtain e where "res = Inl e" using r by simp
  with r have r: "run_job broken_source demo_av (dl_next_ctx demo_done_world) (d_id ?job) (d_chapter ?job)
      (marked ?job demo_done_world) = (Inl e, w2)" by simp
  have 2: "download_context_of (w_db demo_done_world) (d_chapter ?job) =
      Some \<lparr>dc_chapter_id = 6, dc_source_chapter_id = ''b'', dc_chapter_title = None, dc_chapter_number = Some 2,
      dc_source_entry_id = ''x'', dc_library_title = ''T'', dc_content_type = ''manga'', dc_package_name = ''pkg''\<rparr>"
    by code_simp
  have 3: "proper_ids \<lparr>dc_chapter_id = 6, dc_source_chapter_id = ''b'', dc_chapter_title = None, dc_chapter_number = Some 2,
      dc_source_entry_id = ''x'', dc_library_title = ''T'', dc_content_type = ''manga'', dc_package_name = ''pkg''\<rparr>"
    "dl_downloads_dir demo_done_world \<noteq> []" by code_simp+
  have 4: "inside (location (build_chapter_dir (dl_downloads_dir demo_done_world)
      \<lparr>dc_chapter_id = 6, dc_source_chapter_id = ''b'', dc_chapter_title = None, dc_chapter_number = Some 2,
      dc_source_entry_id = ''x'', dc_library_title = ''T'', dc_content_type = ''manga'', dc_package_name = ''pkg''\<rparr>))
      (location ''/dl/manga/pkg/T/Chapter 2/001.png'')" by code_simp
  have 5: "fs_get (w_fs demo_done_world) (location ''/dl/manga/pkg/T/Chapter 2/001.png'') \<noteq> None" by code_simp
  show ?thesis using failed_job_leaves_nothing [OF 1(1,3,2) r 2 3] 4 5 by blast
qed


section \<open>Several workers\<close>

text \<open>
  A worker is idle, has listed the queue, or runs a job under a context. The steps are those another
  goroutine can come between: listing, marking, running to the end; and the user's operations. A
  cancellation during a run shows in the run as failing calls, which the schedule covers.
\<close>

datatype worker = Idle | Listed download | Running download nat

type_synonym system = "dl_world \<times> worker list"

inductive sys_step :: "source \<Rightarrow> av \<Rightarrow> system \<Rightarrow> system \<Rightarrow> bool" for src env where
  s_list: "i < length ws \<Longrightarrow> ws ! i = Idle \<Longrightarrow> \<not> dl_paused w \<Longrightarrow> first_queued w = (Inr (Some job), w') \<Longrightarrow>
     sys_step src env (w, ws) (w', ws[i := Listed job])"
| s_empty: "i < length ws \<Longrightarrow> ws ! i = Idle \<Longrightarrow> \<not> dl_paused w \<Longrightarrow> first_queued w = (Inr None, w') \<Longrightarrow>
     sys_step src env (w, ws) (w', ws)"
| s_mark: "i < length ws \<Longrightarrow> ws ! i = Listed job \<Longrightarrow> mark_job job w = (Inr (Some ctx), w') \<Longrightarrow>
     sys_step src env (w, ws) (w', ws[i := Running job ctx])"
| s_lost: "i < length ws \<Longrightarrow> ws ! i = Listed job \<Longrightarrow> mark_job job w = (Inr None, w') \<Longrightarrow>
     sys_step src env (w, ws) (w', ws[i := Idle])"
| s_finish: "i < length ws \<Longrightarrow> ws ! i = Running job ctx \<Longrightarrow>
     sys_step src env (w, ws) (snd (finish_job src env job ctx w), ws[i := Idle])"
| s_cancel: "sys_step src env (w, ws) (cancel chap w, ws)"
| s_pause: "sys_step src env (w, ws) (pause w, ws)"
| s_resume: "sys_step src env (w, ws) (resume w, ws)"
| s_reorder: "sys_step src env (w, ws) (snd (reorder chap p w), ws)"
| s_clear: "sys_step src env (w, ws) (snd (clear_queue w), ws)"
| s_enqueue: "sys_step src env (w, ws) (wake (snd (db_call (q_enqueue_download chap) w)), ws)"

inductive_cases sys_stepE: "sys_step src env (w, ws) (w', ws')"

text \<open>
  Contexts are fresh and of one run each, and the map of running jobs only names a context of a
  worker that runs a job of that chapter.
\<close>

definition runs :: "worker list \<Rightarrow> nat \<Rightarrow> download \<Rightarrow> nat \<Rightarrow> bool" where
  "runs ws i job ctx \<longleftrightarrow> i < length ws \<and> ws ! i = Running job ctx"

definition sys_inv :: "system \<Rightarrow> bool" where
  "sys_inv s \<longleftrightarrow>
     (\<forall>i job ctx. runs (snd s) i job ctx \<longrightarrow> ctx < dl_next_ctx (fst s)) \<and>
     (\<forall>i j job job' ctx. runs (snd s) i job ctx \<longrightarrow> runs (snd s) j job' ctx \<longrightarrow> i = j) \<and>
     (\<forall>chap ctx. (chap, ctx) \<in> set (dl_running (fst s)) \<longrightarrow> (\<exists>i job. runs (snd s) i job ctx \<and> d_chapter job = chap))"

lemma runs_update:
  "runs (ws[i := x]) k job ctx \<longleftrightarrow> (if k = i then i < length ws \<and> x = Running job ctx else runs ws k job ctx)"
  by (auto simp: runs_def)

lemma sys_inv_control:
  assumes "dl_running w' = dl_running w" "dl_next_ctx w' = dl_next_ctx w"
  shows "sys_inv (w', ws) = sys_inv (w, ws)"
  using assms by (simp add: sys_inv_def)

lemma db_call_control:
  fixes w :: "'z dl_world_scheme"
  shows "control (snd (db_call q w)) = control w"
proof -
  obtain x w' where c: "db_call q w = (x, w')" by fastforce
  then have "control w' = control w" by (cases rule: db_call_cases) (auto simp: control_def)
  with c show ?thesis by simp
qed

lemma keeps_control_db: "keeps (\<lambda>w :: 'z dl_world_scheme. control w = c) (db_call q)"
  by (rule keepsI) (simp add: db_call_control)

lemma keeps_control_positions: "keeps (\<lambda>w :: 'z dl_world_scheme. control w = c) (set_positions i ds)"
  by (induction ds arbitrary: i) (auto intro!: keeps_intros keeps_control_db)

lemma reorder_control: "control (snd (reorder chap p w)) = control (w :: 'z dl_world_scheme)"
proof -
  have "keeps (\<lambda>x :: 'z dl_world_scheme. control x = control w) (reorder chap p)"
    unfolding reorder_def by (intro keeps_intros keeps_control_db keeps_control_positions)
  then show ?thesis by (simp add: keeps_def)
qed

lemma first_queued_control: "first_queued w = (r, w') \<Longrightarrow> control w' = control (w :: 'z dl_world_scheme)"
proof -
  assume a: "first_queued w = (r, w')"
  have "keeps (\<lambda>x :: 'z dl_world_scheme. control x = control w) first_queued"
    unfolding first_queued_def by (intro keeps_intros keeps_control_db)
  then show ?thesis using a unfolding keeps_def by (metis snd_conv)
qed

lemma control_running:
  "control w' = control w \<Longrightarrow> dl_running w' = dl_running w \<and> dl_next_ctx w' = dl_next_ctx w"
  by (simp add: control_def)

lemma mark_job_result:
  fixes w :: "'z dl_world_scheme"
  assumes "mark_job job w = (r, w')"
  shows "(r = Inr None \<and> control w' = control w) \<or>
         (r = Inr (Some (dl_next_ctx w)) \<and> dl_running w' = AList.update (d_chapter job) (dl_next_ctx w) (dl_running w) \<and>
          dl_next_ctx w' = Suc (dl_next_ctx w))"
proof -
  obtain x w1 where c: "db_call (q_update_download_progress Downloading 0 (d_id job)) w = (x, w1)" by fastforce
  have "control w1 = control w" using db_call_control [of "q_update_download_progress Downloading 0 (d_id job)" w] c by simp
  then show ?thesis
    using assms c by (cases x) (auto simp: mark_job_def seq_def attempt_def gets_def modify_def ret_def control_def)
qed

lemma finish_job_control:
  fixes w :: "'z dl_world_scheme"
  shows "dl_running (snd (finish_job src env job ctx w)) = AList.delete (d_chapter job) (dl_running w) \<and>
         dl_next_ctx (snd (finish_job src env job ctx w)) = dl_next_ctx w"
proof -
  have d: "keeps (\<lambda>x :: 'z dl_world_scheme. control x = control w) (discard_partial (d_chapter job))"
  proof -
    have "keeps (\<lambda>x :: 'z dl_world_scheme. control x = control w \<and> (False \<longrightarrow> fault_free x)) (discard_partial (d_chapter job))"
      by (rule discard_partial_control)
    then show ?thesis by simp
  qed
  define body :: "('z dl_world_scheme, unit) act" where "body =
     seq (attempt (run_job src env ctx (d_id job) (d_chapter job))) (\<lambda>r.
     seq (ctx_err ctx) (\<lambda>cancelled.
     if cancelled
          then seq (discard_partial (d_chapter job)) (\<lambda>_.
               ignore (db_call (q_delete_download_by_chapter (d_chapter job))))
          else (case r of
              Inl e \<Rightarrow> seq (discard_partial (d_chapter job)) (\<lambda>_.
                       ignore (db_call (q_fail_download (Some (err_text e)) (d_id job))))
            | Inr _ \<Rightarrow> ignore (db_call (q_complete_download (d_id job))))))"
  have "keeps (\<lambda>x :: 'z dl_world_scheme. control x = control w) body"
    unfolding body_def ctx_err_def
    by (auto split: sum.split intro!: keeps_intros d keeps_control_db control_state.keeps_run_job)
  moreover have "total body"
    unfolding body_def ctx_err_def
    by (auto split: sum.split intro!: total_intros total_discard_partial)
  ultimately obtain x w1 where b: "body w = (Inr x, w1)" "control w1 = control w"
    unfolding keeps_def by (metis snd_conv totalE)
  have "finish_job src env job ctx = seq body (\<lambda>_. modify (release (d_chapter job) ctx))"
    by (simp add: finish_job_def body_def seq_assoc)
  then show ?thesis using b by (simp add: seq_def modify_def release_def control_def)
qed


lemma sys_inv_set_idle:
  assumes "sys_inv (w, ws)" "dl_running w' = dl_running w" "dl_next_ctx w' = dl_next_ctx w" "\<forall>job ctx. x \<noteq> Running job ctx"
    "i < length ws" "\<forall>job ctx. ws ! i \<noteq> Running job ctx"
  shows "sys_inv (w', ws[i := x])"
proof -
  have "runs (ws[i := x]) = runs ws"
  proof (intro ext)
    fix k j c
    show "runs (ws[i := x]) k j c = runs ws k j c"
      using assms(4-6) by (cases "k = i") (simp_all add: runs_update, simp add: runs_def)
  qed
  then show ?thesis using assms(1-3) by (simp add: sys_inv_def)
qed

lemma sys_inv_mark:
  fixes w w' :: dl_world
  assumes inv: "sys_inv (w, ws)" and i: "i < length ws" "ws ! i = Listed job"
    and run: "dl_running w' = AList.update (d_chapter job) (dl_next_ctx w) (dl_running w)"
    and nxt: "dl_next_ctx w' = Suc (dl_next_ctx w)"
  shows "sys_inv (w', ws[i := Running job (dl_next_ctx w)])"
proof -
  let ?ws = "ws[i := Running job (dl_next_ctx w)]"
  have r: "runs ?ws k j c \<longleftrightarrow> runs ws k j c \<or> (k = i \<and> j = job \<and> c = dl_next_ctx w)" for k j c
    using i by (cases "k = i") (auto simp: runs_update, auto simp: runs_def)
  have lt: "runs ws k j c \<Longrightarrow> c < dl_next_ctx w" for k j c using inv by (simp add: sys_inv_def)
  have uniq: "runs ws k j c \<Longrightarrow> runs ws l j' c \<Longrightarrow> k = l" for k l j j' c using inv by (simp add: sys_inv_def)
  have new: "(ch, c) \<in> set (dl_running w') \<Longrightarrow> (ch, c) \<in> set (dl_running w) \<or> (ch = d_chapter job \<and> c = dl_next_ctx w)"
    for ch c
  proof -
    have "set (AList.update k v xs) \<subseteq> insert (k, v) (set xs)" for k :: int and v :: nat and xs
      by (induction xs) auto
    then show "(ch, c) \<in> set (dl_running w') \<Longrightarrow> ?thesis" unfolding run by blast
  qed
  have known: "(ch, c) \<in> set (dl_running w) \<Longrightarrow> \<exists>k j. runs ws k j c \<and> d_chapter j = ch" for ch c
    using inv by (simp add: sys_inv_def)
  have "c < Suc (dl_next_ctx w)" if "runs ?ws k j c" for k j c
    using that lt [of k j c] by (auto simp: r)
  moreover have "k = l" if "runs ?ws k j c" "runs ?ws l j' c" for k l j j' c
    using that uniq [of k j c l j'] lt [of k j c] lt [of l j' c] by (auto simp: r)
  moreover have "\<exists>k j. runs ?ws k j c \<and> d_chapter j = ch" if "(ch, c) \<in> set (dl_running w')" for ch c
    using new [OF that] known [of ch c] r by blast
  ultimately show ?thesis unfolding sys_inv_def nxt fst_conv snd_conv by blast
qed

lemma sys_inv_finish:
  fixes w w' :: dl_world
  assumes inv: "sys_inv (w, ws)" and i: "i < length ws" "ws ! i = Running job ctx"
    and run: "dl_running w' = AList.delete (d_chapter job) (dl_running w)" and nxt: "dl_next_ctx w' = dl_next_ctx w"
  shows "sys_inv (w', ws[i := Idle])"
proof -
  have r: "runs (ws[i := Idle]) k j c \<longleftrightarrow> k \<noteq> i \<and> runs ws k j c" for k j c
    by (auto simp: runs_update)
  have ri: "runs ws i j c \<Longrightarrow> j = job" for j c using i by (simp add: runs_def)
  have "\<exists>k j. runs (ws[i := Idle]) k j c \<and> d_chapter j = ch" if "(ch, c) \<in> set (dl_running w')" for ch c
  proof -
    have m: "(ch, c) \<in> set (dl_running w)" "ch \<noteq> d_chapter job" using that by (auto simp: run AList.delete_eq)
    then obtain k j where k: "runs ws k j c" "d_chapter j = ch"
      using inv unfolding sys_inv_def fst_conv snd_conv by blast
    then have "k \<noteq> i" using ri m(2) by blast
    then show ?thesis using k r by blast
  qed
  then show ?thesis using inv r unfolding sys_inv_def nxt fst_conv snd_conv by blast
qed

lemma sys_inv_step: "sys_step src env s s' \<Longrightarrow> sys_inv s \<Longrightarrow> sys_inv s'"
proof (induction rule: sys_step.induct)
  case (s_list i ws w job w')
  then show ?case
    using control_running [OF first_queued_control [OF s_list(4)]] by (intro sys_inv_set_idle [of w ws]) auto
next
  case (s_empty i ws w w')
  then show ?case
    using control_running [OF first_queued_control [OF s_empty(4)]] sys_inv_control [of w' w ws] by simp
next
  case (s_mark i ws job w ctx w')
  then have "ctx = dl_next_ctx w" "dl_running w' = AList.update (d_chapter job) (dl_next_ctx w) (dl_running w)"
    "dl_next_ctx w' = Suc (dl_next_ctx w)"
    using mark_job_result [OF s_mark(3)] by auto
  then show ?case using sys_inv_mark s_mark by blast
next
  case (s_lost i ws job w w')
  then have "control w' = control w" using mark_job_result [OF s_lost(3)] by auto
  then show ?case using s_lost control_running by (intro sys_inv_set_idle [of w ws]) auto
next
  case (s_finish i ws job ctx w)
  then show ?case using finish_job_control sys_inv_finish by blast
next
  case (s_cancel w ws chap)
  then show ?case using sys_inv_control [of "cancel chap w" w ws] by (simp add: cancel_def split: option.split)
next
  case (s_pause w ws)
  then show ?case using sys_inv_control [of "pause w" w ws] by (simp add: pause_def)
next
  case (s_resume w ws)
  then show ?case using sys_inv_control [of "resume w" w ws] by (simp add: resume_def wake_def)
next
  case (s_reorder w ws chap p)
  then show ?case using control_running [OF reorder_control [of chap p w]] sys_inv_control by blast
next
  case (s_clear w ws)
  then show ?case using control_running [OF db_call_control [of _ w]] sys_inv_control unfolding clear_queue_def by blast
next
  case (s_enqueue w ws chap)
  have "dl_running (wake (snd (db_call (q_enqueue_download chap) w))) = dl_running w \<and>
      dl_next_ctx (wake (snd (db_call (q_enqueue_download chap) w))) = dl_next_ctx w"
    using control_running [OF db_call_control [of "q_enqueue_download chap" w]] by (simp add: wake_def)
  then show ?case using s_enqueue sys_inv_control by blast
qed

lemma sys_inv_reachable:
  assumes "(sys_step src env)\<^sup>*\<^sup>* (w0, replicate n Idle) s" "dl_running w0 = []"
  shows "sys_inv s"
  using assms(1)
proof (induction rule: rtranclp_induct)
  case base
  have "\<not> runs (replicate n Idle) i job ctx" for i job ctx by (auto simp: runs_def)
  then show ?case using assms(2) by (simp add: sys_inv_def)
next
  case (step y z)
  then show ?case using sys_inv_step by blast
qed

text \<open>
  C15: However workers and the user's operations interleave and whatever calls fail, cancelling a
  chapter only ever stops a run of that chapter: at most the context of one worker is cancelled and
  that worker runs a job of the chapter; the contexts of running jobs are pairwise different, so no
  other run is stopped with it.
\<close>

theorem cancel_stops_only_its_chapter:
  assumes "(sys_step src env)\<^sup>*\<^sup>* (w0, replicate n Idle) (w, ws)" "dl_running w0 = []"
    "i < length ws" "ws ! i = Running job ctx" "d_chapter job \<noteq> chap"
  shows "ctx \<in> set (dl_cancelled (cancel chap w)) \<longleftrightarrow> ctx \<in> set (dl_cancelled w)"
proof (cases "map_of (dl_running w) chap")
  case (Some c)
  have inv: "sys_inv (w, ws)" using sys_inv_reachable [OF assms(1,2)] .
  have "(chap, c) \<in> set (dl_running w)" using Some by (rule map_of_SomeD)
  then obtain k j where k: "runs ws k j c" "d_chapter j = chap"
    using inv unfolding sys_inv_def fst_conv snd_conv by blast
  have i: "runs ws i job ctx" using assms(3,4) by (simp add: runs_def)
  have "c \<noteq> ctx"
  proof
    assume "c = ctx"
    then have "k = i" using inv k(1) i by (simp add: sys_inv_def)
    then show False using k i assms(5) by (simp add: runs_def)
  qed
  then show ?thesis using Some by (simp add: cancel_def)
qed (simp add: cancel_def)

theorem cancel_stops_only_its_chapter_witness:
  "0 \<in> set (dl_cancelled (cancel 5 (marked (demo_download 10 6 Queued (Some 1)) demo_job_world))) \<longleftrightarrow>
   0 \<in> set (dl_cancelled (marked (demo_download 10 6 Queued (Some 1)) demo_job_world))"
proof -
  let ?job = "demo_download 10 6 Queued (Some 1)" and ?step = "sys_step demo_source demo_av"
  note f = demo_job_facts
  have 1: "?step (demo_job_world, replicate 1 Idle) (demo_job_world, (replicate 1 Idle)[0 := Listed ?job])"
    using f(2) first_queued_free [OF f(1,3)] by (intro s_list) simp_all
  have n: "dl_next_ctx demo_job_world = 0" by code_simp
  have 2: "?step (demo_job_world, [Listed ?job]) (marked ?job demo_job_world, [Listed ?job][0 := Running ?job 0])"
    using mark_job_free(1) [OF f(1), of ?job] n by (intro s_mark) simp_all
  have r: "?step\<^sup>*\<^sup>* (demo_job_world, replicate 1 Idle) (marked ?job demo_job_world, [Running ?job 0])"
    using 1 2 by (auto intro: rtranclp.intros)
  have "dl_running demo_job_world = []" by code_simp
  moreover have "d_chapter ?job \<noteq> 5" by code_simp
  ultimately show ?thesis using cancel_stops_only_its_chapter [OF r, of 0 ?job 0 5] by simp
qed

text \<open>
  Marking a job is not a claim: the update has no condition on the status, so two workers that
  list the queue before either marks its job both run the first job, downloading the chapter twice
  at the same time under two contexts.
\<close>

theorem two_workers_run_same_job:
  assumes "fault_free w" "\<not> dl_paused w" "order_by position_le (queued (w_db w)) = job # rest"
  shows "\<exists>w'. (sys_step src env)\<^sup>*\<^sup>* (w, [Idle, Idle])
           (w', [Running job (dl_next_ctx w), Running job (Suc (dl_next_ctx w))])"
proof -
  let ?step = "sys_step src env"
  note q = first_queued_free [OF assms(1,3)]
  have 1: "?step (w, [Idle, Idle]) (w, [Idle, Idle][0 := Listed job])"
    using assms(2) q by (intro s_list) simp_all
  have 2: "?step (w, [Listed job, Idle]) (w, [Listed job, Idle][1 := Listed job])"
    using assms(2) q by (intro s_list) simp_all
  have 3: "?step (w, [Listed job, Listed job]) (marked job w, [Listed job, Listed job][0 := Running job (dl_next_ctx w)])"
    using mark_job_free(1) [OF assms(1), of job] by (intro s_mark) simp_all
  let ?w1 = "marked job w"
  have n: "dl_next_ctx ?w1 = Suc (dl_next_ctx w)" using mark_job_free(5) [OF assms(1), of job] by (simp add: control_def)
  have 4: "?step (?w1, [Running job (dl_next_ctx w), Listed job])
      (marked job ?w1, [Running job (dl_next_ctx w), Listed job][1 := Running job (dl_next_ctx ?w1)])"
    using mark_job_free(1) [OF mark_job_free(2) [OF assms(1)], of job job] by (intro s_mark) simp_all
  have "?step\<^sup>*\<^sup>* (w, [Idle, Idle]) (marked job ?w1, [Running job (dl_next_ctx w), Running job (Suc (dl_next_ctx w))])"
    using 1 2 3 4 n by (auto intro: rtranclp.intros)
  then show ?thesis by blast
qed

theorem two_workers_run_same_job_witness:
  "\<exists>w'. (sys_step demo_source demo_av)\<^sup>*\<^sup>* (demo_job_world, [Idle, Idle])
     (w', [Running (demo_download 10 6 Queued (Some 1)) 0, Running (demo_download 10 6 Queued (Some 1)) 1])"
proof -
  have "dl_next_ctx demo_job_world = 0" by code_simp
  then show ?thesis using two_workers_run_same_job [OF demo_job_facts(1,2,3)] by simp
qed

end
