(* ===== verification/DemoLibrary.thy ===== *)
theory DemoLibrary
  imports Sandbox
begin

text \<open>
  A small concrete library and the answers of its source, on which the properties of the library
  components are instantiated: one repository with two extensions, two entries (the first in a
  folder, with a chapter that was read), and the two reading-status folders.
\<close>

definition demo_extension :: "int \<Rightarrow> string \<Rightarrow> extension" where
  "demo_extension i pkg = \<lparr>x_id = i, x_repository = 1, x_package = pkg, x_name = pkg, x_version = ''2'',
     x_content_type = ''manga'', x_lang = ''en'', x_icon_url = None, x_icon_local_path = None,
     x_apk_url = ''https://r/a.apk'', x_jar_url = Some ''https://r/a.jar'', x_jar_path = None, x_installed = False,
     x_enabled = True, x_installed_at = None, x_installed_version = None, x_is_nsfw = False,
     x_supports_latest = True, x_source_id = 0\<rparr>"

definition demo_medium :: "int \<Rightarrow> int \<Rightarrow> string \<Rightarrow> int option \<Rightarrow> medium" where
  "demo_medium i x ext_id fetched = \<lparr>m_id = i, m_extension_id = Some x, m_extension_name = ''pkg'', m_external_id = ext_id,
     m_content_type = ''manga'', m_title = ''T'', m_cover_path = None, m_cover_local_path = None,
     m_description = None, m_status = None, m_author = None, m_artist = None, m_extension_removed_at = None,
     m_added_at = Some 5, m_last_viewed_at = None, m_details_fetched_at = fetched, m_chapters_synced_at = None,
     m_cover_override = None, m_content_block_rank = None, m_search_failed_at = None\<rparr>"

definition demo_chapter :: "int \<Rightarrow> int \<Rightarrow> string \<Rightarrow> f64 option \<Rightarrow> chapter_row" where
  "demo_chapter i media_id ext_id n = \<lparr>c_id = i, c_media = media_id, c_external_id = ext_id, c_title = None, c_number = n,
     c_uploaded_at = None, c_source_order = Some 0, c_first_seen_at = Some 5, c_scanlator = []\<rparr>"

definition demo_folder :: "int \<Rightarrow> string \<Rightarrow> string option \<Rightarrow> folder" where
  "demo_folder i kind key = \<lparr>f_id = i, f_name = ''f'', f_kind = kind, f_system_key = key, f_parent = None,
     f_sort_order = i, f_include_in_update = 0, f_include_in_download = 0\<rparr>"

definition demo_progress :: "int \<Rightarrow> int \<Rightarrow> int \<Rightarrow> reading_progress" where
  "demo_progress i media_id chapter_id = \<lparr>rp_id = i, rp_media = media_id, rp_chapter = chapter_id, rp_progress = 1,
     rp_completed = True, rp_position_seconds = None, rp_duration_seconds = None, rp_updated_at = 6\<rparr>"

definition demo_library :: db where
  "demo_library = empty_db\<lparr>
     repositories := [\<lparr>re_id = 1, re_index_url = ''https://r/index.json'', re_name = None,
        re_content_type = ''manga'', re_added_at = 1, re_last_synced_at = None\<rparr>],
     extensions := [demo_extension 1 ''pkg.one'', demo_extension 2 ''pkg.two''],
     media := [demo_medium 1 1 ''m1'' (Some 5), demo_medium 2 2 ''m2'' (Some 5)],
     chapters := [demo_chapter 10 1 ''c1'' (Some 1), demo_chapter 20 2 ''d1'' (Some 1)],
     folders := [demo_folder 1 ''reading_status'' (Some ''reading''),
        demo_folder 2 ''reading_status'' (Some ''completed''), demo_folder 3 ''custom'' None],
     media_folders := [(1, 1), (1, 3)],
     progresses := [demo_progress 1 1 10]\<rparr>"

definition demo_world :: world where
  "demo_world = \<lparr>w_db = demo_library, w_now = 9, w_faults = []\<rparr>"

definition demo_summary :: "string \<Rightarrow> string \<Rightarrow> f64 \<Rightarrow> chapter_summary" where
  "demo_summary i name n = \<lparr>cs_source_id = i, cs_name = name, cs_number = n, cs_upload_ts = 0\<rparr>"

definition demo_catalog :: source where
  "demo_catalog = \<lparr>src_details = (\<lambda>_ e. Inr \<lparr>ed_source_entry_id = e, ed_title = ''New'', ed_cover_url = [],
       ed_description = [], ed_status = [], ed_authors = [''A''], ed_genres = [''Drama'', '' '']\<rparr>),
     src_chapters = (\<lambda>_ e. if e = ''m1'' then Inr [demo_summary ''c2'' ''Extra'' 0, demo_summary ''c1'' ''Prologue'' 0]
                           else Inr [demo_summary ''d1'' ''Prologue'' 0]),
     src_episodes = (\<lambda>_ _. Inr []), src_pages = (\<lambda>_ _ _. Inl ErrNoRows), src_text = (\<lambda>_ _ _. Inl ErrNoRows),
     src_stream = (\<lambda>_ _ _. Inl ErrNoRows), src_image = (\<lambda>_ u. Inr \<lparr>im_content_type = ''image/png'', im_data = u\<rparr>),
     src_peek = (\<lambda>_. Inl ErrNoRows)\<rparr>"

text \<open>Whether a call returned a value.\<close>

definition succeeds :: "(go_err + 'a) \<Rightarrow> bool" where
  "succeeds r = (case r of Inl _ \<Rightarrow> False | Inr _ \<Rightarrow> True)"

lemma succeedsE: "succeeds (fst p) \<Longrightarrow> (\<And>x w'. p = (Inr x, w') \<Longrightarrow> thesis) \<Longrightarrow> thesis"
  by (cases p) (auto simp: succeeds_def split: sum.splits)

lemma failsE: "\<not> succeeds (fst p) \<Longrightarrow> (\<And>e w'. p = (Inl e, w') \<Longrightarrow> thesis) \<Longrightarrow> thesis"
  by (cases p) (auto simp: succeeds_def split: sum.splits)

end
