(* ===== verification/ChapterSync.thy ===== *)
theory ChapterSync
  imports ChapterNum DemoLibrary Q_Chapters Q_Library
begin

text \<open>
  The synchronisation of an entry's chapter list with its source (\<open>internal/sync/sync.go\<close>,
  \<open>fetchChapterSummaries\<close> to \<open>SyncChapters\<close>): fetch the list, put it oldest first, resolve the
  chapter numbers, number the groups of duplicates, and upsert every chapter in one transaction.
  The lemmas show that the written table is the one the source's list describes, that a failed
  synchronisation leaves it untouched, and that repeating one changes nothing.
\<close>

section \<open>The source's list\<close>

text \<open>The loop of \<open>chaptersAreNewestFirst\<close>: how often the number rises and falls.\<close>

fun count_moves :: "f64 option \<Rightarrow> chapter_summary list \<Rightarrow> nat \<times> nat" where
  "count_moves prev [] = (0, 0)"
| "count_moves prev (c # cs) =
     (if cs_number c \<le> 0 then count_moves prev cs
      else let (asc, desc) = count_moves (Some (cs_number c)) cs in
        case prev of None \<Rightarrow> (asc, desc)
        | Some p \<Rightarrow> if p < cs_number c then (asc + 1, desc)
                    else if cs_number c < p then (asc, desc + 1) else (asc, desc))"

definition chapters_are_newest_first :: "chapter_summary list \<Rightarrow> bool" where
  "chapters_are_newest_first s =
     (if length s < 2 then False
      else let (asc, desc) = count_moves None s in
        if asc \<noteq> desc then asc < desc
        else let a = cs_upload_ts (hd s); b = cs_upload_ts (last s) in
          if 0 < a \<and> 0 < b \<and> a \<noteq> b then b < a else True)"

definition oldest_first :: "chapter_summary list \<Rightarrow> chapter_summary list" where
  "oldest_first s = (if chapters_are_newest_first s then rev s else s)"

definition fetch_chapter_summaries ::
    "source \<Rightarrow> string \<Rightarrow> string \<Rightarrow> string \<Rightarrow> ('z world_scheme, chapter_summary list) act" where
  "fetch_chapter_summaries src pkg content_type entry =
     seq (if content_type = ''anime''
          then wrap (''get episodes for '' @ pkg @ ''/'' @ entry) (ask (src_episodes src pkg entry))
          else wrap (''get chapters for '' @ pkg @ ''/'' @ entry) (ask (src_chapters src pkg entry)))
       (\<lambda>s. ret (oldest_first s))"

subsection \<open>The order, independently of the loop\<close>

text \<open>
  The chapter numbers a source gave, the neighbours among them, and how many of these neighbours
  rise and fall. A list is in reading order when it is the source's list or its reverse, its numbers
  do not fall more often than they rise and, when they do both equally often, the first chapter was
  uploaded before the last; a list these two tests say nothing about is taken to be newest first,
  so the reading order is its reverse.
\<close>

definition numbers_given :: "chapter_summary list \<Rightarrow> f64 list" where
  "numbers_given s = filter (\<lambda>x. 0 < x) (map cs_number s)"

definition neighbours :: "'a list \<Rightarrow> ('a \<times> 'a) list" where
  "neighbours xs = zip xs (tl xs)"

definition rises :: "f64 list \<Rightarrow> nat" where
  "rises ns = length (filter (\<lambda>(x, y). x < y) (neighbours ns))"

definition falls :: "f64 list \<Rightarrow> nat" where
  "falls ns = length (filter (\<lambda>(x, y). y < x) (neighbours ns))"

definition reading_order :: "chapter_summary list \<Rightarrow> chapter_summary list \<Rightarrow> bool" where
  "reading_order answer ordered \<longleftrightarrow>
     (ordered = answer \<or> ordered = rev answer) \<and>
     falls (numbers_given ordered) \<le> rises (numbers_given ordered) \<and>
     (falls (numbers_given ordered) = rises (numbers_given ordered) \<longrightarrow>
        (if answer \<noteq> [] \<and> 0 < cs_upload_ts (hd answer) \<and> 0 < cs_upload_ts (last answer) \<and>
            cs_upload_ts (hd answer) \<noteq> cs_upload_ts (last answer)
         then cs_upload_ts (hd ordered) < cs_upload_ts (last ordered) else ordered = rev answer))"

lemma neighbours_simps:
  "neighbours [] = []" "neighbours [x] = []" "neighbours (x # y # zs) = (x, y) # neighbours (y # zs)"
  by (simp_all add: neighbours_def)

lemma neighbours_snoc: "neighbours (xs @ [y, z]) = neighbours (xs @ [y]) @ [(y, z)]"
proof (induction xs)
  case (Cons x xs) then show ?case by (cases xs) (auto simp: neighbours_simps)
qed (simp add: neighbours_simps)

lemma neighbours_rev: "neighbours (rev xs) = rev (map (\<lambda>(x, y). (y, x)) (neighbours xs))"
  by (induction xs rule: induct_list012) (auto simp: neighbours_simps neighbours_snoc)

lemma rises_rev: "rises (rev ns) = falls ns" "falls (rev ns) = rises ns"
  by (simp_all add: rises_def falls_def neighbours_rev rev_filter [symmetric] filter_map o_def case_prod_unfold)

lemma numbers_given_rev: "numbers_given (rev s) = rev (numbers_given s)"
  by (simp add: numbers_given_def rev_map rev_filter)

lemma count_moves_spec:
  "count_moves prev s = (let ns = (case prev of None \<Rightarrow> [] | Some p \<Rightarrow> [p]) @ numbers_given s
     in (rises ns, falls ns))"
proof (induction s arbitrary: prev)
  case Nil show ?case
    by (cases prev) (simp_all add: numbers_given_def rises_def falls_def neighbours_simps)
next
  case (Cons c s) show ?case
    by (cases prev) (auto simp: Cons.IH numbers_given_def rises_def falls_def neighbours_simps Let_def)
qed

lemma reading_order_oldest_first: "reading_order answer (oldest_first answer)"
proof (cases "length answer < 2")
  case True
  then consider "answer = []" | c where "answer = [c]" by (cases answer; cases "tl answer") auto
  then show ?thesis
    by cases (auto simp: reading_order_def oldest_first_def chapters_are_newest_first_def numbers_given_def
        rises_def falls_def neighbours_simps)
next
  case False
  then have "answer \<noteq> []" by auto
  then show ?thesis using False
    by (auto simp: reading_order_def oldest_first_def chapters_are_newest_first_def count_moves_spec Let_def
        numbers_given_rev rises_rev hd_rev last_rev)
qed

lemma falls_of_sorted: "sorted_wrt (<) ns \<Longrightarrow> falls ns = 0" "sorted_wrt (>) ns \<Longrightarrow> rises ns = 0"
  by (induction ns rule: induct_list012) (auto simp: falls_def rises_def neighbours_simps)

lemma rises_of_sorted: "sorted_wrt (>) ns \<Longrightarrow> falls ns = length ns - 1"
  by (induction ns rule: induct_list012) (auto simp: falls_def neighbours_simps)

lemma reading_order_ascends:
  assumes "reading_order answer ordered"
    "sorted_wrt (<) (numbers_given answer) \<or> sorted_wrt (>) (numbers_given answer)"
  shows "sorted_wrt (<) (numbers_given ordered)"
proof -
  let ?ns = "numbers_given ordered"
  have "sorted_wrt (<) ?ns \<or> sorted_wrt (>) ?ns"
    using assms by (auto simp: reading_order_def numbers_given_rev sorted_wrt_rev)
  moreover have "sorted_wrt (<) ?ns" if d: "sorted_wrt (>) ?ns"
  proof -
    have "length ?ns - 1 \<le> 0"
      using assms(1) falls_of_sorted(2) [OF d] rises_of_sorted [OF d] by (simp add: reading_order_def)
    then show ?thesis by (cases ?ns; cases "tl ?ns") auto
  qed
  ultimately show ?thesis by blast
qed

section \<open>Groups of duplicates\<close>

text \<open>\<open>strconv.FormatFloat(x, 'f', 4, 64)\<close> of a positive number.\<close>

definition format_4 :: "f64 \<Rightarrow> string" where
  "format_4 x = (let q = nat (round_even (x * 10000)); f = nat_digits (q mod 10000) in
     nat_digits (q div 10000) @ ''.'' @ replicate (4 - length f) (CHR ''0'') @ f)"

text \<open>The text before the first of two marks, trimmed.\<close>

definition before_any :: "char \<Rightarrow> char \<Rightarrow> string \<Rightarrow> string" where
  "before_any a b s = (if a \<in> set s \<or> b \<in> set s
     then trim_space (takeWhile (\<lambda>c. c \<noteq> a \<and> c \<noteq> b) s) else s)"

text \<open>\<open>wsRun.ReplaceAllString(s, " ")\<close>.\<close>

fun collapse_ws :: "bool \<Rightarrow> string \<Rightarrow> string" where
  "collapse_ws in_run [] = []"
| "collapse_ws in_run (c # s) =
     (if is_re_space c then (if in_run then collapse_ws True s else CHR '' '' # collapse_ws True s)
      else c # collapse_ws False s)"

definition chapter_group_key :: "chapter_summary \<Rightarrow> string" where
  "chapter_group_key s =
     (if 0 < cs_number s then ''n:'' @ format_4 (cs_number s)
      else let base = trim_space (cs_name s);
               base = before_any (CHR '':'') (CHR ''|'') base;
               base = before_any (CHR ''['') (CHR ''('') base;
               base = collapse_ws False (to_lower base)
        in if base = [] then ''i:'' @ cs_source_id s else ''t:'' @ base)"

fun add_group :: "string \<Rightarrow> nat \<Rightarrow> (string \<times> nat list) list \<Rightarrow> (string \<times> nat list) list" where
  "add_group k i [] = [(k, [i])]"
| "add_group k i ((k', js) # gs) = (if k' = k then (k', js @ [i]) # gs else (k', js) # add_group k i gs)"

definition groups_of :: "string list \<Rightarrow> (string \<times> nat list) list" where
  "groups_of ks = fold (\<lambda>(i, k). add_group k i) (enumerate 0 ks) []"

definition number_group :: "nat list \<Rightarrow> string list \<Rightarrow> string list" where
  "number_group idxs out =
     (if length idxs < 2 then out
      else fold (\<lambda>(pos, i) out. out[i := nat_digits (pos + 1)]) (enumerate 0 idxs) out)"

definition number_groups :: "(string \<times> nat list) list \<Rightarrow> nat \<Rightarrow> string list" where
  "number_groups gs n = fold (\<lambda>(k, idxs). number_group idxs) gs (replicate n [])"

definition derive_scanlators :: "chapter_summary list \<Rightarrow> string list" where
  "derive_scanlators ss = number_groups (groups_of (map chapter_group_key ss)) (length ss)"

section \<open>Writing the chapters\<close>

definition chapter_params :: "int \<Rightarrow> string list \<Rightarrow> nat \<times> chapter_summary \<Rightarrow> create_chapter_params" where
  "chapter_params media_id scanlators = (\<lambda>(idx, sm). \<lparr>cp_media = media_id, cp_external_id = cs_source_id sm,
     cp_title = null_string (cs_name sm), cp_number = Some (cs_number sm),
     cp_uploaded_at = (if 0 < cs_upload_ts sm then Some (cs_upload_ts sm div 1000) else None),
     cp_source_order = Some (int idx), cp_scanlator = scanlators ! idx\<rparr>)"

definition resolve_summary :: "chapter_summary \<Rightarrow> chapter_summary" where
  "resolve_summary s = s\<lparr>cs_number := resolve (cs_number s) (cs_name s)\<rparr>"

definition write_chapters :: "int \<Rightarrow> chapter_summary list \<Rightarrow> ('z world_scheme, chapter_row list) act" where
  "write_chapters media_id ss =
     (let scanlators = derive_scanlators ss in
      map_act (\<lambda>(idx, sm). wrap (''upsert chapter '' @ cs_source_id sm)
         (db_call (q_create_chapter (chapter_params media_id scanlators (idx, sm))))) (enumerate 0 ss))"

text \<open>\<open>SyncChapters\<close> from the lookup of the extension on.\<close>

definition sync_chapters_from ::
    "source \<Rightarrow> int \<Rightarrow> int \<Rightarrow> string \<Rightarrow> ('z world_scheme, chapter_row list) act" where
  "sync_chapters_from src media_id xi entry =
     seq (wrap (''get extension '' @ int_digits xi) (db_call (q_get_extension xi))) (\<lambda>x.
     seq (fetch_chapter_summaries src (x_package x) (x_content_type x) entry) (\<lambda>fetched.
     let ss = map resolve_summary fetched in
     seq (in_tx (ErrWrap ''begin chapter sync tx'') (ErrWrap ''commit chapter sync tx'')
            (write_chapters media_id ss)) (\<lambda>rows.
     seq (ignore (db_call (q_mark_chapters_synced media_id))) (\<lambda>_. ret rows))))"

definition sync_chapters :: "source \<Rightarrow> int \<Rightarrow> ('z world_scheme, chapter_row list) act" where
  "sync_chapters src media_id =
     seq (wrap (''get media '' @ int_digits media_id) (db_call (q_get_media media_id))) (\<lambda>entry.
     case m_extension_id entry of
       None \<Rightarrow> fail (ErrMsg (''media '' @ int_digits media_id @ '' has no extension (extension was removed)''))
     | Some xi \<Rightarrow> sync_chapters_from src media_id xi (m_external_id entry))"

section \<open>Numbering the groups\<close>

lemma map_of_add_group:
  "map_of (add_group k i gs) = (map_of gs)(k \<mapsto> (case map_of gs k of None \<Rightarrow> [i] | Some js \<Rightarrow> js @ [i]))"
  by (induction k i gs rule: add_group.induct) (auto simp: fun_eq_iff)

lemma keys_add_group: "fst ` set (add_group k i gs) = insert k (fst ` set gs)"
  by (induction k i gs rule: add_group.induct) auto

lemma distinct_add_group: "distinct (map fst gs) \<Longrightarrow> distinct (map fst (add_group k i gs))"
proof (induction k i gs rule: add_group.induct)
  case (2 k i k' js gs)
  have "k' \<notin> fst ` set (add_group k i gs)" if "k' \<noteq> k"
    using 2 that keys_add_group [of k i gs] by auto
  then show ?case using 2 by auto
qed simp

abbreviation positions :: "string list \<Rightarrow> string \<Rightarrow> nat list" where
  "positions ks k \<equiv> filter (\<lambda>i. ks ! i = k) [0..<length ks]"

lemma groups_of_snoc: "groups_of (ks @ [k]) = add_group k (length ks) (groups_of ks)"
  by (simp add: groups_of_def enumerate_append_eq)

lemma positions_snoc:
  "positions (ks @ [k]) k' = positions ks k' @ (if k = k' then [length ks] else [])"
proof -
  have "filter (\<lambda>i. (ks @ [k]) ! i = k') [0..<length ks] = positions ks k'"
    by (rule filter_cong) (auto simp: nth_append)
  then show ?thesis by simp
qed

lemma groups_of_spec:
  "distinct (map fst (groups_of ks)) \<and>
   map_of (groups_of ks) k = (if positions ks k = [] then None else Some (positions ks k))"
proof (induction ks arbitrary: k rule: rev_induct)
  case (snoc a ks)
  have d: "distinct (map fst (groups_of ks))" using snoc.IH by blast
  have m: "map_of (groups_of ks) x = (if positions ks x = [] then None else Some (positions ks x))" for x
    using snoc.IH by blast
  show ?case
    unfolding groups_of_snoc positions_snoc map_of_add_group
    using distinct_add_group [OF d] m [of a] m [of k] by auto
qed (simp add: groups_of_def)

lemma groups_of_mem: "(k, js) \<in> set (groups_of ks) \<longleftrightarrow> js = positions ks k \<and> js \<noteq> []"
proof -
  have "(k, js) \<in> set (groups_of ks) \<longleftrightarrow> map_of (groups_of ks) k = Some js"
    using groups_of_spec [of ks k] by (metis map_of_eq_Some_iff)
  also have "\<dots> \<longleftrightarrow> js = positions ks k \<and> js \<noteq> []"
    using groups_of_spec [of ks k] by auto
  finally show ?thesis .
qed

lemma fold_write_length:
  "length (fold (\<lambda>(pos, i) out. out[i := f pos]) ps out) = length out"
  by (induction ps arbitrary: out) auto

lemma number_group_length [simp]: "length (number_group idxs out) = length out"
  by (simp add: number_group_def fold_write_length)

lemma fold_write_other:
  "j \<notin> snd ` set ps \<Longrightarrow> fold (\<lambda>(pos, i) out. out[i := f pos]) ps out ! j = out ! j"
  by (induction ps arbitrary: out) auto

lemma number_group_other: "j \<notin> set idxs \<Longrightarrow> number_group idxs out ! j = out ! j"
proof -
  assume "j \<notin> set idxs"
  then have "j \<notin> snd ` set (enumerate 0 idxs)" by (metis list.set_map map_snd_enumerate)
  then show ?thesis by (simp add: number_group_def fold_write_other)
qed

lemma number_group_at:
  assumes "distinct idxs" "2 \<le> length idxs" "p < length idxs" "idxs ! p < length out"
  shows "number_group idxs out ! (idxs ! p) = nat_digits (p + 1)"
proof -
  define as bs where "as = take p (enumerate 0 idxs)" and "bs = drop (Suc p) (enumerate 0 idxs)"
  have "enumerate 0 idxs = as @ enumerate 0 idxs ! p # bs"
    using assms(3) by (simp add: as_def bs_def id_take_nth_drop)
  moreover have "enumerate 0 idxs ! p = (p, idxs ! p)"
    using assms(3) by (simp add: nth_enumerate_eq)
  ultimately have e: "enumerate 0 idxs = as @ (p, idxs ! p) # bs" by simp
  have "map snd bs = drop (Suc p) idxs" by (simp add: bs_def drop_map [symmetric])
  then have "snd ` set bs = set (drop (Suc p) idxs)" by (metis list.set_map)
  moreover have "idxs ! p \<notin> set (drop (Suc p) idxs)"
    using assms(1,3) by (metis Cons_nth_drop_Suc append_take_drop_id distinct.simps(2) distinct_append)
  ultimately have "idxs ! p \<notin> snd ` set bs" by simp
  then show ?thesis
    using assms(2,4) by (simp add: number_group_def e fold_write_other fold_write_length)
qed

lemma fold_groups_other:
  "(\<And>k js. (k, js) \<in> set gs \<Longrightarrow> j \<notin> set js) \<Longrightarrow>
   fold (\<lambda>(k, idxs). number_group idxs) gs out ! j = out ! j"
proof (induction gs arbitrary: out)
  case (Cons g gs)
  obtain k js where g: "g = (k, js)" by fastforce
  have "j \<notin> set js" using Cons.prems g by auto
  moreover have "fold (\<lambda>(k, idxs). number_group idxs) gs (number_group js out) ! j = number_group js out ! j"
    by (rule Cons.IH) (use Cons.prems in auto)
  ultimately show ?case by (simp add: g number_group_other)
qed simp

lemma fold_groups_length:
  "length (fold (\<lambda>(k, idxs). number_group idxs) gs out) = length out"
  by (induction gs arbitrary: out) auto

lemma nth_positions:
  assumes "j < length ks"
  shows "positions ks (ks ! j) ! length (filter (\<lambda>i. ks ! i = ks ! j) [0..<j]) = j"
    and "length (filter (\<lambda>i. ks ! i = ks ! j) [0..<j]) < length (positions ks (ks ! j))"
proof -
  have "[0..<length ks] = [0..<j] @ j # [Suc j..<length ks]"
    using assms upt_add_eq_append [of 0 j "length ks - j"] by (simp add: upt_conv_Cons)
  then have "positions ks (ks ! j) =
      filter (\<lambda>i. ks ! i = ks ! j) [0..<j] @ j # filter (\<lambda>i. ks ! i = ks ! j) [Suc j..<length ks]"
    by simp
  then show "positions ks (ks ! j) ! length (filter (\<lambda>i. ks ! i = ks ! j) [0..<j]) = j"
    and "length (filter (\<lambda>i. ks ! i = ks ! j) [0..<j]) < length (positions ks (ks ! j))"
    by simp_all
qed

text \<open>Whatever order the groups are visited in, as a Go map gives none.\<close>

lemma number_groups_at:
  assumes gs: "set gs = set (groups_of ks)" "distinct gs" and j: "j < length ks"
  shows "number_groups gs (length ks) ! j =
    (if length (positions ks (ks ! j)) < 2 then []
     else nat_digits (length (filter (\<lambda>i. ks ! i = ks ! j) [0..<j]) + 1))"
proof -
  let ?k = "ks ! j" and ?js = "positions ks (ks ! j)"
  have "?js \<noteq> []" using nth_positions(2) [OF j] by auto
  then have "(?k, ?js) \<in> set gs" using gs(1) groups_of_mem by simp
  then obtain as bs where s: "gs = as @ (?k, ?js) # bs" by (meson split_list)
  have other: "j \<notin> set js" if "(k, js) \<in> set as \<union> set bs" for k js
  proof
    assume "j \<in> set js"
    moreover have "js = positions ks k" using that gs(1) s groups_of_mem by auto
    ultimately have "(k, js) = (?k, ?js)" by auto
    then show False using that gs(2) s by auto
  qed
  let ?out = "fold (\<lambda>(k, idxs). number_group idxs) as (replicate (length ks) [])"
  have "?out ! j = replicate (length ks) [] ! j"
    by (rule fold_groups_other) (use other in blast)
  then have out: "?out ! j = []" "length ?out = length ks"
    using j by (simp_all add: fold_groups_length)
  have "fold (\<lambda>(k, idxs). number_group idxs) bs (number_group ?js ?out) ! j = number_group ?js ?out ! j"
    by (rule fold_groups_other) (use other in blast)
  then have "number_groups gs (length ks) ! j = number_group ?js ?out ! j"
    by (simp add: number_groups_def s case_prod_unfold)
  also have "\<dots> = (if length ?js < 2 then []
      else nat_digits (length (filter (\<lambda>i. ks ! i = ?k) [0..<j]) + 1))"
  proof (cases "length ?js < 2")
    case True
    then show ?thesis using out by (simp add: number_group_def)
  next
    case False
    have "distinct ?js" by simp
    then show ?thesis
      using number_group_at [of ?js "length (filter (\<lambda>i. ks ! i = ?k) [0..<j])" ?out]
        nth_positions [OF j] False out j by simp
  qed
  finally show ?thesis .
qed

lemma distinct_groups_of: "distinct (groups_of ks)"
  using groups_of_spec [of ks] by (metis distinct_map)

lemma alone_in_group:
  assumes "j < length ks"
  shows "length (positions ks (ks ! j)) < 2 \<longleftrightarrow> \<not> (\<exists>i < length ks. i \<noteq> j \<and> ks ! i = ks ! j)"
proof -
  have "length (positions ks (ks ! j)) = card (set (positions ks (ks ! j)))"
    by (metis distinct_card distinct_filter distinct_upt)
  also have "set (positions ks (ks ! j)) = insert j {i. i < length ks \<and> i \<noteq> j \<and> ks ! i = ks ! j}"
    using assms by auto
  finally have n: "length (positions ks (ks ! j)) = Suc (card {i. i < length ks \<and> i \<noteq> j \<and> ks ! i = ks ! j})"
    by simp
  have c: "card {i. i < length ks \<and> i \<noteq> j \<and> ks ! i = ks ! j} = 0 \<longleftrightarrow>
      \<not> (\<exists>i < length ks. i \<noteq> j \<and> ks ! i = ks ! j)"
    by auto
  show ?thesis unfolding n c [symmetric] by linarith
qed

lemma earlier_card:
  "length (filter (\<lambda>i. P i) [0..<j]) = card {i. i < j \<and> P i}"
proof -
  have "length (filter P [0..<j]) = card (set (filter P [0..<j]))"
    by (metis distinct_card distinct_filter distinct_upt)
  then show ?thesis by simp
qed

text \<open>
  Chapters whose keys agree (the same number, or the same cleaned title) are told apart by their
  scanlator: a chapter that shares its key with another gets its 1-based position among the chapters
  with that key, a chapter that does not gets the empty string, and the order in which the Go map of
  groups is visited does not matter.
\<close>

theorem derive_scanlators_numbers_duplicates:
  assumes "i < length ss" "set gs = set (groups_of (map chapter_group_key ss))" "distinct gs"
  shows "derive_scanlators ss ! i =
      (if \<exists>j < length ss. j \<noteq> i \<and> chapter_group_key (ss ! j) = chapter_group_key (ss ! i)
       then nat_digits (card {j. j < i \<and> chapter_group_key (ss ! j) = chapter_group_key (ss ! i)} + 1)
       else []) \<and>
    number_groups gs (length ss) ! i = derive_scanlators ss ! i"
proof -
  let ?ks = "map chapter_group_key ss"
  have i: "i < length ?ks" using assms(1) by simp
  have key: "?ks ! j = ?ks ! i \<longleftrightarrow> chapter_group_key (ss ! j) = chapter_group_key (ss ! i)" if "j < length ss" for j
    using that assms(1) by simp
  have c: "{j. j < i \<and> ?ks ! j = ?ks ! i} =
      {j. j < i \<and> chapter_group_key (ss ! j) = chapter_group_key (ss ! i)}"
    using key assms(1) by auto
  have e: "(\<exists>j < length ?ks. j \<noteq> i \<and> ?ks ! j = ?ks ! i) \<longleftrightarrow>
      (\<exists>j < length ss. j \<noteq> i \<and> chapter_group_key (ss ! j) = chapter_group_key (ss ! i))"
    using key unfolding length_map by blast
  let ?E = "\<exists>j < length ss. j \<noteq> i \<and> chapter_group_key (ss ! j) = chapter_group_key (ss ! i)"
  let ?C = "{j. j < i \<and> chapter_group_key (ss ! j) = chapter_group_key (ss ! i)}"
  have at: "number_groups gs' (length ss) ! i = (if ?E then nat_digits (card ?C + 1) else [])"
    if "set gs' = set (groups_of ?ks)" "distinct gs'" for gs'
  proof -
    have "number_groups gs' (length ss) ! i = (if \<not> ?E then [] else nat_digits (card ?C + 1))"
      using number_groups_at [OF that i, unfolded alone_in_group [OF i], unfolded e,
        unfolded earlier_card c length_map] .
    then show ?thesis by (cases ?E) (simp_all only: simp_thms if_True if_False)
  qed
  show ?thesis
    unfolding derive_scanlators_def at [OF refl distinct_groups_of] at [OF assms(2,3)] by (intro conjI refl)
qed

lemma derive_scanlators_numbers_duplicates_witness:
  "derive_scanlators [demo_summary ''a'' ''Extra: one'' 0, demo_summary ''b'' ''x'' 2,
     demo_summary ''c'' ''EXTRA  [two]'' 0] ! 2 = ''2''"
proof -
  let ?ss = "[demo_summary ''a'' ''Extra: one'' 0, demo_summary ''b'' ''x'' 2,
     demo_summary ''c'' ''EXTRA  [two]'' 0]"
  have k: "chapter_group_key (?ss ! 0) = ''t:extra''" "chapter_group_key (?ss ! 2) = ''t:extra''"
    by code_simp+
  have k1: "chapter_group_key (?ss ! 1) \<noteq> ''t:extra''"
    by (simp add: chapter_group_key_def demo_summary_def)
  have "{j. j < 2 \<and> chapter_group_key (?ss ! j) = chapter_group_key (?ss ! 2)} = {0}"
    using k k1 by (auto simp: less_2_cases_iff)
  moreover have "\<exists>j < length ?ss. j \<noteq> 2 \<and> chapter_group_key (?ss ! j) = chapter_group_key (?ss ! 2)"
    using k by (intro exI [of _ 0]) simp
  moreover have "(2 :: nat) < length ?ss" by simp
  moreover note conjunct1 [OF derive_scanlators_numbers_duplicates [of 2 ?ss, OF _ refl distinct_groups_of]]
  ultimately have "derive_scanlators ?ss ! 2 = nat_digits (card {0 :: nat} + 1)"
    by (simp only: if_True simp_thms)
  also have "\<dots> = ''2''" by (simp, code_simp)
  finally show ?thesis .
qed

section \<open>The written table\<close>

text \<open>What the source answers for an entry of an extension, and the rows this asks for.\<close>

definition source_chapters :: "source \<Rightarrow> extension \<Rightarrow> medium \<Rightarrow> go_err + chapter_summary list" where
  "source_chapters src x m = (if x_content_type x = ''anime''
     then src_episodes src (x_package x) (m_external_id m)
     else src_chapters src (x_package x) (m_external_id m))"

definition chapter_plan :: "int \<Rightarrow> chapter_summary list \<Rightarrow> create_chapter_params list" where
  "chapter_plan media_id answer =
     (let ss = map resolve_summary (oldest_first answer)
      in map (chapter_params media_id (derive_scanlators ss)) (enumerate 0 ss))"

text \<open>The parameters of the chapters of a list that is already in order.\<close>

definition plan_in_order :: "int \<Rightarrow> chapter_summary list \<Rightarrow> create_chapter_params list" where
  "plan_in_order media_id ordered =
     (let ss = map resolve_summary ordered
      in map (chapter_params media_id (derive_scanlators ss)) (enumerate 0 ss))"

lemma chapter_plan_in_order: "chapter_plan i answer = plan_in_order i (oldest_first answer)"
  by (simp add: chapter_plan_def plan_in_order_def)

definition upsert_chapter :: "int \<Rightarrow> create_chapter_params \<Rightarrow> chapter_row list \<Rightarrow> chapter_row list" where
  "upsert_chapter now p rows = snd (upsert (same_chapter p) (chapter_updated p)
     (chapter_created p (next_id (map c_id rows)) now) rows)"

text \<open>The row a chapter has when it was written last with these parameters.\<close>

definition written :: "create_chapter_params \<Rightarrow> chapter_row \<Rightarrow> bool" where
  "written p r \<longleftrightarrow> same_chapter p r \<and> chapter_updated p r = r"

lemma same_chapter_updated [simp]: "same_chapter p (chapter_updated q r) = same_chapter p r"
  by (simp add: same_chapter_def chapter_updated_def)

lemma updated_twice [simp]: "chapter_updated p (chapter_updated q r) = chapter_updated p r"
  by (simp add: chapter_updated_def)

lemma written_updated: "same_chapter p r \<Longrightarrow> written p (chapter_updated p r)"
  by (simp add: written_def)

lemma written_created: "written p (chapter_created p i now)"
  by (simp add: written_def same_chapter_def chapter_updated_def chapter_created_def)

lemma create_chapter_ok:
  assumes "db_call (q_create_chapter p) w = (Inr r, w')"
  shows "w_now w' = w_now w \<and> w_db w' = (w_db w)\<lparr>chapters := upsert_chapter (w_now w) p (chapters (w_db w))\<rparr> \<and>
    written p r"
proof -
  obtain fs d where d: "w' = w\<lparr>w_faults := fs, w_db := d\<rparr>" "q_create_chapter p (w_now w) (w_db w) = (Inr r, d)"
    using db_call_result [OF assms] by auto
  then show ?thesis
    by (auto simp: q_create_chapter_def with_fk_def upsert_chapter_def upsert_def written_created
        intro!: written_updated dest: find_SomeD split: if_splits option.splits)
qed

lemma map_act_create_ok:
  assumes "map_act (\<lambda>p. wrap (msg p) (db_call (q_create_chapter (par p)))) ps w = (Inr rows, w')"
  shows "w_now w' = w_now w \<and>
    w_db w' = (w_db w)\<lparr>chapters := fold (upsert_chapter (w_now w)) (map par ps) (chapters (w_db w))\<rparr> \<and>
    list_all2 written (map par ps) rows"
  using assms
proof (induction ps arbitrary: w rows)
  case (Cons p ps)
  then obtain r w1 rs where 1: "db_call (q_create_chapter (par p)) w = (Inr r, w1)"
      "map_act (\<lambda>p. wrap (msg p) (db_call (q_create_chapter (par p)))) ps w1 = (Inr rs, w')" "rows = r # rs"
    by (auto simp: seq_eq_Inr ret_def)
  from Cons.IH [OF 1(2)] create_chapter_ok [OF 1(1)] 1(3) show ?case by simp
qed (simp add: ret_def)

lemma write_chapters_ok:
  assumes "write_chapters i (map resolve_summary (oldest_first answer)) w = (Inr rows, w')"
  shows "w_now w' = w_now w \<and>
    w_db w' = (w_db w)\<lparr>chapters := fold (upsert_chapter (w_now w)) (chapter_plan i answer) (chapters (w_db w))\<rparr> \<and>
    list_all2 written (chapter_plan i answer) rows"
  using assms map_act_create_ok
  unfolding write_chapters_def chapter_plan_def Let_def case_prod_unfold by fastforce

lemma fetch_state:
  assumes "fetch_chapter_summaries src pkg ct entry w = (r, w')"
  shows "w_db w' = w_db w \<and> w_now w' = w_now w \<and>
    (\<forall>v. r = Inr v \<longrightarrow> (\<exists>answer. v = oldest_first answer \<and>
       (if ct = ''anime'' then src_episodes src pkg entry else src_chapters src pkg entry) = Inr answer))"
proof (cases r)
  case (Inl e)
  then show ?thesis
    using assms by (auto simp: fetch_chapter_summaries_def seq_eq_Inl ret_def wrap_eq_Inl dest!: ask_state split: if_splits)
next
  case (Inr v)
  then show ?thesis
    using assms by (auto simp: fetch_chapter_summaries_def seq_eq_Inr ret_def dest!: ask_state split: if_splits)
qed

lemma sync_chapters_ok:
  assumes "sync_chapters src i w = (Inr rows, w')"
  shows "\<exists>m x answer S.
     find (\<lambda>m. m_id m = i) (media (w_db w)) = Some m \<and>
     find (\<lambda>x. Some (x_id x) = m_extension_id m) (extensions (w_db w)) = Some x \<and>
     source_chapters src x m = Inr answer \<and>
     list_all2 written (chapter_plan i answer) rows \<and>
     w_db w' = (w_db w)\<lparr>chapters := fold (upsert_chapter (w_now w)) (chapter_plan i answer) (chapters (w_db w)),
       media := update_where (\<lambda>m. S \<and> m_id m = i) (\<lambda>m. m\<lparr>m_chapters_synced_at := Some (w_now w)\<rparr>) (media (w_db w))\<rparr>"
proof -
  obtain m w1 where 1: "db_call (q_get_media i) w = (Inr m, w1)"
    and a: "(case m_extension_id m of
       None \<Rightarrow> fail (ErrMsg (''media '' @ int_digits i @ '' has no extension (extension was removed)''))
     | Some xi \<Rightarrow> sync_chapters_from src i xi (m_external_id m)) w1 = (Inr rows, w')"
    using assms by (auto simp: sync_chapters_def seq_eq_Inr)
  then obtain xi where xi: "m_extension_id m = Some xi"
    by (cases "m_extension_id m") (auto simp: fail_def)
  obtain x w2 fetched w3 w4 where 2: "db_call (q_get_extension xi) w1 = (Inr x, w2)"
      "fetch_chapter_summaries src (x_package x) (x_content_type x) (m_external_id m) w2 = (Inr fetched, w3)"
    and 3: "in_tx (ErrWrap ''begin chapter sync tx'') (ErrWrap ''commit chapter sync tx'')
       (write_chapters i (map resolve_summary fetched)) w3 = (Inr rows, w4)"
      "snd (db_call (q_mark_chapters_synced i) w4) = w'"
    using a unfolding xi sync_chapters_from_def by (auto simp: seq_eq_Inr Let_def ignore_eq ret_def)
  have m: "find (\<lambda>m. m_id m = i) (media (w_db w)) = Some m" "w_db w1 = w_db w" "w_now w1 = w_now w"
    using db_select_one_ok [OF 1 [unfolded q_get_media_def]] db_select_one_state [OF 1 [unfolded q_get_media_def]]
    by auto
  have x: "find (\<lambda>x. x_id x = xi) (extensions (w_db w1)) = Some x" "w_db w2 = w_db w1" "w_now w2 = w_now w1"
    using db_select_one_ok [OF 2(1) [unfolded q_get_extension_def]]
      db_select_one_state [OF 2(1) [unfolded q_get_extension_def]] by auto
  obtain answer where f: "w_db w3 = w_db w2" "w_now w3 = w_now w2" "fetched = oldest_first answer"
      "source_chapters src x m = Inr answer"
    using fetch_state [OF 2(2)] unfolding source_chapters_def by auto
  obtain w5 w6 where t: "next_fault w3 = (None, w5)"
      "write_chapters i (map resolve_summary fetched) w5 = (Inr rows, w6)" "next_fault w6 = (None, w4)"
    using in_tx_commit [OF 3(1)] .
  then have w5: "w_db w5 = w_db w" "w_now w5 = w_now w" using m x f by simp_all
  have c: "w_now w4 = w_now w" "list_all2 written (chapter_plan i answer) rows"
     "w_db w4 = (w_db w)\<lparr>chapters := fold (upsert_chapter (w_now w)) (chapter_plan i answer) (chapters (w_db w))\<rparr>"
    using write_chapters_ok [OF t(2) [unfolded f(3)]] t(3) by (simp_all add: w5)
  obtain r where "db_call (q_mark_chapters_synced i) w4 = (r, w')" using 3(2) by (cases "db_call (q_mark_chapters_synced i) w4") auto
  then have "w_db w' = w_db w4 \<or> w_db w' = (w_db w4)\<lparr>media := update_where (\<lambda>m. m_id m = i)
      (\<lambda>m. m\<lparr>m_chapters_synced_at := Some (w_now w)\<rparr>) (media (w_db w4))\<rparr>"
    using db_exec_state c(1) unfolding q_mark_chapters_synced_def by fastforce
  then obtain S where "w_db w' = (w_db w)\<lparr>chapters := fold (upsert_chapter (w_now w)) (chapter_plan i answer) (chapters (w_db w)),
       media := update_where (\<lambda>m. S \<and> m_id m = i) (\<lambda>m. m\<lparr>m_chapters_synced_at := Some (w_now w)\<rparr>) (media (w_db w))\<rparr>"
  proof
    assume "w_db w' = w_db w4"
    with c(3) show ?thesis by (intro that [of False]) (simp add: update_where_def)
  next
    assume "w_db w' = (w_db w4)\<lparr>media := update_where (\<lambda>m. m_id m = i)
      (\<lambda>m. m\<lparr>m_chapters_synced_at := Some (w_now w)\<rparr>) (media (w_db w4))\<rparr>"
    with c(3) show ?thesis by (intro that [of True]) simp
  qed
  moreover have "find (\<lambda>x. Some (x_id x) = m_extension_id m) (extensions (w_db w)) = Some x"
    using x(1) m(2) by (simp add: xi)
  ultimately show ?thesis using m(1) f(4) c(2) by blast
qed

lemma atomic_sync_chapters [atomic_intros]: "atomic (sync_chapters src i)"
proof -
  have "total (seq (ignore (db_call (q_mark_chapters_synced i))) (\<lambda>_. ret rows))" for rows
    by (intro total_intros)
  then show ?thesis
    unfolding sync_chapters_def sync_chapters_from_def fetch_chapter_summaries_def Let_def
      q_get_media_def q_get_extension_def
    by (intro atomic_intros atomic_seq_total)
qed

text \<open>Without a failing call the synchronisation succeeds.\<close>

lemma create_chapter_free:
  assumes "fault_free w" "cp_media p \<in> set (map m_id (media (w_db w)))"
  shows "\<exists>r d. db_call (q_create_chapter p) w = (Inr r, w\<lparr>w_db := d\<rparr>) \<and> media d = media (w_db w)"
proof -
  obtain r rows where "upsert (same_chapter p) (chapter_updated p)
      (chapter_created p (next_id (map c_id (chapters (w_db w)))) (w_now w)) (chapters (w_db w)) = (r, rows)" by fastforce
  then have "db_call (q_create_chapter p) w = (Inr r, w\<lparr>w_db := (w_db w)\<lparr>chapters := rows\<rparr>\<rparr>)"
    using assms by (simp add: db_call_free q_create_chapter_def with_fk_def)
  then show ?thesis by fastforce
qed

lemma map_act_create_free:
  assumes "fault_free w" "\<forall>p \<in> set ps. cp_media (par p) \<in> set (map m_id (media (w_db w)))"
  shows "\<exists>rs d. map_act (\<lambda>p. wrap (msg p) (db_call (q_create_chapter (par p)))) ps w = (Inr rs, w\<lparr>w_db := d\<rparr>)"
  using assms
proof (induction ps arbitrary: w)
  case Nil
  then show ?case by (auto simp: ret_def intro: exI [of _ "w_db w"])
next
  case (Cons p ps)
  obtain r d where 1: "db_call (q_create_chapter (par p)) w = (Inr r, w\<lparr>w_db := d\<rparr>)" "media d = media (w_db w)"
    using create_chapter_free Cons.prems by (metis list.set_intros(1))
  then have "wrap (msg p) (db_call (q_create_chapter (par p))) w = (Inr r, w\<lparr>w_db := d\<rparr>)" by simp
  moreover obtain rs d' where
    "map_act (\<lambda>p. wrap (msg p) (db_call (q_create_chapter (par p)))) ps (w\<lparr>w_db := d\<rparr>) = (Inr rs, w\<lparr>w_db := d'\<rparr>)"
    using Cons.IH [of "w\<lparr>w_db := d\<rparr>"] Cons.prems 1(2) by auto
  ultimately have "map_act (\<lambda>p. wrap (msg p) (db_call (q_create_chapter (par p)))) (p # ps) w = (Inr (r # rs), w\<lparr>w_db := d'\<rparr>)"
    by (simp add: seq_Inr ret_def)
  then show ?case by blast
qed

lemma sync_chapters_free:
  assumes "fault_free w" "find (\<lambda>m. m_id m = i) (media (w_db w)) = Some m"
    and "m_extension_id m = Some xi" "find (\<lambda>x. x_id x = xi) (extensions (w_db w)) = Some x"
    and "source_chapters src x m = Inr answer"
  shows "\<exists>rows d. sync_chapters src i w = (Inr rows, w\<lparr>w_db := d\<rparr>)"
proof -
  have g: "wrap t (db_call (q_get_media i)) w = (Inr m, w)"
    "wrap t (db_call (q_get_extension xi)) w = (Inr x, w)" for t
    using assms by (simp_all add: db_call_free q_get_media_def q_get_extension_def select_one_def)
  have f: "fetch_chapter_summaries src (x_package x) (x_content_type x) (m_external_id m) w = (Inr (oldest_first answer), w)"
    using assms by (auto simp: fetch_chapter_summaries_def source_chapters_def seq_def wrap_def ret_def split: if_splits)
  let ?ss = "map resolve_summary (oldest_first answer)"
  have "i \<in> set (map m_id (media (w_db w)))" using assms(2) find_SomeD by fastforce
  then have "\<forall>p \<in> set (enumerate 0 ?ss). cp_media (chapter_params i (derive_scanlators ?ss) p) \<in> set (map m_id (media (w_db w)))"
    by (auto simp: chapter_params_def)
  then obtain rs d where "map_act (\<lambda>p. wrap (''upsert chapter '' @ cs_source_id (snd p))
      (db_call (q_create_chapter (chapter_params i (derive_scanlators ?ss) p)))) (enumerate 0 ?ss) w = (Inr rs, w\<lparr>w_db := d\<rparr>)"
    using map_act_create_free [OF assms(1), of "enumerate 0 ?ss" "chapter_params i (derive_scanlators ?ss)"
      "\<lambda>p. ''upsert chapter '' @ cs_source_id (snd p)"] by blast
  then have t: "write_chapters i ?ss w = (Inr rs, w\<lparr>w_db := d\<rparr>)"
    by (simp add: write_chapters_def Let_def case_prod_unfold)
  have c: "in_tx (ErrWrap ''begin chapter sync tx'') (ErrWrap ''commit chapter sync tx'') (write_chapters i ?ss) w = (Inr rs, w\<lparr>w_db := d\<rparr>)"
    using in_tx_free [of w "write_chapters i ?ss" "Inr rs" "w\<lparr>w_db := d\<rparr>"] t assms(1) by simp
  obtain d' where "snd (db_call (q_mark_chapters_synced i) (w\<lparr>w_db := d\<rparr>)) = w\<lparr>w_db := d'\<rparr>"
    using assms(1) by (simp add: db_call_free q_mark_chapters_synced_def exec_def)
  then have "sync_chapters_from src i xi (m_external_id m) w = (Inr rs, w\<lparr>w_db := d'\<rparr>)"
    using g(2) f c by (simp add: sync_chapters_from_def Let_def seq_def wrap_def [of _ "db_call q" for q] ignore_eq ret_def)
  then have "sync_chapters src i w = (Inr rs, w\<lparr>w_db := d'\<rparr>)"
    using g(1) assms(3) by (simp add: sync_chapters_def seq_def wrap_def [of _ "db_call q" for q])
  then show ?thesis by blast
qed

text \<open>The entry and its extension, as the next synchronisation finds them.\<close>

lemma sync_chapters_lookups:
  assumes "sync_chapters src i w = (Inr rows, w1)"
  shows "\<exists>m x answer now'. find (\<lambda>m. m_id m = i) (media (w_db w)) = Some m \<and>
     find (\<lambda>m. m_id m = i) (media (w_db w1)) = Some (m\<lparr>m_chapters_synced_at := now'\<rparr>) \<and>
     m_extension_id m = Some (x_id x) \<and>
     find (\<lambda>y. x_id y = x_id x) (extensions (w_db w1)) = Some x \<and> source_chapters src x m = Inr answer \<and>
     chapters (w_db w1) = fold (upsert_chapter (w_now w)) (chapter_plan i answer) (chapters (w_db w))"
proof -
  obtain m x answer S where 1: "find (\<lambda>m. m_id m = i) (media (w_db w)) = Some m"
     "find (\<lambda>x. Some (x_id x) = m_extension_id m) (extensions (w_db w)) = Some x"
     "source_chapters src x m = Inr answer"
     "w_db w1 = (w_db w)\<lparr>chapters := fold (upsert_chapter (w_now w)) (chapter_plan i answer) (chapters (w_db w)),
       media := update_where (\<lambda>m. S \<and> m_id m = i) (\<lambda>m. m\<lparr>m_chapters_synced_at := Some (w_now w)\<rparr>) (media (w_db w))\<rparr>"
    using sync_chapters_ok [OF assms] by blast
  have x: "m_extension_id m = Some (x_id x)" using find_SomeD [OF 1(2)] by simp
  have "find (\<lambda>m. m_id m = i) (media (w_db w1)) =
      Some (if S then m\<lparr>m_chapters_synced_at := Some (w_now w)\<rparr> else m)"
    using 1(1) find_SomeD [OF 1(1)] find_map_same [of "\<lambda>m. m_id m = i"
      "\<lambda>r. if S \<and> m_id r = i then r\<lparr>m_chapters_synced_at := Some (w_now w)\<rparr> else r" "media (w_db w)"]
    by (simp add: 1(4) update_where_def)
  then have "\<exists>now'. find (\<lambda>m. m_id m = i) (media (w_db w1)) = Some (m\<lparr>m_chapters_synced_at := now'\<rparr>)"
    by (cases S) (auto intro: exI [of _ "m_chapters_synced_at m"])
  moreover have "find (\<lambda>y. x_id y = x_id x) (extensions (w_db w1)) = Some x" using 1(2) by (simp add: 1(4) x)
  moreover have "chapters (w_db w1) = fold (upsert_chapter (w_now w)) (chapter_plan i answer) (chapters (w_db w))"
    by (simp add: 1(4))
  ultimately show ?thesis using 1(1,3) x by blast
qed

lemma sync_chapters_again:
  assumes "sync_chapters src i w = (Inr rows, w1)" "fault_free w2" "w_db w2 = w_db w1"
  shows "succeeds (fst (sync_chapters src i w2))"
proof -
  obtain m x answer now' where "find (\<lambda>m. m_id m = i) (media (w_db w1)) = Some (m\<lparr>m_chapters_synced_at := now'\<rparr>)"
     "m_extension_id m = Some (x_id x)" "find (\<lambda>y. x_id y = x_id x) (extensions (w_db w1)) = Some x"
     "source_chapters src x m = Inr answer"
    using sync_chapters_lookups [OF assms(1)] by blast
  then show ?thesis
    using sync_chapters_free [OF assms(2), unfolded assms(3)]
    by (fastforce simp: source_chapters_def succeeds_def)
qed

section \<open>What a synchronisation leaves\<close>

lemma upsert_chapter_other:
  "\<not> same_chapter p r \<Longrightarrow> r \<in> set (upsert_chapter now p rows) \<longleftrightarrow> r \<in> set rows"
  by (auto simp: upsert_chapter_def upsert_def update_where_def chapter_created_def same_chapter_def
      chapter_updated_def split: option.splits)

lemma fold_upsert_other:
  "\<forall>p \<in> set ps. \<not> same_chapter p r \<Longrightarrow> r \<in> set (fold (upsert_chapter now) ps rows) \<longleftrightarrow> r \<in> set rows"
  by (induction ps arbitrary: rows) (auto simp: upsert_chapter_other)

text \<open>Every row of the table, rewritten by the whole plan.\<close>

definition rewritten :: "create_chapter_params list \<Rightarrow> chapter_row \<Rightarrow> chapter_row" where
  "rewritten ps r = fold (\<lambda>p r. if same_chapter p r then chapter_updated p r else r) ps r"

lemma rewritten_snoc:
  "rewritten (ps @ [p]) r = (if same_chapter p (rewritten ps r) then chapter_updated p (rewritten ps r) else rewritten ps r)"
  by (simp add: rewritten_def)

lemma rewritten_fields:
  "same_chapter q (rewritten ps r) = same_chapter q r \<and> chapter_updated q (rewritten ps r) = chapter_updated q r"
  by (induction ps rule: rev_induct) (auto simp: rewritten_def)

lemma fold_upsert_fixed:
  "r \<in> set (fold (upsert_chapter now) ps rows) \<Longrightarrow> (\<exists>p \<in> set ps. same_chapter p r) \<Longrightarrow> rewritten ps r = r"
proof (induction ps arbitrary: r rule: rev_induct)
  case (snoc p ps)
  let ?T = "fold (upsert_chapter now) ps rows"
  have r: "r \<in> set (upsert_chapter now p ?T)" using snoc.prems(1) by simp
  show ?case
  proof (cases "same_chapter p r")
    case True
    then have "chapter_updated p r = r"
      using r by (auto simp: upsert_chapter_def upsert_def update_where_def written_created [unfolded written_def]
          split: option.splits if_splits dest: find_NoneD)
    with True show ?thesis by (simp add: rewritten_snoc rewritten_fields)
  next
    case False
    then have "r \<in> set ?T" using r upsert_chapter_other by blast
    moreover have "\<exists>p \<in> set ps. same_chapter p r" using snoc.prems(2) False by auto
    ultimately have "rewritten ps r = r" by (rule snoc.IH)
    with False show ?thesis by (simp add: rewritten_snoc)
  qed
qed simp

lemma upsert_chapter_present:
  "r \<in> set rows \<Longrightarrow> same_chapter p r \<Longrightarrow> upsert_chapter now p rows = update_where (same_chapter p) (chapter_updated p) rows"
  by (auto simp: upsert_chapter_def upsert_def split: option.split dest: find_NoneD)

definition all_present :: "create_chapter_params list \<Rightarrow> chapter_row list \<Rightarrow> bool" where
  "all_present ps rows \<longleftrightarrow> (\<forall>p \<in> set ps. \<exists>r \<in> set rows. same_chapter p r)"

lemma all_present_update:
  assumes "all_present ps rows"
  shows "all_present ps (update_where (same_chapter p) (chapter_updated p) rows)"
  unfolding all_present_def
proof
  fix q assume "q \<in> set ps"
  then obtain r where r: "r \<in> set rows" "same_chapter q r" using assms by (auto simp: all_present_def)
  let ?r = "if same_chapter p r then chapter_updated p r else r"
  have "?r \<in> set (update_where (same_chapter p) (chapter_updated p) rows)" "same_chapter q ?r"
    using r by (auto simp: update_where_def)
  then show "\<exists>r \<in> set (update_where (same_chapter p) (chapter_updated p) rows). same_chapter q r" by blast
qed

lemma fold_upsert_present:
  "all_present ps rows \<Longrightarrow> fold (upsert_chapter now) ps rows = map (rewritten ps) rows"
proof (induction ps arbitrary: rows)
  case (Cons p ps)
  then obtain r where "r \<in> set rows" "same_chapter p r" by (auto simp: all_present_def)
  then have u: "upsert_chapter now p rows = update_where (same_chapter p) (chapter_updated p) rows"
    by (rule upsert_chapter_present)
  have "all_present ps rows" using Cons.prems by (simp add: all_present_def)
  then have "fold (upsert_chapter now) ps (upsert_chapter now p rows) = map (rewritten ps) (upsert_chapter now p rows)"
    unfolding u by (intro Cons.IH all_present_update)
  then show ?case by (simp add: u update_where_def rewritten_def)
qed (simp add: rewritten_def map_idI)

lemma all_present_fold: "all_present ps (fold (upsert_chapter now) ps rows)"
proof (induction ps rule: rev_induct)
  case (snoc p ps)
  let ?T = "fold (upsert_chapter now) ps rows"
  have k: "\<exists>r' \<in> set (upsert_chapter now p ?T). same_chapter q r'" if "r \<in> set ?T" "same_chapter q r" for q r
  proof (cases "\<exists>r \<in> set ?T. same_chapter p r")
    case True
    then obtain r' where "r' \<in> set ?T" "same_chapter p r'" by blast
    then have "upsert_chapter now p ?T = update_where (same_chapter p) (chapter_updated p) ?T"
      by (rule upsert_chapter_present)
    moreover have "all_present [q] ?T" using that by (auto simp: all_present_def)
    ultimately show ?thesis using all_present_update [of "[q]" ?T p] by (simp add: all_present_def)
  next
    case False
    then have "\<not> same_chapter p r" using that by blast
    then show ?thesis using that upsert_chapter_other by blast
  qed
  have "\<exists>r' \<in> set (upsert_chapter now p ?T). same_chapter p r'"
  proof (cases "find (same_chapter p) ?T")
    case None
    then show ?thesis
      using written_created [of p] by (auto simp: upsert_chapter_def upsert_def written_def)
  next
    case (Some r)
    then show ?thesis using k find_SomeD by metis
  qed
  with snoc.IH k show ?case by (auto simp: all_present_def)
qed (simp add: all_present_def)

lemma fold_upsert_idem:
  "fold (upsert_chapter now') ps (fold (upsert_chapter now) ps rows) = fold (upsert_chapter now) ps rows"
proof -
  let ?T = "fold (upsert_chapter now) ps rows"
  have "rewritten ps r = r" if "r \<in> set ?T" for r
  proof (cases "\<exists>p \<in> set ps. same_chapter p r")
    case True
    with that show ?thesis by (rule fold_upsert_fixed)
  next
    case False
    then show ?thesis unfolding rewritten_def by (induction ps) auto
  qed
  then show ?thesis by (simp add: fold_upsert_present [OF all_present_fold] map_idI)
qed

lemma upsert_chapter_keeps:
  "r \<in> set rows \<Longrightarrow> (if same_chapter p r then chapter_updated p r else r) \<in> set (upsert_chapter now p rows)"
  by (auto simp: upsert_chapter_def upsert_def update_where_def split: option.split dest: find_NoneD)

lemma fold_upsert_keeps: "r \<in> set rows \<Longrightarrow> rewritten ps r \<in> set (fold (upsert_chapter now) ps rows)"
proof (induction ps rule: rev_induct)
  case (snoc p ps)
  then show ?case
    using upsert_chapter_keeps [of "rewritten ps r" _ p now] by (simp add: rewritten_snoc)
qed (simp add: rewritten_def)

lemma rewritten_same_row:
  "c_id (rewritten ps r) = c_id r \<and> c_media (rewritten ps r) = c_media r \<and>
   c_external_id (rewritten ps r) = c_external_id r \<and> c_first_seen_at (rewritten ps r) = c_first_seen_at r"
  by (induction ps rule: rev_induct) (auto simp: rewritten_snoc chapter_updated_def, auto simp: rewritten_def)

lemma plan_media: "p \<in> set (chapter_plan i answer) \<Longrightarrow> cp_media p = i"
  by (auto simp: chapter_plan_def chapter_params_def Let_def)

lemma plan_external_ids: "map cp_external_id (chapter_plan i answer) = map cs_source_id (oldest_first answer)"
proof -
  have "map (cp_external_id \<circ> chapter_params i sc) (enumerate n ss) = map cs_source_id ss" for sc n ss
    by (induction ss arbitrary: n) (auto simp: chapter_params_def)
  then show ?thesis by (simp add: chapter_plan_def Let_def o_def resolve_summary_def)
qed

lemma rewritten_distinct:
  assumes "distinct (map cp_external_id ps)" "p \<in> set ps" "same_chapter p r"
  shows "rewritten ps r = chapter_updated p r"
proof -
  obtain as bs where s: "ps = as @ p # bs" using assms(2) by (meson split_list)
  have o: "\<not> same_chapter q r" if "q \<in> set as \<union> set bs" for q
    using that assms(1,3) by (force simp: s same_chapter_def)
  have skip: "fold (\<lambda>p r. if same_chapter p r then chapter_updated p r else r) qs r' = r'"
    if "\<forall>q \<in> set qs. \<not> same_chapter q r'" for qs r'
    using that by (induction qs) auto
  have "rewritten ps r = fold (\<lambda>p r. if same_chapter p r then chapter_updated p r else r) bs (chapter_updated p r)"
    using o assms(3) skip [of as r] by (simp add: rewritten_def s)
  also have "\<dots> = chapter_updated p r" using o by (intro skip) auto
  finally show ?thesis .
qed

lemma demo_sync_succeeds: "succeeds (fst (sync_chapters demo_catalog 1 demo_world))"
proof -
  have m: "find (\<lambda>m. m_id m = 1) (media (w_db demo_world)) = Some (demo_medium 1 1 ''m1'' (Some 5))"
    and x: "find (\<lambda>x. x_id x = 1) (extensions (w_db demo_world)) = Some (demo_extension 1 ''pkg.one'')"
    by (simp_all add: demo_world_def demo_library_def demo_medium_def demo_extension_def)
  obtain answer where a: "source_chapters demo_catalog (demo_extension 1 ''pkg.one'') (demo_medium 1 1 ''m1'' (Some 5)) = Inr answer"
    by (simp add: source_chapters_def demo_catalog_def demo_extension_def demo_medium_def)
  have "fault_free demo_world" "m_extension_id (demo_medium 1 1 ''m1'' (Some 5)) = Some 1"
    by (simp_all add: demo_world_def demo_medium_def)
  then show ?thesis
    using sync_chapters_free [OF _ m _ x a] by (auto simp: succeeds_def)
qed

lemma chapter_params_fields:
  "cp_media (chapter_params i sc (k, resolve_summary s)) = i"
  "cp_external_id (chapter_params i sc (k, resolve_summary s)) = cs_source_id s"
  "cp_title (chapter_params i sc (k, resolve_summary s)) = null_string (cs_name s)"
  "cp_number (chapter_params i sc (k, resolve_summary s)) = Some (resolve (cs_number s) (cs_name s))"
  "cp_source_order (chapter_params i sc (k, resolve_summary s)) = Some (int k)"
  by (simp_all add: chapter_params_def resolve_summary_def)

lemma chapter_updated_fields:
  "c_title (chapter_updated p c) = cp_title p" "c_number (chapter_updated p c) = cp_number p"
  "c_source_order (chapter_updated p c) = cp_source_order p"
  by (simp_all add: chapter_updated_def)

lemma planned_rows:
  assumes "list_all2 written (chapter_plan i answer) rows"
  shows "map (\<lambda>r. (c_media r, c_external_id r, c_title r, c_number r, c_source_order r)) rows =
    map (\<lambda>(k, s). (i, cs_source_id s, null_string (cs_name s), Some (resolve (cs_number s) (cs_name s)), Some (int k)))
      (enumerate 0 (oldest_first answer))"
proof (rule nth_equalityI)
  show len: "length (map (\<lambda>r. (c_media r, c_external_id r, c_title r, c_number r, c_source_order r)) rows) =
      length (map (\<lambda>(k, s). (i, cs_source_id s, null_string (cs_name s), Some (resolve (cs_number s) (cs_name s)), Some (int k)))
        (enumerate 0 (oldest_first answer)))"
    using list_all2_lengthD [OF assms] by (simp add: chapter_plan_def Let_def)
  fix k assume k: "k < length (map (\<lambda>r. (c_media r, c_external_id r, c_title r, c_number r, c_source_order r)) rows)"
  then have "written (chapter_plan i answer ! k) (rows ! k)"
    using list_all2_nthD2 [OF assms, of k] by simp
  moreover have "k < length (oldest_first answer)" using k len by simp
  ultimately have "same_chapter (chapter_plan i answer ! k) (rows ! k)"
      "rows ! k = chapter_updated (chapter_plan i answer ! k) (rows ! k)"
      "chapter_plan i answer ! k = chapter_params i (derive_scanlators (map resolve_summary (oldest_first answer)))
         (k, resolve_summary (oldest_first answer ! k))"
    by (simp_all add: written_def chapter_plan_def Let_def nth_enumerate_eq)
  then have "c_media (rows ! k) = i \<and> c_external_id (rows ! k) = cs_source_id (oldest_first answer ! k) \<and>
      c_title (rows ! k) = null_string (cs_name (oldest_first answer ! k)) \<and>
      c_number (rows ! k) = Some (resolve (cs_number (oldest_first answer ! k)) (cs_name (oldest_first answer ! k))) \<and>
      c_source_order (rows ! k) = Some (int k)"
    by (metis (no_types, lifting) same_chapter_def chapter_params_fields chapter_updated_fields)
  then show "map (\<lambda>r. (c_media r, c_external_id r, c_title r, c_number r, c_source_order r)) rows ! k =
      map (\<lambda>(k, s). (i, cs_source_id s, null_string (cs_name s), Some (resolve (cs_number s) (cs_name s)), Some (int k)))
        (enumerate 0 (oldest_first answer)) ! k"
    using k len by (simp add: nth_enumerate_eq)
qed

text \<open>
  C8: A chapter synchronisation that succeeds writes the list the source answered, in reading order:
  the returned rows are the source's chapters, each with its title, resolved number, position and
  scanlator, in the order the source gave them or its reverse, so that the numbers do not fall more
  often than they rise, the older upload comes first when they fall and rise equally often, and a
  list that says nothing about its direction is reversed; numbers given strictly rising or strictly
  falling are written rising. Each of these chapters is in the table, with those fields when the
  source lists it once. A chapter that was there keeps its row id and first-seen time, so reading
  progress and downloads still refer to it; this holds too for a chapter the source no longer lists,
  which stays, and no row of a chapter that is not in the list is touched.
\<close>

theorem sync_chapters_writes_source_list:
  assumes "sync_chapters src i w = (Inr rows, w')"
  shows "\<exists>m x answer ordered.
     find (\<lambda>m. m_id m = i) (media (w_db w)) = Some m \<and>
     find (\<lambda>x. Some (x_id x) = m_extension_id m) (extensions (w_db w)) = Some x \<and>
     source_chapters src x m = Inr answer \<and> reading_order answer ordered \<and>
     (sorted_wrt (<) (numbers_given answer) \<or> sorted_wrt (>) (numbers_given answer) \<longrightarrow>
        sorted_wrt (<) (numbers_given ordered)) \<and>
     map (\<lambda>r. (c_media r, c_external_id r, c_title r, c_number r, c_source_order r)) rows =
       map (\<lambda>(k, s). (i, cs_source_id s, null_string (cs_name s), Some (resolve (cs_number s) (cs_name s)), Some (int k)))
         (enumerate 0 ordered) \<and>
     list_all2 written (plan_in_order i ordered) rows \<and>
     (\<forall>p \<in> set (plan_in_order i ordered). \<exists>r \<in> set (chapters (w_db w')). same_chapter p r) \<and>
     (distinct (map cs_source_id answer) \<longrightarrow>
        (\<forall>p \<in> set (plan_in_order i ordered). \<forall>r \<in> set (chapters (w_db w')). same_chapter p r \<longrightarrow> written p r)) \<and>
     (\<forall>r \<in> set (chapters (w_db w)). \<exists>r' \<in> set (chapters (w_db w')). c_id r' = c_id r \<and> c_media r' = c_media r \<and>
        c_external_id r' = c_external_id r \<and> c_first_seen_at r' = c_first_seen_at r) \<and>
     (\<forall>r. \<not> (c_media r = i \<and> c_external_id r \<in> cs_source_id ` set answer) \<longrightarrow>
        (r \<in> set (chapters (w_db w')) \<longleftrightarrow> r \<in> set (chapters (w_db w))))"
proof -
  obtain m x answer S where *: "find (\<lambda>m. m_id m = i) (media (w_db w)) = Some m"
     "find (\<lambda>x. Some (x_id x) = m_extension_id m) (extensions (w_db w)) = Some x"
     "source_chapters src x m = Inr answer" "list_all2 written (chapter_plan i answer) rows"
     "w_db w' = (w_db w)\<lparr>chapters := fold (upsert_chapter (w_now w)) (chapter_plan i answer) (chapters (w_db w)),
       media := update_where (\<lambda>m. S \<and> m_id m = i) (\<lambda>m. m\<lparr>m_chapters_synced_at := Some (w_now w)\<rparr>) (media (w_db w))\<rparr>"
    using sync_chapters_ok [OF assms] by blast
  let ?ps = "chapter_plan i answer" and ?T = "chapters (w_db w')"
  have T: "?T = fold (upsert_chapter (w_now w)) ?ps (chapters (w_db w))" by (simp add: *(5))
  have ids: "cp_external_id ` set ?ps = cs_source_id ` set answer"
    using arg_cong [OF plan_external_ids [of i answer], of set] by (auto simp: oldest_first_def split: if_splits)
  have "\<forall>p \<in> set ?ps. \<exists>r \<in> set ?T. same_chapter p r"
    using all_present_fold unfolding T all_present_def by blast
  moreover have "written p r" if "distinct (map cs_source_id answer)" "p \<in> set ?ps" "r \<in> set ?T" "same_chapter p r" for p r
  proof -
    have "distinct (map cp_external_id ?ps)"
      using that(1) by (simp add: plan_external_ids oldest_first_def rev_map [symmetric])
    then have "rewritten ?ps r = chapter_updated p r" using that by (intro rewritten_distinct)
    moreover have "rewritten ?ps r = r" using that T by (intro fold_upsert_fixed) auto
    ultimately show ?thesis using that(4) by (simp add: written_def)
  qed
  moreover have "\<exists>r' \<in> set ?T. c_id r' = c_id r \<and> c_media r' = c_media r \<and>
        c_external_id r' = c_external_id r \<and> c_first_seen_at r' = c_first_seen_at r"
    if "r \<in> set (chapters (w_db w))" for r
    using fold_upsert_keeps [OF that] rewritten_same_row unfolding T by blast
  moreover have "r \<in> set ?T \<longleftrightarrow> r \<in> set (chapters (w_db w))"
    if "\<not> (c_media r = i \<and> c_external_id r \<in> cs_source_id ` set answer)" for r
    unfolding T by (rule fold_upsert_other) (use that ids plan_media in \<open>auto simp: same_chapter_def\<close>)
  ultimately show ?thesis
    using *(1-4) planned_rows [OF *(4)] reading_order_oldest_first [of answer] reading_order_ascends
    unfolding chapter_plan_in_order by blast
qed

theorem sync_chapters_writes_source_list_witness:
  "\<exists>rows w'. sync_chapters demo_catalog 1 demo_world = (Inr rows, w') \<and>
     (\<forall>r \<in> set (chapters (w_db demo_world)). \<exists>r' \<in> set (chapters (w_db w')). c_id r' = c_id r)"
proof -
  obtain rows w' where s: "sync_chapters demo_catalog 1 demo_world = (Inr rows, w')"
    using demo_sync_succeeds by (rule succeedsE)
  from sync_chapters_writes_source_list [OF s] s show ?thesis by blast
qed

text \<open>
  C9: A chapter synchronisation that fails, at whatever step, leaves every table as it was: no chapter
  of a half-read list is kept.
\<close>

theorem sync_chapters_atomic:
  assumes "sync_chapters src i w = (Inl e, w')"
  shows "w_db w' = w_db w"
  using atomic_sync_chapters assms by (rule atomicD)

theorem sync_chapters_atomic_witness:
  "let w = demo_world\<lparr>w_faults := [None, None, None, None, Some (ErrExternal ''disk full'')]\<rparr>
   in \<not> succeeds (fst (sync_chapters demo_catalog 1 w)) \<and> w_db (snd (sync_chapters demo_catalog 1 w)) = demo_library"
proof -
  let ?w = "demo_world\<lparr>w_faults := [None, None, None, None, Some (ErrExternal ''disk full'')]\<rparr>"
  have n: "\<not> succeeds (fst (sync_chapters demo_catalog 1 ?w))" by code_simp
  then obtain e w' where s: "sync_chapters demo_catalog 1 ?w = (Inl e, w')" by (rule failsE)
  show ?thesis using sync_chapters_atomic [OF s] n s by (simp add: demo_world_def)
qed

text \<open>
  C29: Synchronising again while the source answers the same changes no chapter: no row is added,
  renumbered or re-created, whatever the clock says.
\<close>

theorem sync_chapters_idempotent:
  assumes "sync_chapters src i w = (Inr rows, w1)"
    and "w_db w2 = w_db w1" "sync_chapters src i w2 = (Inr rows', w3)"
  shows "chapters (w_db w3) = chapters (w_db w1)"
proof -
  obtain m x answer now' where 1: "find (\<lambda>m. m_id m = i) (media (w_db w1)) = Some (m\<lparr>m_chapters_synced_at := now'\<rparr>)"
     "m_extension_id m = Some (x_id x)" "find (\<lambda>y. x_id y = x_id x) (extensions (w_db w1)) = Some x"
     "source_chapters src x m = Inr answer"
     "chapters (w_db w1) = fold (upsert_chapter (w_now w)) (chapter_plan i answer) (chapters (w_db w))"
    using sync_chapters_lookups [OF assms(1)] by blast
  obtain m' x' answer' where 2: "find (\<lambda>m. m_id m = i) (media (w_db w2)) = Some m'"
     "find (\<lambda>x. Some (x_id x) = m_extension_id m') (extensions (w_db w2)) = Some x'"
     "source_chapters src x' m' = Inr answer'"
     "chapters (w_db w3) = fold (upsert_chapter (w_now w2)) (chapter_plan i answer') (chapters (w_db w2))"
    using sync_chapters_ok [OF assms(3)] by fastforce
  have "m' = m\<lparr>m_chapters_synced_at := now'\<rparr>" using 1(1) 2(1) assms(2) by simp
  moreover from this have "x' = x" using 1(2,3) 2(2) assms(2) by simp
  ultimately have "answer' = answer" using 1(4) 2(3) by (simp add: source_chapters_def split: if_splits)
  then show ?thesis using fold_upsert_idem by (simp add: 2(4) assms(2) 1(5))
qed

theorem sync_chapters_idempotent_witness:
  "\<exists>rows w1 rows' w3. sync_chapters demo_catalog 1 demo_world = (Inr rows, w1) \<and>
     sync_chapters demo_catalog 1 (demo_world\<lparr>w_db := w_db w1, w_now := 100\<rparr>) = (Inr rows', w3) \<and>
     chapters (w_db w3) = chapters (w_db w1)"
proof -
  obtain rows w1 where 1: "sync_chapters demo_catalog 1 demo_world = (Inr rows, w1)"
    using demo_sync_succeeds by (rule succeedsE)
  have "succeeds (fst (sync_chapters demo_catalog 1 (demo_world\<lparr>w_db := w_db w1, w_now := 100\<rparr>)))"
    by (rule sync_chapters_again [OF 1]) (simp_all add: demo_world_def)
  then obtain rows' w3 where 2: "sync_chapters demo_catalog 1 (demo_world\<lparr>w_db := w_db w1, w_now := 100\<rparr>) = (Inr rows', w3)"
    by (rule succeedsE)
  from sync_chapters_idempotent [OF 1 _ 2] 1 2 show ?thesis by simp
qed

end
