(* ===== verification/Images.thy ===== *)
theory Images
  imports Sandbox FileNames
begin

text \<open>
  The image files beside the library (\<open>internal/image/cache.go\<close>): the extension of a file from its
  content type, writing the bytes of a cover, fetching an image by URL, and emptying a cache
  directory. The answer of the HTTP request is a parameter, from the URL to the response.
\<close>

record http_response =
  hr_status :: int
  hr_content_type :: string
  hr_body :: string

definition image_ext :: "string \<Rightarrow> string" where
  "image_ext ct =
     (if contains ct ''png'' then ''.png''
      else if contains ct ''webp'' then ''.webp''
      else if contains ct ''gif'' then ''.gif''
      else ''.jpg'')"

definition save_bytes_to_file :: "string \<Rightarrow> string \<Rightarrow> string \<Rightarrow> string \<Rightarrow> ('z fs_world_scheme, string) act" where
  "save_bytes_to_file data content_type dest_dir dest_name =
     seq (wrap (''creating dir '' @ dest_dir) (fs_call (os_mkdir_all dest_dir))) (\<lambda>_.
     let path = path_join [dest_dir, dest_name @ image_ext content_type] in
     seq (wrap (''writing file '' @ path) (fs_call (os_write_file path (Bytes data)))) (\<lambda>_. ret path))"

definition download_to_file ::
    "(string \<Rightarrow> go_err + http_response) \<Rightarrow> string \<Rightarrow> string \<Rightarrow> string \<Rightarrow> ('z fs_world_scheme, string) act" where
  "download_to_file http url dest_dir dest_name =
     seq (wrap (''fetching '' @ url) (ask (http url))) (\<lambda>resp.
     if hr_status resp \<noteq> 200
     then fail (ErrMsg (''fetching '' @ url @ '': status '' @ int_digits (hr_status resp)))
     else seq (wrap (''creating dir '' @ dest_dir) (fs_call (os_mkdir_all dest_dir))) (\<lambda>_.
       let path = path_join [dest_dir, dest_name @ image_ext (hr_content_type resp)] in
       seq (wrap (''creating file '' @ path) (fs_call (os_write_file path (Bytes [])))) (\<lambda>_.
       seq (wrap (''writing file '' @ path) (fs_call (os_write_file path (Bytes (hr_body resp))))) (\<lambda>_.
       ret path))))"

definition clear_entry :: "string \<Rightarrow> string \<times> node \<Rightarrow> ('z fs_world_scheme, unit) act" where
  "clear_entry dir e = (case e of
      (_, DirNode) \<Rightarrow> ret ()
    | (name, FileNode _) \<Rightarrow> wrap (''removing '' @ name) (fs_call (os_remove (path_join [dir, name]))))"

definition clear_dir :: "string \<Rightarrow> ('z fs_world_scheme, unit) act" where
  "clear_dir dir =
     seq (attempt (fs_call (os_read_dir dir))) (\<lambda>r. case r of
       Inl e \<Rightarrow> if is_not_exist e then ret () else fail (ErrWrap (''reading dir '' @ dir) e)
     | Inr entries \<Rightarrow> for_each (clear_entry dir) entries)"

lemma image_ext_same: "image_ext = ext_from_content_type"
  by (simp add: fun_eq_iff image_ext_def ext_from_content_type_def)

lemma keeps_save_bytes_db [keeps_intros]:
  "keeps (\<lambda>w :: 'z fs_world_scheme. I (w_db w)) (save_bytes_to_file data ct dir name)"
  unfolding save_bytes_to_file_def Let_def by (intro keeps_intros)

end
