(* ===== verification/LibrarySync.thy ===== *)
theory LibrarySync
  imports ChapterSync Images Q_Filter
begin

text \<open>
  The operations on library entries (\<open>internal/sync/sync.go\<close>): resolving an entry from its source,
  refreshing its details, putting it in or out of the library and its folders, its reading status,
  and moving a reader's progress to an entry of another source. Work the code starts in the
  background (\<open>maybeEnrich\<close>, \<open>RecomputeMedia\<close>) is recorded in \<open>sw_background\<close>, in the order it is
  started; the metadata and content filter components say what it does.
\<close>

datatype background =
    Enrich int
  | RecomputeMedia int
  | Hydrate int
  | SyncChapters int
  | LibraryUpdate "int list"

text \<open>\<open>LibraryUpdateProgress\<close>; the times are \<open>None\<close> when unset.\<close>

record update_progress =
  up_running :: bool
  up_total :: nat
  up_done :: nat
  up_current :: string
  up_new_chapters :: nat
  up_failed :: "string list"
  up_started_at :: "int option"
  up_finished_at :: "int option"

definition no_update :: update_progress where
  "no_update = \<lparr>up_running = False, up_total = 0, up_done = 0, up_current = [], up_new_chapters = 0,
     up_failed = [], up_started_at = None, up_finished_at = None\<rparr>"

record sync_world = fs_world +
  sw_media_dir :: string
  sw_cache_dir :: string
  sw_has_recompute :: bool
  sw_background :: "background list"
  sw_update :: update_progress

section \<open>Details of an entry\<close>

definition non_empty :: "string list \<Rightarrow> string list" where
  "non_empty s = filter (\<lambda>v. trim_space v \<noteq> []) s"

definition cache_cover :: "source \<Rightarrow> extension \<Rightarrow> int \<Rightarrow> string \<Rightarrow> ('z sync_world_scheme, unit) act" where
  "cache_cover src x i cover_url =
     ignore (seq (ask (src_image src (x_package x) cover_url)) (\<lambda>img.
             seq (gets sw_media_dir) (\<lambda>dir.
             seq (save_bytes_to_file (im_data img) (im_content_type img) (path_join [dir, ''covers'']) (int_digits i)) (\<lambda>path.
             db_call (q_update_media_cover_local_path (Some path) i)))))"

definition set_genres :: "int \<Rightarrow> string list \<Rightarrow> ('z world_scheme, unit) act" where
  "set_genres i names =
     seq (wrap (''clear genres for media '' @ int_digits i) (db_call (q_clear_genres_for_media i))) (\<lambda>_.
     for_each (\<lambda>name.
       seq (wrap (''create genre '' @ name) (db_call (q_create_genre name))) (\<lambda>g.
       wrap (''add genre '' @ name @ '' to media '' @ int_digits i) (db_call (q_add_genre_to_media i (g_id g))))) names)"

definition launch :: "background list \<Rightarrow> ('z sync_world_scheme, unit) act" where
  "launch bs = modify (\<lambda>w. w\<lparr>sw_background := sw_background w @ bs\<rparr>)"

definition start_background :: "int \<Rightarrow> ('z sync_world_scheme, unit) act" where
  "start_background i = seq (gets sw_has_recompute) (\<lambda>has.
     launch (Enrich i # (if has then [RecomputeMedia i] else [])))"

definition details_params_of :: "extension \<Rightarrow> entry_details \<Rightarrow> details_params" where
  "details_params_of x d = \<lparr>dp_extension_id = x_id x, dp_extension_name = x_name x,
     dp_external_id = ed_source_entry_id d, dp_content_type = x_content_type x, dp_title = ed_title d,
     dp_cover_path = null_string (ed_cover_url d), dp_description = null_string (ed_description d),
     dp_status = null_string (ed_status d), dp_author = null_string (join '', '' (ed_authors d))\<rparr>"

definition upsert_entry_from_details :: "source \<Rightarrow> extension \<Rightarrow> entry_details \<Rightarrow> ('z sync_world_scheme, medium) act" where
  "upsert_entry_from_details src x details =
     seq (wrap ''upsert media details'' (db_call (q_upsert_media_details (details_params_of x details)))) (\<lambda>entry.
     let cover_url = (if ed_cover_url details = [] then string_of (m_cover_path entry) else ed_cover_url details);
         names = non_empty (ed_genres details) in
     seq (if cover_url \<noteq> [] \<and> m_cover_local_path entry = None then cache_cover src x (m_id entry) cover_url
          else ret ()) (\<lambda>_.
     seq (if names \<noteq> [] then set_genres (m_id entry) names else ret ()) (\<lambda>_.
     seq (start_background (m_id entry)) (\<lambda>_.
     seq (attempt (db_call (q_get_media (m_id entry)))) (\<lambda>r.
     ret (case r of Inl _ \<Rightarrow> entry | Inr refreshed \<Rightarrow> refreshed))))))"

section \<open>Resolving and refreshing\<close>

text \<open>\<open>sync chapters for media %d\<close>, when asked for.\<close>

definition sync_if :: "source \<Rightarrow> bool \<Rightarrow> int \<Rightarrow> ('z sync_world_scheme, unit) act" where
  "sync_if src wanted i =
     (if wanted then seq (wrap (''sync chapters for media '' @ int_digits i) (sync_chapters src i)) (\<lambda>_. ret ())
      else ret ())"

definition touch_and_get :: "int \<Rightarrow> ('z sync_world_scheme, medium) act" where
  "touch_and_get i = seq (ignore (db_call (q_touch_media_viewed i))) (\<lambda>_. db_call (q_get_media i))"

text \<open>The part of \<open>ResolveMedia\<close> that fetches the details.\<close>

definition adopt_media :: "source \<Rightarrow> extension \<Rightarrow> string \<Rightarrow> string \<Rightarrow> bool \<Rightarrow> ('z sync_world_scheme, medium) act" where
  "adopt_media src x pkg entry_id with_chapters =
     seq (wrap (''get details for '' @ pkg @ ''/'' @ entry_id) (ask (src_details src pkg entry_id))) (\<lambda>details.
     seq (upsert_entry_from_details src x details) (\<lambda>entry.
     seq (sync_if src with_chapters (m_id entry)) (\<lambda>_. touch_and_get (m_id entry))))"

definition resolve_media :: "source \<Rightarrow> string \<Rightarrow> string \<Rightarrow> bool \<Rightarrow> ('z sync_world_scheme, medium) act" where
  "resolve_media src pkg entry_id with_chapters =
     seq (wrap (''lookup extension '' @ pkg) (db_call (q_get_extension_by_package_name pkg))) (\<lambda>x.
     seq (attempt (db_call (q_get_media_by_extension_and_external_id (Some (x_id x)) entry_id))) (\<lambda>existing.
     case existing of
       Inl _ \<Rightarrow> adopt_media src x pkg entry_id with_chapters
     | Inr m \<Rightarrow>
         if m_details_fetched_at m \<noteq> None
         then seq (sync_if src with_chapters (m_id m)) (\<lambda>_. touch_and_get (m_id m))
         else adopt_media src x pkg entry_id with_chapters))"

definition refresh_metadata :: "source \<Rightarrow> int \<Rightarrow> bool \<Rightarrow> ('z sync_world_scheme, medium) act" where
  "refresh_metadata src i with_chapters =
     seq (wrap (''get media '' @ int_digits i) (db_call (q_get_media i))) (\<lambda>entry.
     case m_extension_id entry of
       None \<Rightarrow> fail (ErrMsg (''library entry '' @ int_digits i @ '' has no extension (extension was removed)''))
     | Some xi \<Rightarrow>
         seq (wrap (''get extension '' @ int_digits xi) (db_call (q_get_extension xi))) (\<lambda>x.
         seq (wrap (''get details for '' @ x_package x @ ''/'' @ m_external_id entry)
                (ask (src_details src (x_package x) (m_external_id entry)))) (\<lambda>details.
         seq (upsert_entry_from_details src x details) (\<lambda>medium.
         seq (if with_chapters then seq (wrap (''sync chapters for '' @ int_digits i) (sync_chapters src i)) (\<lambda>_. ret ())
              else ret ()) (\<lambda>_. ret medium)))))"

section \<open>Hydration on demand\<close>

text \<open>
  \<open>EnsureHydrated\<close> and \<open>EnsureChapters\<close> start the fetch in the background, unless one is running, and
  wait a bounded time. The two flags say which of these happens: whether \<open>TryLock\<close> got the lock, and
  whether the fetch ended in time; a fetch that did not is left in \<open>sw_background\<close>.
\<close>

definition hydrate_now :: "source \<Rightarrow> int \<Rightarrow> ('z sync_world_scheme, unit) act" where
  "hydrate_now src i =
     ignore (seq (db_call (q_get_media i)) (\<lambda>m.
       if m_details_fetched_at m \<noteq> None then ret ()
       else
         seq (db_call (q_get_extension (case m_extension_id m of None \<Rightarrow> 0 | Some xi \<Rightarrow> xi))) (\<lambda>x.
         seq sandbox_ensure (\<lambda>_.
         seq (ask (src_details src (x_package x) (m_external_id m))) (\<lambda>details.
         seq (upsert_entry_from_details src x details) (\<lambda>_. ret ()))))))"

definition sync_chapters_now :: "source \<Rightarrow> int \<Rightarrow> ('z sync_world_scheme, unit) act" where
  "sync_chapters_now src i =
     ignore (seq (db_call (q_get_media i)) (\<lambda>m.
       if m_chapters_synced_at m \<noteq> None then ret ()
       else seq sandbox_ensure (\<lambda>_. seq (sync_chapters src i) (\<lambda>_. ret ()))))"

definition in_background :: "bool \<times> bool \<Rightarrow> ('z sync_world_scheme, unit) act \<Rightarrow> background \<Rightarrow> ('z sync_world_scheme, unit) act" where
  "in_background outcome task later = (case outcome of (locked, in_time) \<Rightarrow>
     if \<not> locked then ret () else if in_time then task else launch [later])"

definition ensure_hydrated :: "source \<Rightarrow> bool \<times> bool \<Rightarrow> int \<Rightarrow> ('z sync_world_scheme, medium) act" where
  "ensure_hydrated src outcome i =
     seq (db_call (q_get_media i)) (\<lambda>m.
     if m_details_fetched_at m \<noteq> None \<or> m_extension_id m = None then ret m
     else seq (in_background outcome (hydrate_now src i) (Hydrate i)) (\<lambda>_.
          seq (attempt (db_call (q_get_media i))) (\<lambda>r. ret (case r of Inl _ \<Rightarrow> m | Inr fresh \<Rightarrow> fresh))))"

definition ensure_chapters :: "source \<Rightarrow> bool \<times> bool \<Rightarrow> int \<Rightarrow> ('z sync_world_scheme, chapter_row list) act" where
  "ensure_chapters src outcome i =
     seq (db_call (q_get_media i)) (\<lambda>m.
     if m_chapters_synced_at m \<noteq> None \<or> m_extension_id m = None then db_call (q_list_chapters_by_media i)
     else seq (in_background outcome (sync_chapters_now src i) (SyncChapters i)) (\<lambda>_.
          db_call (q_list_chapters_by_media i)))"

section \<open>The library and its folders\<close>

definition hydrate_before_adding :: "source \<Rightarrow> medium \<Rightarrow> ('z sync_world_scheme, unit) act" where
  "hydrate_before_adding src m = (case m_extension_id m of
      None \<Rightarrow> ret ()
    | Some xi \<Rightarrow>
        seq (wrap (''get extension '' @ int_digits xi) (db_call (q_get_extension xi))) (\<lambda>x.
        seq (resolve_media src (x_package x) (m_external_id m) True) (\<lambda>_. ret ())))"

definition set_in_library :: "source \<Rightarrow> int \<Rightarrow> bool \<Rightarrow> ('z sync_world_scheme, medium) act" where
  "set_in_library src i in_library =
     seq (wrap (''get media '' @ int_digits i) (db_call (q_get_media i))) (\<lambda>m.
     seq (if in_library \<and> m_details_fetched_at m = None then hydrate_before_adding src m else ret ()) (\<lambda>_.
     if in_library then db_call (q_add_media_to_library i)
     else seq (wrap (''clear folders for media '' @ int_digits i) (db_call (q_remove_media_from_all_folders i))) (\<lambda>_.
          db_call (q_remove_media_from_library i))))"

definition add_media_to_folder :: "source \<Rightarrow> int \<Rightarrow> int \<Rightarrow> ('z sync_world_scheme, unit) act" where
  "add_media_to_folder src i folder_id =
     seq (wrap (''add media '' @ int_digits i @ '' to library for foldering'') (set_in_library src i True)) (\<lambda>_.
     db_call (q_add_media_to_folder i folder_id))"

definition reading_status_tx :: "int \<Rightarrow> string \<Rightarrow> ('z world_scheme, unit) act" where
  "reading_status_tx i key =
     seq (wrap (''get folder '' @ quoted key) (db_call (q_get_folder_by_system_key (Some key)))) (\<lambda>f.
     if f_kind f \<noteq> ''reading_status''
     then fail (ErrMsg (''folder '' @ quoted key @ '' is not a reading-status folder (kind='' @ f_kind f @ '')''))
     else seq (wrap ''remove existing reading status''
                 (db_call (q_remove_media_from_folders_by_kind i ''reading_status''))) (\<lambda>_.
          wrap (''add to folder '' @ quoted key) (db_call (q_add_media_to_folder i (f_id f)))))"

definition set_reading_status :: "int \<Rightarrow> string \<Rightarrow> ('z world_scheme, unit) act" where
  "set_reading_status i key =
     in_tx (ErrWrap ''begin reading status tx'') (ErrWrap ''commit reading status tx'') (reading_status_tx i key)"

section \<open>Reading progress\<close>

definition record_progress ::
    "int \<Rightarrow> int \<Rightarrow> f64 \<Rightarrow> bool \<Rightarrow> f64 option \<Rightarrow> f64 option \<Rightarrow> ('z world_scheme, reading_progress) act" where
  "record_progress media_id chapter_id progress completed position_seconds duration_seconds =
     db_call (q_upsert_reading_progress \<lparr>pp_media = media_id, pp_chapter = chapter_id, pp_progress = progress,
       pp_completed = completed, pp_position_seconds = position_seconds, pp_duration_seconds = duration_seconds\<rparr>)"

definition mark_read :: "int \<Rightarrow> int \<Rightarrow> ('z world_scheme, reading_progress) act" where
  "mark_read media_id chapter_id = record_progress media_id chapter_id 1 True None None"

text \<open>\<open>BackfillChapterNumbers\<close> returns the number of chapters it fixed.\<close>

definition backfill_one :: "nat \<Rightarrow> int \<times> string option \<Rightarrow> ('z world_scheme, nat) act" where
  "backfill_one fixed r = (case r of
      (i, None) \<Rightarrow> ret fixed
    | (i, Some title) \<Rightarrow>
        let n = from_title title in
        if n \<le> 0 then ret fixed
        else seq (db_call (q_set_chapter_number (Some n) i)) (\<lambda>_. ret (fixed + 1)))"

definition backfill_chapter_numbers :: "('z world_scheme, nat) act" where
  "backfill_chapter_numbers =
     seq (db_call q_list_chapters_missing_number) (\<lambda>rows. fold_act backfill_one 0 rows)"

section \<open>Moving to another source\<close>

definition chapter_number :: "chapter_row \<Rightarrow> f64" where
  "chapter_number c = (case c_number c of
      Some n \<Rightarrow> if 0 < n then n else (case c_title c of Some t \<Rightarrow> from_title t | None \<Rightarrow> 0)
    | None \<Rightarrow> (case c_title c of Some t \<Rightarrow> from_title t | None \<Rightarrow> 0))"

type_synonym chapter_index = "(f64 \<times> string \<rightharpoonup> chapter_row) \<times> (f64 \<rightharpoonup> chapter_row)"

definition index_chapter :: "chapter_row \<Rightarrow> chapter_index \<Rightarrow> chapter_index" where
  "index_chapter c idx = (case idx of (by_num_scan, by_num) \<Rightarrow>
     let n = chapter_number c in
     if n \<le> 0 then idx
     else (by_num_scan((n, c_scanlator c) \<mapsto> c), if by_num n = None then by_num(n \<mapsto> c) else by_num))"

definition chapter_matcher :: "chapter_row list \<Rightarrow> chapter_row \<Rightarrow> chapter_row option" where
  "chapter_matcher new_chapters old =
     (case fold index_chapter new_chapters (Map.empty, Map.empty) of (by_num_scan, by_num) \<Rightarrow>
      let n = chapter_number old in
      if n \<le> 0 then None
      else case by_num_scan (n, c_scanlator old) of Some c \<Rightarrow> Some c | None \<Rightarrow> by_num n)"

definition carry_progress ::
    "int \<Rightarrow> chapter_row list \<Rightarrow> chapter_row list \<Rightarrow> reading_progress \<Rightarrow> ('z world_scheme, unit) act" where
  "carry_progress new_id old_chapters new_chapters p =
     (case map_of (map (\<lambda>c. (c_id c, c)) (rev old_chapters)) (rp_chapter p) of
        None \<Rightarrow> ret ()
      | Some old \<Rightarrow> (case chapter_matcher new_chapters old of
            None \<Rightarrow> ret ()
          | Some c \<Rightarrow> seq (wrap (''carry progress for chapter '' @ int_digits (rp_chapter p))
              (db_call (q_upsert_reading_progress \<lparr>pp_media = new_id, pp_chapter = c_id c, pp_progress = rp_progress p,
                 pp_completed = rp_completed p, pp_position_seconds = rp_position_seconds p,
                 pp_duration_seconds = rp_duration_seconds p\<rparr>))) (\<lambda>_. ret ())))"

definition migrate_tx ::
    "int \<Rightarrow> int \<Rightarrow> chapter_row list \<Rightarrow> chapter_row list \<Rightarrow> reading_progress list \<Rightarrow> folder list \<Rightarrow> ('z world_scheme, unit) act" where
  "migrate_tx from_id new_id old_chapters new_chapters progress fs =
     seq (for_each (carry_progress new_id old_chapters new_chapters) progress) (\<lambda>_.
     seq (for_each (\<lambda>f. wrap (''re-add to folder '' @ int_digits (f_id f))
            (db_call (q_add_media_to_folder new_id (f_id f)))) fs) (\<lambda>_.
     seq (wrap ''add target to library'' (db_call (q_add_media_to_library new_id))) (\<lambda>_.
     seq (wrap ''clear source folders'' (db_call (q_remove_media_from_all_folders from_id))) (\<lambda>_.
     seq (wrap ''remove source from library'' (db_call (q_remove_media_from_library from_id))) (\<lambda>_. ret ())))))"

text \<open>From the resolved target on.\<close>

definition migrate_to :: "int \<Rightarrow> int \<Rightarrow> ('z world_scheme, medium) act" where
  "migrate_to from_id new_id =
     seq (wrap ''list source chapters'' (db_call (q_list_chapters_by_media from_id))) (\<lambda>old_chapters.
     seq (wrap ''list target chapters'' (db_call (q_list_chapters_by_media new_id))) (\<lambda>new_chapters.
     seq (wrap ''list source progress'' (db_call (q_list_reading_progress_by_media from_id))) (\<lambda>progress.
     seq (wrap ''list source folders'' (db_call (q_list_folders_by_media_ids [from_id]))) (\<lambda>fs.
     seq (in_tx id id (migrate_tx from_id new_id old_chapters new_chapters progress (map snd fs))) (\<lambda>_.
     db_call (q_get_media new_id))))))"

definition migrate_media :: "source \<Rightarrow> int \<Rightarrow> string \<Rightarrow> string \<Rightarrow> ('z sync_world_scheme, medium) act" where
  "migrate_media src from_id to_pkg to_entry =
     seq (wrap (''get source media '' @ int_digits from_id) (db_call (q_get_media from_id))) (\<lambda>_.
     seq (wrap (''adopt target '' @ to_pkg @ ''/'' @ to_entry) (resolve_media src to_pkg to_entry True)) (\<lambda>new.
     if m_id new = from_id then fail (ErrMsg ''migration target resolves to the source entry'')
     else migrate_to from_id (m_id new)))"

section \<open>Updating the whole library\<close>

definition set_update :: "(update_progress \<Rightarrow> update_progress) \<Rightarrow> ('z sync_world_scheme, unit) act" where
  "set_update f = modify (\<lambda>w. w\<lparr>sw_update := f (sw_update w)\<rparr>)"

definition start_library_update :: "int option \<Rightarrow> ('z sync_world_scheme, bool) act" where
  "start_library_update folder_id =
     seq (gets sw_update) (\<lambda>p.
     if up_running p then ret False
     else
       seq (case folder_id of
              Some f \<Rightarrow> seq (db_call (q_list_media_in_folder f)) (\<lambda>rows. ret (map m_id rows))
            | None \<Rightarrow> db_call q_list_update_target_media_ids) (\<lambda>ids.
       seq (gets w_now) (\<lambda>now.
       seq (set_update (\<lambda>_. no_update\<lparr>up_running := True, up_total := length ids, up_started_at := Some now\<rparr>)) (\<lambda>_.
       seq (launch [LibraryUpdate ids]) (\<lambda>_. ret True)))))"

definition update_one :: "source \<Rightarrow> int \<Rightarrow> ('z sync_world_scheme, unit) act" where
  "update_one src i =
     seq (attempt (db_call (q_get_media i))) (\<lambda>r. case r of
       Inl _ \<Rightarrow> ret ()
     | Inr m \<Rightarrow>
         seq (set_update (\<lambda>p. p\<lparr>up_current := m_title m\<rparr>)) (\<lambda>_.
         seq (attempt (db_call (q_list_chapter_external_ids_by_media i))) (\<lambda>before.
         let known = (case before of Inl _ \<Rightarrow> [] | Inr es \<Rightarrow> es) in
         seq (attempt (sync_chapters src i)) (\<lambda>after. case after of
           Inl _ \<Rightarrow> set_update (\<lambda>p. p\<lparr>up_failed := up_failed p @ [m_title m], up_done := up_done p + 1\<rparr>)
         | Inr rows \<Rightarrow>
             let new_count = length (filter (\<lambda>c. c_external_id c \<notin> set known) rows) in
             set_update (\<lambda>p. p\<lparr>up_new_chapters := up_new_chapters p + new_count, up_done := up_done p + 1\<rparr>)))))"

definition finish_update :: "('z sync_world_scheme, unit) act" where
  "finish_update = seq (gets w_now) (\<lambda>now.
     set_update (\<lambda>p. p\<lparr>up_running := False, up_current := [], up_finished_at := Some now\<rparr>))"

definition run_library_update :: "source \<Rightarrow> int list \<Rightarrow> ('z sync_world_scheme, unit) act" where
  "run_library_update src ids =
     seq (attempt sandbox_ensure) (\<lambda>r.
     seq (case r of
            Inl e \<Rightarrow> set_update (\<lambda>p. p\<lparr>up_failed := up_failed p @ [''sandbox unavailable: '' @ err_text e]\<rparr>)
          | Inr _ \<Rightarrow> for_each (update_one src) ids) (\<lambda>_.
     finish_update))"

end
