(* ===== verification/LibraryFolders.thy ===== *)
theory LibraryFolders
  imports LibrarySync
begin

text \<open>
  What the library operations promise about folders: an entry has at most one reading status, and
  every entry in a folder is in the library as long as only the operations that look after it run.
\<close>

section \<open>Reading status\<close>

lemma reading_status_tx_ok:
  assumes "reading_status_tx i key w = (Inr x, w')"
  shows "\<exists>f. find (\<lambda>f. f_system_key f = Some key) (folders (w_db w)) = Some f \<and> f_kind f = ''reading_status'' \<and>
    w_db w' = (w_db w)\<lparr>media_folders := (let rest = filter (\<lambda>p. \<not> (fst p = i \<and> (\<exists>g \<in> set (folders (w_db w)).
        f_id g = snd p \<and> f_kind g = ''reading_status''))) (media_folders (w_db w)) in
      if (i, f_id f) \<in> set rest then rest else rest @ [(i, f_id f)])\<rparr>"
proof -
  obtain f w1 where 1: "db_call (q_get_folder_by_system_key (Some key)) w = (Inr f, w1)" "f_kind f = ''reading_status''"
    and r: "seq (wrap ''remove existing reading status'' (db_call (q_remove_media_from_folders_by_kind i ''reading_status'')))
      (\<lambda>_. wrap (''add to folder '' @ quoted key) (db_call (q_add_media_to_folder i (f_id f)))) w1 = (Inr x, w')"
    using assms by (auto simp: reading_status_tx_def seq_eq_Inr fail_def split: if_splits)
  have f: "find (\<lambda>f. f_system_key f = Some key) (folders (w_db w)) = Some f" "w_db w1 = w_db w" "w_now w1 = w_now w"
    using db_select_one_ok [OF 1(1) [unfolded q_get_folder_by_system_key_def]]
      db_select_one_state [OF 1(1) [unfolded q_get_folder_by_system_key_def]] by simp_all
  obtain w2 u where 2: "db_call (q_remove_media_from_folders_by_kind i ''reading_status'') w1 = (Inr u, w2)"
      "db_call (q_add_media_to_folder i (f_id f)) w2 = (Inr x, w')"
    using r by (auto simp: seq_eq_Inr)
  have d2: "w_db w2 = (w_db w)\<lparr>media_folders := filter (\<lambda>p. \<not> (fst p = i \<and> (\<exists>g \<in> set (folders (w_db w)).
        f_id g = snd p \<and> f_kind g = ''reading_status''))) (media_folders (w_db w))\<rparr>"
    using db_exec_ok [OF 2(1) [unfolded q_remove_media_from_folders_by_kind_def]] by (simp add: delete_where_def f(2))
  obtain fs d where "w' = w2\<lparr>w_faults := fs, w_db := d\<rparr>" "q_add_media_to_folder i (f_id f) (w_now w2) (w_db w2) = (Inr x, d)"
    using db_call_result [OF 2(2)] by auto
  then have "w_db w' = (if (i, f_id f) \<in> set (media_folders (w_db w2)) then w_db w2
      else (w_db w2)\<lparr>media_folders := media_folders (w_db w2) @ [(i, f_id f)]\<rparr>)"
    by (auto simp: q_add_media_to_folder_def with_fk_def exec_def split: if_splits)
  then have "w_db w' = (w_db w)\<lparr>media_folders := (let rest = filter (\<lambda>p. \<not> (fst p = i \<and> (\<exists>g \<in> set (folders (w_db w)).
        f_id g = snd p \<and> f_kind g = ''reading_status''))) (media_folders (w_db w)) in
      if (i, f_id f) \<in> set rest then rest else rest @ [(i, f_id f)])\<rparr>"
    by (simp add: d2 Let_def)
  with f(1) 1(2) show ?thesis by blast
qed

text \<open>
  Setting a reading status replaces the old one: afterwards the entry is in exactly one
  reading-status folder, the one with the asked key, while its other folders and every other entry's
  folders are as before; when the call fails, at whatever step, no folder has changed.
\<close>

theorem reading_status_is_exclusive:
  assumes "distinct (map f_id (folders (w_db w)))"
  shows "case set_reading_status i key w of
      (Inl e, w') \<Rightarrow> w_db w' = w_db w
    | (Inr _, w') \<Rightarrow> folders (w_db w') = folders (w_db w) \<and>
        (\<exists>f \<in> set (folders (w_db w)). f_system_key f = Some key \<and>
           {g \<in> set (folders (w_db w)). f_kind g = ''reading_status'' \<and> (i, f_id g) \<in> set (media_folders (w_db w'))} = {f}) \<and>
        (\<forall>p. \<not> (fst p = i \<and> (\<exists>g \<in> set (folders (w_db w)). f_id g = snd p \<and> f_kind g = ''reading_status'')) \<longrightarrow>
           (p \<in> set (media_folders (w_db w')) \<longleftrightarrow> p \<in> set (media_folders (w_db w))))"
proof -
  obtain r w' where r: "set_reading_status i key w = (r, w')" by fastforce
  show ?thesis
  proof (cases r)
    case (Inl e)
    then show ?thesis using r in_tx_atomic [of _ _ _ w e w'] by (simp add: set_reading_status_def)
  next
    case (Inr x)
    obtain w1 w2 where t: "next_fault w = (None, w1)" "reading_status_tx i key w1 = (Inr x, w2)" "next_fault w2 = (None, w')"
      using in_tx_commit [OF r [unfolded set_reading_status_def Inr]] .
    then have e: "w_db w1 = w_db w" "w_db w2 = w_db w'" by simp_all
    obtain f where f: "find (\<lambda>f. f_system_key f = Some key) (folders (w_db w)) = Some f" "f_kind f = ''reading_status''"
      and d: "w_db w' = (w_db w)\<lparr>media_folders := (let rest = filter (\<lambda>p. \<not> (fst p = i \<and> (\<exists>g \<in> set (folders (w_db w)).
        f_id g = snd p \<and> f_kind g = ''reading_status''))) (media_folders (w_db w)) in
        if (i, f_id f) \<in> set rest then rest else rest @ [(i, f_id f)])\<rparr>"
      using reading_status_tx_ok [OF t(2)] unfolding e by blast
    have m: "p \<in> set (media_folders (w_db w')) \<longleftrightarrow> p = (i, f_id f) \<or> (p \<in> set (media_folders (w_db w)) \<and>
        \<not> (fst p = i \<and> (\<exists>g \<in> set (folders (w_db w)). f_id g = snd p \<and> f_kind g = ''reading_status'')))" for p
      by (auto simp: d Let_def)
    have fs: "f \<in> set (folders (w_db w))" "f_system_key f = Some key" using find_SomeD [OF f(1)] by auto
    have "g = f" if "g \<in> set (folders (w_db w))" "f_id g = f_id f" for g
      using assms that fs(1) by (metis distinct_map inj_onD)
    then have "{g \<in> set (folders (w_db w)). f_kind g = ''reading_status'' \<and> (i, f_id g) \<in> set (media_folders (w_db w'))} = {f}"
      using fs(1) f(2) by (auto simp: m)
    moreover have "p \<in> set (media_folders (w_db w')) \<longleftrightarrow> p \<in> set (media_folders (w_db w))"
      if "\<not> (fst p = i \<and> (\<exists>g \<in> set (folders (w_db w)). f_id g = snd p \<and> f_kind g = ''reading_status''))" for p
      using that m fs(1) f(2) by auto
    moreover have "folders (w_db w') = folders (w_db w)" by (simp add: d)
    ultimately show ?thesis using r Inr fs by auto
  qed
qed

theorem reading_status_is_exclusive_witness:
  "case set_reading_status 1 ''completed'' demo_world of
      (Inl e, w') \<Rightarrow> False
    | (Inr _, w') \<Rightarrow> {g \<in> set (folders demo_library). f_kind g = ''reading_status'' \<and>
          (1, f_id g) \<in> set (media_folders (w_db w'))} = {demo_folder 2 ''reading_status'' (Some ''completed'')}"
proof -
  have d: "distinct (map f_id (folders (w_db demo_world)))" by code_simp
  have "succeeds (fst (set_reading_status 1 ''completed'' demo_world))" by code_simp
  then obtain x w' where s: "set_reading_status 1 ''completed'' demo_world = (Inr x, w')" by (rule succeedsE)
  obtain f where f: "f \<in> set (folders demo_library)" "f_system_key f = Some ''completed''"
    "{g \<in> set (folders demo_library). f_kind g = ''reading_status'' \<and> (1, f_id g) \<in> set (media_folders (w_db w'))} = {f}"
    using reading_status_is_exclusive [OF d, where i = 1 and key = "''completed''"] s by (auto simp: demo_world_def)
  have "\<forall>f \<in> set (folders demo_library). f_system_key f = Some ''completed'' \<longrightarrow>
      f = demo_folder 2 ''reading_status'' (Some ''completed'')" by code_simp
  then have "f = demo_folder 2 ''reading_status'' (Some ''completed'')" using f(1,2) by blast
  with f(3) s show ?thesis by simp
qed

section \<open>Entries in folders are in the library\<close>

definition foldered_in_library :: "db \<Rightarrow> bool" where
  "foldered_in_library d \<longleftrightarrow>
     (\<forall>p \<in> set (media_folders d). \<exists>m \<in> set (media d). m_id m = fst p \<and> m_added_at m \<noteq> None)"

text \<open>Which entries are in the library, and the folders: all the invariant looks at.\<close>

definition membership :: "db \<Rightarrow> (int \<times> bool) list \<times> (int \<times> int) list" where
  "membership d = (map (\<lambda>m. (m_id m, m_added_at m \<noteq> None)) (media d), media_folders d)"

lemma foldered_membership:
  "foldered_in_library d \<longleftrightarrow> (\<forall>p \<in> set (snd (membership d)). (fst p, True) \<in> set (fst (membership d)))"
  by (fastforce simp: foldered_in_library_def membership_def)

lemma keeps_foldered_same:
  assumes "\<And>now d. membership (snd (q now d)) = membership d"
  shows "keeps (\<lambda>w :: 'z world_scheme. foldered_in_library (w_db w)) (db_call q)"
  by (rule keeps_db_call) (simp add: foldered_membership assms)

lemma membership_update_where [simp]:
  "(\<And>m. m_id (f m) = m_id m \<and> m_added_at (f m) = m_added_at m) \<Longrightarrow>
   membership (d\<lparr>media := update_where P f (media d)\<rparr>) = membership d"
  by (simp add: membership_def map_update_where)

lemma membership_other_tables [simp]:
  "membership (d\<lparr>media_genres := a\<rparr>) = membership d" "membership (d\<lparr>genres := b\<rparr>) = membership d"
  "membership (d\<lparr>chapters := e\<rparr>) = membership d" "membership (d\<lparr>progresses := g\<rparr>) = membership d"
  by (simp_all add: membership_def)

lemma keeps_foldered_stmts [keeps_intros]:
  "keeps (\<lambda>w :: 'z world_scheme. foldered_in_library (w_db w)) (db_call (q_update_media_cover_local_path path i))"
  "keeps (\<lambda>w :: 'z world_scheme. foldered_in_library (w_db w)) (db_call (q_clear_genres_for_media i))"
  "keeps (\<lambda>w :: 'z world_scheme. foldered_in_library (w_db w)) (db_call (q_create_genre name))"
  "keeps (\<lambda>w :: 'z world_scheme. foldered_in_library (w_db w)) (db_call (q_add_genre_to_media i g))"
  "keeps (\<lambda>w :: 'z world_scheme. foldered_in_library (w_db w)) (db_call (q_touch_media_viewed i))"
  "keeps (\<lambda>w :: 'z world_scheme. foldered_in_library (w_db w)) (db_call (q_mark_chapters_synced i))"
  "keeps (\<lambda>w :: 'z world_scheme. foldered_in_library (w_db w)) (db_call (q_create_chapter cp))"
  "keeps (\<lambda>w :: 'z world_scheme. foldered_in_library (w_db w)) (db_call (q_upsert_reading_progress pp))"
  "keeps (\<lambda>w :: 'z world_scheme. foldered_in_library (w_db w)) (db_call (q_set_chapter_number n i))"
  by (rule keeps_foldered_same; simp add: q_update_media_cover_local_path_def q_clear_genres_for_media_def
      q_create_genre_def q_add_genre_to_media_def q_touch_media_viewed_def q_mark_chapters_synced_def
      q_create_chapter_def q_upsert_reading_progress_def q_set_chapter_number_def exec_def with_fk_def
      split: prod.split)+

lemma keeps_foldered_upsert_details [keeps_intros]:
  "keeps (\<lambda>w :: 'z world_scheme. foldered_in_library (w_db w)) (db_call (q_upsert_media_details p))"
proof (rule keeps_db_call)
  fix now d assume d: "foldered_in_library d"
  let ?P = "\<lambda>m. m_extension_id m = Some (dp_extension_id p) \<and> m_external_id m = dp_external_id p"
  have u: "foldered_in_library (d\<lparr>media := update_where ?P (details_updated p now) (media d)\<rparr>)"
    using d by (simp add: foldered_membership details_updated_def)
  have "foldered_in_library (d\<lparr>media := media d @ [new]\<rparr>)" for new
    using d by (fastforce simp: foldered_in_library_def)
  with u d show "foldered_in_library (snd (q_upsert_media_details p now d))"
    by (auto simp: q_upsert_media_details_def with_fk_def upsert_def Let_def split: option.split)
qed

lemma keeps_foldered_membership_stmts [keeps_intros]:
  "keeps (\<lambda>w :: 'z world_scheme. foldered_in_library (w_db w)) (db_call (q_remove_media_from_all_folders i))"
  "keeps (\<lambda>w :: 'z world_scheme. foldered_in_library (w_db w)) (db_call (q_add_media_to_library i))"
proof -
  show "keeps (\<lambda>w :: 'z world_scheme. foldered_in_library (w_db w)) (db_call (q_remove_media_from_all_folders i))"
    by (rule keeps_db_call) (auto simp: q_remove_media_from_all_folders_def exec_def foldered_in_library_def)
  show "keeps (\<lambda>w :: 'z world_scheme. foldered_in_library (w_db w)) (db_call (q_add_media_to_library i))"
  proof (rule keeps_db_call)
    fix now d assume d: "foldered_in_library d"
    let ?f = "\<lambda>m. m\<lparr>m_added_at := coalesce (m_added_at m) (Some now)\<rparr>"
    have "foldered_in_library (d\<lparr>media := update_where (\<lambda>m. m_id m = i) ?f (media d)\<rparr>)"
      unfolding foldered_in_library_def
    proof
      fix p assume "p \<in> set (media_folders (d\<lparr>media := update_where (\<lambda>m. m_id m = i) ?f (media d)\<rparr>))"
      then obtain m where m: "m \<in> set (media d)" "m_id m = fst p" "m_added_at m \<noteq> None"
        using d by (auto simp: foldered_in_library_def)
      then have "(if m_id m = i then ?f m else m) \<in> set (media (d\<lparr>media := update_where (\<lambda>m. m_id m = i) ?f (media d)\<rparr>))"
        by (auto simp: update_where_def)
      then show "\<exists>m \<in> set (media (d\<lparr>media := update_where (\<lambda>m. m_id m = i) ?f (media d)\<rparr>)). m_id m = fst p \<and> m_added_at m \<noteq> None"
        by (rule bexI [rotated]) (use m in \<open>auto simp: coalesce_def split: option.split\<close>)
    qed
    with d show "foldered_in_library (snd (q_add_media_to_library i now d))"
      by (auto simp: q_add_media_to_library_def q_update_media_def update_returning_def split: option.split)
  qed
qed

text \<open>Taking an entry out of its folders and then out of the library.\<close>

lemma keeps_remove_from_library:
  "keeps (\<lambda>w :: 'z world_scheme. foldered_in_library (w_db w))
     (seq (wrap t (db_call (q_remove_media_from_all_folders i))) (\<lambda>_. db_call (q_remove_media_from_library i)))"
proof (rule keepsI)
  fix w :: "'z world_scheme" assume w: "foldered_in_library (w_db w)"
  obtain r1 w1 where 1: "db_call (q_remove_media_from_all_folders i) w = (r1, w1)" by fastforce
  have w1: "foldered_in_library (w_db w1)" using keepsD [OF keeps_foldered_membership_stmts(1) w 1] .
  show "foldered_in_library (w_db (snd (seq (wrap t (db_call (q_remove_media_from_all_folders i)))
      (\<lambda>_. db_call (q_remove_media_from_library i)) w)))"
  proof (cases r1)
    case (Inl e)
    then show ?thesis using 1 w1 by (simp add: seq_def wrap_def)
  next
    case (Inr u)
    have out: "\<forall>p \<in> set (media_folders (w_db w1)). fst p \<noteq> i"
      using db_exec_ok [OF 1 [unfolded Inr q_remove_media_from_all_folders_def]] by simp
    obtain r2 w2 where 2: "db_call (q_remove_media_from_library i) w1 = (r2, w2)" by fastforce
    obtain fs d where d: "w2 = w1\<lparr>w_faults := fs, w_db := d\<rparr>"
        "d = w_db w1 \<or> q_remove_media_from_library i (w_now w1) (w_db w1) = (r2, d)"
      using db_call_result [OF 2] by blast
    have "foldered_in_library ((w_db w1)\<lparr>media := update_where (\<lambda>m. m_id m = i) (\<lambda>m. m\<lparr>m_added_at := None\<rparr>) (media (w_db w1))\<rparr>)"
      using w1 out by (fastforce simp: foldered_in_library_def update_where_def)
    then have "foldered_in_library d"
      using d(2) w1 by (auto simp: q_remove_media_from_library_def q_update_media_def update_returning_def split: option.splits)
    then show ?thesis using 1 2 d(1) Inr by (simp add: seq_def wrap_def)
  qed
qed

lemma keeps_launch [keeps_intros]: "keeps (\<lambda>w :: 'z sync_world_scheme. I (w_db w)) (launch bs)"
  by (simp add: keeps_def launch_def modify_def)

lemma keeps_foldered_sync_chapters [keeps_intros]:
  "keeps (\<lambda>w :: 'z world_scheme. foldered_in_library (w_db w)) (sync_chapters src i)"
  unfolding sync_chapters_def sync_chapters_from_def fetch_chapter_summaries_def write_chapters_def Let_def
    q_get_media_def q_get_extension_def
  by (intro keeps_intros)

lemma keeps_foldered_upsert_entry [keeps_intros]:
  "keeps (\<lambda>w :: 'z sync_world_scheme. foldered_in_library (w_db w)) (upsert_entry_from_details src x details)"
  unfolding upsert_entry_from_details_def cache_cover_def set_genres_def start_background_def Let_def q_get_media_def
  by (intro keeps_intros)

lemma keeps_foldered_resolve [keeps_intros]:
  "keeps (\<lambda>w :: 'z sync_world_scheme. foldered_in_library (w_db w)) (resolve_media src pkg entry_id chs)"
  unfolding resolve_media_def adopt_media_def sync_if_def touch_and_get_def q_get_media_def
    q_get_extension_by_package_name_def q_get_media_by_extension_and_external_id_def
  by (intro keeps_intros)

lemma keeps_foldered_refresh [keeps_intros]:
  "keeps (\<lambda>w :: 'z sync_world_scheme. foldered_in_library (w_db w)) (refresh_metadata src i chs)"
  unfolding refresh_metadata_def q_get_media_def q_get_extension_def
  by (intro keeps_intros)

lemma keeps_foldered_set_in_library [keeps_intros]:
  "keeps (\<lambda>w :: 'z sync_world_scheme. foldered_in_library (w_db w)) (set_in_library src i b)"
  unfolding set_in_library_def hydrate_before_adding_def q_get_media_def q_get_extension_def
  by (intro keeps_intros keeps_remove_from_library)

lemma set_in_library_added:
  assumes "set_in_library src i True w = (Inr m, w')"
  shows "\<exists>m \<in> set (media (w_db w')). m_id m = i \<and> m_added_at m \<noteq> None"
proof -
  obtain w1 where "db_call (q_add_media_to_library i) w1 = (Inr m, w')"
    using assms by (auto simp: set_in_library_def seq_eq_Inr)
  then obtain fs d where d: "w' = w1\<lparr>w_faults := fs, w_db := d\<rparr>" "q_add_media_to_library i (w_now w1) (w_db w1) = (Inr m, d)"
    using db_call_result [of "q_add_media_to_library i" w1 "Inr m" w'] by auto
  then obtain m0 where "find (\<lambda>m. m_id m = i) (media (w_db w1)) = Some m0"
      "media d = update_where (\<lambda>m. m_id m = i) (\<lambda>m. m\<lparr>m_added_at := coalesce (m_added_at m) (Some (w_now w1))\<rparr>) (media (w_db w1))"
    by (auto simp: q_add_media_to_library_def q_update_media_def update_returning_def split: option.splits)
  moreover from this have m0: "m_id m0 = i" "m0 \<in> set (media (w_db w1))"
    using find_SomeD [of "\<lambda>m. m_id m = i" "media (w_db w1)" m0] by auto
  ultimately have "m0\<lparr>m_added_at := coalesce (m_added_at m0) (Some (w_now w1))\<rparr> \<in> set (media (w_db w'))"
    by (auto simp: update_where_def d(1))
  then show ?thesis by (rule bexI [rotated]) (auto simp: m0(1) coalesce_def split: option.split)
qed

lemma add_to_folder_state:
  assumes "db_call (q_add_media_to_folder i f) w = (r, w')"
  shows "media (w_db w') = media (w_db w) \<and>
    set (media_folders (w_db w')) \<subseteq> insert (i, f) (set (media_folders (w_db w)))"
proof -
  obtain fs d where "w' = w\<lparr>w_faults := fs, w_db := d\<rparr>"
      "d = w_db w \<or> q_add_media_to_folder i f (w_now w) (w_db w) = (r, d)"
    using db_call_result [OF assms] by blast
  then show ?thesis by (auto simp: q_add_media_to_folder_def with_fk_def exec_def split: if_splits)
qed

lemma keeps_foldered_add_to_folder [keeps_intros]:
  "keeps (\<lambda>w :: 'z sync_world_scheme. foldered_in_library (w_db w)) (add_media_to_folder src i f)"
proof (rule keepsI)
  fix w :: "'z sync_world_scheme" assume w: "foldered_in_library (w_db w)"
  obtain r1 w1 where 1: "set_in_library src i True w = (r1, w1)" by fastforce
  have w1: "foldered_in_library (w_db w1)" using keepsD [OF keeps_foldered_set_in_library w 1] .
  show "foldered_in_library (w_db (snd (add_media_to_folder src i f w)))"
  proof (cases r1)
    case (Inl e)
    then show ?thesis using 1 w1 by (simp add: add_media_to_folder_def seq_def wrap_def)
  next
    case (Inr m)
    obtain r2 w2 where 2: "db_call (q_add_media_to_folder i f) w1 = (r2, w2)" by fastforce
    have "foldered_in_library (w_db w2)"
      unfolding foldered_in_library_def
    proof
      fix p assume "p \<in> set (media_folders (w_db w2))"
      then have "p = (i, f) \<or> p \<in> set (media_folders (w_db w1))" using add_to_folder_state [OF 2] by blast
      then show "\<exists>m \<in> set (media (w_db w2)). m_id m = fst p \<and> m_added_at m \<noteq> None"
        using w1 set_in_library_added [OF 1 [unfolded Inr]] add_to_folder_state [OF 2]
        unfolding foldered_in_library_def by (metis fst_conv)
    qed
    then show ?thesis using 1 2 Inr by (simp add: add_media_to_folder_def seq_def wrap_def)
  qed
qed

text \<open>The transaction of \<open>MigrateMedia\<close> puts the target in the folders before it is in the library.\<close>

definition foldered_but :: "int \<Rightarrow> db \<Rightarrow> bool" where
  "foldered_but i d \<longleftrightarrow>
     (\<forall>p \<in> set (media_folders d). fst p = i \<or> (\<exists>m \<in> set (media d). m_id m = fst p \<and> m_added_at m \<noteq> None))"

lemma keeps_foldered_but_add [keeps_intros]:
  "keeps (\<lambda>w :: 'z world_scheme. foldered_but i (w_db w)) (db_call (q_add_media_to_folder i f))"
proof (rule keepsI)
  fix w :: "'z world_scheme" assume w: "foldered_but i (w_db w)"
  obtain r w' where r: "db_call (q_add_media_to_folder i f) w = (r, w')" by fastforce
  show "foldered_but i (w_db (snd (db_call (q_add_media_to_folder i f) w)))"
    unfolding foldered_but_def r snd_conv
  proof
    fix p assume "p \<in> set (media_folders (w_db w'))"
    then have "p = (i, f) \<or> p \<in> set (media_folders (w_db w))" using add_to_folder_state [OF r] by blast
    then show "fst p = i \<or> (\<exists>m \<in> set (media (w_db w')). m_id m = fst p \<and> m_added_at m \<noteq> None)"
      using w add_to_folder_state [OF r] unfolding foldered_but_def by (metis fst_conv)
  qed
qed

lemma keeps_foldered_but_progress [keeps_intros]:
  "keeps (\<lambda>w :: 'z world_scheme. foldered_but i (w_db w)) (db_call (q_upsert_reading_progress p))"
  by (rule keeps_db_call)
     (simp add: foldered_but_def q_upsert_reading_progress_def with_fk_def split: prod.split)

lemma add_to_library_state:
  assumes "db_call (q_add_media_to_library i) w = (Inr m, w')"
  shows "media_folders (w_db w') = media_folders (w_db w) \<and>
    media (w_db w') = update_where (\<lambda>m. m_id m = i) (\<lambda>m. m\<lparr>m_added_at := coalesce (m_added_at m) (Some (w_now w))\<rparr>) (media (w_db w)) \<and>
    i \<in> set (map m_id (media (w_db w)))"
proof -
  obtain fs d where "w' = w\<lparr>w_faults := fs, w_db := d\<rparr>" "q_add_media_to_library i (w_now w) (w_db w) = (Inr m, d)"
    using db_call_result [OF assms] by auto
  then show ?thesis
    by (auto simp: q_add_media_to_library_def q_update_media_def update_returning_def split: option.splits dest!: find_SomeD)
qed

lemma added_after:
  "m \<in> set ms \<Longrightarrow> m_id m = j \<Longrightarrow> j = i \<or> m_added_at m \<noteq> None \<Longrightarrow>
   \<exists>m' \<in> set (update_where (\<lambda>m. m_id m = i) (\<lambda>m. m\<lparr>m_added_at := coalesce (m_added_at m) (Some now)\<rparr>) ms).
     m_id m' = j \<and> m_added_at m' \<noteq> None"
  by (rule bexI [of _ "if m_id m = i then m\<lparr>m_added_at := coalesce (m_added_at m) (Some now)\<rparr> else m"])
     (auto simp: update_where_def coalesce_def split: option.split)

lemma foldered_but_added:
  assumes "foldered_but i (w_db w)" "db_call (q_add_media_to_library i) w = (Inr m, w')"
  shows "foldered_in_library (w_db w')"
  unfolding foldered_in_library_def
proof
  fix p assume "p \<in> set (media_folders (w_db w'))"
  then have p: "fst p = i \<or> (\<exists>m \<in> set (media (w_db w)). m_id m = fst p \<and> m_added_at m \<noteq> None)"
    using assms(1) add_to_library_state [OF assms(2)] by (auto simp: foldered_but_def)
  obtain mi where "mi \<in> set (media (w_db w))" "m_id mi = i" using add_to_library_state [OF assms(2)] by auto
  with p obtain m where "m \<in> set (media (w_db w))" "m_id m = fst p" "fst p = i \<or> m_added_at m \<noteq> None" by metis
  from added_after [OF this] show "\<exists>m \<in> set (media (w_db w')). m_id m = fst p \<and> m_added_at m \<noteq> None"
    using add_to_library_state [OF assms(2)] by simp
qed

lemma snd_wrap_ret [simp]: "snd (seq (wrap t m) (\<lambda>_. ret ()) w) = snd (m w)" "snd (wrap t m w) = snd (m w)"
  by (simp_all add: seq_def wrap_def ret_def split: prod.split sum.split)

lemma seq_wrap_ret_snd:
  assumes "seq m (\<lambda>_. seq (wrap t n) (\<lambda>_. ret ())) w = (Inr x, w')"
  shows "snd (seq m (\<lambda>_. n) w) = w'"
proof -
  obtain y w1 where "m w = (Inr y, w1)" "seq (wrap t n) (\<lambda>_. ret ()) w1 = (Inr x, w')"
    using assms by (auto simp: seq_eq_Inr [of m])
  then show ?thesis using snd_wrap_ret(1) [of t n w1] by (simp add: seq_Inr)
qed

lemma migrate_tx_steps:
  assumes "migrate_tx from_id new_id old new progress fs w = (Inr x, w')"
  obtains u w1 v w2 m w3 where
    "for_each (carry_progress new_id old new) progress w = (Inr u, w1)"
    "for_each (\<lambda>f. wrap (''re-add to folder '' @ int_digits (f_id f)) (db_call (q_add_media_to_folder new_id (f_id f)))) fs w1 = (Inr v, w2)"
    "db_call (q_add_media_to_library new_id) w2 = (Inr m, w3)"
    "seq (wrap ''clear source folders'' (db_call (q_remove_media_from_all_folders from_id))) (\<lambda>_.
       seq (wrap ''remove source from library'' (db_call (q_remove_media_from_library from_id))) (\<lambda>_. ret ())) w3 = (Inr x, w')"
  using assms unfolding migrate_tx_def
  by (auto simp: seq_eq_Inr [of "for_each f xs" for f xs] seq_eq_Inr [of "wrap ''add target to library'' n" for n])

lemma migrate_tx_keeps_foldered:
  assumes "foldered_in_library (w_db w)" "migrate_tx from_id new_id old new progress fs w = (Inr x, w')"
  shows "foldered_in_library (w_db (w' :: 'z world_scheme))"
proof -
  have carry: "keeps (\<lambda>w :: 'z world_scheme. foldered_but new_id (w_db w)) (carry_progress new_id old new p)" for p
    unfolding carry_progress_def by (intro keeps_intros)
  obtain u w1 v w2 m w3 where 1: "for_each (carry_progress new_id old new) progress w = (Inr u, w1)"
      "for_each (\<lambda>f. wrap (''re-add to folder '' @ int_digits (f_id f)) (db_call (q_add_media_to_folder new_id (f_id f)))) fs w1 = (Inr v, w2)"
    and 2: "db_call (q_add_media_to_library new_id) w2 = (Inr m, w3)"
    and 3: "seq (wrap ''clear source folders'' (db_call (q_remove_media_from_all_folders from_id))) (\<lambda>_.
       seq (wrap ''remove source from library'' (db_call (q_remove_media_from_library from_id))) (\<lambda>_. ret ())) w3 = (Inr x, w')"
    using migrate_tx_steps [OF assms(2)] .
  have "keeps (\<lambda>w :: 'z world_scheme. foldered_but new_id (w_db w)) (for_each (carry_progress new_id old new) progress)"
    by (intro keeps_for_each carry)
  moreover have "foldered_but new_id (w_db w)" using assms(1) by (auto simp: foldered_in_library_def foldered_but_def)
  ultimately have w1: "foldered_but new_id (w_db w1)" using 1(1) unfolding keeps_def by (metis snd_conv)
  have k: "keeps (\<lambda>w :: 'z world_scheme. foldered_but new_id (w_db w))
      (for_each (\<lambda>f. wrap (''re-add to folder '' @ int_digits (f_id f)) (db_call (q_add_media_to_folder new_id (f_id f)))) fs)"
    by (intro keeps_intros)
  have "foldered_but new_id (w_db w2)"
    using k [unfolded keeps_def, rule_format, OF w1] by (simp only: 1(2) snd_conv)
  then have "foldered_in_library (w_db w3)" using foldered_but_added 2 by blast
  moreover have "snd (seq (wrap ''clear source folders'' (db_call (q_remove_media_from_all_folders from_id)))
      (\<lambda>_. db_call (q_remove_media_from_library from_id)) w3) = w'"
    using 3 by (rule seq_wrap_ret_snd)
  ultimately show ?thesis using keeps_remove_from_library unfolding keeps_def by blast
qed

lemma keeps_foldered_migrate [keeps_intros]:
  "keeps (\<lambda>w :: 'z sync_world_scheme. foldered_in_library (w_db w)) (migrate_media src from_id pkg entry)"
proof -
  have "keeps (\<lambda>w :: 'z sync_world_scheme. foldered_in_library (w_db w))
      (in_tx id id (migrate_tx from_id new_id old new progress fs))" for new_id old new progress fs
    by (rule keeps_in_tx_commit) (rule migrate_tx_keeps_foldered)
  note tx = this
  show ?thesis
    unfolding migrate_media_def migrate_to_def q_get_media_def q_list_chapters_by_media_def
      q_list_reading_progress_by_media_def q_list_folders_by_media_ids_def
    by (rule tx | rule keeps_intros)+
qed

text \<open>The operations that look after the library, and a run of any of them.\<close>

datatype library_op =
    Resolve string string bool
  | Refresh int bool
  | SetInLibrary int bool
  | AddToFolder int int
  | Migrate int string string
  | Progress int int f64 bool

definition run_op :: "source \<Rightarrow> library_op \<Rightarrow> ('z sync_world_scheme, unit) act" where
  "run_op src op = (case op of
      Resolve pkg entry chs \<Rightarrow> ignore (resolve_media src pkg entry chs)
    | Refresh i chs \<Rightarrow> ignore (refresh_metadata src i chs)
    | SetInLibrary i b \<Rightarrow> ignore (set_in_library src i b)
    | AddToFolder i f \<Rightarrow> ignore (add_media_to_folder src i f)
    | Migrate i pkg entry \<Rightarrow> ignore (migrate_media src i pkg entry)
    | Progress i c p b \<Rightarrow> ignore (record_progress i c p b None None))"

text \<open>
  C32: Every entry in a folder is in the library: any sequence of resolving, refreshing, adding and
  removing entries, filing them, moving them to another source and recording progress keeps that
  true, whichever of their calls fail.
\<close>

theorem library_operations_keep_folders_in_library:
  fixes w :: "'z sync_world_scheme"
  assumes "foldered_in_library (w_db w)"
  shows "foldered_in_library (w_db (snd (for_each (run_op src) ops w)))"
proof -
  have "keeps (\<lambda>w :: 'z sync_world_scheme. foldered_in_library (w_db w)) (run_op src op)" for op
    unfolding run_op_def record_progress_def by (cases op) (simp_all, (intro keeps_intros)+)
  then have "keeps (\<lambda>w :: 'z sync_world_scheme. foldered_in_library (w_db w)) (for_each (run_op src) ops)"
    by (intro keeps_intros)
  then show ?thesis using assms by (simp add: keeps_def)
qed

definition demo_sync_world :: sync_world where
  "demo_sync_world = \<lparr>w_db = demo_library, w_now = 9, w_faults = [], w_fs = [], sw_media_dir = ''/media'',
     sw_cache_dir = ''/cache'', sw_has_recompute = True, sw_background = [], sw_update = no_update\<rparr>"

theorem library_operations_keep_folders_in_library_witness:
  "foldered_in_library (w_db (snd (for_each (run_op demo_catalog)
     [AddToFolder 2 3, SetInLibrary 1 False, Migrate 2 ''pkg.one'' ''m1''] demo_sync_world)))"
proof -
  have "foldered_in_library (w_db demo_sync_world)" by code_simp
  then show ?thesis by (rule library_operations_keep_folders_in_library)
qed

text \<open>
  Setting a reading status is not one of those operations: on an entry that is not in the library
  it succeeds, files the entry and leaves it out of the library.
\<close>

theorem reading_status_files_unlisted_entry:
  assumes "set_reading_status i key w = (Inr x, w')" "\<forall>m \<in> set (media (w_db w)). m_id m = i \<longrightarrow> m_added_at m = None"
  shows "\<not> foldered_in_library (w_db w')"
proof -
  obtain w1 w2 where t: "next_fault w = (None, w1)" "reading_status_tx i key w1 = (Inr x, w2)" "next_fault w2 = (None, w')"
    using in_tx_commit [OF assms(1) [unfolded set_reading_status_def]] .
  have e: "w_db w1 = w_db w" "w_db w2 = w_db w'" using t by simp_all
  obtain f :: folder where f: "w_db w' = (w_db w)\<lparr>media_folders := (let rest = filter (\<lambda>p. \<not> (fst p = i \<and> (\<exists>g \<in> set (folders (w_db w)).
        f_id g = snd p \<and> f_kind g = ''reading_status''))) (media_folders (w_db w)) in
      if (i, f_id f) \<in> set rest then rest else rest @ [(i, f_id f)])\<rparr>"
    using reading_status_tx_ok [OF t(2)] unfolding e by blast
  have "media (w_db w') = media (w_db w)" "(i, f_id f) \<in> set (media_folders (w_db w'))"
    by (auto simp: f Let_def)
  then show ?thesis using assms(2) unfolding foldered_in_library_def by fastforce
qed

theorem reading_status_files_unlisted_entry_witness:
  "foldered_in_library (w_db (snd (set_in_library demo_catalog 1 False demo_sync_world))) \<and>
   \<not> foldered_in_library (w_db (snd (set_reading_status 1 ''reading'' (snd (set_in_library demo_catalog 1 False demo_sync_world)))))"
proof -
  let ?w = "snd (set_in_library demo_catalog 1 False demo_sync_world)"
  have "succeeds (fst (set_reading_status 1 ''reading'' ?w))" by code_simp
  then obtain x w' where s: "set_reading_status 1 ''reading'' ?w = (Inr x, w')" by (rule succeedsE)
  have "\<forall>m \<in> set (media (w_db ?w)). m_id m = 1 \<longrightarrow> m_added_at m = None" by code_simp
  from reading_status_files_unlisted_entry [OF s this] have "\<not> foldered_in_library (w_db (snd (set_reading_status 1 ''reading'' ?w)))"
    by (simp add: s)
  moreover have "foldered_in_library (w_db ?w)" by code_simp
  ultimately show ?thesis by blast
qed

end
