(* ===== verification/LibraryMigration.thy ===== *)
theory LibraryMigration
  imports LibraryFolders "HOL-Library.Multiset"
begin

text \<open>
  Moving a reader to another source (\<open>MigrateMedia\<close>): which chapter of the target a chapter is
  matched with, what the transaction leaves, and that it is all or nothing.
\<close>

section \<open>Matching chapters\<close>

text \<open>
  The rule \<open>chapterMatcher\<close> implements with its two maps: a chapter without a number matches none;
  otherwise the last chapter of the target with the same number and scanlator, and failing that the
  first with the same number.
\<close>

definition match_spec :: "chapter_row list \<Rightarrow> chapter_row \<Rightarrow> chapter_row option" where
  "match_spec new_chapters old =
     (if chapter_number old \<le> 0 then None
      else case find (\<lambda>c. chapter_number c = chapter_number old \<and> c_scanlator c = c_scanlator old) (rev new_chapters) of
          Some c \<Rightarrow> Some c
        | None \<Rightarrow> find (\<lambda>c. chapter_number c = chapter_number old) new_chapters)"

lemma find_snoc: "find P (xs @ [x]) = (case find P xs of Some y \<Rightarrow> Some y | None \<Rightarrow> if P x then Some x else None)"
  by (induction xs) auto

lemma index_chapters:
  "(fst (fold index_chapter cs (Map.empty, Map.empty)) (n, s) =
     find (\<lambda>c. 0 < chapter_number c \<and> chapter_number c = n \<and> c_scanlator c = s) (rev cs)) \<and>
   (snd (fold index_chapter cs (Map.empty, Map.empty)) n =
     find (\<lambda>c. 0 < chapter_number c \<and> chapter_number c = n) cs)"
proof (induction cs arbitrary: n s rule: rev_induct)
  case (snoc c cs)
  obtain a b where ab: "fold index_chapter cs (Map.empty, Map.empty) = (a, b)" by fastforce
  have ih: "a (n, s) = find (\<lambda>c. 0 < chapter_number c \<and> chapter_number c = n \<and> c_scanlator c = s) (rev cs)"
    "b n = find (\<lambda>c. 0 < chapter_number c \<and> chapter_number c = n) cs" for n s
    using snoc.IH [of n s] by (simp_all add: ab)
  have "fold index_chapter (cs @ [c]) (Map.empty, Map.empty) =
      (if chapter_number c \<le> 0 then (a, b)
       else (a((chapter_number c, c_scanlator c) \<mapsto> c), if b (chapter_number c) = None then b(chapter_number c \<mapsto> c) else b))"
    by (simp only: fold_append comp_apply ab fold_simps id_apply) (simp add: index_chapter_def Let_def)
  then show ?case
    by (auto simp: ih find_snoc not_le split: option.split)
qed simp

lemma chapter_matcher_spec: "chapter_matcher new_chapters old = match_spec new_chapters old"
proof -
  obtain a b where ab: "fold index_chapter new_chapters (Map.empty, Map.empty) = (a, b)" by fastforce
  have "find (\<lambda>c. 0 < chapter_number c \<and> chapter_number c = chapter_number old \<and> c_scanlator c = c_scanlator old) (rev new_chapters) =
      find (\<lambda>c. chapter_number c = chapter_number old \<and> c_scanlator c = c_scanlator old) (rev new_chapters)"
    "find (\<lambda>c. 0 < chapter_number c \<and> chapter_number c = chapter_number old) new_chapters =
      find (\<lambda>c. chapter_number c = chapter_number old) new_chapters" if "0 < chapter_number old"
    by (rule find_cong; use that in auto)+
  then show ?thesis
    using index_chapters [of new_chapters "chapter_number old" "c_scanlator old"]
    by (auto simp: chapter_matcher_def match_spec_def Let_def ab not_le split: option.split)
qed

lemma match_spec_number: "match_spec new_chapters old = Some c \<Longrightarrow> chapter_number c = chapter_number old \<and> c \<in> set new_chapters"
  by (auto simp: match_spec_def split: if_splits option.splits dest!: find_SomeD)

section \<open>Carrying progress\<close>

text \<open>The target chapter of a progress row.\<close>

definition carried_to :: "db \<Rightarrow> int \<Rightarrow> int \<Rightarrow> reading_progress \<Rightarrow> chapter_row option" where
  "carried_to d from_id new_id p =
     (case find (\<lambda>c. c_id c = rp_chapter p) (filter (\<lambda>c. c_media c = from_id) (chapters d)) of
        None \<Rightarrow> None
      | Some old \<Rightarrow> match_spec (foldr insert_chapter (filter (\<lambda>c. c_media c = new_id) (chapters d)) []) old)"

definition same_progress :: "reading_progress \<Rightarrow> reading_progress \<Rightarrow> bool" where
  "same_progress r p \<longleftrightarrow> rp_progress r = rp_progress p \<and> rp_completed r = rp_completed p \<and>
     rp_position_seconds r = rp_position_seconds p \<and> rp_duration_seconds r = rp_duration_seconds p"

text \<open>What a migration leaves: the specification of the transaction.\<close>

definition migrated :: "int \<Rightarrow> int \<Rightarrow> db \<Rightarrow> db \<Rightarrow> bool" where
  "migrated from_id new_id d d' \<longleftrightarrow>
     (\<forall>p \<in> set (progresses d). \<forall>c. rp_media p = from_id \<longrightarrow> carried_to d from_id new_id p = Some c \<longrightarrow>
        (\<exists>r \<in> set (progresses d'). rp_media r = new_id \<and> rp_chapter r = c_id c \<and>
           (\<exists>p' \<in> set (progresses d). rp_media p' = from_id \<and>
              map_option c_id (carried_to d from_id new_id p') = Some (c_id c) \<and> same_progress r p'))) \<and>
     (\<forall>r. rp_media r \<noteq> new_id \<longrightarrow> (r \<in> set (progresses d') \<longleftrightarrow> r \<in> set (progresses d))) \<and>
     (\<forall>f \<in> set (folders d). (from_id, f_id f) \<in> set (media_folders d) \<longrightarrow> (new_id, f_id f) \<in> set (media_folders d')) \<and>
     (\<forall>p \<in> set (media_folders d'). fst p \<noteq> from_id) \<and>
     (\<exists>m \<in> set (media d'). m_id m = new_id \<and> m_added_at m \<noteq> None) \<and>
     (\<forall>m \<in> set (media d'). m_id m = from_id \<longrightarrow> m_added_at m = None)"

definition carry_params :: "int \<Rightarrow> reading_progress \<Rightarrow> chapter_row \<Rightarrow> progress_params" where
  "carry_params new_id p c = \<lparr>pp_media = new_id, pp_chapter = c_id c, pp_progress = rp_progress p,
     pp_completed = rp_completed p, pp_position_seconds = rp_position_seconds p,
     pp_duration_seconds = rp_duration_seconds p\<rparr>"

definition carry_row :: "int \<Rightarrow> int \<Rightarrow> (reading_progress \<Rightarrow> chapter_row option) \<Rightarrow> reading_progress \<Rightarrow>
    reading_progress list \<Rightarrow> reading_progress list" where
  "carry_row now new_id target p rows = (case target p of
      None \<Rightarrow> rows
    | Some c \<Rightarrow> snd (upsert (\<lambda>r. rp_media r = new_id \<and> rp_chapter r = c_id c)
        (progress_updated (carry_params new_id p c) now)
        (progress_created (carry_params new_id p c) (next_id (map rp_id rows)) now) rows))"

lemma carry_progress_ok:
  assumes "carry_progress new_id old new p w = (Inr u, w')"
    and "target p = (case map_of (map (\<lambda>c. (c_id c, c)) (rev old)) (rp_chapter p) of None \<Rightarrow> None | Some c \<Rightarrow> match_spec new c)"
  shows "w_now w' = w_now w \<and> w_db w' = (w_db w)\<lparr>progresses := carry_row (w_now w) new_id target p (progresses (w_db w))\<rparr>"
proof (cases "target p")
  case None
  then show ?thesis
    using assms by (auto simp: carry_progress_def chapter_matcher_spec carry_row_def ret_def split: option.splits)
next
  case (Some c)
  then obtain r where "db_call (q_upsert_reading_progress (carry_params new_id p c)) w = (Inr r, w')"
    using assms by (auto simp: carry_progress_def chapter_matcher_spec carry_params_def seq_eq_Inr ret_def split: option.splits)
  then obtain fs d where "w' = w\<lparr>w_faults := fs, w_db := d\<rparr>"
      "q_upsert_reading_progress (carry_params new_id p c) (w_now w) (w_db w) = (Inr r, d)"
    using db_call_result [of "q_upsert_reading_progress (carry_params new_id p c)" w "Inr r" w'] by auto
  then show ?thesis
    by (auto simp: q_upsert_reading_progress_def with_fk_def carry_row_def Some carry_params_def
        split: if_splits prod.splits)
qed

lemma carry_loop_ok:
  assumes "for_each (carry_progress new_id old new) ps w = (Inr u, w')"
    and "\<And>p. target p = (case map_of (map (\<lambda>c. (c_id c, c)) (rev old)) (rp_chapter p) of None \<Rightarrow> None | Some c \<Rightarrow> match_spec new c)"
  shows "w_now w' = w_now w \<and> w_db w' = (w_db w)\<lparr>progresses := fold (carry_row (w_now w) new_id target) ps (progresses (w_db w))\<rparr>"
  using assms(1)
proof (induction ps arbitrary: w)
  case (Cons p ps)
  then obtain u1 w1 where 1: "carry_progress new_id old new p w = (Inr u1, w1)"
      "for_each (carry_progress new_id old new) ps w1 = (Inr u, w')"
    by (auto simp: seq_eq_Inr)
  from Cons.IH [OF 1(2)] carry_progress_ok [where target = target, OF 1(1) assms(2)] show ?case by simp
qed (simp add: ret_def)

lemma carry_row_other: "rp_media r \<noteq> new_id \<Longrightarrow> r \<in> set (carry_row now new_id target p rows) \<longleftrightarrow> r \<in> set rows"
  by (auto simp: carry_row_def upsert_def update_where_def progress_updated_def progress_created_def carry_params_def
      split: option.splits)

lemma carry_fold_other:
  "rp_media r \<noteq> new_id \<Longrightarrow> r \<in> set (fold (carry_row now new_id target) ps rows) \<longleftrightarrow> r \<in> set rows"
  by (induction ps arbitrary: rows) (auto simp: carry_row_other)

definition carried_rows :: "int \<Rightarrow> (reading_progress \<Rightarrow> chapter_row option) \<Rightarrow> reading_progress list \<Rightarrow> reading_progress list \<Rightarrow> bool" where
  "carried_rows new_id target ps rows \<longleftrightarrow> (\<forall>p \<in> set ps. \<forall>c. target p = Some c \<longrightarrow>
     (\<exists>r \<in> set rows. rp_media r = new_id \<and> rp_chapter r = c_id c \<and>
        (\<exists>p' \<in> set ps. map_option c_id (target p') = Some (c_id c) \<and> same_progress r p')))"

lemma carry_row_lands:
  assumes "target p = Some c"
  shows "\<exists>r \<in> set (carry_row now new_id target p rows). rp_media r = new_id \<and> rp_chapter r = c_id c \<and> same_progress r p"
proof (cases "find (\<lambda>r. rp_media r = new_id \<and> rp_chapter r = c_id c) rows")
  case None
  then show ?thesis
    using assms by (auto simp: carry_row_def upsert_def progress_created_def carry_params_def same_progress_def)
next
  case (Some r)
  then have r: "r \<in> set rows" "rp_media r = new_id" "rp_chapter r = c_id c" using find_SomeD [OF Some] by auto
  then have "progress_updated (carry_params new_id p c) now r \<in> set (carry_row now new_id target p rows)"
    using assms Some by (auto simp: carry_row_def upsert_def update_where_def)
  then show ?thesis
    by (rule bexI [rotated]) (auto simp: r progress_updated_def carry_params_def same_progress_def)
qed

lemma carry_row_keeps:
  assumes "r \<in> set rows" "rp_media r = new_id"
  shows "r \<in> set (carry_row now new_id target p rows) \<or> (\<exists>c. target p = Some c \<and> rp_chapter r = c_id c)"
  using assms by (auto simp: carry_row_def upsert_def update_where_def split: option.splits)

lemma carried_rows_fold: "carried_rows new_id target ps (fold (carry_row now new_id target) ps rows)"
proof (induction ps rule: rev_induct)
  case (snoc q ps)
  let ?T = "fold (carry_row now new_id target) ps rows"
  have "\<exists>r \<in> set (carry_row now new_id target q ?T). rp_media r = new_id \<and> rp_chapter r = c_id c \<and>
      (\<exists>p' \<in> set (ps @ [q]). map_option c_id (target p') = Some (c_id c) \<and> same_progress r p')"
    if p: "p \<in> set (ps @ [q])" "target p = Some c" for p c
  proof (cases "map_option c_id (target q) = Some (c_id c)")
    case True
    then obtain c' where c': "target q = Some c'" "c_id c' = c_id c" by auto
    obtain r where "r \<in> set (carry_row now new_id target q ?T)" "rp_media r = new_id" "rp_chapter r = c_id c'" "same_progress r q"
      using carry_row_lands [where target = target and p = q and c = c', OF c'(1)] by blast
    with True c' show ?thesis by auto
  next
    case False
    then have "p \<in> set ps" using p by auto
    then obtain r p' where r: "r \<in> set ?T" "rp_media r = new_id" "rp_chapter r = c_id c"
        "p' \<in> set ps" "map_option c_id (target p') = Some (c_id c)" "same_progress r p'"
      using snoc.IH p(2) unfolding carried_rows_def by metis
    moreover have "r \<in> set (carry_row now new_id target q ?T)"
      using carry_row_keeps [OF r(1,2), of now target q] r(3) False by auto
    ultimately show ?thesis by auto
  qed
  then show ?case by (auto simp: carried_rows_def)
qed (simp add: carried_rows_def)

section \<open>The transaction\<close>

lemma refile_loop_ok:
  assumes "for_each (\<lambda>f. wrap (''re-add to folder '' @ int_digits (f_id f)) (db_call (q_add_media_to_folder new_id (f_id f)))) fs w = (Inr u, w')"
  shows "w_now w' = w_now w \<and> (\<exists>mf. w_db w' = (w_db w)\<lparr>media_folders := mf\<rparr> \<and>
     set mf = set (media_folders (w_db w)) \<union> (\<lambda>f. (new_id, f_id f)) ` set fs)"
  using assms
proof (induction fs arbitrary: w)
  case Nil
  then show ?case by (auto simp: ret_def intro: exI [of _ "media_folders (w_db w)"])
next
  case (Cons f fs)
  then obtain v w1 where 1: "db_call (q_add_media_to_folder new_id (f_id f)) w = (Inr v, w1)"
    and 2: "for_each (\<lambda>f. wrap (''re-add to folder '' @ int_digits (f_id f)) (db_call (q_add_media_to_folder new_id (f_id f)))) fs w1 = (Inr u, w')"
    by (auto simp: seq_eq_Inr)
  obtain sch d where d: "w1 = w\<lparr>w_faults := sch, w_db := d\<rparr>" "q_add_media_to_folder new_id (f_id f) (w_now w) (w_db w) = (Inr v, d)"
    using db_call_result [OF 1] by auto
  then have "\<exists>mf. d = (w_db w)\<lparr>media_folders := mf\<rparr> \<and> set mf = insert (new_id, f_id f) (set (media_folders (w_db w)))"
    by (auto simp: q_add_media_to_folder_def with_fk_def exec_def split: if_splits
        intro: exI [of _ "media_folders (w_db w)"] exI [of _ "media_folders (w_db w) @ [(new_id, f_id f)]"])
  then show ?case using Cons.IH [OF 2] d(1) by fastforce
qed

lemma set_insert_chapter: "set (foldr insert_chapter xs []) = set xs"
proof -
  have "set (insert_chapter x ys) = insert x (set ys)" for x ys
    by (induction x ys rule: insert_chapter.induct) auto
  then show ?thesis by (induction xs) auto
qed

lemma remove_from_library_state:
  assumes "db_call (q_remove_media_from_library i) w = (Inr m, w')"
  shows "w_db w' = (w_db w)\<lparr>media := update_where (\<lambda>m. m_id m = i) (\<lambda>m. m\<lparr>m_added_at := None\<rparr>) (media (w_db w))\<rparr>"
proof -
  obtain fs d where "w' = w\<lparr>w_faults := fs, w_db := d\<rparr>" "q_remove_media_from_library i (w_now w) (w_db w) = (Inr m, d)"
    using db_call_result [OF assms] by auto
  then show ?thesis
    by (auto simp: q_remove_media_from_library_def q_update_media_def update_returning_def split: option.splits)
qed

lemma taken_out:
  "m \<in> set (update_where (\<lambda>m. m_id m = i) (\<lambda>m. m\<lparr>m_added_at := None\<rparr>) ms) \<Longrightarrow> m_id m = i \<Longrightarrow> m_added_at m = None"
  by (drule set_update_where) (elim bexE disjE conjE; simp)

lemma source_folders:
  "set (map snd [(fst p, f). f \<leftarrow> fs, p \<leftarrow> mf, snd p = f_id f \<and> fst p \<in> set [i]]) = {f \<in> set fs. (i, f_id f) \<in> set mf}"
  (is "set (map snd ?xs) = _")
proof -
  have "set ?xs = {(i, f) | f. f \<in> set fs \<and> (i, f_id f) \<in> set mf}" by auto (force simp: disjoint_iff)
  then have "snd ` set ?xs = snd ` {(i, f) | f. f \<in> set fs \<and> (i, f_id f) \<in> set mf}" by (rule arg_cong)
  then show ?thesis unfolding set_map by (auto simp: image_iff)
qed

text \<open>The last three statements: put the target in the library, take the source out.\<close>

lemma swap_ok:
  assumes "db_call (q_add_media_to_library new_id) w = (Inr m, w1)" "db_call (q_remove_media_from_all_folders from_id) w1 = (Inr u, w2)"
    and "db_call (q_remove_media_from_library from_id) w2 = (Inr m', w')" "new_id \<noteq> from_id"
  shows "progresses (w_db w') = progresses (w_db w) \<and> media_folders (w_db w') = filter (\<lambda>p. fst p \<noteq> from_id) (media_folders (w_db w)) \<and>
    (\<exists>m \<in> set (media (w_db w')). m_id m = new_id \<and> m_added_at m \<noteq> None) \<and>
    (\<forall>m \<in> set (media (w_db w')). m_id m = from_id \<longrightarrow> m_added_at m = None)"
proof -
  let ?in = "update_where (\<lambda>m. m_id m = new_id) (\<lambda>m. m\<lparr>m_added_at := coalesce (m_added_at m) (Some (w_now w))\<rparr>) (media (w_db w))"
  let ?out = "update_where (\<lambda>m. m_id m = from_id) (\<lambda>m. m\<lparr>m_added_at := None\<rparr>) ?in"
  have 1: "media (w_db w1) = ?in" "media_folders (w_db w1) = media_folders (w_db w)" "new_id \<in> set (map m_id (media (w_db w)))"
    using add_to_library_state [OF assms(1)] by auto
  obtain fs d where "w1 = w\<lparr>w_faults := fs, w_db := d\<rparr>" "q_add_media_to_library new_id (w_now w) (w_db w) = (Inr m, d)"
    using db_call_result [OF assms(1)] by auto
  then have p: "progresses (w_db w1) = progresses (w_db w)"
    by (auto simp: q_add_media_to_library_def q_update_media_def split: prod.splits)
  have 2: "w_db w2 = (w_db w1)\<lparr>media_folders := filter (\<lambda>p. fst p \<noteq> from_id) (media_folders (w_db w1))\<rparr>"
    using db_exec_ok [OF assms(2) [unfolded q_remove_media_from_all_folders_def]] by (simp add: delete_where_def)
  have 3: "w_db w' = (w_db w2)\<lparr>media := ?out\<rparr>"
    using remove_from_library_state [OF assms(3)] by (simp add: 2 1(1))
  obtain m0 where "m0 \<in> set (media (w_db w))" "m_id m0 = new_id" using 1(3) by auto
  from added_after [OF this] obtain m1 where m1: "m1 \<in> set ?in" "m_id m1 = new_id" "m_added_at m1 \<noteq> None" by blast
  then have "m1 \<in> set ?out" using assms(4) by (force simp: update_where_def [where P = "\<lambda>m. m_id m = from_id"])
  then have "\<exists>m \<in> set (media (w_db w')). m_id m = new_id \<and> m_added_at m \<noteq> None" using m1 by (auto simp: 3)
  moreover have "\<forall>m \<in> set ?out. m_id m = from_id \<longrightarrow> m_added_at m = None" using taken_out by blast
  then have "\<forall>m \<in> set (media (w_db w')). m_id m = from_id \<longrightarrow> m_added_at m = None" by (simp add: 3)
  ultimately show ?thesis by (simp add: 3 2 1(2) p)
qed

lemma migrate_tx_ok:
  assumes "migrate_tx from_id new_id (foldr insert_chapter (filter (\<lambda>c. c_media c = from_id) (chapters (w_db w))) [])
       (foldr insert_chapter (filter (\<lambda>c. c_media c = new_id) (chapters (w_db w))) []) ps fs w = (Inr x, w')"
    and ps: "set ps = {p \<in> set (progresses (w_db w)). rp_media p = from_id}"
    and fs: "set fs = {f \<in> set (folders (w_db w)). (from_id, f_id f) \<in> set (media_folders (w_db w))}"
    and "new_id \<noteq> from_id" "distinct (map c_id (chapters (w_db w)))"
  shows "migrated from_id new_id (w_db w) (w_db w')"
proof -
  let ?old = "foldr insert_chapter (filter (\<lambda>c. c_media c = from_id) (chapters (w_db w))) []"
  let ?new = "foldr insert_chapter (filter (\<lambda>c. c_media c = new_id) (chapters (w_db w))) []"
  let ?t = "carried_to (w_db w) from_id new_id"
  have "mset (foldr insert_chapter xs []) = mset xs" for xs
  proof -
    have "mset (insert_chapter x ys) = add_mset x (mset ys)" for x ys
      by (induction x ys rule: insert_chapter.induct) auto
    then show ?thesis by (induction xs) auto
  qed
  then have "mset (map c_id ?old) = mset (map c_id (filter (\<lambda>c. c_media c = from_id) (chapters (w_db w))))"
    by simp
  then have "distinct (map c_id ?old)"
    using distinct_map_filter_key [OF assms(5)] mset_eq_imp_distinct_iff by blast
  then have ids: "distinct (map fst (map (\<lambda>c. (c_id c, c)) (rev ?old)))" by (simp add: rev_map [symmetric] o_def)
  have t: "?t p = (case map_of (map (\<lambda>c. (c_id c, c)) (rev ?old)) (rp_chapter p) of None \<Rightarrow> None | Some c \<Rightarrow> match_spec ?new c)" for p
  proof -
    let ?xs = "filter (\<lambda>c. c_media c = from_id) (chapters (w_db w))"
    have "find (\<lambda>c. c_id c = rp_chapter p) ?xs = map_of (map (\<lambda>c. (c_id c, c)) (rev ?old)) (rp_chapter p)"
    proof (cases "find (\<lambda>c. c_id c = rp_chapter p) ?xs")
      case None
      then have "\<forall>c \<in> set ?old. c_id c \<noteq> rp_chapter p" unfolding set_insert_chapter using find_NoneD by fastforce
      then have "map_of (map (\<lambda>c. (c_id c, c)) (rev ?old)) (rp_chapter p) = None" by (auto simp: map_of_eq_None_iff)
      then show ?thesis using None by simp
    next
      case (Some c)
      then have c: "c \<in> set ?old" "c_id c = rp_chapter p" unfolding set_insert_chapter using find_SomeD by fastforce+
      then have "map_of (map (\<lambda>c. (c_id c, c)) (rev ?old)) (rp_chapter p) = Some c"
        unfolding map_of_eq_Some_iff [OF ids] by force
      then show ?thesis using Some by simp
    qed
    then show ?thesis by (simp add: carried_to_def)
  qed
  obtain u w1 v w2 m w3 where
    1: "for_each (carry_progress new_id ?old ?new) ps w = (Inr u, w1)" and
    2: "for_each (\<lambda>f. wrap (''re-add to folder '' @ int_digits (f_id f)) (db_call (q_add_media_to_folder new_id (f_id f)))) fs w1 = (Inr v, w2)" and
    3: "db_call (q_add_media_to_library new_id) w2 = (Inr m, w3)" and
    4: "seq (wrap ''clear source folders'' (db_call (q_remove_media_from_all_folders from_id))) (\<lambda>_.
       seq (wrap ''remove source from library'' (db_call (q_remove_media_from_library from_id))) (\<lambda>_. ret ())) w3 = (Inr x, w')"
    using migrate_tx_steps [OF assms(1)] .
  obtain u4 w4 where 5: "db_call (q_remove_media_from_all_folders from_id) w3 = (Inr u4, w4)"
    and 6: "seq (wrap ''remove source from library'' (db_call (q_remove_media_from_library from_id))) (\<lambda>_. ret ()) w4 = (Inr x, w')"
    using seq_InrE [OF 4] unfolding wrap_eq_Inr by metis
  obtain m' w5 where 7: "db_call (q_remove_media_from_library from_id) w4 = (Inr m', w5)" "ret () w5 = (Inr x, w')"
    using seq_InrE [OF 6] unfolding wrap_eq_Inr by metis
  then have 8: "db_call (q_remove_media_from_library from_id) w4 = (Inr m', w')" by (simp add: ret_def)
  have c: "w_db w1 = (w_db w)\<lparr>progresses := fold (carry_row (w_now w) new_id ?t) ps (progresses (w_db w))\<rparr>"
    using carry_loop_ok [where target = ?t, OF 1 t] by simp
  obtain mf where f: "w_db w2 = (w_db w1)\<lparr>media_folders := mf\<rparr>"
      "set mf = set (media_folders (w_db w)) \<union> (\<lambda>f. (new_id, f_id f)) ` set fs"
    using refile_loop_ok [OF 2] by (auto simp: c)
  note sw = swap_ok [OF 3 5 8 assms(4)]
  have P: "progresses (w_db w') = fold (carry_row (w_now w) new_id ?t) ps (progresses (w_db w))" using sw by (simp add: f(1) c)
  have F: "media_folders (w_db w') = filter (\<lambda>p. fst p \<noteq> from_id) mf" using sw by (simp add: f(1))
  have "\<exists>r \<in> set (progresses (w_db w')). rp_media r = new_id \<and> rp_chapter r = c_id c \<and>
      (\<exists>p' \<in> set (progresses (w_db w)). rp_media p' = from_id \<and> map_option c_id (?t p') = Some (c_id c) \<and> same_progress r p')"
    if "p \<in> set (progresses (w_db w))" "rp_media p = from_id" "?t p = Some c" for p c
  proof -
    have "p \<in> set ps" using that ps by simp
    then show ?thesis
      using carried_rows_fold [of new_id ?t ps "w_now w" "progresses (w_db w)"] that(3) ps
      unfolding carried_rows_def P by blast
  qed
  moreover have "r \<in> set (progresses (w_db w')) \<longleftrightarrow> r \<in> set (progresses (w_db w))" if "rp_media r \<noteq> new_id" for r
    unfolding P using that by (rule carry_fold_other)
  moreover have "(new_id, f_id g) \<in> set (media_folders (w_db w'))"
    if "g \<in> set (folders (w_db w))" "(from_id, f_id g) \<in> set (media_folders (w_db w))" for g
    using that assms(4) by (simp add: F f(2) fs)
  moreover have "\<forall>p \<in> set (media_folders (w_db w')). fst p \<noteq> from_id" by (simp add: F)
  ultimately show ?thesis using sw unfolding migrated_def by blast
qed

text \<open>From the lists the code has read to the end of the call.\<close>

lemma migrate_commit:
  fixes w1 :: "'z world_scheme"
  assumes "new_id \<noteq> from_id" "distinct (map c_id (chapters d))" "w_db w1 = d"
    and run: "seq (in_tx id id (migrate_tx from_id new_id (foldr insert_chapter (filter (\<lambda>c. c_media c = from_id) (chapters d)) [])
       (foldr insert_chapter (filter (\<lambda>c. c_media c = new_id) (chapters d)) []) ps fs)) (\<lambda>_. db_call (q_get_media new_id)) w1 = (r, w')"
    and ps: "set ps = {p \<in> set (progresses d). rp_media p = from_id}"
    and fs: "set fs = {f \<in> set (folders d). (from_id, f_id f) \<in> set (media_folders d)}"
  shows "w_db w' = d \<and> \<not> succeeds r \<or> migrated from_id new_id d (w_db w')"
proof -
  let ?t = "migrate_tx from_id new_id (foldr insert_chapter (filter (\<lambda>c. c_media c = from_id) (chapters d)) [])
       (foldr insert_chapter (filter (\<lambda>c. c_media c = new_id) (chapters d)) []) ps fs :: ('z world_scheme, unit) act"
  obtain r2 w2 where 2: "in_tx id id ?t w1 = (r2, w2)" by fastforce
  show ?thesis
  proof (cases r2)
    case (Inl e)
    then have "w_db w2 = d" using 2 in_tx_atomic [of id id ?t w1 e w2] assms(3) by simp
    moreover have "r = Inl e" "w' = w2" using run 2 Inl by (auto simp: seq_def)
    ultimately show ?thesis by (simp add: succeeds_def)
  next
    case (Inr x)
    obtain w3 w4 where t: "next_fault w1 = (None, w3)" "?t w3 = (Inr x, w4)" "next_fault w4 = (None, w2)"
      using in_tx_commit [OF 2 [unfolded Inr]] .
    then have e: "w_db w3 = d" "w_db w4 = w_db w2" using assms(3) by simp_all
    have "migrated from_id new_id d (w_db w2)"
      using migrate_tx_ok [of from_id new_id w3 ps fs x w4] t(2) ps fs assms(1,2) unfolding e by blast
    moreover have "db_call (q_get_media new_id) w2 = (r, w')" using run 2 Inr by (simp add: seq_def)
    then have "w_db w' = w_db w2" unfolding q_get_media_def by (simp add: db_select_one_state)
    ultimately show ?thesis by simp
  qed
qed

text \<open>
  C31: Moving a reader from one entry to another is all or nothing. When the call succeeds, every
  progress row of the source whose chapter has a counterpart in the target is carried to it (the last
  one carried, when two source chapters share a counterpart), the target is in every folder the
  source was in and in the library, and the source is in no folder and not in the library; when it
  fails, at whatever step, either nothing has changed or all of that has.
\<close>

theorem migration_is_all_or_nothing:
  fixes w :: "'z world_scheme"
  assumes "new_id \<noteq> from_id" "distinct (map c_id (chapters (w_db w)))" "migrate_to from_id new_id w = (r, w')"
  shows "w_db w' = w_db w \<and> \<not> succeeds r \<or> migrated from_id new_id (w_db w) (w_db w')"
proof -
  define d where "d = w_db w"
  let ?of = "\<lambda>i. foldr insert_chapter (filter (\<lambda>c. c_media c = i) (chapters d)) []"
  note reads = reads_wrap [OF reads_select(2)]
  note assms(3) [unfolded migrate_to_def q_list_chapters_by_media_def q_list_reading_progress_by_media_def
      q_list_folders_by_media_ids_def]
  then show ?thesis
  proof (cases rule: seq_readsE [OF _ reads, consumes 1])
    case (2 old w1)
    then have w1: "w_db w1 = d" "old = ?of from_id" using db_select_all_ok by (auto simp: d_def)
    from 2(3) show ?thesis
    proof (cases rule: seq_readsE [OF _ reads, consumes 1])
      case (2 new w2)
      then have w2: "w_db w2 = d" "new = ?of new_id" using db_select_all_ok w1(1) by fastforce+
      from 2(3) show ?thesis
      proof (cases rule: seq_readsE [OF _ reads, consumes 1])
        case (2 ps w3)
        then have w3: "w_db w3 = d" "set ps = {p \<in> set (progresses d). rp_media p = from_id}"
          using db_select_all_ok w2(1) by fastforce+
        from 2(3) show ?thesis
        proof (cases rule: seq_readsE [OF _ reads, consumes 1])
          case (2 fs w4)
          then have "w_db w4 = d" and f: "fs = sort_key (\<lambda>(i, f). (i, f_kind f, f_sort_order f, f_name f))
              [(fst p, f). f \<leftarrow> folders d, p \<leftarrow> media_folders d, snd p = f_id f \<and> fst p \<in> set [from_id]]"
            using db_select_all_ok [of _ w3 fs w4] w3(1) by simp_all
          moreover have "set (map snd fs) = {f \<in> set (folders d). (from_id, f_id f) \<in> set (media_folders d)}"
            unfolding source_folders [symmetric] f set_map set_sort ..
          ultimately have fs: "w_db w4 = d" "set (map snd fs) = {f \<in> set (folders d). (from_id, f_id f) \<in> set (media_folders d)}"
            by blast+
          show ?thesis
            using migrate_commit [OF assms(1) _ fs(1) _ w3(2) fs(2), where r = r and w' = w'] 2(3) assms(2)
            by (simp add: d_def w1(2) w2(2))
        qed (simp_all add: w3(1) d_def succeeds_def)
      qed (simp_all add: w2(1) d_def succeeds_def)
    qed (simp_all add: w1(1) d_def succeeds_def)
  qed (simp_all add: succeeds_def)
qed

theorem migration_is_all_or_nothing_witness:
  "migrated 1 2 demo_library (w_db (snd (migrate_to 1 2 demo_world)))"
proof -
  have "distinct (map c_id (chapters (w_db demo_world)))" by code_simp
  from migration_is_all_or_nothing [OF _ this, of 2 1 "fst (migrate_to 1 2 demo_world)" "snd (migrate_to 1 2 demo_world)"]
  have "\<not> succeeds (fst (migrate_to 1 2 demo_world)) \<or> migrated 1 2 demo_library (w_db (snd (migrate_to 1 2 demo_world)))"
    by (auto simp: demo_world_def)
  moreover have "succeeds (fst (migrate_to 1 2 demo_world))" by code_simp
  ultimately show ?thesis by blast
qed

end
