(* ===== verification/LibraryUpdate.thy ===== *)
theory LibraryUpdate
  imports LibraryFolders
begin

text \<open>
  The background update of the whole library (\<open>StartLibraryUpdate\<close>, \<open>runLibraryUpdate\<close>): one at a
  time, and it always ends, with the counters in range, whatever its calls do.
\<close>

lemma keeps_update_calls [keeps_intros]:
  "keeps (\<lambda>w :: 'z sync_world_scheme. P (sw_update w)) (db_call q)"
  "keeps (\<lambda>w :: 'z sync_world_scheme. P (sw_update w)) (ask r)"
  "keeps (\<lambda>w :: 'z sync_world_scheme. P (sw_update w)) sandbox_ensure"
proof -
  show "keeps (\<lambda>w :: 'z sync_world_scheme. P (sw_update w)) (db_call q)"
  proof (rule keepsI)
    fix w :: "'z sync_world_scheme" assume w: "P (sw_update w)"
    obtain r w' where r: "db_call q w = (r, w')" by fastforce
    from db_call_result [OF this] w show "P (sw_update (snd (db_call q w)))" by (auto simp: r)
  qed
  show "keeps (\<lambda>w :: 'z sync_world_scheme. P (sw_update w)) (ask r)"
    and "keeps (\<lambda>w :: 'z sync_world_scheme. P (sw_update w)) sandbox_ensure"
    by (auto simp: keeps_def ask_def sandbox_ensure_def ext_call_def dest!: next_fault_result split: prod.splits option.splits)
qed

lemma keeps_update_in_tx [keeps_intros]:
  fixes body :: "('z sync_world_scheme, 'a) act"
  assumes "\<And>Q. keeps (\<lambda>w. Q (sw_update w)) body"
  shows "keeps (\<lambda>w. P (sw_update w)) (in_tx ob oc body)"
proof (rule keepsI)
  fix w :: "'z sync_world_scheme" assume w: "P (sw_update w)"
  obtain f w1 where 1: "next_fault w = (f, w1)" by fastforce
  then have u1: "sw_update w1 = sw_update w" by (auto dest!: next_fault_result)
  obtain r2 w2 where 2: "body w1 = (r2, w2)" by fastforce
  have u2: "sw_update w2 = sw_update w"
    using keepsD [OF assms [of "\<lambda>p. p = sw_update w"] _ 2] u1 by simp
  obtain g w3 where 3: "next_fault w2 = (g, w3)" by fastforce
  then have "sw_update w3 = sw_update w" using u2 by (auto dest!: next_fault_result)
  then show "P (sw_update (snd (in_tx ob oc body w)))"
    using w u1 u2 1 2 3 by (cases f; cases r2; cases g) (simp_all add: in_tx_def)
qed

lemma keeps_update_sync_chapters [keeps_intros]:
  "keeps (\<lambda>w :: 'z sync_world_scheme. P (sw_update w)) (sync_chapters src i)"
  unfolding sync_chapters_def sync_chapters_from_def fetch_chapter_summaries_def write_chapters_def Let_def
  by (intro keeps_intros)

lemma update_unchanged:
  assumes "\<And>P. keeps (\<lambda>w. P (sw_update w)) m" "m w = (r, w')"
  shows "sw_update w' = sw_update (w :: 'z sync_world_scheme)"
  using keepsD [OF assms(1) [of "\<lambda>p. p = sw_update w"] _ assms(2)] by simp

text \<open>What one entry does to the progress record.\<close>

definition counted :: "nat \<Rightarrow> update_progress \<Rightarrow> update_progress \<Rightarrow> bool" where
  "counted k p p' \<longleftrightarrow> up_running p' = up_running p \<and> up_total p' = up_total p \<and> up_started_at p' = up_started_at p \<and>
     up_done p' = up_done p + k \<and> up_new_chapters p \<le> up_new_chapters p' \<and> length (up_failed p') \<le> length (up_failed p) + k"

lemma set_update_run: "set_update f w = (Inr (), w\<lparr>sw_update := f (sw_update w)\<rparr>)"
  by (simp add: set_update_def modify_def)

lemma update_one_counted:
  fixes w :: "'z sync_world_scheme"
  shows "\<exists>k w'. update_one src i w = (Inr (), w') \<and> k \<le> 1 \<and> counted k (sw_update w) (sw_update w')"
proof -
  obtain r1 w1 where 1: "db_call (q_get_media i) w = (r1, w1)" by fastforce
  have u1: "sw_update w1 = sw_update w" by (rule update_unchanged [OF keeps_update_calls(1) 1])
  show ?thesis
  proof (cases r1)
    case (Inl e)
    have "update_one src i w = (Inr (), w1)" by (simp add: update_one_def seq_def attempt_eq 1 Inl ret_def)
    then show ?thesis using u1 by (intro exI [of _ 0] exI [of _ w1]) (simp add: counted_def)
  next
    case (Inr m)
    let ?w2 = "w1\<lparr>sw_update := (sw_update w1)\<lparr>up_current := m_title m\<rparr>\<rparr>"
    obtain r3 w3 where 3: "db_call (q_list_chapter_external_ids_by_media i) ?w2 = (r3, w3)" by fastforce
    obtain r4 w4 where 4: "sync_chapters src i w3 = (r4, w4)" by fastforce
    have u4: "sw_update w4 = (sw_update w)\<lparr>up_current := m_title m\<rparr>"
      using update_unchanged [OF keeps_update_calls(1) 3] update_unchanged [OF keeps_update_sync_chapters 4] u1 by simp
    obtain f where "update_one src i w = (Inr (), w4\<lparr>sw_update := f (sw_update w4)\<rparr>)" "counted 1 (sw_update w4) (f (sw_update w4))"
    proof (cases r4)
      case (Inl e)
      then show ?thesis
        by (intro that [of "\<lambda>p. p\<lparr>up_failed := up_failed p @ [m_title m], up_done := up_done p + 1\<rparr>"])
           (simp_all add: update_one_def seq_def attempt_eq 1 Inr set_update_run 3 4 Let_def counted_def)
    next
      case Inr': (Inr rows)
      show ?thesis
        by (intro that [of "\<lambda>p. p\<lparr>up_new_chapters := up_new_chapters p + length (filter (\<lambda>c. c_external_id c \<notin>
              set (case r3 of Inl _ \<Rightarrow> [] | Inr es \<Rightarrow> es)) rows), up_done := up_done p + 1\<rparr>"])
           (simp_all add: update_one_def seq_def attempt_eq 1 Inr Inr' set_update_run 3 4 Let_def counted_def)
    qed
    then show ?thesis by (intro exI [of _ 1]) (auto simp: counted_def u4)
  qed
qed

lemma update_all_counted:
  fixes w :: "'z sync_world_scheme"
  shows "\<exists>k w'. for_each (update_one src) ids w = (Inr (), w') \<and> k \<le> length ids \<and> counted k (sw_update w) (sw_update w')"
proof (induction ids arbitrary: w)
  case Nil
  show ?case by (intro exI [of _ 0] exI [of _ w]) (simp add: ret_def counted_def)
next
  case (Cons i ids)
  obtain k w1 where 1: "update_one src i w = (Inr (), w1)" "k \<le> 1" "counted k (sw_update w) (sw_update w1)"
    using update_one_counted by blast
  obtain l w2 where 2: "for_each (update_one src) ids w1 = (Inr (), w2)" "l \<le> length ids" "counted l (sw_update w1) (sw_update w2)"
    using Cons.IH by blast
  show ?case
    by (intro exI [of _ "k + l"] exI [of _ w2]) (use 1 2 in \<open>auto simp: seq_def counted_def\<close>)
qed

text \<open>
  C34: A library update ends: whatever the sandbox, the sources and the database do, the run returns,
  clears the running flag and the current title, sets the finishing time, and counts at most the
  entries it was given; while one is running, starting another changes nothing and reports so.
\<close>

theorem library_update_ends:
  fixes w :: "'z sync_world_scheme"
  shows "(\<exists>k w'. run_library_update src ids w = (Inr (), w') \<and> \<not> up_running (sw_update w') \<and> up_current (sw_update w') = [] \<and>
      up_finished_at (sw_update w') \<noteq> None \<and> up_total (sw_update w') = up_total (sw_update w) \<and>
      up_done (sw_update w') = up_done (sw_update w) + k \<and> k \<le> length ids) \<and>
    (up_running (sw_update w) \<longrightarrow> start_library_update folder w = (Inr False, w))"
proof
  obtain r1 w1 where 1: "sandbox_ensure w = (r1, w1)" by fastforce
  have u1: "sw_update w1 = sw_update w" by (rule update_unchanged [OF keeps_update_calls(3) 1])
  obtain k w2 where 2: "(case r1 of Inl e \<Rightarrow> set_update (\<lambda>p. p\<lparr>up_failed := up_failed p @ [''sandbox unavailable: '' @ err_text e]\<rparr>)
      | Inr _ \<Rightarrow> for_each (update_one src) ids) w1 = (Inr (), w2)" "k \<le> length ids"
      "up_total (sw_update w2) = up_total (sw_update w)" "up_done (sw_update w2) = up_done (sw_update w) + k"
  proof (cases r1)
    case (Inl e)
    then show ?thesis using u1 by (intro that [of "snd (set_update (\<lambda>p. p\<lparr>up_failed := up_failed p @ [''sandbox unavailable: '' @ err_text e]\<rparr>) w1)" 0])
         (simp_all add: set_update_run)
  next
    case (Inr x)
    obtain k w2 where "for_each (update_one src) ids w1 = (Inr (), w2)" "k \<le> length ids" "counted k (sw_update w1) (sw_update w2)"
      using update_all_counted by blast
    then show ?thesis using u1 Inr by (intro that [of w2 k]) (simp_all add: counted_def)
  qed
  let ?w = "w2\<lparr>sw_update := (sw_update w2)\<lparr>up_running := False, up_current := [], up_finished_at := Some (w_now w2)\<rparr>\<rparr>"
  have "run_library_update src ids w = (Inr (), ?w)"
    using 2(1) by (simp add: run_library_update_def seq_def attempt_eq 1 finish_update_def gets_def set_update_run)
  then show "\<exists>k w'. run_library_update src ids w = (Inr (), w') \<and> \<not> up_running (sw_update w') \<and> up_current (sw_update w') = [] \<and>
      up_finished_at (sw_update w') \<noteq> None \<and> up_total (sw_update w') = up_total (sw_update w) \<and>
      up_done (sw_update w') = up_done (sw_update w) + k \<and> k \<le> length ids"
    using 2(2-4) by (intro exI [of _ k] exI [of _ ?w]) simp
  show "up_running (sw_update w) \<longrightarrow> start_library_update folder w = (Inr False, w)"
    by (simp add: start_library_update_def seq_def gets_def ret_def)
qed

theorem library_update_ends_witness:
  "up_running (sw_update (demo_sync_world\<lparr>sw_update := no_update\<lparr>up_running := True\<rparr>\<rparr>)) \<and>
   start_library_update None (demo_sync_world\<lparr>sw_update := no_update\<lparr>up_running := True\<rparr>\<rparr>) =
     (Inr False, demo_sync_world\<lparr>sw_update := no_update\<lparr>up_running := True\<rparr>\<rparr>)"
  using library_update_ends [of demo_catalog "[]" "demo_sync_world\<lparr>sw_update := no_update\<lparr>up_running := True\<rparr>\<rparr>" None] by simp

end
