(* ===== verification/Repositories.thy ===== *)
theory Repositories
  imports World "HOL-Library.Word"
begin

text \<open>
  Extension repositories (\<open>internal/repository\<close>): the entries of an index in its three formats, their
  conversion to \<open>ParsedExtension\<close>, the protobuf decoder, and \<open>FetchIndex\<close>, which fetches an index and
  finds its format. The decoders the code calls but does not contain are parameters: \<open>protowire\<close>
  (\<open>google.golang.org/protobuf\<close>) as the record \<open>wire\<close>, the HTTP answer, and what \<open>compress/gzip\<close> and
  \<open>encoding/json\<close> read from a text as the record \<open>index_io\<close>. Texts are byte strings, so the keys of
  the language table are the UTF-8 bytes of the source; \<open>strings.ToLower\<close> is a parameter where it is
  applied to such text.
\<close>

section \<open>Entries\<close>

record parsed_extension =
  pe_name :: string
  pe_package :: string
  pe_apk_url :: string
  pe_jar_url :: string
  pe_icon_url :: string
  pe_version :: string
  pe_lang :: string
  pe_content_type :: string
  pe_is_nsfw :: bool

record contact =
  co_website :: string
  co_discord :: string

record resources =
  rs_apk_url :: string
  rs_icon_url :: string
  rs_jar_url :: string

record index_source =
  is_id :: int
  is_name :: string
  is_language :: string
  is_home_url :: string
  is_mirror_urls :: "string list"
  is_message :: string

record index_extension =
  ie_name :: string
  ie_package :: string
  ie_resources :: resources
  ie_extension_lib :: string
  ie_version_code :: int
  ie_version_name :: string
  ie_content_warning :: int
  ie_sources :: "index_source list"

record repo_index =
  ri_name :: string
  ri_badge_label :: string
  ri_signing_key :: string
  ri_contact :: contact
  ri_extension_list :: "index_extension list option"
  ri_extension_list_url :: string

record legacy_extension =
  le_name :: string
  le_pkg :: string
  le_apk :: string
  le_lang :: string
  le_version :: string

record novel_entry =
  ne_id :: string
  ne_name :: string
  ne_site :: string
  ne_lang :: string
  ne_version :: string
  ne_url :: string
  ne_icon_url :: string

section \<open>Names\<close>

definition package_char :: "char \<Rightarrow> bool" where
  "package_char c \<longleftrightarrow> is_alnum c \<or> c = CHR ''.'' \<or> c = CHR ''_'' \<or> c = CHR ''-''"

definition is_valid_package_name :: "string \<Rightarrow> bool" where
  "is_valid_package_name s = (case s of
      [] \<Rightarrow> False
    | c # cs \<Rightarrow> is_alnum c \<and> length cs \<le> 127 \<and> list_all package_char cs)"

definition classify_content_type :: "string \<Rightarrow> string" where
  "classify_content_type pkg =
     (if has_prefix pkg ''eu.kanade.tachiyomi.animeextension.'' then ''anime'' else ''manga'')"

definition filter_valid :: "parsed_extension list \<Rightarrow> parsed_extension list" where
  "filter_valid exts = filter (\<lambda>x. is_valid_package_name (pe_package x)) exts"

text \<open>\<open>DeriveRepoName\<close>; the URL comes parsed into its host and path, or \<open>None\<close> when it does not parse.\<close>

definition derive_repo_name :: "(string \<Rightarrow> (string \<times> string) option) \<Rightarrow> string \<Rightarrow> string" where
  "derive_repo_name parse_url index_url =
     (case parse_url index_url of
        None \<Rightarrow> index_url
      | Some (host, path) \<Rightarrow>
          if host = [] then index_url
          else if host = ''raw.githubusercontent.com''
          then (case split_on (CHR ''/'') (trim_by (\<lambda>c. c = CHR ''/'') path) of
                  a # b # _ \<Rightarrow> a @ ''/'' @ b
                | _ \<Rightarrow> host)
          else host)"

section \<open>Languages\<close>

definition lang_table :: "(string \<times> string) list" where
  "lang_table = [
      (''english'', ''en''),
      (map char_of [102, 114, 97, 110, 195, 167, 97, 105, 115 :: nat], ''fr''),
      (map char_of [216, 167, 217, 132, 216, 185, 216, 177, 216, 168, 217, 138, 216, 169 :: nat], ''ar''),
      (map char_of [228, 184, 173, 230, 150, 135 :: nat], ''zh''),
      (map char_of [230, 177, 137, 232, 175, 173 :: nat], ''zh''),
      (map char_of [230, 188, 162, 232, 170, 158 :: nat], ''zh''),
      (''bahasa indonesia'', ''id''),
      (map char_of [230, 151, 165, 230, 156, 172, 232, 170, 158 :: nat], ''ja''),
      (map char_of [236, 161, 176, 236, 132, 160, 235, 167, 144 :: nat], ''ko''),
      (map char_of [237, 149, 156, 234, 181, 173, 236, 150, 180 :: nat], ''ko''),
      (''polski'', ''pl''),
      (map char_of [112, 111, 114, 116, 117, 103, 117, 195, 170, 115 :: nat], ''pt''),
      (map char_of [209, 128, 209, 131, 209, 129, 209, 129, 208, 186, 208, 184, 208, 185 :: nat], ''ru''),
      (map char_of [101, 115, 112, 97, 195, 177, 111, 108 :: nat], ''es''),
      (map char_of [224, 185, 132, 224, 184, 151, 224, 184, 162 :: nat], ''th''),
      (map char_of [116, 195, 188, 114, 107, 195, 167, 101 :: nat], ''tr''),
      (map char_of [209, 131, 208, 186, 209, 128, 208, 176, 209, 151, 208, 189, 209, 129, 209, 140, 208, 186, 208, 176 :: nat], ''uk''),
      (map char_of [116, 105, 225, 186, 191, 110, 103, 32, 118, 105, 225, 187, 135, 116 :: nat], ''vi''),
      (''multi'', ''all''),
      (''other'', ''all''),
      (''all'', ''all''),
      (''zh-hant'', ''zh-Hant''),
      (''zh-hans'', ''zh-Hans'')]"

text \<open>The UTF-8 encodings of the three directional marks, which \<open>stripDirectionalMarks\<close> drops.\<close>

definition directional_marks :: "string list" where
  "directional_marks = map (map char_of) [[226, 128, 142], [226, 128, 143], [216, 156] :: nat list]"

fun strip_marks :: "string \<Rightarrow> string" where
  "strip_marks [] = []"
| "strip_marks [c] = [c]"
| "strip_marks [c, d] = (if [c, d] \<in> set directional_marks then [] else c # strip_marks [d])"
| "strip_marks (c # d # e # s) =
     (if [c, d] \<in> set directional_marks then strip_marks (e # s)
      else if [c, d, e] \<in> set directional_marks then strip_marks s
      else c # strip_marks (d # e # s))"

definition lang_key :: "(string \<Rightarrow> string) \<Rightarrow> string \<Rightarrow> string" where
  "lang_key lower part =
     (let key = strip_marks (lower (trim_space part))
      in case map_of lang_table key of Some l \<Rightarrow> l | None \<Rightarrow> key)"

definition normalize_lang :: "(string \<Rightarrow> string) \<Rightarrow> string \<Rightarrow> string" where
  "normalize_lang lower raw =
     (let keys = filter (\<lambda>k. k \<noteq> []) (map (lang_key lower) (split_on (CHR '','') raw))
      in if length (remdups keys) = 1 then last keys else ''all'')"

section \<open>Conversions\<close>

definition parsed_of_extension :: "(string \<Rightarrow> string) \<Rightarrow> index_extension \<Rightarrow> parsed_extension" where
  "parsed_of_extension lower x =
     (let langs = remdups (map (\<lambda>s. normalize_lang lower (is_language s)) (ie_sources x)) in
      \<lparr>pe_name = ie_name x, pe_package = ie_package x, pe_apk_url = rs_apk_url (ie_resources x),
       pe_jar_url = rs_jar_url (ie_resources x), pe_icon_url = rs_icon_url (ie_resources x),
       pe_version = ie_version_name x, pe_lang = (case langs of [l] \<Rightarrow> l | _ \<Rightarrow> ''all''),
       pe_content_type = [], pe_is_nsfw = ie_content_warning x > 0\<rparr>)"

definition to_parsed_extensions :: "(string \<Rightarrow> string) \<Rightarrow> repo_index \<Rightarrow> parsed_extension list" where
  "to_parsed_extensions lower idx = (case ri_extension_list idx of
      None \<Rightarrow> [] | Some exts \<Rightarrow> map (parsed_of_extension lower) exts)"

definition legacy_to_parsed :: "string \<Rightarrow> legacy_extension list \<Rightarrow> parsed_extension list" where
  "legacy_to_parsed apk_base exts = map (\<lambda>x. \<lparr>pe_name = le_name x, pe_package = le_pkg x,
     pe_apk_url = apk_base @ le_apk x, pe_jar_url = [], pe_icon_url = [], pe_version = le_version x,
     pe_lang = le_lang x, pe_content_type = [], pe_is_nsfw = False\<rparr>) exts"

definition novel_to_parsed :: "novel_entry list \<Rightarrow> parsed_extension list" where
  "novel_to_parsed exts = map (\<lambda>x. \<lparr>pe_name = ne_name x, pe_package = ne_id x, pe_apk_url = [],
     pe_jar_url = ne_url x, pe_icon_url = ne_icon_url x, pe_version = ne_version x, pe_lang = ne_lang x,
     pe_content_type = ''novel'', pe_is_nsfw = False\<rparr>) exts"

section \<open>The protobuf decoder\<close>

text \<open>
  \<open>protowire\<close>: each function returns what it read and the number of bytes it took, negative when the
  bytes are not a field. A decoding loop has a bound on the fields it reads; \<open>None\<close> is the answer of a
  loop that ran out of it.
\<close>

record wire =
  wi_tag :: "string \<Rightarrow> int \<times> int \<times> int"
  wi_bytes :: "string \<Rightarrow> string \<times> int"
  wi_varint :: "string \<Rightarrow> 64 word \<times> int"
  wi_skip :: "int \<Rightarrow> string \<Rightarrow> int"
  wi_error :: "int \<Rightarrow> go_err"

type_synonym 'a decoded = "(go_err + 'a) option"

definition wire_error :: "wire \<Rightarrow> string \<Rightarrow> int \<Rightarrow> 'a decoded" where
  "wire_error wr msg n = Some (Inl (ErrWrap msg (wi_error wr n)))"

definition take_bytes :: "wire \<Rightarrow> string \<Rightarrow> string \<Rightarrow> (string \<Rightarrow> string \<Rightarrow> 'a decoded) \<Rightarrow> 'a decoded" where
  "take_bytes wr msg b k = (case wi_bytes wr b of (v, n) \<Rightarrow>
     if n < 0 then wire_error wr msg n else k v (drop (nat n) b))"

definition take_varint :: "wire \<Rightarrow> string \<Rightarrow> string \<Rightarrow> (64 word \<Rightarrow> string \<Rightarrow> 'a decoded) \<Rightarrow> 'a decoded" where
  "take_varint wr msg b k = (case wi_varint wr b of (v, n) \<Rightarrow>
     if n < 0 then wire_error wr msg n else k v (drop (nat n) b))"

definition skip_field :: "wire \<Rightarrow> int \<Rightarrow> string \<Rightarrow> 'a \<Rightarrow> (string \<times> 'a) decoded" where
  "skip_field wr typ b x = (let n = wi_skip wr typ b in
     if n < 0 then wire_error wr ''skip field'' n else Some (Inr (drop (nat n) b, x)))"

text \<open>A message inside a message: its error is returned as it is.\<close>

definition nested :: "'b decoded \<Rightarrow> ('b \<Rightarrow> 'a decoded) \<Rightarrow> 'a decoded" where
  "nested m k = (case m of None \<Rightarrow> None | Some (Inl e) \<Rightarrow> Some (Inl e) | Some (Inr v) \<Rightarrow> k v)"

fun decode_loop ::
    "wire \<Rightarrow> (int \<Rightarrow> int \<Rightarrow> string \<Rightarrow> 'a \<Rightarrow> (string \<times> 'a) decoded) \<Rightarrow> nat \<Rightarrow> string \<Rightarrow> 'a \<Rightarrow> 'a decoded" where
  "decode_loop wr field 0 b x = (if b = [] then Some (Inr x) else None)"
| "decode_loop wr field (Suc k) b x =
     (if b = [] then Some (Inr x)
      else case wi_tag wr b of (num, typ, n) \<Rightarrow>
        if n < 0 then wire_error wr ''consume tag'' n
        else (case field num typ (drop (nat n) b) x of
            None \<Rightarrow> None
          | Some (Inl e) \<Rightarrow> Some (Inl e)
          | Some (Inr (b', x')) \<Rightarrow> decode_loop wr field k b' x'))"

definition decode :: "wire \<Rightarrow> (int \<Rightarrow> int \<Rightarrow> string \<Rightarrow> 'a \<Rightarrow> (string \<times> 'a) decoded) \<Rightarrow> string \<Rightarrow> 'a \<Rightarrow> 'a decoded" where
  "decode wr field b x = decode_loop wr field (length b) b x"

definition field_msg :: "string \<Rightarrow> int \<Rightarrow> string" where
  "field_msg what num = ''consume '' @ what @ '' '' @ int_digits num"

definition no_contact :: contact where
  "no_contact = \<lparr>co_website = [], co_discord = []\<rparr>"

definition contact_field :: "wire \<Rightarrow> int \<Rightarrow> int \<Rightarrow> string \<Rightarrow> contact \<Rightarrow> (string \<times> contact) decoded" where
  "contact_field wr num typ b c =
     (if num = 1 \<or> num = 2
      then take_bytes wr (field_msg ''contact field'' num) b (\<lambda>v b'.
        Some (Inr (b', if num = 1 then c\<lparr>co_website := v\<rparr> else c\<lparr>co_discord := v\<rparr>)))
      else skip_field wr typ b c)"

definition decode_contact :: "wire \<Rightarrow> string \<Rightarrow> contact decoded" where
  "decode_contact wr b = decode wr (contact_field wr) b no_contact"

definition no_resources :: resources where
  "no_resources = \<lparr>rs_apk_url = [], rs_icon_url = [], rs_jar_url = []\<rparr>"

definition resources_field :: "wire \<Rightarrow> int \<Rightarrow> int \<Rightarrow> string \<Rightarrow> resources \<Rightarrow> (string \<times> resources) decoded" where
  "resources_field wr num typ b r =
     (if num = 1 \<or> num = 2 \<or> num = 501
      then take_bytes wr (field_msg ''resources field'' num) b (\<lambda>v b'.
        Some (Inr (b', if num = 1 then r\<lparr>rs_apk_url := v\<rparr> else if num = 2 then r\<lparr>rs_icon_url := v\<rparr>
          else r\<lparr>rs_jar_url := v\<rparr>)))
      else skip_field wr typ b r)"

definition decode_resources :: "wire \<Rightarrow> string \<Rightarrow> resources decoded" where
  "decode_resources wr b = decode wr (resources_field wr) b no_resources"

definition no_source :: index_source where
  "no_source = \<lparr>is_id = 0, is_name = [], is_language = [], is_home_url = [], is_mirror_urls = [], is_message = []\<rparr>"

text \<open>\<open>int64(v)\<close> of a varint reads the 64 bits as a signed number.\<close>

definition source_field :: "wire \<Rightarrow> int \<Rightarrow> int \<Rightarrow> string \<Rightarrow> index_source \<Rightarrow> (string \<times> index_source) decoded" where
  "source_field wr num typ b s =
     (if num = 1 then take_varint wr ''consume source id'' b (\<lambda>v b'. Some (Inr (b', s\<lparr>is_id := sint v\<rparr>)))
      else if num = 2 \<or> num = 3 \<or> num = 4 \<or> num = 7
      then take_bytes wr (field_msg ''source field'' num) b (\<lambda>v b'.
        Some (Inr (b', if num = 2 then s\<lparr>is_name := v\<rparr> else if num = 3 then s\<lparr>is_language := v\<rparr>
          else if num = 4 then s\<lparr>is_home_url := v\<rparr> else s\<lparr>is_message := v\<rparr>)))
      else if num = 5
      then take_bytes wr ''consume mirror_url'' b (\<lambda>v b'.
        Some (Inr (b', s\<lparr>is_mirror_urls := is_mirror_urls s @ [v]\<rparr>)))
      else skip_field wr typ b s)"

definition decode_source :: "wire \<Rightarrow> string \<Rightarrow> index_source decoded" where
  "decode_source wr b = decode wr (source_field wr) b no_source"

definition no_extension :: index_extension where
  "no_extension = \<lparr>ie_name = [], ie_package = [], ie_resources = no_resources, ie_extension_lib = [],
     ie_version_code = 0, ie_version_name = [], ie_content_warning = 0, ie_sources = []\<rparr>"

text \<open>\<open>int32(v)\<close> keeps the low 32 bits and reads them as a signed number.\<close>

definition int32_of :: "64 word \<Rightarrow> int" where
  "int32_of v = sint (ucast v :: 32 word)"

definition extension_field :: "wire \<Rightarrow> int \<Rightarrow> int \<Rightarrow> string \<Rightarrow> index_extension \<Rightarrow> (string \<times> index_extension) decoded" where
  "extension_field wr num typ b x =
     (if num = 1 \<or> num = 2 \<or> num = 4 \<or> num = 6
      then take_bytes wr (field_msg ''extension field'' num) b (\<lambda>v b'.
        Some (Inr (b', if num = 1 then x\<lparr>ie_name := v\<rparr> else if num = 2 then x\<lparr>ie_package := v\<rparr>
          else if num = 4 then x\<lparr>ie_extension_lib := v\<rparr> else x\<lparr>ie_version_name := v\<rparr>)))
      else if num = 3
      then take_bytes wr ''consume resources'' b (\<lambda>v b'. nested (decode_resources wr v) (\<lambda>r.
        Some (Inr (b', x\<lparr>ie_resources := r\<rparr>))))
      else if num = 5
      then take_varint wr ''consume version_code'' b (\<lambda>v b'. Some (Inr (b', x\<lparr>ie_version_code := sint v\<rparr>)))
      else if num = 7
      then take_varint wr ''consume content_warning'' b (\<lambda>v b'. Some (Inr (b', x\<lparr>ie_content_warning := int32_of v\<rparr>)))
      else if num = 8
      then take_bytes wr ''consume source entry'' b (\<lambda>v b'. nested (decode_source wr v) (\<lambda>s.
        Some (Inr (b', x\<lparr>ie_sources := ie_sources x @ [s]\<rparr>))))
      else skip_field wr typ b x)"

definition decode_extension :: "wire \<Rightarrow> string \<Rightarrow> index_extension decoded" where
  "decode_extension wr b = decode wr (extension_field wr) b no_extension"

definition list_field :: "wire \<Rightarrow> int \<Rightarrow> int \<Rightarrow> string \<Rightarrow> index_extension list \<Rightarrow> (string \<times> index_extension list) decoded" where
  "list_field wr num typ b xs =
     (if num = 1
      then take_bytes wr ''consume extension entry'' b (\<lambda>v b'. nested (decode_extension wr v) (\<lambda>x.
        Some (Inr (b', xs @ [x]))))
      else skip_field wr typ b xs)"

definition decode_extension_list :: "wire \<Rightarrow> string \<Rightarrow> index_extension list decoded" where
  "decode_extension_list wr b = decode wr (list_field wr) b []"

definition no_index :: repo_index where
  "no_index = \<lparr>ri_name = [], ri_badge_label = [], ri_signing_key = [], ri_contact = no_contact,
     ri_extension_list = None, ri_extension_list_url = []\<rparr>"

definition index_field :: "wire \<Rightarrow> int \<Rightarrow> int \<Rightarrow> string \<Rightarrow> repo_index \<Rightarrow> (string \<times> repo_index) decoded" where
  "index_field wr num typ b idx =
     (if num = 1 \<or> num = 2 \<or> num = 3 \<or> num = 102
      then take_bytes wr (field_msg ''string field'' num) b (\<lambda>v b'.
        Some (Inr (b', if num = 1 then idx\<lparr>ri_name := v\<rparr> else if num = 2 then idx\<lparr>ri_badge_label := v\<rparr>
          else if num = 3 then idx\<lparr>ri_signing_key := v\<rparr> else idx\<lparr>ri_extension_list_url := v\<rparr>)))
      else if num = 4
      then take_bytes wr ''consume contact'' b (\<lambda>v b'. nested (decode_contact wr v) (\<lambda>c.
        Some (Inr (b', idx\<lparr>ri_contact := c\<rparr>))))
      else if num = 101
      then take_bytes wr ''consume extension_list'' b (\<lambda>v b'. nested (decode_extension_list wr v) (\<lambda>el.
        Some (Inr (b', idx\<lparr>ri_extension_list := Some el\<rparr>))))
      else skip_field wr typ b idx)"

definition decode_repo_index :: "wire \<Rightarrow> string \<Rightarrow> repo_index decoded" where
  "decode_repo_index wr b = decode wr (index_field wr) b no_index"

section \<open>Fetching an index\<close>

text \<open>
  What the answers to \<open>FetchIndex\<close>'s calls are: the response of a GET (status and body), the
  unpacked text of a gzip stream, the keys of each object of a JSON array, and the array read as
  novel entries or as legacy entries.
\<close>

record index_io =
  io_get :: "string \<Rightarrow> go_err + int \<times> string"
  io_gunzip :: "string \<Rightarrow> go_err + string"
  io_probe :: "string \<Rightarrow> string list list option"
  io_novel :: "string \<Rightarrow> novel_entry list option"
  io_legacy :: "string \<Rightarrow> legacy_extension list option"
  io_lower :: "string \<Rightarrow> string"
  io_wire :: wire

definition max_index_bytes :: int where
  "max_index_bytes = 32 * 2 ^ 20"

definition fetch_error :: "string \<Rightarrow> go_err + 'a" where
  "fetch_error msg = Inl (ErrMsg msg)"

definition read_index :: "index_io \<Rightarrow> string \<Rightarrow> go_err + string" where
  "read_index io url = (case io_get io url of
      Inl e \<Rightarrow> fetch_error (''failed to fetch '' @ url @ '': '' @ err_text e)
    | Inr (status, body) \<Rightarrow>
        if status < 200 \<or> 300 \<le> status
        then fetch_error (''failed to fetch '' @ url @ '': HTTP '' @ int_digits status)
        else if body = [] then fetch_error (''empty response body from '' @ url)
        else if max_index_bytes < int (length body)
        then fetch_error (''response from '' @ url @ '' exceeds '' @ int_digits max_index_bytes @ '' bytes'')
        else if 2 \<le> length body \<and> body ! 0 = CHR 0x1f \<and> body ! 1 = CHR 0x8b
        then (case io_gunzip io body of
            Inl e \<Rightarrow> fetch_error (''failed to gunzip '' @ url @ '': '' @ err_text e)
          | Inr text \<Rightarrow>
              if max_index_bytes < int (length text)
              then fetch_error (''decompressed response from '' @ url @ '' exceeds '' @ int_digits max_index_bytes @ '' bytes'')
              else Inr text)
        else Inr body)"

definition apk_base_url :: "string \<Rightarrow> string" where
  "apk_base_url url = (let base = (case cut_last url (CHR ''/'') of Some (a, _) \<Rightarrow> a | None \<Rightarrow> url)
     in trim_suffix base ''/'' @ ''/apk/'')"

text \<open>The JSON formats: novel entries when the first object looks like one, else legacy entries.\<close>

definition json_entries :: "index_io \<Rightarrow> string \<Rightarrow> string \<Rightarrow> parsed_extension list option" where
  "json_entries io data apk_base =
     (if \<not> has_prefix (trim_space data) ''['' then None
      else case io_probe io data of
          Some (keys # _) \<Rightarrow>
            let legacy = map_option (legacy_to_parsed apk_base) (io_legacy io data) in
            if ''id'' \<in> set keys \<and> ''url'' \<in> set keys \<and> ''pkg'' \<notin> set keys
            then (case io_novel io data of Some novel \<Rightarrow> Some (novel_to_parsed novel) | None \<Rightarrow> legacy)
            else legacy
        | _ \<Rightarrow> None)"

definition protobuf_entries :: "index_io \<Rightarrow> string \<Rightarrow> string \<Rightarrow> go_err + parsed_extension list" where
  "protobuf_entries io url data = (case decode_repo_index (io_wire io) data of
      Some (Inr idx) \<Rightarrow>
        if ri_extension_list idx = None \<and> ri_extension_list_url idx \<noteq> []
        then fetch_error (''index at '' @ url @ '' references an external extensionListUrl ('' @
          ri_extension_list_url idx @ ''); paginated repo indices are not supported yet'')
        else Inr (to_parsed_extensions (io_lower io) idx)
    | Some (Inl e) \<Rightarrow> fetch_error (''could not parse '' @ url @ '' as JSON or protobuf index: '' @ err_text e)
    | None \<Rightarrow> fetch_error ''decoder out of fuel'')"

definition fetch_index :: "index_io \<Rightarrow> string \<Rightarrow> go_err + parsed_extension list" where
  "fetch_index io url = (case read_index io url of
      Inl e \<Rightarrow> Inl e
    | Inr data \<Rightarrow> (case json_entries io data (apk_base_url url) of
          Some entries \<Rightarrow> Inr (filter_valid entries)
        | None \<Rightarrow> (case protobuf_entries io url data of
              Inl e \<Rightarrow> Inl e
            | Inr entries \<Rightarrow> Inr (filter_valid entries))))"

end
