(* ===== verification/RepositoryDecode.thy ===== *)
theory RepositoryDecode
  imports Repositories
begin

text \<open>
  The protobuf decoder of a repository index ends on every input: the fields of a message are read in
  a loop, and a message inside a field by a loop of its own. \<open>message_decoder\<close> is the contract a
  field reader keeps; every message of the index is an interpretation of it.
\<close>

text \<open>\<open>ConsumeTag\<close> of a text that is not empty takes at least one byte, or reports an error.\<close>

definition tags_take_bytes :: "wire \<Rightarrow> bool" where
  "tags_take_bytes wr \<longleftrightarrow> (\<forall>b. b \<noteq> [] \<longrightarrow> snd (snd (wi_tag wr b)) \<noteq> 0)"

locale message_decoder =
  fixes wr :: wire
    and field :: "int \<Rightarrow> int \<Rightarrow> string \<Rightarrow> 'a \<Rightarrow> (string \<times> 'a) decoded"
  assumes answers: "tags_take_bytes wr \<Longrightarrow> field num typ b x \<noteq> None"
    and shrinks: "field num typ b x = Some (Inr (b', x')) \<Longrightarrow> length b' \<le> length b"
begin

lemma loop_answers:
  assumes "tags_take_bytes wr"
  shows "length b \<le> k \<Longrightarrow> decode_loop wr field k b x \<noteq> None"
proof (induction k arbitrary: b x)
  case (Suc k)
  show ?case
  proof (cases "b = []")
    case False
    obtain num ty n where tag: "wi_tag wr b = (num, ty, n)" by (metis surj_pair)
    with assms False have n: "n \<noteq> 0" by (auto simp: tags_take_bytes_def dest!: spec [of _ b])
    show ?thesis
    proof (cases "n < 0")
      case False
      have less: "length (drop (nat n) b) \<le> k"
        using Suc.prems n False \<open>b \<noteq> []\<close> by (cases "nat n") auto
      obtain r where r: "field num ty (drop (nat n) b) x = Some r" using answers [OF assms] by fastforce
      show ?thesis
      proof (cases r)
        case (Inr p)
        then show ?thesis
          using r tag False \<open>b \<noteq> []\<close> shrinks [of num ty "drop (nat n) b" x] less Suc.IH
          by (cases p) (auto intro: order.trans)
      qed (use r tag False \<open>b \<noteq> []\<close> in simp)
    qed (use tag \<open>b \<noteq> []\<close> in \<open>simp add: wire_error_def\<close>)
  qed simp
qed simp

lemma more_fuel: "decode_loop wr field k b x \<noteq> None \<Longrightarrow> k \<le> l \<Longrightarrow> decode_loop wr field l b x = decode_loop wr field k b x"
proof (induction k arbitrary: l b x)
  case 0
  then show ?case by (cases l) (auto split: if_splits)
next
  case (Suc k)
  obtain l' where l: "l = Suc l'" using Suc.prems by (cases l) auto
  show ?case
    using Suc.prems Suc.IH [of _ _ l'] unfolding l
    by (auto split: prod.splits option.splits sum.splits if_splits)
qed

lemma decode_answers: "tags_take_bytes wr \<Longrightarrow> decode wr field b x \<noteq> None"
  by (simp add: decode_def loop_answers)

lemma decode_enough: "tags_take_bytes wr \<Longrightarrow> length b \<le> k \<Longrightarrow> decode_loop wr field k b x = decode wr field b x"
  unfolding decode_def by (rule more_fuel) (auto simp: loop_answers)

end

text \<open>What the pieces of a field reader leave to read.\<close>

lemma take_bytes_result:
  "take_bytes wr msg b k = Some (Inr y) \<Longrightarrow> \<exists>v n. k v (drop n b) = Some (Inr y)"
  by (auto simp: take_bytes_def wire_error_def split: prod.splits if_splits)

lemma take_varint_result:
  "take_varint wr msg b k = Some (Inr y) \<Longrightarrow> \<exists>v n. k v (drop n b) = Some (Inr y)"
  by (auto simp: take_varint_def wire_error_def split: prod.splits if_splits)

lemma skip_field_result: "skip_field wr typ b x = Some (Inr (b', y)) \<Longrightarrow> length b' \<le> length b"
  by (auto simp: skip_field_def wire_error_def Let_def split: if_splits)

lemma nested_result: "nested m k = Some (Inr y) \<Longrightarrow> \<exists>v. k v = Some (Inr y)"
  by (auto simp: nested_def split: option.splits sum.splits)

lemma take_bytes_answers: "(\<And>v b'. k v b' \<noteq> None) \<Longrightarrow> take_bytes wr msg b k \<noteq> None"
  by (auto simp: take_bytes_def wire_error_def split: prod.splits)

lemma take_varint_answers: "(\<And>v b'. k v b' \<noteq> None) \<Longrightarrow> take_varint wr msg b k \<noteq> None"
  by (auto simp: take_varint_def wire_error_def split: prod.splits)

lemma skip_field_answers: "skip_field wr typ b x \<noteq> None"
  by (simp add: skip_field_def wire_error_def Let_def)

lemma nested_answers: "m \<noteq> None \<Longrightarrow> (\<And>v. k v \<noteq> None) \<Longrightarrow> nested m k \<noteq> None"
  by (auto simp: nested_def split: sum.splits)

lemmas field_results = take_bytes_result take_varint_result nested_result skip_field_result
lemmas field_answers = take_bytes_answers take_varint_answers nested_answers skip_field_answers

interpretation contact_msg: message_decoder wr "contact_field wr" for wr
proof
  show "contact_field wr num ty b x \<noteq> None" for num ty b x
    unfolding contact_field_def by (simp add: field_answers del: not_None_eq)
  show "contact_field wr num ty b x = Some (Inr (b', x')) \<Longrightarrow> length b' \<le> length b" for num ty b x b' x'
    unfolding contact_field_def by (auto dest!: field_results split: if_splits)
qed

interpretation resources_msg: message_decoder wr "resources_field wr" for wr
proof
  show "resources_field wr num ty b x \<noteq> None" for num ty b x
    unfolding resources_field_def by (simp add: field_answers del: not_None_eq)
  show "resources_field wr num ty b x = Some (Inr (b', x')) \<Longrightarrow> length b' \<le> length b" for num ty b x b' x'
    unfolding resources_field_def by (auto dest!: field_results split: if_splits)
qed

interpretation source_msg: message_decoder wr "source_field wr" for wr
proof
  show "source_field wr num ty b x \<noteq> None" for num ty b x
    unfolding source_field_def by (simp add: field_answers del: not_None_eq)
  show "source_field wr num ty b x = Some (Inr (b', x')) \<Longrightarrow> length b' \<le> length b" for num ty b x b' x'
    unfolding source_field_def by (auto dest!: field_results split: if_splits)
qed

interpretation extension_msg: message_decoder wr "extension_field wr" for wr
proof
  show "extension_field wr num ty b x \<noteq> None" if "tags_take_bytes wr" for num ty b x
    unfolding extension_field_def decode_resources_def decode_source_def
    using resources_msg.decode_answers [OF that] source_msg.decode_answers [OF that]
    by (simp add: field_answers del: not_None_eq)
  show "extension_field wr num ty b x = Some (Inr (b', x')) \<Longrightarrow> length b' \<le> length b" for num ty b x b' x'
    unfolding extension_field_def by (auto dest!: field_results split: if_splits)
qed

interpretation extension_list_msg: message_decoder wr "list_field wr" for wr
proof
  show "list_field wr num ty b x \<noteq> None" if "tags_take_bytes wr" for num ty b x
    unfolding list_field_def decode_extension_def
    using extension_msg.decode_answers [OF that]
    by (simp add: field_answers del: not_None_eq)
  show "list_field wr num ty b x = Some (Inr (b', x')) \<Longrightarrow> length b' \<le> length b" for num ty b x b' x'
    unfolding list_field_def by (auto dest!: field_results split: if_splits)
qed

interpretation repo_index_msg: message_decoder wr "index_field wr" for wr
proof
  show "index_field wr num ty b x \<noteq> None" if "tags_take_bytes wr" for num ty b x
    unfolding index_field_def decode_contact_def decode_extension_list_def
    using contact_msg.decode_answers [OF that] extension_list_msg.decode_answers [OF that]
    by (simp add: field_answers del: not_None_eq)
  show "index_field wr num ty b x = Some (Inr (b', x')) \<Longrightarrow> length b' \<le> length b" for num ty b x b' x'
    unfolding index_field_def by (auto dest!: field_results split: if_splits)
qed

text \<open>
  C36: Decoding a repository index ends: when a tag takes at least one byte, \<open>decodeRepoIndex\<close> and the
  decoders of the messages inside it return a value or an error on every input, and reading at most as
  many fields as there are bytes is enough: a larger bound gives the same answer.
\<close>

theorem decode_repo_index_ends:
  assumes "tags_take_bytes wr"
  shows "decode_repo_index wr b \<noteq> None \<and> decode_extension_list wr b \<noteq> None \<and> decode_extension wr b \<noteq> None \<and>
    (\<forall>k \<ge> length b. decode_loop wr (index_field wr) k b no_index = decode_repo_index wr b)"
  using assms unfolding decode_repo_index_def decode_extension_list_def decode_extension_def
  by (auto simp: repo_index_msg.decode_enough simp del: not_None_eq
        dest: repo_index_msg.decode_answers extension_list_msg.decode_answers extension_msg.decode_answers)

text \<open>
  A wire of one-byte tags, lengths and numbers below 128 with the documented layout: the field number
  is the upper five bits of the tag, the wire type its lower three.
\<close>

definition small_bytes :: "string \<Rightarrow> string \<times> int" where
  "small_bytes b = (case b of [] \<Rightarrow> ([], -1) | c # s \<Rightarrow>
     if length s < of_char c then ([], -1) else (take (of_char c) s, 1 + of_char c))"

definition small_wire :: wire where
  "small_wire = \<lparr>wi_tag = (\<lambda>b. case b of [] \<Rightarrow> (0, 0, -1) | c # _ \<Rightarrow> (of_char c div 8, of_char c mod 8, 1)),
     wi_bytes = small_bytes,
     wi_varint = (\<lambda>b. case b of [] \<Rightarrow> (0, -1) | c # _ \<Rightarrow> (of_char c, 1)),
     wi_skip = (\<lambda>typ b. if typ = 0 then (if b = [] then -1 else 1) else if typ = 2 then snd (small_bytes b) else -2),
     wi_error = (\<lambda>n. ErrMsg ''unexpected EOF'')\<rparr>"

lemma small_wire_tags: "tags_take_bytes small_wire"
  by (auto simp: tags_take_bytes_def small_wire_def split: list.splits)

definition small_index :: string where
  "small_index = map char_of [10, 1, 82, 48, 5 :: nat]"

theorem decode_repo_index_ends_witness:
  "decode_repo_index small_wire small_index = Some (Inr (no_index\<lparr>ri_name := ''R''\<rparr>)) \<and>
   decode_loop small_wire (index_field small_wire) 9 small_index no_index = Some (Inr (no_index\<lparr>ri_name := ''R''\<rparr>))"
proof -
  have "decode_repo_index small_wire small_index = Some (Inr (no_index\<lparr>ri_name := ''R''\<rparr>))" by code_simp
  moreover have "length small_index = 5" by (simp add: small_index_def)
  ultimately show ?thesis
    using decode_repo_index_ends [OF small_wire_tags, of small_index] by (auto dest: spec [of _ 9])
qed

end
