(* ===== verification/ExtensionSync.thy ===== *)
theory ExtensionSync
  imports LibrarySync Repositories
begin

text \<open>
  Repositories and extensions (\<open>internal/sync/sync.go\<close> and \<open>DownloadExtensionFile\<close> of
  \<open>internal/repository/client.go\<close>): fetching an index and storing its entries, installing, updating
  and removing extensions with their cached files, sideloading one by URL, and the paged queries of
  the extension browser. The mutex that \<open>lockFor\<close> gives each package makes these operations on one
  package run one after another.
\<close>

section \<open>Repositories\<close>

definition or_else :: "string \<Rightarrow> string \<Rightarrow> string" where
  "or_else s t = (if s = [] then t else s)"

definition entry_content_type :: "parsed_extension \<Rightarrow> string" where
  "entry_content_type x = or_else (pe_content_type x) (classify_content_type (pe_package x))"

definition entry_params :: "int \<Rightarrow> parsed_extension \<Rightarrow> extension_params" where
  "entry_params repo_id x = \<lparr>ep_repository = repo_id, ep_package = pe_package x, ep_name = pe_name x,
     ep_version = pe_version x, ep_content_type = entry_content_type x,
     ep_lang = to_lower (trim_space (pe_lang x)), ep_icon_url = null_string (pe_icon_url x),
     ep_apk_url = pe_apk_url x, ep_jar_url = null_string (pe_jar_url x), ep_is_nsfw = pe_is_nsfw x\<rparr>"

definition apply_repo_index :: "int \<Rightarrow> parsed_extension list \<Rightarrow> ('z world_scheme, unit) act" where
  "apply_repo_index repo_id parsed =
     seq (for_each (\<lambda>x. seq (wrap (''upsert extension '' @ pe_package x) (db_call (q_upsert_extension (entry_params repo_id x))))
            (\<lambda>_. ret ())) parsed) (\<lambda>_.
     wrap ''touch repository sync'' (db_call (q_touch_repository_sync repo_id)))"

definition repo_content_type :: "parsed_extension list \<Rightarrow> string" where
  "repo_content_type parsed = (case parsed of [] \<Rightarrow> ''manga'' | x # _ \<Rightarrow> entry_content_type x)"

text \<open>\<open>GetRepositoryByURL\<close>, and \<open>CreateRepository\<close> when it returns an error.\<close>

definition get_or_create_repository :: "string \<Rightarrow> ('z world_scheme, repository) act \<Rightarrow> ('z world_scheme, repository) act" where
  "get_or_create_repository url create =
     seq (attempt (db_call (q_get_repository_by_url url))) (\<lambda>r. case r of Inr repo \<Rightarrow> ret repo | Inl _ \<Rightarrow> create)"

definition add_repository ::
    "index_io \<Rightarrow> (string \<Rightarrow> (string \<times> string) option) \<Rightarrow> string \<Rightarrow> string \<Rightarrow> ('z world_scheme, repository) act" where
  "add_repository io parse_url index_url name =
     seq (ask (fetch_index io index_url)) (\<lambda>parsed.
     let name = (if name = [] then derive_repo_name parse_url index_url else name) in
     seq (get_or_create_repository index_url
            (wrap ''create repository'' (db_call (q_create_repository index_url (null_string name) (repo_content_type parsed))))) (\<lambda>repo.
     seq (apply_repo_index (re_id repo) parsed) (\<lambda>_. db_call (q_get_repository (re_id repo)))))"

definition is_local_repository :: "repository \<Rightarrow> bool" where
  "is_local_repository repo \<longleftrightarrow> has_prefix (re_index_url repo) ''local:''"

definition sync_repository :: "index_io \<Rightarrow> int \<Rightarrow> ('z world_scheme, repository) act" where
  "sync_repository io i =
     seq (wrap (''get repository '' @ int_digits i) (db_call (q_get_repository i))) (\<lambda>repo.
     if is_local_repository repo then ret repo
     else seq (ask (fetch_index io (re_index_url repo))) (\<lambda>parsed.
          seq (apply_repo_index (re_id repo) parsed) (\<lambda>_. db_call (q_get_repository (re_id repo)))))"

definition sync_all_repositories :: "index_io \<Rightarrow> ('z world_scheme, repository list) act" where
  "sync_all_repositories io =
     seq (db_call q_list_repositories) (\<lambda>repos.
     map_act (\<lambda>repo. if is_local_repository repo then ret repo
        else seq (attempt (sync_repository io (re_id repo))) (\<lambda>r. ret (case r of Inl _ \<Rightarrow> repo | Inr updated \<Rightarrow> updated))) repos)"

definition rename_repository :: "int \<Rightarrow> string \<Rightarrow> ('z world_scheme, repository) act" where
  "rename_repository i name = db_call (q_update_repository_name (null_string name) i)"

definition delete_repository :: "int \<Rightarrow> ('z world_scheme, unit) act" where
  "delete_repository i =
     seq (wrap (''list extensions for repository '' @ int_digits i) (db_call (q_list_extensions_by_repository i))) (\<lambda>exts.
     seq (for_each (\<lambda>x. wrap (''mark media for extension '' @ x_package x)
            (db_call (q_mark_media_extension_removed (Some (x_id x))))) exts) (\<lambda>_.
     db_call (q_delete_repository i)))"

section \<open>Files of extensions\<close>

definition extension_download_target :: "extension \<Rightarrow> go_err + string \<times> string" where
  "extension_download_target x =
     (if x_content_type x = ''novel''
      then (case x_jar_url x of
              Some url \<Rightarrow> if url \<noteq> [] then Inr (url, ''js'') else Inl (ErrMsg (''novel extension '' @ x_package x @ '' has no source url''))
            | None \<Rightarrow> Inl (ErrMsg (''novel extension '' @ x_package x @ '' has no source url'')))
      else if x_jar_url x \<noteq> None \<and> x_jar_url x \<noteq> Some [] then Inr (string_of (x_jar_url x), ''jar'')
      else if x_apk_url x \<noteq> [] then Inr (x_apk_url x, ''apk'')
      else Inl (ErrMsg (''extension '' @ x_package x @ '' has no jar_url or apk_url'')))"

definition lift_result :: "go_err + 'a \<Rightarrow> ('s, 'a) act" where
  "lift_result r = (case r of Inl e \<Rightarrow> fail e | Inr x \<Rightarrow> ret x)"

definition extension_file :: "string \<Rightarrow> string \<Rightarrow> string \<Rightarrow> string \<Rightarrow> string" where
  "extension_file cache_dir pkg version ext = path_join [cache_dir, pkg @ ''-'' @ version @ ''.'' @ ext]"

text \<open>Write the body to a temporary file and rename it; each failure removes the temporary file.\<close>

definition save_atomically :: "string \<Rightarrow> string \<Rightarrow> string \<Rightarrow> ('z fs_world_scheme, string) act" where
  "save_atomically dest ext body =
     (let tmp = dest @ ''.tmp'';
          cleaned = (\<lambda>msg m. seq (attempt m) (\<lambda>r. case r of
             Inr _ \<Rightarrow> ret ()
           | Inl e \<Rightarrow> seq (ignore (fs_call (os_remove tmp))) (\<lambda>_. fail (ErrWrap msg e)))) in
      seq (wrap ''create temp file'' (fs_call (os_write_file tmp (Bytes [])))) (\<lambda>_.
      seq (cleaned (''write '' @ ext @ '' to '' @ tmp) (fs_call (os_write_file tmp (Bytes body)))) (\<lambda>_.
      seq (cleaned (''close '' @ ext @ '' file'') (ext_call (Inr ()))) (\<lambda>_.
      seq (cleaned (''finalize '' @ ext @ '' at '' @ dest) (fs_call (os_rename tmp dest))) (\<lambda>_.
      ret dest)))))"

definition download_extension_file ::
    "index_io \<Rightarrow> string \<Rightarrow> string \<Rightarrow> string \<Rightarrow> string \<Rightarrow> string \<Rightarrow> ('z fs_world_scheme, string) act" where
  "download_extension_file io cache_dir pkg version url ext =
     (if url = [] then fail (ErrMsg (''no download url available for '' @ pkg))
      else seq (wrap (''create cache dir '' @ cache_dir) (fs_call (os_mkdir_all cache_dir))) (\<lambda>_.
        let dest = extension_file cache_dir pkg version ext in
        seq (attempt (fs_call (os_stat dest))) (\<lambda>st. case st of
            Inr _ \<Rightarrow> ret dest
          | Inl _ \<Rightarrow>
              seq (attempt (ask (io_get io url))) (\<lambda>r. case r of
                Inl e \<Rightarrow> fail (ErrMsg (''failed to fetch '' @ ext @ '' '' @ url @ '': '' @ err_text e))
              | Inr (status, body) \<Rightarrow>
                  if status < 200 \<or> 300 \<le> status
                  then fail (ErrMsg (''failed to fetch '' @ ext @ '' '' @ url @ '': HTTP '' @ int_digits status))
                  else save_atomically dest ext body))))"

text \<open>
  \<open>removeExtensionFiles\<close>: the recorded file, then every file of the cache directory that the patterns
  \<open>pkg-*.ext\<close> and \<open>pkg.ext\<close> of \<open>filepath.Glob\<close> match (the directory's own path holds no wildcard).
\<close>

definition glob_names :: "string \<Rightarrow> string \<Rightarrow> string list \<Rightarrow> string list" where
  "glob_names pkg e names =
     filter (\<lambda>n. has_prefix n (pkg @ ''-'') \<and> has_suffix (drop (length pkg + 1) n) (''.'' @ e)) names @
     filter (\<lambda>n. n = pkg @ ''.'' @ e) names"

definition remove_globbed :: "string \<Rightarrow> string \<Rightarrow> string \<Rightarrow> ('z fs_world_scheme, unit) act" where
  "remove_globbed cache_dir pkg e =
     seq (attempt (fs_call (os_read_dir cache_dir))) (\<lambda>r.
     let names = (case r of Inl _ \<Rightarrow> [] | Inr entries \<Rightarrow> map fst entries) in
     for_each (\<lambda>n. ignore (fs_call (os_remove (path_join [cache_dir, n])))) (glob_names pkg e names))"

definition remove_extension_files :: "extension \<Rightarrow> ('z sync_world_scheme, unit) act" where
  "remove_extension_files x =
     seq (if x_jar_path x \<noteq> None \<and> x_jar_path x \<noteq> Some []
          then ignore (fs_call (os_remove (string_of (x_jar_path x)))) else ret ()) (\<lambda>_.
     seq (gets sw_cache_dir) (\<lambda>dir.
     for_each (remove_globbed dir (x_package x)) [''jar'', ''apk'', ''js'']))"

section \<open>Installing\<close>

definition invalid_package :: "string \<Rightarrow> go_err" where
  "invalid_package pkg = ErrMsg (''invalid package name: '' @ quoted pkg)"

definition lookup_extension :: "string \<Rightarrow> ('z world_scheme, extension) act" where
  "lookup_extension pkg = wrap (''lookup extension '' @ pkg) (db_call (q_get_extension_by_package_name pkg))"

text \<open>Look up the package and fetch its file: the common part of installing and updating.\<close>

definition fetch_extension :: "index_io \<Rightarrow> string \<Rightarrow> ('z sync_world_scheme, extension \<times> string) act" where
  "fetch_extension io pkg =
     seq (lookup_extension pkg) (\<lambda>x.
     seq (lift_result (extension_download_target x)) (\<lambda>(url, ext).
     seq (gets sw_cache_dir) (\<lambda>dir.
     seq (download_extension_file io dir (x_package x) (x_version x) url ext) (\<lambda>path. ret (x, path)))))"

definition install_extension :: "index_io \<Rightarrow> string \<Rightarrow> ('z sync_world_scheme, extension) act" where
  "install_extension io pkg =
     (if \<not> is_valid_package_name pkg then fail (invalid_package pkg)
      else seq (fetch_extension io pkg) (\<lambda>(x, path).
           db_call (q_mark_extension_installed (null_string path) (x_id x))))"

definition update_extension :: "index_io \<Rightarrow> string \<Rightarrow> ('z sync_world_scheme, extension) act" where
  "update_extension io pkg =
     (if \<not> is_valid_package_name pkg then fail (invalid_package pkg)
      else seq (fetch_extension io pkg) (\<lambda>(x, path).
           seq (db_call (q_mark_extension_updated (null_string path) (x_id x))) (\<lambda>updated.
           seq (case x_jar_path x of
                  Some old \<Rightarrow> if old \<noteq> path then ignore (fs_call (os_remove old)) else ret ()
                | None \<Rightarrow> ret ()) (\<lambda>_. ret updated))))"

definition uninstall_extension :: "string \<Rightarrow> ('z sync_world_scheme, extension) act" where
  "uninstall_extension pkg =
     (if \<not> is_valid_package_name pkg then fail (invalid_package pkg)
      else seq (lookup_extension pkg) (\<lambda>x.
           seq (db_call (q_mark_extension_uninstalled (x_id x))) (\<lambda>updated.
           seq (remove_extension_files x) (\<lambda>_. ret updated))))"

text \<open>What the sandbox reports of a loaded extension: whether it supports \<open>latest\<close>, and its source id.\<close>

definition persist_extension_meta :: "extension \<Rightarrow> (bool \<times> int) option \<Rightarrow> ('z world_scheme, extension) act" where
  "persist_extension_meta x loaded = (case loaded of
      None \<Rightarrow> ret x
    | Some (supports_latest, source_id) \<Rightarrow>
        seq (if supports_latest \<noteq> x_supports_latest x
             then seq (attempt (db_call (q_update_extension_supports_latest supports_latest (x_id x)))) (\<lambda>r.
                  ret (case r of Inl _ \<Rightarrow> x | Inr updated \<Rightarrow> updated))
             else ret x) (\<lambda>x.
        if source_id \<noteq> 0 \<and> source_id \<noteq> x_source_id x
        then seq (attempt (db_call (q_update_extension_source_id source_id (x_id x)))) (\<lambda>r.
             ret (case r of Inl _ \<Rightarrow> x | Inr updated \<Rightarrow> updated))
        else ret x))"

section \<open>Sideloading\<close>

definition sideload_repo_url :: string where
  "sideload_repo_url = ''local:sideload''"

definition get_or_create_sideload_repo :: "('z world_scheme, repository) act" where
  "get_or_create_sideload_repo = get_or_create_repository sideload_repo_url
     (db_call (q_create_repository sideload_repo_url (Some ''Sideloaded'') ''manga''))"

definition download_file :: "index_io \<Rightarrow> string \<Rightarrow> string \<Rightarrow> ('z fs_world_scheme, unit) act" where
  "download_file io url dest =
     seq (ask (io_get io url)) (\<lambda>(status, body).
     if status < 200 \<or> 300 \<le> status then fail (ErrMsg (''HTTP '' @ int_digits status))
     else seq (fs_call (os_write_file dest (Bytes []))) (\<lambda>_. fs_call (os_write_file dest (Bytes body))))"

definition sideload_ext :: "string \<Rightarrow> string" where
  "sideload_ext url = (if has_suffix url ''.jar'' then ''jar'' else if has_suffix url ''.js'' then ''js'' else ''apk'')"

text \<open>From the downloaded file on; the file is removed when the call returns.\<close>

definition register_sideloaded :: "source \<Rightarrow> string \<Rightarrow> ('z world_scheme, extension) act" where
  "register_sideloaded src path =
     seq (wrap ''inspecting extension'' (ask (src_peek src path))) (\<lambda>meta.
     seq (wrap ''getting sideload repository'' get_or_create_sideload_repo) (\<lambda>repo.
     seq (wrap ''upsert extension'' (db_call (q_upsert_extension \<lparr>ep_repository = re_id repo, ep_package = em_package meta,
            ep_name = em_name meta, ep_version = ''unknown'', ep_content_type = to_lower (em_content_type meta),
            ep_lang = to_lower (trim_space (em_lang meta)), ep_icon_url = None, ep_apk_url = [], ep_jar_url = None,
            ep_is_nsfw = False\<rparr>))) (\<lambda>saved.
     db_call (q_mark_extension_installed None (x_id saved)))))"

definition install_external_extension :: "source \<Rightarrow> index_io \<Rightarrow> int \<Rightarrow> string \<Rightarrow> ('z sync_world_scheme, extension) act" where
  "install_external_extension src io nanos url =
     seq (gets sw_cache_dir) (\<lambda>dir.
     let temp_dir = path_join [dir, ''sideload-tmp''];
         temp_path = path_join [temp_dir, ''sideload-'' @ int_digits nanos @ ''.'' @ sideload_ext url] in
     seq (wrap ''creating temp dir'' (fs_call (os_mkdir_all temp_dir))) (\<lambda>_.
     seq (wrap (''downloading '' @ url) (download_file io url temp_path)) (\<lambda>_.
     seq (attempt (register_sideloaded src temp_path)) (\<lambda>r.
     seq (ignore (fs_call (os_remove temp_path))) (\<lambda>_. lift_result r)))))"

section \<open>Browsing\<close>

record extension_query =
  eq_repository :: "int option"
  eq_content_type :: string
  eq_lang :: string
  eq_search :: string
  eq_installed :: "bool option"
  eq_limit :: int
  eq_offset :: int

definition filter_of_query :: "extension_query \<Rightarrow> extension_filter" where
  "filter_of_query q = \<lparr>xf_repository = eq_repository q, xf_content_type = null_string (eq_content_type q),
     xf_lang = (if eq_lang q = [] then None else Some (to_lower (trim_space (eq_lang q)))),
     xf_installed = eq_installed q, xf_search = null_string (trim_space (eq_search q))\<rparr>"

definition query_limit :: "int \<Rightarrow> int" where
  "query_limit l = (if l \<le> 0 \<or> 200 < l then 60 else l)"

definition query_extensions :: "extension_query \<Rightarrow> ('z world_scheme, extension list \<times> int) act" where
  "query_extensions q =
     (let f = filter_of_query q in
      seq (db_call (q_count_extensions f)) (\<lambda>total.
      seq (db_call (q_query_extensions f (query_limit (eq_limit q)) (max 0 (eq_offset q)))) (\<lambda>items.
      ret (items, total))))"

definition extension_languages :: "extension_query \<Rightarrow> ('z world_scheme, string list) act" where
  "extension_languages q = db_call (q_list_extension_languages ((filter_of_query q)\<lparr>xf_lang := None\<rparr>))"

end
