(* ===== verification/RepositorySync.thy ===== *)
theory RepositorySync
  imports ExtensionSync DemoLibrary
begin

text \<open>
  What the extension operations leave in the tables: a synchronised repository, a deleted repository,
  and the pages of the extension browser.
\<close>

section \<open>Storing an index\<close>

definition index_row :: "string \<Rightarrow> db \<Rightarrow> extension option" where
  "index_row pkg d = find (\<lambda>x. x_package x = pkg) (extensions d)"

text \<open>The row of a package after some entries of one repository were stored, the last one counting.\<close>

definition stored :: "int \<Rightarrow> parsed_extension list \<Rightarrow> string \<Rightarrow> extension option \<Rightarrow> extension option \<Rightarrow> bool" where
  "stored repo parsed pkg old new \<longleftrightarrow> (case find (\<lambda>x. pe_package x = pkg) (rev parsed) of
      None \<Rightarrow> new = old
    | Some x \<Rightarrow> (case old of
          Some row \<Rightarrow> new = Some (extension_updated (entry_params repo x) row)
        | None \<Rightarrow> (\<exists>i. new = Some (extension_created (entry_params repo x) i))))"

lemma find_append: "find P (xs @ ys) = (case find P xs of None \<Rightarrow> find P ys | Some x \<Rightarrow> Some x)"
  by (induction xs) auto

lemma updated_package [simp]: "x_package (extension_updated p x) = x_package x"
  by (simp add: extension_updated_def)

lemma updated_again: "extension_updated p (extension_updated q x) = extension_updated p x"
  by (simp add: extension_updated_def)

lemma entry_params_key [simp]: "ep_repository (entry_params repo x) = repo" "ep_package (entry_params repo x) = pe_package x"
  by (simp_all add: entry_params_def)

lemma updated_created:
  "pe_package y = pe_package x \<Longrightarrow>
    extension_updated (entry_params repo x) (extension_created (entry_params repo y) i) = extension_created (entry_params repo x) i"
  by (simp add: extension_updated_def extension_created_def)

lemma upsert_extension_row:
  assumes "q_upsert_extension p now d = (Inr x, d')"
  shows "index_row pkg d' = (if pkg = ep_package p
           then Some (case index_row pkg d of None \<Rightarrow> extension_created p (next_id (map x_id (extensions d)))
                                            | Some row \<Rightarrow> extension_updated p row)
           else index_row pkg d) \<and> repositories d' = repositories d"
proof -
  let ?new = "extension_created p (next_id (map x_id (extensions d)))"
  have d': "d' = d\<lparr>extensions := snd (upsert (\<lambda>x. x_package x = ep_package p) (extension_updated p) ?new (extensions d))\<rparr>"
    using assms by (auto simp: q_upsert_extension_def with_fk_def Let_def split: if_splits prod.splits)
  have "find (\<lambda>x. x_package x = ep_package p) (extensions d') = Some (case find (\<lambda>x. x_package x = ep_package p) (extensions d) of
      None \<Rightarrow> ?new | Some r \<Rightarrow> extension_updated p r)"
    unfolding d' by (simp, rule upsert_find) (simp_all add: extension_created_def)
  moreover have "find (\<lambda>x. x_package x = pkg) (extensions d') = find (\<lambda>x. x_package x = pkg) (extensions d)" if "pkg \<noteq> ep_package p"
    unfolding d' using that by (simp, intro upsert_find_other) (auto simp: extension_created_def)
  ultimately show ?thesis by (simp add: index_row_def d')
qed

lemma stored_step:
  assumes "stored repo ps pkg old mid"
    "new = (if pkg = pe_package x then Some (case mid of None \<Rightarrow> extension_created (entry_params repo x) i
       | Some row \<Rightarrow> extension_updated (entry_params repo x) row) else mid)"
  shows "stored repo (ps @ [x]) pkg old new"
  using assms
  by (auto simp: stored_def updated_again dest!: find_SomeD intro: updated_created split: option.splits if_splits)

lemma store_entries:
  assumes "for_each (\<lambda>x. seq (wrap (''upsert extension '' @ pe_package x) (db_call (q_upsert_extension (entry_params repo x))))
            (\<lambda>_. ret ())) ps w = (Inr u, w')"
  shows "(\<forall>pkg. stored repo ps pkg (index_row pkg (w_db w)) (index_row pkg (w_db w'))) \<and>
    repositories (w_db w') = repositories (w_db w) \<and> w_now w' = w_now w"
  using assms
proof (induction ps arbitrary: w' u rule: rev_induct)
  case Nil
  then show ?case by (auto simp: ret_def stored_def)
next
  case (snoc x ps)
  let ?f = "\<lambda>x. seq (wrap (''upsert extension '' @ pe_package x) (db_call (q_upsert_extension (entry_params repo x)))) (\<lambda>_. ret ())"
  have split: "for_each f (xs @ ys) v = seq (for_each f xs) (\<lambda>_. for_each f ys) v" for f :: "parsed_extension \<Rightarrow> ('z world_scheme, unit) act" and xs ys v
    by (induction xs arbitrary: v) (auto simp: seq_def split: prod.splits sum.splits)
  obtain u1 w1 where 1: "for_each ?f ps w = (Inr u1, w1)" "for_each ?f [x] w1 = (Inr u, w')"
    using snoc.prems unfolding split by (rule seq_InrE)
  obtain row where row: "db_call (q_upsert_extension (entry_params repo x)) w1 = (Inr row, w')"
    using 1(2) by (auto simp: seq_eq_Inr ret_def)
  obtain d where d: "q_upsert_extension (entry_params repo x) (w_now w1) (w_db w1) = (Inr row, d)" "w_db w' = d" "w_now w' = w_now w1"
    using db_call_result [OF row] by auto
  show ?case
    using snoc.IH [OF 1(1)] upsert_extension_row [OF d(1)] d(2,3)
    by (auto intro: stored_step)
qed

lemma apply_repo_index_stores:
  assumes "apply_repo_index repo ps w = (Inr u, w')"
  shows "(\<forall>pkg. stored repo ps pkg (index_row pkg (w_db w)) (index_row pkg (w_db w'))) \<and>
    repositories (w_db w') = update_where (\<lambda>r. re_id r = repo) (\<lambda>r. r\<lparr>re_last_synced_at := Some (w_now w)\<rparr>) (repositories (w_db w))"
proof -
  obtain u1 w1 where 1: "for_each (\<lambda>x. seq (wrap (''upsert extension '' @ pe_package x) (db_call (q_upsert_extension (entry_params repo x))))
            (\<lambda>_. ret ())) ps w = (Inr u1, w1)" "db_call (q_touch_repository_sync repo) w1 = (Inr u, w')"
    using assms unfolding apply_repo_index_def by (rule seq_InrE) simp
  show ?thesis
    using store_entries [OF 1(1)] db_exec_ok [OF 1(2) [unfolded q_touch_repository_sync_def]]
    by (simp add: index_row_def)
qed

lemma find_touched:
  fixes rs :: "repository list"
  shows "find (\<lambda>r. re_id r = i) (update_where (\<lambda>r. re_id r = i) (\<lambda>r. r\<lparr>re_last_synced_at := t\<rparr>) rs) =
    map_option (\<lambda>r. r\<lparr>re_last_synced_at := t\<rparr>) (find (\<lambda>r. re_id r = i) rs)"
  by (induction rs) (auto simp: update_where_def)

text \<open>
  What the statement says of one package, column by column: the entry that counts is its last one in the
  index; a row has the catalogue columns of an entry; and a row keeps everything else of an older row.
\<close>

definition last_entry :: "parsed_extension list \<Rightarrow> string \<Rightarrow> parsed_extension \<Rightarrow> bool" where
  "last_entry ps pkg x \<longleftrightarrow> pe_package x = pkg \<and>
     (\<exists>us vs. ps = us @ x # vs \<and> (\<forall>y \<in> set vs. pe_package y \<noteq> pkg))"

definition catalogue_from :: "parsed_extension \<Rightarrow> extension \<Rightarrow> bool" where
  "catalogue_from x row \<longleftrightarrow> x_package row = pe_package x \<and> x_name row = pe_name x \<and> x_version row = pe_version x \<and>
     x_content_type row = entry_content_type x \<and> x_lang row = to_lower (trim_space (pe_lang x)) \<and> x_is_nsfw row = pe_is_nsfw x \<and>
     x_apk_url row = pe_apk_url x \<and> x_icon_url row = null_string (pe_icon_url x) \<and> x_jar_url row = null_string (pe_jar_url x)"

definition keeps_installation :: "extension \<Rightarrow> extension \<Rightarrow> bool" where
  "keeps_installation old row \<longleftrightarrow> x_id row = x_id old \<and> x_repository row = x_repository old \<and>
     x_installed row = x_installed old \<and> x_enabled row = x_enabled old \<and> x_jar_path row = x_jar_path old \<and>
     x_installed_version row = x_installed_version old \<and> x_installed_at row = x_installed_at old \<and>
     x_icon_local_path row = x_icon_local_path old \<and> x_supports_latest row = x_supports_latest old \<and>
     x_source_id row = x_source_id old"

definition package_stored :: "int \<Rightarrow> parsed_extension list \<Rightarrow> string \<Rightarrow> extension option \<Rightarrow> extension option \<Rightarrow> bool" where
  "package_stored repo ps pkg before_row after_row \<longleftrightarrow>
     (pkg \<notin> pe_package ` set ps \<longrightarrow> after_row = before_row) \<and>
     (\<forall>x. last_entry ps pkg x \<longrightarrow> (\<exists>row. after_row = Some row \<and> catalogue_from x row \<and>
        (\<forall>old. before_row = Some old \<longrightarrow> keeps_installation old row) \<and>
        (before_row = None \<longrightarrow> x_repository row = repo \<and> \<not> x_installed row \<and> x_jar_path row = None \<and>
           x_installed_version row = None \<and> x_installed_at row = None)))"

lemma find_last_entry:
  assumes "last_entry ps pkg x"
  shows "find (\<lambda>x. pe_package x = pkg) (rev ps) = Some x"
proof -
  obtain us vs where ps: "ps = us @ x # vs" "\<forall>y \<in> set vs. pe_package y \<noteq> pkg" "pe_package x = pkg"
    using assms by (auto simp: last_entry_def)
  then have "find (\<lambda>x. pe_package x = pkg) (rev vs) = None" by (simp add: find_None_iff)
  then show ?thesis using ps by (simp add: find_append)
qed

lemma last_entry_single: "last_entry [x] (pe_package x) x"
  by (auto simp: last_entry_def intro: exI [of _ "[]"])

lemma stored_package:
  assumes "stored repo ps pkg before_row after_row" "\<And>old. before_row = Some old \<Longrightarrow> x_package old = pkg"
  shows "package_stored repo ps pkg before_row after_row"
  unfolding package_stored_def
proof (intro conjI allI impI)
  assume "pkg \<notin> pe_package ` set ps"
  then have "find (\<lambda>x. pe_package x = pkg) (rev ps) = None" by (auto simp: find_None_iff)
  then show "after_row = before_row" using assms(1) by (simp add: stored_def)
next
  fix x assume x: "last_entry ps pkg x"
  note columns = catalogue_from_def keeps_installation_def extension_updated_def extension_created_def entry_params_def
  show "\<exists>row. after_row = Some row \<and> catalogue_from x row \<and>
        (\<forall>old. before_row = Some old \<longrightarrow> keeps_installation old row) \<and>
        (before_row = None \<longrightarrow> x_repository row = repo \<and> \<not> x_installed row \<and> x_jar_path row = None \<and>
           x_installed_version row = None \<and> x_installed_at row = None)"
  proof (cases before_row)
    case None
    then obtain k where "after_row = Some (extension_created (entry_params repo x) k)"
      using assms(1) find_last_entry [OF x] by (auto simp: stored_def)
    then show ?thesis using None by (simp add: columns)
  next
    case (Some old)
    then have "after_row = Some (extension_updated (entry_params repo x) old)"
      using assms(1) find_last_entry [OF x] by (simp add: stored_def)
    moreover have "x_package old = pe_package x" using assms(2) [OF Some] x by (simp add: last_entry_def)
    ultimately show ?thesis using Some by (simp add: columns)
  qed
qed

lemma index_row_package: "index_row pkg d = Some row \<Longrightarrow> x_package row = pkg"
  unfolding index_row_def by (auto dest!: find_SomeD)

text \<open>
  C33: Synchronising a repository that is not the local one stores its index. When it succeeds, the row
  of every package in the index has the name, version, language, content type, addresses and marking of
  the package's last entry; a row that was there keeps its id, its repository, its file, its icon, its
  installed version and time and whether it is installed and enabled, and a new row belongs to this
  repository and is not installed; packages that are not in the index keep their row as it was; and the
  repository is marked as synchronised now. When the index cannot be fetched, no table changes.
\<close>

theorem sync_repository_stores_index:
  assumes "\<not> is_local_repository repo" "find (\<lambda>r. re_id r = i) (repositories (w_db w)) = Some repo"
  shows "(\<forall>r w'. sync_repository io i w = (Inr r, w') \<longrightarrow>
      (\<exists>ps. fetch_index io (re_index_url repo) = Inr ps \<and>
        (\<forall>pkg. package_stored i ps pkg (index_row pkg (w_db w)) (index_row pkg (w_db w'))) \<and>
        r = repo\<lparr>re_last_synced_at := Some (w_now w)\<rparr>)) \<and>
    (\<forall>e. fetch_index io (re_index_url repo) = Inl e \<longrightarrow> w_db (snd (sync_repository io i w)) = w_db w)"
proof (intro conjI allI impI)
  have i: "re_id repo = i" using find_SomeD [OF assms(2)] by simp
  fix r w' assume s: "sync_repository io i w = (Inr r, w')"
  then obtain repo' w1 where 1: "db_call (q_get_repository i) w = (Inr repo', w1)"
    "(if is_local_repository repo' then ret repo'
      else seq (ask (fetch_index io (re_index_url repo'))) (\<lambda>parsed.
           seq (apply_repo_index (re_id repo') parsed) (\<lambda>_. db_call (q_get_repository (re_id repo'))))) w1 = (Inr r, w')"
    unfolding sync_repository_def by (rule seq_InrE) simp
  have repo': "repo' = repo" and st: "w_db w1 = w_db w" "w_now w1 = w_now w"
    using db_select_one_ok [OF 1(1) [unfolded q_get_repository_def]] db_select_one_state [OF 1(1) [unfolded q_get_repository_def]]
      assms(2) by simp_all
  obtain ps w2 where 2: "ask (fetch_index io (re_index_url repo)) w1 = (Inr ps, w2)"
    "seq (apply_repo_index i ps) (\<lambda>_. db_call (q_get_repository i)) w2 = (Inr r, w')"
    using 1(2) assms(1) unfolding repo' i by (auto elim: seq_InrE)
  obtain u w3 where 3: "apply_repo_index i ps w2 = (Inr u, w3)" "db_call (q_get_repository i) w3 = (Inr r, w')"
    using 2(2) by (rule seq_InrE)
  have ps: "fetch_index io (re_index_url repo) = Inr ps" and st2: "w_db w2 = w_db w" "w_now w2 = w_now w"
    using ask_state [OF 2(1)] st by auto
  have "w_db w' = w_db w3 \<and> find (\<lambda>r. re_id r = i) (repositories (w_db w3)) = Some r"
    using db_select_one_ok [OF 3(2) [unfolded q_get_repository_def]] db_select_one_state [OF 3(2) [unfolded q_get_repository_def]] by simp_all
  then show "\<exists>ps. fetch_index io (re_index_url repo) = Inr ps \<and>
        (\<forall>pkg. package_stored i ps pkg (index_row pkg (w_db w)) (index_row pkg (w_db w'))) \<and>
        r = repo\<lparr>re_last_synced_at := Some (w_now w)\<rparr>"
    using apply_repo_index_stores [OF 3(1)] ps st2 assms(2)
    by (auto simp: find_touched intro!: stored_package dest: index_row_package)
next
  fix e assume f: "fetch_index io (re_index_url repo) = Inl e"
  obtain r1 w1 where 1: "db_call (q_get_repository i) w = (r1, w1)" by fastforce
  obtain r2 w2 where 2: "ask (Inl e) w1 = (r2 :: go_err + parsed_extension list, w2)" by fastforce
  have "w_db w1 = w_db w" using db_select_one_state [OF 1 [unfolded q_get_repository_def]] by simp
  moreover have "w_db w2 = w_db w1" "\<exists>e. r2 = Inl e" using ask_state [OF 2] by (cases r2; simp)+
  moreover have "repo' = repo" if "r1 = Inr repo'" for repo'
    using db_select_one_ok [OF 1 [unfolded q_get_repository_def that]] assms(2) by simp
  ultimately show "w_db (snd (sync_repository io i w)) = w_db w"
    using 1 2 f assms(1) by (cases r1) (auto simp: sync_repository_def seq_def wrap_def)
qed

definition demo_entry :: parsed_extension where
  "demo_entry = \<lparr>pe_name = ''One'', pe_package = ''pkg.one'', pe_apk_url = ''u'', pe_jar_url = ''v'', pe_icon_url = [],
     pe_version = ''3'', pe_lang = ''en'', pe_content_type = ''manga'', pe_is_nsfw = False\<rparr>"

definition demo_novel :: novel_entry where
  "demo_novel = \<lparr>ne_id = ''pkg.one'', ne_name = ''One'', ne_site = [], ne_lang = ''en'', ne_version = ''3'', ne_url = ''v'', ne_icon_url = []\<rparr>"

definition demo_repo_io :: index_io where
  "demo_repo_io = \<lparr>io_get = (\<lambda>url. Inr (200, ''[]'')), io_gunzip = (\<lambda>b. Inr b), io_probe = (\<lambda>b. Some [[''id'', ''url'']]),
     io_novel = (\<lambda>b. Some [demo_novel]), io_legacy = (\<lambda>b. None), io_lower = (\<lambda>s. s),
     io_wire = \<lparr>wi_tag = (\<lambda>b. (0, 0, -1)), wi_bytes = (\<lambda>b. ([], -1)), wi_varint = (\<lambda>b. (0, -1)), wi_skip = (\<lambda>n b. -1),
        wi_error = (\<lambda>n. ErrMsg ''eof'')\<rparr>\<rparr>"

theorem sync_repository_stores_index_witness:
  "\<exists>r w'. sync_repository demo_repo_io 1 demo_world = (Inr r, w') \<and> re_last_synced_at r = Some 9 \<and>
     index_row ''pkg.two'' (w_db w') = index_row ''pkg.two'' demo_library \<and>
     map_option x_version (index_row ''pkg.one'' (w_db w')) = Some ''3'' \<and>
     map_option x_installed (index_row ''pkg.one'' (w_db w')) = map_option x_installed (index_row ''pkg.one'' demo_library)"
proof -
  let ?repo = "\<lparr>re_id = 1, re_index_url = ''https://r/index.json'', re_name = None,
        re_content_type = ''manga'', re_added_at = 1, re_last_synced_at = None\<rparr>"
  have 1: "\<not> is_local_repository ?repo" "find (\<lambda>r. re_id r = 1) (repositories (w_db demo_world)) = Some ?repo"
    by code_simp+
  have "succeeds (fst (sync_repository demo_repo_io 1 demo_world))" by code_simp
  then obtain r w' where 2: "sync_repository demo_repo_io 1 demo_world = (Inr r, w')" by (rule succeedsE)
  have f: "fetch_index demo_repo_io (re_index_url ?repo) = Inr (novel_to_parsed [demo_novel])" by code_simp
  have 3: "(\<forall>pkg. package_stored 1 (novel_to_parsed [demo_novel]) pkg (index_row pkg (w_db demo_world)) (index_row pkg (w_db w'))) \<and>
        r = ?repo\<lparr>re_last_synced_at := Some (w_now demo_world)\<rparr>"
    using sync_repository_stores_index [OF 1, of demo_repo_io] 2 f by auto
  have one: "index_row ''pkg.one'' demo_library = Some (demo_extension 1 ''pkg.one'')" by code_simp
  obtain y where y: "novel_to_parsed [demo_novel] = [y]" "pe_package y = ''pkg.one''" "pe_version y = ''3''"
    by (simp add: novel_to_parsed_def demo_novel_def)
  have p: "package_stored 1 [y] pkg (index_row pkg demo_library) (index_row pkg (w_db w'))" for pkg
    using 3 by (simp add: y(1) demo_world_def)
  have "index_row ''pkg.two'' (w_db w') = index_row ''pkg.two'' demo_library"
    using p [of "''pkg.two''"] y(2) by (simp add: package_stored_def)
  moreover obtain row where "index_row ''pkg.one'' (w_db w') = Some row" "catalogue_from y row"
    "keeps_installation (demo_extension 1 ''pkg.one'') row"
    using p [of "''pkg.one''"] last_entry_single [of y] one y(2) unfolding package_stored_def by auto
  ultimately show ?thesis
    using 2 3 one y(3) by (simp add: catalogue_from_def keeps_installation_def demo_world_def)
qed

section \<open>Deleting a repository\<close>

lemma mark_media:
  assumes "for_each (\<lambda>x. wrap (msg x) (db_call (q_mark_media_extension_removed (Some (x_id x))))) exts w = (Inr u, w')"
  shows "w_db w' = (w_db w)\<lparr>media := update_where
      (\<lambda>m. (\<exists>x \<in> set exts. m_extension_id m = Some (x_id x)) \<and> m_extension_removed_at m = None)
      (\<lambda>m. m\<lparr>m_extension_removed_at := Some (w_now w)\<rparr>) (media (w_db w))\<rparr> \<and> w_now w' = w_now w"
  using assms
proof (induction exts arbitrary: w)
  case Nil
  then show ?case by (simp add: ret_def update_where_def)
next
  case (Cons x exts)
  obtain w1 where 1: "db_call (q_mark_media_extension_removed (Some (x_id x))) w = (Inr (), w1)"
    "for_each (\<lambda>x. wrap (msg x) (db_call (q_mark_media_extension_removed (Some (x_id x))))) exts w1 = (Inr u, w')"
    using Cons.prems by (auto simp: seq_eq_Inr)
  have "update_where P g (update_where Q g ms) = update_where (\<lambda>m. Q m \<or> P m) g ms"
    if "\<And>m. g (g m) = g m" "\<And>m. Q m \<Longrightarrow> \<not> P (g m)" for P Q g and ms :: "medium list"
    using that by (auto simp: update_where_def)
  moreover have "w_now w1 = w_now w \<and> w_db w1 = (w_db w)\<lparr>media := update_where
       (\<lambda>m. m_extension_id m = Some (x_id x) \<and> m_extension_removed_at m = None)
       (\<lambda>m. m\<lparr>m_extension_removed_at := Some (w_now w)\<rparr>) (media (w_db w))\<rparr>"
    using db_exec_ok [OF 1(1) [unfolded q_mark_media_extension_removed_def]] by simp
  ultimately show ?case
    using Cons.IH [OF 1(2)] by (auto simp: update_where_def)
qed

text \<open>What a deleted repository leaves of a library entry.\<close>

definition detached :: "int list \<Rightarrow> int \<Rightarrow> medium \<Rightarrow> medium" where
  "detached gone now m = (if (\<exists>g \<in> set gone. m_extension_id m = Some g)
     then m\<lparr>m_extension_id := None, m_extension_removed_at := coalesce (m_extension_removed_at m) (Some now)\<rparr> else m)"

text \<open>
  Deleting a repository removes it with all its extensions and keeps the library: when it succeeds,
  neither the repository nor any extension of it is left, every entry is still there, and exactly the
  entries of those extensions lose their extension and are marked as removed, the first mark staying;
  every other table is as it was.
\<close>

theorem delete_repository_keeps_library:
  assumes "delete_repository i w = (Inr (), w')"
  shows "w_db w' = (w_db w)\<lparr>repositories := filter (\<lambda>r. re_id r \<noteq> i) (repositories (w_db w)),
     extensions := filter (\<lambda>x. x_repository x \<noteq> i) (extensions (w_db w)),
     media := map (detached (map x_id (filter (\<lambda>x. x_repository x = i) (extensions (w_db w)))) (w_now w)) (media (w_db w))\<rparr>"
proof -
  let ?msg = "\<lambda>x. ''mark media for extension '' @ x_package x"
  obtain exts w1 w2 where 1: "db_call (q_list_extensions_by_repository i) w = (Inr exts, w1)"
    and 2: "for_each (\<lambda>x. wrap (?msg x) (db_call (q_mark_media_extension_removed (Some (x_id x))))) exts w1 = (Inr (), w2)"
    and 3: "db_call (q_delete_repository i) w2 = (Inr (), w')"
    using assms unfolding delete_repository_def by (auto simp: seq_eq_Inr)
  have w1: "w_db w1 = w_db w" "w_now w1 = w_now w"
    and exts: "set exts = {x \<in> set (extensions (w_db w)). x_repository x = i}"
    using db_select_all_state [OF 1 [unfolded q_list_extensions_by_repository_def]]
      db_select_all_ok [OF 1 [unfolded q_list_extensions_by_repository_def]] by auto
  define gone where "gone = map x_id (filter (\<lambda>x. x_repository x = i) (extensions (w_db w)))"
  have g: "(\<exists>x \<in> set exts. m_extension_id m = Some (x_id x)) \<longleftrightarrow> (\<exists>g \<in> set gone. m_extension_id m = Some g)" for m :: medium
    by (auto simp: gone_def exts)
  have "update_where (\<lambda>m. \<exists>g \<in> set gone. m_extension_id m = Some g) (\<lambda>m. m\<lparr>m_extension_id := None\<rparr>)
     (update_where (\<lambda>m. (\<exists>g \<in> set gone. m_extension_id m = Some g) \<and> m_extension_removed_at m = None)
       (\<lambda>m. m\<lparr>m_extension_removed_at := Some t\<rparr>) ms) = map (detached gone t) ms" for t and ms :: "medium list"
    by (induction ms) (simp_all add: update_where_def detached_def coalesce_def split: option.split)
  then show ?thesis
    using db_exec_ok [OF 3 [unfolded q_delete_repository_def]] mark_media [OF 2] w1
    by (simp add: delete_where_def g gone_def [symmetric] Let_def)
qed

theorem delete_repository_keeps_library_witness:
  "\<exists>w'. delete_repository 1 demo_world = (Inr (), w') \<and> repositories (w_db w') = [] \<and> extensions (w_db w') = [] \<and>
     map (\<lambda>m. (m_id m, m_extension_id m, m_extension_removed_at m)) (media (w_db w')) = [(1, None, Some 9), (2, None, Some 9)]"
proof -
  have "succeeds (fst (delete_repository 1 demo_world))" by code_simp
  then obtain u :: unit and w' where 1: "delete_repository 1 demo_world = (Inr (), w')" by (auto elim: succeedsE)
  show ?thesis
    using 1 delete_repository_keeps_library [OF 1]
    by (simp add: demo_world_def demo_library_def empty_db_def demo_extension_def demo_medium_def detached_def)
qed

section \<open>Browsing\<close>

lemma pages_cover:
  "0 < k \<Longrightarrow> length rows \<le> n * k \<Longrightarrow> concat (map (\<lambda>j. take k (drop (j * k) rows)) [0..<n]) = rows"
proof -
  assume k: "0 < k" and n: "length rows \<le> n * k"
  have "concat (map (\<lambda>j. take k (drop (j * k) rows)) [0..<n]) = take (n * k) rows" for n
  proof (induction n)
    case (Suc n)
    have "take (Suc n * k) rows = take (n * k) rows @ take k (drop (n * k) rows)"
      by (simp add: add.commute [of k] take_add)
    with Suc show ?case by simp
  qed simp
  with n show ?thesis by simp
qed

text \<open>
  A page of the extension browser is bounded and the pages are complete: a query answers with at
  most 200 extensions whatever limit and offset it is given, they are a contiguous part of the matching
  extensions, installed ones first and then by name, the total counts all that match, it changes no
  table, and the pages at offsets \<open>0, limit, 2 * limit, ...\<close> together are all of them, each once.
\<close>

theorem extension_pages:
  fixes w :: "'z world_scheme" and q :: extension_query
  defines "rows \<equiv> sort_key (\<lambda>x. (if x_installed x then 0 else 1 :: int, x_name x))
      (filter (extension_matches (filter_of_query q)) (extensions (w_db w)))"
  shows "(\<forall>items total w'. query_extensions q w = (Inr (items, total), w') \<longrightarrow>
      items = take (nat (query_limit (eq_limit q))) (drop (nat (eq_offset q)) rows) \<and> length items \<le> 200 \<and>
      total = int (length rows) \<and> w_db w' = w_db w) \<and>
    1 \<le> query_limit (eq_limit q) \<and> query_limit (eq_limit q) \<le> 200 \<and>
    (\<forall>n. length rows \<le> n * nat (query_limit (eq_limit q)) \<longrightarrow>
      concat (map (\<lambda>j. page_of (query_limit (eq_limit q)) (int (j * nat (query_limit (eq_limit q)))) rows) [0..<n]) = rows)"
proof (intro conjI allI impI)
  show lim: "1 \<le> query_limit (eq_limit q)" "query_limit (eq_limit q) \<le> 200"
    by (simp_all add: query_limit_def)
  show "concat (map (\<lambda>j. page_of (query_limit (eq_limit q)) (int (j * nat (query_limit (eq_limit q)))) rows) [0..<n]) = rows"
    if "length rows \<le> n * nat (query_limit (eq_limit q))" for n
    using pages_cover [of "nat (query_limit (eq_limit q))" rows n] that lim
    by (simp add: page_of_def del: of_nat_mult)
  fix items total w' assume "query_extensions q w = (Inr (items, total), w')"
  then obtain w1 where 1: "db_call (q_count_extensions (filter_of_query q)) w = (Inr total, w1)"
    "db_call (q_query_extensions (filter_of_query q) (query_limit (eq_limit q)) (max 0 (eq_offset q))) w1 = (Inr items, w')"
    by (auto simp: query_extensions_def Let_def seq_eq_Inr ret_def)
  note c = 1(1) [unfolded q_count_extensions_def] and l = 1(2) [unfolded q_query_extensions_def]
  show "items = take (nat (query_limit (eq_limit q))) (drop (nat (eq_offset q)) rows)"
    using db_select_all_ok [OF l] db_select_all_state [OF c] by (simp add: page_of_def rows_def max_def)
  then show "length items \<le> 200" using lim by simp
  show "total = int (length rows)" using db_select_all_ok [OF c] by (simp add: rows_def)
  show "w_db w' = w_db w" using db_select_all_state [OF c] db_select_all_state [OF l] by simp
qed

definition demo_query :: extension_query where
  "demo_query = \<lparr>eq_repository = None, eq_content_type = [], eq_lang = ''EN'', eq_search = [], eq_installed = None, eq_limit = 1, eq_offset = 1\<rparr>"

theorem extension_pages_witness:
  "\<exists>items total w'. query_extensions (demo_query\<lparr>eq_search := ''pk_'', eq_limit := 1000\<rparr>) demo_world = (Inr (items, total), w') \<and>
     length items \<le> 200 \<and> w_db w' = demo_library"
proof -
  let ?q = "demo_query\<lparr>eq_search := ''pk_'', eq_limit := 1000\<rparr>"
  have "succeeds (fst (query_extensions ?q demo_world))"
    by (simp add: query_extensions_def Let_def seq_def db_call_def demo_world_def q_count_extensions_def q_query_extensions_def
        select_all_def ret_def succeeds_def)
  then obtain p w' where "query_extensions ?q demo_world = (Inr p, w')" by (rule succeedsE)
  then obtain items total where "query_extensions ?q demo_world = (Inr (items, total), w')" by (cases p) auto
  then show ?thesis using extension_pages [of ?q demo_world] by (auto simp: demo_world_def)
qed

end
