(* ===== verification/ExtensionFiles.thy ===== *)
theory ExtensionFiles
  imports ExtensionSync LibraryFolders FileTrees
begin

text \<open>
  Where the files of extensions lie: downloading one writes two files of the cache directory when
  the version is a plain name, and a file outside of it when the version holds slashes; removing the
  files of one package removes those of packages whose name continues its own.
\<close>

section \<open>Names of the files\<close>

lemma valid_package_chars:
  assumes "is_valid_package_name pkg"
  shows "pkg \<noteq> []" "list_all package_char pkg" "CHR ''/'' \<notin> set pkg"
proof -
  show 1: "pkg \<noteq> []" and 2: "list_all package_char pkg"
    using assms by (auto simp: is_valid_package_name_def package_char_def split: list.splits)
  have "\<not> package_char (CHR ''/'')" by code_simp
  then show "CHR ''/'' \<notin> set pkg" using 2 by (auto simp: list_all_iff)
qed

definition plain :: "string \<Rightarrow> bool" where
  "plain s \<longleftrightarrow> CHR ''/'' \<notin> set s"

definition file_name :: "string \<Rightarrow> string \<Rightarrow> string \<Rightarrow> string" where
  "file_name pkg version ext = pkg @ ''-'' @ version @ ''.'' @ ext"

lemma file_name_ok:
  assumes "is_valid_package_name pkg" "plain version" "plain ext" "ext \<noteq> []"
  shows "name_ok (file_name pkg version ext @ s) \<longleftrightarrow> plain s"
  using valid_package_chars [OF assms(1)] assms(2-4)
  by (cases pkg; cases ext) (auto simp: name_ok_def file_name_def plain_def Cons_eq_append_conv append_eq_Cons_conv)

lemma extension_file_eq: "extension_file dir pkg version ext = path_join [dir, file_name pkg version ext]"
  by (simp add: extension_file_def file_name_def)

text \<open>The two files a download of an extension may write: the file, and its temporary name.\<close>

definition extension_slot :: "string \<Rightarrow> string \<Rightarrow> string \<Rightarrow> string \<Rightarrow> location \<Rightarrow> bool" where
  "extension_slot dir pkg version ext l \<longleftrightarrow>
     l = location (extension_file dir pkg version ext) \<or> l = location (extension_file dir pkg version ext @ ''.tmp'')"

lemma extension_slot_in_dir:
  assumes "dir \<noteq> []" "is_valid_package_name pkg" "plain version" "plain ext" "ext \<noteq> []"
    "extension_slot dir pkg version ext l"
  shows "parent l = location dir"
  using assms(6) location_join_names [of dir "[file_name pkg version ext]"]
    location_suffix [of "path_join [dir, file_name pkg version ext]" "rooted dir" "snd (location dir)" "file_name pkg version ext" "''.tmp''"]
    path_join_names_clean [OF assms(1), of "[file_name pkg version ext]"] file_name_ok [OF assms(2-5), of "[]"] file_name_ok [OF assms(2-5), of "''.tmp''"] assms(1)
  by (auto simp: extension_slot_def extension_file_eq parent_def plain_def prod_eq_iff location_fst)

section \<open>Downloading\<close>

text \<open>Once the temporary file is created, every step keeps the other files and leaves no directory in its place.\<close>

definition saving :: "(location \<Rightarrow> bool) \<Rightarrow> string \<Rightarrow> fs \<Rightarrow> fs \<Rightarrow> bool" where
  "saving R tmp fs0 fs \<longleftrightarrow> files_kept_outside R fs0 fs \<and> \<not> is_dir fs (location tmp)"

lemma saving_rename:
  assumes "R (location tmp)" "R (location dest)" "saving R tmp fs0 fs"
  shows "saving R tmp fs0 (snd (os_rename tmp dest fs))"
  using assms
  by (auto simp: saving_def files_kept_outside_def os_rename_def Let_def is_dir_def split: option.splits node.splits)

lemma saving_write: "R (location tmp) \<Longrightarrow> saving R tmp fs0 fs \<Longrightarrow> saving R tmp fs0 (snd (os_write_file tmp data fs))"
  by (auto simp: saving_def files_kept_outside_def os_write_file_def Let_def is_dir_def)

lemma saving_remove: "R (location tmp) \<Longrightarrow> saving R tmp fs0 fs \<Longrightarrow> saving R tmp fs0 (snd (os_remove tmp fs))"
  by (auto simp: saving_def files_kept_outside_def os_remove_def Let_def is_dir_def split: option.splits node.splits)

lemma save_atomically_files:
  fixes w :: "'z fs_world_scheme"
  assumes R: "R (location (dest @ ''.tmp''))" "R (location dest)"
  shows "files_kept_outside R (w_fs w) (w_fs (snd (save_atomically dest ext body w)))"
proof -
  let ?tmp = "dest @ ''.tmp''"
  define rest :: "('z fs_world_scheme, string) act" where
    "rest = (let cleaned = (\<lambda>msg m. seq (attempt m) (\<lambda>r. case r of
             Inr _ \<Rightarrow> ret ()
           | Inl e \<Rightarrow> seq (ignore (fs_call (os_remove ?tmp))) (\<lambda>_. fail (ErrWrap msg e)))) in
      seq (cleaned (''write '' @ ext @ '' to '' @ ?tmp) (fs_call (os_write_file ?tmp (Bytes body)))) (\<lambda>_.
      seq (cleaned (''close '' @ ext @ '' file'') (ext_call (Inr ()))) (\<lambda>_.
      seq (cleaned (''finalize '' @ ext @ '' at '' @ dest) (fs_call (os_rename ?tmp dest))) (\<lambda>_. ret dest))))"
  have eq: "save_atomically dest ext body = seq (wrap ''create temp file'' (fs_call (os_write_file ?tmp (Bytes [])))) (\<lambda>_. rest)"
    by (simp add: save_atomically_def rest_def Let_def)
  have keep: "keeps (\<lambda>w. saving R ?tmp fs0 (w_fs w)) rest" for fs0
    unfolding rest_def Let_def
    by (intro keeps_intros keeps_fs_call saving_write saving_remove saving_rename R)
  obtain x w1 where c: "fs_call (os_write_file ?tmp (Bytes [])) w = (x, w1)" by fastforce
  then show ?thesis
  proof (cases rule: fs_call_cases)
    case (1 e fl)
    then show ?thesis using c by (simp add: eq seq_def wrap_def)
  next
    case (2 fl fs)
    have kept: "files_kept_outside R (w_fs w) (w_fs w1)"
      using write_file_files [of R ?tmp "w_fs w" "Bytes []"] R 2 by simp
    show ?thesis
    proof (cases x)
      case (Inl e)
      then show ?thesis using c kept by (simp add: eq seq_def wrap_def)
    next
      case (Inr u)
      then have "\<not> is_dir (w_fs w1) (location ?tmp)"
        using 2 by (auto simp: os_write_file_def Let_def is_dir_def split: if_splits)
      then have "saving R ?tmp (w_fs w) (w_fs w1)" using kept by (simp add: saving_def)
      then have "saving R ?tmp (w_fs w) (w_fs (snd (rest w1)))" using keep by (simp add: keeps_def)
      then show ?thesis using c Inr by (simp add: eq seq_def wrap_def saving_def)
    qed
  qed
qed

text \<open>
  C35: Downloading the file of an extension touches at most two places of the cache directory: when the
  package name is valid and the version and the extension are plain names, every other regular file
  keeps its content whatever calls fail, and both places lie directly in the cache directory.
\<close>

theorem download_extension_stays_in_cache_dir:
  fixes w :: "'z fs_world_scheme"
  assumes "dir \<noteq> []" "is_valid_package_name pkg" "plain version" "plain ext" "ext \<noteq> []"
  shows "files_kept_outside (extension_slot dir pkg version ext) (w_fs w)
           (w_fs (snd (download_extension_file io dir pkg version url ext w))) \<and>
         (\<forall>l. extension_slot dir pkg version ext l \<longrightarrow> parent l = location dir)"
proof
  let ?R = "extension_slot dir pkg version ext"
  have save: "keeps (\<lambda>w :: 'z fs_world_scheme. files_kept_outside ?R fs0 (w_fs w)) (save_atomically (extension_file dir pkg version ext) ext body)" for fs0 body
    using save_atomically_files [of ?R "extension_file dir pkg version ext" _ ext body]
    by (intro keepsI) (auto simp: extension_slot_def intro: files_kept_trans)
  have "keeps (\<lambda>w :: 'z fs_world_scheme. files_kept_outside ?R fs0 (w_fs w)) (download_extension_file io dir pkg version url ext)" for fs0
    unfolding download_extension_file_def Let_def
    by (intro keeps_intros keeps_files_fs_call mkdir_all_files save) simp_all
  then show "files_kept_outside ?R (w_fs w) (w_fs (snd (download_extension_file io dir pkg version url ext w)))"
    by (simp add: keeps_def)
  show "\<forall>l. ?R l \<longrightarrow> parent l = location dir"
    using extension_slot_in_dir [OF assms] by blast
qed

section \<open>A version with slashes\<close>

definition climbing :: "string \<Rightarrow> string \<Rightarrow> string" where
  "climbing version n = version @ ''/../../'' @ n"

lemma location_climbing:
  assumes "dir \<noteq> []" "location dir = (rt, cs @ [c])" "c \<noteq> ''..''" "is_valid_package_name pkg" "plain version" "name_ok (n @ ''.'' @ ext)"
  shows "location (extension_file dir pkg (climbing version n) ext) = (rt, cs @ [n @ ''.'' @ ext])"
proof -
  have v: "name_ok (pkg @ ''-'' @ version)"
    using valid_package_chars [OF assms(4)] assms(5) by (auto simp: name_ok_def plain_def Cons_eq_append_conv append_eq_Cons_conv)
  let ?ns = "[pkg @ ''-'' @ version, ''..'', ''..'', n @ ''.'' @ ext]"
  have "split_on (CHR ''/'') (join ''/'' ?ns) = ?ns"
    using v assms(6) by (intro split_on_join) (auto simp: name_ok_def)
  then have "clean_stack (rooted dir) (dir @ CHR ''/'' # join ''/'' ?ns) = fold (clean_step (rooted dir)) ?ns (clean_stack (rooted dir) dir)"
    by (simp add: clean_stack_append)
  also have "clean_stack (rooted dir) dir = c # rev cs"
    using arg_cong [OF assms(2), of "\<lambda>l. rev (snd l)"] by (simp add: location_def)
  also have "fold (clean_step (rooted dir)) ?ns (c # rev cs) = (n @ ''.'' @ ext) # rev cs"
    using v assms(3) assms(6) clean_step_name [OF v] clean_step_name [OF assms(6)]
    by (simp add: clean_step_def name_ok_def)
  finally have "location (dir @ CHR ''/'' # join ''/'' ?ns) = (rooted dir, cs @ [n @ ''.'' @ ext])"
    using assms(1) by (simp add: location_def rooted_append)
  moreover have "location (extension_file dir pkg (climbing version n) ext) = location (dir @ CHR ''/'' # join ''/'' ?ns)"
    using assms(1) by (simp add: extension_file_def path_join_def join_Cons climbing_def)
  ultimately show ?thesis using assms(1,2) location_fst [of dir] by simp
qed

text \<open>
  The version of an extension is not checked: when a repository index gives the version
  \<open>v/../../n\<close>, installing the extension writes the downloaded bytes to \<open>n.ext\<close> next to the cache
  directory, not inside it.
\<close>

theorem version_with_slashes_leaves_cache_dir:
  fixes w :: "'z fs_world_scheme"
  assumes "fault_free w" "dir \<noteq> []" "location dir = (rt, cs @ [c])" "c \<noteq> ''..''"
    "is_valid_package_name pkg" "plain version" "name_ok (n @ ''.'' @ ext)" "url \<noteq> []" "io_get io url = Inr (200, body)"
    "\<forall>l. inside l (location dir) \<longrightarrow> is_dir (w_fs w) l"
    "fs_get (w_fs w) (rt, cs @ [n @ ''.'' @ ext]) = None" "\<not> is_dir (w_fs w) (rt, cs @ [n @ ''.'' @ ext @ ''.tmp''])"
  shows "\<exists>path w'. download_extension_file io dir pkg (climbing version n) url ext w = (Inr path, w') \<and>
    location path = (rt, cs @ [n @ ''.'' @ ext]) \<and> \<not> inside (location dir) (location path) \<and>
    fs_get (w_fs w') (location path) = Some (FileNode (Bytes body))"
proof -
  let ?dest = "extension_file dir pkg (climbing version n) ext"
  have dest: "location ?dest = (rt, cs @ [n @ ''.'' @ ext])"
    using assms(2-7) by (rule location_climbing)
  have tmp: "location (?dest @ ''.tmp'') = (rt, cs @ [(n @ ''.'' @ ext) @ ''.tmp''])"
    using dest path_join_names_clean [OF assms(2)] assms(7)
    by (intro location_suffix) (auto simp: extension_file_def name_ok_def)
  have par: "is_dir (w_fs w) (rt, cs)"
    using assms(3,10) by (auto simp: inside_def)
  have mk: "os_mkdir_all dir (w_fs w) = (Inr (), w_fs w)" using assms(10) by (intro mkdir_all_present) blast
  have "c \<noteq> n @ ''.'' @ ext"
    using assms(3,10,11) by (auto simp: inside_def is_dir_def)
  then have out: "\<not> inside (location dir) (location ?dest)" by (simp add: dest assms(3) inside_def)
  show ?thesis
    using assms(1,8,9,11,12) par out mk
    by (simp add: download_extension_file_def Let_def seq_def attempt_def wrap_def ret_def fs_call_free os_stat_def dest
        save_atomically_def ignore_def os_write_file_def os_rename_def tmp parent_def butlast_append is_dir_def)
qed

section \<open>Removing the files of a package\<close>

lemma total_for_each: "(\<And>x. total (f x)) \<Longrightarrow> total (for_each f xs)"
  by (induction xs) (auto intro: total_intros)

text \<open>A loop of calls that keep \<open>J\<close> and \<open>N\<close>, one of which turns \<open>J\<close> into \<open>N\<close>.\<close>

lemma for_each_establishes:
  assumes "y \<in> set xs" "J s" "\<And>x. total (f x)" "\<And>x. keeps J (f x)" "\<And>x. keeps N (f x)" "\<And>s. J s \<Longrightarrow> N (snd (f y s))"
  shows "N (snd (for_each f xs s))"
  using assms(1,2)
proof (induction xs arbitrary: s)
  case (Cons x xs)
  obtain u s1 where 1: "f x s = (Inr u, s1)" using assms(3) by (rule totalE)
  show ?case
  proof (cases "x = y")
    case True
    then have "N s1" using assms(6) [OF Cons.prems(2)] 1 by simp
    moreover have "keeps N (for_each f xs)" using assms(5) by (rule keeps_for_each)
    ultimately show ?thesis using 1 by (simp add: seq_def keeps_def)
  next
    case False
    moreover have "J s1" using assms(4) Cons.prems(2) 1 by (metis keepsD)
    ultimately show ?thesis using Cons 1 by (simp add: seq_def)
  qed
qed simp

text \<open>A file of the cache directory that is there or gone, in a directory that stays.\<close>

definition slot :: "string \<Rightarrow> string \<Rightarrow> fs \<Rightarrow> bool" where
  "slot dir n fs \<longleftrightarrow> (let l = (rooted dir, snd (location dir) @ [n]) in
     fs_get fs l = None \<or> is_file fs l \<and> is_dir fs (location dir))"

lemma slot_remove: "slot dir n fs \<Longrightarrow> slot dir n (snd (os_remove p fs))"
proof -
  assume s: "slot dir n fs"
  let ?l = "(rooted dir, snd (location dir) @ [n])"
  have "has_children fs (location dir)" if "is_file fs ?l"
    using is_file_listed [OF that]
    by (auto simp: has_children_def list_ex_iff strictly_inside_def strict_prefix_def location_fst intro!: bexI [rotated])
  then show ?thesis
    using s by (auto simp: slot_def Let_def is_file_def is_dir_def os_remove_def split: option.splits node.splits)
qed

definition gone :: "string \<Rightarrow> string \<Rightarrow> fs \<Rightarrow> bool" where
  "gone dir n fs \<longleftrightarrow> fs_get fs (rooted dir, snd (location dir) @ [n]) = None"

lemma gone_remove: "gone dir n fs \<Longrightarrow> gone dir n (snd (os_remove p fs))"
  by (auto simp: gone_def os_remove_def Let_def split: option.splits node.splits)

text \<open>The calls of the removal, without faults.\<close>

abbreviation calm :: "(fs \<Rightarrow> bool) \<Rightarrow> 'z fs_world_scheme \<Rightarrow> bool" where
  "calm I \<equiv> \<lambda>w. fault_free w \<and> I (w_fs w)"

lemma keeps_calm:
  assumes "\<And>fs. I fs \<Longrightarrow> I (snd (f fs))"
  shows "keeps (calm I :: 'z fs_world_scheme \<Rightarrow> bool) (fs_call f)"
  using assms by (force simp: keeps_def fs_call_free split: prod.split)

lemma read_dir_lists:
  assumes "is_dir fs (location dir)" "is_file fs (rooted dir, snd (location dir) @ [n])"
  obtains es where "os_read_dir dir fs = (Inr es, fs)" "n \<in> fst ` set es"
proof -
  have "set (foldr insert_name xs []) = set xs" for xs :: "(string \<times> node) list"
    by (rule set_names_sorted)
  moreover have "n \<in> fst ` set (children fs (location dir))"
  proof -
    obtain x where "((rooted dir, snd (location dir) @ [n]), x) \<in> set fs"
      using is_file_listed [OF assms(2)] by auto
    then have "(n, x) \<in> set (children fs (location dir))"
      by (force simp: children_def map_filter_def location_fst)
    then show ?thesis by (force simp: image_iff)
  qed
  ultimately show thesis
    using that assms(1) by (simp add: os_read_dir_def Let_def)
qed

lemma remove_globbed_clears:
  fixes w :: "'z fs_world_scheme"
  assumes "calm (slot dir n) w" "dir \<noteq> []" "name_ok n" "has_prefix n (pkg @ ''-'')" "has_suffix (drop (length pkg + 1) n) (''.'' @ e)"
  shows "calm (gone dir n) (snd (remove_globbed dir pkg e w))"
proof (cases "fs_get (w_fs w) (rooted dir, snd (location dir) @ [n]) = None")
  case True
  have "keeps (calm (gone dir n) :: 'z fs_world_scheme \<Rightarrow> bool) (remove_globbed dir pkg e)"
    unfolding remove_globbed_def Let_def
    by (intro keeps_intros keeps_calm gone_remove) simp_all
  then show ?thesis using assms(1) True by (simp add: keeps_def gone_def)
next
  case False
  then have f: "is_dir (w_fs w) (location dir)" "is_file (w_fs w) (rooted dir, snd (location dir) @ [n])"
    using assms(1) by (auto simp: slot_def Let_def)
  then obtain es where es: "os_read_dir dir (w_fs w) = (Inr es, w_fs w)" "n \<in> fst ` set es" by (rule read_dir_lists)
  let ?rm = "\<lambda>n. ignore (fs_call (os_remove (path_join [dir, n]))) :: ('z fs_world_scheme, unit) act"
  have "calm (gone dir n) (snd (for_each ?rm (glob_names pkg e (map fst es)) w))"
  proof (rule for_each_establishes [where y = n and J = "calm (slot dir n)"])
    show "n \<in> set (glob_names pkg e (map fst es))" using es assms(4,5) by (auto simp: glob_names_def)
    show "calm (gone dir n) (snd (?rm n v))" if "calm (slot dir n) v" for v
      using that location_join_names [of dir "[n]"] assms(2,3)
      by (auto simp: ignore_def fs_call_free os_remove_def Let_def gone_def slot_def is_file_def split: prod.split option.splits node.splits)
  qed (use assms(1) in \<open>auto intro!: keeps_intros keeps_calm slot_remove gone_remove total_intros\<close>)
  then show ?thesis
    using assms(1) es by (simp add: remove_globbed_def seq_def attempt_def fs_call_free)
qed

text \<open>
  Removing the files of one package removes those of other packages: the pattern \<open>pkg-*.jar\<close> also
  matches the file of a package whose name continues with a dash, so uninstalling \<open>pkg\<close> deletes the
  downloaded file of \<open>pkg-rest\<close>, whatever its version.
\<close>

theorem removal_deletes_longer_packages:
  fixes w :: "'z sync_world_scheme"
  assumes "fault_free w" "sw_cache_dir w \<noteq> []" "is_valid_package_name (x_package x @ ''-'' @ rest)" "plain version"
    "ext \<in> {''jar'', ''apk'', ''js''}"
    "is_file (w_fs w) (location (extension_file (sw_cache_dir w) (x_package x @ ''-'' @ rest) version ext))"
    "is_dir (w_fs w) (location (sw_cache_dir w))"
  shows "fs_get (w_fs (snd (remove_extension_files x w)))
           (location (extension_file (sw_cache_dir w) (x_package x @ ''-'' @ rest) version ext)) = None"
proof -
  let ?dir = "sw_cache_dir w" and ?n = "file_name (x_package x @ ''-'' @ rest) version ext"
  let ?J = "calm (slot ?dir ?n) :: 'z sync_world_scheme \<Rightarrow> bool" and ?N = "calm (gone ?dir ?n) :: 'z sync_world_scheme \<Rightarrow> bool"
  have ext: "plain ext" "ext \<noteq> []" using assms(5) by (auto simp: plain_def)
  have n: "name_ok ?n" using file_name_ok [OF assms(3,4) ext, of "[]"] by (simp add: plain_def)
  have loc: "location (extension_file ?dir (x_package x @ ''-'' @ rest) version ext) = (rooted ?dir, snd (location ?dir) @ [?n])"
    unfolding extension_file_eq using location_join_names [of ?dir "[?n]"] n assms(2) by simp
  have J: "?J w" using assms(1,7) assms(6) [unfolded loc] by (simp add: slot_def Let_def)
  define first where "first = (if x_jar_path x \<noteq> None \<and> x_jar_path x \<noteq> Some []
      then ignore (fs_call (os_remove (string_of (x_jar_path x)))) else ret () :: ('z sync_world_scheme, unit) act)"
  obtain w1 where 1: "first w = (Inr (), w1)" "?J w1" "sw_cache_dir w1 = ?dir"
  proof -
    have "total first" unfolding first_def by (intro total_intros)
    then obtain u w1 where w1: "first w = (Inr u, w1)" by (rule totalE)
    have "keeps ?J first" unfolding first_def by (intro keeps_intros keeps_calm slot_remove)
    then have "?J w1" using J w1 by (rule keepsD)
    moreover have "sw_cache_dir w1 = ?dir"
      using w1 assms(1) by (auto simp: first_def ignore_def fs_call_free ret_def split: if_splits prod.splits)
    ultimately show thesis using that w1 by simp
  qed
  have tot: "total (remove_globbed ?dir (x_package x) e :: ('z sync_world_scheme, unit) act)" for e
    unfolding remove_globbed_def Let_def by (intro total_intros total_for_each)
  have pre: "has_prefix ?n (x_package x @ ''-'')" "has_suffix (drop (length (x_package x) + 1) ?n) (''.'' @ ext)"
    by (simp_all add: file_name_def has_prefix_iff has_suffix_def)
  have "?N (snd (for_each (remove_globbed ?dir (x_package x)) [''jar'', ''apk'', ''js''] w1))"
  proof (rule for_each_establishes [where y = ext and J = ?J])
    show "?N (snd (remove_globbed ?dir (x_package x) ext v))" if "?J v" for v
      using that assms(2) n pre by (rule remove_globbed_clears)
    show "keeps ?J (remove_globbed ?dir (x_package x) e)" for e
      unfolding remove_globbed_def Let_def by (intro keeps_intros keeps_calm slot_remove) simp_all
    show "keeps ?N (remove_globbed ?dir (x_package x) e)" for e
      unfolding remove_globbed_def Let_def by (intro keeps_intros keeps_calm gone_remove) simp_all
  qed (use assms(5) 1(2) tot in auto)
  moreover have "remove_extension_files x w = for_each (remove_globbed ?dir (x_package x)) [''jar'', ''apk'', ''js''] w1"
    unfolding remove_extension_files_def first_def [symmetric]
    using 1 by (simp add: seq_def gets_def del: for_each.simps)
  ultimately show ?thesis by (simp only: loc gone_def)
qed

section \<open>Examples\<close>

definition demo_cache :: fs where
  "demo_cache = [((True, [''d'']), DirNode), ((True, [''d'', ''cache'']), DirNode),
     ((True, [''d'', ''cache'', ''app-x-1.jar'']), FileNode (Bytes ''x''))]"

definition demo_fs_world :: fs_world where
  "demo_fs_world = \<lparr>w_db = empty_db, w_now = 0, w_faults = [], w_fs = demo_cache\<rparr>"

definition demo_index_io :: index_io where
  "demo_index_io = \<lparr>io_get = (\<lambda>url. Inr (200, ''class'')), io_gunzip = (\<lambda>b. Inr b), io_probe = (\<lambda>b. None),
     io_novel = (\<lambda>b. None), io_legacy = (\<lambda>b. None), io_lower = (\<lambda>s. s),
     io_wire = \<lparr>wi_tag = (\<lambda>b. (0, 0, -1)), wi_bytes = (\<lambda>b. ([], -1)), wi_varint = (\<lambda>b. (0, -1)), wi_skip = (\<lambda>n b. -1),
        wi_error = (\<lambda>n. ErrMsg ''eof'')\<rparr>\<rparr>"

theorem download_extension_stays_in_cache_dir_witness:
  "fs_get (w_fs (snd (download_extension_file demo_index_io ''/d/cache'' ''app'' ''2'' ''u'' ''jar'' demo_fs_world)))
     (location ''/d/cache/app-x-1.jar'') = Some (FileNode (Bytes ''x''))"
proof -
  have 1: "''/d/cache'' \<noteq> []" "is_valid_package_name ''app''" "plain ''2''" "plain ''jar''" "''jar'' \<noteq> []"
    by (simp_all add: plain_def) code_simp
  have 2: "\<not> extension_slot ''/d/cache'' ''app'' ''2'' ''jar'' (location ''/d/cache/app-x-1.jar'')" by code_simp
  have 3: "fs_get (w_fs demo_fs_world) (location ''/d/cache/app-x-1.jar'') = Some (FileNode (Bytes ''x''))" by code_simp
  have "files_kept_outside (extension_slot ''/d/cache'' ''app'' ''2'' ''jar'') (w_fs demo_fs_world)
      (w_fs (snd (download_extension_file demo_index_io ''/d/cache'' ''app'' ''2'' ''u'' ''jar'' demo_fs_world)))"
    using download_extension_stays_in_cache_dir [OF 1] by (rule conjunct1)
  then show ?thesis using 2 3 by (rule files_keptD)
qed

theorem version_with_slashes_leaves_cache_dir_witness:
  "\<exists>path w'. download_extension_file demo_index_io ''/d/cache'' ''app'' ''1/../../evil'' ''u'' ''jar'' demo_fs_world = (Inr path, w') \<and>
     location path = (True, [''d'', ''evil.jar'']) \<and> fs_get (w_fs w') (location path) = Some (FileNode (Bytes ''class''))"
proof -
  have 1: "fault_free demo_fs_world" "''/d/cache'' \<noteq> []" "location ''/d/cache'' = (True, [''d''] @ [''cache''])"
    "''cache'' \<noteq> ''..''" "is_valid_package_name ''app''" "plain ''1''" "name_ok (''evil'' @ ''.'' @ ''jar'')" "''u'' \<noteq> []"
    "io_get demo_index_io ''u'' = Inr (200, ''class'')"
    by code_simp+
  have "\<forall>cs. prefix cs [''d'', ''cache''] \<longrightarrow> is_dir demo_cache (True, cs)"
    by (auto simp: prefix_Cons is_dir_def fs_get_def demo_cache_def)
  then have 2: "\<forall>l. inside l (location ''/d/cache'') \<longrightarrow> is_dir (w_fs demo_fs_world) l"
    unfolding 1(3) by (auto simp: inside_def demo_fs_world_def)
  have 3: "fs_get (w_fs demo_fs_world) (True, [''d''] @ [''evil'' @ ''.'' @ ''jar'']) = None"
    "\<not> is_dir (w_fs demo_fs_world) (True, [''d''] @ [''evil'' @ ''.'' @ ''jar'' @ ''.tmp''])"
    by code_simp+
  have "climbing ''1'' ''evil'' = ''1/../../evil''" by code_simp
  then show ?thesis
    using version_with_slashes_leaves_cache_dir [OF 1 2 3] by auto
qed

definition demo_cache_world :: sync_world where
  "demo_cache_world = demo_sync_world\<lparr>w_fs := demo_cache, sw_cache_dir := ''/d/cache''\<rparr>"

theorem removal_deletes_longer_packages_witness:
  "fs_get (w_fs (snd (remove_extension_files (extension_created \<lparr>ep_repository = 1, ep_package = ''app'', ep_name = ''S'', ep_version = ''1'',
     ep_content_type = ''manga'', ep_lang = ''en'', ep_icon_url = None, ep_apk_url = [], ep_jar_url = None,
     ep_is_nsfw = False\<rparr> 3) demo_cache_world))) (location ''/d/cache/app-x-1.jar'') = None"
proof -
  let ?x = "extension_created \<lparr>ep_repository = 1, ep_package = ''app'', ep_name = ''S'', ep_version = ''1'',
     ep_content_type = ''manga'', ep_lang = ''en'', ep_icon_url = None, ep_apk_url = [], ep_jar_url = None,
     ep_is_nsfw = False\<rparr> 3"
  have 1: "fault_free demo_cache_world" "sw_cache_dir demo_cache_world \<noteq> []" "is_valid_package_name (x_package ?x @ ''-'' @ ''x'')"
    "plain ''1''" "''jar'' \<in> {''jar'', ''apk'', ''js''}"
    "is_file (w_fs demo_cache_world) (location (extension_file (sw_cache_dir demo_cache_world) (x_package ?x @ ''-'' @ ''x'') ''1'' ''jar''))"
    "is_dir (w_fs demo_cache_world) (location (sw_cache_dir demo_cache_world))"
    by code_simp+
  have "location (extension_file (sw_cache_dir demo_cache_world) (x_package ?x @ ''-'' @ ''x'') ''1'' ''jar'') = location ''/d/cache/app-x-1.jar''"
    by code_simp
  then show ?thesis using removal_deletes_longer_packages [OF 1] by simp
qed

end
