(* ===== verification/Trackers.thy ===== *)
theory Trackers
  imports Sandbox Q_Chapters ChapterNum
begin

text \<open>
  The tracker manager (\<open>internal/tracker/manager.go\<close>, \<open>progress.go\<close>): accounts of the reading trackers,
  links between library entries and the trackers' records, and the reconciliation of reading
  progress in both directions. A tracker (the interface \<open>Service\<close>) is a record of functions that
  answer each call from the history of all calls made so far, so it may keep any state of its own;
  the world records that history. Times are seconds, as everywhere.
\<close>

section \<open>Statements\<close>

definition q_list_tracker_accounts :: "tracker_account list stmt" where
  "q_list_tracker_accounts = select_all tracker_accounts"

definition q_get_tracker_account :: "string \<Rightarrow> tracker_account stmt" where
  "q_get_tracker_account key = select_one (\<lambda>d. find (\<lambda>a. ta_type a = key) (tracker_accounts d))"

record account_params =
  tp_type :: string
  tp_access_token :: string
  tp_refresh_token :: "string option"
  tp_expires_at :: "int option"
  tp_username :: string
  tp_score_format :: string

definition q_upsert_tracker_account :: "account_params \<Rightarrow> tracker_account stmt" where
  "q_upsert_tracker_account p now d =
     (case upsert (\<lambda>a. ta_type a = tp_type p)
         (\<lambda>a. a\<lparr>ta_access_token := tp_access_token p, ta_refresh_token := tp_refresh_token p,
                 ta_expires_at := tp_expires_at p, ta_username := tp_username p, ta_score_format := tp_score_format p\<rparr>)
         \<lparr>ta_id = next_id (map ta_id (tracker_accounts d)), ta_type = tp_type p, ta_access_token = tp_access_token p,
          ta_refresh_token = tp_refresh_token p, ta_expires_at = tp_expires_at p, ta_username = tp_username p,
          ta_score_format = tp_score_format p\<rparr> (tracker_accounts d) of
        (row, rows) \<Rightarrow> (Inr row, d\<lparr>tracker_accounts := rows\<rparr>))"

text \<open>Deleting an account deletes its links (\<open>ON DELETE CASCADE\<close>).\<close>

definition q_delete_tracker_account_by_type :: "string \<Rightarrow> unit stmt" where
  "q_delete_tracker_account_by_type key = exec (\<lambda>now d.
     let gone = map ta_id (filter (\<lambda>a. ta_type a = key) (tracker_accounts d))
     in d\<lparr>tracker_accounts := delete_where (\<lambda>a. ta_type a = key) (tracker_accounts d),
          tracker_links := delete_where (\<lambda>l. tl_account l \<in> set gone) (tracker_links d)\<rparr>)"

definition q_get_tracker_link :: "int \<Rightarrow> tracker_link stmt" where
  "q_get_tracker_link i = select_one (\<lambda>d. find (\<lambda>l. tl_id l = i) (tracker_links d))"

definition q_delete_tracker_link :: "int \<Rightarrow> unit stmt" where
  "q_delete_tracker_link i = exec (\<lambda>now d. d\<lparr>tracker_links := delete_where (\<lambda>l. tl_id l = i) (tracker_links d)\<rparr>)"

definition q_list_tracker_links_by_media :: "int \<Rightarrow> tracker_link list stmt" where
  "q_list_tracker_links_by_media i = select_all (\<lambda>d. filter (\<lambda>l. tl_media l = i) (tracker_links d))"

definition q_list_media_ids_with_tracker_links :: "int list stmt" where
  "q_list_media_ids_with_tracker_links =
     select_all (\<lambda>d. remdups (map tl_media (filter tl_sync_progress (tracker_links d))))"

record link_params =
  lp_media :: int
  lp_account :: int
  lp_external_id :: string
  lp_library_id :: "string option"
  lp_title :: string
  lp_remote_url :: string
  lp_status :: int
  lp_last_chapter_read :: f64
  lp_total_chapters :: int
  lp_score :: f64
  lp_started_at :: "int option"
  lp_finished_at :: "int option"
  lp_private :: int
  lp_sync_progress :: bool

definition link_updated :: "link_params \<Rightarrow> int \<Rightarrow> tracker_link \<Rightarrow> tracker_link" where
  "link_updated p now l = l\<lparr>tl_external_id := lp_external_id p, tl_library_id := lp_library_id p,
     tl_title := lp_title p, tl_remote_url := lp_remote_url p, tl_status := lp_status p,
     tl_last_chapter_read := lp_last_chapter_read p, tl_total_chapters := lp_total_chapters p, tl_score := lp_score p,
     tl_started_at := lp_started_at p, tl_finished_at := lp_finished_at p, tl_private := lp_private p,
     tl_last_synced_at := Some now\<rparr>"

definition link_created :: "link_params \<Rightarrow> int \<Rightarrow> tracker_link" where
  "link_created p i = \<lparr>tl_id = i, tl_media = lp_media p, tl_account = lp_account p, tl_external_id = lp_external_id p,
     tl_sync_progress = lp_sync_progress p, tl_last_synced_at = None, tl_library_id = lp_library_id p,
     tl_title = lp_title p, tl_remote_url = lp_remote_url p, tl_status = lp_status p,
     tl_last_chapter_read = lp_last_chapter_read p, tl_total_chapters = lp_total_chapters p, tl_score = lp_score p,
     tl_started_at = lp_started_at p, tl_finished_at = lp_finished_at p, tl_private = lp_private p\<rparr>"

definition q_upsert_tracker_link :: "link_params \<Rightarrow> tracker_link stmt" where
  "q_upsert_tracker_link p =
     with_fk (\<lambda>d. lp_media p \<in> set (map m_id (media d)) \<and> lp_account p \<in> set (map ta_id (tracker_accounts d))) (\<lambda>now d.
     (case upsert (\<lambda>l. tl_media l = lp_media p \<and> tl_account l = lp_account p) (link_updated p now)
         (link_created p (next_id (map tl_id (tracker_links d)))) (tracker_links d) of
        (row, rows) \<Rightarrow> (Inr row, d\<lparr>tracker_links := rows\<rparr>)))"

section \<open>Tracks\<close>

text \<open>The statuses are numbered from 1; 0 is the zero value of an unset one.\<close>

definition status_reading :: int where "status_reading = 1"
definition status_plan_to_read :: int where "status_plan_to_read = 2"

record auth =
  au_access_token :: string
  au_refresh_token :: string
  au_expires_at :: "int option"
  au_username :: string
  au_score_format :: string

record track =
  tk_remote_id :: string
  tk_library_id :: string
  tk_title :: string
  tk_url :: string
  tk_status :: int
  tk_last_chapter_read :: f64
  tk_total_chapters :: int
  tk_score :: f64
  tk_started_at :: "int option"
  tk_finished_at :: "int option"
  tk_private :: bool

definition auth_from_account :: "tracker_account \<Rightarrow> auth" where
  "auth_from_account a = \<lparr>au_access_token = ta_access_token a, au_refresh_token = string_of (ta_refresh_token a),
     au_expires_at = ta_expires_at a, au_username = ta_username a, au_score_format = ta_score_format a\<rparr>"

definition track_from_link :: "tracker_link \<Rightarrow> track" where
  "track_from_link l = \<lparr>tk_remote_id = tl_external_id l, tk_library_id = string_of (tl_library_id l),
     tk_title = tl_title l, tk_url = tl_remote_url l, tk_status = tl_status l,
     tk_last_chapter_read = tl_last_chapter_read l, tk_total_chapters = tl_total_chapters l, tk_score = tl_score l,
     tk_started_at = tl_started_at l, tk_finished_at = tl_finished_at l, tk_private = (tl_private l \<noteq> 0)\<rparr>"

text \<open>\<open>nt\<close>: an absent time, or Go's zero time (the first second of the year 1), is stored as NULL.\<close>

definition zero_time :: int where
  "zero_time = - 62135596800"

definition null_time :: "int option \<Rightarrow> int option" where
  "null_time t = (if t = Some zero_time then None else t)"

definition b2i :: "bool \<Rightarrow> int" where
  "b2i b = (if b then 1 else 0)"

definition link_params_of :: "int \<Rightarrow> int \<Rightarrow> track \<Rightarrow> link_params" where
  "link_params_of media_id account_id t = \<lparr>lp_media = media_id, lp_account = account_id,
     lp_external_id = tk_remote_id t, lp_library_id = null_string (tk_library_id t), lp_title = tk_title t,
     lp_remote_url = tk_url t, lp_status = tk_status t, lp_last_chapter_read = tk_last_chapter_read t,
     lp_total_chapters = tk_total_chapters t, lp_score = tk_score t, lp_started_at = null_time (tk_started_at t),
     lp_finished_at = null_time (tk_finished_at t), lp_private = b2i (tk_private t), lp_sync_progress = True\<rparr>"

definition account_params_of :: "string \<Rightarrow> auth \<Rightarrow> account_params" where
  "account_params_of key a = \<lparr>tp_type = key, tp_access_token = au_access_token a,
     tp_refresh_token = null_string (au_refresh_token a), tp_expires_at = null_time (au_expires_at a),
     tp_username = au_username a, tp_score_format = au_score_format a\<rparr>"

section \<open>Trackers\<close>

record search_result =
  sr_remote_id :: string
  sr_title :: string
  sr_url :: string
  sr_cover_url :: string
  sr_summary :: string
  sr_total_chapters :: int
  sr_publishing_status :: string
  sr_media_type :: string

record library_entry =
  lib_remote_id :: string
  lib_title :: string
  lib_title_romaji :: string
  lib_title_english :: string
  lib_status :: string
  lib_progress :: f64
  lib_score :: f64
  lib_cover_url :: string
  lib_media_type :: string
  lib_url :: string
  lib_total_chapters :: int

datatype tracker_call =
    CallExchange string
  | CallComplete "(string \<times> string list) list"
  | CallSearch auth string string
  | CallLibrary auth string "string list"
  | CallBind auth string
  | CallPush auth track
  | CallRefresh auth track
  | CallRefreshAuth auth

type_synonym history = "(string \<times> tracker_call) list"

text \<open>
  \<open>sv_complete\<close> and \<open>sv_refresh_auth\<close> are \<open>None\<close> for a tracker that does not implement \<open>CallbackAuther\<close>
  and \<open>Refresher\<close>. Each answer is a function of the calls up to and including the answered one.
\<close>

record service =
  sv_key :: string
  sv_name :: string
  sv_configured :: bool
  sv_icon_url :: string
  sv_auth_url :: string
  sv_score_options :: "auth \<Rightarrow> string list"
  sv_exchange :: "history \<Rightarrow> go_err + auth"
  sv_complete :: "(history \<Rightarrow> go_err + auth) option"
  sv_search :: "history \<Rightarrow> go_err + search_result list"
  sv_library :: "history \<Rightarrow> go_err + library_entry list"
  sv_bind :: "history \<Rightarrow> go_err + track"
  sv_push :: "history \<Rightarrow> go_err + track"
  sv_refresh :: "history \<Rightarrow> go_err + track"
  sv_refresh_auth :: "(history \<Rightarrow> go_err + auth) option"

record tracker_world = world +
  tw_calls :: history
  tw_account_keys :: "(int \<times> string) list option"

definition call_service :: "service \<Rightarrow> tracker_call \<Rightarrow> (history \<Rightarrow> go_err + 'a) \<Rightarrow> ('z tracker_world_scheme, 'a) act" where
  "call_service svc c answer =
     seq (modify (\<lambda>w. w\<lparr>tw_calls := tw_calls w @ [(sv_key svc, c)]\<rparr>)) (\<lambda>_.
     seq (gets tw_calls) (\<lambda>h. ask (answer h)))"

definition service_of :: "service list \<Rightarrow> string \<Rightarrow> service option" where
  "service_of svcs key = find (\<lambda>s. sv_key s = key) svcs"

definition unknown_tracker :: "string \<Rightarrow> go_err" where
  "unknown_tracker key = ErrMsg (''unknown tracker '' @ quoted key)"

section \<open>The manager\<close>

record tracker_info =
  ti_key :: string
  ti_name :: string
  ti_configured :: bool
  ti_logged_in :: bool
  ti_auth_url :: string
  ti_username :: string
  ti_score_options :: "string list"
  ti_icon_url :: string

definition info_of :: "tracker_account list \<Rightarrow> service \<Rightarrow> tracker_info" where
  "info_of accounts svc =
     (let acct = find (\<lambda>a. ta_type a = sv_key svc) (rev accounts) in
      \<lparr>ti_key = sv_key svc, ti_name = sv_name svc, ti_configured = sv_configured svc,
       ti_logged_in = (acct \<noteq> None), ti_auth_url = sv_auth_url svc,
       ti_username = (case acct of None \<Rightarrow> [] | Some a \<Rightarrow> ta_username a),
       ti_score_options = (case acct of None \<Rightarrow> [] | Some a \<Rightarrow> sv_score_options svc (auth_from_account a)),
       ti_icon_url = sv_icon_url svc\<rparr>)"

definition list_trackers :: "service list \<Rightarrow> ('z tracker_world_scheme, tracker_info list) act" where
  "list_trackers svcs = seq (db_call q_list_tracker_accounts) (\<lambda>accounts. ret (map (info_of accounts) svcs))"

definition invalidate_account_cache :: "('z tracker_world_scheme, unit) act" where
  "invalidate_account_cache = modify (\<lambda>w. w\<lparr>tw_account_keys := None\<rparr>)"

definition finish_login :: "service list \<Rightarrow> string \<Rightarrow> auth \<Rightarrow> ('z tracker_world_scheme, tracker_info) act" where
  "finish_login svcs key a =
     seq (db_call (q_upsert_tracker_account (account_params_of key a))) (\<lambda>_.
     seq invalidate_account_cache (\<lambda>_.
     seq (list_trackers svcs) (\<lambda>infos.
     case find (\<lambda>i. ti_key i = key) infos of
       Some i \<Rightarrow> ret i
     | None \<Rightarrow> fail (ErrMsg (''tracker '' @ quoted key @ '' vanished after login'')))))"

definition login :: "service list \<Rightarrow> string \<Rightarrow> string \<Rightarrow> ('z tracker_world_scheme, tracker_info) act" where
  "login svcs key pasted = (case service_of svcs key of
      None \<Rightarrow> fail (unknown_tracker key)
    | Some svc \<Rightarrow> seq (call_service svc (CallExchange pasted) (sv_exchange svc)) (finish_login svcs key))"

definition oauth_callback :: "service list \<Rightarrow> string \<Rightarrow> (string \<times> string list) list \<Rightarrow> ('z tracker_world_scheme, tracker_info) act" where
  "oauth_callback svcs key q = (case service_of svcs key of
      None \<Rightarrow> fail (unknown_tracker key)
    | Some svc \<Rightarrow> (case sv_complete svc of
          None \<Rightarrow> fail (ErrMsg (sv_name svc @ '' does not use OAuth callback''))
        | Some answer \<Rightarrow> seq (call_service svc (CallComplete q) answer) (finish_login svcs key)))"

definition logout :: "service list \<Rightarrow> string \<Rightarrow> ('z tracker_world_scheme, unit) act" where
  "logout svcs key = (case service_of svcs key of
      None \<Rightarrow> fail (unknown_tracker key)
    | Some svc \<Rightarrow> seq invalidate_account_cache (\<lambda>_. db_call (q_delete_tracker_account_by_type key)))"

text \<open>An error that asks for a new login deletes the account.\<close>

definition session_expired :: "string \<Rightarrow> go_err" where
  "session_expired who = ErrMsg (who @ '' session expired, log in again'')"

definition check_reauth :: "tracker_account \<Rightarrow> go_err \<Rightarrow> ('z world_scheme, 'a) act" where
  "check_reauth acct e =
     (if err_is e ErrReauth
      then seq (ignore (db_call (q_delete_tracker_account_by_type (ta_type acct)))) (\<lambda>_. fail (session_expired (ta_type acct)))
      else fail e)"

definition or_reauth :: "tracker_account \<Rightarrow> ('z world_scheme, 'a) act \<Rightarrow> ('z world_scheme, 'a) act" where
  "or_reauth acct m = seq (attempt m) (\<lambda>r. case r of Inl e \<Rightarrow> check_reauth acct e | Inr x \<Rightarrow> ret x)"

text \<open>\<open>load\<close>: the account and its tokens, refreshed when they end within five minutes.\<close>

definition fresh_auth :: "string \<Rightarrow> service \<Rightarrow> auth \<Rightarrow> ('z tracker_world_scheme, auth) act" where
  "fresh_auth key svc a = seq (gets w_now) (\<lambda>now.
     case (sv_refresh_auth svc, au_expires_at a) of
       (Some refresh, Some expires) \<Rightarrow>
         if au_refresh_token a \<noteq> [] \<and> expires - now < 300
         then seq (attempt (call_service svc (CallRefreshAuth a) refresh)) (\<lambda>r. case r of
             Inr fresh \<Rightarrow> seq (ignore (db_call (q_upsert_tracker_account (account_params_of key fresh)))) (\<lambda>_. ret fresh)
           | Inl e \<Rightarrow> if err_is e ErrReauth
               then seq (ignore (db_call (q_delete_tracker_account_by_type key))) (\<lambda>_. fail (session_expired (sv_name svc)))
               else ret a)
         else ret a
     | _ \<Rightarrow> ret a)"

definition load_tracker :: "service list \<Rightarrow> string \<Rightarrow> ('z tracker_world_scheme, tracker_account \<times> service \<times> auth) act" where
  "load_tracker svcs key = (case service_of svcs key of
      None \<Rightarrow> fail (unknown_tracker key)
    | Some svc \<Rightarrow>
        seq (attempt (db_call (q_get_tracker_account key))) (\<lambda>r. case r of
          Inl e \<Rightarrow> fail (if e = ErrNoRows then ErrMsg (''not logged in to '' @ sv_name svc) else e)
        | Inr acct \<Rightarrow> seq (fresh_auth key svc (auth_from_account acct)) (\<lambda>a. ret (acct, svc, a))))"

definition key_for_account_id :: "int \<Rightarrow> ('z tracker_world_scheme, string) act" where
  "key_for_account_id i = seq (gets tw_account_keys) (\<lambda>cached. case cached of
      Some keys \<Rightarrow> ret (case map_of keys i of Some k \<Rightarrow> k | None \<Rightarrow> [])
    | None \<Rightarrow> seq (attempt (db_call q_list_tracker_accounts)) (\<lambda>r. case r of
          Inl _ \<Rightarrow> ret []
        | Inr accounts \<Rightarrow>
            let fresh = map (\<lambda>a. (ta_id a, ta_type a)) accounts in
            seq (modify (\<lambda>w. w\<lparr>tw_account_keys := Some fresh\<rparr>)) (\<lambda>_.
            ret (case map_of fresh i of Some k \<Rightarrow> k | None \<Rightarrow> []))))"

definition load_by_account_id :: "service list \<Rightarrow> int \<Rightarrow> ('z tracker_world_scheme, tracker_account \<times> service \<times> auth) act" where
  "load_by_account_id svcs i = seq (key_for_account_id i) (\<lambda>key.
     if key = [] then fail (ErrMsg (''tracker account '' @ int_digits i @ '' not found''))
     else load_tracker svcs key)"

definition search_tracker :: "service list \<Rightarrow> string \<Rightarrow> string \<Rightarrow> string \<Rightarrow> ('z tracker_world_scheme, search_result list) act" where
  "search_tracker svcs key query content_type = seq (load_tracker svcs key) (\<lambda>(acct, svc, a).
     or_reauth acct (call_service svc (CallSearch a query content_type) (sv_search svc)))"

definition list_tracker_library ::
    "service list \<Rightarrow> string \<Rightarrow> string \<Rightarrow> string list \<Rightarrow> ('z tracker_world_scheme, library_entry list) act" where
  "list_tracker_library svcs key content_type statuses = seq (load_tracker svcs key) (\<lambda>(acct, svc, a).
     or_reauth acct (call_service svc (CallLibrary a content_type statuses) (sv_library svc)))"

section \<open>Progress\<close>

definition persist_track :: "int \<Rightarrow> int \<Rightarrow> track \<Rightarrow> ('z world_scheme, tracker_link) act" where
  "persist_track media_id account_id t = db_call (q_upsert_tracker_link (link_params_of media_id account_id t))"

text \<open>\<open>maxRead\<close>: the largest number of a completed chapter; from the titles when no number is known.\<close>

definition read_number :: "f64 option \<times> string option \<Rightarrow> f64" where
  "read_number = (\<lambda>(number, title). case number of
      Some n \<Rightarrow> if n > 0 then n else (case title of Some t \<Rightarrow> from_title t | None \<Rightarrow> 0)
    | None \<Rightarrow> (case title of Some t \<Rightarrow> from_title t | None \<Rightarrow> 0))"

definition max_read :: "int \<Rightarrow> ('z world_scheme, f64) act" where
  "max_read media_id =
     seq (db_call (q_max_read_chapter_number media_id)) (\<lambda>n.
     if n > 0 then ret n
     else seq (db_call (q_list_completed_chapter_titles media_id)) (\<lambda>rows.
          ret (fold (\<lambda>r best. if read_number r > best then read_number r else best) rows 0)))"

text \<open>Raising a track to what was read here.\<close>

definition raised :: "f64 \<Rightarrow> track \<Rightarrow> track" where
  "raised n t = t\<lparr>tk_last_chapter_read := n,
     tk_status := (if tk_status t = status_plan_to_read \<or> tk_status t = 0 then status_reading else tk_status t)\<rparr>"

definition push_local_progress :: "service \<Rightarrow> auth \<Rightarrow> int \<Rightarrow> track \<Rightarrow> ('z tracker_world_scheme, track) act" where
  "push_local_progress svc a media_id t =
     seq (attempt (max_read media_id)) (\<lambda>r. case r of
       Inl _ \<Rightarrow> ret t
     | Inr n \<Rightarrow>
         if n \<le> 0 \<or> n \<le> tk_last_chapter_read t then ret t
         else seq (attempt (call_service svc (CallPush a (raised n t)) (sv_push svc))) (\<lambda>p.
              ret (case p of Inl _ \<Rightarrow> raised n t | Inr pushed \<Rightarrow> pushed)))"

definition bind_tracker :: "service list \<Rightarrow> string \<Rightarrow> int \<Rightarrow> string \<Rightarrow> ('z tracker_world_scheme, tracker_link) act" where
  "bind_tracker svcs key media_id remote_id = seq (load_tracker svcs key) (\<lambda>(acct, svc, a).
     seq (or_reauth acct (call_service svc (CallBind a remote_id) (sv_bind svc))) (\<lambda>t.
     seq (push_local_progress svc a media_id t) (\<lambda>t.
     persist_track media_id (ta_id acct) t)))"

definition set_if :: "'a option \<Rightarrow> ('a \<Rightarrow> 'b \<Rightarrow> 'b) \<Rightarrow> 'b \<Rightarrow> 'b" where
  "set_if v f x = (case v of None \<Rightarrow> x | Some v \<Rightarrow> f v x)"

definition update_link :: "service list \<Rightarrow> int \<Rightarrow> int option \<Rightarrow> f64 option \<Rightarrow> f64 option \<Rightarrow> ('z tracker_world_scheme, tracker_link) act" where
  "update_link svcs link_id status score last_read =
     seq (db_call (q_get_tracker_link link_id)) (\<lambda>link.
     seq (load_by_account_id svcs (tl_account link)) (\<lambda>(acct, svc, a).
     let t = set_if last_read (\<lambda>n t. t\<lparr>tk_last_chapter_read := n\<rparr>)
               (set_if score (\<lambda>n t. t\<lparr>tk_score := n\<rparr>)
               (set_if status (\<lambda>n t. t\<lparr>tk_status := n\<rparr>) (track_from_link link))) in
     seq (or_reauth acct (call_service svc (CallPush a t) (sv_push svc))) (\<lambda>pushed.
     persist_track (tl_media link) (ta_id acct) pushed)))"

definition unbind :: "int \<Rightarrow> ('z world_scheme, unit) act" where
  "unbind link_id = db_call (q_delete_tracker_link link_id)"

section \<open>Reconciling\<close>

text \<open>A failed call of the reconciliation: the error is checked for an expired session and dropped.\<close>

definition give_up :: "tracker_account \<Rightarrow> go_err \<Rightarrow> 'a \<Rightarrow> ('z world_scheme, 'a) act" where
  "give_up acct e x = seq (ignore (check_reauth acct e :: ('z world_scheme, unit) act)) (\<lambda>_. ret x)"

definition pull_progress :: "int \<Rightarrow> f64 \<Rightarrow> track \<Rightarrow> ('z world_scheme, f64) act" where
  "pull_progress media_id read t =
     (if tk_last_chapter_read t > read
      then seq (ignore (db_call (q_mark_chapters_read_up_to_number media_id (Some (tk_last_chapter_read t))))) (\<lambda>_.
           ret (tk_last_chapter_read t))
      else ret read)"

definition push_progress :: "tracker_account \<Rightarrow> service \<Rightarrow> auth \<Rightarrow> f64 \<Rightarrow> track \<Rightarrow> ('z tracker_world_scheme, track option) act" where
  "push_progress acct svc a read t =
     (if read > tk_last_chapter_read t
      then seq (attempt (call_service svc (CallPush a (raised read t)) (sv_push svc))) (\<lambda>r. case r of
             Inl e \<Rightarrow> give_up acct e None
           | Inr pushed \<Rightarrow> ret (Some pushed))
      else ret (Some t))"

text \<open>One link; the value carried along is \<open>maxRead\<close>.\<close>

definition sync_link :: "service list \<Rightarrow> int \<Rightarrow> f64 \<Rightarrow> tracker_link \<Rightarrow> ('z tracker_world_scheme, f64) act" where
  "sync_link svcs media_id read link =
     (if \<not> tl_sync_progress link then ret read
      else seq (attempt (load_by_account_id svcs (tl_account link))) (\<lambda>l. case l of
        Inl _ \<Rightarrow> ret read
      | Inr (acct, svc, a) \<Rightarrow>
          seq (attempt (call_service svc (CallRefresh a (track_from_link link)) (sv_refresh svc))) (\<lambda>r. case r of
            Inl e \<Rightarrow> give_up acct e read
          | Inr t \<Rightarrow>
              seq (pull_progress media_id read t) (\<lambda>read.
              seq (push_progress acct svc a read t) (\<lambda>p. case p of
                None \<Rightarrow> ret read
              | Some t \<Rightarrow> seq (ignore (persist_track media_id (ta_id acct) t)) (\<lambda>_. ret read))))))"

definition sync_media_progress :: "service list \<Rightarrow> int \<Rightarrow> ('z tracker_world_scheme, unit) act" where
  "sync_media_progress svcs media_id =
     seq (attempt (db_call (q_list_tracker_links_by_media media_id))) (\<lambda>r. case r of
       Inl _ \<Rightarrow> ret ()
     | Inr links \<Rightarrow>
         if links = [] then ret ()
         else seq (attempt (max_read media_id)) (\<lambda>n.
              let read = (case n of Inl _ \<Rightarrow> 0 | Inr n \<Rightarrow> n) in
              seq (fold_act (sync_link svcs media_id) read links) (\<lambda>_. ret ())))"

definition poll_all :: "service list \<Rightarrow> ('z tracker_world_scheme, unit) act" where
  "poll_all svcs = seq (attempt (db_call q_list_media_ids_with_tracker_links)) (\<lambda>r. case r of
      Inl _ \<Rightarrow> ret ()
    | Inr ids \<Rightarrow> for_each (sync_media_progress svcs) ids)"

end
