(* ===== verification/TrackerSync.thy ===== *)
theory TrackerSync
  imports Trackers DemoLibrary
begin

text \<open>
  Properties of the tracker manager: its tables stay well formed and its cache of account keys never
  names a wrong tracker; reconciling progress never lowers what a tracker knows and never unmarks a
  chapter here; an expired session deletes the links of its account.
\<close>

section \<open>Well-formed tables\<close>

definition tracker_tables_ok :: "db \<Rightarrow> bool" where
  "tracker_tables_ok d \<longleftrightarrow> distinct (map ta_id (tracker_accounts d)) \<and> distinct (map ta_type (tracker_accounts d)) \<and>
     distinct (map tl_id (tracker_links d)) \<and> distinct (map (\<lambda>l. (tl_media l, tl_account l)) (tracker_links d)) \<and>
     (\<forall>l \<in> set (tracker_links d). tl_account l \<in> ta_id ` set (tracker_accounts d))"

text \<open>A cached key of an account that exists is the key of that account.\<close>

definition keys_agree :: "(int \<times> string) list option \<Rightarrow> db \<Rightarrow> bool" where
  "keys_agree cache d \<longleftrightarrow> (case cache of None \<Rightarrow> True
     | Some keys \<Rightarrow> \<forall>(i, k) \<in> set keys. \<forall>a \<in> set (tracker_accounts d). ta_id a = i \<longrightarrow> ta_type a = k)"

definition tracker_inv :: "'z tracker_world_scheme \<Rightarrow> bool" where
  "tracker_inv w \<longleftrightarrow> tracker_tables_ok (w_db w) \<and> keys_agree (tw_account_keys w) (w_db w)"

lemma tables_ok_same:
  "tracker_accounts d' = tracker_accounts d \<Longrightarrow> tracker_links d' = tracker_links d \<Longrightarrow> tracker_tables_ok d' = tracker_tables_ok d"
  by (simp add: tracker_tables_ok_def)

lemma keys_agree_same: "tracker_accounts d' = tracker_accounts d \<Longrightarrow> keys_agree c d' = keys_agree c d"
  by (simp add: keys_agree_def split: option.split)

abbreviation account_key :: "tracker_account \<Rightarrow> int \<times> string" where
  "account_key a \<equiv> (ta_id a, ta_type a)"

lemma keys_agree_sub:
  assumes "account_key ` set (tracker_accounts d') \<subseteq> account_key ` set (tracker_accounts d)" "keys_agree c d"
  shows "keys_agree c d'"
proof (cases c)
  case (Some keys)
  have *: "\<forall>x \<in> set keys. \<forall>a \<in> set (tracker_accounts d). ta_id a = fst x \<longrightarrow> ta_type a = snd x"
    using assms(2) Some by (simp add: keys_agree_def case_prod_unfold)
  have "\<forall>x \<in> set keys. \<forall>a \<in> set (tracker_accounts d'). ta_id a = fst x \<longrightarrow> ta_type a = snd x"
  proof (intro ballI impI)
    fix x a assume x: "x \<in> set keys" and a: "a \<in> set (tracker_accounts d')" and i: "ta_id a = fst x"
    have "account_key a \<in> account_key ` set (tracker_accounts d)" by (rule subsetD [OF assms(1) imageI [OF a]])
    then obtain b where b: "b \<in> set (tracker_accounts d)" "account_key a = account_key b" by (rule imageE)
    then show "ta_type a = snd x" using bspec [OF bspec [OF * x] b(1)] i by simp
  qed
  then show ?thesis using Some by (simp add: keys_agree_def case_prod_unfold)
qed (simp add: keys_agree_def)

lemma keys_agree_None [simp]: "keys_agree None d"
  by (simp add: keys_agree_def)

lemma tables_ok_upsert_account:
  assumes "tracker_tables_ok d" "q_upsert_tracker_account p now d = (r, d')"
  shows "tracker_tables_ok d'" "\<exists>row. r = Inr row"
    "tp_type p \<in> ta_type ` set (tracker_accounts d) \<Longrightarrow> keys_agree c d \<Longrightarrow> keys_agree c d'"
proof -
  let ?P = "\<lambda>a. ta_type a = tp_type p"
  let ?f = "\<lambda>a. a\<lparr>ta_access_token := tp_access_token p, ta_refresh_token := tp_refresh_token p,
                 ta_expires_at := tp_expires_at p, ta_username := tp_username p, ta_score_format := tp_score_format p\<rparr>"
  let ?new = "\<lparr>ta_id = next_id (map ta_id (tracker_accounts d)), ta_type = tp_type p, ta_access_token = tp_access_token p,
          ta_refresh_token = tp_refresh_token p, ta_expires_at = tp_expires_at p, ta_username = tp_username p,
          ta_score_format = tp_score_format p\<rparr>"
  have d': "d' = d\<lparr>tracker_accounts := snd (upsert ?P ?f ?new (tracker_accounts d))\<rparr>" and r: "\<exists>row. r = Inr row"
    using assms(2) by (auto simp: q_upsert_tracker_account_def split: prod.splits)
  have "distinct (map ta_id (snd (upsert ?P ?f ?new (tracker_accounts d))))"
    using assms(1) next_id_notin [of "map ta_id (tracker_accounts d)"]
    by (intro distinct_upsert) (auto simp: tracker_tables_ok_def)
  moreover have "distinct (map ta_type (snd (upsert ?P ?f ?new (tracker_accounts d))))"
    using assms(1) by (intro distinct_upsert) (auto simp: tracker_tables_ok_def dest: find_NoneD)
  moreover have "ta_id ` set (tracker_accounts d) \<subseteq> ta_id ` set (snd (upsert ?P ?f ?new (tracker_accounts d)))"
    using upsert_keys [of ?P ta_id ?f ?new "tracker_accounts d"] by (auto split: if_splits)
  ultimately show "tracker_tables_ok d'"
    using assms(1) unfolding d' tracker_tables_ok_def by auto
  show "\<exists>row. r = Inr row" by (rule r)
  show "keys_agree c d'" if t: "tp_type p \<in> ta_type ` set (tracker_accounts d)" and k: "keys_agree c d"
  proof -
    have "find ?P (tracker_accounts d) \<noteq> None" using t by (auto simp: find_None_iff)
    then have "set (map account_key (tracker_accounts d')) = account_key ` set (tracker_accounts d)"
      unfolding d' using upsert_keys [of ?P account_key ?f ?new "tracker_accounts d"] by (simp del: not_None_eq)
    then show ?thesis using k by (intro keys_agree_sub [of d' d]) simp_all
  qed
qed

lemma tables_ok_delete_account:
  assumes "tracker_tables_ok d" "q_delete_tracker_account_by_type key now d = (r, d')"
  shows "tracker_tables_ok d'" "keys_agree c d \<Longrightarrow> keys_agree c d'"
proof -
  have d': "d' = d\<lparr>tracker_accounts := delete_where (\<lambda>a. ta_type a = key) (tracker_accounts d),
      tracker_links := delete_where (\<lambda>l. tl_account l \<in> ta_id ` {a \<in> set (tracker_accounts d). ta_type a = key}) (tracker_links d)\<rparr>"
    using assms(2) by (auto simp: q_delete_tracker_account_by_type_def exec_def Let_def)
  have "tl_account l \<in> ta_id ` {a \<in> set (tracker_accounts d). ta_type a \<noteq> key}"
    if "l \<in> set (tracker_links d)" "tl_account l \<notin> ta_id ` {a \<in> set (tracker_accounts d). ta_type a = key}" for l
    using assms(1) that unfolding tracker_tables_ok_def by blast
  then show "tracker_tables_ok d'"
    using assms(1) unfolding d' tracker_tables_ok_def by (simp add: distinct_delete_where)
  show "keys_agree c d \<Longrightarrow> keys_agree c d'"
    unfolding d' by (rule keys_agree_sub) auto
qed

lemma tables_ok_upsert_link:
  assumes "tracker_tables_ok d" "q_upsert_tracker_link p now d = (r, d')"
  shows "tracker_tables_ok d'" "tracker_accounts d' = tracker_accounts d"
proof -
  let ?P = "\<lambda>l. tl_media l = lp_media p \<and> tl_account l = lp_account p"
  let ?new = "link_created p (next_id (map tl_id (tracker_links d)))"
  let ?rows = "snd (upsert ?P (link_updated p now) ?new (tracker_links d))"
  have d': "d' = d \<or> d' = d\<lparr>tracker_links := ?rows\<rparr> \<and> lp_account p \<in> ta_id ` set (tracker_accounts d)"
    using arg_cong [OF assms(2), of snd]
    by (auto simp: q_upsert_tracker_link_def with_fk_def case_prod_unfold split: if_splits)
  show "tracker_tables_ok d'"
  proof (cases "d' = d")
    case False
    with d' have 2: "d' = d\<lparr>tracker_links := ?rows\<rparr>" "lp_account p \<in> ta_id ` set (tracker_accounts d)" by simp_all
    have "distinct (map tl_id ?rows)"
      using assms(1) next_id_notin [of "map tl_id (tracker_links d)"]
      by (intro distinct_upsert) (auto simp: tracker_tables_ok_def link_updated_def link_created_def)
    moreover have "distinct (map (\<lambda>l. (tl_media l, tl_account l)) ?rows)"
      using assms(1) by (intro distinct_upsert) (auto simp: tracker_tables_ok_def link_updated_def link_created_def dest: find_NoneD)
    moreover have "tl_account l \<in> ta_id ` set (tracker_accounts d)" if "l \<in> set ?rows" for l
      using subsetD [OF set_upsert that] 2(2) assms(1)
      by (auto simp: tracker_tables_ok_def link_updated_def link_created_def)
    ultimately show ?thesis using assms(1) unfolding 2(1) tracker_tables_ok_def by auto
  qed (use assms(1) in simp)
  show "tracker_accounts d' = tracker_accounts d"
    using d' by auto
qed

section \<open>Calls and the invariant\<close>

lemma db_call_tracker:
  assumes "db_call q w = (r, w')"
  shows "tw_calls w' = tw_calls (w :: 'z tracker_world_scheme)" "tw_account_keys w' = tw_account_keys w"
    "w_db w' = w_db w \<or> q (w_now w) (w_db w) = (r, w_db w')"
  using db_call_result [OF assms] by auto

lemma keeps_inv_db_call:
  assumes "\<And>now d r d' c. tracker_tables_ok d \<Longrightarrow> keys_agree c d \<Longrightarrow> q now d = (r, d') \<Longrightarrow> tracker_tables_ok d' \<and> keys_agree c d'"
  shows "keeps (tracker_inv :: 'z tracker_world_scheme \<Rightarrow> bool) (db_call q)"
proof (rule keepsI)
  fix w :: "'z tracker_world_scheme" assume w: "tracker_inv w"
  obtain r w' where r: "db_call q w = (r, w')" by fastforce
  show "tracker_inv (snd (db_call q w))"
    using db_call_tracker [OF r] w assms [of "w_db w" "tw_account_keys w" "w_now w" r "w_db w'"] r by (auto simp: tracker_inv_def)
qed

lemma keeps_inv_statements [keeps_intros]:
  "keeps (tracker_inv :: 'z tracker_world_scheme \<Rightarrow> bool) (db_call (select_all f))"
  "keeps (tracker_inv :: 'z tracker_world_scheme \<Rightarrow> bool) (db_call (select_one g))"
  "keeps (tracker_inv :: 'z tracker_world_scheme \<Rightarrow> bool) (db_call (q_delete_tracker_account_by_type key))"
  "keeps (tracker_inv :: 'z tracker_world_scheme \<Rightarrow> bool) (db_call (q_upsert_tracker_link p))"
  "keeps (tracker_inv :: 'z tracker_world_scheme \<Rightarrow> bool) (db_call (q_delete_tracker_link i))"
  "keeps (tracker_inv :: 'z tracker_world_scheme \<Rightarrow> bool) (db_call (q_mark_chapters_read_up_to_number m n))"
proof -
  show "keeps (tracker_inv :: 'z tracker_world_scheme \<Rightarrow> bool) (db_call (select_all f))"
    "keeps (tracker_inv :: 'z tracker_world_scheme \<Rightarrow> bool) (db_call (select_one g))"
    by (rule keeps_inv_db_call; auto simp: select_all_def select_one_def split: option.splits)+
  show "keeps (tracker_inv :: 'z tracker_world_scheme \<Rightarrow> bool) (db_call (q_delete_tracker_account_by_type key))"
    by (rule keeps_inv_db_call) (blast dest: tables_ok_delete_account)
  show "keeps (tracker_inv :: 'z tracker_world_scheme \<Rightarrow> bool) (db_call (q_upsert_tracker_link p))"
    by (rule keeps_inv_db_call) (metis keys_agree_same tables_ok_upsert_link)
  show "keeps (tracker_inv :: 'z tracker_world_scheme \<Rightarrow> bool) (db_call (q_delete_tracker_link i))"
    by (rule keeps_inv_db_call)
       (auto simp: q_delete_tracker_link_def exec_def tracker_tables_ok_def keys_agree_def split: option.splits intro!: distinct_delete_where)
  show "keeps (tracker_inv :: 'z tracker_world_scheme \<Rightarrow> bool) (db_call (q_mark_chapters_read_up_to_number m n))"
    by (rule keeps_inv_db_call)
       (auto simp: q_mark_chapters_read_up_to_number_def exec_def tracker_tables_ok_def keys_agree_def split: option.splits)
qed

text \<open>A call of a tracker changes nothing but the history.\<close>

lemma call_service_result:
  assumes "call_service svc c answer w = (r, w')"
  shows "tw_calls w' = tw_calls w @ [(sv_key svc, c)]" "tw_account_keys w' = tw_account_keys w" "w_db w' = w_db w"
    "w_now w' = w_now w" "\<And>x. r = Inr x \<Longrightarrow> answer (tw_calls w @ [(sv_key svc, c)]) = Inr x"
proof -
  let ?w = "w\<lparr>tw_calls := tw_calls w @ [(sv_key svc, c)]\<rparr>"
  obtain f w1 where f: "next_fault ?w = (f, w1)" by fastforce
  then obtain fs where w1: "w1 = ?w\<lparr>w_faults := fs\<rparr>" using next_fault_result by blast
  have "call_service svc c answer w = (case f of None \<Rightarrow> (answer (tw_calls w @ [(sv_key svc, c)]), w1) | Some e \<Rightarrow> (Inl e, w1))"
    by (simp add: call_service_def seq_def modify_def gets_def ask_def ext_call_def f split: option.split)
  then show "tw_calls w' = tw_calls w @ [(sv_key svc, c)]" "tw_account_keys w' = tw_account_keys w" "w_db w' = w_db w"
    "w_now w' = w_now w" "\<And>x. r = Inr x \<Longrightarrow> answer (tw_calls w @ [(sv_key svc, c)]) = Inr x"
    using assms w1 by (auto split: option.splits)
qed

lemma keeps_inv_call_service [keeps_intros]: "keeps tracker_inv (call_service svc c answer)"
proof (rule keepsI)
  fix w :: "'a tracker_world_scheme" assume w: "tracker_inv w"
  obtain r w' where r: "call_service svc c answer w = (r, w')" by fastforce
  show "tracker_inv (snd (call_service svc c answer w))"
    using w r call_service_result(2,3) [OF r] by (simp add: tracker_inv_def)
qed

lemma keeps_inv_reauth [keeps_intros]:
  "keeps (tracker_inv :: 'z tracker_world_scheme \<Rightarrow> bool) (check_reauth acct e)"
  "keeps (tracker_inv :: 'z tracker_world_scheme \<Rightarrow> bool) m \<Longrightarrow> keeps tracker_inv (or_reauth acct m)"
  "keeps (tracker_inv :: 'z tracker_world_scheme \<Rightarrow> bool) (give_up acct e x)"
proof -
  show 1: "keeps (tracker_inv :: 'z tracker_world_scheme \<Rightarrow> bool) (check_reauth acct e)" for acct e
    unfolding check_reauth_def by (intro keeps_intros)
  show "keeps (tracker_inv :: 'z tracker_world_scheme \<Rightarrow> bool) (or_reauth acct m)" if "keeps (tracker_inv :: 'z tracker_world_scheme \<Rightarrow> bool) m"
    unfolding or_reauth_def by (intro keeps_intros 1 that)
  show "keeps (tracker_inv :: 'z tracker_world_scheme \<Rightarrow> bool) (give_up acct e x)"
    unfolding give_up_def by (intro keeps_intros 1)
qed

lemma db_upsert_account_state:
  assumes "db_call (q_upsert_tracker_account p) w = (r, w')" "tracker_inv w"
  shows "tracker_tables_ok (w_db w')" "tw_account_keys w' = tw_account_keys w"
    "tp_type p \<in> ta_type ` set (tracker_accounts (w_db w)) \<Longrightarrow> tracker_inv w'"
proof -
  have ok: "tracker_tables_ok (w_db w)" "keys_agree (tw_account_keys w) (w_db w)" using assms(2) by (simp_all add: tracker_inv_def)
  note st = db_call_tracker [OF assms(1)]
  show 1: "tracker_tables_ok (w_db w')"
    using st(3) ok(1) tables_ok_upsert_account(1) by metis
  show 2: "tw_account_keys w' = tw_account_keys w" by (rule st(2))
  show "tracker_inv w'" if "tp_type p \<in> ta_type ` set (tracker_accounts (w_db w))"
    using st(3) ok tables_ok_upsert_account(3) [OF ok(1) _ that] 1 2 unfolding tracker_inv_def by metis
qed

lemma fresh_auth_inv:
  assumes "tracker_inv w" "key \<in> ta_type ` set (tracker_accounts (w_db w))"
  shows "tracker_inv (snd (fresh_auth key svc a w))"
proof (cases "\<exists>refresh expires. sv_refresh_auth svc = Some refresh \<and> au_expires_at a = Some expires \<and>
    au_refresh_token a \<noteq> [] \<and> expires - w_now w < 300")
  case True
  then obtain refresh expires where c: "sv_refresh_auth svc = Some refresh" "au_expires_at a = Some expires"
    "au_refresh_token a \<noteq> []" "expires - w_now w < 300" by blast
  obtain r w1 where 1: "call_service svc (CallRefreshAuth a) refresh w = (r, w1)" by fastforce
  have w1: "tracker_inv w1" and db: "w_db w1 = w_db w"
    using call_service_result(2,3) [OF 1] assms(1) by (simp_all add: tracker_inv_def)
  show ?thesis
  proof (cases r)
    case (Inl e)
    have "keeps (tracker_inv :: 'a tracker_world_scheme \<Rightarrow> bool)
        (if err_is e ErrReauth then seq (ignore (db_call (q_delete_tracker_account_by_type key))) (\<lambda>_. fail (session_expired (sv_name svc))) else ret a)"
      by (intro keeps_intros)
    then show ?thesis using w1 1 c Inl by (simp add: fresh_auth_def seq_def gets_def attempt_def keeps_def)
  next
    case (Inr fresh)
    obtain r2 w2 where 2: "db_call (q_upsert_tracker_account (account_params_of key fresh)) w1 = (r2, w2)" by fastforce
    have "tracker_inv w2"
      using db_upsert_account_state(3) [OF 2 w1] assms(2) db by (simp add: account_params_of_def)
    then show ?thesis using 1 2 c Inr by (simp add: fresh_auth_def seq_def gets_def attempt_def ignore_def ret_def)
  qed
next
  case False
  then have "fresh_auth key svc a w = (Inr a, w)"
    by (auto simp: fresh_auth_def seq_def gets_def ret_def split: option.split)
  then show ?thesis using assms(1) by simp
qed

lemma keeps_inv_load [keeps_intros]: "keeps tracker_inv (load_tracker svcs key)"
proof (rule keepsI)
  fix w :: "'a tracker_world_scheme" assume w: "tracker_inv w"
  obtain r w1 where 1: "db_call (q_get_tracker_account key) w = (r, w1)" by fastforce
  have db: "w_db w1 = w_db w" and w1: "tracker_inv w1"
    using db_select_one_state [OF 1 [unfolded q_get_tracker_account_def]] db_call_tracker(2) [OF 1] w by (simp_all add: tracker_inv_def)
  show "tracker_inv (snd (load_tracker svcs key w))"
  proof (cases "service_of svcs key")
    case None
    then show ?thesis using w by (simp add: load_tracker_def fail_def)
  next
    case (Some svc)
    show ?thesis
    proof (cases r)
      case (Inl e)
      then show ?thesis using w1 1 Some by (simp add: load_tracker_def seq_def attempt_def fail_def)
    next
      case (Inr acct)
      have "acct \<in> set (tracker_accounts (w_db w1))" "ta_type acct = key"
        using db_select_one_ok [OF 1 [unfolded q_get_tracker_account_def Inr]] db by (auto dest: find_SomeD)
      then have "tracker_inv (snd (fresh_auth key svc (auth_from_account acct) w1))" using w1 by (intro fresh_auth_inv) auto
      then show ?thesis using 1 Some Inr
        by (auto simp: load_tracker_def seq_def attempt_def ret_def split: prod.split sum.split)
    qed
  qed
qed

lemma keeps_inv_key [keeps_intros]: "keeps tracker_inv (key_for_account_id i)"
proof (rule keepsI)
  fix w :: "'a tracker_world_scheme" assume w: "tracker_inv w"
  obtain r w1 where 1: "db_call q_list_tracker_accounts w = (r, w1)" by fastforce
  have db: "w_db w1 = w_db w" and w1: "tracker_inv w1"
    using db_select_all_state [OF 1 [unfolded q_list_tracker_accounts_def]] db_call_tracker(2) [OF 1] w by (simp_all add: tracker_inv_def)
  have "keys_agree (Some (map account_key (tracker_accounts d))) d" if "tracker_tables_ok d" for d
  proof -
    have "x = a" if "x \<in> set (tracker_accounts d)" "a \<in> set (tracker_accounts d)" "ta_id a = ta_id x" for x a
      using \<open>tracker_tables_ok d\<close> that by (auto simp: tracker_tables_ok_def distinct_map inj_on_def)
    then show ?thesis by (auto simp: keys_agree_def)
  qed
  moreover have "accounts = tracker_accounts (w_db w)" if "r = Inr accounts" for accounts
    using db_select_all_ok [OF 1 [unfolded q_list_tracker_accounts_def that]] .
  ultimately show "tracker_inv (snd (key_for_account_id i w))"
    using w w1 1 db
    by (auto simp: key_for_account_id_def seq_def gets_def ret_def attempt_def modify_def tracker_inv_def Let_def
        split: option.split sum.split)
qed

lemma keeps_inv_invalidate [keeps_intros]: "keeps tracker_inv invalidate_account_cache"
  by (simp add: keeps_def invalidate_account_cache_def modify_def tracker_inv_def)

lemma keeps_inv_finish_login [keeps_intros]: "keeps tracker_inv (finish_login svcs key a)"
proof (rule keepsI)
  fix w :: "'a tracker_world_scheme" assume w: "tracker_inv w"
  obtain r w1 where 1: "db_call (q_upsert_tracker_account (account_params_of key a)) w = (r, w1)" by fastforce
  define rest :: "('a tracker_world_scheme, tracker_info) act" where
    "rest = seq (list_trackers svcs) (\<lambda>infos. case find (\<lambda>i. ti_key i = key) infos of
       Some i \<Rightarrow> ret i | None \<Rightarrow> fail (ErrMsg (''tracker '' @ quoted key @ '' vanished after login'')))"
  have "keeps (tracker_inv :: 'a tracker_world_scheme \<Rightarrow> bool) rest"
    unfolding rest_def list_trackers_def q_list_tracker_accounts_def by (intro keeps_intros)
  moreover have "tracker_inv (w1\<lparr>tw_account_keys := None\<rparr>)"
    using db_upsert_account_state(1) [OF 1 w] by (simp add: tracker_inv_def)
  ultimately have rest: "tracker_inv (snd (rest (w1\<lparr>tw_account_keys := None\<rparr>)))" by (simp only: keeps_def)
  have w1: "tracker_inv w1" if "r = Inl e" for e
    using db_call_result [OF 1] tables_ok_upsert_account(2) w that by (fastforce simp: tracker_inv_def)
  show "tracker_inv (snd (finish_login svcs key a w))"
    using rest w1 1
    by (cases r) (auto simp: finish_login_def rest_def seq_def invalidate_account_cache_def modify_def)
qed

text \<open>The operations of the manager.\<close>

datatype tracker_op =
    ListTrackers
  | Login string string
  | Callback string "(string \<times> string list) list"
  | Logout string
  | SearchTracker string string string
  | ListTrackerLibrary string string "string list"
  | Bind string int string
  | UpdateLink int "int option" "f64 option" "f64 option"
  | Unbind int
  | SyncMedia int
  | PollAll

definition run_tracker :: "service list \<Rightarrow> tracker_op \<Rightarrow> ('z tracker_world_scheme, unit) act" where
  "run_tracker svcs op = (case op of
      ListTrackers \<Rightarrow> ignore (list_trackers svcs)
    | Login key pasted \<Rightarrow> ignore (login svcs key pasted)
    | Callback key q \<Rightarrow> ignore (oauth_callback svcs key q)
    | Logout key \<Rightarrow> ignore (logout svcs key)
    | SearchTracker key query t \<Rightarrow> ignore (search_tracker svcs key query t)
    | ListTrackerLibrary key t statuses \<Rightarrow> ignore (list_tracker_library svcs key t statuses)
    | Bind key i remote \<Rightarrow> ignore (bind_tracker svcs key i remote)
    | UpdateLink i status score n \<Rightarrow> ignore (update_link svcs i status score n)
    | Unbind i \<Rightarrow> ignore (unbind i)
    | SyncMedia i \<Rightarrow> sync_media_progress svcs i
    | PollAll \<Rightarrow> poll_all svcs)"

lemma keeps_inv_max_read [keeps_intros]: "keeps (tracker_inv :: 'z tracker_world_scheme \<Rightarrow> bool) (max_read i)"
  unfolding max_read_def q_max_read_chapter_number_def q_list_completed_chapter_titles_def by (intro keeps_intros)

lemma keeps_inv_sync [keeps_intros]: "keeps tracker_inv (sync_media_progress svcs i)"
  unfolding sync_media_progress_def sync_link_def load_by_account_id_def pull_progress_def push_progress_def persist_track_def
    q_list_tracker_links_by_media_def Let_def
  by (intro keeps_intros)

lemma keeps_inv_run: "keeps tracker_inv (run_tracker svcs op)"
  by (cases op)
     (auto simp: run_tracker_def list_trackers_def login_def oauth_callback_def logout_def search_tracker_def
       list_tracker_library_def bind_tracker_def push_local_progress_def update_link_def unbind_def persist_track_def
       poll_all_def load_by_account_id_def q_list_tracker_accounts_def q_get_tracker_link_def
       q_list_media_ids_with_tracker_links_def Let_def intro!: keeps_intros)

text \<open>
  C39: The tracker tables stay well typed under every operation of the manager, in any order, whatever
  the trackers answer and whatever calls fail: account ids, account keys and link ids are unique, an
  entry has at most one link per account, every link belongs to an account that exists, and the cache
  of account keys never gives an existing account the key of another.
\<close>

theorem tracker_tables_stay_well_typed:
  fixes w :: "'z tracker_world_scheme"
  assumes "tracker_inv w"
  shows "tracker_inv (snd (for_each (run_tracker svcs) ops w))"
proof -
  have "keeps tracker_inv (for_each (run_tracker svcs) ops :: ('z tracker_world_scheme, unit) act)"
    by (intro keeps_intros keeps_inv_run)
  then show ?thesis using assms by (simp add: keeps_def)
qed

section \<open>Reconciling only raises\<close>

text \<open>
  Every push after the first \<open>n\<close> calls comes right after a refresh of the same tracker and raises what
  that refresh reported.
\<close>

definition raises :: "service \<Rightarrow> history \<Rightarrow> auth \<Rightarrow> track \<Rightarrow> bool" where
  "raises svc h a t \<longleftrightarrow> (\<exists>h' l r. h = h' @ [(sv_key svc, CallRefresh a l)] \<and> sv_refresh svc h = Inr r \<and>
     tk_last_chapter_read r < tk_last_chapter_read t \<and> t = raised (tk_last_chapter_read t) r)"

definition pushes_raise :: "service list \<Rightarrow> nat \<Rightarrow> history \<Rightarrow> bool" where
  "pushes_raise svcs n h \<longleftrightarrow> n \<le> length h \<and>
     (\<forall>j k a t. n \<le> j \<and> j < length h \<and> h ! j = (k, CallPush a t) \<longrightarrow>
        (\<exists>svc \<in> set svcs. sv_key svc = k \<and> raises svc (take j h) a t))"

lemma pushes_raise_refl [simp]: "pushes_raise svcs (length h) h"
  by (auto simp: pushes_raise_def)

lemma pushes_raise_snoc:
  assumes "pushes_raise svcs n h" "\<And>a t. c = CallPush a t \<Longrightarrow> \<exists>svc \<in> set svcs. sv_key svc = k \<and> raises svc h a t"
  shows "pushes_raise svcs n (h @ [(k, c)])"
  using assms by (auto simp: pushes_raise_def nth_append less_Suc_eq)

abbreviation raising :: "service list \<Rightarrow> nat \<Rightarrow> 'z tracker_world_scheme \<Rightarrow> bool" where
  "raising svcs n \<equiv> \<lambda>w. pushes_raise svcs n (tw_calls w)"

lemma keeps_calls_db_call [keeps_intros]: "keeps (\<lambda>w :: 'z tracker_world_scheme. I (tw_calls w)) (db_call q)"
proof (rule keepsI)
  fix w :: "'z tracker_world_scheme" assume w: "I (tw_calls w)"
  obtain r w' where r: "db_call q w = (r, w')" by fastforce
  then show "I (tw_calls (snd (db_call q w)))" using w db_call_tracker(1) [OF r] by simp
qed

lemma keeps_raising_other_call:
  assumes "\<And>a t. c \<noteq> CallPush a t"
  shows "keeps (raising svcs n :: 'z tracker_world_scheme \<Rightarrow> bool) (call_service svc c answer)"
proof (rule keepsI)
  fix w :: "'z tracker_world_scheme" assume w: "raising svcs n w"
  obtain r w' where r: "call_service svc c answer w = (r, w')" by fastforce
  show "raising svcs n (snd (call_service svc c answer w))"
    using w assms call_service_result(1) [OF r] by (auto simp: r intro!: pushes_raise_snoc)
qed

lemma keeps_raising_modify [keeps_intros]: "(\<And>w. tw_calls (f w) = tw_calls w) \<Longrightarrow> keeps (raising svcs n) (modify f)"
  by (simp add: keeps_def modify_def)

lemma keeps_raising_load [keeps_intros]:
  "keeps (raising svcs n :: 'z tracker_world_scheme \<Rightarrow> bool) (load_by_account_id svcs' i)"
  unfolding load_by_account_id_def key_for_account_id_def load_tracker_def fresh_auth_def Let_def
  by (intro keeps_intros keeps_raising_other_call) simp_all

lemma loaded_service:
  assumes "load_by_account_id svcs i w = (Inr (acct, svc, a), w')"
  shows "svc \<in> set svcs"
proof -
  obtain key w1 where "load_tracker svcs key w1 = (Inr (acct, svc, a), w')"
    using assms by (auto simp: load_by_account_id_def seq_eq_Inr fail_def split: if_splits)
  then obtain s where s: "service_of svcs key = Some s" by (auto simp: load_tracker_def fail_def split: option.splits)
  with \<open>load_tracker svcs key w1 = (Inr (acct, svc, a), w')\<close> have "svc = s"
    by (auto simp: load_tracker_def seq_eq_Inr attempt_eq fail_def ret_def split: sum.splits)
  then show ?thesis using find_SomeD s unfolding service_of_def by fastforce
qed

lemma keeps_raising_give_up [keeps_intros]: "keeps (raising svcs n :: 'z tracker_world_scheme \<Rightarrow> bool) (give_up acct e x)"
  unfolding give_up_def check_reauth_def by (intro keeps_intros)

lemma sync_link_raising: "keeps (raising svcs n :: 'z tracker_world_scheme \<Rightarrow> bool) (sync_link svcs i read link)"
proof (rule keepsI)
  fix w :: "'z tracker_world_scheme" assume w: "raising svcs n w"
  let ?J = "raising svcs n :: 'z tracker_world_scheme \<Rightarrow> bool"
  obtain l w1 where 1: "load_by_account_id svcs (tl_account link) w = (l, w1)" by fastforce
  have w1: "?J w1" using keepsD [OF keeps_raising_load w 1] .
  show "?J (snd (sync_link svcs i read link w))"
  proof (cases "tl_sync_progress link \<and> (\<exists>p. l = Inr p)")
    case False
    then show ?thesis using w w1 1 by (auto simp: sync_link_def seq_def attempt_def ret_def split: sum.splits)
  next
    case True
    then obtain acct svc a where l: "l = Inr (acct, svc, a)" by (metis prod_cases3)
    let ?h = "tw_calls w1 @ [(sv_key svc, CallRefresh a (track_from_link link))]"
    obtain r w2 where 2: "call_service svc (CallRefresh a (track_from_link link)) (sv_refresh svc) w1 = (r, w2)" by fastforce
    have h: "tw_calls w2 = ?h" and w2: "?J w2"
      using call_service_result(1) [OF 2] w1 by (auto intro!: pushes_raise_snoc)
    show ?thesis
    proof (cases r)
      case (Inl e)
      obtain x w3 where 3: "give_up acct e read w2 = (x, w3)" by fastforce
      show ?thesis using keepsD [OF keeps_raising_give_up w2 3] 1 2 3 l True Inl
        by (simp add: sync_link_def seq_def attempt_def)
    next
      case (Inr t)
      have t: "sv_refresh svc ?h = Inr t" using call_service_result(5) [OF 2] Inr by simp
      obtain m w3 where 3: "pull_progress i read t w2 = (Inr m, w3)"
      proof -
        have "total (pull_progress i read t :: ('z tracker_world_scheme, f64) act)"
          unfolding pull_progress_def by (intro total_intros)
        then show ?thesis using that by (rule totalE)
      qed
      have h3: "tw_calls w3 = ?h" and w3: "?J w3"
      proof -
        have k: "keeps (\<lambda>v. tw_calls v = ?h) (pull_progress i read t :: ('z tracker_world_scheme, f64) act)"
          unfolding pull_progress_def by (intro keeps_intros)
        show h3: "tw_calls w3 = ?h" by (rule keepsD [OF k h 3])
        show "?J w3" using w2 h h3 by simp
      qed
      obtain p w4 where 4: "push_progress acct svc a m t w3 = (Inr p, w4)" and w4: "?J w4"
      proof (cases "m > tk_last_chapter_read t")
        case False
        then show ?thesis using that w3 by (simp add: push_progress_def ret_def)
      next
        case m: True
        obtain q w5 where 5: "call_service svc (CallPush a (raised m t)) (sv_push svc) w3 = (q, w5)" by fastforce
        have "raises svc ?h a (raised m t)"
          unfolding raises_def using t m by (auto simp: raised_def)
        moreover have "svc \<in> set svcs" using loaded_service 1 l by blast
        moreover have "pushes_raise svcs n ?h" using w3 h3 by simp
        ultimately have "pushes_raise svcs n (?h @ [(sv_key svc, CallPush a (raised m t))])"
          using pushes_raise_snoc [of svcs n ?h "CallPush a (raised m t)" "sv_key svc"] by blast
        then have w5: "?J w5" using call_service_result(1) [OF 5] h3 by simp
        show ?thesis
        proof (cases q)
          case (Inl e)
          obtain p w6 where 6: "give_up acct e (None :: track option) w5 = (Inr p, w6)"
          proof -
            have "total (give_up acct e None :: ('z tracker_world_scheme, track option) act)"
              unfolding give_up_def by (intro total_intros)
            then show ?thesis using that by (rule totalE)
          qed
          show ?thesis
            using that [of p w6] keepsD [OF keeps_raising_give_up w5 6] 5 6 m Inl by (simp add: push_progress_def seq_def attempt_def)
        next
          case (Inr pushed)
          then show ?thesis using that [of "Some pushed" w5] w5 5 m by (simp add: push_progress_def seq_def attempt_def ret_def)
        qed
      qed
      have "keeps ?J (case p of None \<Rightarrow> ret m | Some t \<Rightarrow> seq (ignore (persist_track i (ta_id acct) t)) (\<lambda>_. ret m))"
        unfolding persist_track_def by (intro keeps_intros)
      then show ?thesis using w4 1 2 3 4 l True Inr
        by (simp add: sync_link_def seq_def attempt_def keeps_def)
    qed
  qed
qed

section \<open>Reconciling never unmarks\<close>

text \<open>What reconciling an entry may do to the reading progress.\<close>

definition numbered_chapters :: "int \<Rightarrow> db \<Rightarrow> int set" where
  "numbered_chapters i d = c_id ` {c \<in> set (chapters d). c_media c = i \<and> (\<exists>n > 0. c_number c = Some n)}"

text \<open>The tables that reconciling leaves alone, and the links of the other entries.\<close>

definition elsewhere :: "db \<Rightarrow> db" where
  "elsewhere d = d\<lparr>progresses := [], tracker_links := [], tracker_accounts := []\<rparr>"

definition links_of_others :: "int \<Rightarrow> db \<Rightarrow> tracker_link set" where
  "links_of_others i d = {l \<in> set (tracker_links d). tl_media l \<noteq> i}"

definition only_marks :: "int \<Rightarrow> db \<Rightarrow> db \<Rightarrow> bool" where
  "only_marks i d d' \<longleftrightarrow> elsewhere d' = elsewhere d \<and>
     {r \<in> set (progresses d). rp_media r \<noteq> i \<or> rp_completed r} \<subseteq> set (progresses d') \<and>
     set (progresses d') - set (progresses d) \<subseteq> {r. rp_media r = i \<and> rp_completed r \<and> rp_chapter r \<in> numbered_chapters i d} \<and>
     (\<exists>gone. links_of_others i d' = {l \<in> links_of_others i d. tl_account l \<notin> gone})"

lemma only_marks_refl [simp]: "only_marks i d d"
  by (auto simp: only_marks_def)

lemma elsewhere_chapters:
  assumes "elsewhere d' = elsewhere d"
  shows "chapters d' = chapters d"
proof -
  have "chapters (elsewhere d') = chapters (elsewhere d)" using assms by simp
  then show ?thesis by (simp add: elsewhere_def)
qed

lemma only_marks_other:
  "elsewhere d' = elsewhere d \<Longrightarrow> progresses d' = progresses d \<Longrightarrow> links_of_others i d' = links_of_others i d \<Longrightarrow>
    only_marks i d0 d \<Longrightarrow> only_marks i d0 d'"
  by (simp add: only_marks_def)

lemma only_marks_delete:
  assumes "only_marks i d0 d"
  shows "only_marks i d0 (snd (q_delete_tracker_account_by_type key now d))"
proof -
  let ?d = "snd (q_delete_tracker_account_by_type key now d)"
  let ?ids = "ta_id ` {a \<in> set (tracker_accounts d). ta_type a = key}"
  obtain gone where gone: "links_of_others i d = {l \<in> links_of_others i d0. tl_account l \<notin> gone}"
    using assms by (auto simp: only_marks_def)
  have "links_of_others i ?d = {l \<in> links_of_others i d. tl_account l \<notin> ?ids}"
    by (auto simp: links_of_others_def q_delete_tracker_account_by_type_def exec_def delete_where_def Let_def)
  then have "links_of_others i ?d = {l \<in> links_of_others i d0. tl_account l \<notin> gone \<union> ?ids}" unfolding gone by auto
  moreover have "elsewhere ?d = elsewhere d" "progresses ?d = progresses d"
    by (simp_all add: elsewhere_def q_delete_tracker_account_by_type_def exec_def Let_def)
  ultimately show ?thesis using assms unfolding only_marks_def by auto
qed

lemma upsert_link_other:
  assumes "lp_media p = i"
  shows "links_of_others i (snd (q_upsert_tracker_link p now d)) = links_of_others i d"
    "elsewhere (snd (q_upsert_tracker_link p now d)) = elsewhere d"
    "progresses (snd (q_upsert_tracker_link p now d)) = progresses d"
  using assms
  by (auto simp: q_upsert_tracker_link_def with_fk_def upsert_def update_where_def link_updated_def link_created_def
      links_of_others_def elsewhere_def split: option.splits if_splits)

lemma mark_keeps: "r \<in> set rows \<Longrightarrow> rp_media r \<noteq> i \<or> rp_completed r \<Longrightarrow> r \<in> set (mark_chapter_read i now c rows)"
  by (cases "find (\<lambda>r. rp_media r = i \<and> rp_chapter r = c) rows")
     (auto simp: mark_chapter_read_def upsert_def update_where_def intro!: image_eqI [of r _ r])

lemma mark_new: "r \<in> set (mark_chapter_read i now c rows) \<Longrightarrow> r \<in> set rows \<or> (rp_media r = i \<and> rp_completed r \<and> rp_chapter r = c)"
  by (cases "find (\<lambda>r. rp_media r = i \<and> rp_chapter r = c) rows")
     (auto simp: mark_chapter_read_def upsert_def update_where_def split: if_splits)

lemma marks_keep: "r \<in> set rows \<Longrightarrow> rp_media r \<noteq> i \<or> rp_completed r \<Longrightarrow> r \<in> set (fold (mark_chapter_read i now) cs rows)"
  by (induction cs arbitrary: rows) (simp_all add: mark_keeps)

lemma marks_new:
  "r \<in> set (fold (mark_chapter_read i now) cs rows) \<Longrightarrow> r \<in> set rows \<or> (rp_media r = i \<and> rp_completed r \<and> rp_chapter r \<in> set cs)"
proof (induction cs arbitrary: rows)
  case (Cons c cs)
  then have "r \<in> set (mark_chapter_read i now c rows) \<or> (rp_media r = i \<and> rp_completed r \<and> rp_chapter r \<in> set cs)" by simp
  then show ?case using mark_new [of r i now c rows] by auto
qed simp

lemma only_marks_mark:
  assumes "only_marks i d0 d"
  shows "only_marks i d0 (snd (q_mark_chapters_read_up_to_number i n now d))"
proof -
  let ?d = "snd (q_mark_chapters_read_up_to_number i n now d)" and ?cs = "chapters_up_to d i n"
  have ch: "elsewhere ?d = elsewhere d0" and p: "progresses ?d = fold (mark_chapter_read i now) ?cs (progresses d)"
    and l: "links_of_others i ?d = links_of_others i d"
    using assms by (simp_all add: only_marks_def elsewhere_def links_of_others_def q_mark_chapters_read_up_to_number_def exec_def)
  have "chapters d = chapters d0" using assms elsewhere_chapters unfolding only_marks_def by blast
  then have cs: "set ?cs \<subseteq> numbered_chapters i d0"
    by (auto simp: chapters_up_to_def numbered_chapters_def split: option.splits)
  have "r \<in> set (progresses ?d)" if "r \<in> set (progresses d0)" "rp_media r \<noteq> i \<or> rp_completed r" for r
    unfolding p using that assms by (intro marks_keep) (auto simp: only_marks_def)
  moreover have "rp_media r = i \<and> rp_completed r \<and> rp_chapter r \<in> numbered_chapters i d0"
    if "r \<in> set (progresses ?d)" "r \<notin> set (progresses d0)" for r
    using marks_new [of r i now ?cs "progresses d"] that assms cs unfolding p only_marks_def by blast
  moreover have "\<exists>gone. links_of_others i ?d = {l \<in> links_of_others i d0. tl_account l \<notin> gone}"
    using assms unfolding l only_marks_def by blast
  ultimately show ?thesis unfolding only_marks_def using ch by blast
qed

lemma keeps_marks_db_call:
  assumes "\<And>now d. elsewhere (snd (q now d)) = elsewhere d \<and> progresses (snd (q now d)) = progresses d \<and>
    links_of_others i (snd (q now d)) = links_of_others i d"
  shows "keeps (\<lambda>w :: 'z world_scheme. only_marks i d0 (w_db w)) (db_call q)"
  using assms by (intro keeps_db_call) (metis only_marks_other)

lemma keeps_marks_statements [keeps_intros]:
  "keeps (\<lambda>w :: 'z world_scheme. only_marks i d0 (w_db w)) (db_call (q_upsert_tracker_account p))"
  "keeps (\<lambda>w :: 'z world_scheme. only_marks i d0 (w_db w)) (db_call (q_delete_tracker_account_by_type key))"
  "keeps (\<lambda>w :: 'z world_scheme. only_marks i d0 (w_db w)) (db_call (q_upsert_tracker_link (link_params_of i k t)))"
  "keeps (\<lambda>w :: 'z world_scheme. only_marks i d0 (w_db w)) (db_call (q_mark_chapters_read_up_to_number i n))"
  "keeps (\<lambda>w :: 'z world_scheme. only_marks i d0 (w_db w)) (db_call (select_all f))"
  "keeps (\<lambda>w :: 'z world_scheme. only_marks i d0 (w_db w)) (db_call (select_one g))"
       apply (rule keeps_marks_db_call, simp add: q_upsert_tracker_account_def case_prod_unfold elsewhere_def links_of_others_def)
      apply (rule keeps_db_call, simp add: only_marks_delete)
     apply (rule keeps_marks_db_call, simp add: upsert_link_other link_params_of_def)
    apply (rule keeps_db_call, simp add: only_marks_mark)
   apply (rule keeps_marks_db_call, simp add: select_all_def)
  apply (rule keeps_marks_db_call, simp add: select_one_def split: option.split)
  done

lemma keeps_marks_call_service [keeps_intros]:
  "keeps (\<lambda>w :: 'z tracker_world_scheme. I (w_db w)) (call_service svc c answer)"
proof (rule keepsI)
  fix w :: "'z tracker_world_scheme" assume w: "I (w_db w)"
  obtain r w' where r: "call_service svc c answer w = (r, w')" by fastforce
  show "I (w_db (snd (call_service svc c answer w)))" using w call_service_result(3) [OF r] r by simp
qed

lemma keeps_db_modify_keys [keeps_intros]: "(\<And>w. w_db (f w) = w_db w) \<Longrightarrow> keeps (\<lambda>w. I (w_db w)) (modify f)"
  by (simp add: keeps_def modify_def)

lemma keeps_marks_sync:
  "keeps (\<lambda>w :: 'z tracker_world_scheme. only_marks i d0 (w_db w)) (sync_media_progress svcs i)"
  unfolding sync_media_progress_def sync_link_def load_by_account_id_def key_for_account_id_def load_tracker_def
    fresh_auth_def pull_progress_def push_progress_def persist_track_def give_up_def check_reauth_def max_read_def
    q_list_tracker_links_by_media_def q_list_tracker_accounts_def q_get_tracker_account_def
    q_max_read_chapter_number_def q_list_completed_chapter_titles_def Let_def
  by (intro keeps_intros) simp_all

subsection \<open>While the logins hold\<close>

text \<open>No tracker rejects a call by asking for a new login, and no failing call looks like that.\<close>

definition login_holds :: "(history \<Rightarrow> go_err + 'x) \<Rightarrow> bool" where
  "login_holds answer \<longleftrightarrow> (\<forall>h e. answer h = Inl e \<longrightarrow> \<not> err_is e ErrReauth)"

definition logins_hold :: "service list \<Rightarrow> bool" where
  "logins_hold svcs \<longleftrightarrow> (\<forall>svc \<in> set svcs. login_holds (sv_refresh svc) \<and> login_holds (sv_push svc) \<and>
     (\<forall>f. sv_refresh_auth svc = Some f \<longrightarrow> login_holds f))"

definition no_reauth_fault :: "'z world_scheme \<Rightarrow> bool" where
  "no_reauth_fault w \<longleftrightarrow> (\<forall>e. Some e \<in> set (w_faults w) \<longrightarrow> \<not> err_is e ErrReauth)"

abbreviation links_stay :: "int \<Rightarrow> db \<Rightarrow> 'z tracker_world_scheme \<Rightarrow> bool" where
  "links_stay i d \<equiv> \<lambda>w. no_reauth_fault w \<and> links_of_others i (w_db w) = links_of_others i d"

lemma next_fault_no_reauth:
  "next_fault w = (f, w') \<Longrightarrow> no_reauth_fault w \<Longrightarrow>
    no_reauth_fault w' \<and> w_db w' = w_db w \<and> (\<forall>e. f = Some e \<longrightarrow> \<not> err_is e ErrReauth)"
  by (cases "w_faults w") (auto simp: next_fault_def no_reauth_fault_def)

lemma keeps_links_db_call:
  assumes "\<And>now d. links_of_others i (snd (q now d)) = links_of_others i d"
  shows "keeps (links_stay i d0 :: 'z tracker_world_scheme \<Rightarrow> bool) (db_call q)"
proof (rule keepsI)
  fix w :: "'z tracker_world_scheme" assume w: "links_stay i d0 w"
  obtain f w1 where f: "next_fault w = (f, w1)" by fastforce
  then have w1: "no_reauth_fault w1" "w_db w1 = w_db w" using next_fault_no_reauth w by blast+
  obtain r d where q: "q (w_now w1) (w_db w1) = (r, d)" by fastforce
  have "links_of_others i d = links_of_others i d0" using assms [of "w_now w1" "w_db w1"] q w w1(2) by simp
  moreover have "no_reauth_fault (w1\<lparr>w_db := d\<rparr>)" using w1(1) by (simp add: no_reauth_fault_def)
  moreover have "db_call q w = (case f of None \<Rightarrow> (r, w1\<lparr>w_db := d\<rparr>) | Some e \<Rightarrow> (Inl e, w1))"
    by (simp add: db_call_def f q split: option.split)
  ultimately show "links_stay i d0 (snd (db_call q w))" using w w1 by (cases f) simp_all
qed

lemma keeps_links_statements [keeps_intros]:
  "keeps (links_stay i d0 :: 'z tracker_world_scheme \<Rightarrow> bool) (db_call (q_upsert_tracker_account p))"
  "keeps (links_stay i d0 :: 'z tracker_world_scheme \<Rightarrow> bool) (db_call (q_upsert_tracker_link (link_params_of i k t)))"
  "keeps (links_stay i d0 :: 'z tracker_world_scheme \<Rightarrow> bool) (db_call (q_mark_chapters_read_up_to_number i n))"
  "keeps (links_stay i d0 :: 'z tracker_world_scheme \<Rightarrow> bool) (db_call (select_all f))"
  "keeps (links_stay i d0 :: 'z tracker_world_scheme \<Rightarrow> bool) (db_call (select_one g))"
      apply (rule keeps_links_db_call, simp add: q_upsert_tracker_account_def case_prod_unfold links_of_others_def)
     apply (rule keeps_links_db_call, simp add: upsert_link_other link_params_of_def)
    apply (rule keeps_links_db_call, simp add: q_mark_chapters_read_up_to_number_def exec_def links_of_others_def)
   apply (rule keeps_links_db_call, simp add: select_all_def)
  apply (rule keeps_links_db_call, simp add: select_one_def split: option.split)
  done

lemma keeps_links_modify [keeps_intros]:
  "keeps (links_stay i d0 :: 'z tracker_world_scheme \<Rightarrow> bool) (modify (\<lambda>w. w\<lparr>tw_account_keys := k\<rparr>))"
  by (simp add: keeps_def modify_def no_reauth_fault_def)

lemma keeps_links_call:
  assumes "login_holds answer" "\<And>e. \<not> err_is e ErrReauth \<Longrightarrow> keeps (links_stay i d0 :: 'z tracker_world_scheme \<Rightarrow> bool) (f (Inl e))"
    "\<And>x. keeps (links_stay i d0 :: 'z tracker_world_scheme \<Rightarrow> bool) (f (Inr x))"
  shows "keeps (links_stay i d0 :: 'z tracker_world_scheme \<Rightarrow> bool) (seq (attempt (call_service svc c answer)) f)"
proof (rule keepsI)
  fix w :: "'z tracker_world_scheme" assume w: "links_stay i d0 w"
  let ?w = "w\<lparr>tw_calls := tw_calls w @ [(sv_key svc, c)]\<rparr>"
  obtain g w1 where g: "next_fault ?w = (g, w1)" by fastforce
  have no_reauth: "no_reauth_fault ?w" using w by (simp add: no_reauth_fault_def)
  have w1: "links_stay i d0 w1" "\<forall>e. g = Some e \<longrightarrow> \<not> err_is e ErrReauth"
    using next_fault_no_reauth [OF g no_reauth] w by simp_all
  define r where "r = (case g of None \<Rightarrow> answer (tw_calls w @ [(sv_key svc, c)]) | Some e \<Rightarrow> Inl e)"
  have "call_service svc c answer w = (r, w1)"
    by (simp add: r_def call_service_def seq_def modify_def gets_def ask_def ext_call_def g split: option.split)
  moreover have "\<not> err_is e ErrReauth" if "r = Inl e" for e
    using that assms(1) w1(2) by (auto simp: r_def login_holds_def split: option.splits)
  then have "keeps (links_stay i d0 :: 'z tracker_world_scheme \<Rightarrow> bool) (f r)" using assms(2,3) by (cases r) auto
  ultimately show "links_stay i d0 (snd (seq (attempt (call_service svc c answer)) f w))"
    using w1(1) by (simp add: seq_def attempt_def keeps_def)
qed

lemma keeps_attempt_result:
  assumes "keeps I m" "\<And>e. keeps I (f (Inl e))" "\<And>x s s'. m s = (Inr x, s') \<Longrightarrow> keeps I (f (Inr x))"
  shows "keeps I (seq (attempt m) f)"
proof (rule keepsI)
  fix s assume s: "I s"
  obtain r s' where m: "m s = (r, s')" by (cases "m s")
  then have "I s'" using keepsD [OF assms(1) s] by blast
  then show "I (snd (seq (attempt m) f s))" using assms(2,3) m by (cases r) (auto simp: seq_def attempt_def keeps_def)
qed

lemma give_up_login_holds: "\<not> err_is e ErrReauth \<Longrightarrow> give_up acct e x = ret x"
  by (rule ext) (simp add: give_up_def check_reauth_def seq_def ignore_def fail_def ret_def)

lemma keeps_links_load:
  assumes "logins_hold svcs"
  shows "keeps (links_stay i d0 :: 'z tracker_world_scheme \<Rightarrow> bool) (load_by_account_id svcs k)"
proof -
  have fresh: "keeps (links_stay i d0 :: 'z tracker_world_scheme \<Rightarrow> bool) (fresh_auth key svc a)" if "svc \<in> set svcs" for key svc a
  proof (cases "\<exists>f t. sv_refresh_auth svc = Some f \<and> au_expires_at a = Some t")
    case False
    then show ?thesis unfolding fresh_auth_def by (intro keeps_seq keeps_gets) (auto simp: keeps_ret split: option.split)
  next
    case True
    then obtain f t where f: "sv_refresh_auth svc = Some f" "au_expires_at a = Some t" by blast
    then have "login_holds f" using assms that by (auto simp: logins_hold_def)
    then show ?thesis
      unfolding fresh_auth_def f prod.case option.case
      by (intro keeps_seq keeps_gets keeps_if keeps_links_call keeps_ret) (simp_all add: keeps_ret keeps_intros)
  qed
  have "svc \<in> set svcs" if "service_of svcs key = Some svc" for svc key
    using that by (auto simp: service_of_def dest!: find_SomeD)
  then have "keeps (links_stay i d0 :: 'z tracker_world_scheme \<Rightarrow> bool) (load_tracker svcs key)" for key
    unfolding load_tracker_def q_get_tracker_account_def
    by (cases "service_of svcs key") (auto intro!: keeps_intros fresh)
  then show ?thesis
    unfolding load_by_account_id_def key_for_account_id_def q_list_tracker_accounts_def Let_def
    by (intro keeps_intros)
qed

lemma keeps_links_sync:
  assumes "logins_hold svcs"
  shows "keeps (links_stay i d0 :: 'z tracker_world_scheme \<Rightarrow> bool) (sync_media_progress svcs i)"
proof -
  have held: "login_holds (sv_refresh svc)" "login_holds (sv_push svc)" if "svc \<in> set svcs" for svc
    using assms that by (simp_all add: logins_hold_def)
  have "keeps (links_stay i d0 :: 'z tracker_world_scheme \<Rightarrow> bool) (push_progress acct svc a m t)" if "svc \<in> set svcs" for acct svc a m t
    unfolding push_progress_def
    by (intro keeps_intros keeps_links_call held that) (simp_all add: give_up_login_holds keeps_intros)
  then have "keeps (links_stay i d0 :: 'z tracker_world_scheme \<Rightarrow> bool) (sync_link svcs i m link)" for m link
    unfolding sync_link_def
  proof (intro keeps_if keeps_ret keeps_attempt_result keeps_links_load [OF assms], goal_cases)
    case (1 e)
    then show ?case by (simp add: keeps_ret)
  next
    case (2 x s s')
    obtain acct svc a where x: "x = (acct, svc, a)" by (cases x)
    then have svc: "svc \<in> set svcs" using 2 loaded_service by blast
    note push = \<open>\<And>svc acct a m t. svc \<in> set svcs \<Longrightarrow> keeps (links_stay i d0 :: 'z tracker_world_scheme \<Rightarrow> bool) (push_progress acct svc a m t)\<close> [OF svc]
    show ?case
      unfolding x sum.case prod.case
      by (rule keeps_links_call [OF held(1) [OF svc]])
        (auto simp: give_up_login_holds pull_progress_def persist_track_def intro!: keeps_intros push)
  qed
  then show ?thesis
    unfolding sync_media_progress_def max_read_def q_list_tracker_links_by_media_def q_max_read_chapter_number_def
      q_list_completed_chapter_titles_def Let_def
    by (intro keeps_intros)
qed

text \<open>
  C38: Reconciling the progress of an entry only raises: every push to a tracker follows a refresh of
  that tracker at once and is what the refresh reported with a larger chapter number (and a status
  that at least says reading), so no tracker is set back whatever it answers. In the library no chapter
  is unmarked, and every progress row that is new or changed marks a numbered chapter of this entry as
  completed; no table but the progress, the tracker links and the tracker accounts changes. No link of
  another entry is added or changed; one can only be lost, together with all the others of its account,
  when a tracker asks for a new login: while none does (and no failing call says so), the links of the
  other entries are the same.
\<close>

theorem reconciling_only_raises:
  fixes w :: "'z tracker_world_scheme" and svcs :: "service list" and i :: int
  defines "w' \<equiv> snd (sync_media_progress svcs i w)"
  shows "pushes_raise svcs (length (tw_calls w)) (tw_calls w') \<and> only_marks i (w_db w) (w_db w') \<and>
    (logins_hold svcs \<and> no_reauth_fault w \<longrightarrow> links_of_others i (w_db w') = links_of_others i (w_db w))"
  unfolding w'_def
proof (intro conjI impI)
  have "keeps (raising svcs n :: 'z tracker_world_scheme \<Rightarrow> bool) (sync_media_progress svcs i)" for n
    unfolding sync_media_progress_def max_read_def Let_def by (intro keeps_intros sync_link_raising)
  then show "pushes_raise svcs (length (tw_calls w)) (tw_calls (snd (sync_media_progress svcs i w)))"
    by (simp add: keeps_def)
  show "only_marks i (w_db w) (w_db (snd (sync_media_progress svcs i w)))"
    by (rule keepsD [OF keeps_marks_sync only_marks_refl prod.collapse [symmetric]])
  assume "logins_hold svcs \<and> no_reauth_fault w"
  then show "links_of_others i (w_db (snd (sync_media_progress svcs i w))) = links_of_others i (w_db w)"
    using keepsD [OF keeps_links_sync [of svcs i "w_db w"] _ prod.collapse [symmetric], of w] by simp
qed

section \<open>An expired session\<close>

lemma call_service_free:
  "fault_free w \<Longrightarrow> call_service svc c answer w =
     (answer (tw_calls w @ [(sv_key svc, c)]), w\<lparr>tw_calls := tw_calls w @ [(sv_key svc, c)]\<rparr>)"
  by (simp add: call_service_def seq_def modify_def gets_def)

lemma distinct_key_filter:
  "distinct (map k xs) \<Longrightarrow> x \<in> set xs \<Longrightarrow> filter (\<lambda>y. k y = k x) xs = [x]"
proof (induction xs)
  case (Cons y ys)
  show ?case
  proof (cases "y = x")
    case True
    then have "filter (\<lambda>y. k y = k x) ys = []" using Cons.prems(1) by (auto simp: filter_empty_conv intro: rev_image_eqI)
    then show ?thesis using True by simp
  next
    case False
    then have x: "x \<in> set ys" using Cons.prems(2) by simp
    then have "k y \<noteq> k x" using Cons.prems(1) by (auto intro: rev_image_eqI)
    then show ?thesis using Cons x by simp
  qed
qed simp

text \<open>
  When a tracker asks for a new login, its links are lost: an update that the tracker rejects with
  \<open>ErrReauth\<close> deletes the account, and with it the links of every entry to that tracker, so logging
  in again does not bring them back; the links to other trackers stay.
\<close>

theorem expired_session_drops_links:
  assumes "fault_free w" "tracker_tables_ok (w_db w)" "tw_account_keys w = None"
    "find (\<lambda>l. tl_id l = i) (tracker_links (w_db w)) = Some link"
    "acct \<in> set (tracker_accounts (w_db w))" "ta_id acct = tl_account link" "ta_type acct \<noteq> []" "ta_expires_at acct = None"
    "service_of svcs (ta_type acct) = Some svc" "\<And>h. sv_push svc h = Inl ErrReauth"
  shows "\<exists>w'. update_link svcs i status score n w = (Inl (session_expired (ta_type acct)), w') \<and>
    tracker_accounts (w_db w') = filter (\<lambda>a. ta_type a \<noteq> ta_type acct) (tracker_accounts (w_db w)) \<and>
    tracker_links (w_db w') = filter (\<lambda>l. tl_account l \<noteq> ta_id acct) (tracker_links (w_db w))"
proof -
  have d: "distinct (map ta_id (tracker_accounts (w_db w)))" "distinct (map ta_type (tracker_accounts (w_db w)))"
    using assms(2) by (simp_all add: tracker_tables_ok_def)
  have key: "map_of (map (\<lambda>a. (ta_id a, ta_type a)) (tracker_accounts (w_db w))) (tl_account link) = Some (ta_type acct)"
    using d(1) assms(5,6) by (intro map_of_is_SomeI) (auto simp: o_def image_iff intro!: bexI [of _ acct])
  have acct: "find (\<lambda>a. ta_type a = ta_type acct) (tracker_accounts (w_db w)) = Some acct"
    using d(2) assms(5) by (rule distinct_key_find)
  have gone: "filter (\<lambda>a. ta_type a = ta_type acct) (tracker_accounts (w_db w)) = [acct]"
    using d(2) assms(5) by (rule distinct_key_filter)
  have only: "{a \<in> set (tracker_accounts (w_db w)). ta_type a = ta_type acct} = {acct}"
    using arg_cong [OF gone, of set] by simp
  show ?thesis
    using assms(1,3,4,7-10) key acct gone only
    by (simp add: update_link_def seq_def db_call_free q_get_tracker_link_def select_one_def load_by_account_id_def
        key_for_account_id_def gets_def attempt_def q_list_tracker_accounts_def select_all_def modify_def Let_def ret_def
        load_tracker_def q_get_tracker_account_def fresh_auth_def auth_from_account_def or_reauth_def call_service_free
        check_reauth_def ignore_def q_delete_tracker_account_by_type_def exec_def fail_def delete_where_def split: option.split)
qed

section \<open>A concrete tracker\<close>

text \<open>A tracker that knows nothing was read yet, accepts every push, or asks for a new login when it expired.\<close>

definition demo_track :: track where
  "demo_track = \<lparr>tk_remote_id = ''r1'', tk_library_id = [], tk_title = ''T'', tk_url = [], tk_status = 2,
     tk_last_chapter_read = 0, tk_total_chapters = 9, tk_score = 0, tk_started_at = None, tk_finished_at = None, tk_private = False\<rparr>"

definition demo_service :: "bool \<Rightarrow> service" where
  "demo_service expired = \<lparr>sv_key = ''demo'', sv_name = ''Demo'', sv_configured = True, sv_icon_url = [], sv_auth_url = [],
     sv_score_options = (\<lambda>_. []), sv_exchange = (\<lambda>_. Inl ErrNoRows), sv_complete = None, sv_search = (\<lambda>_. Inr []),
     sv_library = (\<lambda>_. Inr []), sv_bind = (\<lambda>_. Inr demo_track),
     sv_push = (\<lambda>h. if expired then Inl ErrReauth
        else (case last h of (_, CallPush _ t) \<Rightarrow> Inr t | _ \<Rightarrow> Inr demo_track)),
     sv_refresh = (\<lambda>_. Inr demo_track), sv_refresh_auth = None\<rparr>"

definition demo_account :: tracker_account where
  "demo_account = \<lparr>ta_id = 4, ta_type = ''demo'', ta_access_token = ''t'', ta_refresh_token = None,
     ta_expires_at = None, ta_username = ''u'', ta_score_format = []\<rparr>"

definition demo_links :: "tracker_link list" where
  "demo_links = map (\<lambda>(i, m). link_created (link_params_of m 4 demo_track) i) [(7, 1), (8, 2)]"

definition demo_tracker_world :: tracker_world where
  "demo_tracker_world = \<lparr>w_db = demo_library\<lparr>tracker_accounts := [demo_account], tracker_links := demo_links\<rparr>,
     w_now = 9, w_faults = [], tw_calls = [], tw_account_keys = None\<rparr>"

lemma demo_inv: "tracker_inv demo_tracker_world"
  by (simp add: tracker_inv_def tracker_tables_ok_def demo_tracker_world_def demo_links_def demo_account_def
      link_created_def link_params_of_def)

lemma tracker_tables_stay_well_typed_witness:
  "tracker_inv (snd (for_each (run_tracker [demo_service False]) [SyncMedia 1, Bind ''demo'' 2 ''x'', Logout ''demo''] demo_tracker_world))"
  by (rule tracker_tables_stay_well_typed [OF demo_inv])

text \<open>Chapter 1 was read here and not there: reconciling entry 1 refreshes and pushes, once each.\<close>

lemma demo_sync_pushes:
  "map (\<lambda>(k, c). case c of CallPush _ t \<Rightarrow> Some (tk_last_chapter_read t, tk_status t) | _ \<Rightarrow> None)
     (tw_calls (snd (sync_media_progress [demo_service False] 1 demo_tracker_world))) = [None, Some (1, status_reading)]"
  by code_simp

lemma reconciling_only_raises_witness:
  "links_of_others 1 (w_db (snd (sync_media_progress [demo_service False] 1 demo_tracker_world))) =
     links_of_others 1 (w_db demo_tracker_world) \<and> links_of_others 1 (w_db demo_tracker_world) \<noteq> {}"
proof -
  have "login_holds (sv_push (demo_service False))"
    unfolding login_holds_def by (auto simp: demo_service_def split: prod.splits tracker_call.splits)
  then have "logins_hold [demo_service False]"
    by (simp add: logins_hold_def) (simp add: login_holds_def demo_service_def)
  moreover have "no_reauth_fault demo_tracker_world" by (simp add: no_reauth_fault_def demo_tracker_world_def)
  ultimately have "links_of_others 1 (w_db (snd (sync_media_progress [demo_service False] 1 demo_tracker_world))) =
     links_of_others 1 (w_db demo_tracker_world)"
    using reconciling_only_raises [of "[demo_service False]" demo_tracker_world 1] by blast
  moreover have "link_created (link_params_of 2 4 demo_track) 8 \<in> links_of_others 1 (w_db demo_tracker_world)"
    by (simp add: links_of_others_def demo_tracker_world_def demo_links_def link_created_def link_params_of_def)
  ultimately show ?thesis by blast
qed

lemma expired_session_drops_links_witness:
  "tracker_links (w_db (snd (update_link [demo_service True] 7 (Some 3) None None demo_tracker_world))) = []"
proof -
  have "\<exists>w'. update_link [demo_service True] 7 (Some 3) None None demo_tracker_world =
      (Inl (session_expired (ta_type demo_account)), w') \<and>
    tracker_accounts (w_db w') = filter (\<lambda>a. ta_type a \<noteq> ta_type demo_account) (tracker_accounts (w_db demo_tracker_world)) \<and>
    tracker_links (w_db w') = filter (\<lambda>l. tl_account l \<noteq> ta_id demo_account) (tracker_links (w_db demo_tracker_world))"
    using demo_inv
    by (intro expired_session_drops_links [where link = "hd demo_links" and svc = "demo_service True"])
       (simp_all add: tracker_inv_def demo_tracker_world_def demo_links_def demo_account_def
         link_created_def link_params_of_def service_of_def demo_service_def)
  then show ?thesis
    by (auto simp: demo_tracker_world_def demo_links_def demo_account_def link_created_def link_params_of_def)
qed

end
