(* ===== verification/MediaCaches.thy ===== *)
theory MediaCaches
  imports Sandbox
begin

text \<open>
  The caches in front of the sandbox: \<open>segCache\<close> (\<open>internal/api/rest/segcache.go\<close>), a byte-bounded
  cache that evicts what was used least recently, the images of \<open>mangacache.go\<close> kept in one, and the
  page lists of \<open>internal/sandbox/pagecache.go\<close>, which expire. \<open>segCache\<close> is modelled with its linked
  list and its index: \<open>sc_list\<close> holds the elements of the list from front to back, \<open>sc_entry\<close> the value
  an element points to, \<open>sc_index\<close> the map from keys to elements. A mutex makes each of its operations
  one step; \<open>singleflight\<close> runs one of the concurrent calls for a key and hands its result to the others.
\<close>

section \<open>The segment cache\<close>

record seg_entry =
  sg_key :: string
  sg_data :: string
  sg_ct :: string

record seg_cache =
  sc_max :: int
  sc_size :: int
  sc_list :: "nat list"
  sc_entry :: "nat \<Rightarrow> seg_entry"
  sc_index :: "string \<Rightarrow> nat option"
  sc_next :: nat

definition new_seg_cache :: "int \<Rightarrow> seg_cache" where
  "new_seg_cache max_bytes = \<lparr>sc_max = max_bytes, sc_size = 0, sc_list = [],
     sc_entry = (\<lambda>_. \<lparr>sg_key = [], sg_data = [], sg_ct = []\<rparr>), sc_index = (\<lambda>_. None), sc_next = 0\<rparr>"

definition move_to_front :: "nat \<Rightarrow> seg_cache \<Rightarrow> seg_cache" where
  "move_to_front el c = c\<lparr>sc_list := el # remove1 el (sc_list c)\<rparr>"

definition seg_get :: "string \<Rightarrow> seg_cache \<Rightarrow> (string \<times> string) option \<times> seg_cache" where
  "seg_get key c = (case sc_index c key of
      None \<Rightarrow> (None, c)
    | Some el \<Rightarrow> (Some (sg_data (sc_entry c el), sg_ct (sc_entry c el)), move_to_front el c))"

definition blen :: "string \<Rightarrow> int" where
  "blen data = int (length data)"

definition drop_back :: "seg_cache \<Rightarrow> seg_cache" where
  "drop_back c = (let el = last (sc_list c); e = sc_entry c el in
     c\<lparr>sc_size := sc_size c - blen (sg_data e), sc_index := (sc_index c)(sg_key e := None),
       sc_list := butlast (sc_list c)\<rparr>)"

function evict :: "seg_cache \<Rightarrow> seg_cache" where
  "evict c = (if sc_size c > sc_max c \<and> sc_list c \<noteq> [] then evict (drop_back c) else c)"
  by pat_completeness auto
termination
  by (relation "measure (\<lambda>c. length (sc_list c))") (auto simp: drop_back_def Let_def)

declare evict.simps [simp del]

definition seg_put :: "string \<Rightarrow> string \<Rightarrow> string \<Rightarrow> seg_cache \<Rightarrow> seg_cache" where
  "seg_put key data ct c =
     (if blen data = 0 \<or> blen data > sc_max c then c
      else evict (case sc_index c key of
          Some el \<Rightarrow> move_to_front el (c\<lparr>sc_size := sc_size c + blen data - blen (sg_data (sc_entry c el)),
              sc_entry := (sc_entry c)(el := (sc_entry c el)\<lparr>sg_data := data, sg_ct := ct\<rparr>)\<rparr>)
        | None \<Rightarrow> c\<lparr>sc_list := sc_next c # sc_list c,
              sc_entry := (sc_entry c)(sc_next c := \<lparr>sg_key = key, sg_data = data, sg_ct = ct\<rparr>),
              sc_index := (sc_index c)(key := Some (sc_next c)), sc_size := sc_size c + blen data,
              sc_next := Suc (sc_next c)\<rparr>))"

section \<open>The cache as a list\<close>

text \<open>
  What the cache promises, without list elements and index: the pairs in the order of their last use,
  of which as many are kept as fit into \<open>max\<close> bytes.
\<close>

type_synonym lru = "(string \<times> string \<times> string) list"

definition lru_get :: "string \<Rightarrow> lru \<Rightarrow> (string \<times> string) option \<times> lru" where
  "lru_get key xs = (map_of xs key,
     (case map_of xs key of None \<Rightarrow> xs | Some v \<Rightarrow> (key, v) # filter (\<lambda>p. fst p \<noteq> key) xs))"

fun fitting :: "int \<Rightarrow> lru \<Rightarrow> lru" where
  "fitting n [] = []"
| "fitting n (p # xs) = (if blen (fst (snd p)) \<le> n then p # fitting (n - blen (fst (snd p))) xs else [])"

definition lru_put :: "int \<Rightarrow> string \<Rightarrow> string \<Rightarrow> string \<Rightarrow> lru \<Rightarrow> lru" where
  "lru_put max_bytes key data ct xs =
     (if data = [] \<or> blen data > max_bytes then xs
      else fitting max_bytes ((key, data, ct) # filter (\<lambda>p. fst p \<noteq> key) xs))"

definition entry_pair :: "seg_entry \<Rightarrow> string \<times> string \<times> string" where
  "entry_pair e = (sg_key e, sg_data e, sg_ct e)"

definition lru_of :: "seg_cache \<Rightarrow> lru" where
  "lru_of c = map (\<lambda>el. entry_pair (sc_entry c el)) (sc_list c)"

definition bytes_of :: "lru \<Rightarrow> int" where
  "bytes_of xs = sum_list (map (\<lambda>p. blen (fst (snd p))) xs)"

text \<open>The invariant of list, index and size; \<open>seg_ok\<close> adds the bound that holds between operations.\<close>

definition seg_inv :: "seg_cache \<Rightarrow> bool" where
  "seg_inv c \<longleftrightarrow> distinct (sc_list c) \<and> (\<forall>el \<in> set (sc_list c). el < sc_next c) \<and>
     distinct (map (\<lambda>el. sg_key (sc_entry c el)) (sc_list c)) \<and>
     (\<forall>k el. sc_index c k = Some el \<longleftrightarrow> el \<in> set (sc_list c) \<and> sg_key (sc_entry c el) = k) \<and>
     sc_size c = bytes_of (lru_of c) \<and> (\<forall>p \<in> set (lru_of c). fst (snd p) \<noteq> [])"

definition seg_ok :: "seg_cache \<Rightarrow> bool" where
  "seg_ok c \<longleftrightarrow> seg_inv c \<and> 0 \<le> sc_max c \<and> sc_size c \<le> sc_max c"

lemma seg_invI:
  assumes "distinct (map (\<lambda>el. sg_key (sc_entry c el)) (sc_list c))" "\<And>el. el \<in> set (sc_list c) \<Longrightarrow> el < sc_next c"
    "\<And>k el. sc_index c k = Some el \<longleftrightarrow> el \<in> set (sc_list c) \<and> sg_key (sc_entry c el) = k"
    "sc_size c = bytes_of (lru_of c)" "\<And>p. p \<in> set (lru_of c) \<Longrightarrow> fst (snd p) \<noteq> []"
  shows "seg_inv c"
  using assms by (simp add: seg_inv_def distinct_map)

lemma seg_invD:
  assumes "seg_inv c"
  shows "distinct (map (\<lambda>el. sg_key (sc_entry c el)) (sc_list c))" "distinct (sc_list c)"
    "el \<in> set (sc_list c) \<Longrightarrow> el < sc_next c"
    "sc_index c k = Some el \<longleftrightarrow> el \<in> set (sc_list c) \<and> sg_key (sc_entry c el) = k"
    "sc_size c = bytes_of (lru_of c)" "p \<in> set (lru_of c) \<Longrightarrow> fst (snd p) \<noteq> []"
  using assms by (simp_all add: seg_inv_def)

lemma bytes_of_simps [simp]: "bytes_of [] = 0" "bytes_of (p # xs) = blen (fst (snd p)) + bytes_of xs"
  "bytes_of (xs @ ys) = bytes_of xs + bytes_of ys"
  by (simp_all add: bytes_of_def)

lemma blen_nonneg [simp]: "0 \<le> blen x" by (simp add: blen_def)

lemma blen_0 [simp]: "blen x = 0 \<longleftrightarrow> x = []" by (simp add: blen_def)

lemma bytes_of_nonneg [simp]: "0 \<le> bytes_of xs"
  by (induction xs) auto

lemma seg_ok_new: "0 \<le> n \<Longrightarrow> seg_ok (new_seg_cache n)"
  by (simp add: seg_ok_def seg_inv_def new_seg_cache_def lru_of_def)

lemma lru_of_new [simp]: "lru_of (new_seg_cache n) = []"
  by (simp add: lru_of_def new_seg_cache_def)

subsection \<open>Looking up\<close>

lemma map_of_distinct_map:
  assumes "distinct (map k xs)" "el \<in> set xs"
  shows "map_of (map (\<lambda>x. (k x, f x)) xs) (k el) = Some (f el)"
  using assms by (induction xs) (auto simp: rev_image_eqI)

lemma lru_index:
  assumes "seg_inv c"
  shows "map_of (lru_of c) key = map_option (\<lambda>el. (sg_data (sc_entry c el), sg_ct (sc_entry c el))) (sc_index c key)"
proof (cases "sc_index c key")
  case (Some el)
  then have "el \<in> set (sc_list c)" "sg_key (sc_entry c el) = key" using assms by (simp_all add: seg_inv_def)
  then show ?thesis
    using Some map_of_distinct_map [OF seg_invD(1) [OF assms], of el "\<lambda>el. (sg_data (sc_entry c el), sg_ct (sc_entry c el))"]
    by (simp add: lru_of_def entry_pair_def)
next
  case None
  have "key \<noteq> sg_key (sc_entry c el)" if "el \<in> set (sc_list c)" for el
    using seg_invD(4) [OF assms, of key el] None that by auto
  then have "key \<notin> (\<lambda>el. sg_key (sc_entry c el)) ` set (sc_list c)" by blast
  then have "key \<notin> fst ` set (lru_of c)" by (simp add: lru_of_def entry_pair_def image_image)
  then show ?thesis using None by (simp add: map_of_eq_None_iff)
qed

lemma remove1_key:
  assumes "distinct (map k xs)" "el \<in> set xs"
  shows "remove1 el xs = filter (\<lambda>x. k x \<noteq> k el) xs"
  using assms
proof (induction xs)
  case (Cons x xs)
  show ?case
  proof (cases "x = el")
    case True
    then have "filter (\<lambda>x. k x \<noteq> k el) xs = xs" using Cons.prems(1) by (auto simp: filter_id_conv intro: rev_image_eqI)
    then show ?thesis using True by simp
  next
    case False
    then have e: "el \<in> set xs" using Cons.prems(2) by simp
    then have "k x \<noteq> k el" using Cons.prems(1) by (auto intro: rev_image_eqI)
    then show ?thesis using Cons e False by simp
  qed
qed simp

lemma bytes_of_remove:
  assumes "distinct (map fst xs)" "(key, v) \<in> set xs"
  shows "bytes_of (filter (\<lambda>p. fst p \<noteq> key) xs) = bytes_of xs - blen (fst v)"
  using assms
proof (induction xs)
  case (Cons p xs)
  show ?case
  proof (cases "p = (key, v)")
    case True
    then have "filter (\<lambda>p. fst p \<noteq> key) xs = xs" using Cons.prems(1) by (auto simp: filter_id_conv intro: rev_image_eqI)
    then show ?thesis using True by simp
  next
    case False
    then have "(key, v) \<in> set xs" using Cons.prems(2) by simp
    moreover from this have "fst p \<noteq> key" using Cons.prems(1) by (auto intro: rev_image_eqI)
    ultimately show ?thesis using Cons by simp
  qed
qed simp

text \<open>Moving an element to the front, with its value replaced by one of the same key.\<close>

lemma touch_lru:
  fixes n :: int
  assumes "seg_inv c" "sc_index c key = Some el" "sg_key e = key"
  defines "c' \<equiv> move_to_front el (c\<lparr>sc_size := n, sc_entry := (sc_entry c)(el := e)\<rparr>)"
  shows "lru_of c' = entry_pair e # filter (\<lambda>p. fst p \<noteq> key) (lru_of c)"
    "sg_data e \<noteq> [] \<Longrightarrow> n = sc_size c + blen (sg_data e) - blen (sg_data (sc_entry c el)) \<Longrightarrow> seg_inv c'"
proof -
  let ?k = "\<lambda>x. sg_key (sc_entry c x)"
  have el: "el \<in> set (sc_list c)" "?k el = key" using seg_invD(4) [OF assms(1)] assms(2) by simp_all
  note d = seg_invD(1,2) [OF assms(1)]
  have l: "sc_list c' = el # filter (\<lambda>x. ?k x \<noteq> key) (sc_list c)"
    using remove1_key [OF d(1) el(1)] el(2) by (simp add: c'_def move_to_front_def)
  show lru: "lru_of c' = entry_pair e # filter (\<lambda>p. fst p \<noteq> key) (lru_of c)"
    unfolding lru_of_def l using el(2)
    by (auto simp: c'_def move_to_front_def filter_map o_def entry_pair_def intro!: map_cong)
  assume ne: "sg_data e \<noteq> []" and n: "n = sc_size c + blen (sg_data e) - blen (sg_data (sc_entry c el))"
  have keys: "sg_key (sc_entry c' x) = ?k x" for x
    using assms(3) el(2) by (simp add: c'_def move_to_front_def)
  have "distinct (map ?k (filter (\<lambda>x. ?k x \<noteq> key) (sc_list c)))" using d(1) by (rule distinct_map_filter)
  then have 1: "distinct (map (\<lambda>x. sg_key (sc_entry c' x)) (sc_list c'))" by (auto simp: keys l el(2))
  have 2: "distinct (sc_list c')" using 1 by (simp add: distinct_map)
  have "x \<in> set (filter (\<lambda>x. ?k x \<noteq> key) (sc_list c))" if "x \<in> set (sc_list c)" "x \<noteq> el" for x
    using inj_onD [OF conjunct2 [OF d(1) [unfolded distinct_map]], of x el] el that by auto
  then have s: "set (sc_list c') = set (sc_list c)" unfolding l using el(1) by auto
  have "(key, sg_data (sc_entry c el), sg_ct (sc_entry c el)) \<in> set (lru_of c)"
    unfolding lru_of_def set_map by (rule image_eqI [OF _ el(1)]) (simp only: entry_pair_def el(2))
  moreover have "distinct (map fst (lru_of c))" using d(1) by (simp add: lru_of_def entry_pair_def o_def)
  ultimately have size: "sc_size c' = bytes_of (lru_of c')"
    using n seg_invD(5) [OF assms(1)] unfolding lru
    by (subst bytes_of_simps(2), subst bytes_of_remove) (auto simp: c'_def move_to_front_def entry_pair_def)
  show "seg_inv c'"
  proof (rule seg_invI [OF 1 _ _ size])
    show "x < sc_next c'" if "x \<in> set (sc_list c')" for x
      using seg_invD(3) [OF assms(1), of x] that [unfolded s] by (simp add: c'_def move_to_front_def)
    show "sc_index c' k = Some x \<longleftrightarrow> x \<in> set (sc_list c') \<and> sg_key (sc_entry c' x) = k" for k x
      unfolding keys s using seg_invD(4) [OF assms(1), of k x] by (simp add: c'_def move_to_front_def)
    show "fst (snd p) \<noteq> []" if "p \<in> set (lru_of c')" for p
      using that ne seg_invD(6) [OF assms(1), of p] unfolding lru by (auto simp: entry_pair_def)
  qed
qed

lemma seg_get_refines:
  assumes "seg_inv c" "seg_get key c = (r, c')"
  shows "lru_get key (lru_of c) = (r, lru_of c')" "seg_inv c'" "sc_max c' = sc_max c" "sc_size c' = sc_size c"
proof -
  have "lru_get key (lru_of c) = (r, lru_of c') \<and> seg_inv c' \<and> sc_max c' = sc_max c \<and> sc_size c' = sc_size c"
  proof (cases "sc_index c key")
    case None
    then show ?thesis using assms lru_index [OF assms(1), of key] by (auto simp: seg_get_def lru_get_def)
  next
    case (Some el)
    have el: "el \<in> set (sc_list c)" "sg_key (sc_entry c el) = key" using seg_invD(4) [OF assms(1)] Some by simp_all
    have c': "c' = move_to_front el (c\<lparr>sc_size := sc_size c, sc_entry := (sc_entry c)(el := sc_entry c el)\<rparr>)"
      using assms(2) Some by (simp add: seg_get_def)
    have "entry_pair (sc_entry c el) \<in> set (lru_of c)" using el(1) by (simp add: lru_of_def)
    then have "sg_data (sc_entry c el) \<noteq> []" using seg_invD(6) [OF assms(1)] by (fastforce simp: entry_pair_def)
    then show ?thesis
      using touch_lru [OF assms(1) Some el(2), of "sc_size c"] assms(2) Some lru_index [OF assms(1), of key] el(2)
      unfolding c' by (auto simp: seg_get_def lru_get_def entry_pair_def move_to_front_def)
  qed
  then show "lru_get key (lru_of c) = (r, lru_of c')" "seg_inv c'" "sc_max c' = sc_max c" "sc_size c' = sc_size c"
    by blast+
qed

subsection \<open>Evicting\<close>

lemma fitting_all: "bytes_of xs \<le> n \<Longrightarrow> fitting n xs = xs"
proof (induction xs arbitrary: n)
  case (Cons p xs)
  have "blen (fst (snd p)) \<le> n" using Cons.prems bytes_of_nonneg [of xs] by (simp del: bytes_of_nonneg)
  then show ?case using Cons by simp
qed simp

lemma fitting_drop_last:
  "n < bytes_of (xs @ [p]) \<Longrightarrow> fitting n (xs @ [p]) = fitting n xs"
  by (induction xs arbitrary: n) auto

lemma bytes_fitting: "0 \<le> n \<Longrightarrow> bytes_of (fitting n xs) \<le> n"
  by (induction n xs rule: fitting.induct) auto

lemma drop_back_refines:
  assumes "seg_inv c" "sc_list c \<noteq> []"
  shows "lru_of c = lru_of (drop_back c) @ [entry_pair (sc_entry c (last (sc_list c)))]" "seg_inv (drop_back c)"
    "sc_max (drop_back c) = sc_max c"
proof -
  let ?el = "last (sc_list c)"
  have l: "sc_list c = butlast (sc_list c) @ [?el]" using assms(2) by simp
  have d: "sc_list (drop_back c) = butlast (sc_list c)" "sc_entry (drop_back c) = sc_entry c" "sc_next (drop_back c) = sc_next c"
    "sc_size (drop_back c) = sc_size c - blen (sg_data (sc_entry c ?el))"
    "sc_index (drop_back c) = (sc_index c)(sg_key (sc_entry c ?el) := None)" "sc_max (drop_back c) = sc_max c"
    by (simp_all add: drop_back_def Let_def)
  show "sc_max (drop_back c) = sc_max c" by (rule d(6))
  show lru: "lru_of c = lru_of (drop_back c) @ [entry_pair (sc_entry c ?el)]"
    unfolding lru_of_def d by (subst l) simp
  have keys: "distinct (map (\<lambda>x. sg_key (sc_entry c x)) (butlast (sc_list c) @ [?el]))"
    using assms(1) l by (simp add: seg_inv_def)
  have mem: "x \<in> set (sc_list c) \<longleftrightarrow> x \<in> set (butlast (sc_list c)) \<or> x = ?el" for x
    by (subst l) auto
  show "seg_inv (drop_back c)"
  proof (rule seg_invI, unfold d)
    show "distinct (map (\<lambda>el. sg_key (sc_entry c el)) (butlast (sc_list c)))" using keys by simp
    show "x < sc_next c" if "x \<in> set (butlast (sc_list c))" for x using that mem seg_invD(3) [OF assms(1)] by blast
    have "sg_key (sc_entry c x) \<noteq> sg_key (sc_entry c ?el)" if "x \<in> set (butlast (sc_list c))" for x
      using keys that by (auto intro: rev_image_eqI)
    then show "((sc_index c)(sg_key (sc_entry c ?el) := None)) k = Some x \<longleftrightarrow>
        x \<in> set (butlast (sc_list c)) \<and> sg_key (sc_entry c x) = k" for k x
      using seg_invD(4) [OF assms(1), of k x] mem [of x] by auto
    show "sc_size c - blen (sg_data (sc_entry c ?el)) = bytes_of (lru_of (drop_back c))"
      using seg_invD(5) [OF assms(1)] lru by (simp add: entry_pair_def)
    show "fst (snd p) \<noteq> []" if "p \<in> set (lru_of (drop_back c))" for p
      using seg_invD(6) [OF assms(1), of p] that lru by simp
  qed
qed

lemma evict_refines:
  "seg_inv c \<Longrightarrow> 0 \<le> sc_max c \<Longrightarrow> lru_of (evict c) = fitting (sc_max c) (lru_of c) \<and> seg_inv (evict c) \<and> sc_max (evict c) = sc_max c"
proof (induction c rule: evict.induct)
  case (1 c)
  show ?case
  proof (cases "sc_size c > sc_max c \<and> sc_list c \<noteq> []")
    case True
    note d = drop_back_refines [OF "1.prems"(1) conjunct2 [OF True]]
    have "sc_max c < bytes_of (lru_of (drop_back c) @ [entry_pair (sc_entry c (last (sc_list c)))])"
      using True "1.prems"(1) d(1) by (simp add: seg_inv_def)
    then have "fitting (sc_max c) (lru_of c) = fitting (sc_max c) (lru_of (drop_back c))"
      using d(1) fitting_drop_last by metis
    then show ?thesis using "1.IH" [OF True d(2)] "1.prems"(2) d(3) True by (subst (1 2 3) evict.simps) simp
  next
    case False
    have "bytes_of (lru_of c) \<le> sc_max c"
      using False "1.prems" by (auto simp: seg_inv_def lru_of_def not_less)
    then show ?thesis using "1.prems" False by (subst (1 2 3) evict.simps) (auto simp: fitting_all)
  qed
qed

lemma seg_put_refines:
  assumes "seg_ok c"
  shows "lru_of (seg_put key data ct c) = lru_put (sc_max c) key data ct (lru_of c)" "seg_ok (seg_put key data ct c)"
    "sc_max (seg_put key data ct c) = sc_max c"
proof -
  have inv: "seg_inv c" and max: "0 \<le> sc_max c" using assms by (simp_all add: seg_ok_def)
  let ?put = "seg_put key data ct c"
  have "lru_of ?put = lru_put (sc_max c) key data ct (lru_of c) \<and> seg_ok ?put \<and> sc_max ?put = sc_max c"
  proof (cases "data = [] \<or> blen data > sc_max c")
    case True
    then show ?thesis using assms by (simp add: seg_put_def lru_put_def)
  next
    case False
    define c1 where "c1 = (case sc_index c key of
          Some el \<Rightarrow> move_to_front el (c\<lparr>sc_size := sc_size c + blen data - blen (sg_data (sc_entry c el)),
              sc_entry := (sc_entry c)(el := (sc_entry c el)\<lparr>sg_data := data, sg_ct := ct\<rparr>)\<rparr>)
        | None \<Rightarrow> c\<lparr>sc_list := sc_next c # sc_list c,
              sc_entry := (sc_entry c)(sc_next c := \<lparr>sg_key = key, sg_data = data, sg_ct = ct\<rparr>),
              sc_index := (sc_index c)(key := Some (sc_next c)), sc_size := sc_size c + blen data,
              sc_next := Suc (sc_next c)\<rparr>)"
    have c1: "lru_of c1 = (key, data, ct) # filter (\<lambda>p. fst p \<noteq> key) (lru_of c) \<and> seg_inv c1 \<and> sc_max c1 = sc_max c"
    proof (cases "sc_index c key")
      case (Some el)
      then have "sg_key (sc_entry c el) = key" using seg_invD(4) [OF inv] by simp
      then show ?thesis
        using touch_lru [OF inv Some, of "(sc_entry c el)\<lparr>sg_data := data, sg_ct := ct\<rparr>"] False Some
        by (simp add: c1_def entry_pair_def move_to_front_def)
    next
      case None
      have new: "sc_next c \<notin> set (sc_list c)" using seg_invD(3) [OF inv, of "sc_next c"] by auto
      have key: "sg_key (sc_entry c el) \<noteq> key" if "el \<in> set (sc_list c)" for el
        using seg_invD(4) [OF inv, of key el] None that by simp
      have c1: "sc_list c1 = sc_next c # sc_list c" "sc_next c1 = Suc (sc_next c)" "sc_size c1 = sc_size c + blen data"
        "sc_entry c1 = (sc_entry c)(sc_next c := \<lparr>sg_key = key, sg_data = data, sg_ct = ct\<rparr>)"
        "sc_index c1 = (sc_index c)(key := Some (sc_next c))" "sc_max c1 = sc_max c"
        using None by (simp_all add: c1_def)
      have lru: "lru_of c1 = (key, data, ct) # lru_of c"
        unfolding lru_of_def c1 using new by (auto simp: entry_pair_def intro!: map_cong)
      have "filter (\<lambda>p. fst p \<noteq> key) (lru_of c) = lru_of c"
        using key by (auto simp: filter_id_conv lru_of_def entry_pair_def)
      moreover have "seg_inv c1"
      proof (rule seg_invI)
        have "map (\<lambda>el. sg_key (sc_entry c1 el)) (sc_list c) = map (\<lambda>el. sg_key (sc_entry c el)) (sc_list c)"
          unfolding c1 using new by auto
        moreover have "key \<notin> (\<lambda>el. sg_key (sc_entry c el)) ` set (sc_list c)" using key by blast
        moreover have "sg_key (sc_entry c1 (sc_next c)) = key" by (simp add: c1)
        ultimately show "distinct (map (\<lambda>el. sg_key (sc_entry c1 el)) (sc_list c1))"
          unfolding c1(1) list.map distinct.simps using seg_invD(1) [OF inv] by (metis list.set_map)
        show "x < sc_next c1" if "x \<in> set (sc_list c1)" for x
          using that seg_invD(3) [OF inv, of x] by (auto simp: c1)
        show "sc_index c1 k = Some x \<longleftrightarrow> x \<in> set (sc_list c1) \<and> sg_key (sc_entry c1 x) = k" for k x
          using seg_invD(4) [OF inv, of k x] new key [of x] by (auto simp: c1)
        show "sc_size c1 = bytes_of (lru_of c1)" using seg_invD(5) [OF inv] by (simp add: lru c1)
        show "fst (snd p) \<noteq> []" if "p \<in> set (lru_of c1)" for p
          using that seg_invD(6) [OF inv, of p] False by (auto simp: lru)
      qed
      ultimately show ?thesis by (simp add: lru c1)
    qed
    have "?put = evict c1" using False by (simp add: seg_put_def c1_def)
    then show ?thesis
      using evict_refines [of c1] c1 max False bytes_fitting [OF max, of "lru_of c1"] seg_invD(5) [of "evict c1"]
      by (simp add: lru_put_def seg_ok_def)
  qed
  then show "lru_of ?put = lru_put (sc_max c) key data ct (lru_of c)" "seg_ok ?put" "sc_max ?put = sc_max c"
    by blast+
qed

section \<open>The cache implements the list\<close>

datatype cache_op = CacheGet string | CachePut string string string

fun run_seg :: "cache_op list \<Rightarrow> seg_cache \<Rightarrow> (string \<times> string) option list \<times> seg_cache" where
  "run_seg [] c = ([], c)"
| "run_seg (CacheGet key # ops) c = (case seg_get key c of (r, c') \<Rightarrow> case run_seg ops c' of (rs, c'') \<Rightarrow> (r # rs, c''))"
| "run_seg (CachePut key data ct # ops) c = run_seg ops (seg_put key data ct c)"

fun run_lru :: "int \<Rightarrow> cache_op list \<Rightarrow> lru \<Rightarrow> (string \<times> string) option list \<times> lru" where
  "run_lru n [] xs = ([], xs)"
| "run_lru n (CacheGet key # ops) xs = (case lru_get key xs of (r, xs') \<Rightarrow> case run_lru n ops xs' of (rs, xs'') \<Rightarrow> (r # rs, xs''))"
| "run_lru n (CachePut key data ct # ops) xs = run_lru n ops (lru_put n key data ct xs)"

lemma run_seg_refines:
  "seg_ok c \<Longrightarrow> run_lru (sc_max c) ops (lru_of c) = (fst (run_seg ops c), lru_of (snd (run_seg ops c))) \<and> seg_ok (snd (run_seg ops c)) \<and>
     sc_max (snd (run_seg ops c)) = sc_max c"
proof (induction ops c rule: run_seg.induct)
  case (2 key ops c)
  obtain r c' where g: "seg_get key c = (r, c')" by fastforce
  have "seg_inv c" using 2 by (simp add: seg_ok_def)
  note r = seg_get_refines [OF this g]
  then have "seg_ok c'" using 2 by (simp add: seg_ok_def)
  then show ?case using "2.IH" [OF g [symmetric]] r(1,3) by (simp add: g case_prod_unfold)
next
  case (3 key data ct ops c)
  then show ?case using seg_put_refines [OF "3.prems", of key data ct] by simp
qed simp

text \<open>
  C7: The byte-bounded cache, with its linked list, its index from keys to list elements and its size
  counter, implements a plain list of pairs in the order of their last use: for every sequence of
  lookups and insertions, from an empty cache of any bound, every lookup answers what the list
  answers (the bytes last stored under the key, unless they were evicted as least recently used) and
  the list afterwards is the one the specification describes, which never holds more than \<open>max\<close> bytes;
  the size counter is exact and no key is stored twice.
\<close>

theorem seg_cache_implements_lru:
  assumes "0 \<le> max_bytes" "run_seg ops (new_seg_cache max_bytes) = (answers, c)"
  shows "run_lru max_bytes ops [] = (answers, lru_of c) \<and> bytes_of (lru_of c) \<le> max_bytes \<and>
    sc_size c = bytes_of (lru_of c) \<and> distinct (map fst (lru_of c))"
proof -
  have max: "sc_max (new_seg_cache max_bytes) = max_bytes" by (simp add: new_seg_cache_def)
  note r = run_seg_refines [OF seg_ok_new [OF assms(1)], of ops, unfolded max lru_of_new assms(2) fst_conv snd_conv]
  then have "seg_inv c" by (simp add: seg_ok_def)
  then show ?thesis using r seg_invD(1,5) [of c] by (simp add: seg_ok_def lru_of_def entry_pair_def o_def)
qed

lemma seg_cache_implements_lru_witness:
  "let ops = [CachePut ''a'' ''12'' ''t'', CachePut ''b'' ''34'' ''t'', CacheGet ''a'', CachePut ''c'' ''5'' ''t'', CacheGet ''b'', CacheGet ''a'']
   in run_lru 4 ops [] = ([Some (''12'', ''t''), None, Some (''12'', ''t'')], [(''a'', ''12'', ''t''), (''c'', ''5'', ''t'')])"
proof -
  let ?ops = "[CachePut ''a'' ''12'' ''t'', CachePut ''b'' ''34'' ''t'', CacheGet ''a'', CachePut ''c'' ''5'' ''t'', CacheGet ''b'', CacheGet ''a'']"
  obtain answers c where r: "run_seg ?ops (new_seg_cache 4) = (answers, c)" by fastforce
  have "answers = fst (run_seg ?ops (new_seg_cache 4))" "c = snd (run_seg ?ops (new_seg_cache 4))"
    by (simp_all only: r fst_conv snd_conv)
  moreover have "fst (run_seg ?ops (new_seg_cache 4)) = [Some (''12'', ''t''), None, Some (''12'', ''t'')]"
    "lru_of (snd (run_seg ?ops (new_seg_cache 4))) = [(''a'', ''12'', ''t''), (''c'', ''5'', ''t'')]"
    by code_simp+
  ultimately show ?thesis using seg_cache_implements_lru [OF _ r] by simp
qed

section \<open>Answers kept for later\<close>

text \<open>
  The shape both clients of the sandbox share: look in the cache, look again inside the \<open>singleflight\<close>
  call, ask the sandbox, and store an answer that is worth it.
\<close>

definition memo_fetch ::
    "('k \<Rightarrow> ('s, 'v option) act) \<Rightarrow> ('k \<Rightarrow> 'v \<Rightarrow> ('s, unit) act) \<Rightarrow> ('v \<Rightarrow> bool) \<Rightarrow> ('s, 'v) act \<Rightarrow> 'k \<Rightarrow> ('s, 'v) act" where
  "memo_fetch look store worth call key =
     seq (look key) (\<lambda>r. case r of Some v \<Rightarrow> ret v | None \<Rightarrow>
     seq (look key) (\<lambda>r. case r of Some v \<Rightarrow> ret v | None \<Rightarrow>
     seq call (\<lambda>v. seq (if worth v then store key v else ret ()) (\<lambda>_. ret v))))"

record page_list =
  pl_urls :: "string list"
  pl_at :: int

record media_world = world +
  mw_images :: seg_cache
  mw_pages :: "(string \<times> page_list) list"
  mw_prefetching :: "(string \<times> string) list"

definition NUL :: char where "NUL = CHR 0x00"

definition page_list_ttl :: int where "page_list_ttl = 15 * 60"

definition page_list_key :: "string \<Rightarrow> string \<Rightarrow> string \<Rightarrow> string" where
  "page_list_key ext_id entry chap = ext_id @ [NUL] @ entry @ [NUL] @ chap"

definition page_list_get :: "string \<Rightarrow> ('z media_world_scheme, string list option) act" where
  "page_list_get key = gets (\<lambda>w. case map_of (mw_pages w) key of
      None \<Rightarrow> None
    | Some e \<Rightarrow> if w_now w - pl_at e > page_list_ttl then None else Some (pl_urls e))"

definition page_list_put :: "string \<Rightarrow> string list \<Rightarrow> ('z media_world_scheme, unit) act" where
  "page_list_put key urls = modify (\<lambda>w.
     let store = (key, \<lparr>pl_urls = urls, pl_at = w_now w\<rparr>) # filter (\<lambda>e. fst e \<noteq> key) (mw_pages w)
     in w\<lparr>mw_pages := (if length store mod 64 = 0
          then filter (\<lambda>e. \<not> w_now w - pl_at (snd e) > page_list_ttl) store else store)\<rparr>)"

definition invalidate_page_list :: "string \<Rightarrow> string \<Rightarrow> string \<Rightarrow> ('z media_world_scheme, unit) act" where
  "invalidate_page_list ext_id entry chap =
     modify (\<lambda>w. w\<lparr>mw_pages := filter (\<lambda>e. fst e \<noteq> page_list_key ext_id entry chap) (mw_pages w)\<rparr>)"

definition get_page_urls :: "source \<Rightarrow> string \<Rightarrow> string \<Rightarrow> string \<Rightarrow> ('z media_world_scheme, string list) act" where
  "get_page_urls src ext_id entry chap = memo_fetch page_list_get page_list_put (\<lambda>urls. urls \<noteq> [])
     (ask (src_pages src ext_id entry chap)) (page_list_key ext_id entry chap)"

definition manga_image_key :: "string \<Rightarrow> string \<Rightarrow> string" where
  "manga_image_key ext_id url = ext_id @ [NUL] @ url"

definition image_get :: "string \<Rightarrow> ('z media_world_scheme, (string \<times> string) option) act" where
  "image_get key w = (case seg_get key (mw_images w) of (r, c) \<Rightarrow> (Inr r, w\<lparr>mw_images := c\<rparr>))"

definition image_put :: "string \<Rightarrow> string \<times> string \<Rightarrow> ('z media_world_scheme, unit) act" where
  "image_put key v = modify (\<lambda>w. w\<lparr>mw_images := seg_put key (fst v) (snd v) (mw_images w)\<rparr>)"

definition fetch_manga_image :: "source \<Rightarrow> string \<Rightarrow> string \<Rightarrow> ('z media_world_scheme, string \<times> string) act" where
  "fetch_manga_image src ext_id url = memo_fetch image_get image_put (\<lambda>v. fst v \<noteq> [])
     (seq (ask (src_image src ext_id url)) (\<lambda>img. ret (im_data img, im_content_type img))) (manga_image_key ext_id url)"

text \<open>
  Prefetching starts a goroutine per URL that is not cached, while one of the six slots is free; a
  started one is recorded with its URL, and finishing it (\<open>finish_prefetch\<close>) fetches the image and
  frees the slot.
\<close>

definition prefetch_slots :: nat where "prefetch_slots = 6"

fun prefetch_manga_images :: "string \<Rightarrow> string list \<Rightarrow> ('z media_world_scheme, unit) act" where
  "prefetch_manga_images ext_id [] = ret ()"
| "prefetch_manga_images ext_id (u # us) =
     (if u = [] then prefetch_manga_images ext_id us
      else seq (image_get (manga_image_key ext_id u)) (\<lambda>r. case r of
          Some _ \<Rightarrow> prefetch_manga_images ext_id us
        | None \<Rightarrow> seq (gets mw_prefetching) (\<lambda>running.
            if length running < prefetch_slots
            then seq (modify (\<lambda>w. w\<lparr>mw_prefetching := (ext_id, u) # mw_prefetching w\<rparr>)) (\<lambda>_. prefetch_manga_images ext_id us)
            else ret ())))"

definition finish_prefetch :: "source \<Rightarrow> string \<times> string \<Rightarrow> ('z media_world_scheme, unit) act" where
  "finish_prefetch src job = seq (ignore (fetch_manga_image src (fst job) (snd job))) (\<lambda>_.
     modify (\<lambda>w. w\<lparr>mw_prefetching := remove1 job (mw_prefetching w)\<rparr>))"

subsection \<open>The contract of a cache\<close>

text \<open>
  \<open>right s\<close>: what the cache holds was answered once; \<open>genuine k v\<close>: the sandbox answers \<open>v\<close> now;
  \<open>valid k v\<close>: \<open>v\<close> is an answer a reader may be given now.
\<close>

locale memo_cache =
  fixes look :: "'k \<Rightarrow> ('s, 'v option) act"
    and store :: "'k \<Rightarrow> 'v \<Rightarrow> ('s, unit) act"
    and right :: "'s \<Rightarrow> bool"
    and genuine :: "'k \<Rightarrow> 'v \<Rightarrow> bool"
    and valid :: "'k \<Rightarrow> 'v \<Rightarrow> bool"
  assumes look_ok: "right s \<Longrightarrow> look k s = (r, s') \<Longrightarrow> right s' \<and> (\<exists>found. r = Inr found \<and> (\<forall>v. found = Some v \<longrightarrow> valid k v))"
    and store_ok: "right s \<Longrightarrow> genuine k v \<Longrightarrow> right (snd (store k v s))"
    and genuine_valid: "genuine k v \<Longrightarrow> valid k v"
begin

lemma fetch_ok:
  assumes "right s" and call: "\<And>s r s'. right s \<Longrightarrow> call s = (r, s') \<Longrightarrow> right s' \<and> (\<forall>v. r = Inr v \<longrightarrow> genuine k v)"
    and "memo_fetch look store worth call k s = (r, s')"
  shows "right s' \<and> (\<forall>v. r = Inr v \<longrightarrow> valid k v)"
proof -
  obtain r1 s1 where 1: "look k s = (r1, s1)" by fastforce
  obtain found1 where f1: "r1 = Inr found1" "right s1" "\<And>v. found1 = Some v \<Longrightarrow> valid k v"
    using look_ok [OF assms(1) 1] by auto
  obtain r2 s2 where 2: "look k s1 = (r2, s2)" by fastforce
  obtain found2 where f2: "r2 = Inr found2" "right s2" "\<And>v. found2 = Some v \<Longrightarrow> valid k v"
    using look_ok [OF f1(2) 2] by auto
  obtain r3 s3 where 3: "call s2 = (r3, s3)" by fastforce
  have s3: "right s3" using call [OF f2(2) 3] by simp
  have new: "right (snd (store k v s3)) \<and> valid k v" if "r3 = Inr v" for v
    using call [OF f2(2) 3] that store_ok genuine_valid by blast
  show ?thesis
  proof (cases "found1 = None \<and> found2 = None")
    case False
    then show ?thesis using assms(3) 1 2 f1 f2 by (auto simp: memo_fetch_def seq_def ret_def split: option.splits)
  next
    case True
    then show ?thesis
      using assms(3) 1 2 3 f1(1) f2(1) s3 new
      by (cases r3) (auto simp: memo_fetch_def seq_def ret_def split: if_splits prod.splits sum.splits)
  qed
qed

end

subsection \<open>Page lists\<close>

lemma key_inj:
  assumes "NUL \<notin> set a" "NUL \<notin> set a'" "a @ NUL # b = a' @ NUL # b'"
  shows "a = a' \<and> b = b'"
  using assms by (induction a arbitrary: a') (auto simp: Cons_eq_append_conv append_eq_Cons_conv)

type_synonym chapter_ref = "string \<times> string \<times> string"

definition plain_ref :: "chapter_ref \<Rightarrow> bool" where
  "plain_ref = (\<lambda>(x, e, c). NUL \<notin> set x \<and> NUL \<notin> set e)"

abbreviation ref_key :: "chapter_ref \<Rightarrow> string" where
  "ref_key \<equiv> \<lambda>(x, e, c). page_list_key x e c"

definition pages_of :: "source \<Rightarrow> chapter_ref \<Rightarrow> go_err + string list" where
  "pages_of src = (\<lambda>(x, e, c). src_pages src x e c)"

lemma ref_key_inj: "plain_ref r \<Longrightarrow> plain_ref r' \<Longrightarrow> ref_key r = ref_key r' \<Longrightarrow> r = r'"
proof -
  assume r: "plain_ref r" "plain_ref r'" and k: "ref_key r = ref_key r'"
  obtain x e c x' e' c' where e: "r = (x, e, c)" "r' = (x', e', c')" by (cases r; cases r')
  have n: "NUL \<notin> set x" "NUL \<notin> set x'" "NUL \<notin> set e" "NUL \<notin> set e'" using r by (simp_all add: e plain_ref_def)
  have "x @ NUL # e @ NUL # c = x' @ NUL # e' @ NUL # c'" using k by (simp add: e page_list_key_def)
  then have "x = x'" "e @ NUL # c = e' @ NUL # c'" using key_inj [OF n(1,2)] by simp_all
  then show "r = r'" using key_inj [OF n(3,4)] by (simp add: e)
qed

text \<open>\<open>asked\<close> holds the times at which a source was asked, with that source.\<close>

definition pages_right :: "(int \<times> source) set \<Rightarrow> int \<Rightarrow> 'z media_world_scheme \<Rightarrow> bool" where
  "pages_right asked now w \<longleftrightarrow> w_now w = now \<and> (\<forall>e \<in> set (mw_pages w). \<exists>ref src. plain_ref ref \<and> fst e = ref_key ref \<and>
     (pl_at (snd e), src) \<in> asked \<and> pages_of src ref = Inr (pl_urls (snd e)))"

definition pages_genuine :: "(int \<times> source) set \<Rightarrow> int \<Rightarrow> string \<Rightarrow> string list \<Rightarrow> bool" where
  "pages_genuine asked now k urls \<longleftrightarrow> (\<exists>ref src. plain_ref ref \<and> k = ref_key ref \<and> (now, src) \<in> asked \<and> pages_of src ref = Inr urls)"

definition pages_valid :: "(int \<times> source) set \<Rightarrow> int \<Rightarrow> string \<Rightarrow> string list \<Rightarrow> bool" where
  "pages_valid asked now k urls \<longleftrightarrow> (\<exists>ref t src. plain_ref ref \<and> k = ref_key ref \<and> (t, src) \<in> asked \<and>
     now - t \<le> page_list_ttl \<and> pages_of src ref = Inr urls)"

interpretation pages: memo_cache "page_list_get :: _ \<Rightarrow> ('z media_world_scheme, _) act" page_list_put
  "pages_right asked now" "pages_genuine asked now" "pages_valid asked now"
  for asked now
proof
  fix s s' :: "'z media_world_scheme" and k r
  assume s: "pages_right asked now s" and r: "page_list_get k s = (r, s')"
  have "pages_valid asked now k (pl_urls e)" if e: "map_of (mw_pages s) k = Some e" "\<not> w_now s - pl_at e > page_list_ttl" for e
  proof -
    have "(k, e) \<in> set (mw_pages s)" using e(1) by (rule map_of_SomeD)
    then obtain ref src where "plain_ref ref" "k = ref_key ref" "(pl_at e, src) \<in> asked" "pages_of src ref = Inr (pl_urls e)"
      using s unfolding pages_right_def by force
    then show ?thesis using s e(2) unfolding pages_right_def pages_valid_def by (metis not_less)
  qed
  note fresh = this
  show "pages_right asked now s' \<and> (\<exists>found. r = Inr found \<and> (\<forall>v. found = Some v \<longrightarrow> pages_valid asked now k v))"
    using r s fresh
    by (cases "map_of (mw_pages s) k") (auto simp: page_list_get_def gets_def split: if_splits)
next
  fix s :: "'z media_world_scheme" and k v
  assume s: "pages_right asked now s" "pages_genuine asked now k v"
  let ?e = "(k, \<lparr>pl_urls = v, pl_at = w_now s\<rparr>)" and ?s = "snd (page_list_put k v s)"
  have "set (mw_pages ?s) \<subseteq> insert ?e (set (mw_pages s))" "w_now ?s = w_now s"
    by (auto simp: page_list_put_def modify_def Let_def split: if_splits)
  moreover have "\<exists>ref src. plain_ref ref \<and> fst ?e = ref_key ref \<and> (pl_at (snd ?e), src) \<in> asked \<and> pages_of src ref = Inr (pl_urls (snd ?e))"
    using s by (simp add: pages_genuine_def pages_right_def)
  ultimately show "pages_right asked now ?s" using s(1) unfolding pages_right_def by blast
next
  fix k v
  show "pages_genuine asked now k v \<Longrightarrow> pages_valid asked now k v"
    unfolding pages_genuine_def pages_valid_def page_list_ttl_def by (metis diff_self mult_nonneg_nonneg zero_le_numeral)
qed

text \<open>Readers at different times, each with the source as it is then, and calls that drop a list.\<close>

datatype page_op = FetchPages chapter_ref | DropPages chapter_ref

definition page_step :: "int \<times> source \<times> page_op \<Rightarrow> 'z media_world_scheme \<Rightarrow> 'z media_world_scheme" where
  "page_step = (\<lambda>(t, src, op) w. case op of
      FetchPages (x, e, c) \<Rightarrow> snd (get_page_urls src x e c (w\<lparr>w_now := t\<rparr>))
    | DropPages (x, e, c) \<Rightarrow> snd (invalidate_page_list x e c (w\<lparr>w_now := t\<rparr>)))"

definition asked_by :: "(int \<times> source \<times> page_op) list \<Rightarrow> (int \<times> source) set" where
  "asked_by ops = (\<lambda>(t, src, op). (t, src)) ` set ops"

definition op_ref :: "page_op \<Rightarrow> chapter_ref" where
  "op_ref op = (case op of FetchPages r \<Rightarrow> r | DropPages r \<Rightarrow> r)"

lemma pages_right_at: "pages_right asked now w \<Longrightarrow> pages_right asked t (w\<lparr>w_now := t\<rparr>)"
  by (simp add: pages_right_def)

lemma fetch_pages_ok:
  fixes w :: "'z media_world_scheme"
  assumes "pages_right asked now w" "(now, src) \<in> asked" "plain_ref (x, e, c)" "get_page_urls src x e c w = (r, w')"
  shows "pages_right asked now w' \<and> (\<forall>urls. r = Inr urls \<longrightarrow> pages_valid asked now (page_list_key x e c) urls)"
proof (rule pages.fetch_ok [OF assms(1) _ assms(4) [unfolded get_page_urls_def]])
  fix s s' :: "'z media_world_scheme" and r
  assume s: "pages_right asked now s" "ask (src_pages src x e c) s = (r, s')"
  have "\<exists>fl. s' = s\<lparr>w_faults := fl\<rparr>" using s(2) by (auto simp: ask_def elim!: ext_call_cases)
  then have "mw_pages s' = mw_pages s" "w_now s' = w_now s" by auto
  moreover have "pages_genuine asked now (page_list_key x e c) v" if "r = Inr v" for v
    unfolding pages_genuine_def
    by (rule exI [of _ "(x, e, c)"], rule exI [of _ src]) (use ask_state [OF s(2)] that assms(2,3) in \<open>simp add: pages_of_def\<close>)
  ultimately show "pages_right asked now s' \<and> (\<forall>v. r = Inr v \<longrightarrow> pages_genuine asked now (page_list_key x e c) v)"
    using s(1) by (simp add: pages_right_def)
qed

lemma page_step_ok:
  assumes "pages_right asked now w" "(t, src) \<in> asked" "plain_ref (op_ref op)"
  shows "pages_right asked t (page_step (t, src, op) w)"
proof (cases op)
  case (FetchPages ref)
  obtain x e c where ref: "ref = (x, e, c)" by (cases ref)
  obtain r w' where r: "get_page_urls src x e c (w\<lparr>w_now := t\<rparr>) = (r, w')" by fastforce
  have "plain_ref (x, e, c)" using assms(3) by (simp add: op_ref_def FetchPages ref)
  from fetch_pages_ok [OF pages_right_at [OF assms(1)] assms(2) this r] show ?thesis
    by (simp add: page_step_def FetchPages ref r)
next
  case (DropPages ref)
  then show ?thesis using pages_right_at [OF assms(1), of t]
    by (cases ref) (auto simp: page_step_def invalidate_page_list_def modify_def pages_right_def)
qed

lemma page_steps_ok:
  assumes "pages_right asked now w" "asked_by ops \<subseteq> asked" "\<forall>op \<in> set ops. plain_ref (op_ref (snd (snd op)))"
  shows "\<exists>t. pages_right asked t (fold page_step ops w)"
  using assms
proof (induction ops arbitrary: w now)
  case (Cons op ops)
  obtain t src op' where op: "op = (t, src, op')" by (cases op)
  have "pages_right asked t (page_step op w)"
    unfolding op using Cons.prems by (intro page_step_ok) (auto simp: asked_by_def op)
  then show ?case using Cons.IH Cons.prems by (simp add: asked_by_def)
qed auto

text \<open>
  A reader gets a chapter's page list as the source answers it now or as it answered it at most
  fifteen minutes ago to the same question: whatever was fetched and dropped before, at whatever times,
  with whatever the source said then and whatever calls failed, a successful \<open>GetPageURLs\<close> returns an
  answer for exactly this extension, entry and chapter, as long as ids hold no NUL byte.
\<close>

theorem page_lists_are_fresh:
  fixes w :: "'z media_world_scheme"
  assumes "mw_pages w = []" "\<forall>op \<in> set ops. plain_ref (op_ref (snd (snd op)))" "plain_ref (x, e, c)"
    "get_page_urls src x e c ((fold page_step ops w)\<lparr>w_now := now\<rparr>) = (Inr urls, w')"
  shows "src_pages src x e c = Inr urls \<or>
    (\<exists>(t, src', op) \<in> set ops. now - t \<le> 15 * 60 \<and> src_pages src' x e c = Inr urls)"
proof -
  let ?asked = "insert (now, src) (asked_by ops)"
  have "pages_right ?asked (w_now w) w" using assms(1) by (simp add: pages_right_def)
  then obtain t where "pages_right ?asked t (fold page_step ops w)"
    using page_steps_ok [OF _ _ assms(2)] by (meson subset_insertI)
  from fetch_pages_ok [OF pages_right_at [OF this] _ assms(3,4)]
  have "pages_valid ?asked now (ref_key (x, e, c)) urls" by simp
  then obtain ref t src' where r: "plain_ref ref" "ref_key (x, e, c) = ref_key ref" "(t, src') \<in> ?asked"
      "now - t \<le> page_list_ttl" "pages_of src' ref = Inr urls"
    unfolding pages_valid_def by blast
  have "ref = (x, e, c)" using ref_key_inj [OF assms(3) r(1,2)] by simp
  then show ?thesis using r(3-5) by (auto simp: page_list_ttl_def pages_of_def asked_by_def)
qed

text \<open>A source that answers other pages later: a reader ten minutes later still gets the first ones.\<close>

definition demo_pages :: "string list \<Rightarrow> source" where
  "demo_pages urls = \<lparr>src_details = (\<lambda>_ _. Inl ErrNoRows), src_chapters = (\<lambda>_ _. Inl ErrNoRows),
     src_episodes = (\<lambda>_ _. Inl ErrNoRows), src_pages = (\<lambda>_ _ _. Inr urls), src_text = (\<lambda>_ _ _. Inl ErrNoRows),
     src_stream = (\<lambda>_ _ _. Inl ErrNoRows), src_image = (\<lambda>_ _. Inl ErrNoRows), src_peek = (\<lambda>_. Inl ErrNoRows)\<rparr>"

definition demo_media_world :: media_world where
  "demo_media_world = \<lparr>w_db = empty_db, w_now = 0, w_faults = [], mw_images = new_seg_cache 8, mw_pages = [], mw_prefetching = []\<rparr>"

lemma page_lists_are_fresh_witness:
  "src_pages (demo_pages [''v'']) ''x'' ''e'' ''c'' = Inr [''u''] \<or>
    (\<exists>(t, src', op) \<in> {(100, demo_pages [''u''], FetchPages (''x'', ''e'', ''c''))}. (700::int) - t \<le> 15 * 60 \<and> src_pages src' ''x'' ''e'' ''c'' = Inr [''u''])"
proof -
  let ?ops = "[(100, demo_pages [''u''], FetchPages (''x'', ''e'', ''c''))]"
  let ?fetch = "get_page_urls (demo_pages [''v'']) ''x'' ''e'' ''c'' ((fold page_step ?ops demo_media_world)\<lparr>w_now := 700\<rparr>)"
  have "fst ?fetch = Inr [''u'']" by code_simp
  then have f: "?fetch = (Inr [''u''], snd ?fetch)" by (simp add: prod_eq_iff)
  show ?thesis
    using page_lists_are_fresh [OF _ _ _ f]
    by (simp add: demo_media_world_def plain_ref_def op_ref_def NUL_def)
qed

subsection \<open>Images\<close>

text \<open>An image from the cache is the source's image for this extension and URL.\<close>

definition image_genuine :: "source set \<Rightarrow> string \<Rightarrow> string \<times> string \<Rightarrow> bool" where
  "image_genuine srcs k v \<longleftrightarrow> (\<exists>src \<in> srcs. \<exists>x u img. NUL \<notin> set x \<and> k = manga_image_key x u \<and> src_image src x u = Inr img \<and>
     v = (im_data img, im_content_type img))"

definition images_right :: "source set \<Rightarrow> 'z media_world_scheme \<Rightarrow> bool" where
  "images_right srcs w \<longleftrightarrow> seg_ok (mw_images w) \<and> (\<forall>(k, v) \<in> set (lru_of (mw_images w)). image_genuine srcs k v)"

lemma set_fitting: "set (fitting n xs) \<subseteq> set xs"
  by (induction n xs rule: fitting.induct) auto

interpretation images: memo_cache "image_get :: _ \<Rightarrow> ('z media_world_scheme, _) act" image_put
  "images_right srcs" "image_genuine srcs" "image_genuine srcs"
  for srcs
proof
  fix s s' :: "'z media_world_scheme" and k r
  assume s: "images_right srcs s" and r: "image_get k s = (r, s')"
  obtain f c where g: "seg_get k (mw_images s) = (f, c)" by fastforce
  have "seg_inv (mw_images s)" using s by (simp add: images_right_def seg_ok_def)
  note g' = seg_get_refines [OF this g]
  have sub: "set (snd (lru_get key xs)) \<subseteq> set xs" for key xs
    using map_of_SomeD [of xs key] by (auto simp: lru_get_def split: option.split)
  have f: "f = map_of (lru_of (mw_images s)) k" "set (lru_of c) \<subseteq> set (lru_of (mw_images s))"
    using g'(1) sub [of k "lru_of (mw_images s)"] by (simp add: lru_get_def, metis snd_conv)
  have "images_right srcs s'"
    using s f(2) g' r g unfolding images_right_def seg_ok_def image_get_def by auto
  moreover have "image_genuine srcs k v" if "f = Some v" for v
    using s f(1) that map_of_SomeD [of "lru_of (mw_images s)" k v] unfolding images_right_def by auto
  ultimately show "images_right srcs s' \<and> (\<exists>found. r = Inr found \<and> (\<forall>v. found = Some v \<longrightarrow> image_genuine srcs k v))"
    using r g by (auto simp: image_get_def)
next
  fix s :: "'z media_world_scheme" and k v
  assume s: "images_right srcs s" "image_genuine srcs k v"
  have "seg_ok (mw_images s)" using s(1) by (simp add: images_right_def)
  note p = seg_put_refines [OF this, of k "fst v" "snd v"]
  have "set (lru_put (sc_max (mw_images s)) k (fst v) (snd v) (lru_of (mw_images s))) \<subseteq> insert (k, v) (set (lru_of (mw_images s)))"
    unfolding lru_put_def using set_fitting [of "sc_max (mw_images s)" "(k, fst v, snd v) # filter (\<lambda>p. fst p \<noteq> k) (lru_of (mw_images s))"] by auto
  then show "images_right srcs (snd (image_put k v s))"
    using s p unfolding images_right_def image_put_def modify_def by auto
qed simp

lemma fetch_manga_image_ok:
  fixes w :: "'z media_world_scheme"
  assumes "images_right srcs w" "src \<in> srcs" "NUL \<notin> set x" "fetch_manga_image src x u w = (r, w')"
  shows "images_right srcs w' \<and> (\<forall>v. r = Inr v \<longrightarrow> (\<exists>src' \<in> srcs. \<exists>img. src_image src' x u = Inr img \<and> v = (im_data img, im_content_type img)))"
proof -
  have call: "images_right srcs s' \<and> (\<forall>v. r = Inr v \<longrightarrow> image_genuine srcs (manga_image_key x u) v)"
    if s: "images_right srcs s" "seq (ask (src_image src x u)) (\<lambda>img. ret (im_data img, im_content_type img)) s = (r, s')"
    for s s' :: "'z media_world_scheme" and r
  proof -
    obtain a t where a: "ask (src_image src x u) s = (a, t)" by fastforce
    then have "\<exists>fl. t = s\<lparr>w_faults := fl\<rparr>" by (auto simp: ask_def elim!: ext_call_cases)
    then have "images_right srcs t" using s(1) by (auto simp: images_right_def)
    then show ?thesis
      using s(2) a ask_state [OF a] assms(2,3) by (cases a) (auto simp: seq_def ret_def image_genuine_def)
  qed
  have ok: "images_right srcs w' \<and> (\<forall>v. r = Inr v \<longrightarrow> image_genuine srcs (manga_image_key x u) v)"
    by (rule images.fetch_ok [OF assms(1) _ assms(4) [unfolded fetch_manga_image_def]]) (rule call)
  have "\<exists>src' \<in> srcs. \<exists>img. src_image src' x u = Inr img \<and> v = (im_data img, im_content_type img)"
    if v: "image_genuine srcs (manga_image_key x u) v" for v
  proof -
    obtain src' x' u' img where v': "src' \<in> srcs" "NUL \<notin> set x'" "manga_image_key x u = manga_image_key x' u'"
      "src_image src' x' u' = Inr img" "v = (im_data img, im_content_type img)" using v unfolding image_genuine_def by blast
    then have "x = x' \<and> u = u'" using key_inj [OF assms(3) v'(2)] by (simp add: manga_image_key_def)
    then show ?thesis using v' by blast
  qed
  then show ?thesis using ok by blast
qed

text \<open>At most six prefetches run at once.\<close>

lemma prefetch_bounded:
  "keeps (\<lambda>w :: 'z media_world_scheme. length (mw_prefetching w) \<le> prefetch_slots) (prefetch_manga_images x us)"
proof (induction us)
  case (Cons u us)
  have get: "keeps (\<lambda>w :: 'z media_world_scheme. length (mw_prefetching w) \<le> prefetch_slots) (image_get k)" for k
    by (simp add: keeps_def image_get_def split: prod.split)
  have "keeps (\<lambda>w :: 'z media_world_scheme. length (mw_prefetching w) \<le> prefetch_slots)
      (seq (gets mw_prefetching) (\<lambda>running. if length running < prefetch_slots
        then seq (modify (\<lambda>w. w\<lparr>mw_prefetching := (x, u) # mw_prefetching w\<rparr>)) (\<lambda>_. prefetch_manga_images x us) else ret ()))"
    using Cons by (simp add: keeps_def seq_def gets_def modify_def ret_def)
  then show ?case using Cons by (auto intro!: keeps_intros get simp del: One_nat_def)
qed (simp add: keeps_ret)

end
