(* ===== verification/NovelHtml.thy ===== *)
theory NovelHtml
  imports GoStrings
begin

text \<open>
  The cleaning of novel pages (\<open>internal/api/rest/sanitize.go\<close>): of the HTML a source sends, the text
  and the listed tags without their attributes go to the reader, and what stands inside a script or
  the like is dropped. The tokenizer and \<open>EscapeString\<close> are those of \<open>golang.org/x/net/html\<close>: the model
  starts at the token list and takes the escaping as a parameter.
\<close>

datatype html_token =
    TextToken string
  | StartTagToken string
  | SelfClosingTagToken string
  | EndTagToken string
  | OtherToken

definition allowed_tags :: "string list" where
  "allowed_tags = [''p'', ''br'', ''hr'', ''em'', ''i'', ''strong'', ''b'', ''u'', ''s'', ''blockquote'',
     ''h1'', ''h2'', ''h3'', ''h4'', ''h5'', ''h6'', ''ul'', ''ol'', ''li'', ''div'', ''span'']"

definition void_tags :: "string list" where
  "void_tags = [''br'', ''hr'']"

definition drop_content_tags :: "string list" where
  "drop_content_tags = [''script'', ''style'', ''head'', ''title'', ''noscript'', ''iframe'', ''template'']"

record html_state =
  hs_out :: string
  hs_skip_depth :: int
  hs_skip_tag :: string

definition open_tag :: "string \<Rightarrow> html_state \<Rightarrow> html_state" where
  "open_tag tag s =
     (if hs_skip_depth s > 0
      then (if tag = hs_skip_tag s then s\<lparr>hs_skip_depth := hs_skip_depth s + 1\<rparr> else s)
      else if tag \<in> set drop_content_tags then s\<lparr>hs_skip_depth := 1, hs_skip_tag := tag\<rparr>
      else if tag \<in> set allowed_tags then s\<lparr>hs_out := hs_out s @ ''<'' @ tag @ ''>''\<rparr>
      else s)"

definition close_tag :: "string \<Rightarrow> html_state \<Rightarrow> html_state" where
  "close_tag tag s =
     (if hs_skip_depth s > 0
      then (if tag = hs_skip_tag s
            then s\<lparr>hs_skip_depth := hs_skip_depth s - 1,
                   hs_skip_tag := (if hs_skip_depth s - 1 = 0 then [] else hs_skip_tag s)\<rparr>
            else s)
      else if tag \<in> set allowed_tags \<and> tag \<notin> set void_tags then s\<lparr>hs_out := hs_out s @ ''</'' @ tag @ ''>''\<rparr>
      else s)"

definition html_step :: "(string \<Rightarrow> string) \<Rightarrow> html_token \<Rightarrow> html_state \<Rightarrow> html_state" where
  "html_step escape tok s = (case tok of
      TextToken t \<Rightarrow> if hs_skip_depth s = 0 then s\<lparr>hs_out := hs_out s @ escape t\<rparr> else s
    | StartTagToken tag \<Rightarrow> open_tag tag s
    | SelfClosingTagToken tag \<Rightarrow> open_tag tag s
    | EndTagToken tag \<Rightarrow> close_tag tag s
    | OtherToken \<Rightarrow> s)"

definition sanitize_novel_html :: "(string \<Rightarrow> string) \<Rightarrow> html_token list \<Rightarrow> string" where
  "sanitize_novel_html escape toks =
     hs_out (fold (html_step escape) toks \<lparr>hs_out = [], hs_skip_depth = 0, hs_skip_tag = []\<rparr>)"

section \<open>What comes out\<close>

text \<open>After every \<open><\<close> stands a listed tag, opened or closed, and nothing else up to its \<open>>\<close>.\<close>

definition only_plain_tags :: "string \<Rightarrow> bool" where
  "only_plain_tags out \<longleftrightarrow> (\<forall>u v. out = u @ ''<'' @ v \<longrightarrow>
     (\<exists>tag \<in> set allowed_tags. has_prefix v (tag @ ''>'') \<or> has_prefix v (''/'' @ tag @ ''>'')))"

lemma only_plain_tags_append:
  assumes "only_plain_tags a" "only_plain_tags b"
  shows "only_plain_tags (a @ b)"
  unfolding only_plain_tags_def
proof (intro allI impI)
  fix u v assume "a @ b = u @ ''<'' @ v"
  then obtain x where "a = u @ x \<and> x @ b = ''<'' @ v \<or> a @ x = u \<and> b = x @ ''<'' @ v"
    by (auto simp: append_eq_append_conv2)
  then consider (left) x' where "a = u @ ''<'' @ x'" "v = x' @ b" | (right) x' where "b = x' @ ''<'' @ v"
    by (cases x) auto
  then show "\<exists>tag \<in> set allowed_tags. has_prefix v (tag @ ''>'') \<or> has_prefix v (''/'' @ tag @ ''>'')"
  proof cases
    case left
    then show ?thesis using assms(1) unfolding only_plain_tags_def has_prefix_iff by (metis append_assoc)
  next
    case right
    then show ?thesis using assms(2) unfolding only_plain_tags_def by blast
  qed
qed

lemma only_plain_text: "CHR ''<'' \<notin> set t \<Longrightarrow> only_plain_tags t"
  by (auto simp: only_plain_tags_def)

lemma allowed_no_bracket: "tag \<in> set allowed_tags \<Longrightarrow> CHR ''<'' \<notin> set tag"
  by (auto simp: allowed_tags_def)

lemma only_plain_one:
  assumes "tag \<in> set allowed_tags" "x = [] \<or> x = ''/''"
  shows "only_plain_tags (''<'' @ x @ tag @ ''>'')"
  unfolding only_plain_tags_def
proof (intro allI impI)
  fix u v assume e: "''<'' @ x @ tag @ ''>'' = u @ ''<'' @ v"
  have n: "CHR ''<'' \<notin> set (x @ tag @ ''>'')" using allowed_no_bracket [OF assms(1)] assms(2) by auto
  have "u = []"
  proof (cases u)
    case (Cons c cs)
    then have "x @ tag @ ''>'' = cs @ ''<'' @ v" using e by simp
    then have "CHR ''<'' \<in> set (x @ tag @ ''>'')" by simp
    then show ?thesis using n by blast
  qed simp
  then show "\<exists>tag \<in> set allowed_tags. has_prefix v (tag @ ''>'') \<or> has_prefix v (''/'' @ tag @ ''>'')"
    using e assms by (intro bexI [OF _ assms(1)]) (auto simp: has_prefix_iff)
qed

lemma html_step_plain:
  assumes "\<And>t. CHR ''<'' \<notin> set (escape t)" "only_plain_tags (hs_out s)"
  shows "only_plain_tags (hs_out (html_step escape tok s))"
proof -
  have "only_plain_tags (hs_out s @ escape t)" for t
    by (rule only_plain_tags_append [OF assms(2) only_plain_text [OF assms(1)]])
  moreover have "only_plain_tags (hs_out s @ ''<'' @ tag @ ''>'')" if "tag \<in> set allowed_tags" for tag
    using only_plain_tags_append [OF assms(2) only_plain_one [OF that, of "[]"]] by simp
  moreover have "only_plain_tags (hs_out s @ ''</'' @ tag @ ''>'')" if "tag \<in> set allowed_tags" for tag
    using only_plain_tags_append [OF assms(2) only_plain_one [OF that, of "''/''"]] by simp
  ultimately show ?thesis
    using assms(2) by (auto simp: html_step_def open_tag_def close_tag_def split: html_token.split)
qed

text \<open>
  A dropped element leaves no trace, up to the end tag that closes it: inside, every opening of the same
  tag is closed before it, as \<open>balanced\<close> says independently of the counter. Like the code, it takes a
  self-closing tag for an opening one.
\<close>

definition other_than :: "string \<Rightarrow> html_token \<Rightarrow> bool" where
  "other_than tag tok \<longleftrightarrow> tok \<noteq> StartTagToken tag \<and> tok \<noteq> SelfClosingTagToken tag \<and> tok \<noteq> EndTagToken tag"

inductive balanced :: "string \<Rightarrow> html_token list \<Rightarrow> bool" for tag where
  balanced_nil: "balanced tag []"
| balanced_other: "other_than tag tok \<Longrightarrow> balanced tag body \<Longrightarrow> balanced tag (tok # body)"
| balanced_nest: "start = StartTagToken tag \<or> start = SelfClosingTagToken tag \<Longrightarrow> balanced tag inner \<Longrightarrow>
    balanced tag body \<Longrightarrow> balanced tag (start # inner @ EndTagToken tag # body)"

lemma step_other: "other_than tag tok \<Longrightarrow> 0 < hs_skip_depth s \<Longrightarrow> hs_skip_tag s = tag \<Longrightarrow> html_step escape tok s = s"
  by (auto simp: html_step_def open_tag_def close_tag_def other_than_def split: html_token.split)

lemma balanced_skipped:
  "balanced tag body \<Longrightarrow> 0 < hs_skip_depth s \<Longrightarrow> hs_skip_tag s = tag \<Longrightarrow> fold (html_step escape) body s = s"
proof (induction body arbitrary: s rule: balanced.induct)
  case (balanced_nest start inner body)
  let ?s = "s\<lparr>hs_skip_depth := hs_skip_depth s + 1\<rparr>"
  have "html_step escape start s = ?s"
    using balanced_nest.hyps(1) balanced_nest.prems by (auto simp: html_step_def open_tag_def)
  moreover have "fold (html_step escape) inner ?s = ?s" using balanced_nest.prems by (intro balanced_nest.IH(1)) simp_all
  moreover have "html_step escape (EndTagToken tag) ?s = s"
    using balanced_nest.prems by (simp add: html_step_def close_tag_def)
  ultimately show ?case using balanced_nest.IH(2) [OF balanced_nest.prems] by simp
qed (simp_all add: step_other)

lemma dropped_element:
  assumes "tag \<in> set drop_content_tags" "balanced tag body" "hs_skip_depth s = 0" "hs_skip_tag s = []"
  shows "fold (html_step escape) ([StartTagToken tag] @ body @ [EndTagToken tag]) s = s"
proof -
  let ?s = "s\<lparr>hs_skip_depth := 1, hs_skip_tag := tag\<rparr>"
  have "html_step escape (StartTagToken tag) s = ?s" using assms(1,3) by (simp add: html_step_def open_tag_def)
  moreover have "fold (html_step escape) body ?s = ?s" using assms(2) by (rule balanced_skipped) simp_all
  moreover have "html_step escape (EndTagToken tag) ?s = s" using assms(3,4) by (simp add: html_step_def close_tag_def)
  ultimately show ?thesis by simp
qed

text \<open>Tokens that open no dropped element, whatever end tags they hold.\<close>

definition opens_nothing_dropped :: "html_token list \<Rightarrow> bool" where
  "opens_nothing_dropped toks \<longleftrightarrow>
     (\<forall>tag \<in> set drop_content_tags. StartTagToken tag \<notin> set toks \<and> SelfClosingTagToken tag \<notin> set toks)"

lemma nothing_skipped:
  assumes "opens_nothing_dropped toks" "hs_skip_depth s = 0" "hs_skip_tag s = []"
  shows "hs_skip_depth (fold (html_step escape) toks s) = 0 \<and> hs_skip_tag (fold (html_step escape) toks s) = []"
  using assms
proof (induction toks arbitrary: s)
  case (Cons tok toks)
  have "hs_skip_depth (html_step escape tok s) = 0 \<and> hs_skip_tag (html_step escape tok s) = []"
    using Cons.prems
    by (auto simp: html_step_def open_tag_def close_tag_def opens_nothing_dropped_def split: html_token.split)
  then show ?case using Cons by (simp add: opens_nothing_dropped_def)
qed simp

text \<open>
  C30: Whatever a source sends, a reader's browser gets no script: in the cleaned page every \<open><\<close> opens or
  closes one of the listed formatting tags and is followed by nothing but its name and \<open>>\<close>, so there is
  no other element and no attribute; and a script, style or frame element, from its start tag to the
  end tag that matches it, elements of the same tag nested inside included, disappears with all it
  contains: the page is cleaned as if it were not there. What stands before it opens no dropped element.
\<close>

theorem novel_html_is_plain:
  assumes "\<And>t. CHR ''<'' \<notin> set (escape t)"
  shows "only_plain_tags (sanitize_novel_html escape toks) \<and>
    (opens_nothing_dropped before \<longrightarrow> tag \<in> set drop_content_tags \<longrightarrow> balanced tag body \<longrightarrow>
      sanitize_novel_html escape (before @ [StartTagToken tag] @ body @ [EndTagToken tag] @ toks) =
      sanitize_novel_html escape (before @ toks))"
proof (intro conjI impI)
  let ?s0 = "\<lparr>hs_out = [], hs_skip_depth = 0, hs_skip_tag = []\<rparr>"
  have "only_plain_tags (hs_out (fold (html_step escape) toks s))" if "only_plain_tags (hs_out s)" for s
    using that by (induction toks arbitrary: s) (simp_all add: html_step_plain [OF assms])
  then show "only_plain_tags (sanitize_novel_html escape toks)"
    by (simp add: sanitize_novel_html_def only_plain_text)
  assume t: "opens_nothing_dropped before" "tag \<in> set drop_content_tags" "balanced tag body"
  let ?s = "fold (html_step escape) before ?s0"
  have "hs_skip_depth ?s = 0" "hs_skip_tag ?s = []" using nothing_skipped [OF t(1)] by simp_all
  note dropped_element [OF t(2,3) this, where escape = escape]
  then show "sanitize_novel_html escape (before @ [StartTagToken tag] @ body @ [EndTagToken tag] @ toks) =
      sanitize_novel_html escape (before @ toks)"
    by (simp add: sanitize_novel_html_def)
qed

definition demo_escape :: "string \<Rightarrow> string" where
  "demo_escape t = concat (map (\<lambda>c. if c = CHR ''<'' then ''&lt;'' else if c = CHR ''&'' then ''&amp;'' else [c]) t)"

lemma novel_html_is_plain_witness:
  "only_plain_tags (sanitize_novel_html demo_escape [StartTagToken ''p'', TextToken ''a<b'', StartTagToken ''img'', EndTagToken ''p'']) \<and>
    sanitize_novel_html demo_escape ([StartTagToken ''p''] @ [StartTagToken ''script''] @
      [TextToken ''x'', StartTagToken ''script'', EndTagToken ''script'', TextToken ''y''] @ [EndTagToken ''script''] @ [TextToken ''a<b'']) =
      ''<p>a&lt;b''"
proof -
  have e: "CHR ''<'' \<notin> set (demo_escape t)" for t by (auto simp: demo_escape_def)
  have b: "balanced ''script'' ([TextToken ''x'', StartTagToken ''script''] @ [] @ EndTagToken ''script'' # [TextToken ''y''])"
    by (auto intro!: balanced.intros(2) [of _ "TextToken ''x''"] balanced.intros(3) [where inner = "[]", simplified]
        balanced.intros(2) [of _ "TextToken ''y''"] balanced_nil simp: other_than_def)
  have o: "opens_nothing_dropped [StartTagToken ''p'']" "''script'' \<in> set drop_content_tags"
    by (simp_all add: opens_nothing_dropped_def drop_content_tags_def)
  have "sanitize_novel_html demo_escape ([StartTagToken ''p''] @ [TextToken ''a<b'']) = ''<p>a&lt;b''" by code_simp
  moreover have "sanitize_novel_html demo_escape ([StartTagToken ''p''] @ [StartTagToken ''script''] @
      ([TextToken ''x'', StartTagToken ''script''] @ [] @ EndTagToken ''script'' # [TextToken ''y'']) @
      [EndTagToken ''script''] @ [TextToken ''a<b'']) = sanitize_novel_html demo_escape ([StartTagToken ''p''] @ [TextToken ''a<b''])"
    using novel_html_is_plain [where escape = demo_escape, OF e] o b by blast
  moreover have "only_plain_tags (sanitize_novel_html demo_escape [StartTagToken ''p'', TextToken ''a<b'', StartTagToken ''img'', EndTagToken ''p''])"
    using novel_html_is_plain [where escape = demo_escape, OF e] by blast
  ultimately show ?thesis by simp
qed

end
