(* ===== verification/LibraryQuery.thy ===== *)
theory LibraryQuery
  imports RepositorySync ContentFilter Q_Downloads
begin

text \<open>
  The listing of the library (\<open>QueryLibrary\<close> of \<open>internal/sync/sync.go\<close>): the conditions the code adds to
  the WHERE clause, the orders it can ask for, the count, the page of ids and the rows fetched for it.
  \<open>NULL\<close> sorts before every value in ascending order and after it in descending order; rows of equal
  key keep their row-id order here, of which SQLite promises nothing.
\<close>

record library_query =
  lq_content_type :: string
  lq_in_library :: "bool option"
  lq_unread_only :: bool
  lq_downloaded_only :: bool
  lq_tag_ids :: "int list"
  lq_genre_ids :: "int list"
  lq_folder_id :: "int option"
  lq_search :: string
  lq_sort_by :: string
  lq_ascending :: bool
  lq_limit :: int
  lq_offset :: int
  lq_content_filter_rank :: int

section \<open>Conditions\<close>

text \<open>The rows that \<open>LEFT JOIN reading_progress\<close> joins to a chapter; an unread chapter has none that is completed.\<close>

definition progress_of :: "db \<Rightarrow> chapter_row \<Rightarrow> reading_progress list" where
  "progress_of d c = filter (\<lambda>r. rp_chapter r = c_id c \<and> rp_media r = c_media c) (progresses d)"

definition unread_rows :: "db \<Rightarrow> chapter_row \<Rightarrow> nat" where
  "unread_rows d c = (if progress_of d c = [] then 1 else length (filter (\<lambda>r. \<not> rp_completed r) (progress_of d c)))"

definition chapters_of :: "db \<Rightarrow> int \<Rightarrow> chapter_row list" where
  "chapters_of d i = filter (\<lambda>c. c_media c = i) (chapters d)"

text \<open>\<open>id IN (... WHERE tag_id IN (...) GROUP BY media_id HAVING COUNT(DISTINCT tag_id) = n)\<close>.\<close>

definition has_all :: "int list \<Rightarrow> int list \<Rightarrow> bool" where
  "has_all wanted has \<longleftrightarrow> (let common = remdups (filter (\<lambda>t. t \<in> set wanted) has)
     in common \<noteq> [] \<and> length common = length wanted)"

definition tags_of :: "db \<Rightarrow> int \<Rightarrow> int list" where
  "tags_of d i = map mt_tag (filter (\<lambda>t. mt_media t = i) (media_tags d))"

definition genres_of :: "db \<Rightarrow> int \<Rightarrow> int list" where
  "genres_of d i = map snd (filter (\<lambda>g. fst g = i) (media_genres d))"

definition downloaded :: "db \<Rightarrow> int \<Rightarrow> bool" where
  "downloaded d i \<longleftrightarrow> list_ex (\<lambda>j. d_status j = Done \<and> list_ex (\<lambda>c. c_id c = d_chapter j) (chapters_of d i)) (downloads d)"

definition library_conditions :: "library_query \<Rightarrow> db \<Rightarrow> (medium \<Rightarrow> bool) list" where
  "library_conditions q d =
     (case lq_in_library q of Some True \<Rightarrow> [\<lambda>m. m_added_at m \<noteq> None] | Some False \<Rightarrow> [\<lambda>m. m_added_at m = None] | None \<Rightarrow> []) @
     (if lq_content_type q \<noteq> [] then [\<lambda>m. m_content_type m = lq_content_type q] else []) @
     (if lq_search q \<noteq> [] then [\<lambda>m. matches_search (lq_search q) (m_title m)] else []) @
     (case lq_folder_id q of Some f \<Rightarrow> [\<lambda>m. (m_id m, f) \<in> set (media_folders d)] | None \<Rightarrow> []) @
     (if lq_tag_ids q \<noteq> [] then [\<lambda>m. has_all (lq_tag_ids q) (tags_of d (m_id m))] else []) @
     (if lq_genre_ids q \<noteq> [] then [\<lambda>m. has_all (lq_genre_ids q) (genres_of d (m_id m))] else []) @
     (if lq_content_filter_rank q > 0
      then [\<lambda>m. case m_content_block_rank m of None \<Rightarrow> True | Some r \<Rightarrow> r > lq_content_filter_rank q] else []) @
     (if lq_unread_only q then [\<lambda>m. list_ex (\<lambda>c. unread_rows d c > 0) (chapters_of d (m_id m))] else []) @
     (if lq_downloaded_only q then [\<lambda>m. downloaded d (m_id m)] else [])"

definition library_matches :: "library_query \<Rightarrow> db \<Rightarrow> medium \<Rightarrow> bool" where
  "library_matches q d m \<longleftrightarrow> list_all (\<lambda>c. c m) (library_conditions q d)"

section \<open>Order\<close>

definition max_option :: "int list \<Rightarrow> int option" where
  "max_option xs = (case xs of [] \<Rightarrow> None | x # xs \<Rightarrow> Some (fold max xs x))"

definition null_le :: "('a \<Rightarrow> 'a \<Rightarrow> bool) \<Rightarrow> 'a option \<Rightarrow> 'a option \<Rightarrow> bool" where
  "null_le le a b = (case a of None \<Rightarrow> True | Some x \<Rightarrow> (case b of None \<Rightarrow> False | Some y \<Rightarrow> le x y))"

definition last_read_at :: "db \<Rightarrow> medium \<Rightarrow> int option" where
  "last_read_at d m = max_option (map rp_updated_at (filter (\<lambda>r. rp_media r = m_id m) (progresses d)))"

definition latest_chapter_at :: "db \<Rightarrow> medium \<Rightarrow> int option" where
  "latest_chapter_at d m = max_option (List.map_filter c_uploaded_at (chapters_of d (m_id m)))"

definition unread_count :: "db \<Rightarrow> medium \<Rightarrow> int option" where
  "unread_count d m = (let n = sum_list (map (unread_rows d) (chapters_of d (m_id m))) in if n = 0 then None else Some (int n))"

definition library_le :: "library_query \<Rightarrow> db \<Rightarrow> medium \<Rightarrow> medium \<Rightarrow> bool" where
  "library_le q d a b =
     (if lq_sort_by q = ''title'' then string_less_eq (to_lower (m_title a)) (to_lower (m_title b))
      else if lq_sort_by q = ''last_read_at'' then null_le (\<le>) (last_read_at d a) (last_read_at d b)
      else if lq_sort_by q = ''latest_chapter_at'' then null_le (\<le>) (latest_chapter_at d a) (latest_chapter_at d b)
      else if lq_sort_by q = ''unread_count'' then null_le (\<le>) (unread_count d a) (unread_count d b)
      else null_le (\<le>) (m_added_at a) (m_added_at b))"

definition library_rows :: "library_query \<Rightarrow> db \<Rightarrow> medium list" where
  "library_rows q d = order_by (if lq_ascending q then library_le q d else (\<lambda>a b. library_le q d b a))
     (filter (library_matches q d) (media d))"

section \<open>The query\<close>

definition library_limit :: "library_query \<Rightarrow> int" where
  "library_limit q = (if lq_limit q \<le> 0 then 100 else lq_limit q)"

definition query_library :: "library_query \<Rightarrow> ('z world_scheme, medium list \<times> int) act" where
  "query_library q =
     seq (wrap ''count library'' (db_call (select_all (\<lambda>d. int (length (filter (library_matches q d) (media d))))))) (\<lambda>total.
     seq (wrap ''query library'' (db_call (select_all (\<lambda>d. page_of (library_limit q) (lq_offset q) (map m_id (library_rows q d)))))) (\<lambda>ids.
     if ids = [] then ret ([], total)
     else seq (wrap ''hydrate library page'' (db_call (q_list_media_by_ids ids))) (\<lambda>fetched.
          let by_id = fold (\<lambda>m f. f(m_id m \<mapsto> m)) fetched Map.empty
          in ret (List.map_filter by_id ids, total))))"

section \<open>Pages\<close>

lemma string_le_trans: "string_less_eq a b \<Longrightarrow> string_less_eq b c \<Longrightarrow> string_less_eq a c"
proof (induction a b arbitrary: c rule: string_less_eq.induct)
  case (3 a s b t)
  then show ?case by (cases c) auto
qed auto

lemma string_le_linear: "string_less_eq a b \<or> string_less_eq b a"
  by (induction a b rule: string_less_eq.induct) (auto simp: ch_def)

definition library_order :: "library_query \<Rightarrow> db \<Rightarrow> medium \<Rightarrow> medium \<Rightarrow> bool" where
  "library_order q d = (if lq_ascending q then library_le q d else (\<lambda>a b. library_le q d b a))"

lemma null_le_linear: "null_le ((\<le>) :: int \<Rightarrow> int \<Rightarrow> bool) a b \<or> null_le (\<le>) b a"
  by (cases a; cases b) (auto simp: null_le_def)

lemma null_le_trans: "null_le ((\<le>) :: int \<Rightarrow> int \<Rightarrow> bool) a b \<Longrightarrow> null_le (\<le>) b c \<Longrightarrow> null_le (\<le>) a c"
  by (cases a; cases b; cases c) (auto simp: null_le_def)

lemma library_le_linear: "library_le q d a b \<or> library_le q d b a"
  unfolding library_le_def by (simp only: string_le_linear null_le_linear split: if_split) simp

lemma library_le_trans:
  assumes "library_le q d a b" "library_le q d b c"
  shows "library_le q d a c"
  using assms unfolding library_le_def by (auto split: if_splits elim: string_le_trans null_le_trans)

lemma library_rows_sorted: "sorted_wrt (library_order q d) (library_rows q d)"
  unfolding library_rows_def library_order_def [symmetric]
  by (intro sorted_wrt_order_by transpI)
     (auto simp: library_order_def library_le_linear split: if_splits elim: library_le_trans)

lemma by_id_map:
  assumes "distinct (map m_id rows)"
  shows "fold (\<lambda>m f. f(m_id m \<mapsto> m)) rows g i = (case find (\<lambda>m. m_id m = i) rows of None \<Rightarrow> g i | Some m \<Rightarrow> Some m)"
  using assms
proof (induction rows arbitrary: g)
  case (Cons m rows)
  have "find (\<lambda>m. m_id m = i) rows = None" if "m_id m = i" using Cons.prems that by (auto simp: find_None_iff intro: rev_image_eqI)
  then show ?case using Cons by (auto split: option.split)
qed simp

lemma hydrate_page:
  assumes "distinct (map m_id rows)" "set page \<subseteq> set rows"
  shows "List.map_filter (fold (\<lambda>m f. f(m_id m \<mapsto> m)) (filter (\<lambda>m. m_id m \<in> set (map m_id page)) rows) Map.empty) (map m_id page) = page"
proof -
  have d: "distinct (map m_id (filter (\<lambda>m. m_id m \<in> set (map m_id page)) rows))" using assms(1) by (rule distinct_map_filter)
  have "fold (\<lambda>m f. f(m_id m \<mapsto> m)) (filter (\<lambda>m. m_id m \<in> set (map m_id page)) rows) Map.empty (m_id x) = Some x" if "x \<in> set page" for x
  proof -
    have "x \<in> set (filter (\<lambda>m. m_id m \<in> set (map m_id page)) rows)" using that assms(2) by auto
    from distinct_key_find [OF d this] show ?thesis unfolding by_id_map [OF d] by (simp only: option.case)
  qed
  then show ?thesis by (induction page) (auto simp: List.map_filter_def map_idI)
qed

section \<open>What a query asks for\<close>

text \<open>
  The entries a query asks for and the order it asks for, without the SQL: a chapter is unread when no
  progress row says it was completed; an entry with nothing to sort by counts as the lowest.
\<close>

definition unread :: "db \<Rightarrow> chapter_row \<Rightarrow> bool" where
  "unread d c \<longleftrightarrow> \<not> (\<exists>r \<in> set (progresses d). rp_chapter r = c_id c \<and> rp_media r = c_media c \<and> rp_completed r)"

definition asked_for :: "library_query \<Rightarrow> db \<Rightarrow> medium \<Rightarrow> bool" where
  "asked_for q d m \<longleftrightarrow>
     (lq_in_library q = None \<or> lq_in_library q = Some (m_added_at m \<noteq> None)) \<and>
     (lq_content_type q = [] \<or> m_content_type m = lq_content_type q) \<and>
     (lq_search q = [] \<or> matches_search (lq_search q) (m_title m)) \<and>
     (\<forall>f. lq_folder_id q = Some f \<longrightarrow> (m_id m, f) \<in> set (media_folders d)) \<and>
     (lq_tag_ids q = [] \<or> distinct (lq_tag_ids q) \<and>
        (\<forall>t \<in> set (lq_tag_ids q). \<exists>x \<in> set (media_tags d). mt_media x = m_id m \<and> mt_tag x = t)) \<and>
     (lq_genre_ids q = [] \<or> distinct (lq_genre_ids q) \<and> (\<forall>g \<in> set (lq_genre_ids q). (m_id m, g) \<in> set (media_genres d))) \<and>
     (0 < lq_content_filter_rank q \<longrightarrow> \<not> (\<exists>r. m_content_block_rank m = Some r \<and> r \<le> lq_content_filter_rank q)) \<and>
     (lq_unread_only q \<longrightarrow> (\<exists>c \<in> set (chapters d). c_media c = m_id m \<and> unread d c)) \<and>
     (lq_downloaded_only q \<longrightarrow> (\<exists>c \<in> set (chapters d). c_media c = m_id m \<and>
        (\<exists>j \<in> set (downloads d). d_status j = Done \<and> c_id c = d_chapter j)))"

definition latest :: "int set \<Rightarrow> int option" where
  "latest S = (if S = {} then None else Some (Max S))"

definition sort_value :: "string \<Rightarrow> db \<Rightarrow> medium \<Rightarrow> int option" where
  "sort_value by d m =
     (if by = ''last_read_at'' then latest {t. \<exists>r \<in> set (progresses d). rp_media r = m_id m \<and> rp_updated_at r = t}
      else if by = ''latest_chapter_at'' then latest {t. \<exists>c \<in> set (chapters d). c_media c = m_id m \<and> c_uploaded_at c = Some t}
      else if by = ''unread_count''
        then (let n = length (filter (\<lambda>c. c_media c = m_id m \<and> unread d c) (chapters d)) in if n = 0 then None else Some (int n))
      else m_added_at m)"

definition comes_before :: "library_query \<Rightarrow> db \<Rightarrow> medium \<Rightarrow> medium \<Rightarrow> bool" where
  "comes_before q d a b =
     (let (x, y) = (if lq_ascending q then (a, b) else (b, a)) in
      if lq_sort_by q = ''title'' then string_less_eq (to_lower (m_title x)) (to_lower (m_title y))
      else sort_value (lq_sort_by q) d x = None \<or>
        (\<exists>s t. sort_value (lq_sort_by q) d x = Some s \<and> sort_value (lq_sort_by q) d y = Some t \<and> s \<le> t))"

lemma has_all_iff: "has_all wanted has \<longleftrightarrow> wanted \<noteq> [] \<and> distinct wanted \<and> set wanted \<subseteq> set has"
proof -
  define common where "common = remdups (filter (\<lambda>t. t \<in> set wanted) has)"
  have c: "distinct common" "set common = set wanted \<inter> set has" by (auto simp: common_def)
  have card: "length common = card (set wanted \<inter> set has)" using distinct_card [OF c(1)] c(2) by simp
  have le: "card (set wanted \<inter> set has) \<le> card (set wanted)" "card (set wanted) \<le> length wanted"
    by (simp_all add: card_mono card_length)
  have "length common = length wanted \<longleftrightarrow> distinct wanted \<and> set wanted \<subseteq> set has"
  proof
    assume l: "length common = length wanted"
    then have "card (set wanted) = length wanted" "card (set wanted \<inter> set has) = card (set wanted)"
      using card le by simp_all
    then have "distinct wanted" "set wanted \<inter> set has = set wanted"
      using card_subset_eq [of "set wanted" "set wanted \<inter> set has"] by (simp_all add: card_distinct)
    then show "distinct wanted \<and> set wanted \<subseteq> set has" by auto
  next
    assume "distinct wanted \<and> set wanted \<subseteq> set has"
    then show "length common = length wanted" using card by (simp add: Int_absorb2 distinct_card)
  qed
  moreover have "has_all wanted has \<longleftrightarrow> common \<noteq> [] \<and> length common = length wanted"
    by (simp add: has_all_def common_def Let_def)
  ultimately show ?thesis by (cases "wanted = []") auto
qed

lemma same_key_short: "distinct (map f xs) \<Longrightarrow> (\<And>x. x \<in> set xs \<Longrightarrow> f x = k) \<Longrightarrow> length xs \<le> 1"
  by (cases xs; cases "tl xs") auto

lemma unread_rows_unread:
  assumes "distinct (map (\<lambda>r. (rp_media r, rp_chapter r)) (progresses d))"
  shows "unread_rows d c = (if unread d c then 1 else 0)"
proof -
  have "length (progress_of d c) \<le> 1"
    using assms by (intro same_key_short [where f = "\<lambda>r. (rp_media r, rp_chapter r)"])
      (auto simp: progress_of_def intro: distinct_map_filter)
  then consider "progress_of d c = []" | r where "progress_of d c = [r]" by (cases "progress_of d c") auto
  moreover have "unread d c \<longleftrightarrow> \<not> (\<exists>r \<in> set (progress_of d c). rp_completed r)"
    by (auto simp: unread_def progress_of_def)
  ultimately show ?thesis by cases (simp_all add: unread_rows_def)
qed

lemma library_matches_asked:
  assumes "distinct (map (\<lambda>r. (rp_media r, rp_chapter r)) (progresses d))"
  shows "library_matches q d m \<longleftrightarrow> asked_for q d m"
proof -
  have tags: "has_all ts (tags_of d i) \<longleftrightarrow> ts \<noteq> [] \<and> distinct ts \<and> (\<forall>t \<in> set ts. \<exists>x \<in> set (media_tags d). mt_media x = i \<and> mt_tag x = t)" for ts i
    by (auto simp: has_all_iff tags_of_def)
  have genres: "has_all gs (genres_of d i) \<longleftrightarrow> gs \<noteq> [] \<and> distinct gs \<and> (\<forall>g \<in> set gs. (i, g) \<in> set (media_genres d))" for gs i
    by (force simp: has_all_iff genres_of_def)
  have dl: "downloaded d i \<longleftrightarrow> (\<exists>c \<in> set (chapters d). c_media c = i \<and> (\<exists>j \<in> set (downloads d). d_status j = Done \<and> c_id c = d_chapter j))" for i
    unfolding downloaded_def chapters_of_def list_ex_iff set_filter by blast
  have unread: "list_ex (\<lambda>c. unread_rows d c > 0) (chapters_of d i) \<longleftrightarrow> (\<exists>c \<in> set (chapters d). c_media c = i \<and> unread d c)" for i
    by (auto simp: unread_rows_unread [OF assms] chapters_of_def list_ex_iff)
  have rank: "(case b of None \<Rightarrow> True | Some r \<Rightarrow> r > l) \<longleftrightarrow> \<not> (\<exists>r. b = Some r \<and> r \<le> l)" for b :: "int option" and l
    by (cases b) auto
  have lib: "list_all (\<lambda>c. c m) (case b of Some True \<Rightarrow> [\<lambda>m. m_added_at m \<noteq> None] | Some False \<Rightarrow> [\<lambda>m. m_added_at m = None] | None \<Rightarrow> [])
      \<longleftrightarrow> b = None \<or> b = Some (m_added_at m \<noteq> None)" for b
    by (auto split: option.split bool.split)
  show ?thesis
    unfolding library_matches_def library_conditions_def asked_for_def list_all_append lib
    by (intro arg_cong2 [where f = "(\<and>)"]) (auto simp: tags genres dl unread rank not_less split: option.split)
qed

lemma max_option_latest: "max_option xs = latest (set xs)"
  by (cases xs) (simp_all add: max_option_def latest_def Max.set_eq_fold del: list.set(2) set_simps)

lemma null_le_iff: "null_le (\<le>) a b \<longleftrightarrow> a = None \<or> (\<exists>s t. a = Some s \<and> b = Some t \<and> s \<le> t)"
  by (cases a; cases b) (auto simp: null_le_def)

lemma library_order_comes_before:
  assumes "distinct (map (\<lambda>r. (rp_media r, rp_chapter r)) (progresses d))"
  shows "library_order q d = comes_before q d"
proof -
  have read: "last_read_at d m = latest {t. \<exists>r \<in> set (progresses d). rp_media r = m_id m \<and> rp_updated_at r = t}" for m
    unfolding last_read_at_def max_option_latest by (rule arg_cong [where f = latest]) auto
  have chap: "latest_chapter_at d m = latest {t. \<exists>c \<in> set (chapters d). c_media c = m_id m \<and> c_uploaded_at c = Some t}" for m
    unfolding latest_chapter_at_def max_option_latest
    by (rule arg_cong [where f = latest]) (force simp: List.map_filter_def chapters_of_def)
  have "sum_list (map (unread_rows d) cs) = length (filter (unread d) cs)" for cs
    by (induction cs) (simp_all add: unread_rows_unread [OF assms])
  then have count: "unread_count d m = (let n = length (filter (\<lambda>c. c_media c = m_id m \<and> unread d c) (chapters d)) in if n = 0 then None else Some (int n))" for m
    by (simp add: unread_count_def chapters_of_def conj_commute)
  have "library_le q d a b = comes_before (q\<lparr>lq_ascending := True\<rparr>) d a b" for a b
    by (simp add: library_le_def comes_before_def sort_value_def read chap count null_le_iff)
  then show ?thesis by (intro ext) (simp add: library_order_def comes_before_def)
qed

lemma library_rows_all:
  assumes "distinct (map m_id (media (w_db w)))"
  shows "set (library_rows q (w_db w)) = {m \<in> set (media (w_db w)). library_matches q (w_db w) m}"
    "distinct (library_rows q (w_db w))"
    "length (library_rows q (w_db w)) = length (filter (library_matches q (w_db w)) (media (w_db w)))"
proof -
  show "set (library_rows q (w_db w)) = {m \<in> set (media (w_db w)). library_matches q (w_db w) m}"
    by (auto simp: library_rows_def)
  have "distinct (map m_id (library_rows q (w_db w)))"
    unfolding library_rows_def distinct_map_order_by using assms by (rule distinct_map_filter)
  then show "distinct (library_rows q (w_db w))" by (simp add: distinct_map)
  show "length (library_rows q (w_db w)) = length (filter (library_matches q (w_db w)) (media (w_db w)))"
    by (simp add: library_rows_def)
qed

lemma query_library_page:
  fixes w w' :: "'z world_scheme" and items :: "medium list" and total :: int
  assumes "distinct (map m_id (media (w_db w)))" "query_library q w = (Inr (items, total), w')"
  shows "items = page_of (library_limit q) (lq_offset q) (library_rows q (w_db w)) \<and>
    total = int (length (library_rows q (w_db w))) \<and> w_db w' = w_db w"
proof -
  let ?rows = "library_rows q (w_db w)"
  note set = library_rows_all(1) [OF assms(1), of q]
  note q = assms(2) [unfolded query_library_def Let_def]
  from q obtain t w1 ids w2 where 1: "db_call (select_all (\<lambda>d. int (length (filter (library_matches q d) (media d))))) w = (Inr t, w1)"
    and 2: "db_call (select_all (\<lambda>d. page_of (library_limit q) (lq_offset q) (map m_id (library_rows q d)))) w1 = (Inr ids, w2)"
    and 3: "(if ids = [] then ret ([], t) else seq (wrap ''hydrate library page'' (db_call (q_list_media_by_ids ids)))
       (\<lambda>fetched. ret (List.map_filter (fold (\<lambda>m f. f(m_id m \<mapsto> m)) fetched Map.empty) ids, t))) w2 = (Inr (items, total), w')"
    by (auto simp: seq_eq_Inr)
  have db1: "w_db w1 = w_db w" using db_select_all_state [OF 1] by simp
  have db2: "w_db w2 = w_db w" using db_select_all_state [OF 2] db1 by simp
  have t: "t = int (length (filter (library_matches q (w_db w)) (media (w_db w))))" using db_select_all_ok [OF 1] .
  let ?page = "page_of (library_limit q) (lq_offset q) ?rows"
  have ids: "ids = map m_id ?page"
    using db_select_all_ok [OF 2] by (simp add: db1 page_of_def take_map drop_map)
  have sub: "set ?page \<subseteq> set ?rows"
    unfolding page_of_def by (meson order_trans set_drop_subset set_take_subset)
  have "items = ?page \<and> total = t \<and> w_db w' = w_db w"
  proof (cases "ids = []")
    case True
    then show ?thesis using 3 ids db2 by (simp add: ret_def)
  next
    case False
    then obtain fetched where 4: "db_call (q_list_media_by_ids ids) w2 = (Inr fetched, w')"
      and items: "items = List.map_filter (fold (\<lambda>m f. f(m_id m \<mapsto> m)) fetched Map.empty) ids" "total = t"
      using 3 by (auto simp: seq_eq_Inr ret_def)
    note f = 4 [unfolded q_list_media_by_ids_def]
    have "fetched = filter (\<lambda>m. m_id m \<in> set (map m_id ?page)) (media (w_db w))"
      using db_select_all_ok [OF f] db2 ids by simp
    then show ?thesis
      using hydrate_page [OF assms(1), of ?page] sub set items ids db_select_all_state [OF f] db2 by auto
  qed
  then show ?thesis using t library_rows_all(3) [OF assms(1), of q] by simp
qed

lemma nat_library_limit: "nat (library_limit q) = (if lq_limit q \<le> 0 then 100 else nat (lq_limit q))"
  by (simp add: library_limit_def)

lemma asked_not_hidden:
  "asked_for q d m \<Longrightarrow> 0 < lq_content_filter_rank q \<Longrightarrow>
    \<not> (\<exists>r. m_content_block_rank m = Some r \<and> 0 < r \<and> hidden r (lq_content_filter_rank q))"
  by (auto simp: asked_for_def hidden_def)

section \<open>The pages of the library\<close>


definition demo_library_query :: library_query where
  "demo_library_query = \<lparr>lq_content_type = [], lq_in_library = Some True, lq_unread_only = False, lq_downloaded_only = False,
     lq_tag_ids = [], lq_genre_ids = [], lq_folder_id = Some 3, lq_search = ''t'', lq_sort_by = ''unread_count'', lq_ascending = False,
     lq_limit = 0, lq_offset = 0, lq_content_filter_rank = 2\<rparr>"


end
