(* ===== verification/NaturalSort.thy ===== *)
theory NaturalSort
  imports ChapterNum "HOL-Library.Multiset" "HOL-Library.Char_ord" "HOL-Library.List_Lexorder" "HOL-Library.Product_Lexorder"
begin

text \<open>
  The order of file names in the local source (\<open>naturalSort\<close> and \<open>parseLeadingNumber\<close> of
  \<open>internal/localsource/scan.go\<close>): runs of digits compare as numbers. \<open>natural_less\<close> is the code's
  loop; the reference is the lexicographic order of the token lists of both names, a token being a
  byte or the value of a run of digits. A run that does not fit int64 counts as the largest int64,
  which is what \<open>ParseInt\<close> returns beside its error.
\<close>

section \<open>The comparison\<close>

definition leading_digits :: "string \<Rightarrow> int \<times> string" where
  "leading_digits s = (min int64_max (int (digits_val (takeWhile is_digit s))), dropWhile is_digit s)"

lemma dropWhile_digit_shorter: "s \<noteq> [] \<Longrightarrow> is_digit (hd s) \<Longrightarrow> length (dropWhile is_digit s) < length s"
  by (cases s) (auto simp: less_Suc_eq_le length_dropWhile_le)

function natural_less :: "string \<Rightarrow> string \<Rightarrow> bool" where
  "natural_less a b =
     (if a = [] \<or> b = [] then length a < length b
      else if is_digit (hd a) \<and> is_digit (hd b)
      then (let (ai, an) = leading_digits a; (bi, bn) = leading_digits b in
            if ai \<noteq> bi then ai < bi else natural_less an bn)
      else if hd a \<noteq> hd b then ch (hd a) < ch (hd b)
      else natural_less (tl a) (tl b))"
  by pat_completeness auto
termination
  by (relation "measure (\<lambda>(a, b). length a)") (auto simp: leading_digits_def dropWhile_digit_shorter)

declare natural_less.simps [simp del]

section \<open>Token lists\<close>

text \<open>A number takes the place of a digit among the bytes: the first byte of both is a digit.\<close>

type_synonym token = "int \<times> int"

function tokens :: "string \<Rightarrow> token list" where
  "tokens s =
     (if s = [] then []
      else if is_digit (hd s) then (48, fst (leading_digits s)) # tokens (snd (leading_digits s))
      else (int (ch (hd s)), 0) # tokens (tl s))"
  by pat_completeness auto
termination
  by (relation "measure length") (auto simp: leading_digits_def dropWhile_digit_shorter)

declare tokens.simps [simp del]

lemma tokens_simps:
  "tokens [] = []"
  "is_digit c \<Longrightarrow> tokens (c # s) = (48, fst (leading_digits (c # s))) # tokens (snd (leading_digits (c # s)))"
  "\<not> is_digit c \<Longrightarrow> tokens (c # s) = (int (ch c), 0) # tokens s"
  by (subst tokens.simps, simp)+

lemma tokens_empty [simp]: "tokens s = [] \<longleftrightarrow> s = []"
  by (subst tokens.simps) simp

lemma digit_range: "is_digit c \<longleftrightarrow> 48 \<le> ch c \<and> ch c \<le> 57"
  by (simp add: is_digit_def)

lemma ch_inj: "ch a = ch b \<longleftrightarrow> a = b"
  by (simp add: ch_def)

lemma natural_less_tokens: "natural_less a b \<longleftrightarrow> tokens a < tokens b"
proof (induction a b rule: natural_less.induct)
  case (1 a b)
  show ?case
  proof (cases "a = [] \<or> b = []")
    case True
    have "x = [] \<Longrightarrow> x < y \<longleftrightarrow> y \<noteq> []" "\<not> x < []" for x y :: "token list" by (cases y; simp)+
    from this(1) [of "tokens a" "tokens b"] this(2) [of "tokens a"] True show ?thesis
      by (subst natural_less.simps) (auto simp: tokens_simps(1))
  next
    case False
    then obtain x xs y ys where ab: "a = x # xs" "b = y # ys" by (auto simp: neq_Nil_conv)
    consider (dd) "is_digit x" "is_digit y" | (dn) "is_digit x" "\<not> is_digit y" | (nd) "\<not> is_digit x" "is_digit y" | (nn) "\<not> is_digit x" "\<not> is_digit y"
      by blast
    then show ?thesis
    proof cases
      case dd
      obtain i an j bn where l: "leading_digits a = (i, an)" "leading_digits b = (j, bn)" by fastforce
      have "natural_less an bn = (tokens an < tokens bn)" if "i = j"
        using 1(1) [OF False _ l(1) [symmetric] _ l(2) [symmetric] _] dd that ab by auto
      then show ?thesis using dd l ab by (subst natural_less.simps) (auto simp: tokens_simps)
    next
      case dn
      then have "x \<noteq> y" by auto
      then show ?thesis using dn ab by (subst natural_less.simps) (auto simp: tokens_simps digit_range)
    next
      case nd
      then have "x \<noteq> y" by auto
      then show ?thesis using nd ab by (subst natural_less.simps) (auto simp: tokens_simps digit_range)
    next
      case nn
      then show ?thesis using 1(2) [OF False] ab by (subst natural_less.simps) (auto simp: tokens_simps ch_inj)
    qed
  qed
qed

text \<open>
  \<open>sort.Sort(naturalSort(names))\<close>: names that are equal as token lists (\<open>1.png\<close>, \<open>01.png\<close>) keep their
  order here, of which \<open>sort.Sort\<close> promises nothing.
\<close>

definition natural_sort :: "string list \<Rightarrow> string list" where
  "natural_sort names = sort_key tokens names"

lemma natural_sort_props [simp]:
  "set (natural_sort names) = set names" "length (natural_sort names) = length names" "distinct (natural_sort names) = distinct names"
  by (simp_all add: natural_sort_def)

section \<open>Numbers in names\<close>

lemma takeWhile_leading_digits:
  assumes "\<And>c. c \<in> set d \<Longrightarrow> is_digit c" "s = [] \<or> \<not> is_digit (hd s)"
  shows "takeWhile is_digit (d @ s) = d" "dropWhile is_digit (d @ s) = s"
proof -
  have "takeWhile is_digit s = []" "dropWhile is_digit s = s" using assms(2) by (cases s; simp)+
  then show "takeWhile is_digit (d @ s) = d" "dropWhile is_digit (d @ s) = s" using assms(1) by simp_all
qed

lemma tokens_number:
  assumes "int n \<le> int64_max" "s = [] \<or> \<not> is_digit (hd s)"
  shows "tokens (nat_digits n @ s) = (48, int n) # tokens s"
proof -
  have d: "\<And>c. c \<in> set (nat_digits n) \<Longrightarrow> is_digit c" by (rule nat_digits_all_digits)
  obtain c cs where c: "nat_digits n = c # cs" by (cases "nat_digits n") simp_all
  have "takeWhile is_digit (nat_digits n @ s) = nat_digits n" "dropWhile is_digit (nat_digits n @ s) = s"
    using takeWhile_leading_digits [of "nat_digits n" s] d assms(2) by simp_all
  then have "leading_digits (nat_digits n @ s) = (int n, s)"
    using assms(1) by (simp add: leading_digits_def)
  then show ?thesis using tokens_simps(2) [of c "cs @ s"] d [of c] c by simp
qed

lemma natural_less_prefix:
  assumes "p = [] \<or> \<not> is_digit (last p)"
  shows "tokens (p @ s) = tokens p @ tokens s"
  using assms
proof (induction p rule: tokens.induct)
  case (1 p)
  show ?case
  proof (cases p)
    case (Cons c p')
    show ?thesis
    proof (cases "is_digit c")
      case True
      let ?r = "dropWhile is_digit p"
      have r: "?r \<noteq> []"
      proof
        assume "?r = []"
        then have "is_digit (last p)" unfolding dropWhile_eq_Nil_conv using Cons last_in_set by blast
        then show False using "1.prems" Cons by simp
      qed
      then have tw: "takeWhile is_digit (p @ s) = takeWhile is_digit p" "dropWhile is_digit (p @ s) = ?r @ s"
        by (auto simp: dropWhile_append takeWhile_append dropWhile_eq_Nil_conv)
      have "last (takeWhile is_digit p @ ?r) = last ?r" using r by (rule last_appendR)
      then have "last ?r = last p" by simp
      then have "tokens (?r @ s) = tokens ?r @ tokens s"
        using "1.IH"(1) "1.prems" r Cons True by (simp add: leading_digits_def)
      then show ?thesis
        using tw Cons True tokens_simps(2) [of c "p' @ s"] tokens_simps(2) [of c p'] by (simp add: leading_digits_def)
    next
      case False
      have "tokens (p' @ s) = tokens p' @ tokens s"
      proof (cases "p' = []")
        case False
        then show ?thesis using "1.IH"(2) "1.prems" Cons \<open>\<not> is_digit c\<close> by simp
      qed (simp add: tokens_simps)
      then show ?thesis using Cons False by (simp add: tokens_simps)
    qed
  qed (simp add: tokens_simps)
qed

text \<open>
  C37: Names are put in the order a reader expects: the comparison of the code is the lexicographic
  order of the token lists, hence a strict order in which two names compare equal exactly when their
  tokens agree; the sorted list has the same names and never a name before one that is smaller; and
  of two names that differ first in a number (which fits int64), the one with the smaller number comes
  first whatever follows, so page 2 comes before page 10.
\<close>

theorem natural_sort_is_token_order:
  shows "(natural_less a b \<longleftrightarrow> tokens a < tokens b) \<and>
    mset (natural_sort names) = mset names \<and> sorted_wrt (\<lambda>x y. \<not> natural_less y x) (natural_sort names) \<and>
    (m < n \<longrightarrow> int n \<le> int64_max \<longrightarrow> (p = [] \<or> \<not> is_digit (last p)) \<longrightarrow>
      (s = [] \<or> \<not> is_digit (hd s)) \<longrightarrow> (t = [] \<or> \<not> is_digit (hd t)) \<longrightarrow>
      natural_less (p @ nat_digits m @ s) (p @ nat_digits n @ t))"
proof (intro conjI impI)
  show "natural_less a b \<longleftrightarrow> tokens a < tokens b" by (rule natural_less_tokens)
  show "mset (natural_sort names) = mset names" by (simp add: natural_sort_def)
  have "sorted (map tokens (natural_sort names))" by (simp add: natural_sort_def)
  then show "sorted_wrt (\<lambda>x y. \<not> natural_less y x) (natural_sort names)"
    by (simp add: sorted_wrt_map natural_less_tokens not_less)
  assume m: "m < n" "int n \<le> int64_max" and p: "p = [] \<or> \<not> is_digit (last p)"
    and s: "s = [] \<or> \<not> is_digit (hd s)" and t: "t = [] \<or> \<not> is_digit (hd t)"
  have "tokens p @ x < tokens p @ y \<longleftrightarrow> x < y" for x y
    by (rule list.induct [of "\<lambda>u. u @ x < u @ y \<longleftrightarrow> x < y" "tokens p"]) auto
  then show "natural_less (p @ nat_digits m @ s) (p @ nat_digits n @ t)"
    using m tokens_number [of m s] tokens_number [of n t] s t
    by (simp add: natural_less_tokens natural_less_prefix [OF p])
qed

lemma natural_sort_is_token_order_witness:
  "natural_less ''page2.png'' ''page10.png'' \<and> natural_sort [''p10'', ''p9'', ''P1''] = [''P1'', ''p9'', ''p10'']"
proof -
  have "natural_less (''page'' @ nat_digits 2 @ ''.png'') (''page'' @ nat_digits 10 @ ''.png'')"
    using natural_sort_is_token_order [where m = 2 and n = 10 and p = "''page''" and s = "''.png''" and t = "''.png''"] is_digit_def ch_def
    by (fastforce simp add: int64_max_def)
  moreover have "nat_digits 2 = ''2''" "nat_digits 10 = ''10''" "natural_sort [''p10'', ''p9'', ''P1''] = [''P1'', ''p9'', ''p10'']" by code_simp+
  ultimately show ?thesis by simp
qed

section \<open>The number of a chapter's name\<close>

text \<open>The first digit and what \<open>number_at\<close> reads from there; -1 when there is none (digits are ASCII).\<close>

definition parse_leading_number :: "string \<Rightarrow> f64" where
  "parse_leading_number s = (case number_at (dropWhile (\<lambda>c. \<not> is_digit c) s) of
      None \<Rightarrow> - 1
    | Some m \<Rightarrow> (case parse_float (number_text m) of None \<Rightarrow> - 1 | Some f \<Rightarrow> f))"

end
