(* ===== verification/Archives.thy ===== *)
theory Archives
  imports GoFs ZipPath NaturalSort
begin

text \<open>
  Reading archives (\<open>internal/localsource/archive.go\<close>, \<open>epub.go\<close>, \<open>pdf.go\<close>): the entries of an archive by
  the kind its file name says, the page images among them, one entry's bytes, and the chapters of an
  EPUB book. Zip and tar files are the lists of entries of the file model; what \<open>rardecode\<close>, \<open>sevenzip\<close>
  and \<open>pdfcpu\<close> read from a file, and the two XML documents of a book, are parameters.
\<close>

section \<open>Archives\<close>

datatype archive_kind = ArchiveZip | ArchiveRar | ArchiveSevenZip | ArchiveTar | ArchivePdf

definition kind_of :: "string \<Rightarrow> archive_kind" where
  "kind_of path = (let ext = to_lower (path_ext path) in
     if ext \<in> {''.cbr'', ''.rar''} then ArchiveRar
     else if ext \<in> {''.cb7'', ''.7z''} then ArchiveSevenZip
     else if ext \<in> {''.cbt'', ''.tar''} then ArchiveTar
     else if ext = ''.pdf'' then ArchivePdf
     else ArchiveZip)"

record archive_entry =
  ae_name :: string
  ae_regular :: bool
  ae_data :: string

text \<open>
  A RAR file is read entry by entry and may end in an error after some entries. \<open>ex_container\<close> gives
  the package paths of \<open>META-INF/container.xml\<close>, \<open>ex_package\<close> the manifest (id, href) and the spine of a
  package document.
\<close>

record readers =
  rd_rar :: "content \<Rightarrow> go_err + archive_entry list \<times> go_err option"
  rd_seven_zip :: "content \<Rightarrow> go_err + archive_entry list"
  rd_pdf_pages :: "content \<Rightarrow> go_err + nat"
  rd_container :: "string \<Rightarrow> go_err + string list"
  rd_package :: "string \<Rightarrow> go_err + (string \<times> string) list \<times> string list"

definition entry_of :: "string \<times> string \<Rightarrow> archive_entry" where
  "entry_of = (\<lambda>(name, data). \<lparr>ae_name = name, ae_regular = (\<not> has_suffix name ''/''), ae_data = data\<rparr>)"

definition read_entries :: "readers \<Rightarrow> archive_kind \<Rightarrow> content \<Rightarrow> go_err + archive_entry list \<times> go_err option" where
  "read_entries rd kind c = (case kind of
      ArchiveRar \<Rightarrow> rd_rar rd c
    | ArchiveSevenZip \<Rightarrow> (case rd_seven_zip rd c of Inl e \<Rightarrow> Inl e | Inr es \<Rightarrow> Inr (es, None))
    | ArchiveTar \<Rightarrow> (case c of Archive es \<Rightarrow> Inr (map entry_of es, None)
        | Bytes data \<Rightarrow> Inr ([], if data = [] then None else Some (ErrExternal ''archive/tar: invalid tar header'')))
    | _ \<Rightarrow> (case c of Archive es \<Rightarrow> Inr (map entry_of es, None) | Bytes _ \<Rightarrow> Inl (ErrExternal ''zip: not a valid zip file'')))"

definition image_exts :: "string list" where
  "image_exts = [''.webp'', ''.jpg'', ''.jpeg'', ''.png'', ''.gif'', ''.avif'', ''.bmp'']"

definition is_image_name :: "string \<Rightarrow> bool" where
  "is_image_name name \<longleftrightarrow> to_lower (path_ext name) \<in> set image_exts"

definition pdf_page_names :: "nat \<Rightarrow> string list" where
  "pdf_page_names n = map (\<lambda>i. nat_digits (i + 1)) [0..<n]"

definition image_names :: "readers \<Rightarrow> archive_kind \<Rightarrow> content \<Rightarrow> go_err + string list" where
  "image_names rd kind c = (case kind of
      ArchivePdf \<Rightarrow> (case rd_pdf_pages rd c of Inl e \<Rightarrow> Inl e | Inr n \<Rightarrow> Inr (pdf_page_names n))
    | _ \<Rightarrow> (case read_entries rd kind c of
          Inl e \<Rightarrow> Inl e
        | Inr (es, Some e) \<Rightarrow> Inl e
        | Inr (es, None) \<Rightarrow> Inr (map ae_name (filter (\<lambda>e. ae_regular e \<and> is_image_name (ae_name e)) es))))"

definition list_archive_image_names :: "readers \<Rightarrow> string \<Rightarrow> ('z fs_world_scheme, string list) act" where
  "list_archive_image_names rd path = seq (fs_call (os_read_file path)) (\<lambda>c.
     case image_names rd (kind_of path) c of Inl e \<Rightarrow> fail e | Inr names \<Rightarrow> ret names)"

text \<open>A tar or RAR entry counts when it is a regular file, any entry of the other kinds does.\<close>

definition entry_named :: "archive_kind \<Rightarrow> string \<Rightarrow> archive_entry \<Rightarrow> bool" where
  "entry_named kind name e \<longleftrightarrow> ae_name e = name \<and> (kind \<in> {ArchiveRar, ArchiveTar} \<longrightarrow> ae_regular e)"

definition has_entry :: "readers \<Rightarrow> archive_kind \<Rightarrow> string \<Rightarrow> content \<Rightarrow> bool" where
  "has_entry rd kind name c = (case kind of
      ArchivePdf \<Rightarrow> (case rd_pdf_pages rd c of Inl _ \<Rightarrow> False | Inr n \<Rightarrow> name \<in> set (pdf_page_names n))
    | _ \<Rightarrow> (case read_entries rd kind c of Inl _ \<Rightarrow> False | Inr (es, _) \<Rightarrow> list_ex (entry_named kind name) es))"

definition archive_has_entry :: "readers \<Rightarrow> string \<Rightarrow> string \<Rightarrow> ('z fs_world_scheme, bool) act" where
  "archive_has_entry rd path name = seq (attempt (fs_call (os_read_file path))) (\<lambda>r.
     ret (case r of Inl _ \<Rightarrow> False | Inr c \<Rightarrow> has_entry rd (kind_of path) name c))"

text \<open>\<open>ServeArchiveEntry\<close>: the bytes of the first entry of that name; a PDF is served by other code.\<close>

definition entry_bytes :: "readers \<Rightarrow> archive_kind \<Rightarrow> string \<Rightarrow> content \<Rightarrow> string option" where
  "entry_bytes rd kind name c = (if kind = ArchivePdf then None
     else (case read_entries rd kind c of
         Inl _ \<Rightarrow> None
       | Inr (es, _) \<Rightarrow> map_option ae_data (find (entry_named kind name) es)))"

definition serve_archive_entry :: "readers \<Rightarrow> string \<Rightarrow> string \<Rightarrow> ('z fs_world_scheme, string option) act" where
  "serve_archive_entry rd path name =
     (if kind_of path = ArchivePdf then ret None
      else seq (attempt (fs_call (os_read_file path))) (\<lambda>r.
        ret (case r of Inl _ \<Rightarrow> None | Inr c \<Rightarrow> entry_bytes rd (kind_of path) name c)))"

definition read_archive_entry :: "readers \<Rightarrow> string \<Rightarrow> string \<Rightarrow> ('z fs_world_scheme, string) act" where
  "read_archive_entry rd path name = seq (serve_archive_entry rd path name) (\<lambda>r. case r of
      Some data \<Rightarrow> ret data
    | None \<Rightarrow> fail (ErrMsg (''archive entry not found: '' @ path @ ''!'' @ name)))"

text \<open>An image the listing names can be read.\<close>

lemma listed_entry_readable:
  assumes "kind \<noteq> ArchivePdf" "image_names rd kind c = Inr names" "name \<in> set names"
  shows "has_entry rd kind name c \<and> entry_bytes rd kind name c \<noteq> None"
proof -
  obtain es e where es: "read_entries rd kind c = Inr (es, None)" "e \<in> set es" "ae_name e = name" "ae_regular e"
    using assms by (cases kind) (auto simp: image_names_def split: sum.splits option.splits prod.splits)
  then have "entry_named kind name e" by (simp add: entry_named_def)
  then have "find (entry_named kind name) es \<noteq> None" "list_ex (entry_named kind name) es"
    using es(2) by (auto simp: find_None_iff list_ex_iff)
  then show ?thesis using assms(1) es(1) by (cases kind) (auto simp: has_entry_def entry_bytes_def)
qed

section \<open>EPUB books\<close>

definition err_no_opf :: go_err where
  "err_no_opf = ErrMsg ''epub: no OPF package document found''"

text \<open>\<open>(?is)<title[^>]*>(.*?)</title>\<close>: the leftmost match with the shortest text.\<close>

fun until_close :: "string \<Rightarrow> string option" where
  "until_close [] = None"
| "until_close (c # cs) = (if has_prefix (to_lower (c # cs)) ''</title>'' then Some []
     else map_option (Cons c) (until_close cs))"

fun title_of_html :: "string \<Rightarrow> string option" where
  "title_of_html [] = None"
| "title_of_html (c # cs) =
     (case (if has_prefix (to_lower (c # cs)) ''<title''
            then (case dropWhile (\<lambda>c. c \<noteq> CHR ''>'') (drop 6 (c # cs)) of [] \<Rightarrow> None | _ # rest \<Rightarrow> until_close rest)
            else None) of
        Some t \<Rightarrow> Some t
      | None \<Rightarrow> title_of_html cs)"

definition spine_chapter_title :: "string \<Rightarrow> nat \<Rightarrow> string" where
  "spine_chapter_title data n = (case title_of_html data of
      Some t \<Rightarrow> if trim_space t \<noteq> [] then trim_space t else ''Chapter '' @ nat_digits n
    | None \<Rightarrow> ''Chapter '' @ nat_digits n)"

record epub_chapter =
  ec_title :: string
  ec_entry_path :: string

definition spine_chapter ::
    "(string \<Rightarrow> string option) \<Rightarrow> string \<Rightarrow> (string \<Rightarrow> string option) \<Rightarrow> nat \<times> string \<Rightarrow> epub_chapter option" where
  "spine_chapter files opf_dir href_by_id = (\<lambda>(i, idref). case href_by_id idref of
      None \<Rightarrow> None
    | Some href \<Rightarrow>
        let entry_path = (if opf_dir \<noteq> ''.'' then path_join [opf_dir, href] else href)
        in (case files entry_path of
              None \<Rightarrow> None
            | Some data \<Rightarrow> Some \<lparr>ec_title = spine_chapter_title data (i + 1), ec_entry_path = entry_path\<rparr>))"

definition spine_of :: "readers \<Rightarrow> (string \<times> string) list \<Rightarrow> go_err + epub_chapter list" where
  "spine_of rd entries =
     (let files = map_of (rev entries) in
      case files ''META-INF/container.xml'' of
        None \<Rightarrow> Inl err_no_opf
      | Some container_data \<Rightarrow> (case rd_container rd container_data of
          Inl e \<Rightarrow> Inl e
        | Inr [] \<Rightarrow> Inl err_no_opf
        | Inr (opf_path # _) \<Rightarrow> (case files opf_path of
            None \<Rightarrow> Inl err_no_opf
          | Some opf_data \<Rightarrow> (case rd_package rd opf_data of
              Inl e \<Rightarrow> Inl e
            | Inr (items, spine) \<Rightarrow>
                Inr (List.map_filter (spine_chapter files (path_dir opf_path) (map_of (rev items))) (enumerate 0 spine))))))"

definition parse_epub_spine :: "readers \<Rightarrow> string \<Rightarrow> ('z fs_world_scheme, epub_chapter list) act" where
  "parse_epub_spine rd path = seq (fs_call (os_read_file path)) (\<lambda>c. case c of
      Bytes _ \<Rightarrow> fail (ErrExternal ''zip: not a valid zip file'')
    | Archive entries \<Rightarrow> (case spine_of rd entries of Inl e \<Rightarrow> fail e | Inr chs \<Rightarrow> ret chs))"

end
