(* ===== verification/LocalScan.thy ===== *)
theory LocalScan
  imports Archives Q_Chapters Q_Library Q_Downloads
begin

text \<open>
  The local source (\<open>internal/localsource/scan.go\<close>, \<open>delete.go\<close>): scanning the directory of hand-added
  titles into entries, chapters and files, pruning the rows whose files are gone, deleting and renaming
  a title. Matching a new entry with a metadata provider runs in the background (\<open>maybeEnrich\<close>): the
  model records that it was started.
\<close>

record local_world = fs_world +
  lw_media_dir :: string
  lw_local_dir :: string
  lw_has_enricher :: bool
  lw_enriching :: "int list"

section \<open>Statements\<close>

definition q_get_local_media_by_external_id :: "string \<Rightarrow> medium stmt" where
  "q_get_local_media_by_external_id ext =
     select_one (\<lambda>d. find (\<lambda>m. m_extension_id m = None \<and> m_external_id m = ext) (media d))"

definition local_medium :: "int \<Rightarrow> int \<Rightarrow> string \<Rightarrow> string \<Rightarrow> string \<Rightarrow> string option \<Rightarrow> medium" where
  "local_medium i now ext ct title cover = \<lparr>m_id = i, m_extension_id = None, m_extension_name = ''Local'',
     m_external_id = ext, m_content_type = ct, m_title = title, m_cover_path = None, m_cover_local_path = cover,
     m_description = None, m_status = None, m_author = None, m_artist = None, m_extension_removed_at = None,
     m_added_at = Some now, m_last_viewed_at = None, m_details_fetched_at = Some now, m_chapters_synced_at = Some now,
     m_cover_override = None, m_content_block_rank = None, m_search_failed_at = None\<rparr>"

definition q_create_local_media :: "string \<Rightarrow> string \<Rightarrow> string \<Rightarrow> string option \<Rightarrow> medium stmt" where
  "q_create_local_media ext ct title cover now d =
     (let row = local_medium (next_id (map m_id (media d))) now ext ct title cover
      in (Inr row, d\<lparr>media := media d @ [row]\<rparr>))"

definition q_update_local_media :: "string \<Rightarrow> string option \<Rightarrow> int \<Rightarrow> medium stmt" where
  "q_update_local_media title cover i =
     q_update_media i (\<lambda>now m. m\<lparr>m_title := title, m_cover_local_path := coalesce cover (m_cover_local_path m)\<rparr>)"

definition q_rename_local_media :: "string \<Rightarrow> string \<Rightarrow> int \<Rightarrow> medium stmt" where
  "q_rename_local_media title ext i = q_update_media i (\<lambda>now m. m\<lparr>m_title := title, m_external_id := ext\<rparr>)"

text \<open>An external id that another chapter of the entry has is refused (\<open>UNIQUE (media_id, external_id)\<close>).\<close>

definition q_update_chapter_external_id :: "string \<Rightarrow> int \<Rightarrow> unit stmt" where
  "q_update_chapter_external_id ext i now d =
     (case find (\<lambda>c. c_id c = i) (chapters d) of
        None \<Rightarrow> (Inr (), d)
      | Some c \<Rightarrow> if list_ex (\<lambda>c'. c_id c' \<noteq> i \<and> c_media c' = c_media c \<and> c_external_id c' = ext) (chapters d)
          then (Inl (ErrExternal ''UNIQUE constraint failed''), d)
          else (Inr (), d\<lparr>chapters := update_where (\<lambda>c. c_id c = i) (\<lambda>c. c\<lparr>c_external_id := ext\<rparr>) (chapters d)\<rparr>))"

text \<open>
  Deleting an entry deletes the rows that hang on it and on its chapters (\<open>ON DELETE CASCADE\<close>); a
  download of one of its chapters refuses it.
\<close>

definition q_delete_media :: "int \<Rightarrow> unit stmt" where
  "q_delete_media i now d =
     (let gone = map c_id (filter (\<lambda>c. c_media c = i) (chapters d)) in
      if list_ex (\<lambda>j. d_chapter j \<in> set gone) (downloads d) then (Inl fk_error, d)
      else (Inr (), d\<lparr>media := delete_where (\<lambda>m. m_id m = i) (media d),
         chapters := delete_where (\<lambda>c. c_media c = i) (chapters d),
         manga_pages := delete_where (\<lambda>p. p_chapter p \<in> set gone) (manga_pages d),
         novel_contents := delete_where (\<lambda>n. n_chapter n \<in> set gone) (novel_contents d),
         streams := delete_where (\<lambda>s. as_chapter s \<in> set gone) (streams d),
         progresses := delete_where (\<lambda>r. rp_media r = i \<or> rp_chapter r \<in> set gone) (progresses d),
         media_tags := delete_where (\<lambda>t. mt_media t = i) (media_tags d),
         media_genres := delete_where (\<lambda>g. fst g = i) (media_genres d),
         media_folders := delete_where (\<lambda>f. fst f = i) (media_folders d),
         metadata_links := delete_where (\<lambda>l. l_media l = i) (metadata_links d),
         tracker_links := delete_where (\<lambda>l. tl_media l = i) (tracker_links d)\<rparr>))"

section \<open>Names\<close>

definition local_dir :: "'z local_world_scheme \<Rightarrow> string" where
  "local_dir w = (if lw_local_dir w \<noteq> [] then lw_local_dir w else path_join [lw_media_dir w, ''local''])"

definition set_local_dir :: "string \<Rightarrow> ('z local_world_scheme, unit) act" where
  "set_local_dir dir = modify (\<lambda>w. w\<lparr>lw_local_dir := trim_space dir\<rparr>)"

definition dir_kind :: "string \<Rightarrow> string option" where
  "dir_kind = map_of [(''manga'', ''manga''), (''anime'', ''anime''), (''novels'', ''novel''), (''novel'', ''novel'')]"

definition kind_dir_name :: "string \<Rightarrow> string option" where
  "kind_dir_name = map_of [(''manga'', ''manga''), (''anime'', ''anime''), (''novel'', ''novels'')]"

definition text_exts :: "string list" where "text_exts = [''.txt'', ''.html'', ''.htm'', ''.xhtml'', ''.md'']"
definition book_exts :: "string list" where "book_exts = [''.epub'', ''.docx'']"
definition video_exts :: "string list" where "video_exts = [''.mp4'', ''.mkv'', ''.webm'', ''.m4v'', ''.avi'', ''.mov'']"
definition archive_exts :: "string list" where
  "archive_exts = [''.cbz'', ''.zip'', ''.cbr'', ''.rar'', ''.cb7'', ''.7z'', ''.cbt'', ''.tar'', ''.pdf'']"

definition lower_ext :: "string \<Rightarrow> string" where
  "lower_ext name = to_lower (path_ext name)"

definition cover_filenames :: "string list" where
  "cover_filenames = [''cover.jpg'', ''cover.jpeg'', ''cover.png'', ''cover.webp'', ''cover.avif'']"

fun find_cover_in :: "string \<Rightarrow> string list \<Rightarrow> ('z fs_world_scheme, string) act" where
  "find_cover_in dir [] = ret []"
| "find_cover_in dir (name # names) = seq (attempt (fs_call (os_stat (path_join [dir, name])))) (\<lambda>r. case r of
      Inr _ \<Rightarrow> ret (path_join [dir, name])
    | Inl _ \<Rightarrow> find_cover_in dir names)"

definition find_cover :: "string \<Rightarrow> ('z fs_world_scheme, string) act" where
  "find_cover dir = find_cover_in dir cover_filenames"

definition first_match :: "string list \<Rightarrow> string list \<Rightarrow> string" where
  "first_match files exts = (case find (\<lambda>f. lower_ext f \<in> set exts) files of None \<Rightarrow> [] | Some f \<Rightarrow> f)"

section \<open>Ingesting\<close>

record scan_result =
  sn_media_touched :: int
  sn_chapters_added :: int
  sn_files_linked :: int
  sn_rows_pruned :: int

definition no_scan :: scan_result where
  "no_scan = \<lparr>sn_media_touched = 0, sn_chapters_added = 0, sn_files_linked = 0, sn_rows_pruned = 0\<rparr>"

definition maybe_enrich :: "int \<Rightarrow> ('z local_world_scheme, unit) act" where
  "maybe_enrich i = modify (\<lambda>w. if lw_has_enricher w then w\<lparr>lw_enriching := lw_enriching w @ [i]\<rparr> else w)"

definition upsert_local_media :: "string \<Rightarrow> string \<Rightarrow> string \<Rightarrow> string \<Rightarrow> ('z local_world_scheme, medium) act" where
  "upsert_local_media ext ct title cover =
     seq (attempt (db_call (q_get_local_media_by_external_id ext))) (\<lambda>existing. case existing of
       Inl e \<Rightarrow> if e = ErrNoRows
         then seq (db_call (q_create_local_media ext ct title (null_string cover))) (\<lambda>created.
              seq (maybe_enrich (m_id created)) (\<lambda>_. ret created))
         else fail e
     | Inr m \<Rightarrow> db_call (q_update_local_media title (null_string cover) (m_id m)))"

definition local_chapter_params :: "int \<Rightarrow> string \<Rightarrow> string \<Rightarrow> string \<Rightarrow> nat \<Rightarrow> create_chapter_params" where
  "local_chapter_params media_id media_ext key title idx = \<lparr>cp_media = media_id, cp_external_id = media_ext @ ''/'' @ key,
     cp_title = Some title,
     cp_number = Some (if parse_leading_number key < 0 then of_nat (idx + 1) else parse_leading_number key),
     cp_uploaded_at = None, cp_source_order = Some (int idx), cp_scanlator = []\<rparr>"

definition upsert_chapter_row_named ::
    "int \<Rightarrow> string \<Rightarrow> string \<Rightarrow> string \<Rightarrow> nat \<Rightarrow> ('z world_scheme, chapter_row \<times> bool) act" where
  "upsert_chapter_row_named media_id media_ext key title idx =
     seq (attempt (db_call (q_get_chapter_by_media_and_external_id media_id (media_ext @ ''/'' @ key)))) (\<lambda>found.
     seq (db_call (q_create_chapter (local_chapter_params media_id media_ext key title idx))) (\<lambda>row.
     ret (row, found = Inl ErrNoRows)))"

definition link_page :: "int \<Rightarrow> nat \<times> string \<Rightarrow> ('z world_scheme, unit) act" where
  "link_page i = (\<lambda>(page, path). db_call (q_upsert_manga_page i (int page) (Some path)))"

text \<open>The pages of a chapter are replaced: the old rows go, the new paths are numbered from 1.\<close>

definition link_pages :: "int \<Rightarrow> string list \<Rightarrow> ('z world_scheme, unit) act" where
  "link_pages i paths = seq (db_call (q_delete_manga_pages i)) (\<lambda>_. for_each (link_page i) (enumerate 1 paths))"

definition ingest_archive_chapter ::
    "readers \<Rightarrow> int \<Rightarrow> string \<Rightarrow> string \<Rightarrow> string \<Rightarrow> nat \<Rightarrow> ('z fs_world_scheme, bool \<times> int) act" where
  "ingest_archive_chapter rd media_id media_ext name path idx =
     seq (list_archive_image_names rd path) (\<lambda>names.
     seq (upsert_chapter_row_named media_id media_ext name name idx) (\<lambda>(row, created).
     seq (link_pages (c_id row) (map (zip_page_path path) (natural_sort names))) (\<lambda>_.
     ret (created, int (length names)))))"

definition ingest_epub_chapter ::
    "int \<Rightarrow> string \<Rightarrow> string \<Rightarrow> nat \<Rightarrow> bool \<times> int \<Rightarrow> nat \<times> epub_chapter \<Rightarrow> ('z fs_world_scheme, bool \<times> int) act" where
  "ingest_epub_chapter media_id media_ext path start = (\<lambda>(created, linked) (i, c).
     seq (upsert_chapter_row_named media_id media_ext (ec_entry_path c) (ec_title c) (start + i)) (\<lambda>(row, new).
     seq (db_call (q_upsert_novel_chapter_content (c_id row) (Some (zip_page_path path (ec_entry_path c))))) (\<lambda>_.
     ret (created \<or> new, linked + 1))))"

definition ingest_epub_book :: "readers \<Rightarrow> int \<Rightarrow> string \<Rightarrow> string \<Rightarrow> nat \<Rightarrow> ('z fs_world_scheme, bool \<times> int) act" where
  "ingest_epub_book rd media_id media_ext path start =
     seq (parse_epub_spine rd path) (\<lambda>chs.
     fold_act (ingest_epub_chapter media_id media_ext path start) (False, 0) (enumerate 0 chs))"

definition ingest_docx_book :: "int \<Rightarrow> string \<Rightarrow> string \<Rightarrow> nat \<Rightarrow> ('z fs_world_scheme, bool \<times> int) act" where
  "ingest_docx_book media_id media_ext path idx =
     (let key = path_base path; title = trim_suffix key (path_ext key) in
      seq (upsert_chapter_row_named media_id media_ext key title idx) (\<lambda>(row, created).
      seq (db_call (q_upsert_novel_chapter_content (c_id row) (Some (docx_book_path path)))) (\<lambda>_.
      ret (created, 1))))"

definition ingest_chapter ::
    "int \<Rightarrow> string \<Rightarrow> string \<Rightarrow> string \<Rightarrow> string \<Rightarrow> nat \<Rightarrow> ('z fs_world_scheme, bool \<times> int) act" where
  "ingest_chapter media_id ct media_ext name dir idx =
     seq (fs_call (os_read_dir dir)) (\<lambda>entries.
     let files = natural_sort (map fst (filter (\<lambda>e. snd e \<noteq> DirNode) entries)) in
     seq (upsert_chapter_row_named media_id media_ext name name idx) (\<lambda>(row, created).
     if ct = ''manga''
     then (let paths = map (\<lambda>f. path_join [dir, f]) (filter is_image_name files) in
           seq (link_pages (c_id row) paths) (\<lambda>_. ret (created, int (length paths))))
     else if ct = ''novel'' \<and> first_match files text_exts \<noteq> []
     then seq (db_call (q_upsert_novel_chapter_content (c_id row) (Some (path_join [dir, first_match files text_exts])))) (\<lambda>_. ret (created, 1))
     else if ct = ''anime'' \<and> first_match files video_exts \<noteq> []
     then seq (db_call (q_upsert_anime_episode_stream (c_id row) None (Some (path_join [dir, first_match files video_exts])))) (\<lambda>_. ret (created, 1))
     else ret (created, 0)))"

text \<open>The names in a title's folder that are chapters.\<close>

definition is_chapter_name :: "string \<Rightarrow> string \<times> node \<Rightarrow> bool" where
  "is_chapter_name ct e \<longleftrightarrow> snd e = DirNode \<or> (ct = ''manga'' \<and> lower_ext (fst e) \<in> set archive_exts) \<or>
     (ct = ''novel'' \<and> lower_ext (fst e) \<in> set book_exts)"

definition ingest_one ::
    "readers \<Rightarrow> int \<Rightarrow> string \<Rightarrow> string \<Rightarrow> string \<Rightarrow> nat \<times> string \<Rightarrow> ('z fs_world_scheme, bool \<times> int) act" where
  "ingest_one rd media_id ct media_ext title_dir = (\<lambda>(idx, name).
     let path = path_join [title_dir, name]; ext = lower_ext name in
     if ct = ''manga'' \<and> ext \<in> set archive_exts
     then ingest_archive_chapter rd media_id media_ext (trim_suffix name (path_ext name)) path idx
     else if ct = ''novel'' \<and> ext = ''.epub'' then ingest_epub_book rd media_id media_ext path idx
     else if ct = ''novel'' \<and> ext = ''.docx'' then ingest_docx_book media_id media_ext path idx
     else ingest_chapter media_id ct media_ext name path idx)"

definition count_chapter :: "bool \<times> int \<Rightarrow> scan_result \<Rightarrow> scan_result" where
  "count_chapter = (\<lambda>(created, linked) res. res\<lparr>sn_chapters_added := sn_chapters_added res + (if created then 1 else 0),
     sn_files_linked := sn_files_linked res + linked\<rparr>)"

definition ingest_title ::
    "readers \<Rightarrow> string \<Rightarrow> string \<Rightarrow> string \<Rightarrow> scan_result \<Rightarrow> string \<times> node \<Rightarrow> ('z local_world_scheme, scan_result) act" where
  "ingest_title rd kind_dir kind_segment ct res = (\<lambda>(title, n).
     if n \<noteq> DirNode then ret res
     else (let title_dir = path_join [kind_dir, title]; ext = ''local:'' @ to_lower kind_segment @ ''/'' @ title in
       seq (wrap (''local media '' @ quoted title)
             (seq (find_cover title_dir) (upsert_local_media ext ct title))) (\<lambda>m.
       seq (attempt (fs_call (os_read_dir title_dir))) (\<lambda>entries.
       let names = natural_sort (map fst (filter (is_chapter_name ct) (case entries of Inl _ \<Rightarrow> [] | Inr es \<Rightarrow> es))) in
       fold_act (\<lambda>res (idx, name).
           seq (wrap (''local chapter '' @ quoted title @ ''/'' @ quoted name) (ingest_one rd (m_id m) ct ext title_dir (idx, name)))
             (\<lambda>r. ret (count_chapter r res)))
         (res\<lparr>sn_media_touched := sn_media_touched res + 1\<rparr>) (enumerate 0 names)))))"

definition ingest_kind ::
    "readers \<Rightarrow> string \<Rightarrow> string \<Rightarrow> string \<Rightarrow> scan_result \<Rightarrow> ('z local_world_scheme, scan_result) act" where
  "ingest_kind rd kind_dir kind_segment ct res =
     seq (fs_call (os_read_dir kind_dir)) (fold_act (ingest_title rd kind_dir kind_segment ct) res)"

section \<open>Pruning\<close>

text \<open>A path whose file is gone; an archive that cannot be read has no entry any more.\<close>

definition stat_gone :: "string \<Rightarrow> ('z fs_world_scheme, bool) act" where
  "stat_gone path = seq (attempt (fs_call (os_stat path))) (\<lambda>r. ret (case r of Inl e \<Rightarrow> is_not_exist e | Inr _ \<Rightarrow> False))"

definition gone :: "readers \<Rightarrow> string \<Rightarrow> ('z fs_world_scheme, bool) act" where
  "gone rd path =
     (if path = [] then ret True
      else (case parse_zip_page_path path of
          Some (archive_path, entry_name) \<Rightarrow>
            seq (attempt (fs_call (os_stat archive_path))) (\<lambda>r. case r of
              Inl e \<Rightarrow> ret (is_not_exist e)
            | Inr _ \<Rightarrow> seq (archive_has_entry rd archive_path entry_name) (\<lambda>has. ret (\<not> has)))
        | None \<Rightarrow> (case parse_docx_book_path path of
            Some docx_path \<Rightarrow> stat_gone docx_path
          | None \<Rightarrow> stat_gone path)))"

definition prune_rows :: "readers \<Rightarrow> ('r \<Rightarrow> string option) \<Rightarrow> ('r \<Rightarrow> unit stmt) \<Rightarrow> int \<Rightarrow> 'r list \<Rightarrow> ('z fs_world_scheme, int) act" where
  "prune_rows rd path_of_row delete = fold_act (\<lambda>n r.
     seq (gone rd (string_of (path_of_row r))) (\<lambda>g.
     if \<not> g then ret n else seq (db_call (delete r)) (\<lambda>_. ret (n + 1))))"

definition prune :: "readers \<Rightarrow> ('z fs_world_scheme, int) act" where
  "prune rd =
     seq (db_call q_list_all_manga_page_paths) (\<lambda>pages.
     seq (prune_rows rd p_local_path (\<lambda>r. q_delete_manga_page (p_chapter r) (p_number r)) 0 pages) (\<lambda>n.
     seq (db_call q_list_all_novel_content_paths) (\<lambda>novels.
     seq (prune_rows rd n_local_path (\<lambda>r. q_delete_novel_chapter_content (n_chapter r)) n novels) (\<lambda>n.
     seq (db_call q_list_all_episode_stream_paths) (\<lambda>rows.
     prune_rows rd as_local_path (\<lambda>r. q_delete_anime_episode_stream (as_chapter r)) n rows)))))"

section \<open>Scanning\<close>

definition scan_kind :: "readers \<Rightarrow> string \<Rightarrow> scan_result \<Rightarrow> string \<times> node \<Rightarrow> ('z local_world_scheme, scan_result) act" where
  "scan_kind rd base res = (\<lambda>(name, n).
     if n \<noteq> DirNode then ret res
     else (case dir_kind (to_lower name) of
         None \<Rightarrow> ret res
       | Some ct \<Rightarrow> ingest_kind rd (path_join [base, name]) name ct res))"

text \<open>The counts the code returns beside an error are not looked at by its callers.\<close>

definition scan :: "readers \<Rightarrow> ('z local_world_scheme, scan_result) act" where
  "scan rd =
     seq (gets local_dir) (\<lambda>base.
     seq (attempt (fs_call (os_stat base))) (\<lambda>fi.
     seq (case fi of
         Inr DirNode \<Rightarrow> seq (attempt (fs_call (os_read_dir base))) (\<lambda>kinds.
           fold_act (scan_kind rd base) no_scan (case kinds of Inl _ \<Rightarrow> [] | Inr ks \<Rightarrow> ks))
       | _ \<Rightarrow> ret no_scan) (\<lambda>res.
     seq (prune rd) (\<lambda>n. ret (res\<lparr>sn_rows_pruned := n\<rparr>)))))"

section \<open>Deleting and renaming a title\<close>

definition local_series :: "int \<Rightarrow> ('z world_scheme, medium) act" where
  "local_series i =
     seq (wrap (''get media '' @ int_digits i) (db_call (q_get_media i))) (\<lambda>m.
     if m_extension_id m \<noteq> None \<or> m_extension_name m \<noteq> ''Local''
     then fail (ErrMsg (''media '' @ int_digits i @ '' is not a local-source series''))
     else ret m)"

definition delete_local_series :: "int \<Rightarrow> ('z local_world_scheme, unit) act" where
  "delete_local_series i =
     seq (local_series i) (\<lambda>m.
     seq (wrap (''list chapters for media '' @ int_digits i) (db_call (q_list_chapters_by_media i))) (\<lambda>chs.
     seq (if chs = [] then ret () else wrap (''delete downloads for media '' @ int_digits i) (db_call (q_delete_downloads_by_chapters (map c_id chs)))) (\<lambda>_.
     seq (wrap (''delete media '' @ int_digits i) (db_call (q_delete_media i))) (\<lambda>_.
     case kind_dir_name (m_content_type m) of
       None \<Rightarrow> ret ()
     | Some dir_name \<Rightarrow> seq (gets local_dir) (\<lambda>base.
         let title_dir = path_join [base, dir_name, m_title m] in
         seq (attempt (fs_call (os_remove_all title_dir))) (\<lambda>r. case r of
           Inl e \<Rightarrow> if is_not_exist e then ret () else fail (ErrWrap (''remove '' @ quoted title_dir) e)
         | Inr _ \<Rightarrow> ret ()))))))"

definition rename_chapter :: "string \<Rightarrow> string \<Rightarrow> chapter_row \<Rightarrow> ('z world_scheme, unit) act" where
  "rename_chapter old_ext new_ext c =
     (case cut_prefix (c_external_id c) (old_ext @ ''/'') of
        None \<Rightarrow> ret ()
      | Some rest \<Rightarrow> wrap (''rename chapter '' @ int_digits (c_id c))
          (db_call (q_update_chapter_external_id (new_ext @ ''/'' @ rest) (c_id c))))"

definition rename_local_series :: "int \<Rightarrow> string \<Rightarrow> ('z local_world_scheme, unit) act" where
  "rename_local_series i new_title =
     seq (local_series i) (\<lambda>m.
     if new_title = [] \<or> new_title = m_title m then ret ()
     else (case kind_dir_name (m_content_type m) of
         None \<Rightarrow> fail (ErrMsg (''unknown content type '' @ quoted (m_content_type m)))
       | Some dir_name \<Rightarrow> seq (gets local_dir) (\<lambda>base.
           let old_dir = path_join [base, dir_name, m_title m]; new_dir = path_join [base, dir_name, new_title];
               new_ext = ''local:'' @ to_lower dir_name @ ''/'' @ new_title in
           seq (attempt (fs_call (os_stat new_dir))) (\<lambda>r. case r of
             Inr _ \<Rightarrow> fail (ErrMsg (''a title named '' @ quoted new_title @ '' already exists''))
           | Inl _ \<Rightarrow>
               seq (wrap (''rename '' @ quoted old_dir @ '' to '' @ quoted new_dir) (fs_call (os_rename old_dir new_dir))) (\<lambda>_.
               seq (wrap (''rename media '' @ int_digits i) (db_call (q_rename_local_media new_title new_ext i))) (\<lambda>_.
               seq (wrap (''list chapters for media '' @ int_digits i) (db_call (q_list_chapters_by_media i))) (\<lambda>chs.
               for_each (rename_chapter (m_external_id m) new_ext) chs)))))))"

end
