(* ===== verification/LocalSource.thy ===== *)
theory LocalSource
  imports LocalScan
begin

text \<open>
  Properties of the local source: pruning removes exactly the rows whose file is gone, an archive's
  chapter gets its images in reading order, and three cases where the code loses or moves files it
  should not.
\<close>

section \<open>Pruning\<close>

definition file_gone :: "readers \<Rightarrow> fs \<Rightarrow> string \<Rightarrow> bool" where
  "file_gone rd fs path =
     (path = [] \<or> (case parse_zip_page_path path of
        Some (a, e) \<Rightarrow> (case fst (os_stat a fs) of
            Inl err \<Rightarrow> is_not_exist err
          | Inr _ \<Rightarrow> (case fst (os_read_file a fs) of Inl _ \<Rightarrow> True | Inr c \<Rightarrow> \<not> has_entry rd (kind_of a) e c))
      | None \<Rightarrow> (case fst (os_stat (case parse_docx_book_path path of Some p \<Rightarrow> p | None \<Rightarrow> path) fs) of
            Inl err \<Rightarrow> is_not_exist err | Inr _ \<Rightarrow> False)))"

lemma stat_gone_free:
  "fault_free w \<Longrightarrow> stat_gone p w = (Inr (case fst (os_stat p (w_fs w)) of Inl e \<Rightarrow> is_not_exist e | Inr _ \<Rightarrow> False), w)"
  using stat_fs [of p "w_fs w"] by (simp add: stat_gone_def seq_def attempt_def fs_call_free ret_def case_prod_unfold)

lemma gone_free: "fault_free w \<Longrightarrow> gone rd path w = (Inr (file_gone rd (w_fs w) path), w)"
  using stat_fs read_file_fs
  by (auto simp: gone_def file_gone_def stat_gone_free archive_has_entry_def seq_def attempt_def fs_call_free ret_def
      case_prod_unfold split: option.split sum.split)

text \<open>A table of the database: its rows can be read and replaced; rows are told apart by a key.\<close>

locale row_table =
  fixes rows_of :: "db \<Rightarrow> 'r list"
    and set_rows :: "'r list \<Rightarrow> db \<Rightarrow> db"
    and path_of_row :: "'r \<Rightarrow> string option"
    and key :: "'r \<Rightarrow> 'k"
  assumes rows_set: "rows_of (set_rows xs d) = xs"
    and set_set: "set_rows xs (set_rows ys d) = set_rows xs d"
    and set_same: "set_rows (rows_of d) d = d"

text \<open>What a table of paths offers to \<open>prune_rows\<close>: a statement that deletes by key.\<close>

locale path_table = row_table rows_of set_rows path_of_row key
  for rows_of :: "db \<Rightarrow> 'r list" and set_rows and path_of_row :: "'r \<Rightarrow> string option" and key :: "'r \<Rightarrow> 'k" +
  fixes delete :: "'r \<Rightarrow> unit stmt"
  assumes delete_row: "delete r now d = (Inr (), set_rows (filter (\<lambda>x. key x \<noteq> key r) (rows_of d)) d)"
begin

lemma prune_rows_free:
  assumes "fault_free w"
  shows "prune_rows rd path_of_row delete n rs w =
    (Inr (n + int (length (filter (\<lambda>r. file_gone rd (w_fs w) (string_of (path_of_row r))) rs))),
     w\<lparr>w_db := set_rows (filter (\<lambda>x. key x \<notin> key ` set (filter (\<lambda>r. file_gone rd (w_fs w) (string_of (path_of_row r))) rs)) (rows_of (w_db w))) (w_db w)\<rparr>)"
  using assms
proof (induction rs arbitrary: n w)
  case Nil
  then show ?case by (simp add: prune_rows_def ret_def set_same)
next
  case (Cons r rs)
  let ?g = "\<lambda>r. file_gone rd (w_fs w) (string_of (path_of_row r))"
  show ?case
  proof (cases "?g r")
    case False
    then show ?thesis using Cons by (simp add: prune_rows_def seq_def gone_free ret_def)
  next
    case True
    let ?w = "w\<lparr>w_db := set_rows (filter (\<lambda>x. key x \<noteq> key r) (rows_of (w_db w))) (w_db w)\<rparr>"
    have "db_call (delete r) w = (Inr (), ?w)" using Cons.prems by (simp add: db_call_free delete_row)
    then have "prune_rows rd path_of_row delete n (r # rs) w = prune_rows rd path_of_row delete (n + 1) rs ?w"
      using True Cons.prems by (simp add: prune_rows_def seq_def gone_free ret_def)
    moreover have "filter (\<lambda>x. key x \<notin> K) (filter (\<lambda>x. key x \<noteq> key r) xs) = filter (\<lambda>x. key x \<notin> insert (key r) K) xs" for K xs
      by (induction xs) auto
    moreover have "filter ?g (r # rs) = r # filter ?g rs" using True by simp
    ultimately show ?thesis
      using Cons.IH [of ?w "n + 1"] Cons.prems by (simp add: rows_set set_set del: filter.simps filter_filter)
  qed
qed

text \<open>From the rows with a path that the table lists, exactly those go whose file is gone.\<close>

lemma prune_listed:
  fixes rd :: readers and w :: "'z fs_world_scheme"
  assumes "fault_free w" "distinct (map key (rows_of (w_db w)))"
  defines "stale \<equiv> \<lambda>r. nonempty_path (path_of_row r) \<and> file_gone rd (w_fs w) (string_of (path_of_row r))"
  shows "prune_rows rd path_of_row delete n (filter (\<lambda>r. nonempty_path (path_of_row r)) (rows_of (w_db w))) w =
    (Inr (n + int (length (filter stale (rows_of (w_db w))))),
     w\<lparr>w_db := set_rows (filter (\<lambda>r. \<not> stale r) (rows_of (w_db w))) (w_db w)\<rparr>)"
proof -
  have "key x \<notin> key ` set (filter stale (rows_of (w_db w))) \<longleftrightarrow> \<not> stale x" if "x \<in> set (rows_of (w_db w))" for x
    using inj_onD [OF conjunct2 [OF assms(2) [unfolded distinct_map]]] that by (auto simp: image_iff)
  then have "filter (\<lambda>x. key x \<notin> key ` set (filter stale (rows_of (w_db w)))) (rows_of (w_db w)) = filter (\<lambda>r. \<not> stale r) (rows_of (w_db w))"
    by (intro filter_cong) simp_all
  then show ?thesis unfolding prune_rows_free [OF assms(1)] by (simp add: stale_def conj_commute)
qed

end

interpretation page_table: path_table manga_pages "\<lambda>xs d. d\<lparr>manga_pages := xs\<rparr>" p_local_path
  "\<lambda>p. (p_chapter p, p_number p)" "\<lambda>r. q_delete_manga_page (p_chapter r) (p_number r)"
  by unfold_locales (auto simp: q_delete_manga_page_def exec_def delete_where_def)

interpretation novel_table: path_table novel_contents "\<lambda>xs d. d\<lparr>novel_contents := xs\<rparr>" n_local_path n_chapter
  "\<lambda>r. q_delete_novel_chapter_content (n_chapter r)"
  by unfold_locales (auto simp: q_delete_novel_chapter_content_def exec_def delete_where_def)

interpretation stream_table: path_table streams "\<lambda>xs d. d\<lparr>streams := xs\<rparr>" as_local_path as_chapter
  "\<lambda>r. q_delete_anime_episode_stream (as_chapter r)"
  by unfold_locales (auto simp: q_delete_anime_episode_stream_def exec_def delete_where_def)

lemma prune_free:
  fixes w :: "'z fs_world_scheme" and rd :: readers
  assumes "fault_free w" "distinct (map (\<lambda>p. (p_chapter p, p_number p)) (manga_pages (w_db w)))"
    "distinct (map n_chapter (novel_contents (w_db w)))" "distinct (map as_chapter (streams (w_db w)))"
  defines "stale \<equiv> \<lambda>path. nonempty_path path \<and> file_gone rd (w_fs w) (string_of path)"
  shows "prune rd w =
    (Inr (int (length (filter (\<lambda>p. stale (p_local_path p)) (manga_pages (w_db w))) +
               length (filter (\<lambda>n. stale (n_local_path n)) (novel_contents (w_db w))) +
               length (filter (\<lambda>s. stale (as_local_path s)) (streams (w_db w))))),
     w\<lparr>w_db := (w_db w)\<lparr>manga_pages := filter (\<lambda>p. \<not> stale (p_local_path p)) (manga_pages (w_db w)),
       novel_contents := filter (\<lambda>n. \<not> stale (n_local_path n)) (novel_contents (w_db w)),
       streams := filter (\<lambda>s. \<not> stale (as_local_path s)) (streams (w_db w))\<rparr>\<rparr>)"
proof -
  let ?w1 = "w\<lparr>w_db := (w_db w)\<lparr>manga_pages := filter (\<lambda>p. \<not> stale (p_local_path p)) (manga_pages (w_db w))\<rparr>\<rparr>"
  let ?w2 = "?w1\<lparr>w_db := (w_db ?w1)\<lparr>novel_contents := filter (\<lambda>n. \<not> stale (n_local_path n)) (novel_contents (w_db w))\<rparr>\<rparr>"
  have "distinct (map n_chapter (novel_contents (w_db ?w1)))" "distinct (map as_chapter (streams (w_db ?w2)))"
    using assms(3,4) by simp_all
  note steps = page_table.prune_listed [OF assms(1,2), of rd] novel_table.prune_listed [OF _ this(1), of rd]
    stream_table.prune_listed [OF _ this(2), of rd]
  show ?thesis
    using steps assms(1)
    by (simp add: prune_def seq_def db_call_free select_all_def q_list_all_manga_page_paths_def
        q_list_all_novel_content_paths_def q_list_all_episode_stream_paths_def stale_def)
qed

subsection \<open>The places a path column can name\<close>

text \<open>
  What a row's path stands for, as the scanner writes it: a file or directory, an entry of an archive
  (or a page of a PDF), a DOCX book; and when such a place is there. The text of a place names no other
  place as long as a file's path does not begin like one of the two virtual ones and an entry's name
  has no exclamation mark.
\<close>

datatype place = PlainFile string | ArchiveEntry string string | DocxBook string

fun place_text :: "place \<Rightarrow> string" where
  "place_text (PlainFile p) = p"
| "place_text (ArchiveEntry a e) = ''zip://'' @ a @ ''!'' @ e"
| "place_text (DocxBook p) = ''docx://'' @ p"

fun proper_place :: "place \<Rightarrow> bool" where
  "proper_place (PlainFile p) \<longleftrightarrow> p \<noteq> [] \<and> (\<nexists>t. p = ''zip://'' @ t) \<and> (\<nexists>t. p = ''docx://'' @ t)"
| "proper_place (ArchiveEntry a e) \<longleftrightarrow> CHR ''!'' \<notin> set e"
| "proper_place (DocxBook p) \<longleftrightarrow> True"

definition node_there :: "fs \<Rightarrow> string \<Rightarrow> bool" where
  "node_there fs p \<longleftrightarrow> fs_get fs (location p) \<noteq> None \<or> snd (location p) = []"

fun place_there :: "readers \<Rightarrow> fs \<Rightarrow> place \<Rightarrow> bool" where
  "place_there rd fs (PlainFile p) \<longleftrightarrow> node_there fs p"
| "place_there rd fs (DocxBook p) \<longleftrightarrow> node_there fs p"
| "place_there rd fs (ArchiveEntry a e) \<longleftrightarrow> (case fs_get fs (location a) of
       Some (FileNode c) \<Rightarrow>
         if kind_of a = ArchivePdf then (case rd_pdf_pages rd c of Inr n \<Rightarrow> e \<in> set (pdf_page_names n) | Inl _ \<Rightarrow> False)
         else (case read_entries rd (kind_of a) c of Inr (es, _) \<Rightarrow> \<exists>x \<in> set es. entry_named (kind_of a) e x | Inl _ \<Rightarrow> False)
     | _ \<Rightarrow> False)"

lemma stat_there: "(case fst (os_stat p fs) of Inl err \<Rightarrow> is_not_exist err | Inr _ \<Rightarrow> False) \<longleftrightarrow> \<not> node_there fs p"
  by (auto simp: os_stat_def node_there_def is_not_exist_def split: option.split)

lemma has_entry_iff:
  "has_entry rd k e c \<longleftrightarrow>
     (if k = ArchivePdf then (case rd_pdf_pages rd c of Inr n \<Rightarrow> e \<in> set (pdf_page_names n) | Inl _ \<Rightarrow> False)
      else (case read_entries rd k c of Inr (es, _) \<Rightarrow> \<exists>x \<in> set es. entry_named k e x | Inl _ \<Rightarrow> False))"
  by (cases k) (auto simp: has_entry_def list_ex_iff split: sum.split)

lemma file_gone_place:
  assumes "proper_place pl"
  shows "file_gone rd fs (place_text pl) \<longleftrightarrow> \<not> place_there rd fs pl"
proof (cases pl)
  case (PlainFile p)
  with assms have p: "p \<noteq> []" "cut_prefix p zip_prefix = None" "cut_prefix p docx_prefix = None"
    by (auto simp: cut_prefix_Some zip_prefix_def docx_prefix_def intro: ccontr)
  show ?thesis unfolding PlainFile
    using p by (simp add: file_gone_def parse_zip_page_path_def parse_docx_book_path_def stat_there)
next
  case (DocxBook p)
  then show ?thesis
    using docx_not_zip [of p] docx_codec.dec_enc [of p] stat_there [of p fs]
    by (simp add: file_gone_def docx_book_path_def docx_prefix_def)
next
  case (ArchiveEntry a e)
  then have "parse_zip_page_path (place_text pl) = Some (a, e)"
    using zip_codec.dec_enc [of "(a, e)"] assms by (simp add: zip_page_path_def zip_prefix_def)
  moreover have "place_text pl \<noteq> []" by (simp add: ArchiveEntry)
  ultimately show ?thesis unfolding ArchiveEntry
    by (auto simp: file_gone_def os_stat_def os_read_file_def is_not_exist_def has_entry_iff split: option.splits node.splits)
qed


section \<open>The pages of a scanned chapter\<close>

definition page_row :: "int \<Rightarrow> nat \<times> string \<Rightarrow> manga_page" where
  "page_row i = (\<lambda>(n, path). \<lparr>p_chapter = i, p_number = int n, p_local_path = Some path\<rparr>)"

lemma link_page_rows:
  assumes "fault_free w" "has_chapter i (w_db w)" "\<And>p. p \<in> set (manga_pages (w_db w)) \<Longrightarrow> p_chapter p = i \<Longrightarrow> p_number p < int k"
  shows "for_each (link_page i) (enumerate k paths) w =
    (Inr (), w\<lparr>w_db := (w_db w)\<lparr>manga_pages := manga_pages (w_db w) @ map (page_row i) (enumerate k paths)\<rparr>\<rparr>)"
  using assms
proof (induction paths arbitrary: k w)
  case (Cons path paths)
  let ?w = "w\<lparr>w_db := (w_db w)\<lparr>manga_pages := manga_pages (w_db w) @ [page_row i (k, path)]\<rparr>\<rparr>"
  have "\<not> (p_chapter p = i \<and> p_number p = int k)" if "p \<in> set (manga_pages (w_db w))" for p
    using Cons.prems(3) [OF that] by auto
  then have "find (\<lambda>p. p_chapter p = i \<and> p_number p = int k) (manga_pages (w_db w)) = None"
    unfolding find_None_iff by blast
  then have 1: "link_page i (k, path) w = (Inr (), ?w)"
    using Cons.prems by (simp add: link_page_def db_call_free q_upsert_manga_page_def with_fk_def upsert_def page_row_def)
  have "has_chapter i (w_db ?w)" using Cons.prems(2) by (simp add: has_chapter_def)
  moreover have "p_number p < int (Suc k)" if "p \<in> set (manga_pages (w_db ?w))" "p_chapter p = i" for p
    using Cons.prems(3) [of p] that by (auto simp: page_row_def dest: arg_cong [where f = p_number])
  ultimately show ?case using Cons.IH [of ?w "Suc k"] Cons.prems(1) 1 by (simp add: seq_def)
qed (simp add: ret_def)

lemma link_pages_free:
  assumes "fault_free w" "has_chapter i (w_db w)"
  shows "link_pages i paths w = (Inr (), w\<lparr>w_db := (w_db w)\<lparr>manga_pages :=
    filter (\<lambda>p. p_chapter p \<noteq> i) (manga_pages (w_db w)) @ map (page_row i) (enumerate 1 paths)\<rparr>\<rparr>)"
proof -
  let ?w = "w\<lparr>w_db := (w_db w)\<lparr>manga_pages := filter (\<lambda>p. p_chapter p \<noteq> i) (manga_pages (w_db w))\<rparr>\<rparr>"
  have "db_call (q_delete_manga_pages i) w = (Inr (), ?w)"
    using assms(1) by (simp add: db_call_free q_delete_manga_pages_def exec_def delete_where_def)
  moreover have "has_chapter i (w_db ?w)" using assms(2) by (simp add: has_chapter_def)
  ultimately show ?thesis using link_page_rows [of ?w i 1 paths] assms(1) by (simp add: link_pages_def seq_def)
qed

lemma upsert_fst: "(\<exists>r \<in> set rows. P r \<and> fst (upsert P f new rows) = f r) \<or> fst (upsert P f new rows) = new"
  "fst (upsert P f new rows) \<in> set (snd (upsert P f new rows))"
  by (auto simp: upsert_def update_where_def split: option.split dest!: find_SomeD)

definition upserted_chapter :: "create_chapter_params \<Rightarrow> 'z world_scheme \<Rightarrow> chapter_row \<times> chapter_row list" where
  "upserted_chapter p w = upsert (same_chapter p) (chapter_updated p)
     (chapter_created p (next_id (map c_id (chapters (w_db w)))) (w_now w)) (chapters (w_db w))"

lemma upserted_chapter_fields:
  "c_media (fst (upserted_chapter p w)) = cp_media p" "c_external_id (fst (upserted_chapter p w)) = cp_external_id p"
  "c_source_order (fst (upserted_chapter p w)) = cp_source_order p" "c_title (fst (upserted_chapter p w)) = cp_title p"
  "fst (upserted_chapter p w) \<in> set (snd (upserted_chapter p w))"
proof -
  show "fst (upserted_chapter p w) \<in> set (snd (upserted_chapter p w))" unfolding upserted_chapter_def by (rule upsert_fst(2))
  let ?row = "fst (upserted_chapter p w)"
  consider r where "same_chapter p r" "?row = chapter_updated p r"
    | "?row = chapter_created p (next_id (map c_id (chapters (w_db w)))) (w_now w)"
    using upsert_fst(1) [where rows = "chapters (w_db w)" and P = "same_chapter p" and f = "chapter_updated p"
        and new = "chapter_created p (next_id (map c_id (chapters (w_db w)))) (w_now w)", folded upserted_chapter_def]
    by blast
  then have "c_media ?row = cp_media p \<and> c_external_id ?row = cp_external_id p \<and> c_source_order ?row = cp_source_order p \<and> c_title ?row = cp_title p"
  proof cases
    case 1
    then show ?thesis unfolding 1(2) by (simp add: chapter_updated_def same_chapter_def)
  next
    case 2
    then show ?thesis unfolding 2 by (simp add: chapter_created_def)
  qed
  then show "c_media ?row = cp_media p" "c_external_id ?row = cp_external_id p" "c_source_order ?row = cp_source_order p" "c_title ?row = cp_title p"
    by simp_all
qed

lemma upsert_chapter_row_free:
  fixes w :: "'z world_scheme" and ext key title :: string and idx :: nat
  assumes "fault_free w" "media_id \<in> set (map m_id (media (w_db w)))"
  defines "p \<equiv> local_chapter_params media_id ext key title idx"
  shows "\<exists>new. upsert_chapter_row_named media_id ext key title idx w =
    (Inr (fst (upserted_chapter p w), new), w\<lparr>w_db := (w_db w)\<lparr>chapters := snd (upserted_chapter p w)\<rparr>\<rparr>)"
proof -
  have "snd (db_call (q_get_chapter_by_media_and_external_id media_id (ext @ ''/'' @ key)) w) = w"
    by (cases "find (\<lambda>c. c_media c = media_id \<and> c_external_id c = ext @ ''/'' @ key) (chapters (w_db w))")
       (simp_all add: db_call_free [OF assms(1)] q_get_chapter_by_media_and_external_id_def select_one_def)
  moreover have "cp_media p = media_id" by (simp add: p_def local_chapter_params_def)
  then have "db_call (q_create_chapter p) w = (Inr (fst (upserted_chapter p w)), w\<lparr>w_db := (w_db w)\<lparr>chapters := snd (upserted_chapter p w)\<rparr>\<rparr>)"
    using assms(1,2)
    by (cases "upserted_chapter p w") (simp add: db_call_free q_create_chapter_def with_fk_def flip: upserted_chapter_def)
  ultimately show ?thesis
    by (simp add: upsert_chapter_row_named_def seq_def attempt_eq ret_def flip: p_def)
qed

text \<open>
  C26: Scanning a comic archive makes it one chapter: when no call fails and the archive's images can be
  listed, the chapter's row carries the archive's name under the title and its place in the folder, its
  pages are the archive's images, each once, numbered from 1 in natural order of their names, replacing
  whatever pages it had; no other chapter's pages and no file change. In an archive that is not a PDF,
  every page whose name has no exclamation mark is found again by the pruning that ends the scan, and
  its bytes can be read; an image with such a mark in its name is recorded but not found again.
\<close>

theorem archive_chapter_pages:
  fixes w :: "'z fs_world_scheme"
  assumes "fault_free w" "media_id \<in> set (map m_id (media (w_db w)))"
    "fs_get (w_fs w) (location path) = Some (FileNode c)" "image_names rd (kind_of path) c = Inr names"
  shows "\<exists>created w' row. ingest_archive_chapter rd media_id ext name path idx w = (Inr (created, int (length names)), w') \<and>
    row \<in> set (chapters (w_db w')) \<and> c_media row = media_id \<and> c_external_id row = ext @ ''/'' @ name \<and>
    c_title row = Some name \<and> c_source_order row = Some (int idx) \<and>
    filter (\<lambda>p. p_chapter p = c_id row) (manga_pages (w_db w')) =
      map (page_row (c_id row)) (enumerate 1 (map (zip_page_path path) (natural_sort names))) \<and>
    filter (\<lambda>p. p_chapter p \<noteq> c_id row) (manga_pages (w_db w')) = filter (\<lambda>p. p_chapter p \<noteq> c_id row) (manga_pages (w_db w)) \<and>
    w_fs w' = w_fs w \<and>
    (kind_of path \<noteq> ArchivePdf \<longrightarrow> (\<forall>n \<in> set names. CHR ''!'' \<notin> set n \<longrightarrow>
       fst (gone rd (zip_page_path path n) w') = Inr False \<and> entry_bytes rd (kind_of path) n c \<noteq> None))"
proof -
  let ?p = "local_chapter_params media_id ext name name idx"
  let ?row = "fst (upserted_chapter ?p w)" and ?w1 = "w\<lparr>w_db := (w_db w)\<lparr>chapters := snd (upserted_chapter ?p w)\<rparr>\<rparr>"
  have read: "fst (os_read_file path (w_fs w)) = Inr c" using assms(3) by (simp add: os_read_file_def)
  have names: "list_archive_image_names rd path w = (Inr names, w)"
    using assms(1,4) read read_file_fs [of path "w_fs w"]
    by (simp add: list_archive_image_names_def seq_def fs_call_free ret_def case_prod_unfold)
  obtain new where row: "upsert_chapter_row_named media_id ext name name idx w = (Inr (?row, new), ?w1)"
    using upsert_chapter_row_free [OF assms(1,2)] by blast
  have "has_chapter (c_id ?row) (w_db ?w1)" using upserted_chapter_fields(5) [of ?p w] by (simp add: has_chapter_def)
  note link = link_pages_free [OF _ this, of "map (zip_page_path path) (natural_sort names)"]
  have there: "\<not> file_gone rd (w_fs w) (zip_page_path path n)"
    if "n \<in> set names" "CHR ''!'' \<notin> set n" "kind_of path \<noteq> ArchivePdf" for n
    using listed_entry_readable [OF that(3) assms(4) that(1)] that(2) read assms(3) zip_codec.dec_enc [of "(path, n)"]
    by (simp add: file_gone_def os_stat_def zip_page_path_def zip_prefix_def)
  have gone: "fst (gone rd (zip_page_path path n) (w\<lparr>w_db := d\<rparr>)) = Inr False"
    if "n \<in> set names" "CHR ''!'' \<notin> set n" "kind_of path \<noteq> ArchivePdf" for n d
    using gone_free [of "w\<lparr>w_db := d\<rparr>"] assms(1) there [OF that] by simp
  have other: "filter (\<lambda>p. p_chapter p \<noteq> i) (map (page_row i) xs) = []" "filter (\<lambda>p. p_chapter p = i) (map (page_row i) xs) = map (page_row i) xs" for i xs
    by (auto simp: filter_empty_conv filter_id_conv page_row_def)
  show ?thesis
    using names row link assms(1) listed_entry_readable [OF _ assms(4)] gone upserted_chapter_fields [of ?p w]
    by (intro exI [of _ new] exI [of _ "snd (link_pages (c_id ?row) (map (zip_page_path path) (natural_sort names)) ?w1)"] exI [of _ ?row])
       (simp add: ingest_archive_chapter_def seq_def ret_def other filter_filter local_chapter_params_def)
qed

section \<open>A concrete local source\<close>

text \<open>
  A directory with a comic, and two books of one title whose packages use the same file names, as books
  written by one tool do; their XML decodes to one chapter each.
\<close>

definition demo_readers :: readers where
  "demo_readers = \<lparr>rd_rar = (\<lambda>_. Inl ErrNoRows), rd_seven_zip = (\<lambda>_. Inl ErrNoRows), rd_pdf_pages = (\<lambda>_. Inl ErrNoRows),
     rd_container = (\<lambda>_. Inr [''OEBPS/content.opf'']), rd_package = (\<lambda>_. Inr ([(''i'', ''c.xhtml'')], [''i'']))\<rparr>"

definition demo_book :: "string \<Rightarrow> content" where
  "demo_book text = Archive [(''META-INF/container.xml'', ''c''), (''OEBPS/content.opf'', ''p''), (''OEBPS/c.xhtml'', text)]"

definition demo_comic :: content where
  "demo_comic = Archive [(''p10.png'', ''B''), (''p2.png'', ''A''), (''info.txt'', ''x'')]"

definition at_path :: "string \<Rightarrow> node \<Rightarrow> location \<times> node" where
  "at_path p n = (location p, n)"

definition demo_local_fs :: fs where
  "demo_local_fs = [at_path ''/lib'' DirNode, at_path ''/lib/local'' DirNode,
     at_path ''/lib/local/manga'' DirNode, at_path ''/lib/local/manga/C'' DirNode, at_path ''/lib/local/manga/C/a.cbz'' (FileNode demo_comic),
     at_path ''/lib/local/novels'' DirNode, at_path ''/lib/local/novels/T'' DirNode,
     at_path ''/lib/local/novels/T/b1.epub'' (FileNode (demo_book ''one'')), at_path ''/lib/local/novels/T/b2.epub'' (FileNode (demo_book ''two''))]"

definition demo_local_world :: local_world where
  "demo_local_world = \<lparr>w_db = empty_db, w_now = 9, w_faults = [], w_fs = demo_local_fs, lw_media_dir = ''/lib'',
     lw_local_dir = [], lw_has_enricher = True, lw_enriching = []\<rparr>"

definition demo_scanned :: local_world where
  "demo_scanned = snd (scan demo_readers demo_local_world)"

definition demo_stale :: local_world where
  "demo_stale = demo_local_world\<lparr>w_db := empty_db\<lparr>manga_pages := [page_row 1 (1, ''/lib/gone.png''), page_row 1 (2, ''/lib/local''),
     page_row 1 (3, ''zip:///lib/local/manga/C/a.cbz!p2.png''), page_row 1 (4, ''zip:///lib/local/manga/C/a.cbz!p3.png'')]\<rparr>\<rparr>"


definition demo_comic_world :: local_world where
  "demo_comic_world = demo_local_world\<lparr>w_db := empty_db\<lparr>media := [local_medium 1 0 ''local:manga/C'' ''manga'' ''C'' None]\<rparr>\<rparr>"

lemma archive_chapter_pages_witness:
  "\<exists>created w' (row :: chapter_row). ingest_archive_chapter demo_readers 1 ''local:manga/C'' ''a'' ''/lib/local/manga/C/a.cbz'' 0 demo_comic_world = (Inr (created, 2), w') \<and>
    c_external_id row = ''local:manga/C/a'' \<and>
    filter (\<lambda>p. p_chapter p = c_id row) (manga_pages (w_db w')) =
      [page_row (c_id row) (1, ''zip:///lib/local/manga/C/a.cbz!p2.png''), page_row (c_id row) (2, ''zip:///lib/local/manga/C/a.cbz!p10.png'')]"
proof -
  let ?names = "[''p10.png'', ''p2.png'']" and ?path = "''/lib/local/manga/C/a.cbz''"
  have n: "image_names demo_readers (kind_of ?path) demo_comic = Inr ?names" "natural_sort ?names = [''p2.png'', ''p10.png'']"
    "fs_get (w_fs demo_comic_world) (location ?path) = Some (FileNode demo_comic)" by code_simp+
  have w: "fault_free demo_comic_world" "1 \<in> set (map m_id (media (w_db demo_comic_world)))"
    by (simp_all add: demo_comic_world_def demo_local_world_def local_medium_def)
  obtain created w' and row :: chapter_row where result: "ingest_archive_chapter demo_readers 1 ''local:manga/C'' ''a'' ?path 0 demo_comic_world = (Inr (created, int (length ?names)), w')"
    and row: "c_external_id row = ''local:manga/C'' @ ''/'' @ ''a''"
    and rows: "filter (\<lambda>p. p_chapter p = c_id row) (manga_pages (w_db w')) =
      map (page_row (c_id row)) (enumerate 1 (map (zip_page_path ?path) (natural_sort ?names)))"
    using archive_chapter_pages [OF w n(3,1), of "''local:manga/C''" "''a''" 0] by blast
  show ?thesis
    by (intro exI [of _ created] exI [of _ w'] exI [of _ row])
       (use result row rows in \<open>simp add: n(2) zip_page_path_def zip_prefix_def numeral_2_eq_2\<close>)
qed

section \<open>Where the local source goes wrong\<close>

text \<open>
  Two books of one title share their chapters when their packages use the same file names: a chapter's
  external id is the title's id and the path inside the book, without the book. After the scan the title
  has one chapter, which reads the second book; the first book cannot be reached.
\<close>

theorem second_book_takes_over:
  "map (\<lambda>c. (c_external_id c, c_source_order c)) (filter (\<lambda>c. c_media c = 2) (chapters (w_db demo_scanned))) = [(''local:novels/T/OEBPS/c.xhtml'', Some 1)] \<and>
   map n_local_path (novel_contents (w_db demo_scanned)) = [Some ''zip:///lib/local/novels/T/b2.epub!OEBPS/c.xhtml'']"
  by code_simp

text \<open>A new title with double dots moves the folder out of the local source.\<close>

theorem rename_leaves_local_dir:
  "let w' = snd (rename_local_series 1 ''../../out'' demo_scanned) in
   fs_get (w_fs w') (location ''/lib/local/manga/C'') = None \<and> fs_get (w_fs w') (location ''/lib/out/a.cbz'') = Some (FileNode demo_comic) \<and>
   map m_external_id (media (w_db w')) = [''local:manga/../../out'', ''local:novels/T'']"
  by code_simp

text \<open>
  Deleting a title that was scanned from a folder named \<open>novel\<close> (which the scan accepts beside \<open>novels\<close>)
  deletes its rows and leaves its files, so the next scan brings it back.
\<close>

definition demo_novel_world :: local_world where
  "demo_novel_world = demo_local_world\<lparr>w_fs := [at_path ''/lib'' DirNode, at_path ''/lib/local'' DirNode,
     at_path ''/lib/local/novel'' DirNode, at_path ''/lib/local/novel/T'' DirNode]\<rparr>"

theorem deleted_series_comes_back:
  "let w1 = snd (scan demo_readers demo_novel_world); w2 = snd (delete_local_series 1 w1); w3 = snd (scan demo_readers w2) in
   map m_title (media (w_db w1)) = [''T''] \<and> media (w_db w2) = [] \<and> is_dir (w_fs w2) (location ''/lib/local/novel/T'') \<and>
   map m_title (media (w_db w3)) = [''T'']"
  by code_simp

end
