(* ===== verification/Relocation.thy ===== *)
theory Relocation
  imports Downloads LocalScan
begin

text \<open>
  Moving files: the downloads directory (\<open>internal/download/relocate.go\<close>), the local source's directory
  (\<open>internal/localsource/relocate.go\<close>), and repacking downloaded chapters between loose images and
  archives (\<open>internal/download/format_migrate.go\<close>). A tree is copied by a visitor of \<open>filepath.WalkDir\<close>;
  the rows that name files are rewritten; then the old tree goes. The lemmas are in \<open>RelocationSafety\<close>
  and \<open>FormatMigration\<close>.
\<close>

section \<open>Paths\<close>

text \<open>\<open>filepath.Abs\<close>: asking for the working directory may fail.\<close>

definition abs_path :: "string \<Rightarrow> string \<Rightarrow> ('z world_scheme, string) act" where
  "abs_path cwd p = (if rooted p then ret (path_clean p) else seq (ext_call (Inr cwd)) (\<lambda>d. ret (path_join [d, p])))"

text \<open>\<open>filepath.Rel\<close>, on cleaned paths: up from what the base has left, then down.\<close>

definition path_rel :: "string \<Rightarrow> string \<Rightarrow> go_err + string" where
  "path_rel base targ =
     (let (rb, b) = location base; (rt, t) = location targ; k = length (longest_common_prefix b t) in
      if rb \<noteq> rt \<or> (drop k b \<noteq> [] \<and> hd (drop k b) = ''..'')
      then Inl (ErrMsg (''Rel: can't make '' @ targ @ '' relative to '' @ base))
      else (case replicate (length b - k) ''..'' @ drop k t of
          [] \<Rightarrow> Inr ''.''
        | es \<Rightarrow> Inr (join ''/'' es)))"

definition is_subpath :: "string \<Rightarrow> string \<Rightarrow> bool" where
  "is_subpath par child = (case path_rel par child of
      Inl _ \<Rightarrow> False
    | Inr rel \<Rightarrow> rel \<noteq> ''.'' \<and> rel \<noteq> ''..'' \<and> \<not> has_prefix rel ''../'')"

section \<open>Copying a tree\<close>

text \<open>
  \<open>io.Copy\<close> writes the open file; when it or the close fails, what was written is removed. How big a
  directory is said to be is up to the file system (\<open>ds\<close>).
\<close>

definition copy_file :: "string \<Rightarrow> string \<Rightarrow> ('z fs_world_scheme, unit) act" where
  "copy_file src dst =
     seq (fs_call (os_read_file src)) (\<lambda>data.
     let tmp = dst @ ''.part'' in
     seq (fs_call (os_write_file tmp (Bytes []))) (\<lambda>_.
     seq (attempt (seq (fs_call (os_write_file tmp data)) (\<lambda>_. ext_call (Inr ())))) (\<lambda>r. case r of
       Inl e \<Rightarrow> seq (ignore (fs_call (os_remove tmp))) (\<lambda>_. fail e)
     | Inr _ \<Rightarrow> fs_call (os_rename tmp dst))))"

definition info_size :: "nat \<Rightarrow> node \<Rightarrow> nat" where
  "info_size ds n = (if n = DirNode then ds else file_size n)"

definition copy_entry :: "nat \<Rightarrow> string \<Rightarrow> string \<Rightarrow> string \<times> node \<Rightarrow> ('z fs_world_scheme, int \<times> int) act" where
  "copy_entry ds src dst = (\<lambda>(p, n).
     case path_rel src p of
       Inl e \<Rightarrow> fail e
     | Inr rel \<Rightarrow> let target = path_join [dst, rel] in
         if n = DirNode then seq (fs_call (os_mkdir_all target)) (\<lambda>_. ret (0, 0))
         else seq (fs_call (os_stat p)) (\<lambda>info.
           seq (attempt (fs_call (os_stat target))) (\<lambda>st.
           if (case st of Inl _ \<Rightarrow> False | Inr m \<Rightarrow> info_size ds m = info_size ds info)
           then ret (1, int (info_size ds info))
           else seq (fs_call (os_mkdir_all (path_dir target))) (\<lambda>_.
             seq (copy_file p target) (\<lambda>_. ret (1, int (info_size ds info)))))))"

text \<open>
  \<open>filepath.WalkDir\<close>: the visitor runs on a node, then on what is in it, by name. Every level uses one
  unit of fuel; the number of elements of the longest path is enough (\<open>copy_tree_complete\<close> has every file
  copied, and could not hold if the walk stopped above one).
\<close>

definition add_counts :: "int \<times> int \<Rightarrow> int \<times> int \<Rightarrow> int \<times> int" where
  "add_counts a b = (fst a + fst b, snd a + snd b)"

primrec walk_dir :: "nat \<Rightarrow> (string \<times> node \<Rightarrow> ('z fs_world_scheme, int \<times> int) act) \<Rightarrow>
    int \<times> int \<Rightarrow> string \<times> node \<Rightarrow> ('z fs_world_scheme, int \<times> int) act" where
  "walk_dir 0 f acc e = seq (f e) (\<lambda>c. ret (add_counts acc c))"
| "walk_dir (Suc fuel) f acc e = seq (f e) (\<lambda>c.
     if snd e \<noteq> DirNode then ret (add_counts acc c)
     else seq (fs_call (os_read_dir (fst e))) (\<lambda>es.
       fold_act (\<lambda>acc (name, n). walk_dir fuel f acc (path_join [fst e, name], n)) (add_counts acc c) es))"

definition max_depth :: "fs \<Rightarrow> nat" where
  "max_depth fs = foldr (\<lambda>e n. max (length (snd (fst e))) n) fs 0"

definition copy_tree :: "nat \<Rightarrow> string \<Rightarrow> string \<Rightarrow> ('z fs_world_scheme, int \<times> int) act" where
  "copy_tree ds src dst =
     seq (gets (\<lambda>w. max_depth (w_fs w))) (\<lambda>fuel.
     seq (fs_call (os_stat src)) (\<lambda>n. walk_dir fuel (copy_entry ds src dst) (0, 0) (src, n)))"

section \<open>The downloads directory\<close>

definition download_subdirs :: "string list" where
  "download_subdirs = [''manga'', ''anime'', ''novels'']"

fun remap_in :: "string \<Rightarrow> string \<Rightarrow> string \<Rightarrow> string list \<Rightarrow> string option" where
  "remap_in old_root new_root clean [] = None"
| "remap_in old_root new_root clean (sub # subs) =
     (let base = path_join [old_root, sub] in
      if clean = base \<or> has_prefix clean (base @ ''/'')
      then (case path_rel old_root clean of Inl _ \<Rightarrow> None | Inr rel \<Rightarrow> Some (path_join [new_root, rel]))
      else remap_in old_root new_root clean subs)"

definition remap :: "string \<Rightarrow> string \<Rightarrow> string \<Rightarrow> string option" where
  "remap old_root new_root p = remap_in old_root new_root (path_clean p) download_subdirs"

text \<open>The new path of a page, which may be inside an archive.\<close>

definition remap_page :: "string \<Rightarrow> string \<Rightarrow> string \<Rightarrow> string option" where
  "remap_page old_root new_root p = (case parse_zip_page_path p of
      Some (archive_path, entry_name) \<Rightarrow> map_option (\<lambda>np. zip_page_path np entry_name) (remap old_root new_root archive_path)
    | None \<Rightarrow> remap old_root new_root p)"

definition rewrite_row :: "string option \<Rightarrow> (string option \<Rightarrow> unit stmt) \<Rightarrow> ('z world_scheme, unit) act" where
  "rewrite_row np set_path = (case np of None \<Rightarrow> ret () | Some p \<Rightarrow> db_call (set_path (Some p)))"

definition rewrite_paths :: "string \<Rightarrow> string \<Rightarrow> ('z world_scheme, unit) act" where
  "rewrite_paths old_root new_root =
     seq (db_call q_list_all_manga_page_paths) (\<lambda>pages.
     seq (for_each (\<lambda>r. rewrite_row (remap_page old_root new_root (string_of (p_local_path r)))
            (\<lambda>p. q_set_manga_page_path p (p_chapter r) (p_number r))) pages) (\<lambda>_.
     seq (db_call q_list_all_novel_content_paths) (\<lambda>novels.
     seq (for_each (\<lambda>r. rewrite_row (remap old_root new_root (string_of (n_local_path r)))
            (\<lambda>p. q_set_novel_chapter_content_path p (n_chapter r))) novels) (\<lambda>_.
     seq (db_call q_list_all_episode_stream_paths) (\<lambda>rows.
     for_each (\<lambda>r. rewrite_row (remap old_root new_root (string_of (as_local_path r)))
            (\<lambda>p. q_set_anime_episode_stream_path p (as_chapter r))) rows)))))"

text \<open>What both relocations do first: refuse nested directories, create the new one and write to it.\<close>

definition prepare_dir :: "string \<Rightarrow> string \<Rightarrow> string \<Rightarrow> ('z fs_world_scheme, unit) act" where
  "prepare_dir what cur new_abs =
     (if is_subpath cur new_abs \<or> is_subpath new_abs cur
      then fail (ErrMsg (''new '' @ what @ '' path must not be nested inside the current one''))
      else seq (wrap (''create '' @ new_abs) (fs_call (os_mkdir_all new_abs))) (\<lambda>_.
        let probe = path_join [new_abs, ''.tsunagu-write-test''] in
        seq (wrap ''path not writable'' (fs_call (os_write_file probe (Bytes ''ok'')))) (\<lambda>_.
        ignore (fs_call (os_remove probe)))))"

definition copy_sub :: "nat \<Rightarrow> string \<Rightarrow> string \<Rightarrow> int \<times> int \<Rightarrow> string \<Rightarrow> ('z fs_world_scheme, int \<times> int) act" where
  "copy_sub ds cur new_abs acc sub =
     (let src = path_join [cur, sub] in
      seq (attempt (fs_call (os_stat src))) (\<lambda>info.
      if info \<noteq> Inr DirNode then ret acc
      else seq (wrap (''copy '' @ sub) (copy_tree ds src (path_join [new_abs, sub]))) (\<lambda>c. ret (add_counts acc c))))"

record relocate_result =
  rr_files :: int
  rr_bytes :: int
  rr_path :: string

definition relocate_downloads :: "nat \<Rightarrow> string \<Rightarrow> bool \<Rightarrow> ('z dl_world_scheme, relocate_result) act" where
  "relocate_downloads ds new_path migrate =
     seq (gets (\<lambda>w. (dl_media_dir w, dl_downloads_dir w, dl_cwd w))) (\<lambda>(media_dir, downloads_dir, cwd).
     let trimmed = (if trim_space new_path = [] then media_dir else trim_space new_path); cur = path_clean downloads_dir in
     seq (wrap ''resolve path'' (abs_path cwd trimmed)) (\<lambda>new_abs.
     if new_abs = cur then ret \<lparr>rr_files = 0, rr_bytes = 0, rr_path = new_abs\<rparr>
     else seq (prepare_dir ''downloads'' cur new_abs) (\<lambda>_.
       if \<not> migrate then ret \<lparr>rr_files = 0, rr_bytes = 0, rr_path = new_abs\<rparr>
       else seq (fold_act (copy_sub ds cur new_abs) (0, 0) download_subdirs) (\<lambda>c.
         seq (wrap ''rewrite database paths'' (rewrite_paths cur new_abs)) (\<lambda>_.
         seq (for_each (\<lambda>sub. ignore (fs_call (os_remove_all (path_join [cur, sub])))) download_subdirs) (\<lambda>_.
         ret \<lparr>rr_files = fst c, rr_bytes = snd c, rr_path = new_abs\<rparr>))))))"

section \<open>The local source's directory\<close>

definition relocate_local :: "nat \<Rightarrow> string \<Rightarrow> string \<Rightarrow> bool \<Rightarrow> ('z local_world_scheme, relocate_result) act" where
  "relocate_local ds cwd new_path migrate =
     seq (gets (\<lambda>w. (lw_media_dir w, local_dir w))) (\<lambda>(media_dir, dir).
     let trimmed = (if trim_space new_path = [] then path_join [media_dir, ''local''] else trim_space new_path);
         cur = path_clean dir in
     seq (wrap ''resolve path'' (abs_path cwd trimmed)) (\<lambda>new_abs.
     if new_abs = cur then ret \<lparr>rr_files = 0, rr_bytes = 0, rr_path = new_abs\<rparr>
     else seq (prepare_dir ''local source'' cur new_abs) (\<lambda>_.
       seq (if \<not> migrate then ret (0, 0)
            else seq (attempt (fs_call (os_stat cur))) (\<lambda>info.
              if info \<noteq> Inr DirNode then ret (0, 0)
              else seq (wrap ''copy local source files'' (copy_tree ds cur new_abs)) (\<lambda>c.
                seq (ignore (fs_call (os_remove_all cur))) (\<lambda>_. ret c)))) (\<lambda>c.
       seq (set_local_dir new_abs) (\<lambda>_.
       ret \<lparr>rr_files = fst c, rr_bytes = snd c, rr_path = new_abs\<rparr>)))))"

end
