(* ===== verification/RelocationSafety.thy ===== *)
theory RelocationSafety
  imports Relocation LocalSource FileTrees
begin

text \<open>
  What moving the downloads directory does to the files and to the rows that name them. The copy leaves
  the old tree as it is whatever fails (\<open>calm\<close>); without failing calls it puts every file below the
  new directory (\<open>walk_copies\<close>), the rows follow (\<open>rewrite_table\<close>), and only then does the old tree go.
\<close>

section \<open>Where a copy goes\<close>

text \<open>The new place of a location below the directory \<open>s\<close>, when its tree moves to \<open>d\<close>.\<close>

definition tgt :: "string list \<Rightarrow> string list \<Rightarrow> location \<Rightarrow> location" where
  "tgt s d l = (True, d @ drop (length s) (snd l))"

lemma tgt_append [simp]: "tgt s d (True, s @ ns) = (True, d @ ns)"
  by (simp add: tgt_def)

lemma common_prefix_append [simp]: "longest_common_prefix b (b @ ns) = b"
  by (induction b) auto

lemma path_rel_below:
  assumes "location base = (rt, b)" "location p = (rt, b @ ns)"
  shows "path_rel base p = Inr (if ns = [] then ''.'' else join ''/'' ns)"
  using assms by (auto simp: path_rel_def Let_def split: list.split)

lemma location_join_rel:
  assumes "d \<noteq> []" "list_all name_ok ns"
  shows "location (path_join [d, if ns = [] then ''.'' else join ''/'' ns]) = (rooted d, snd (location d) @ ns)"
proof (cases "ns = []")
  case True
  then show ?thesis using location_join_dot [OF assms(1)] by (simp add: prod_eq_iff location_fst)
next
  case False
  have "join ''/'' ns \<noteq> []" using False assms(2) by (cases ns) (auto simp: join_Cons name_ok_def)
  then show ?thesis using location_append_names [OF assms(1) False assms(2)] False assms(1)
    by (simp add: path_join_def join_Cons)
qed

text \<open>The temporary name beside a file.\<close>

definition tmp_of :: "location \<Rightarrow> location" where
  "tmp_of l = (fst l, butlast (snd l) @ [last (snd l) @ ''.part''])"

lemma name_ok_part: "name_ok n \<Longrightarrow> name_ok (n @ ''.part'')"
  by (auto simp: name_ok_def append_eq_Cons_conv)

lemma location_tmp:
  assumes "path_clean p = p" "location p = (rt, cs @ [n])" "name_ok n"
  shows "location (p @ ''.part'') = tmp_of (location p)"
  using location_suffix [OF assms(2,1,3) name_ok_part [OF assms(3)]] assms(2) by (simp add: tmp_of_def)

lemma location_join_one: "d \<noteq> [] \<Longrightarrow> name_ok n \<Longrightarrow> location (path_join [d, n]) = (rooted d, snd (location d) @ [n])"
  using location_join_names [of d "[n]"] by (simp add: join_Cons)

section \<open>What a copy leaves alone\<close>

text \<open>Below \<open>s\<close> nothing changes at all, and outside \<open>d\<close> no file does.\<close>

definition calm :: "location \<Rightarrow> location \<Rightarrow> fs \<Rightarrow> fs \<Rightarrow> bool" where
  "calm s d fs0 fs \<longleftrightarrow> part s fs = part s fs0 \<and>
     (\<forall>l data. \<not> inside d l \<longrightarrow> (fs_get fs l = Some (FileNode data)) = (fs_get fs0 l = Some (FileNode data)))"

definition apart :: "location \<Rightarrow> location \<Rightarrow> bool" where
  "apart s d \<longleftrightarrow> \<not> inside s d \<and> \<not> inside d s"

lemma apart_below: "apart s d \<Longrightarrow> inside d l \<Longrightarrow> \<not> inside s l"
  by (auto simp: apart_def inside_def dest: prefix_same_cases)

lemma calm_refl [simp]: "calm s d fs fs"
  by (simp add: calm_def)

lemma calm_call:
  assumes "calm s d fs0 fs" "part s fs' = part s fs"
    "\<And>l data. \<not> inside d l \<Longrightarrow> (fs_get fs' l = Some (FileNode data)) = (fs_get fs l = Some (FileNode data))"
  shows "calm s d fs0 fs'"
  using assms by (simp add: calm_def)

lemma calm_mkdir:
  assumes "calm s d fs0 fs" "\<not> inside s (location p)"
  shows "calm s d fs0 (snd (os_mkdir_all p fs))"
proof (rule calm_call [OF assms(1) part_calls(1) [OF assms(2)]])
  fix l data
  obtain x fs' where m: "os_mkdir_all p fs = (x, fs')" by (cases "os_mkdir_all p fs")
  then have "fs_get fs' l = fs_get fs l \<or> fs_get fs l = None \<and> fs_get fs' l = Some DirNode"
    using mkdir_all_result [OF m] by blast
  then show "(fs_get (snd (os_mkdir_all p fs)) l = Some (FileNode data)) = (fs_get fs l = Some (FileNode data))"
    using m by auto
qed

lemma calm_write:
  assumes "calm s d fs0 fs" "apart s d" "inside d (location p)"
  shows "calm s d fs0 (snd (os_write_file p data fs))"
proof (rule calm_call [OF assms(1) part_calls(2) [OF apart_below [OF assms(2,3)]]])
  fix l x assume "\<not> inside d l"
  then have "l \<noteq> location p" using assms(3) by auto
  then show "(fs_get (snd (os_write_file p data fs)) l = Some (FileNode x)) = (fs_get fs l = Some (FileNode x))"
    by (simp add: os_write_file_def Let_def)
qed

lemma calm_remove:
  assumes "calm s d fs0 fs" "apart s d" "inside d (location p)"
  shows "calm s d fs0 (snd (os_remove p fs))"
proof (rule calm_call [OF assms(1) part_calls(3) [OF apart_below [OF assms(2,3)]]])
  fix l x assume "\<not> inside d l"
  then have "l \<noteq> location p" using assms(3) by auto
  then show "(fs_get (snd (os_remove p fs)) l = Some (FileNode x)) = (fs_get fs l = Some (FileNode x))"
    by (simp add: os_remove_def Let_def split: option.split node.split)
qed

lemma get_map_relocate:
  "inside d a \<Longrightarrow> inside d b \<Longrightarrow> \<not> inside d l \<Longrightarrow> fs_get (map (relocate_entry a b) fs) l = fs_get fs l"
proof (induction fs)
  case (Cons e fs)
  have "fst (relocate_entry a b e) = l \<longleftrightarrow> fst e = l" if "inside d a" "inside d b" "\<not> inside d l"
  proof (cases "inside a (fst e)")
    case True
    then have "inside d (fst e)" "inside d (fst (relocate_entry a b e))"
      using that by (auto simp: relocate_entry_def inside_def intro: prefix_order.trans)
    then show ?thesis using that by auto
  qed (simp add: relocate_entry_def)
  then show ?case using Cons by (cases e) (auto simp: fs_get_def relocate_entry_def)
qed (simp add: fs_get_def)

lemma part_map_relocate:
  "apart s d \<Longrightarrow> inside d a \<Longrightarrow> inside d b \<Longrightarrow> part s (map (relocate_entry a b) fs) = part s fs"
proof (induction fs)
  case (Cons e fs)
  have "\<not> inside s (fst (relocate_entry a b e)) \<and> \<not> inside s (fst e)" if "inside a (fst e)"
  proof -
    have "inside d (fst e)" "inside d (fst (relocate_entry a b e))"
      using that Cons.prems by (auto simp: relocate_entry_def inside_def intro: prefix_order.trans)
    then show ?thesis using apart_below [OF Cons.prems(1)] by blast
  qed
  then show ?case using Cons by (auto simp: part_def relocate_entry_def)
qed (simp add: part_def)

lemma calm_rename:
  assumes "calm s d fs0 fs" "apart s d" "inside d (location p)" "inside d (location q)"
  shows "calm s d fs0 (snd (os_rename p q fs))"
proof -
  have "calm s d fs0 (map (relocate_entry (location p) (location q)) fs)"
    using assms by (intro calm_call [OF assms(1)]) (simp_all add: part_map_relocate get_map_relocate)
  moreover have "calm s d fs0 (fs_put (location q) (FileNode data) (fs_drop (\<lambda>x. x = location p) fs))" for data
    using assms apart_below [OF assms(2)] by (intro calm_call [OF assms(1)]) auto
  ultimately show ?thesis
    using assms(1) by (auto simp: os_rename_def Let_def split: option.split node.split)
qed

lemma calm_get: "calm s d fs0 fs \<Longrightarrow> inside s l \<Longrightarrow> fs_get fs l = fs_get fs0 l"
  unfolding calm_def by (metis fs_get_part)

lemma calm_read_dir: "calm s d fs0 fs \<Longrightarrow> inside s (location p) \<Longrightarrow> fst (os_read_dir p fs) = fst (os_read_dir p fs0)"
  unfolding calm_def by (meson read_dir_part)

section \<open>Whatever fails, the old tree stays\<close>

lemma keeps_calm_calls:
  fixes fs0 :: fs
  assumes "apart s d" "inside d (location p)"
  shows "keeps (\<lambda>w :: 'z fs_world_scheme. calm s d fs0 (w_fs w)) (fs_call (os_mkdir_all p))"
    "keeps (\<lambda>w :: 'z fs_world_scheme. calm s d fs0 (w_fs w)) (fs_call (os_write_file p data))"
    "keeps (\<lambda>w :: 'z fs_world_scheme. calm s d fs0 (w_fs w)) (fs_call (os_remove p))"
    "inside d (location q) \<Longrightarrow> keeps (\<lambda>w :: 'z fs_world_scheme. calm s d fs0 (w_fs w)) (fs_call (os_rename p q))"
  using assms apart_below [OF assms] by (auto intro!: keeps_fs_call calm_mkdir calm_write calm_remove calm_rename)

lemma keeps_calm_copy_file:
  assumes "apart s d" "inside d (location dst)" "inside d (location (dst @ ''.part''))"
  shows "keeps (\<lambda>w :: 'z fs_world_scheme. calm s d fs0 (w_fs w)) (copy_file src dst)"
  unfolding copy_file_def Let_def
  by (intro keeps_intros keeps_calm_calls [OF assms(1,3)] keeps_calm_calls(4) [OF assms(1,3,2)] keeps_fs_read keeps_ext_call_fs)

text \<open>The copy of one place below the root of the walk.\<close>

lemma target_place:
  assumes "location src = (True, s @ u)" "location dst = (True, d @ u)" "dst \<noteq> []"
    "location p = (True, s @ u @ ns)" "list_all name_ok ns" "list_all name_ok u"
  obtains rel where "path_rel src p = Inr rel" "location (path_join [dst, rel]) = tgt s d (location p)"
    "path_clean (path_join [dst, rel]) = path_join [dst, rel]"
proof (rule that)
  show "path_rel src p = Inr (if ns = [] then ''.'' else join ''/'' ns)"
    using path_rel_below [of src True "s @ u" p ns] assms(1,4) by simp
  show "location (path_join [dst, if ns = [] then ''.'' else join ''/'' ns]) = tgt s d (location p)"
    using location_join_rel [OF assms(3,5)] assms(2,4) location_fst [of dst] by simp
  show "path_clean (path_join [dst, if ns = [] then ''.'' else join ''/'' ns]) = path_join [dst, if ns = [] then ''.'' else join ''/'' ns]"
    by (rule join_dot_clean [OF assms(3)])
qed

text \<open>Where the calls of one copy go, for a place that is not the root of the walk.\<close>

lemma target_calls:
  assumes "location target = (True, d @ u @ ns)" "path_clean target = target" "ns \<noteq> []" "list_all name_ok ns"
  shows "location (target @ ''.part'') = tmp_of (location target)" "location (path_dir target) = parent (location target)"
    "inside (True, d @ u) (location (target @ ''.part''))" "inside (True, d @ u) (location (path_dir target))"
proof -
  obtain ms n where ns: "ns = ms @ [n]" using assms(3) by (cases ns rule: rev_cases) auto
  show 1: "location (target @ ''.part'') = tmp_of (location target)"
    using location_tmp [OF assms(2), of True "d @ u @ ms" n] assms(1,4) ns by simp
  show 2: "location (path_dir target) = parent (location target)" by (rule location_dir_clean [OF assms(2)])
  show "inside (True, d @ u) (location (target @ ''.part''))" "inside (True, d @ u) (location (path_dir target))"
    unfolding 1 2 using assms(1) ns by (simp_all add: inside_def tmp_of_def parent_def butlast_append)
qed

lemma keeps_calm_copy_entry:
  assumes "location src = (True, s @ u)" "location dst = (True, d @ u)" "dst \<noteq> []" "apart (True, s) (True, d)"
    "location p = (True, s @ u @ ns)" "list_all name_ok ns" "list_all name_ok u" "ns = [] \<longrightarrow> n = DirNode"
  shows "keeps (\<lambda>w :: 'z fs_world_scheme. calm (True, s) (True, d) fs0 (w_fs w)) (copy_entry ds src dst (p, n))"
proof -
  obtain rel where rel: "path_rel src p = Inr rel" and t: "location (path_join [dst, rel]) = tgt s d (location p)"
    and cl: "path_clean (path_join [dst, rel]) = path_join [dst, rel]"
    using target_place [OF assms(1-3,5-7)] .
  let ?t = "path_join [dst, rel]"
  have ins: "inside (True, d) (location ?t)" using t assms(5) by (simp add: inside_def tgt_def)
  show ?thesis
  proof (cases "n = DirNode")
    case True
    then show ?thesis unfolding copy_entry_def Let_def using rel keeps_calm_calls(1) [OF assms(4) ins]
      by (auto intro!: keeps_intros)
  next
    case False
    then have ns: "ns \<noteq> []" using assms(8) by blast
    have "location ?t = (True, d @ u @ ns)" using t assms(5) by (simp add: tgt_def)
    note c = target_calls [OF this cl ns assms(6)]
    have "inside (True, d) (location (?t @ ''.part''))" "inside (True, d) (location (path_dir ?t))"
      using c(3,4) by (auto simp: inside_def dest: append_prefixD)
    then show ?thesis unfolding copy_entry_def Let_def using False rel ins assms(4)
      by (auto intro!: keeps_intros keeps_fs_read keeps_calm_calls(1) keeps_calm_copy_file)
  qed
qed

lemma keeps_seq_read:
  assumes "keeps I m" "\<And>x w w'. I w \<Longrightarrow> m w = (Inr x, w') \<Longrightarrow> keeps I (f x)"
  shows "keeps I (seq m f)"
proof (rule keepsI)
  fix w assume w: "I w"
  obtain r w' where m: "m w = (r, w')" by (cases "m w")
  then have w': "I w'" using keepsD [OF assms(1) w] by simp
  show "I (snd (seq m f w))"
    using m w' assms(2) [OF w] by (cases r) (auto simp: seq_def keeps_def)
qed

text \<open>The entries of a directory of the old tree, as the walk reads them.\<close>

lemma read_entries_ok:
  assumes "calm s d fs0 (w_fs w)" "inside s (location p)" "tree_ok fs0" "fs_call (os_read_dir p) w = (Inr es, w')"
    "(name, n) \<in> set es"
  shows "fs_get fs0 (True, snd (location p) @ [name]) = Some n" "name_ok name" "rooted p"
proof -
  have "fst (os_read_dir p (w_fs w)) = Inr es" using assms(4) by (rule fs_call_cases) auto
  then have "fst (os_read_dir p fs0) = Inr es" using calm_read_dir [OF assms(1,2)] by simp
  then have "es = foldr insert_name (children fs0 (location p)) []" by (auto simp: os_read_dir_def Let_def split: if_splits)
  then have "(name, n) \<in> set (children fs0 (location p))" using assms(5) by (simp only: set_names_sorted)
  then obtain e where e: "(e, n) \<in> set fs0" "fst e = fst (location p)" "butlast (snd e) = snd (location p)" "snd e \<noteq> []" "last (snd e) = name"
    by (auto simp: children_def List.map_filter_def split: if_splits)
  have t: "distinct (map fst fs0)" "fst e" "list_all name_ok (snd e)" using assms(3) e(1) by (auto simp: tree_ok_def)
  have "e = (True, snd (location p) @ [name])" using e t(2) by (metis append_butlast_last_id prod.collapse)
  then show "fs_get fs0 (True, snd (location p) @ [name]) = Some n" "name_ok name" "rooted p"
    using e t by (auto simp: fs_get_def location_fst)
qed

lemma keeps_calm_walk:
  assumes "location src = (True, s @ u)" "location dst = (True, d @ u)" "dst \<noteq> []" "apart (True, s) (True, d)"
    "list_all name_ok u" "tree_ok fs0"
    "location p = (True, s @ u @ ns)" "list_all name_ok ns" "ns = [] \<longrightarrow> n = DirNode" "p \<noteq> []"
  shows "keeps (\<lambda>w :: 'z fs_world_scheme. calm (True, s) (True, d) fs0 (w_fs w)) (walk_dir fuel (copy_entry ds src dst) acc (p, n))"
  using assms(7-)
proof (induction fuel arbitrary: p n ns acc)
  case 0
  then show ?case using keeps_calm_copy_entry [OF assms(1-4) 0(1,2) assms(5) 0(3)] by (auto intro!: keeps_intros)
next
  case (Suc fuel)
  have step: "keeps (\<lambda>w :: 'z fs_world_scheme. calm (True, s) (True, d) fs0 (w_fs w))
      (seq (fs_call (os_read_dir p)) (\<lambda>es. fold_act (\<lambda>acc (name, n). walk_dir fuel (copy_entry ds src dst) acc (path_join [p, name], n)) b es))" for b
  proof (rule keeps_seq_read [OF keeps_fs_read(3)], rule keeps_fold_act)
    fix es w w' acc e
    assume w: "calm (True, s) (True, d) fs0 (w_fs (w :: 'z fs_world_scheme))" "fs_call (os_read_dir p) w = (Inr es, w')" "e \<in> set es"
    obtain name m where e: "e = (name, m)" by (cases e)
    have ok: "name_ok name" "rooted p"
      using read_entries_ok [OF w(1) _ assms(6) w(2), of name m] w(3) e Suc.prems(1) by (auto simp: inside_def)
    have "location (path_join [p, name]) = (True, s @ u @ ns @ [name])"
      using location_join_one [OF Suc.prems(4) ok(1)] ok(2) Suc.prems(1) by simp
    moreover have "path_join [p, name] \<noteq> []" using path_clean_not_Nil by (metis join_dot_clean Suc.prems(4))
    ultimately show "keeps (\<lambda>w :: 'z fs_world_scheme. calm (True, s) (True, d) fs0 (w_fs w))
        (case e of (name, n) \<Rightarrow> walk_dir fuel (copy_entry ds src dst) acc (path_join [p, name], n))"
      using Suc.IH [of "path_join [p, name]" "ns @ [name]" m acc] Suc.prems(2) ok(1) e by simp
  qed
  show ?case unfolding walk_dir.simps
    by (rule keeps_seq [OF keeps_calm_copy_entry [OF assms(1-4) Suc.prems(1,2) assms(5) Suc.prems(3)]])
      (simp add: keeps_ret step)
qed

section \<open>Without failing calls, the copy is complete\<close>

lemma inside_parent: "inside k t \<Longrightarrow> k \<noteq> t \<Longrightarrow> inside k (parent t)"
  by (cases k; cases t; cases "snd t" rule: rev_cases) (auto simp: inside_def parent_def)

lemma tmp_not_same: "tmp_of l \<noteq> l" "snd l \<noteq> [] \<Longrightarrow> parent (tmp_of l) = parent l"
proof -
  show "tmp_of l \<noteq> l"
    by (cases l; cases "snd l" rule: rev_cases) (auto simp: tmp_of_def)
qed (simp add: parent_def tmp_of_def)

lemma copy_file_free:
  fixes w :: "'z fs_world_scheme"
  assumes "fault_free w" "fs_get (w_fs w) (location src) = Some (FileNode data)" "location (dst @ ''.part'') = tmp_of (location dst)"
    "snd (location dst) \<noteq> []" "is_dir (w_fs w) (parent (location dst))"
    "fs_get (w_fs w) (location dst) = None" "fs_get (w_fs w) (tmp_of (location dst)) = None"
  shows "\<exists>fs'. copy_file src dst w = (Inr (), w\<lparr>w_fs := fs'\<rparr>) \<and>
    (\<forall>k. fs_get fs' k = (if k = location dst then Some (FileNode data) else fs_get (w_fs w) k))"
proof -
  let ?t = "tmp_of (location dst)" and ?d = "location dst"
  have t: "snd ?t \<noteq> []" "?t \<noteq> ?d" "parent ?t = parent ?d" using assms(4) tmp_not_same [of ?d] by (auto simp: tmp_of_def)
  have np: "?t \<noteq> parent ?d"
  proof
    assume "?t = parent ?d"
    then have "length (snd ?t) = length (snd (parent ?d))" by simp
    then show False using assms(4) by (cases "snd (location dst)") (simp_all add: tmp_of_def parent_def)
  qed
  have w1: "os_write_file (dst @ ''.part'') x (w_fs w) = (Inr (), fs_put ?t (FileNode x) (w_fs w))" for x
    using assms(3,5,7) t by (simp add: os_write_file_def Let_def is_dir_def)
  have w2: "os_write_file (dst @ ''.part'') y (fs_put ?t (FileNode x) (w_fs w)) = (Inr (), fs_put ?t (FileNode y) (fs_put ?t (FileNode x) (w_fs w)))" for x y
    using assms(3,5) t np by (simp add: os_write_file_def Let_def is_dir_def)
  let ?fs2 = "fs_put ?t (FileNode data) (fs_put ?t (FileNode (Bytes [])) (w_fs w))"
  have r: "os_rename (dst @ ''.part'') dst ?fs2 = (Inr (), fs_put ?d (FileNode data) (fs_drop (\<lambda>x. x = ?t) ?fs2))"
    using assms(3-6) t np by (auto simp: os_rename_def Let_def is_dir_def)
  have f: "os_read_file src (w_fs w) = (Inr data, w_fs w)" using assms(2) by (simp add: os_read_file_def)
  have "copy_file src dst w = (Inr (), w\<lparr>w_fs := fs_put ?d (FileNode data) (fs_drop (\<lambda>x. x = ?t) ?fs2)\<rparr>)"
    using assms(1) by (simp add: copy_file_def Let_def seq_def fs_call_free f w1 w2 r attempt_eq)
  moreover have "fs_get (fs_put ?d (FileNode data) (fs_drop (\<lambda>x. x = ?t) ?fs2)) k = (if k = ?d then Some (FileNode data) else fs_get (w_fs w) k)" for k
    using assms(7) by simp
  ultimately show ?thesis by blast
qed

text \<open>A place of the new tree that is free for the copy of \<open>l\<close>: its directory is there, below it is nothing.\<close>

definition free_place :: "location \<Rightarrow> node \<Rightarrow> fs \<Rightarrow> bool" where
  "free_place t n fs \<longleftrightarrow> (\<forall>k. strictly_inside t k \<longrightarrow> fs_get fs k = None) \<and> (\<forall>k. inside k (parent t) \<longrightarrow> is_dir fs k) \<and>
     (fs_get fs t = None \<or> n = DirNode \<and> fs_get fs t = Some DirNode) \<and> (n \<noteq> DirNode \<longrightarrow> fs_get fs (tmp_of t) = None)"

lemma free_placeD:
  assumes "free_place t n fs"
  shows "strictly_inside t k \<Longrightarrow> fs_get fs k = None" "inside k (parent t) \<Longrightarrow> is_dir fs k"
  using assms unfolding free_place_def by blast+

lemma free_place_child:
  assumes "\<And>k. strictly_inside (r, x) k \<Longrightarrow> fs_get fs k = None" "\<And>k. inside k (r, x) \<Longrightarrow> is_dir fs k"
  shows "free_place (r, x @ [c]) n fs"
proof -
  have below: "strictly_inside (r, x) k" if "inside (r, x @ [c]) k" for k
    using that by (auto simp: strictly_inside_def inside_def strict_prefix_def prefix_def)
  have tmp: "strictly_inside (r, x) (tmp_of (r, x @ [c]))"
    by (simp add: strictly_inside_def tmp_of_def strict_prefix_def)
  have "fs_get fs k = None" if "strictly_inside (r, x @ [c]) k" for k
    using that by (intro assms(1) below) (auto simp: strictly_inside_def inside_def strict_prefix_def)
  moreover have "is_dir fs k" if "inside k (parent (r, x @ [c]))" for k
    using that by (intro assms(2)) (simp add: parent_def)
  ultimately show ?thesis unfolding free_place_def
    using assms(1) [OF below [OF inside_refl]] assms(1) [OF tmp] by blast
qed

lemma copy_entry_free:
  fixes w :: "'z fs_world_scheme"
  assumes "location src = (True, s @ u)" "location dst = (True, d @ u)" "dst \<noteq> []" "list_all name_ok u" "d \<noteq> []"
    "location p = (True, s @ u @ ns)" "list_all name_ok ns" "ns = [] \<longrightarrow> n = DirNode"
    "fault_free w" "fs_get (w_fs w) (location p) = Some n" "free_place (tgt s d (location p)) n (w_fs w)"
  shows "\<exists>c fs'. copy_entry ds src dst (p, n) w = (Inr c, w\<lparr>w_fs := fs'\<rparr>) \<and>
    (\<forall>k. fs_get fs' k = (if k = tgt s d (location p) then Some n else fs_get (w_fs w) k))"
proof -
  obtain rel where rel: "path_rel src p = Inr rel" and t: "location (path_join [dst, rel]) = tgt s d (location p)"
    and cl: "path_clean (path_join [dst, rel]) = path_join [dst, rel]"
    using target_place [OF assms(1-3,6,7,4)] .
  let ?t = "path_join [dst, rel]" and ?T = "tgt s d (location p)"
  have T: "?T = (True, d @ u @ ns)" "snd ?T \<noteq> []" using assms(5,6) by simp_all
  have anc: "\<And>k. inside k (parent ?T) \<Longrightarrow> is_dir (w_fs w) k" and at: "fs_get (w_fs w) ?T = None \<or> n = DirNode \<and> fs_get (w_fs w) ?T = Some DirNode"
    using assms(11) by (auto simp: free_place_def)
  show ?thesis
  proof (cases n)
    case DirNode
    have mk: "\<exists>fs'. os_mkdir_all ?t (w_fs w) = (Inr (), fs') \<and> (\<forall>k. fs_get fs' k = (if k = ?T then Some n else fs_get (w_fs w) k))"
    proof (cases "fs_get (w_fs w) ?T")
      case None
      then show ?thesis using mkdir_all_last [of ?t "w_fs w"] anc t T(2) DirNode by auto
    next
      case (Some m)
      then have D: "fs_get (w_fs w) ?T = Some DirNode" using at by auto
      have "is_dir (w_fs w) k" if "inside k ?T" for k
      proof (cases "k = ?T")
        case False
        then have "inside k (parent ?T)" using that inside_parent by blast
        then show ?thesis by (rule anc)
      qed (simp add: is_dir_def D)
      then show ?thesis using mkdir_all_present [of ?t "w_fs w"] t D DirNode by auto
    qed
    then obtain fs' where fs': "os_mkdir_all ?t (w_fs w) = (Inr (), fs')" "\<forall>k. fs_get fs' k = (if k = ?T then Some n else fs_get (w_fs w) k)"
      by blast
    have "copy_entry ds src dst (p, n) w = (Inr (0, 0), w\<lparr>w_fs := fs'\<rparr>)"
      using assms(9) rel DirNode fs'(1) by (simp add: copy_entry_def Let_def seq_def fs_call_free ret_def)
    then show ?thesis using fs'(2) by blast
  next
    case (FileNode data)
    then have ns: "ns \<noteq> []" using assms(8) by auto
    have loc: "location ?t = (True, d @ u @ ns)" using t T(1) by simp
    note tc = target_calls [OF loc cl ns assms(7)]
    have stat: "os_stat p (w_fs w) = (Inr n, w_fs w)" using assms(10) by (simp add: os_stat_def)
    have none: "fs_get (w_fs w) ?T = None" using at FileNode by simp
    then have stat2: "os_stat ?t (w_fs w) = (Inl err_not_exist, w_fs w)" using t T(2) by (simp add: os_stat_def)
    have mk: "os_mkdir_all (path_dir ?t) (w_fs w) = (Inr (), w_fs w)"
      using mkdir_all_present [of "path_dir ?t" "w_fs w"] tc(2) t anc by simp
    obtain fs' where cp: "copy_file p ?t w = (Inr (), w\<lparr>w_fs := fs'\<rparr>)"
      and get: "\<forall>k. fs_get fs' k = (if k = location ?t then Some (FileNode data) else fs_get (w_fs w) k)"
      using copy_file_free [OF assms(9) _ tc(1), of p data] assms(10,11) FileNode t T(2) none anc [of "parent ?T"]
      by (auto simp: free_place_def)
    have "copy_entry ds src dst (p, n) w = (Inr (1, int (info_size ds n)), w\<lparr>w_fs := fs'\<rparr>)"
      using FileNode assms(9) cp mk by (simp add: copy_entry_def Let_def seq_def fs_call_free rel stat stat2 attempt_eq ret_def)
    moreover have "\<forall>k. fs_get fs' k = (if k = ?T then Some n else fs_get (w_fs w) k)" using get t FileNode by simp
    ultimately show ?thesis by blast
  qed
qed

lemma tgt_below: "inside (True, s @ ms) k \<Longrightarrow> inside (True, d @ ms) (tgt s d k)"
  by (cases k) (auto simp: inside_def tgt_def prefix_def)

lemma siblings_apart: "a \<noteq> b \<Longrightarrow> inside (r, x @ [a]) k \<Longrightarrow> \<not> inside (r, x @ [b]) k"
  by (auto simp: inside_def prefix_def)

lemma above_not_below: "inside k (parent (r, x @ [b])) \<Longrightarrow> \<not> inside (r, x @ [a]) k"
proof
  assume "inside k (parent (r, x @ [b]))" "inside (r, x @ [a]) k"
  then have "length (snd k) \<le> length x" "Suc (length x) \<le> length (snd k)"
    by (auto simp: inside_def parent_def dest: prefix_length_le)
  then show False by simp
qed

lemma inside_appendD: "inside (r, x @ y) k \<Longrightarrow> inside (r, x) k"
  by (auto simp: inside_def dest: append_prefixD)

lemma walk_copies:
  fixes w :: "'z fs_world_scheme"
  assumes roots: "location src = (True, s @ u)" "location dst = (True, d @ u)" "dst \<noteq> []" "apart (True, s) (True, d)"
    "list_all name_ok u" "tree_ok fs0" "d \<noteq> []"
    and at: "location p = (True, s @ u @ ns)" "list_all name_ok ns" "ns = [] \<longrightarrow> n = DirNode" "p \<noteq> []"
    "fs_get fs0 (location p) = Some n"
    "\<And>k. inside (location p) k \<Longrightarrow> fs_get fs0 k \<noteq> None \<Longrightarrow> length (snd k) \<le> length (snd (location p)) + fuel"
    and w: "fault_free w" "calm (True, s) (True, d) fs0 (w_fs w)" "free_place (tgt s d (location p)) n (w_fs w)"
  shows "\<exists>c fs'. walk_dir fuel (copy_entry ds src dst) acc (p, n) w = (Inr c, w\<lparr>w_fs := fs'\<rparr>) \<and>
    (\<forall>k. \<not> inside (tgt s d (location p)) k \<longrightarrow> fs_get fs' k = fs_get (w_fs w) k) \<and>
    (\<forall>k data. inside (location p) k \<longrightarrow> fs_get fs0 k = Some (FileNode data) \<longrightarrow> fs_get fs' (tgt s d k) = Some (FileNode data))"
  using at w
proof (induction fuel arbitrary: p n ns acc w)
  case 0
  have p: "fs_get (w_fs w) (location p) = Some n" using calm_get [OF 0(8)] 0(1,5) by (simp add: inside_def)
  obtain c fs' where c: "copy_entry ds src dst (p, n) w = (Inr c, w\<lparr>w_fs := fs'\<rparr>)"
    and get: "\<forall>k. fs_get fs' k = (if k = tgt s d (location p) then Some n else fs_get (w_fs w) k)"
    using copy_entry_free [OF roots(1-3,5,7) 0(1-3,7) p 0(9), of ds] by blast
  have only: "k = location p" if "inside (location p) k" "fs_get fs0 k \<noteq> None" for k
    using 0(6) [OF that] that(1) by (cases k; cases "location p") (auto simp: inside_def prefix_def)
  have "fs_get fs' (tgt s d k) = Some (FileNode data)" if "inside (location p) k" "fs_get fs0 k = Some (FileNode data)" for k data
    using only [OF that(1)] get [rule_format, of "tgt s d k"] 0(5) that(2) by simp
  moreover have "walk_dir 0 (copy_entry ds src dst) acc (p, n) w = (Inr (add_counts acc c), w\<lparr>w_fs := fs'\<rparr>)"
    using c by (simp add: seq_def ret_def)
  moreover have "fs_get fs' k = fs_get (w_fs w) k" if "\<not> inside (tgt s d (location p)) k" for k
    using get [rule_format, of k] that by auto
  ultimately show ?case by blast
next
  case (Suc fuel)
  let ?l = "location p" and ?T = "tgt s d (location p)" and ?v = "copy_entry ds src dst"
  have T: "?T = (True, d @ u @ ns)" using Suc.prems(1) by simp
  have ins: "inside (True, s) ?l" using Suc.prems(1) by (simp add: inside_def)
  have p: "fs_get (w_fs w) ?l = Some n" using calm_get [OF Suc.prems(8) ins] Suc.prems(5) by simp
  obtain c fs1 where c: "?v (p, n) w = (Inr c, w\<lparr>w_fs := fs1\<rparr>)"
    and get: "\<forall>k. fs_get fs1 k = (if k = ?T then Some n else fs_get (w_fs w) k)"
    using copy_entry_free [OF roots(1-3,5,7) Suc.prems(1-3,7) p Suc.prems(9), of ds] by blast
  have calm1: "calm (True, s) (True, d) fs0 fs1"
    using keepsD [OF keeps_calm_copy_entry [OF roots(1-4) Suc.prems(1,2) roots(5) Suc.prems(3)] Suc.prems(8) c] by simp
  show ?case
  proof (cases n)
    case (FileNode data)
    have only: "k = ?l" if "inside ?l k" "fs_get fs0 k \<noteq> None" for k
      using tree_ancestor [OF roots(6) that(1) _ _ that(2)] Suc.prems(1,3,5) FileNode by fastforce
    have "fs_get fs1 (tgt s d k) = Some (FileNode x)" if "inside ?l k" "fs_get fs0 k = Some (FileNode x)" for k x
      using only [OF that(1)] get [rule_format, of "tgt s d k"] Suc.prems(5) that(2) by simp
    moreover have "walk_dir (Suc fuel) ?v acc (p, n) w = (Inr (add_counts acc c), w\<lparr>w_fs := fs1\<rparr>)"
      using c FileNode by (simp add: seq_def ret_def)
    moreover have "fs_get fs1 k = fs_get (w_fs w) k" if "\<not> inside ?T k" for k
      using get [rule_format, of k] that by auto
    ultimately show ?thesis by blast
  next
    case DirNode
    let ?es = "foldr insert_name (children fs0 ?l) []"
    have loop: "\<exists>c fs'. fold_act (\<lambda>acc (name, n). walk_dir fuel ?v acc (path_join [p, name], n)) acc es v = (Inr c, v\<lparr>w_fs := fs'\<rparr>) \<and>
        (\<forall>k. (\<forall>e \<in> set es. \<not> inside (True, d @ u @ ns @ [fst e]) k) \<longrightarrow> fs_get fs' k = fs_get (w_fs v) k) \<and>
        (\<forall>e \<in> set es. \<forall>k data. inside (True, s @ u @ ns @ [fst e]) k \<longrightarrow> fs_get fs0 k = Some (FileNode data) \<longrightarrow>
          fs_get fs' (tgt s d k) = Some (FileNode data))"
      if "set es \<subseteq> set ?es" "distinct (map fst es)" "sorted_wrt (\<lambda>x y. string_less_eq (fst x) (fst y)) es"
        "fault_free v" "calm (True, s) (True, d) fs0 (w_fs v)"
        "\<And>e. e \<in> set es \<Longrightarrow> free_place (True, d @ u @ ns @ [fst e]) (snd e) (w_fs v)"
      for es acc and v :: "'z fs_world_scheme"
      using that
    proof (induction es arbitrary: acc v)
      case Nil
      then show ?case by (auto simp: ret_def intro!: exI [of _ "w_fs v"])
    next
      case (Cons e es)
      obtain name m where e: "e = (name, m)" by (cases e)
      have entry: "fs_get fs0 (True, s @ u @ ns @ [name]) = Some m" "name_ok name"
      proof -
        have "(name, m) \<in> set (children fs0 ?l)" using Cons.prems(1) e by (simp add: set_names_sorted)
        moreover have "distinct (map fst fs0)" using roots(6) by (simp add: tree_ok_def)
        ultimately show g: "fs_get fs0 (True, s @ u @ ns @ [name]) = Some m"
          using children_get [of fs0 ?l name m] Suc.prems(1) by simp
        show "name_ok name" using roots(6) map_of_SomeD [OF g [unfolded fs_get_def]] by (auto simp: tree_ok_def)
      qed
      let ?q = "path_join [p, name]"
      have rp: "rooted p" using Suc.prems(1) location_fst [of p] by simp
      have q: "location ?q = (True, s @ u @ ns @ [name])"
        using location_join_one [OF Suc.prems(4) entry(2)] rp Suc.prems(1) by simp
      have q0: "?q \<noteq> []" using path_clean_not_Nil by (metis join_dot_clean Suc.prems(4))
      have deep: "length (snd k) \<le> length (snd (location ?q)) + fuel" if "inside (location ?q) k" "fs_get fs0 k \<noteq> None" for k
      proof -
        have "inside ?l k" using that(1) inside_appendD [of True "s @ u @ ns" "[name]" k] q Suc.prems(1) by simp
        then show ?thesis using Suc.prems(6) [OF _ that(2)] q Suc.prems(1) by simp
      qed
      have Tq: "tgt s d (location ?q) = (True, d @ u @ ns @ [name])" using q by simp
      obtain c1 fs1 where one: "walk_dir fuel ?v acc (?q, m) v = (Inr c1, v\<lparr>w_fs := fs1\<rparr>)"
        and same1: "\<And>k. \<not> inside (True, d @ u @ ns @ [name]) k \<Longrightarrow> fs_get fs1 k = fs_get (w_fs v) k"
        and copied1: "\<And>k data. inside (True, s @ u @ ns @ [name]) k \<Longrightarrow> fs_get fs0 k = Some (FileNode data) \<Longrightarrow> fs_get fs1 (tgt s d k) = Some (FileNode data)"
        using Suc.IH [of ?q "ns @ [name]" m v acc] q q0 entry Suc.prems(2) deep Cons.prems(4,5) Cons.prems(6) [of e] Tq e by auto
      have calm': "calm (True, s) (True, d) fs0 fs1"
        using keepsD [OF keeps_calm_walk [OF roots(1-6), of ?q "ns @ [name]" m fuel ds acc] Cons.prems(5) one] q q0 entry(2) Suc.prems(2) by simp
      have free': "free_place (True, d @ u @ ns @ [fst e']) (snd e') fs1" if "e' \<in> set es" for e'
      proof -
        have ne: "fst e' \<noteq> name" and le: "string_less_eq name (fst e')" using Cons.prems(2,3) that e by auto
        have tmp: "\<not> inside (True, d @ u @ ns @ [name]) (tmp_of (True, d @ u @ ns @ [fst e']))"
        proof
          assume "inside (True, d @ u @ ns @ [name]) (tmp_of (True, d @ u @ ns @ [fst e']))"
          then have "name = fst e' @ ''.part''" by (simp add: tmp_of_def inside_def butlast_append)
          then show False using le string_less_eq_longer [of "''.part''" "fst e'"] by simp
        qed
        have "inside (True, d @ u @ ns @ [fst e']) k \<Longrightarrow> fs_get fs1 k = fs_get (w_fs v) k" for k
          using siblings_apart [OF ne, of True "d @ u @ ns" k] same1 [of k] by simp
        moreover have "inside k (parent (True, d @ u @ ns @ [fst e'])) \<Longrightarrow> fs_get fs1 k = fs_get (w_fs v) k" for k
          using above_not_below [of k True "d @ u @ ns" "fst e'" name] by (intro same1) simp
        ultimately show ?thesis
          using Cons.prems(6) [of e'] that same1 [OF tmp]
          by (auto simp: free_place_def strictly_inside_def inside_def is_dir_def strict_prefix_def)
      qed
      obtain c2 fs2 where rest: "fold_act (\<lambda>acc (name, n). walk_dir fuel ?v acc (path_join [p, name], n)) c1 es (v\<lparr>w_fs := fs1\<rparr>) = (Inr c2, v\<lparr>w_fs := fs2\<rparr>)"
        and same2: "\<And>k. \<forall>e \<in> set es. \<not> inside (True, d @ u @ ns @ [fst e]) k \<Longrightarrow> fs_get fs2 k = fs_get fs1 k"
        and copied2: "\<And>e k data. e \<in> set es \<Longrightarrow> inside (True, s @ u @ ns @ [fst e]) k \<Longrightarrow> fs_get fs0 k = Some (FileNode data) \<Longrightarrow> fs_get fs2 (tgt s d k) = Some (FileNode data)"
        using Cons.IH [of "v\<lparr>w_fs := fs1\<rparr>" c1] Cons.prems(1-4) calm' free' by auto
      have copied: "fs_get fs2 (tgt s d k) = Some (FileNode data)"
        if "inside (True, s @ u @ ns @ [name]) k" "fs_get fs0 k = Some (FileNode data)" for k data
      proof -
        have "inside (True, d @ (u @ ns @ [name])) (tgt s d k)" using tgt_below [of s "u @ ns @ [name]" k d] that(1) by simp
        then have i: "inside (True, (d @ u @ ns) @ [name]) (tgt s d k)" by simp
        have "\<forall>e' \<in> set es. \<not> inside (True, d @ u @ ns @ [fst e']) (tgt s d k)"
        proof
          fix e' assume "e' \<in> set es"
          then have "name \<noteq> fst e'" using Cons.prems(2) e by auto
          then show "\<not> inside (True, d @ u @ ns @ [fst e']) (tgt s d k)"
            using siblings_apart [OF _ i, of "fst e'"] by simp
        qed
        then show ?thesis using same2 copied1 [OF that] by simp
      qed
      have "fold_act (\<lambda>acc (name, n). walk_dir fuel ?v acc (path_join [p, name], n)) acc (e # es) v = (Inr c2, v\<lparr>w_fs := fs2\<rparr>)"
        using one rest e by (simp add: seq_def)
      moreover have "fs_get fs2 k = fs_get (w_fs v) k" if "\<forall>e \<in> set (e # es). \<not> inside (True, d @ u @ ns @ [fst e]) k" for k
        using same1 [of k] same2 [of k] that e by simp
      moreover have "fs_get fs2 (tgt s d k) = Some (FileNode data)"
        if "e' \<in> set (e # es)" "inside (True, s @ u @ ns @ [fst e']) k" "fs_get fs0 k = Some (FileNode data)" for e' k data
        using copied [OF _ that(3)] copied2 [OF _ that(2,3)] that(1,2) e by (cases "e' = e") simp_all
      ultimately show ?case by blast
    qed
    let ?w1 = "w\<lparr>w_fs := fs1\<rparr>"
    have dist: "distinct (map fst fs0)" using roots(6) by (simp add: tree_ok_def)
    have "os_read_dir p fs1 = (Inr ?es, fs1)"
    proof -
      have "fst (os_read_dir p fs1) = fst (os_read_dir p fs0)" by (rule calm_read_dir [OF calm1 ins])
      also have "\<dots> = Inr ?es" using Suc.prems(5) DirNode by (simp add: os_read_dir_def Let_def is_dir_def)
      finally show ?thesis using read_dir_fs [of p fs1] by (simp add: prod_eq_iff)
    qed
    then have walk: "walk_dir (Suc fuel) ?v acc (p, n) w =
        fold_act (\<lambda>acc (name, n). walk_dir fuel ?v acc (path_join [p, name], n)) (add_counts acc c) ?es ?w1"
      using c DirNode Suc.prems(7) by (simp add: seq_def fs_call_free)
    have free1: "free_place (True, d @ u @ ns @ [fst e]) (snd e) fs1" if "e \<in> set ?es" for e
    proof -
      have below: "fs_get fs1 k = None" if "strictly_inside ?T k" for k
      proof -
        have "k \<noteq> ?T" using that by (auto simp: strictly_inside_def)
        then show ?thesis using get [rule_format, of k] free_placeD(1) [OF Suc.prems(9) that] by simp
      qed
      have dirs: "is_dir fs1 k" if "inside k ?T" for k
      proof (cases "k = ?T")
        case False
        then have "is_dir (w_fs w) k" using free_placeD(2) [OF Suc.prems(9) inside_parent [OF that]] by simp
        then show ?thesis using get [rule_format, of k] False by (simp add: is_dir_def)
      qed (use get [rule_format, of k] DirNode in \<open>simp add: is_dir_def\<close>)
      show ?thesis using free_place_child [of True "d @ u @ ns" fs1 "fst e" "snd e"] below dirs T by simp
    qed
    obtain c' fs' where f: "fold_act (\<lambda>acc (name, n). walk_dir fuel ?v acc (path_join [p, name], n)) (add_counts acc c) ?es ?w1 = (Inr c', ?w1\<lparr>w_fs := fs'\<rparr>)"
      and same: "\<And>k. \<forall>e \<in> set ?es. \<not> inside (True, d @ u @ ns @ [fst e]) k \<Longrightarrow> fs_get fs' k = fs_get fs1 k"
      and copied: "\<And>e k data. e \<in> set ?es \<Longrightarrow> inside (True, s @ u @ ns @ [fst e]) k \<Longrightarrow> fs_get fs0 k = Some (FileNode data) \<Longrightarrow> fs_get fs' (tgt s d k) = Some (FileNode data)"
    proof -
      have e: "distinct (map fst ?es)" using distinct_children [OF dist] by (simp only: distinct_names_sorted)
      have v: "fault_free ?w1" "w_fs ?w1 = fs1" using Suc.prems(7) by simp_all
      show thesis
        using loop [OF order.refl e names_sorted v(1), unfolded v(2), OF calm1 free1, of "add_counts acc c"] that by blast
    qed
    have "fs_get fs' k = fs_get (w_fs w) k" if "\<not> inside ?T k" for k
    proof -
      have "\<forall>e \<in> set ?es. \<not> inside (True, d @ u @ ns @ [fst e]) k" using that T inside_appendD [of True "d @ u @ ns" "[_]" k] by auto
      moreover have "k \<noteq> ?T" using that by auto
      ultimately show ?thesis using same get [rule_format, of k] by simp
    qed
    moreover have "fs_get fs' (tgt s d k) = Some (FileNode data)" if k: "inside ?l k" "fs_get fs0 k = Some (FileNode data)" for k data
    proof -
      have "k \<noteq> ?l" using k(2) Suc.prems(5) DirNode by auto
      then obtain name m where e: "fs_get fs0 (fst ?l, snd ?l @ [name]) = Some m" "inside (fst ?l, snd ?l @ [name]) k"
        using below_entry [OF roots(6) k(1)] k(2) by auto
      then have "(name, m) \<in> set ?es" using children_get [OF dist, of ?l name m] by (simp add: set_names_sorted)
      then show ?thesis using copied [of "(name, m)" k data] e(2) k(2) Suc.prems(1) by simp
    qed
    moreover have "walk_dir (Suc fuel) ?v acc (p, n) w = (Inr c', w\<lparr>w_fs := fs'\<rparr>)" using walk f by simp
    ultimately show ?thesis by blast
  qed
qed

end
