(* ===== verification/DownloadsMove.thy ===== *)
theory DownloadsMove
  imports RelocationSafety
begin

text \<open>
  Moving the downloads directory as a whole: the three trees are copied, the rows of pages, texts and
  episodes follow, and the old trees go. Any failure leaves every old file where it was.
\<close>

section \<open>Rewriting the rows\<close>

locale rewrite_table = row_table rows_of set_rows path_of_row key
  for rows_of :: "db \<Rightarrow> 'r list" and set_rows and path_of_row :: "'r \<Rightarrow> string option" and key :: "'r \<Rightarrow> 'k" +
  fixes upd :: "string \<Rightarrow> 'r \<Rightarrow> 'r" and set_path :: "'r \<Rightarrow> string option \<Rightarrow> unit stmt"
  assumes set_path: "set_path r (Some p) now d = (Inr (), set_rows (map (\<lambda>x. if key x = key r then upd p x else x) (rows_of d)) d)"
    and upd_key: "key (upd p x) = key x"
begin

lemma rewrite_rows_free:
  assumes "fault_free w" "distinct (map key rs)"
  shows "for_each (\<lambda>r. rewrite_row (f r) (set_path r)) rs w =
    (Inr (), w\<lparr>w_db := set_rows (map (\<lambda>x. case map_of (map (\<lambda>r. (key r, f r)) rs) (key x) of Some (Some p) \<Rightarrow> upd p x | _ \<Rightarrow> x)
       (rows_of (w_db w))) (w_db w)\<rparr>)"
  using assms
proof (induction rs arbitrary: w)
  case Nil
  then show ?case by (simp add: ret_def set_same)
next
  case (Cons r rs)
  let ?g = "\<lambda>rs x. case map_of (map (\<lambda>r. (key r, f r)) rs) (key x) of Some (Some p) \<Rightarrow> upd p x | _ \<Rightarrow> x"
  have fresh: "map_of (map (\<lambda>r. (key r, f r)) rs) (key r) = None"
    using Cons.prems(2) by (simp add: map_of_eq_None_iff image_image)
  show ?case
  proof (cases "f r")
    case None
    then have "?g (r # rs) x = ?g rs x" for x using fresh by (cases "key x = key r") simp_all
    then show ?thesis using Cons None by (simp add: seq_def rewrite_row_def ret_def)
  next
    case (Some p)
    let ?w = "w\<lparr>w_db := set_rows (map (\<lambda>x. if key x = key r then upd p x else x) (rows_of (w_db w))) (w_db w)\<rparr>"
    have one: "rewrite_row (f r) (set_path r) w = (Inr (), ?w)"
      using Cons.prems(1) Some by (simp add: rewrite_row_def db_call_free set_path)
    have "?g rs (if key x = key r then upd p x else x) = ?g (r # rs) x" for x
      using fresh Some by (cases "key x = key r") (simp_all add: upd_key)
    then have "map (?g rs) (map (\<lambda>x. if key x = key r then upd p x else x) xs) = map (?g (r # rs)) xs" for xs
      by (simp only: map_map o_def)
    then show ?thesis using Cons.IH [of ?w] Cons.prems one by (simp add: seq_def rows_set set_set del: map_map)
  qed
qed

text \<open>The rows with a path that the table lists get their new path, when they have one.\<close>

lemma rewrite_listed:
  fixes w :: "'z world_scheme"
  assumes "fault_free w" "distinct (map key (rows_of (w_db w)))"
  shows "for_each (\<lambda>r. rewrite_row (f r) (set_path r)) (filter (\<lambda>r. nonempty_path (path_of_row r)) (rows_of (w_db w))) w =
    (Inr (), w\<lparr>w_db := set_rows (map (\<lambda>x. if nonempty_path (path_of_row x) then (case f x of Some p \<Rightarrow> upd p x | None \<Rightarrow> x) else x)
       (rows_of (w_db w))) (w_db w)\<rparr>)"
proof -
  let ?rs = "filter (\<lambda>r. nonempty_path (path_of_row r)) (rows_of (w_db w))"
  have d: "distinct (map key ?rs)" using assms(2) by (simp add: distinct_map_filter)
  have "map_of (map (\<lambda>r. (key r, f r)) ?rs) (key x) = (if nonempty_path (path_of_row x) then Some (f x) else None)"
    if x: "x \<in> set (rows_of (w_db w))" for x
  proof (cases "nonempty_path (path_of_row x)")
    case True
    then have "(key x, f x) \<in> set (map (\<lambda>r. (key r, f r)) ?rs)" using x by auto
    moreover have "distinct (map fst (map (\<lambda>r. (key r, f r)) ?rs))" using d by (simp add: comp_def)
    ultimately show ?thesis using True by (simp only: map_of_is_SomeI if_True)
  next
    case False
    have "key x \<notin> key ` set ?rs"
    proof
      assume "key x \<in> key ` set ?rs"
      then obtain y where "y \<in> set ?rs" "key y = key x" by auto
      then show False using False x inj_onD [OF conjunct2 [OF assms(2) [unfolded distinct_map]]] by auto
    qed
    then show ?thesis using False by (simp add: map_of_eq_None_iff image_image)
  qed
  then have "map (\<lambda>x. case map_of (map (\<lambda>r. (key r, f r)) ?rs) (key x) of Some (Some p) \<Rightarrow> upd p x | _ \<Rightarrow> x) (rows_of (w_db w)) =
      map (\<lambda>x. if nonempty_path (path_of_row x) then (case f x of Some p \<Rightarrow> upd p x | None \<Rightarrow> x) else x) (rows_of (w_db w))"
    by (intro map_cong) (auto split: option.split)
  then show ?thesis by (simp only: rewrite_rows_free [OF assms(1) d])
qed

end

interpretation page_moves: rewrite_table manga_pages "\<lambda>xs d. d\<lparr>manga_pages := xs\<rparr>" p_local_path "\<lambda>p. (p_chapter p, p_number p)"
  "\<lambda>path p. p\<lparr>p_local_path := Some path\<rparr>" "\<lambda>r p. q_set_manga_page_path p (p_chapter r) (p_number r)"
  by unfold_locales (auto simp: q_set_manga_page_path_def exec_def update_where_def)

interpretation novel_moves: rewrite_table novel_contents "\<lambda>xs d. d\<lparr>novel_contents := xs\<rparr>" n_local_path n_chapter
  "\<lambda>path n. n\<lparr>n_local_path := Some path\<rparr>" "\<lambda>r p. q_set_novel_chapter_content_path p (n_chapter r)"
  by unfold_locales (auto simp: q_set_novel_chapter_content_path_def exec_def update_where_def)

interpretation stream_moves: rewrite_table streams "\<lambda>xs d. d\<lparr>streams := xs\<rparr>" as_local_path as_chapter
  "\<lambda>path s. s\<lparr>as_local_path := Some path\<rparr>" "\<lambda>r p. q_set_anime_episode_stream_path p (as_chapter r)"
  by unfold_locales (auto simp: q_set_anime_episode_stream_path_def exec_def update_where_def)

section \<open>Which paths move\<close>

lemma split_join_prefix:
  assumes "bs \<noteq> []" "\<And>x. x \<in> set bs \<Longrightarrow> CHR ''/'' \<notin> set x" "cs \<noteq> []" "\<And>x. x \<in> set cs \<Longrightarrow> CHR ''/'' \<notin> set x"
  shows "has_prefix (join ''/'' cs) (join ''/'' bs @ ''/'') \<longleftrightarrow> strict_prefix bs cs"
proof
  assume "has_prefix (join ''/'' cs) (join ''/'' bs @ ''/'')"
  then obtain t where t: "join ''/'' cs = join ''/'' bs @ CHR ''/'' # t" by (auto simp: has_prefix_iff)
  have "cs = split_on (CHR ''/'') (join ''/'' cs)" using split_on_join [OF assms(3,4)] by simp
  also have "\<dots> = bs @ split_on (CHR ''/'') t" unfolding t split_on_append_sep using split_on_join [OF assms(1,2)] by simp
  finally show "strict_prefix bs cs" using split_on_not_Nil [of "CHR ''/''" t] by (metis strict_prefixI' strict_prefix_def prefixI append_self_conv)
next
  assume "strict_prefix bs cs"
  then obtain ts where ts: "cs = bs @ ts" "ts \<noteq> []" by (auto elim: strict_prefixE')
  have "join ''/'' (bs @ ts) = join ''/'' bs @ CHR ''/'' # join ''/'' ts" using assms(1) ts(2)
    by (induction bs) (auto simp: join_Cons)
  then show "has_prefix (join ''/'' cs) (join ''/'' bs @ ''/'')" using ts by (simp add: has_prefix_iff)
qed

lemma clean_below:
  assumes "location base = (True, bs)" "path_clean base = base" "bs \<noteq> []"
  shows "path_clean p = base \<or> has_prefix (path_clean p) (base @ ''/'') \<longleftrightarrow> inside (True, bs) (location p)"
proof -
  obtain rt cs where l: "location p = (rt, cs)" by (cases "location p")
  have b: "base = CHR ''/'' # join ''/'' bs" using assms(1,2) by (simp add: path_clean_def path_of_def)
  have no: "CHR ''/'' \<notin> set x" if "x \<in> set (snd (location q))" for x q
    using stack_ok_elems [OF stack_ok_location [of q], of x] that by (simp add: elem_ok_def)
  have nb: "\<And>x. x \<in> set bs \<Longrightarrow> CHR ''/'' \<notin> set x" using no [of _ base] assms(1) by simp
  have nc: "\<And>x. x \<in> set cs \<Longrightarrow> CHR ''/'' \<notin> set x" using no [of _ p] l by simp
  have eq: "path_clean p = base \<longleftrightarrow> location p = (True, bs)"
    using path_clean_eq_iff [of p base] assms(1,2) by simp
  show ?thesis
  proof (cases rt)
    case True
    have pc: "path_clean p = CHR ''/'' # join ''/'' cs" using l True by (simp add: path_clean_def path_of_def)
    have "has_prefix (path_clean p) (base @ ''/'') \<longleftrightarrow> strict_prefix bs cs"
    proof (cases "cs = []")
      case False
      then show ?thesis using split_join_prefix [OF assms(3) nb False nc] unfolding pc b
        by (simp add: has_prefix_iff)
    qed (simp add: pc b has_prefix_iff)
    then show ?thesis using eq l True by (auto simp: inside_def strict_prefix_def)
  next
    case False
    have "\<not> rooted (path_clean p)" using rooted_path_of [of rt cs] stack_ok_location [of p] l False location_fst [of p]
      by (simp add: path_clean_def)
    then have "\<not> has_prefix (path_clean p) (base @ ''/'')" unfolding b by (auto simp: has_prefix_iff rooted_def)
    then show ?thesis using eq l False by (auto simp: inside_def)
  qed
qed

text \<open>A path below one of the moved directories gets the place its file is copied to; no other path changes.\<close>

lemma remap_spec:
  assumes "location cur = (True, s)" "cur \<noteq> []" "location new_abs = (True, d)" "new_abs \<noteq> []"
    "list_all name_ok (snd (location p))"
  shows "(\<exists>sub \<in> set download_subdirs. inside (True, s @ [sub]) (location p)) \<longrightarrow>
      (\<exists>np. remap cur new_abs p = Some np \<and> location np = tgt s d (location p))"
    "(\<forall>sub \<in> set download_subdirs. \<not> inside (True, s @ [sub]) (location p)) \<longrightarrow> remap cur new_abs p = None"
proof -
  have base: "path_clean p = path_join [cur, sub] \<or> has_prefix (path_clean p) (path_join [cur, sub] @ ''/'') \<longleftrightarrow> inside (True, s @ [sub]) (location p)"
    if "sub \<in> set download_subdirs" for sub
  proof -
    have "name_ok sub" using that by (auto simp: download_subdirs_def name_ok_def)
    then show ?thesis using clean_below [of "path_join [cur, sub]" "s @ [sub]" p] location_join_one [OF assms(2)] assms(1) location_fst [of cur]
      join_dot_clean [OF assms(2)] by simp
  qed
  have rel: "\<exists>rel. path_rel cur (path_clean p) = Inr rel \<and> location (path_join [new_abs, rel]) = tgt s d (location p)"
    if below: "inside (True, s) (location p)"
  proof -
    obtain ns where "snd (location p) = s @ ns" "fst (location p)" using below by (auto simp: inside_def prefix_def)
    then have ns: "location p = (True, s @ ns)" by (simp add: prod_eq_iff)
    then have "list_all name_ok ns" using assms(5) by simp
    then show ?thesis using path_rel_below [of cur True s "path_clean p" ns] location_join_rel [OF assms(4), of ns] ns assms(1,3) location_fst [of new_abs]
      by auto
  qed
  have up: "inside (True, s @ [sub]) (location p) \<Longrightarrow> inside (True, s) (location p)" for sub
    by (auto simp: inside_def dest: append_prefixD)
  have step: "remap_in cur new_abs (path_clean p) (sub # subs) =
      (if inside (True, s @ [sub]) (location p)
       then (case path_rel cur (path_clean p) of Inl _ \<Rightarrow> None | Inr rel \<Rightarrow> Some (path_join [new_abs, rel]))
       else remap_in cur new_abs (path_clean p) subs)" if "sub \<in> set download_subdirs" for sub subs
    using base [OF that] by (simp add: Let_def)
  show "(\<exists>sub \<in> set download_subdirs. inside (True, s @ [sub]) (location p)) \<longrightarrow>
      (\<exists>np. remap cur new_abs p = Some np \<and> location np = tgt s d (location p))"
    using step up rel unfolding remap_def by (fastforce simp: download_subdirs_def split: sum.split)
  show "(\<forall>sub \<in> set download_subdirs. \<not> inside (True, s @ [sub]) (location p)) \<longrightarrow> remap cur new_abs p = None"
    using step unfolding remap_def by (simp add: download_subdirs_def)
qed

section \<open>The steps, without failing calls\<close>

lemma max_depth_le: "e \<in> set fs \<Longrightarrow> length (snd (fst e)) \<le> max_depth fs"
  unfolding max_depth_def by (induction fs) auto

lemma copy_tree_complete:
  fixes w :: "'z fs_world_scheme"
  assumes "location src = (True, s @ u)" "location dst = (True, d @ u)" "src \<noteq> []" "dst \<noteq> []" "apart (True, s) (True, d)"
    "list_all name_ok u" "tree_ok fs0" "d \<noteq> []" "fs_get fs0 (True, s @ u) = Some DirNode"
    "fault_free w" "calm (True, s) (True, d) fs0 (w_fs w)" "free_place (True, d @ u) DirNode (w_fs w)"
  shows "\<exists>c fs'. copy_tree ds src dst w = (Inr c, w\<lparr>w_fs := fs'\<rparr>) \<and> calm (True, s) (True, d) fs0 fs' \<and>
    (\<forall>k. \<not> inside (True, d @ u) k \<longrightarrow> fs_get fs' k = fs_get (w_fs w) k) \<and>
    (\<forall>k data. inside (True, s @ u) k \<longrightarrow> fs_get fs0 k = Some (FileNode data) \<longrightarrow> fs_get fs' (tgt s d k) = Some (FileNode data))"
proof -
  let ?fuel = "max_depth (w_fs w)"
  have loc: "location src = (True, s @ u @ [])" using assms(1) by simp
  have n: "fs_get (w_fs w) (location src) = Some DirNode"
    using calm_get [OF assms(11), of "location src"] assms(1,9) by (simp add: inside_def)
  have deep: "length (snd k) \<le> length (snd (location src)) + ?fuel" if k: "inside (location src) k" "fs_get fs0 k \<noteq> None" for k
  proof -
    have "inside (True, s) k" using inside_appendD [of True s u k] k(1) assms(1) by simp
    then obtain m where "fs_get (w_fs w) k = Some m" using calm_get [OF assms(11)] k(2) by auto
    then have "(k, m) \<in> set (w_fs w)" by (simp add: fs_get_def map_of_SomeD)
    then show ?thesis using max_depth_le [of "(k, m)" "w_fs w"] by simp
  qed
  have n0: "fs_get fs0 (location src) = Some DirNode" and t: "tgt s d (location src) = (True, d @ u)" using assms(1,9) by simp_all
  have free: "free_place (tgt s d (location src)) DirNode (w_fs w)" using assms(12) t by simp
  obtain c fs' where walk: "walk_dir ?fuel (copy_entry ds src dst) (0, 0) (src, DirNode) w = (Inr c, w\<lparr>w_fs := fs'\<rparr>)"
    and same: "\<forall>k. \<not> inside (tgt s d (location src)) k \<longrightarrow> fs_get fs' k = fs_get (w_fs w) k"
    and copied: "\<forall>k data. inside (location src) k \<longrightarrow> fs_get fs0 k = Some (FileNode data) \<longrightarrow> fs_get fs' (tgt s d k) = Some (FileNode data)"
    using walk_copies [OF assms(1,2,4,5,6,7,8) loc _ _ assms(3) n0 deep assms(10,11) free, of ds "(0, 0)"] by auto
  have keep: "calm (True, s) (True, d) fs0 fs'"
    using keepsD [OF keeps_calm_walk [OF assms(1,2,4,5,6,7) loc _ _ assms(3)] assms(11) walk] by simp
  have "os_stat src (w_fs w) = (Inr DirNode, w_fs w)" using n by (simp add: os_stat_def)
  then have "copy_tree ds src dst w = (Inr c, w\<lparr>w_fs := fs'\<rparr>)"
    using walk assms(10) by (simp add: copy_tree_def seq_def gets_def fs_call_free)
  then show ?thesis using keep same copied unfolding assms(1) tgt_append by blast
qed

text \<open>The files of one of the trees that are copied.\<close>

definition copied_below :: "string list \<Rightarrow> string list \<Rightarrow> string \<Rightarrow> fs \<Rightarrow> fs \<Rightarrow> bool" where
  "copied_below s d sub fs0 fs \<longleftrightarrow> (\<forall>k data. strictly_inside (True, s @ [sub]) k \<longrightarrow> fs_get fs0 k = Some (FileNode data) \<longrightarrow>
     fs_get fs (tgt s d k) = Some (FileNode data))"

lemma copied_belowD:
  "copied_below s d sub fs0 fs \<Longrightarrow> strictly_inside (True, s @ [sub]) k \<Longrightarrow> fs_get fs0 k = Some (FileNode data) \<Longrightarrow>
    fs_get fs (tgt s d k) = Some (FileNode data)"
  unfolding copied_below_def by blast

lemma copy_sub_free:
  fixes w :: "'z fs_world_scheme"
  assumes "location cur = (True, s)" "cur \<noteq> []" "location new_abs = (True, d)" "new_abs \<noteq> []" "apart (True, s) (True, d)"
    "name_ok sub" "tree_ok fs0" "fault_free w" "calm (True, s) (True, d) fs0 (w_fs w)" "free_place (True, d @ [sub]) DirNode (w_fs w)"
  shows "\<exists>c fs'. copy_sub ds cur new_abs acc sub w = (Inr c, w\<lparr>w_fs := fs'\<rparr>) \<and> calm (True, s) (True, d) fs0 fs' \<and>
    (\<forall>k. \<not> inside (True, d @ [sub]) k \<longrightarrow> fs_get fs' k = fs_get (w_fs w) k) \<and> copied_below s d sub fs0 fs'"
proof -
  have src: "location (path_join [cur, sub]) = (True, s @ [sub])" and dst: "location (path_join [new_abs, sub]) = (True, d @ [sub])"
    using location_join_one [OF assms(2,6)] location_join_one [OF assms(4,6)] assms(1,3) location_fst [of cur] location_fst [of new_abs] by simp_all
  have ne: "path_join [cur, sub] \<noteq> []" "path_join [new_abs, sub] \<noteq> []"
    using path_clean_not_Nil by (metis join_dot_clean assms(2), metis join_dot_clean assms(4))
  have at: "fs_get (w_fs w) (True, s @ [sub]) = fs_get fs0 (True, s @ [sub])"
    by (rule calm_get [OF assms(9)]) (simp add: inside_def)
  have d: "d \<noteq> []" using assms(5) by (auto simp: apart_def inside_def)
  show ?thesis
  proof (cases "fs_get fs0 (True, s @ [sub]) = Some DirNode")
    case True
    have u: "list_all name_ok [sub]" using assms(6) by simp
    obtain c fs' where "copy_tree ds (path_join [cur, sub]) (path_join [new_abs, sub]) w = (Inr c, w\<lparr>w_fs := fs'\<rparr>)"
      "calm (True, s) (True, d) fs0 fs'" "\<forall>k. \<not> inside (True, d @ [sub]) k \<longrightarrow> fs_get fs' k = fs_get (w_fs w) k"
      "\<forall>k data. inside (True, s @ [sub]) k \<longrightarrow> fs_get fs0 k = Some (FileNode data) \<longrightarrow> fs_get fs' (tgt s d k) = Some (FileNode data)"
      using copy_tree_complete [OF src dst ne assms(5) u assms(7) d True assms(8,9,10), of ds] by blast
    moreover from this(1) have "copy_sub ds cur new_abs acc sub w = (Inr (add_counts acc c), w\<lparr>w_fs := fs'\<rparr>)"
      using at True assms(8) src by (simp add: copy_sub_def Let_def seq_def attempt_eq fs_call_free os_stat_def ret_def wrap_def)
    ultimately show ?thesis unfolding copied_below_def strictly_inside_def inside_def strict_prefix_def by blast
  next
    case False
    then have "fst (os_stat (path_join [cur, sub]) (w_fs w)) \<noteq> Inr DirNode"
      using at src by (auto simp: os_stat_def split: option.split)
    then have "copy_sub ds cur new_abs acc sub w = (Inr acc, w\<lparr>w_fs := w_fs w\<rparr>)"
      using assms(8) stat_fs by (simp add: copy_sub_def Let_def seq_def attempt_eq fs_call_free ret_def case_prod_unfold)
    moreover have "fs_get fs0 k = None" if "strictly_inside (True, s @ [sub]) k" for k
    proof -
      have "inside (True, s @ [sub]) k" "(True, s @ [sub]) \<noteq> k" using that by (auto simp: strictly_inside_def inside_def)
      then show ?thesis using tree_ancestor [OF assms(7), of "(True, s @ [sub])" k] False by (cases "fs_get fs0 k") auto
    qed
    ultimately show ?thesis using assms(9) by (intro exI [of _ acc] exI [of _ "w_fs w"]) (simp add: copied_below_def)
  qed
qed

lemma copy_subs_free:
  fixes w :: "'z fs_world_scheme"
  assumes "location cur = (True, s)" "cur \<noteq> []" "location new_abs = (True, d)" "new_abs \<noteq> []" "apart (True, s) (True, d)" "tree_ok fs0"
    "list_all name_ok subs" "distinct subs" "fault_free w" "calm (True, s) (True, d) fs0 (w_fs w)"
    "\<And>sub. sub \<in> set subs \<Longrightarrow> free_place (True, d @ [sub]) DirNode (w_fs w)"
  shows "\<exists>c fs'. fold_act (copy_sub ds cur new_abs) acc subs w = (Inr c, w\<lparr>w_fs := fs'\<rparr>) \<and> calm (True, s) (True, d) fs0 fs' \<and>
    (\<forall>sub \<in> set subs. copied_below s d sub fs0 fs') \<and>
    (\<forall>k. (\<forall>sub \<in> set subs. \<not> inside (True, d @ [sub]) k) \<longrightarrow> fs_get fs' k = fs_get (w_fs w) k)"
  using assms(7-)
proof (induction subs arbitrary: acc w)
  case Nil
  then show ?case by (intro exI [of _ acc] exI [of _ "w_fs w"]) (simp add: ret_def)
next
  case (Cons sub subs)
  obtain c1 fs1 where one: "copy_sub ds cur new_abs acc sub w = (Inr c1, w\<lparr>w_fs := fs1\<rparr>)"
    and calm1: "calm (True, s) (True, d) fs0 fs1"
    and same1: "\<And>k. \<not> inside (True, d @ [sub]) k \<Longrightarrow> fs_get fs1 k = fs_get (w_fs w) k" and c1: "copied_below s d sub fs0 fs1"
    using copy_sub_free [OF assms(1-5) _ assms(6) Cons.prems(3,4) Cons.prems(5)[of sub], of ds acc] Cons.prems(1) by auto
  have other: "sub' \<noteq> sub \<Longrightarrow> inside (True, d @ [sub']) k \<Longrightarrow> \<not> inside (True, d @ [sub]) k" for sub' k
    using siblings_apart [of sub' sub True d k] by simp
  have free1: "free_place (True, d @ [sub']) DirNode fs1" if s': "sub' \<in> set subs" for sub'
  proof -
    have ne: "sub' \<noteq> sub" using Cons.prems(2) s' by auto
    have f: "free_place (True, d @ [sub']) DirNode (w_fs w)" using Cons.prems(5) s' by simp
    have "fs_get fs1 k = fs_get (w_fs w) k" if "inside (True, d @ [sub']) k" for k using same1 other [OF ne that] by simp
    moreover have "fs_get fs1 k = fs_get (w_fs w) k" if "inside k (parent (True, d @ [sub']))" for k
      using same1 above_not_below [OF that] by simp
    moreover have "inside (True, d @ [sub']) k" if "strictly_inside (True, d @ [sub']) k" for k
      using that by (simp add: strictly_inside_def inside_def strict_prefix_def)
    ultimately show ?thesis using f unfolding free_place_def is_dir_def by simp
  qed
  let ?w1 = "w\<lparr>w_fs := fs1\<rparr>"
  have v: "fault_free ?w1" "w_fs ?w1 = fs1" "list_all name_ok subs" "distinct subs" using Cons.prems(1-3) by simp_all
  obtain c2 fs2 where rest: "fold_act (copy_sub ds cur new_abs) c1 subs ?w1 = (Inr c2, ?w1\<lparr>w_fs := fs2\<rparr>)"
    and calm2: "calm (True, s) (True, d) fs0 fs2" and c2: "\<forall>sub \<in> set subs. copied_below s d sub fs0 fs2"
    and same2: "\<And>k. \<forall>sub \<in> set subs. \<not> inside (True, d @ [sub]) k \<Longrightarrow> fs_get fs2 k = fs_get fs1 k"
    using Cons.IH [OF v(3,4,1), unfolded v(2), OF calm1 free1, of c1] by blast
  have "copied_below s d sub fs0 fs2"
    unfolding copied_below_def
  proof (intro allI impI)
    fix k data assume k: "strictly_inside (True, s @ [sub]) k" "fs_get fs0 k = Some (FileNode data)"
    have i: "inside (True, d @ [sub]) (tgt s d k)"
      using tgt_below [of s "[sub]" k d] k(1) by (simp add: strictly_inside_def inside_def strict_prefix_def)
    have "\<forall>sub' \<in> set subs. \<not> inside (True, d @ [sub']) (tgt s d k)"
      using siblings_apart [OF _ i] Cons.prems(2) by (intro ballI) (metis distinct.simps(2))
    then show "fs_get fs2 (tgt s d k) = Some (FileNode data)" using same2 copied_belowD [OF c1 k] by simp
  qed
  moreover have "fold_act (copy_sub ds cur new_abs) acc (sub # subs) w = (Inr c2, w\<lparr>w_fs := fs2\<rparr>)"
    using one rest by (simp add: seq_def)
  moreover have "fs_get fs2 k = fs_get (w_fs w) k" if "\<forall>sub' \<in> set (sub # subs). \<not> inside (True, d @ [sub']) k" for k
    using same1 [of k] same2 [of k] that by simp
  ultimately show ?case using calm2 c2 by (intro exI [of _ c2] exI [of _ fs2]) simp
qed

section \<open>Preparing the new directory, rewriting, removing\<close>

lemma mkdirs_all_dirs:
  "fst (mkdirs rt dn cs fs) = Inr () \<Longrightarrow> 0 < k \<Longrightarrow> k \<le> length cs \<Longrightarrow> fs_get (snd (mkdirs rt dn cs fs)) (rt, dn @ take k cs) = Some DirNode"
proof (induction rt dn cs fs arbitrary: k rule: mkdirs.induct)
  case (2 rt dn c cs fs)
  obtain j where k: "k = Suc j" using 2(4) by (cases k) auto
  show ?case
  proof (cases j)
    case 0
    then show ?thesis using 2(3) k mkdirs_keep_dir [of fs "(rt, dn @ [c])"] mkdirs_keep_dir [of "fs_put (rt, dn @ [c]) DirNode fs" "(rt, dn @ [c])"]
      by (auto split: option.splits node.splits)
  next
    case (Suc i)
    then show ?thesis using 2 k by (auto split: option.splits node.splits)
  qed
qed simp

definition abs_of :: "string \<Rightarrow> string \<Rightarrow> string" where
  "abs_of cwd p = (if rooted p then path_clean p else path_join [cwd, p])"

lemma abs_path_free: "fault_free w \<Longrightarrow> abs_path cwd p w = (Inr (abs_of cwd p), w)"
  by (simp add: abs_path_def abs_of_def ret_def seq_def)

lemma subpath_inside:
  assumes "location a = (True, s)" "location b = (True, d)" "apart (True, s) (True, d)" "list_all name_ok s"
  shows "\<not> is_subpath a b"
proof -
  let ?k = "length (longest_common_prefix s d)"
  have "\<not> prefix s d" using assms(3) by (auto simp: apart_def inside_def)
  then have "longest_common_prefix s d \<noteq> s" using longest_common_prefix_prefix2 [of s d] by auto
  then have "strict_prefix (longest_common_prefix s d) s" using longest_common_prefix_prefix1 [of s d] by (simp add: strict_prefix_def)
  then have "?k < length s" by (rule prefix_length_less)
  then have up: "replicate (length s - ?k) ''..'' = ''..'' # replicate (length s - ?k - 1) ''..''"
    by (metis Suc_diff_1 replicate_Suc zero_less_diff)
  have "drop ?k s \<noteq> [] \<longrightarrow> hd (drop ?k s) \<noteq> ''..''"
    using assms(4) by (metis in_set_dropD list.set_sel(1) list_all_iff name_ok_def)
  then have r: "path_rel a b = Inr (join ''/'' (''..'' # replicate (length s - ?k - 1) ''..'' @ drop ?k d))"
    using assms(1,2) up by (auto simp: path_rel_def Let_def)
  show ?thesis
  proof (cases "replicate (length s - ?k - 1) ''..'' @ drop ?k d")
    case Nil
    then show ?thesis unfolding is_subpath_def r by (simp add: join_Cons)
  next
    case (Cons x xs)
    then show ?thesis unfolding is_subpath_def r by (simp add: join_Cons has_prefix_iff)
  qed
qed

lemma rooted_names: "rooted p \<Longrightarrow> list_all name_ok (snd (location p))"
  using stack_ok_elems [OF stack_ok_location [of p]] by (auto simp: list_all_iff elem_ok_def name_ok_def)

lemma probe_ok: "name_ok ''.tsunagu-write-test''"
  by (simp add: name_ok_def)

lemma keeps_calm_prepare:
  assumes "location new_abs = (True, d)" "new_abs \<noteq> []" "apart (True, s) (True, d)"
  shows "keeps (\<lambda>w :: 'z fs_world_scheme. calm (True, s) (True, d) fs0 (w_fs w)) (prepare_dir what cur new_abs)"
proof -
  have "inside (True, d) (location new_abs)" "inside (True, d) (location (path_join [new_abs, ''.tsunagu-write-test'']))"
    using location_join_one [OF assms(2) probe_ok] assms(1) location_fst [of new_abs] by (simp_all add: inside_def)
  then show ?thesis unfolding prepare_dir_def Let_def using keeps_calm_calls [OF assms(3)]
    by (auto intro!: keeps_intros)
qed

lemma prepare_dir_free:
  fixes w :: "'z fs_world_scheme"
  assumes "location cur = (True, s)" "location new_abs = (True, d)" "new_abs \<noteq> []" "apart (True, s) (True, d)"
    "list_all name_ok s" "list_all name_ok d" "fault_free w" "\<And>k. strictly_inside (True, d) k \<Longrightarrow> fs_get (w_fs w) k = None"
    "\<And>k. inside k (True, d) \<Longrightarrow> \<not> is_file (w_fs w) k"
  shows "\<exists>fs'. prepare_dir what cur new_abs w = (Inr (), w\<lparr>w_fs := fs'\<rparr>) \<and>
    (\<forall>k. strictly_inside (True, d) k \<longrightarrow> fs_get fs' k = None) \<and> (\<forall>k. inside k (True, d) \<longrightarrow> is_dir fs' k)"
proof -
  let ?probe = "path_join [new_abs, ''.tsunagu-write-test'']"
  have pl: "location ?probe = (True, d @ [''.tsunagu-write-test''])"
    using location_join_one [OF assms(3) probe_ok] assms(2) location_fst [of new_abs] by simp
  have flat: "\<not> is_subpath cur new_abs" "\<not> is_subpath new_abs cur"
    using subpath_inside [OF assms(1,2,4,5)] subpath_inside [OF assms(2,1) _ assms(6)] assms(4) by (simp_all add: apart_def)
  obtain x fs1 where mk: "os_mkdir_all new_abs (w_fs w) = (x, fs1)" by (cases "os_mkdir_all new_abs (w_fs w)")
  have x: "x = Inr ()" using mkdir_all_result [OF mk] assms(2,9) by auto
  have dirs: "is_dir fs1 k" if above: "inside k (True, d)" for k
  proof -
    obtain ks where "snd k @ ks = d" "fst k" using above by (auto simp: inside_def prefix_def)
    then have k: "k = (True, take (length (snd k)) d)" by (simp add: prod_eq_iff) (metis append_eq_conv_conj)
    have "fst (mkdirs True [] d (w_fs w)) = Inr ()" "snd (mkdirs True [] d (w_fs w)) = fs1"
      using mk x assms(2) by (simp_all add: os_mkdir_all_def)
    then show ?thesis
    proof (cases "snd k = []")
      case False
      then have "fs_get fs1 (True, take (length (snd k)) d) = Some DirNode"
        using mkdirs_all_dirs [of True "[]" d "w_fs w" "length (snd k)"] above
          \<open>fst (mkdirs True [] d (w_fs w)) = Inr ()\<close> \<open>snd (mkdirs True [] d (w_fs w)) = fs1\<close>
        by (auto simp: inside_def dest: prefix_length_le)
      then show ?thesis using k by (simp add: is_dir_def)
    qed (simp add: is_dir_def)
  qed
  have none: "fs_get fs1 k = None" if "strictly_inside (True, d) k" for k
  proof -
    have "\<not> inside k (location new_abs)"
      using that assms(2) by (auto simp: strictly_inside_def inside_def strict_prefix_def dest: prefix_order.antisym)
    then show ?thesis using mkdir_all_outside [OF mk] assms(8) [OF that] by simp
  qed
  have below: "strictly_inside (True, d) (location ?probe)" using pl by (simp add: strictly_inside_def strict_prefix_def)
  have "parent (location ?probe) = (True, d)" using pl by (simp add: parent_def)
  then have wr: "os_write_file ?probe (Bytes ''ok'') fs1 = (Inr (), fs_put (location ?probe) (FileNode (Bytes ''ok'')) fs1)"
    using dirs [of "(True, d)"] none [OF below] pl by (simp add: os_write_file_def Let_def is_dir_def)
  let ?fs3 = "fs_drop (\<lambda>x. x = location ?probe) (fs_put (location ?probe) (FileNode (Bytes ''ok'')) fs1)"
  have rm: "os_remove ?probe (fs_put (location ?probe) (FileNode (Bytes ''ok'')) fs1) = (Inr (), ?fs3)"
    by (simp add: os_remove_def Let_def)
  have same: "fs_get ?fs3 k = fs_get fs1 k" for k using none [OF below] by simp
  have "prepare_dir what cur new_abs w = (Inr (), w\<lparr>w_fs := ?fs3\<rparr>)"
    using flat assms(7) mk x wr rm by (simp add: prepare_dir_def Let_def seq_def wrap_def fs_call_free ignore_eq)
  then show ?thesis using none dirs unfolding same [symmetric] is_dir_def by blast
qed

definition moved :: "('r \<Rightarrow> string option) \<Rightarrow> (string \<Rightarrow> 'r \<Rightarrow> 'r) \<Rightarrow> (string \<Rightarrow> string option) \<Rightarrow> 'r \<Rightarrow> 'r" where
  "moved path_of_row upd f x = (if nonempty_path (path_of_row x)
     then (case f (string_of (path_of_row x)) of Some p \<Rightarrow> upd p x | None \<Rightarrow> x) else x)"

lemma rewrite_paths_free:
  fixes w :: "'z world_scheme"
  assumes "fault_free w" "distinct (map (\<lambda>p. (p_chapter p, p_number p)) (manga_pages (w_db w)))"
    "distinct (map n_chapter (novel_contents (w_db w)))" "distinct (map as_chapter (streams (w_db w)))"
  shows "rewrite_paths cur new_abs w = (Inr (), w\<lparr>w_db := (w_db w)
    \<lparr>manga_pages := map (moved p_local_path (\<lambda>path p. p\<lparr>p_local_path := Some path\<rparr>) (remap_page cur new_abs)) (manga_pages (w_db w)),
     novel_contents := map (moved n_local_path (\<lambda>path n. n\<lparr>n_local_path := Some path\<rparr>) (remap cur new_abs)) (novel_contents (w_db w)),
     streams := map (moved as_local_path (\<lambda>path s. s\<lparr>as_local_path := Some path\<rparr>) (remap cur new_abs)) (streams (w_db w))\<rparr>\<rparr>)"
proof -
  let ?d1 = "(w_db w)\<lparr>manga_pages := map (moved p_local_path (\<lambda>path p. p\<lparr>p_local_path := Some path\<rparr>) (remap_page cur new_abs)) (manga_pages (w_db w))\<rparr>"
  let ?d2 = "?d1\<lparr>novel_contents := map (moved n_local_path (\<lambda>path n. n\<lparr>n_local_path := Some path\<rparr>) (remap cur new_abs)) (novel_contents (w_db w))\<rparr>"
  have 1: "for_each (\<lambda>r. rewrite_row (remap_page cur new_abs (string_of (p_local_path r))) (\<lambda>p. q_set_manga_page_path p (p_chapter r) (p_number r)))
      (filter (\<lambda>r. nonempty_path (p_local_path r)) (manga_pages (w_db w))) w = (Inr (), w\<lparr>w_db := ?d1\<rparr>)"
    using page_moves.rewrite_listed [OF assms(1,2), of "\<lambda>r. remap_page cur new_abs (string_of (p_local_path r))"] by (simp add: moved_def [abs_def])
  have 2: "for_each (\<lambda>r. rewrite_row (remap cur new_abs (string_of (n_local_path r))) (\<lambda>p. q_set_novel_chapter_content_path p (n_chapter r)))
      (filter (\<lambda>r. nonempty_path (n_local_path r)) (novel_contents (w_db w))) (w\<lparr>w_db := ?d1\<rparr>) = (Inr (), w\<lparr>w_db := ?d2\<rparr>)"
    using novel_moves.rewrite_listed [of "w\<lparr>w_db := ?d1\<rparr>" "\<lambda>r. remap cur new_abs (string_of (n_local_path r))"] assms(1,3)
    by (simp add: moved_def [abs_def])
  have 3: "for_each (\<lambda>r. rewrite_row (remap cur new_abs (string_of (as_local_path r))) (\<lambda>p. q_set_anime_episode_stream_path p (as_chapter r)))
      (filter (\<lambda>r. nonempty_path (as_local_path r)) (streams (w_db w))) (w\<lparr>w_db := ?d2\<rparr>) =
      (Inr (), w\<lparr>w_db := ?d2\<lparr>streams := map (moved as_local_path (\<lambda>path s. s\<lparr>as_local_path := Some path\<rparr>) (remap cur new_abs)) (streams (w_db w))\<rparr>\<rparr>)"
    using stream_moves.rewrite_listed [of "w\<lparr>w_db := ?d2\<rparr>" "\<lambda>r. remap cur new_abs (string_of (as_local_path r))"] assms(1,4)
    by (simp add: moved_def [abs_def])
  show ?thesis using assms(1)
    by (simp add: rewrite_paths_def seq_def db_call_free q_list_all_manga_page_paths_def q_list_all_novel_content_paths_def
        q_list_all_episode_stream_paths_def select_all_def 1 2 3)
qed

lemma not_ends_with_dot:
  assumes "p = path_of (rt, cs @ [n])" "n \<noteq> []" "last n \<noteq> CHR ''.''"
  shows "\<not> ends_with_dot p"
proof -
  have "p = path_of (rt, cs @ [[]]) @ n" unfolding path_of_suffix using assms(1) by simp
  then have "last p \<noteq> CHR ''.''" "p \<noteq> []" using assms(2,3) by simp_all
  then show ?thesis by (auto simp: ends_with_dot_def has_suffix_iff)
qed

lemma remove_subs_free:
  fixes w :: "'z fs_world_scheme"
  assumes "location cur = (True, s)" "cur \<noteq> []" "fault_free w" "set subs \<subseteq> set download_subdirs"
  shows "\<exists>fs'. for_each (\<lambda>sub. ignore (fs_call (os_remove_all (path_join [cur, sub])))) subs w = (Inr (), w\<lparr>w_fs := fs'\<rparr>) \<and>
    (\<forall>k. fs_get fs' k = (if \<exists>sub \<in> set subs. inside (True, s @ [sub]) k then None else fs_get (w_fs w) k))"
  using assms(3,4)
proof (induction subs arbitrary: w)
  case Nil
  then show ?case by (intro exI [of _ "w_fs w"]) (simp add: ret_def)
next
  case (Cons sub subs)
  have sub: "name_ok sub" "last sub \<noteq> CHR ''.''" using Cons.prems(2) by (auto simp: download_subdirs_def name_ok_def)
  have l: "location (path_join [cur, sub]) = (True, s @ [sub])"
    using location_join_one [OF assms(2) sub(1)] assms(1) location_fst [of cur] by simp
  have p: "path_join [cur, sub] = path_of (True, s @ [sub])" using path_join_clean [OF assms(2), of "[sub]"] l by simp
  have "\<not> ends_with_dot (path_join [cur, sub])" "path_join [cur, sub] \<noteq> []"
    using not_ends_with_dot [OF p] sub path_clean_not_Nil [of "path_join [cur, sub]"] join_dot_clean [OF assms(2), of "[sub]"]
    by (auto simp: name_ok_def)
  then have "os_remove_all (path_join [cur, sub]) (w_fs w) = (Inr (), fs_drop (inside (True, s @ [sub])) (w_fs w))"
    using l by (simp add: os_remove_all_def)
  then have one: "ignore (fs_call (os_remove_all (path_join [cur, sub]))) w = (Inr (), w\<lparr>w_fs := fs_drop (inside (True, s @ [sub])) (w_fs w)\<rparr>)"
    using Cons.prems(1) by (simp add: ignore_eq fs_call_free)
  let ?w1 = "w\<lparr>w_fs := fs_drop (inside (True, s @ [sub])) (w_fs w)\<rparr>"
  obtain fs' where "for_each (\<lambda>sub. ignore (fs_call (os_remove_all (path_join [cur, sub])))) subs ?w1 = (Inr (), ?w1\<lparr>w_fs := fs'\<rparr>)"
    "\<forall>k. fs_get fs' k = (if \<exists>sub \<in> set subs. inside (True, s @ [sub]) k then None else fs_get (w_fs ?w1) k)"
    using Cons.IH [of ?w1] Cons.prems by auto
  then show ?case using one by (intro exI [of _ fs']) (simp add: seq_def)
qed

lemma keeps_calm_copy_sub:
  assumes "location cur = (True, s)" "cur \<noteq> []" "location new_abs = (True, d)" "new_abs \<noteq> []" "apart (True, s) (True, d)"
    "name_ok sub" "tree_ok fs0"
  shows "keeps (\<lambda>w :: 'z fs_world_scheme. calm (True, s) (True, d) fs0 (w_fs w)) (copy_sub ds cur new_abs acc sub)"
proof -
  let ?src = "path_join [cur, sub]" and ?I = "\<lambda>w :: 'z fs_world_scheme. calm (True, s) (True, d) fs0 (w_fs w)"
  have src: "location ?src = (True, s @ [sub])" and dst: "location (path_join [new_abs, sub]) = (True, d @ [sub])"
    using location_join_one [OF assms(2,6)] location_join_one [OF assms(4,6)] assms(1,3) location_fst [of cur] location_fst [of new_abs] by simp_all
  have ne: "?src \<noteq> []" "path_join [new_abs, sub] \<noteq> []"
    using path_clean_not_Nil by (metis join_dot_clean assms(2), metis join_dot_clean assms(4))
  have u: "list_all name_ok [sub]" using assms(6) by simp
  have stat: "fs_get fs0 (True, s @ [sub]) = Some n" if "?I w" "fs_call (os_stat ?src) w = (Inr n, w')" for n w w'
  proof -
    have "fst (os_stat ?src (w_fs w)) = Inr n" using that(2) by (rule fs_call_cases) simp_all
    then have "fs_get (w_fs w) (True, s @ [sub]) = Some n" using src by (simp add: os_stat_def split: option.splits)
    then show ?thesis using calm_get [OF that(1), of "(True, s @ [sub])"] by (simp add: inside_def)
  qed
  have tree: "keeps ?I (copy_tree ds ?src (path_join [new_abs, sub]))" if dir: "fs_get fs0 (True, s @ [sub]) = Some DirNode"
  proof -
    have walk: "keeps ?I (walk_dir fuel (copy_entry ds ?src (path_join [new_abs, sub])) (0, 0) (?src, DirNode))" for fuel
      using keeps_calm_walk [OF src dst ne(2) assms(5) u assms(7), of ?src "[]" DirNode] src ne(1) by simp
    show ?thesis unfolding copy_tree_def
    proof (rule keeps_seq [OF keeps_gets], rule keeps_seq_read [OF keeps_fs_read(2)])
      fix fuel n w w' assume I: "?I w" "fs_call (os_stat ?src) w = (Inr n, w')"
      from stat [OF I] dir have "n = DirNode" by simp
      then show "keeps ?I (walk_dir fuel (copy_entry ds ?src (path_join [new_abs, sub])) (0, 0) (?src, n))" using walk by simp
    qed
  qed
  have at: "fs_get fs0 (True, s @ [sub]) = Some DirNode"
    if "?I w" "attempt (fs_call (os_stat ?src)) w = (Inr (Inr DirNode), w')" for w w'
  proof -
    have "fs_call (os_stat ?src) w = (Inr DirNode, w')" using that(2) by (cases "fs_call (os_stat ?src) w") (simp add: attempt_def)
    then show ?thesis by (rule stat [OF that(1)])
  qed
  show ?thesis unfolding copy_sub_def Let_def
  proof (rule keeps_seq_read [OF keeps_attempt [OF keeps_fs_read(2)]])
    fix info w w' assume I: "?I w" "attempt (fs_call (os_stat ?src)) w = (Inr info, w')"
    show "keeps ?I (if info \<noteq> Inr DirNode then ret acc
       else seq (wrap (''copy '' @ sub) (copy_tree ds ?src (path_join [new_abs, sub]))) (\<lambda>c. ret (add_counts acc c)))"
      using tree at [OF I(1)] I(2) by (cases "info = Inr DirNode") (simp_all add: keeps_ret keeps_seq keeps_wrap)
  qed
qed

lemma keeps_calm_rewrite: "keeps (\<lambda>w :: 'z fs_world_scheme. I (w_fs w)) (rewrite_paths cur new_abs)"
  unfolding rewrite_paths_def rewrite_row_def by (intro keeps_intros)

section \<open>The whole move\<close>

definition page_place :: "manga_page \<Rightarrow> location" where
  "page_place r = location (case parse_zip_page_path (string_of (p_local_path r)) of
     Some (archive_path, _) \<Rightarrow> archive_path | None \<Rightarrow> string_of (p_local_path r))"

text \<open>Row for row: a file that a row named is what the row names now, unless it lay in the new directory before.\<close>

definition rows_follow :: "string list \<Rightarrow> ('r \<Rightarrow> location) \<Rightarrow> fs \<Rightarrow> fs \<Rightarrow> 'r list \<Rightarrow> 'r list \<Rightarrow> bool" where
  "rows_follow d place fs fs' = list_all2 (\<lambda>r r'. \<forall>data. fs_get fs (place r) = Some (FileNode data) \<longrightarrow>
     \<not> inside (True, d) (place r) \<longrightarrow> fs_get fs' (place r') = Some (FileNode data))"

definition requested_dir :: "string \<Rightarrow> 'z dl_world_scheme \<Rightarrow> string" where
  "requested_dir new_path w = abs_of (dl_cwd w) (if trim_space new_path = [] then dl_media_dir w else trim_space new_path)"

definition files_moved :: "string list \<Rightarrow> string list \<Rightarrow> fs \<Rightarrow> fs \<Rightarrow> bool" where
  "files_moved s d fs fs' \<longleftrightarrow> (\<forall>k data. fs_get fs k = Some (FileNode data) \<longrightarrow>
     (if \<exists>sub \<in> set download_subdirs. inside (True, s @ [sub]) k
      then fs_get fs' (tgt s d k) = Some (FileNode data) \<and> fs_get fs' k = None
      else \<not> inside (True, d) k \<longrightarrow> fs_get fs' k = Some (FileNode data)))"

lemma files_movedD:
  assumes "files_moved s d fs fs'" "fs_get fs k = Some (FileNode data)"
  shows "\<exists>sub \<in> set download_subdirs. inside (True, s @ [sub]) k \<Longrightarrow> fs_get fs' (tgt s d k) = Some (FileNode data)"
    "\<forall>sub \<in> set download_subdirs. \<not> inside (True, s @ [sub]) k \<Longrightarrow> \<not> inside (True, d) k \<Longrightarrow> fs_get fs' k = Some (FileNode data)"
  using assms(1) [unfolded files_moved_def, rule_format, OF assms(2)] by (auto split: if_splits)

lemma file_rooted: "tree_ok fs \<Longrightarrow> fs_get fs k = Some n \<Longrightarrow> fst k \<and> list_all name_ok (snd k)"
  by (force simp: tree_ok_def fs_get_def dest: map_of_SomeD)

lemma rows_follow_moved:
  assumes "tree_ok fs" "files_moved s d fs fs'"
    "\<And>r. list_all name_ok (snd (place r)) \<Longrightarrow> fst (place r) \<Longrightarrow> \<exists>sub \<in> set download_subdirs. inside (True, s @ [sub]) (place r) \<Longrightarrow>
       place (g r) = tgt s d (place r)"
    "\<And>r. list_all name_ok (snd (place r)) \<Longrightarrow> fst (place r) \<Longrightarrow> \<forall>sub \<in> set download_subdirs. \<not> inside (True, s @ [sub]) (place r) \<Longrightarrow>
       place (g r) = place r"
  shows "rows_follow d place fs fs' rows (map g rows)"
proof -
  have "fs_get fs' (place (g r)) = Some (FileNode data)" if "fs_get fs (place r) = Some (FileNode data)" "\<not> inside (True, d) (place r)" for r data
  proof (cases "\<exists>sub \<in> set download_subdirs. inside (True, s @ [sub]) (place r)")
    case True
    then show ?thesis using files_movedD(1) [OF assms(2) that(1)] assms(3) [of r] file_rooted [OF assms(1) that(1)] by simp
  next
    case False
    then show ?thesis using files_movedD(2) [OF assms(2) that(1)] that(2) assms(4) [of r] file_rooted [OF assms(1) that(1)] by simp
  qed
  then show ?thesis by (simp add: rows_follow_def list_all2_conv_all_nth)
qed

text \<open>An invariant that holds after a failure; what cannot fail may break it.\<close>

definition fails_keeping :: "('s \<Rightarrow> bool) \<Rightarrow> ('s, 'a) act \<Rightarrow> bool" where
  "fails_keeping I m \<longleftrightarrow> (\<forall>s e s'. I s \<longrightarrow> m s = (Inl e, s') \<longrightarrow> I s')"

lemma fails_keeping_seq: "keeps I m \<Longrightarrow> (\<And>x. fails_keeping I (f x)) \<Longrightarrow> fails_keeping I (seq m f)"
  unfolding fails_keeping_def keeps_def by (fastforce simp: seq_eq_Inl)

lemma fails_keeping_total: "total m \<Longrightarrow> fails_keeping I m"
  unfolding fails_keeping_def total_def by (metis Inl_Inr_False prod.inject)

lemma failed_move:
  fixes w :: "'z dl_world_scheme"
  assumes "tree_ok (w_fs w)" "location (dl_downloads_dir w) = (True, s)" "location (requested_dir new_path w) = (True, d)"
    "apart (True, s) (True, d)" and failed: "relocate_downloads ds new_path True w = (Inl e, w')"
  shows "calm (True, s) (True, d) (w_fs w) (w_fs w')"
proof -
  let ?cur = "path_clean (dl_downloads_dir w)" and ?new = "requested_dir new_path w"
  let ?I = "\<lambda>w' :: 'z dl_world_scheme. calm (True, s) (True, d) (w_fs w) (w_fs w')"
  have cur: "location ?cur = (True, s)" "?cur \<noteq> []" using assms(2) path_clean_not_Nil by simp_all
  have new: "?new \<noteq> []" using assms(3) by (auto simp: location_def rooted_def)
  have ne: "?new \<noteq> ?cur" using assms(3,4) cur(1) by (auto simp: apart_def)
  let ?t = "if trim_space new_path = [] then dl_media_dir w else trim_space new_path"
  have k1: "keeps ?I (prepare_dir ''downloads'' ?cur ?new)" by (rule keeps_calm_prepare [OF assms(3) new assms(4)])
  have k2: "keeps ?I (fold_act (copy_sub ds ?cur ?new) (0, 0) download_subdirs)"
    by (rule keeps_fold_act, rule keeps_calm_copy_sub [OF cur assms(3) new assms(4) _ assms(1)])
      (auto simp: download_subdirs_def name_ok_def)
  have k3: "keeps ?I (wrap ''rewrite database paths'' (rewrite_paths ?cur ?new))" by (rule keeps_wrap [OF keeps_calm_rewrite])
  obtain a w1 where abs: "wrap ''resolve path'' (abs_path (dl_cwd w) ?t) w = (a, w1)"
    by (cases "wrap ''resolve path'' (abs_path (dl_cwd w) ?t) w")
  have a: "w_fs w1 = w_fs w" "a = Inr ?new \<or> (\<exists>e. a = Inl e)"
  proof -
    have "keeps (\<lambda>v :: 'z dl_world_scheme. w_fs v = w_fs w) (wrap ''resolve path'' (abs_path (dl_cwd w) ?t))"
      unfolding abs_path_def by (intro keeps_intros keeps_ext_call_fs)
    then show "w_fs w1 = w_fs w" using abs by (auto simp: keeps_def dest!: spec [of _ w])
    show "a = Inr ?new \<or> (\<exists>e. a = Inl e)"
      using abs by (auto simp: abs_path_def requested_dir_def abs_of_def wrap_def seq_def ret_def ext_call_def split: if_splits prod.splits sum.splits option.splits)
  qed
  have tot: "total (for_each (\<lambda>sub. ignore (fs_call (os_remove_all (path_join [?cur, sub])))) subs)" for subs
    by (induction subs) (auto intro!: total_intros)
  show ?thesis
  proof (cases "a = Inr ?new")
    case False
    then obtain e' where "a = Inl e'" using a(2) by blast
    then have "relocate_downloads ds new_path True w = (Inl e', w1)"
      using abs by (simp add: relocate_downloads_def Let_def seq_def gets_def)
    then show ?thesis using failed a(1) by simp
  next
    case True
    then have run: "seq (prepare_dir ''downloads'' ?cur ?new) (\<lambda>_.
        seq (fold_act (copy_sub ds ?cur ?new) (0, 0) download_subdirs) (\<lambda>c.
         seq (wrap ''rewrite database paths'' (rewrite_paths ?cur ?new)) (\<lambda>_.
         seq (for_each (\<lambda>sub. ignore (fs_call (os_remove_all (path_join [?cur, sub])))) download_subdirs) (\<lambda>_.
         ret \<lparr>rr_files = fst c, rr_bytes = snd c, rr_path = ?new\<rparr>)))) w1 = (Inl e, w')"
      using failed abs ne by (simp add: relocate_downloads_def Let_def seq_def gets_def)
    have w1: "?I w1" using a(1) by simp
    have "fails_keeping ?I (seq (prepare_dir ''downloads'' ?cur ?new) (\<lambda>_.
        seq (fold_act (copy_sub ds ?cur ?new) (0, 0) download_subdirs) (\<lambda>c.
         seq (wrap ''rewrite database paths'' (rewrite_paths ?cur ?new)) (\<lambda>_.
         seq (for_each (\<lambda>sub. ignore (fs_call (os_remove_all (path_join [?cur, sub])))) download_subdirs) (\<lambda>_.
         ret \<lparr>rr_files = fst c, rr_bytes = snd c, rr_path = ?new\<rparr>)))))"
      by (intro fails_keeping_seq [OF k1] fails_keeping_seq [OF k2] fails_keeping_seq [OF k3] fails_keeping_total total_seq tot total_basic)
    then show ?thesis using run w1 unfolding fails_keeping_def by blast
  qed
qed

lemma moved_places:
  assumes "location cur = (True, s)" "cur \<noteq> []" "location new_abs = (True, d)" "new_abs \<noteq> []"
    "list_all name_ok (snd (location p))" "rooted p"
  shows "\<exists>sub \<in> set download_subdirs. inside (True, s @ [sub]) (location p) \<Longrightarrow>
      \<exists>np. remap cur new_abs p = Some np \<and> location np = tgt s d (location p) \<and> rooted np"
    "\<forall>sub \<in> set download_subdirs. \<not> inside (True, s @ [sub]) (location p) \<Longrightarrow> remap cur new_abs p = None"
proof -
  show "\<exists>np. remap cur new_abs p = Some np \<and> location np = tgt s d (location p) \<and> rooted np"
    if i: "\<exists>sub \<in> set download_subdirs. inside (True, s @ [sub]) (location p)"
  proof -
    obtain np where np: "remap cur new_abs p = Some np" "location np = tgt s d (location p)"
      using remap_spec(1) [OF assms(1-5)] i by blast
    then have "rooted np" using location_fst [of np] by (simp add: tgt_def)
    then show ?thesis using np by blast
  qed
  show "remap cur new_abs p = None" if "\<forall>sub \<in> set download_subdirs. \<not> inside (True, s @ [sub]) (location p)"
    using remap_spec(2) [OF assms(1-5)] that by blast
qed

lemma empty_path:
  "\<not> nonempty_path p \<Longrightarrow> parse_zip_page_path (string_of p) = None \<and> \<not> fst (location (string_of p))"
  by (auto simp: nonempty_path_def string_of_def parse_zip_page_path_def cut_prefix_def zip_prefix_def
      location_def rooted_def has_prefix_iff split: option.split)

lemma rooted_not_empty: "rooted p \<Longrightarrow> p \<noteq> [] \<and> parse_zip_page_path p = None"
  using plain_not_zip [of p] by (auto simp: rooted_def has_prefix_iff)

lemma moved_page_place:
  assumes "location cur = (True, s)" "cur \<noteq> []" "location new_abs = (True, d)" "new_abs \<noteq> []"
    "list_all name_ok (snd (page_place r))" "fst (page_place r)"
  defines "r' \<equiv> moved p_local_path (\<lambda>path p. p\<lparr>p_local_path := Some path\<rparr>) (remap_page cur new_abs) r"
  shows "\<exists>sub \<in> set download_subdirs. inside (True, s @ [sub]) (page_place r) \<Longrightarrow> page_place r' = tgt s d (page_place r)"
    "\<forall>sub \<in> set download_subdirs. \<not> inside (True, s @ [sub]) (page_place r) \<Longrightarrow> page_place r' = page_place r"
proof -
  let ?p = "string_of (p_local_path r)"
  have ne: "nonempty_path (p_local_path r)"
    using assms(6) empty_path [of "p_local_path r"] by (cases "nonempty_path (p_local_path r)") (simp_all add: page_place_def)
  show "page_place r' = tgt s d (page_place r)" if i: "\<exists>sub \<in> set download_subdirs. inside (True, s @ [sub]) (page_place r)"
  proof (cases "parse_zip_page_path ?p")
    case None
    then have l: "page_place r = location ?p" by (simp add: page_place_def)
    obtain np where "remap cur new_abs ?p = Some np" "location np = tgt s d (location ?p)" "rooted np"
      using moved_places(1) [OF assms(1-4), of ?p] assms(5,6) i unfolding l location_fst by blast
    then show ?thesis using None ne l rooted_not_empty [of np] by (simp add: r'_def moved_def remap_page_def page_place_def string_of_def)
  next
    case (Some ae)
    obtain a e where ae: "ae = (a, e)" by (cases ae)
    have l: "page_place r = location a" using Some ae by (simp add: page_place_def)
    obtain np where np: "remap cur new_abs a = Some np" "location np = tgt s d (location a)"
      using moved_places(1) [OF assms(1-4), of a] assms(5,6) i unfolding l location_fst by blast
    have "CHR ''!'' \<notin> set e" using Some ae parse_zip_page_path_Some [of ?p a e] by simp
    then have "parse_zip_page_path (zip_page_path np e) = Some (np, e)" by (simp add: parse_zip_page_path_Some)
    then show ?thesis using Some ae ne l np by (simp add: r'_def moved_def remap_page_def page_place_def string_of_def)
  qed
  show "page_place r' = page_place r" if i: "\<forall>sub \<in> set download_subdirs. \<not> inside (True, s @ [sub]) (page_place r)"
  proof (cases "parse_zip_page_path ?p")
    case None
    then have l: "page_place r = location ?p" by (simp add: page_place_def)
    have "remap cur new_abs ?p = None" using moved_places(2) [OF assms(1-4), of ?p] assms(5,6) i unfolding l location_fst by blast
    then show ?thesis using None by (simp add: r'_def moved_def remap_page_def)
  next
    case (Some ae)
    obtain a e where ae: "ae = (a, e)" by (cases ae)
    have l: "page_place r = location a" using Some ae by (simp add: page_place_def)
    have "remap cur new_abs a = None" using moved_places(2) [OF assms(1-4), of a] assms(5,6) i unfolding l location_fst by blast
    then show ?thesis using Some ae by (simp add: r'_def moved_def remap_page_def)
  qed
qed

lemma moved_plain_place:
  fixes path_of_row :: "'r \<Rightarrow> string option"
  assumes "location cur = (True, s)" "cur \<noteq> []" "location new_abs = (True, d)" "new_abs \<noteq> []"
    "list_all name_ok (snd (location (string_of (path_of_row r))))" "fst (location (string_of (path_of_row r)))"
    "\<And>p x. path_of_row (upd p x) = Some p"
  defines "place \<equiv> \<lambda>x. location (string_of (path_of_row x))"
  shows "\<exists>sub \<in> set download_subdirs. inside (True, s @ [sub]) (place r) \<Longrightarrow> place (moved path_of_row upd (remap cur new_abs) r) = tgt s d (place r)"
    "\<forall>sub \<in> set download_subdirs. \<not> inside (True, s @ [sub]) (place r) \<Longrightarrow> place (moved path_of_row upd (remap cur new_abs) r) = place r"
proof -
  let ?p = "string_of (path_of_row r)"
  have rooted: "rooted ?p" using assms(6) location_fst by simp
  then have ne: "nonempty_path (path_of_row r)"
    using empty_path [of "path_of_row r"] location_fst [of ?p] by auto
  note m = moved_places [OF assms(1-4) assms(5) rooted]
  show "place (moved path_of_row upd (remap cur new_abs) r) = tgt s d (place r)" if "\<exists>sub \<in> set download_subdirs. inside (True, s @ [sub]) (place r)"
    using m(1) that ne assms(7) by (auto simp: place_def moved_def string_of_def)
  show "place (moved path_of_row upd (remap cur new_abs) r) = place r" if "\<forall>sub \<in> set download_subdirs. \<not> inside (True, s @ [sub]) (place r)"
    using m(2) that by (auto simp: place_def moved_def)
qed

lemma whole_move:
  fixes w :: "'z dl_world_scheme"
  assumes "tree_ok (w_fs w)" "location (dl_downloads_dir w) = (True, s)" "location (requested_dir new_path w) = (True, d)"
    "apart (True, s) (True, d)" "fault_free w" "\<forall>k. strictly_inside (True, d) k \<longrightarrow> fs_get (w_fs w) k = None"
    "\<forall>k. inside k (True, d) \<longrightarrow> \<not> is_file (w_fs w) k" "\<forall>sub \<in> set download_subdirs. \<not> is_file (w_fs w) (True, s @ [sub])"
    "distinct (map (\<lambda>p. (p_chapter p, p_number p)) (manga_pages (w_db w)))" "distinct (map n_chapter (novel_contents (w_db w)))"
    "distinct (map as_chapter (streams (w_db w)))"
  shows "\<exists>res w'. relocate_downloads ds new_path True w = (Inr res, w') \<and> rr_path res = requested_dir new_path w \<and>
        files_moved s d (w_fs w) (w_fs w') \<and>
        rows_follow d page_place (w_fs w) (w_fs w') (manga_pages (w_db w)) (manga_pages (w_db w')) \<and>
        rows_follow d (\<lambda>r. location (string_of (n_local_path r))) (w_fs w) (w_fs w') (novel_contents (w_db w)) (novel_contents (w_db w')) \<and>
        rows_follow d (\<lambda>r. location (string_of (as_local_path r))) (w_fs w) (w_fs w') (streams (w_db w)) (streams (w_db w'))"
proof -
  let ?cur = "path_clean (dl_downloads_dir w)" and ?new = "requested_dir new_path w" and ?fs = "w_fs w"
  let ?t = "if trim_space new_path = [] then dl_media_dir w else trim_space new_path"
  have cur: "location ?cur = (True, s)" "?cur \<noteq> []" using assms(2) path_clean_not_Nil by simp_all
  have new: "?new \<noteq> []" using assms(3) by (auto simp: location_def rooted_def)
  have ne: "?new \<noteq> ?cur" using assms(3,4) cur(1) by (auto simp: apart_def)
  have names: "list_all name_ok s" "list_all name_ok d"
    using rooted_names [of ?cur] rooted_names [of ?new] cur(1) assms(3) location_fst by (metis fst_conv snd_conv)+
  obtain fs1 where prep: "prepare_dir ''downloads'' ?cur ?new w = (Inr (), w\<lparr>w_fs := fs1\<rparr>)"
    and none1: "\<forall>k. strictly_inside (True, d) k \<longrightarrow> fs_get fs1 k = None" and dirs1: "\<forall>k. inside k (True, d) \<longrightarrow> is_dir fs1 k"
    using prepare_dir_free [OF cur(1) assms(3) new assms(4) names assms(5)] assms(6,7) by blast
  have calm1: "calm (True, s) (True, d) ?fs fs1"
    using keepsD [OF keeps_calm_prepare [OF assms(3) new assms(4)] _ prep, of ?fs] by simp
  have free1: "free_place (True, d @ [sub]) DirNode fs1" for sub using free_place_child [of True d fs1] none1 dirs1 by blast
  let ?w1 = "w\<lparr>w_fs := fs1\<rparr>"
  have v: "fault_free ?w1" "w_fs ?w1 = fs1" "list_all name_ok download_subdirs" "distinct download_subdirs"
    using assms(5) by (simp_all add: download_subdirs_def name_ok_def)
  obtain c fs2 where copy: "fold_act (copy_sub ds ?cur ?new) (0, 0) download_subdirs ?w1 = (Inr c, ?w1\<lparr>w_fs := fs2\<rparr>)"
    and calm2: "calm (True, s) (True, d) ?fs fs2" and copied: "\<forall>sub \<in> set download_subdirs. copied_below s d sub ?fs fs2"
    using copy_subs_free [OF cur assms(3) new assms(4,1) v(3,4,1), unfolded v(2), OF calm1 free1, of ds "(0, 0)"] by blast
  let ?w2 = "w\<lparr>w_fs := fs2\<rparr>"
  obtain db' where rewrite: "rewrite_paths ?cur ?new ?w2 = (Inr (), ?w2\<lparr>w_db := db'\<rparr>)"
    and pages: "manga_pages db' = map (moved p_local_path (\<lambda>path p. p\<lparr>p_local_path := Some path\<rparr>) (remap_page ?cur ?new)) (manga_pages (w_db w))"
    and novels: "novel_contents db' = map (moved n_local_path (\<lambda>path n. n\<lparr>n_local_path := Some path\<rparr>) (remap ?cur ?new)) (novel_contents (w_db w))"
    and rows: "streams db' = map (moved as_local_path (\<lambda>path x. x\<lparr>as_local_path := Some path\<rparr>) (remap ?cur ?new)) (streams (w_db w))"
    using rewrite_paths_free [of ?w2 ?cur ?new] assms(5,9-11) by simp
  let ?w3 = "?w2\<lparr>w_db := db'\<rparr>"
  obtain fs3 where remove: "for_each (\<lambda>sub. ignore (fs_call (os_remove_all (path_join [?cur, sub])))) download_subdirs ?w3 = (Inr (), ?w3\<lparr>w_fs := fs3\<rparr>)"
    and gone: "\<forall>k. fs_get fs3 k = (if \<exists>sub \<in> set download_subdirs. inside (True, s @ [sub]) k then None else fs_get (w_fs ?w3) k)"
    using remove_subs_free [OF cur, of ?w3 download_subdirs] assms(5) by auto
  have run: "relocate_downloads ds new_path True w = (Inr \<lparr>rr_files = fst c, rr_bytes = snd c, rr_path = ?new\<rparr>, ?w3\<lparr>w_fs := fs3\<rparr>)"
    using abs_path_free [OF assms(5), of "dl_cwd w" ?t] prep copy rewrite remove ne
    by (simp add: relocate_downloads_def Let_def seq_def gets_def wrap_def ret_def flip: requested_dir_def)
  have fm: "files_moved s d ?fs fs3"
    unfolding files_moved_def
  proof (intro allI impI)
    fix k data assume k: "fs_get ?fs k = Some (FileNode data)"
    show "if \<exists>sub \<in> set download_subdirs. inside (True, s @ [sub]) k
      then fs_get fs3 (tgt s d k) = Some (FileNode data) \<and> fs_get fs3 k = None
      else \<not> inside (True, d) k \<longrightarrow> fs_get fs3 k = Some (FileNode data)"
    proof (cases "\<exists>sub \<in> set download_subdirs. inside (True, s @ [sub]) k")
      case True
      then obtain sub where sub: "sub \<in> set download_subdirs" "inside (True, s @ [sub]) k" by blast
      have "k \<noteq> (True, s @ [sub])" using assms(8) sub(1) k by (auto simp: is_file_def)
      then have "strictly_inside (True, s @ [sub]) k" using sub(2) by (auto simp: strictly_inside_def inside_def strict_prefix_def prod_eq_iff)
      then have "fs_get fs2 (tgt s d k) = Some (FileNode data)" using copied sub(1) copied_belowD k by blast
      moreover have "\<not> inside (True, s @ [sub']) (tgt s d k)" for sub'
        using apart_below [OF assms(4), of "tgt s d k"] inside_appendD [of True s "[sub']" "tgt s d k"] by (auto simp: tgt_def inside_def)
      ultimately show ?thesis using True gone [rule_format, of k] gone [rule_format, of "tgt s d k"] by simp
    next
      case False
      have "fs_get fs2 k = Some (FileNode data)" if "\<not> inside (True, d) k" using calm2 that k unfolding calm_def by blast
      then show ?thesis using False gone [rule_format, of k] by auto
    qed
  qed
  have "rows_follow d page_place ?fs fs3 (manga_pages (w_db w)) (manga_pages db')" unfolding pages
    by (rule rows_follow_moved [OF assms(1) fm]) (erule (2) moved_page_place [OF cur assms(3) new])+
  moreover have "rows_follow d (\<lambda>r. location (string_of (n_local_path r))) ?fs fs3 (novel_contents (w_db w)) (novel_contents db')" unfolding novels
    by (rule rows_follow_moved [OF assms(1) fm]) (erule (1) moved_plain_place [OF cur assms(3) new]; simp)+
  moreover have "rows_follow d (\<lambda>r. location (string_of (as_local_path r))) ?fs fs3 (streams (w_db w)) (streams db')" unfolding rows
    by (rule rows_follow_moved [OF assms(1) fm]) (erule (1) moved_plain_place [OF cur assms(3) new]; simp)+
  ultimately show ?thesis using run fm by auto
qed

text \<open>
  C6: Moving the downloads to a directory apart from the old one. Whatever call fails, an error leaves
  the old directory as it was and changes no file outside the new directory; what stood in the new
  directory may have been overwritten by then. When no call fails and the new directory is empty or
  missing, with no regular file in its way or in place of one of the three trees, the move succeeds:
  each file of the manga, anime and novels trees has its bytes at the same place below the new directory
  and is gone from the old one, no other file changes, and every page, text and episode row that named a
  file names that file's new place.
\<close>

theorem move_keeps_downloads:
  fixes w :: "'z dl_world_scheme"
  assumes "tree_ok (w_fs w)" "location (dl_downloads_dir w) = (True, s)" "location (requested_dir new_path w) = (True, d)"
    "apart (True, s) (True, d)"
  shows "(\<forall>e w'. relocate_downloads ds new_path True w = (Inl e, w') \<longrightarrow> calm (True, s) (True, d) (w_fs w) (w_fs w')) \<and>
    (fault_free w \<longrightarrow> (\<forall>k. strictly_inside (True, d) k \<longrightarrow> fs_get (w_fs w) k = None) \<longrightarrow>
     (\<forall>k. inside k (True, d) \<longrightarrow> \<not> is_file (w_fs w) k) \<longrightarrow> (\<forall>sub \<in> set download_subdirs. \<not> is_file (w_fs w) (True, s @ [sub])) \<longrightarrow>
     distinct (map (\<lambda>p. (p_chapter p, p_number p)) (manga_pages (w_db w))) \<longrightarrow> distinct (map n_chapter (novel_contents (w_db w))) \<longrightarrow>
     distinct (map as_chapter (streams (w_db w))) \<longrightarrow>
     (\<exists>res w'. relocate_downloads ds new_path True w = (Inr res, w') \<and> rr_path res = requested_dir new_path w \<and>
        files_moved s d (w_fs w) (w_fs w') \<and>
        rows_follow d page_place (w_fs w) (w_fs w') (manga_pages (w_db w)) (manga_pages (w_db w')) \<and>
        rows_follow d (\<lambda>r. location (string_of (n_local_path r))) (w_fs w) (w_fs w') (novel_contents (w_db w)) (novel_contents (w_db w')) \<and>
        rows_follow d (\<lambda>r. location (string_of (as_local_path r))) (w_fs w) (w_fs w') (streams (w_db w)) (streams (w_db w'))))"
proof (intro conjI allI impI)
  fix e w' assume "relocate_downloads ds new_path True w = (Inl e, w')"
  then show "calm (True, s) (True, d) (w_fs w) (w_fs w')" by (rule failed_move [OF assms])
next
  assume ff: "fault_free w" and empty: "\<forall>k. strictly_inside (True, d) k \<longrightarrow> fs_get (w_fs w) k = None"
    and way: "\<forall>k. inside k (True, d) \<longrightarrow> \<not> is_file (w_fs w) k" and subs: "\<forall>sub \<in> set download_subdirs. \<not> is_file (w_fs w) (True, s @ [sub])"
    and keys: "distinct (map (\<lambda>p. (p_chapter p, p_number p)) (manga_pages (w_db w)))" "distinct (map n_chapter (novel_contents (w_db w)))"
      "distinct (map as_chapter (streams (w_db w)))"
  show "\<exists>res w'. relocate_downloads ds new_path True w = (Inr res, w') \<and> rr_path res = requested_dir new_path w \<and>
        files_moved s d (w_fs w) (w_fs w') \<and>
        rows_follow d page_place (w_fs w) (w_fs w') (manga_pages (w_db w)) (manga_pages (w_db w')) \<and>
        rows_follow d (\<lambda>r. location (string_of (n_local_path r))) (w_fs w) (w_fs w') (novel_contents (w_db w)) (novel_contents (w_db w')) \<and>
        rows_follow d (\<lambda>r. location (string_of (as_local_path r))) (w_fs w) (w_fs w') (streams (w_db w)) (streams (w_db w'))"
    using whole_move [OF assms ff empty way subs keys] .
qed

section \<open>A concrete move\<close>

definition at_place :: "string \<Rightarrow> node \<Rightarrow> location \<times> node" where
  "at_place p n = (location p, n)"

definition demo_move_fs :: fs where
  "demo_move_fs = [at_place ''/old'' DirNode, at_place ''/old/manga'' DirNode, at_place ''/old/manga/T'' DirNode,
     at_place ''/old/manga/T/c'' (FileNode (Bytes ''page'')), at_place ''/old/keep'' (FileNode (Bytes ''other''))]"

definition demo_move_world :: dl_world where
  "demo_move_world = \<lparr>w_db = empty_db\<lparr>manga_pages := [\<lparr>p_chapter = 1, p_number = 1, p_local_path = Some ''/old/manga/T/c''\<rparr>]\<rparr>,
     w_now = 0, w_faults = [], w_fs = demo_move_fs, dl_media_dir = ''/old'', dl_downloads_dir = ''/old'', dl_image_format = ''loose'',
     dl_paused = False, dl_woken = False, dl_running = [], dl_cancelled = [], dl_next_ctx = 0, dl_cwd = ''/''\<rparr>"

lemma demo_move_facts:
  "tree_ok demo_move_fs" "location (dl_downloads_dir demo_move_world) = (True, [''old''])"
  "location (requested_dir ''/new'' demo_move_world) = (True, [''new''])"
  by code_simp+

lemma move_keeps_downloads_witness:
  "\<exists>res w'. relocate_downloads 0 ''/new'' True demo_move_world = (Inr res, w') \<and>
     fs_get (w_fs w') (location ''/new/manga/T/c'') = Some (FileNode (Bytes ''page'')) \<and>
     fs_get (w_fs w') (location ''/old/manga/T/c'') = None \<and> fs_get (w_fs w') (location ''/old/keep'') = Some (FileNode (Bytes ''other''))"
proof -
  have ap: "apart (True, [''old'']) (True, [''new''])" by (simp add: apart_def inside_def)
  have w: "w_fs demo_move_world = demo_move_fs" "fault_free demo_move_world" by (simp_all add: demo_move_world_def)
  have fs: "demo_move_fs = [((True, [''old'']), DirNode), ((True, [''old'', ''manga'']), DirNode), ((True, [''old'', ''manga'', ''T'']), DirNode),
     ((True, [''old'', ''manga'', ''T'', ''c'']), FileNode (Bytes ''page'')), ((True, [''old'', ''keep'']), FileNode (Bytes ''other''))]"
    by code_simp
  have locs: "location ''/new/manga/T/c'' = (True, [''new'', ''manga'', ''T'', ''c''])" "location ''/old/manga/T/c'' = (True, [''old'', ''manga'', ''T'', ''c''])"
    "location ''/old/keep'' = (True, [''old'', ''keep''])" by code_simp+
  have empty: "\<forall>k. strictly_inside (True, [''new'']) k \<longrightarrow> fs_get (w_fs demo_move_world) k = None"
    "\<forall>k. inside k (True, [''new'']) \<longrightarrow> \<not> is_file (w_fs demo_move_world) k"
    "\<forall>sub \<in> set download_subdirs. \<not> is_file (w_fs demo_move_world) (True, [''old''] @ [sub])"
    by (auto simp: w fs fs_get_def strictly_inside_def inside_def strict_prefix_def is_file_def download_subdirs_def)
  have keys: "distinct (map (\<lambda>p. (p_chapter p, p_number p)) (manga_pages (w_db demo_move_world)))"
    "distinct (map n_chapter (novel_contents (w_db demo_move_world)))" "distinct (map as_chapter (streams (w_db demo_move_world)))"
    by (simp_all add: demo_move_world_def empty_db_def)
  note move = move_keeps_downloads [of demo_move_world "[''old'']" "''/new''" "[''new'']" 0, unfolded w(1), OF demo_move_facts ap, unfolded w(1) [symmetric]]
  obtain res w' where run: "relocate_downloads 0 ''/new'' True demo_move_world = (Inr res, w')" and fm: "files_moved [''old''] [''new''] demo_move_fs (w_fs w')"
    using conjunct2 [OF move, THEN mp, OF w(2), THEN mp, OF empty(1), THEN mp, OF empty(2), THEN mp, OF empty(3),
      THEN mp, OF keys(1), THEN mp, OF keys(2), THEN mp, OF keys(3)] w(1) by auto
  have "fs_get demo_move_fs (True, [''old'', ''manga'', ''T'', ''c'']) = Some (FileNode (Bytes ''page''))"
    "fs_get demo_move_fs (True, [''old'', ''keep'']) = Some (FileNode (Bytes ''other''))" by (simp_all add: fs fs_get_def)
  from fm [unfolded files_moved_def, rule_format, OF this(1)] fm [unfolded files_moved_def, rule_format, OF this(2)]
  show ?thesis using run by (auto simp: locs download_subdirs_def inside_def tgt_def)
qed

text \<open>
  A directory that cannot be looked at for a moment is taken for one that is not there: its files are not
  copied, and they are deleted all the same. Here the second call on the files after the new directory is
  prepared, the look at \<open>manga\<close>, fails once.
\<close>

theorem unseen_directory_is_deleted:
  "let w = demo_move_world\<lparr>w_faults := [None, None, None, Some (ErrExternal ''input/output error'')]\<rparr>;
       (r, w') = relocate_downloads 0 ''/new'' True w in
   (case r of Inl _ \<Rightarrow> False | Inr _ \<Rightarrow> True) \<and> fs_get (w_fs w') (location ''/old/manga/T/c'') = None \<and> fs_get (w_fs w') (location ''/new/manga/T/c'') = None \<and>
   map p_local_path (manga_pages (w_db w')) = [Some ''/new/manga/T/c'']"
  by code_simp

text \<open>
  A file of the same size at the new place is taken for the copy: the old bytes are deleted although they
  were not copied.
\<close>

theorem same_size_is_taken_for_copied:
  "let w = demo_move_world\<lparr>w_fs := at_place ''/new'' DirNode # at_place ''/new/manga'' DirNode # at_place ''/new/manga/T'' DirNode #
         at_place ''/new/manga/T/c'' (FileNode (Bytes ''junk'')) # demo_move_fs\<rparr>;
       (r, w') = relocate_downloads 0 ''/new'' True w in
   (case r of Inl _ \<Rightarrow> False | Inr _ \<Rightarrow> True) \<and> fs_get (w_fs w') (location ''/old/manga/T/c'') = None \<and>
   fs_get (w_fs w') (location ''/new/manga/T/c'') = Some (FileNode (Bytes ''junk''))"
  by code_simp

end
