(* ===== verification/FormatMigration.thy ===== *)
theory FormatMigration
  imports Relocation
begin

text \<open>
  Repacking chapters between loose images and archives (\<open>internal/download/format_migrate.go\<close>). The order
  in which Go walks the map of chapters is a parameter, as is the encoding of an archive as bytes, which
  matters when a page is itself an archive.
\<close>

record migrate_result =
  mr_migrated :: int
  mr_pages :: int
  mr_failed :: int
  mr_already :: int

definition content_bytes :: "((string \<times> string) list \<Rightarrow> string) \<Rightarrow> content \<Rightarrow> string" where
  "content_bytes zip_bytes c = (case c of Bytes s \<Rightarrow> s | Archive es \<Rightarrow> zip_bytes es)"

definition page_path :: "manga_page \<Rightarrow> string" where
  "page_path p = string_of (p_local_path p)"

definition numbered :: "string \<Rightarrow> manga_page \<Rightarrow> string" where
  "numbered what p = what @ int_digits (p_number p)"

section \<open>Packing\<close>

fun pack_entries :: "((string \<times> string) list \<Rightarrow> string) \<Rightarrow> string \<Rightarrow> manga_page list
    \<Rightarrow> ('z dl_world_scheme, (string \<times> string) list) act" where
  "pack_entries zip_bytes tmp [] = ret []"
| "pack_entries zip_bytes tmp (p # ps) =
     seq (attempt (fs_call (os_read_file (page_path p)))) (\<lambda>r. case r of
       Inl e \<Rightarrow> seq (ignore (fs_call (os_remove tmp))) (\<lambda>_. fail (ErrWrap (numbered ''opening page '' p) e))
     | Inr data \<Rightarrow> seq (attempt (ext_call (Inr ()))) (\<lambda>r. case r of
         Inl e \<Rightarrow> seq (ignore (fs_call (os_remove tmp))) (\<lambda>_. fail (ErrWrap (numbered ''packing page '' p) e))
       | Inr _ \<Rightarrow> seq (pack_entries zip_bytes tmp ps) (\<lambda>es.
           ret ((path_base (page_path p), content_bytes zip_bytes data) # es))))"

definition record_packed :: "int \<Rightarrow> string \<Rightarrow> manga_page \<times> string \<Rightarrow> ('z dl_world_scheme, unit) act" where
  "record_packed chap archive_path = (\<lambda>(p, entry). wrap (numbered ''updating page '' p)
     (db_call (q_set_manga_page_path (Some (zip_page_path archive_path entry)) chap (p_number p))))"

definition pack_chapter_to_cbz :: "((string \<times> string) list \<Rightarrow> string) \<Rightarrow> int \<Rightarrow> manga_page list
    \<Rightarrow> ('z dl_world_scheme, unit) act" where
  "pack_chapter_to_cbz zip_bytes chap pages =
     (let dir = path_dir (page_path (hd pages)); archive_path = dir @ ''.cbz''; tmp_path = archive_path @ ''.part'' in
      seq (wrap ''creating archive'' (fs_call (os_write_file tmp_path (Bytes [])))) (\<lambda>_.
      seq (pack_entries zip_bytes tmp_path pages) (\<lambda>es.
      seq (close_archive tmp_path es) (\<lambda>_.
      seq (wrap ''finalizing archive'' (fs_call (os_rename tmp_path archive_path))) (\<lambda>_.
      seq (for_each (record_packed chap archive_path) (zip pages (map fst es))) (\<lambda>_.
      seq (for_each (\<lambda>p. ignore (fs_call (os_remove (page_path p)))) pages) (\<lambda>_.
      remove_empty_dirs dir)))))))"

section \<open>Unpacking\<close>

definition open_zip :: "string \<Rightarrow> ('z fs_world_scheme, (string \<times> string) list) act" where
  "open_zip path = seq (fs_call (os_read_file path)) (\<lambda>c. case c of
     Archive es \<Rightarrow> ret es
   | Bytes _ \<Rightarrow> fail (ErrExternal ''zip: not a valid zip file''))"

text \<open>Of entries with one name the map keeps the last.\<close>

definition unpack_page :: "int \<Rightarrow> string \<Rightarrow> (string \<times> string) list \<Rightarrow> manga_page \<Rightarrow> ('z fs_world_scheme, unit) act" where
  "unpack_page chap dir es p = (case parse_zip_page_path (page_path p) of
     None \<Rightarrow> ret ()
   | Some (_, entry_name) \<Rightarrow> (case map_of (rev es) entry_name of
       None \<Rightarrow> fail (ErrMsg (numbered ''page '' p @ '' missing from archive''))
     | Some data \<Rightarrow>
         seq (wrap (numbered ''reading page '' p) (ext_call (Inr ()))) (\<lambda>_.
         let local_path = path_join [dir, entry_name] in
         seq (wrap (numbered ''writing page '' p) (fs_call (os_write_file local_path (Bytes [])))) (\<lambda>_.
         seq (wrap (numbered ''writing page '' p) (fs_call (os_write_file local_path (Bytes data)))) (\<lambda>_.
         wrap (numbered ''updating page '' p) (db_call (q_set_manga_page_path (Some local_path) chap (p_number p))))))))"

definition unpack_chapter_from_cbz :: "int \<Rightarrow> manga_page list \<Rightarrow> ('z fs_world_scheme, unit) act" where
  "unpack_chapter_from_cbz chap pages = (case parse_zip_page_path (page_path (hd pages)) of
     None \<Rightarrow> fail (ErrMsg (''chapter '' @ int_digits chap @ '' page 1 is not archived''))
   | Some (archive_path, _) \<Rightarrow>
       let dir = take (length archive_path - length (path_ext archive_path)) archive_path in
       seq (wrap ''creating chapter dir'' (fs_call (os_mkdir_all dir))) (\<lambda>_.
       seq (wrap ''opening archive'' (open_zip archive_path)) (\<lambda>es.
       seq (for_each (unpack_page chap dir es) pages) (\<lambda>_.
       seq (wrap ''closing archive'' (ext_call (Inr ()))) (\<lambda>_.
       ignore (fs_call (os_remove archive_path)))))))"

section \<open>All chapters\<close>

definition pages_of_chapter :: "manga_page list \<Rightarrow> int \<Rightarrow> manga_page list" where
  "pages_of_chapter rows chap = sort_key p_number (filter (\<lambda>r. p_chapter r = chap) rows)"

definition migrate_chapter :: "((string \<times> string) list \<Rightarrow> string) \<Rightarrow> string \<Rightarrow> manga_page list \<Rightarrow> migrate_result \<Rightarrow> int
    \<Rightarrow> ('z dl_world_scheme, migrate_result) act" where
  "migrate_chapter zip_bytes target rows res chap =
     (let pages = pages_of_chapter rows chap in
      if pages = [] then ret res
      else if (target = ''cbz'') = (parse_zip_page_path (page_path (hd pages)) \<noteq> None)
      then ret (res\<lparr>mr_already := mr_already res + 1\<rparr>)
      else seq (attempt (if target = ''cbz'' then pack_chapter_to_cbz zip_bytes chap pages else unpack_chapter_from_cbz chap pages)) (\<lambda>r.
        case r of
          Inl _ \<Rightarrow> ret (res\<lparr>mr_failed := mr_failed res + 1\<rparr>)
        | Inr _ \<Rightarrow> ret (res\<lparr>mr_migrated := mr_migrated res + 1, mr_pages := mr_pages res + int (length pages)\<rparr>)))"

definition migrate_manga_format :: "((string \<times> string) list \<Rightarrow> string) \<Rightarrow> (int list \<Rightarrow> int list) \<Rightarrow> string
    \<Rightarrow> ('z dl_world_scheme, migrate_result) act" where
  "migrate_manga_format zip_bytes order target =
     (if target \<noteq> ''loose'' \<and> target \<noteq> ''cbz'' then fail (ErrMsg (''unknown manga download format '' @ quoted target))
      else seq (wrap ''listing manga pages'' (db_call q_list_all_manga_page_paths)) (\<lambda>rows.
        fold_act (migrate_chapter zip_bytes target rows) \<lparr>mr_migrated = 0, mr_pages = 0, mr_failed = 0, mr_already = 0\<rparr>
          (order (remdups (map p_chapter rows)))))"

section \<open>A page that leaves its chapter\<close>

text \<open>
  Entry names are joined to the chapter's directory unchecked, and the rows walked are those of the local
  source as well: unpacking a hand-added comic whose page has double dots in its name writes outside of
  the chapter's directory, and deletes the comic with everything in it that is not a page.
\<close>

definition demo_slip_fs :: fs where
  "demo_slip_fs = map (\<lambda>(p, n). (location p, n)) [(''/m'', DirNode), (''/m/local'', DirNode), (''/m/local/manga'', DirNode), (''/m/local/manga/T'', DirNode),
     (''/m/local/manga/T/a.cbz'', FileNode (Archive [(''../../../../evil'', ''x''), (''info.txt'', ''i'')]))]"

definition demo_slip_world :: dl_world where
  "demo_slip_world = \<lparr>w_db = empty_db\<lparr>manga_pages := [\<lparr>p_chapter = 1, p_number = 1, p_local_path = Some ''zip:///m/local/manga/T/a.cbz!../../../../evil''\<rparr>]\<rparr>,
     w_now = 0, w_faults = [], w_fs = demo_slip_fs, dl_media_dir = ''/m'', dl_downloads_dir = ''/m'', dl_image_format = ''loose'',
     dl_paused = False, dl_woken = False, dl_running = [], dl_cancelled = [], dl_next_ctx = 0, dl_cwd = ''/''\<rparr>"

theorem unpacking_leaves_chapter_dir:
  "let (r, w') = migrate_manga_format (\<lambda>_. []) id ''loose'' demo_slip_world in
   r = Inr \<lparr>mr_migrated = 1, mr_pages = 1, mr_failed = 0, mr_already = 0\<rparr> \<and>
   fs_get (w_fs w') (location ''/m/evil'') = Some (FileNode (Bytes ''x'')) \<and> fs_get (w_fs w') (location ''/m/local/manga/T/a.cbz'') = None"
  by code_simp

end
