(* ===== verification/Settings.thy ===== *)
theory Settings
  imports GoFs Sha1
begin

text \<open>
  The configuration (\<open>internal/config\<close>): the settings and how each is read and written as text
  (\<open>registry.go\<close>), loading the file (\<open>config.go\<close>), and the store that keeps the file, the table
  \<open>app_settings\<close> and the values in force together (\<open>store.go\<close>). The TOML decoder is a parameter; what it
  does on the documents the store writes is \<open>reads_toml\<close> in \<open>SettingsFile\<close>.
\<close>

section \<open>The values\<close>

record config =
  cfg_data_dir :: string
  cfg_http_addr :: string
  cfg_db_path :: string
  cfg_jar_cache_dir :: string
  cfg_media_dir :: string
  cfg_downloads_dir :: string
  cfg_local_source_dir :: string
  cfg_sandbox_jar_path :: string
  cfg_sandbox_addr :: string
  cfg_sandbox_port :: int
  cfg_sandbox_ext_dir :: string
  cfg_sandbox_storage_dir :: string
  cfg_sandbox_heap_mb :: int
  cfg_api_token :: string
  cfg_pprof_addr :: string
  cfg_novel_enabled :: bool
  cfg_metadata_backfill :: bool
  cfg_idle_timeout_min :: int
  cfg_tracker_poll_hours :: int
  cfg_backup_interval_hours :: int
  cfg_backup_retention_count :: int
  cfg_public_url :: string
  cfg_anilist_client_id :: string
  cfg_mal_client_id :: string
  cfg_mal_client_secret :: string
  cfg_cloudflare_solver_mode :: string
  cfg_cloudflare_solver_url :: string
  cfg_content_filter_level :: string
  cfg_manga_download_format :: string

definition default_config :: config where
  "default_config = \<lparr>cfg_data_dir = [],
     cfg_http_addr = '':6007'',
     cfg_db_path = ''tsunagu.db'',
     cfg_jar_cache_dir = ''jar-cache'',
     cfg_media_dir = ''media'',
     cfg_downloads_dir = [],
     cfg_local_source_dir = [],
     cfg_sandbox_jar_path = ''sandbox.jar'',
     cfg_sandbox_addr = ''localhost:50051'',
     cfg_sandbox_port = 50051,
     cfg_sandbox_ext_dir = ''sandbox/extensions'',
     cfg_sandbox_storage_dir = ''data/plugin-storage'',
     cfg_sandbox_heap_mb = 0,
     cfg_api_token = [],
     cfg_pprof_addr = [],
     cfg_novel_enabled = True,
     cfg_metadata_backfill = True,
     cfg_idle_timeout_min = 15,
     cfg_tracker_poll_hours = 6,
     cfg_backup_interval_hours = 24,
     cfg_backup_retention_count = 7,
     cfg_public_url = ''http://localhost:6007'',
     cfg_anilist_client_id = ''49724'',
     cfg_mal_client_id = ''611c821aee93c5e51411bfa86ca32597'',
     cfg_mal_client_secret = [],
     cfg_cloudflare_solver_mode = ''disabled'',
     cfg_cloudflare_solver_url = ''http://127.0.0.1:8191'',
     cfg_content_filter_level = ''moderate'',
     cfg_manga_download_format = ''loose''\<rparr>"

section \<open>The settings\<close>

datatype setting_kind = KindBootstrap | KindRuntime
datatype value_type = TypeBool | TypeInt | TypeString
datatype setting_scope = ScopeLive | ScopeSandboxRestart | ScopeFullRestart

fun scope_text :: "setting_scope \<Rightarrow> string" where
  "scope_text ScopeLive = ''LIVE''"
| "scope_text ScopeSandboxRestart = ''SANDBOX_RESTART''"
| "scope_text ScopeFullRestart = ''FULL_RESTART''"

record setting =
  st_key :: string
  st_kind :: setting_kind
  st_type :: value_type
  st_scope :: setting_scope
  st_editable :: bool
  st_desc :: string
  st_get :: "config \<Rightarrow> string"
  st_set :: "config \<Rightarrow> string \<Rightarrow> go_err + config"

definition str_setting :: "string \<Rightarrow> setting_kind \<Rightarrow> setting_scope \<Rightarrow> bool \<Rightarrow> string \<Rightarrow> (config \<Rightarrow> string) \<Rightarrow> (string \<Rightarrow> config \<Rightarrow> config) \<Rightarrow> setting" where
  "str_setting key kind scope editable desc get upd = \<lparr>st_key = key, st_kind = kind, st_type = TypeString, st_scope = scope,
     st_editable = editable, st_desc = desc, st_get = get, st_set = (\<lambda>c v. Inr (upd (trim_space v) c))\<rparr>"

definition bool_text :: "bool \<Rightarrow> string" where
  "bool_text b = (if b then ''true'' else ''false'')"

text \<open>\<open>strconv.ParseBool\<close>.\<close>

definition parse_bool :: "string \<Rightarrow> bool option" where
  "parse_bool s = (if s \<in> set [''1'', ''t'', ''T'', ''TRUE'', ''true'', ''True''] then Some True
     else if s \<in> set [''0'', ''f'', ''F'', ''FALSE'', ''false'', ''False''] then Some False else None)"

definition bool_setting :: "string \<Rightarrow> setting_kind \<Rightarrow> setting_scope \<Rightarrow> bool \<Rightarrow> string \<Rightarrow> (config \<Rightarrow> bool) \<Rightarrow> (bool \<Rightarrow> config \<Rightarrow> config) \<Rightarrow> setting" where
  "bool_setting key kind scope editable desc get upd = \<lparr>st_key = key, st_kind = kind, st_type = TypeBool, st_scope = scope,
     st_editable = editable, st_desc = desc, st_get = (\<lambda>c. bool_text (get c)),
     st_set = (\<lambda>c v. case parse_bool (trim_space v) of
        None \<Rightarrow> Inl (ErrMsg (''expected true/false, got '' @ quoted v))
      | Some b \<Rightarrow> Inr (upd b c))\<rparr>"

definition int_setting :: "int \<Rightarrow> string \<Rightarrow> setting_kind \<Rightarrow> setting_scope \<Rightarrow> bool \<Rightarrow> string \<Rightarrow> (config \<Rightarrow> int) \<Rightarrow> (int \<Rightarrow> config \<Rightarrow> config) \<Rightarrow> setting" where
  "int_setting least key kind scope editable desc get upd = \<lparr>st_key = key, st_kind = kind, st_type = TypeInt, st_scope = scope,
     st_editable = editable, st_desc = desc, st_get = (\<lambda>c. int_digits (get c)),
     st_set = (\<lambda>c v. case parse_int64 (trim_space v) of
        None \<Rightarrow> Inl (ErrMsg (''expected an integer, got '' @ quoted v))
      | Some n \<Rightarrow> if n < least then Inl (ErrMsg (''must be >= '' @ int_digits least)) else Inr (upd n c))\<rparr>"

definition enum_setting :: "string list \<Rightarrow> string \<Rightarrow> setting_kind \<Rightarrow> setting_scope \<Rightarrow> bool \<Rightarrow> string \<Rightarrow> (config \<Rightarrow> string) \<Rightarrow> (string \<Rightarrow> config \<Rightarrow> config) \<Rightarrow> setting" where
  "enum_setting allowed key kind scope editable desc get upd = \<lparr>st_key = key, st_kind = kind, st_type = TypeString, st_scope = scope,
     st_editable = editable, st_desc = desc, st_get = get,
     st_set = (\<lambda>c v. let v' = to_lower (trim_space v) in
        if v' \<in> set allowed then Inr (upd v' c)
        else Inl (ErrMsg (''expected one of '' @ join ''/'' allowed @ '', got '' @ quoted v')))\<rparr>"

definition s_data_dir :: setting where
  "s_data_dir = str_setting ''data_dir'' KindBootstrap ScopeFullRestart False ''Root directory for the DB, caches, extensions and downloads. Set via --data-dir.'' cfg_data_dir (\<lambda>v. cfg_data_dir_update (\<lambda>_. v))"

definition s_db_path :: setting where
  "s_db_path = str_setting ''db_path'' KindBootstrap ScopeFullRestart False ''SQLite database file.'' cfg_db_path (\<lambda>v. cfg_db_path_update (\<lambda>_. v))"

definition s_http_addr :: setting where
  "s_http_addr = str_setting ''http_addr'' KindBootstrap ScopeFullRestart False ''Address the HTTP API binds to.'' cfg_http_addr (\<lambda>v. cfg_http_addr_update (\<lambda>_. v))"

definition s_api_token :: setting where
  "s_api_token = str_setting ''api_token'' KindRuntime ScopeFullRestart False ''Require this bearer token on API requests when set.'' cfg_api_token (\<lambda>v. cfg_api_token_update (\<lambda>_. v))"

definition s_sandbox_jar_path :: setting where
  "s_sandbox_jar_path = str_setting ''sandbox_jar_path'' KindRuntime ScopeFullRestart False ''Path to sandbox.jar. A bundled launcher may override this at runtime.'' cfg_sandbox_jar_path (\<lambda>v. cfg_sandbox_jar_path_update (\<lambda>_. v))"

definition s_public_url :: setting where
  "s_public_url = str_setting ''public_url'' KindRuntime ScopeFullRestart True ''Externally reachable base URL (OAuth callbacks, image links).'' cfg_public_url (\<lambda>v. cfg_public_url_update (\<lambda>_. v))"

definition s_media_dir :: setting where
  "s_media_dir = str_setting ''media_dir'' KindRuntime ScopeFullRestart True ''Where covers, downloads and other media are stored. Move existing files yourself before changing.'' cfg_media_dir (\<lambda>v. cfg_media_dir_update (\<lambda>_. v))"

definition s_jar_cache_dir :: setting where
  "s_jar_cache_dir = str_setting ''jar_cache_dir'' KindRuntime ScopeFullRestart True ''Where downloaded extension jars are cached.'' cfg_jar_cache_dir (\<lambda>v. cfg_jar_cache_dir_update (\<lambda>_. v))"

definition s_downloads_dir :: setting where
  "s_downloads_dir = str_setting ''downloads_dir'' KindRuntime ScopeLive True ''Where downloaded chapters and episodes are stored. Empty = media_dir. Change via the app to migrate existing files.'' cfg_downloads_dir (\<lambda>v. cfg_downloads_dir_update (\<lambda>_. v))"

definition s_local_source_dir :: setting where
  "s_local_source_dir = str_setting ''local_source_dir'' KindRuntime ScopeLive True ''Where hand-added local manga/anime/novels are read from. Empty = media_dir/local. Change via the app to migrate existing files.'' cfg_local_source_dir (\<lambda>v. cfg_local_source_dir_update (\<lambda>_. v))"

definition s_novel_enabled :: setting where
  "s_novel_enabled = bool_setting ''novel_enabled'' KindRuntime ScopeSandboxRestart True ''Load light-novel extensions in the sandbox.'' cfg_novel_enabled (\<lambda>v. cfg_novel_enabled_update (\<lambda>_. v))"

definition s_metadata_backfill :: setting where
  "s_metadata_backfill = bool_setting ''metadata_backfill'' KindRuntime ScopeFullRestart True ''Auto-match library items against AniList on startup.'' cfg_metadata_backfill (\<lambda>v. cfg_metadata_backfill_update (\<lambda>_. v))"

definition s_idle_timeout_minutes :: setting where
  "s_idle_timeout_minutes = int_setting 0 ''idle_timeout_minutes'' KindRuntime ScopeFullRestart True ''Stop the sandbox after this many idle minutes (0 = never).'' cfg_idle_timeout_min (\<lambda>v. cfg_idle_timeout_min_update (\<lambda>_. v))"

definition s_tracker_poll_hours :: setting where
  "s_tracker_poll_hours = int_setting 0 ''tracker_poll_hours'' KindRuntime ScopeFullRestart True ''How often background tracker sync runs, in hours (0 = never).'' cfg_tracker_poll_hours (\<lambda>v. cfg_tracker_poll_hours_update (\<lambda>_. v))"

definition s_backup_interval_hours :: setting where
  "s_backup_interval_hours = int_setting 0 ''backup_interval_hours'' KindRuntime ScopeFullRestart True ''How often an automatic database backup is taken, in hours (0 = never).'' cfg_backup_interval_hours (\<lambda>v. cfg_backup_interval_hours_update (\<lambda>_. v))"

definition s_backup_retention_count :: setting where
  "s_backup_retention_count = int_setting 1 ''backup_retention_count'' KindRuntime ScopeFullRestart True ''How many automatic backups to keep before pruning the oldest.'' cfg_backup_retention_count (\<lambda>v. cfg_backup_retention_count_update (\<lambda>_. v))"

definition s_anilist_client_id :: setting where
  "s_anilist_client_id = str_setting ''anilist_client_id'' KindRuntime ScopeFullRestart True ''AniList OAuth client id.'' cfg_anilist_client_id (\<lambda>v. cfg_anilist_client_id_update (\<lambda>_. v))"

definition s_mal_client_id :: setting where
  "s_mal_client_id = str_setting ''mal_client_id'' KindRuntime ScopeFullRestart True ''MyAnimeList OAuth client id.'' cfg_mal_client_id (\<lambda>v. cfg_mal_client_id_update (\<lambda>_. v))"

definition s_mal_client_secret :: setting where
  "s_mal_client_secret = str_setting ''mal_client_secret'' KindRuntime ScopeFullRestart True ''MyAnimeList OAuth client secret (PKCE flow leaves this empty).'' cfg_mal_client_secret (\<lambda>v. cfg_mal_client_secret_update (\<lambda>_. v))"

definition s_sandbox_addr :: setting where
  "s_sandbox_addr = str_setting ''sandbox_addr'' KindRuntime ScopeFullRestart True ''Loopback address the extension sandbox listens on.'' cfg_sandbox_addr (\<lambda>v. cfg_sandbox_addr_update (\<lambda>_. v))"

definition s_sandbox_port :: setting where
  "s_sandbox_port = int_setting 1 ''sandbox_port'' KindRuntime ScopeFullRestart True ''Loopback port the extension sandbox listens on.'' cfg_sandbox_port (\<lambda>v. cfg_sandbox_port_update (\<lambda>_. v))"

definition s_sandbox_extensions_dir :: setting where
  "s_sandbox_extensions_dir = str_setting ''sandbox_extensions_dir'' KindRuntime ScopeFullRestart True ''Directory holding installed extension jars. Move existing files yourself before changing.'' cfg_sandbox_ext_dir (\<lambda>v. cfg_sandbox_ext_dir_update (\<lambda>_. v))"

definition s_sandbox_storage_dir :: setting where
  "s_sandbox_storage_dir = str_setting ''sandbox_storage_dir'' KindRuntime ScopeFullRestart True ''Per-extension key/value storage directory. Move existing files yourself before changing.'' cfg_sandbox_storage_dir (\<lambda>v. cfg_sandbox_storage_dir_update (\<lambda>_. v))"

definition s_sandbox_heap_mb :: setting where
  "s_sandbox_heap_mb = int_setting 0 ''sandbox_heap_mb'' KindRuntime ScopeSandboxRestart True ''JVM heap for the sandbox in MB (0 = JVM default).'' cfg_sandbox_heap_mb (\<lambda>v. cfg_sandbox_heap_mb_update (\<lambda>_. v))"

definition s_pprof_addr :: setting where
  "s_pprof_addr = str_setting ''pprof_addr'' KindRuntime ScopeFullRestart True ''Expose net/http/pprof on this address when set, e.g. localhost:6060.'' cfg_pprof_addr (\<lambda>v. cfg_pprof_addr_update (\<lambda>_. v))"

definition s_content_filter_level :: setting where
  "s_content_filter_level = enum_setting [''strict'', ''moderate'', ''unrestricted''] ''content_filter_level'' KindRuntime ScopeLive True ''Hide explicit content from lists: strict (all) / moderate (allows gore) / unrestricted.'' cfg_content_filter_level (\<lambda>v. cfg_content_filter_level_update (\<lambda>_. v))"

definition s_manga_download_format :: setting where
  "s_manga_download_format = enum_setting [''loose'', ''cbz''] ''manga_download_format'' KindRuntime ScopeLive True ''How newly downloaded manga chapters are stored on disk: loose (individual image files) / cbz (one .cbz archive per chapter).'' cfg_manga_download_format (\<lambda>v. cfg_manga_download_format_update (\<lambda>_. v))"

definition s_cloudflare_solver_mode :: setting where
  "s_cloudflare_solver_mode = enum_setting [''disabled'', ''external'', ''managed''] ''cloudflare_solver_mode'' KindRuntime ScopeLive True ''Cloudflare bypass: disabled / external / managed.'' cfg_cloudflare_solver_mode (\<lambda>v. cfg_cloudflare_solver_mode_update (\<lambda>_. v))"

definition s_cloudflare_solver_url :: setting where
  "s_cloudflare_solver_url = str_setting ''cloudflare_solver_url'' KindRuntime ScopeLive True ''FlareSolverr URL for external mode, e.g. http://127.0.0.1:8191.'' cfg_cloudflare_solver_url (\<lambda>v. cfg_cloudflare_solver_url_update (\<lambda>_. v))"

definition settings :: "setting list" where
  "settings = [s_data_dir, s_db_path, s_http_addr, s_api_token, s_sandbox_jar_path,
     s_public_url, s_media_dir, s_jar_cache_dir, s_downloads_dir, s_local_source_dir,
     s_novel_enabled, s_metadata_backfill, s_idle_timeout_minutes, s_tracker_poll_hours, s_backup_interval_hours,
     s_backup_retention_count, s_anilist_client_id, s_mal_client_id, s_mal_client_secret, s_sandbox_addr,
     s_sandbox_port, s_sandbox_extensions_dir, s_sandbox_storage_dir, s_sandbox_heap_mb, s_pprof_addr,
     s_content_filter_level, s_manga_download_format, s_cloudflare_solver_mode, s_cloudflare_solver_url]"

definition lookup_setting :: "string \<Rightarrow> setting option" where
  "lookup_setting key = find (\<lambda>st. st_key st = key) settings"

definition default_string :: "string \<Rightarrow> string" where
  "default_string key = (case lookup_setting key of Some st \<Rightarrow> st_get st default_config | None \<Rightarrow> [])"

section \<open>Loading the file\<close>

text \<open>A decoded value as \<open>toString\<close> prints it; \<open>TomlOther\<close> is what \<open>fmt\<close> prints for the other types.\<close>

datatype decoded_value = TomlString string | TomlBool bool | TomlInt int | TomlOther string

fun to_string :: "decoded_value \<Rightarrow> string" where
  "to_string (TomlString s) = s"
| "to_string (TomlBool b) = bool_text b"
| "to_string (TomlInt i) = int_digits i"
| "to_string (TomlOther s) = s"

type_synonym toml_decoder = "string \<Rightarrow> go_err + (string \<times> decoded_value) list"

fun read_settings :: "string \<Rightarrow> (string \<times> decoded_value) list \<Rightarrow> setting list \<Rightarrow> config \<times> string list \<Rightarrow> go_err + config \<times> string list" where
  "read_settings path kvs [] (c, active) = Inr (c, active)"
| "read_settings path kvs (st # sts) (c, active) =
     (case map_of kvs (st_key st) of
        None \<Rightarrow> read_settings path kvs sts (c, active)
      | Some v \<Rightarrow> (case st_set st c (to_string v) of
            Inl e \<Rightarrow> Inl (ErrWrap (st_key st @ '' in '' @ path) e)
          | Inr c' \<Rightarrow> read_settings path kvs sts (c', active @ [st_key st])))"

text \<open>What is not set in the file and still has its default lies in the data directory.\<close>

definition root_dir :: "string list \<Rightarrow> string \<Rightarrow> string \<Rightarrow> string \<Rightarrow> string \<Rightarrow> string \<Rightarrow> string" where
  "root_dir active data_dir key def name v = (if key \<notin> set active \<and> v = def then path_join [data_dir, name] else v)"

definition apply_data_dir :: "string list \<Rightarrow> config \<Rightarrow> config" where
  "apply_data_dir active c = (let root = root_dir active (cfg_data_dir c) in
     if cfg_data_dir c = [] then c
     else c\<lparr>cfg_db_path := root ''db_path'' ''tsunagu.db'' ''tsunagu.db'' (cfg_db_path c),
       cfg_jar_cache_dir := root ''jar_cache_dir'' ''jar-cache'' ''jar-cache'' (cfg_jar_cache_dir c),
       cfg_media_dir := root ''media_dir'' ''media'' ''media'' (cfg_media_dir c),
       cfg_sandbox_ext_dir := root ''sandbox_extensions_dir'' ''sandbox/extensions'' ''extensions'' (cfg_sandbox_ext_dir c),
       cfg_sandbox_storage_dir := root ''sandbox_storage_dir'' ''data/plugin-storage'' ''plugin-storage'' (cfg_sandbox_storage_dir c)\<rparr>)"

definition config_path :: "string \<Rightarrow> string \<Rightarrow> string" where
  "config_path path data_dir = (if path \<noteq> [] then path
     else if data_dir \<noteq> [] then path_join [data_dir, ''tsunagu.toml''] else ''tsunagu.toml'')"

definition load_config :: "((string \<times> string) list \<Rightarrow> string) \<Rightarrow> toml_decoder \<Rightarrow> string \<Rightarrow> string
    \<Rightarrow> ('z fs_world_scheme, config \<times> string \<times> string list) act" where
  "load_config zip_bytes toml opt_path opt_data_dir =
     (let c0 = (if opt_data_dir \<noteq> [] then default_config\<lparr>cfg_data_dir := opt_data_dir\<rparr> else default_config);
          path = config_path opt_path opt_data_dir in
      seq (attempt (fs_call (os_read_file path))) (\<lambda>r. case r of
        Inl e \<Rightarrow> if is_not_exist e then ret (apply_data_dir [] c0, path, []) else fail e
      | Inr raw \<Rightarrow> (case toml (case raw of Bytes s \<Rightarrow> s | Archive es \<Rightarrow> zip_bytes es) of
            Inl e \<Rightarrow> fail (ErrWrap (''parse '' @ path) e)
          | Inr kvs \<Rightarrow> (case read_settings path kvs settings (c0, []) of
                Inl e \<Rightarrow> fail e
              | Inr (c, active) \<Rightarrow> ret (apply_data_dir active c, path, active)))))"

section \<open>The store\<close>

record store_world = fs_world +
  sw_cfg :: config
  sw_path :: string
  sw_active :: "string list"

definition q_get_setting :: "string \<Rightarrow> string stmt" where
  "q_get_setting key = select_one (\<lambda>d. map_option se_value (find (\<lambda>r. se_key r = key) (app_settings d)))"

definition q_set_setting :: "string \<Rightarrow> string \<Rightarrow> unit stmt" where
  "q_set_setting key value = exec (\<lambda>now d. d\<lparr>app_settings := snd (upsert (\<lambda>r. se_key r = key)
     (\<lambda>r. r\<lparr>se_value := value, se_updated_at := now\<rparr>) \<lparr>se_key = key, se_value = value, se_updated_at = now\<rparr> (app_settings d))\<rparr>)"

text \<open>\<open>strconv.Quote\<close> of printable text: control characters are escaped, other bytes stay.\<close>

definition go_quote_char :: "char \<Rightarrow> string" where
  "go_quote_char c =
     (if c = CHR 0x22 \<or> c = CHR 0x5C then [CHR 0x5C, c]
      else if c = CHR 0x07 then [CHR 0x5C, CHR ''a'']
      else if c = CHR 0x08 then [CHR 0x5C, CHR ''b'']
      else if c = CHR 0x0C then [CHR 0x5C, CHR ''f'']
      else if c = CHR 0x0A then [CHR 0x5C, CHR ''n'']
      else if c = CHR 0x0D then [CHR 0x5C, CHR ''r'']
      else if c = CHR 0x09 then [CHR 0x5C, CHR ''t'']
      else if c = CHR 0x0B then [CHR 0x5C, CHR ''v'']
      else if ch c < 32 \<or> ch c = 127 then CHR 0x5C # CHR ''x'' # [hex_digit (ch c div 16), hex_digit (ch c mod 16)]
      else [c])"

definition go_quote :: "string \<Rightarrow> string" where
  "go_quote s = CHR 0x22 # concat (map go_quote_char s) @ [CHR 0x22]"

definition toml_value :: "setting \<Rightarrow> config \<Rightarrow> string" where
  "toml_value st c = (case st_type st of
     TypeString \<Rightarrow> go_quote (st_get st c)
   | _ \<Rightarrow> st_get st c)"

definition NL :: string where "NL = [CHR 0x0A]"

definition write_line :: "setting \<Rightarrow> config \<Rightarrow> bool \<Rightarrow> string" where
  "write_line st c active =
     ''# '' @ st_desc st @ (if st_scope st \<noteq> ScopeLive then ''  ['' @ scope_text (st_scope st) @ '']'' else []) @ NL @
     (if active then [] else ''# '') @ st_key st @ '' = '' @ toml_value st c @ NL @ NL"

definition active_line :: "string list \<Rightarrow> config \<Rightarrow> setting \<Rightarrow> bool" where
  "active_line active c st = (\<not> st_editable st \<or> st_key st \<in> set active \<or> st_get st c \<noteq> default_string (st_key st))"

definition config_document :: "string list \<Rightarrow> config \<Rightarrow> string" where
  "config_document active c =
     ''# Tsunagu configuration -- regenerated on every save.'' @ NL @
     ''# Active (uncommented) lines are authoritative: on boot they overwrite'' @ NL @
     ''# whatever the app last set. Commented lines show the default; the app'' @ NL @
     ''# controls those. Edit and restart to override.'' @ NL @ NL @
     ''# ---- not editable in the app: change here, then restart ----'' @ NL @ NL @
     concat (map (\<lambda>st. write_line st c (active_line active c st)) (filter (\<lambda>st. \<not> st_editable st) settings)) @
     NL @ ''# ---- editable here or in the app ----'' @ NL @ NL @
     concat (map (\<lambda>st. write_line st c (active_line active c st)) (filter st_editable settings))"

definition regenerate :: "('z store_world_scheme, unit) act" where
  "regenerate =
     seq (gets (\<lambda>w. (sw_path w, config_document (sw_active w) (sw_cfg w)))) (\<lambda>(path, doc).
     let tmp = path @ ''.tmp'' in
     seq (fs_call (os_mkdir_all (path_dir path))) (\<lambda>_.
     seq (fs_call (os_write_file tmp (Bytes doc))) (\<lambda>_.
     fs_call (os_rename tmp path))))"

datatype setting_source = SourceFile | SourceDB | SourceDefault

record effective_setting =
  ef_key :: string
  ef_value :: string
  ef_default :: string
  ef_type :: value_type
  ef_kind :: setting_kind
  ef_scope :: setting_scope
  ef_source :: setting_source
  ef_editable :: bool
  ef_description :: string

definition restart_required :: "effective_setting \<Rightarrow> bool" where
  "restart_required e \<longleftrightarrow> ef_scope e \<noteq> ScopeLive"

definition effective :: "setting \<Rightarrow> ('z store_world_scheme, effective_setting) act" where
  "effective st =
     seq (gets (\<lambda>w. (sw_cfg w, sw_active w))) (\<lambda>(c, active).
     seq (if st_key st \<in> set active then ret SourceFile
          else if st_kind st = KindRuntime
          then seq (attempt (db_call (q_get_setting (st_key st)))) (\<lambda>r.
            ret (case r of Inr v \<Rightarrow> if v \<noteq> [] then SourceDB else SourceDefault | Inl _ \<Rightarrow> SourceDefault))
          else ret SourceDefault) (\<lambda>src.
     ret \<lparr>ef_key = st_key st, ef_value = st_get st c, ef_default = default_string (st_key st), ef_type = st_type st,
       ef_kind = st_kind st, ef_scope = st_scope st, ef_source = src, ef_editable = st_editable st, ef_description = st_desc st\<rparr>))"

definition set_cfg :: "config \<Rightarrow> ('z store_world_scheme, unit) act" where
  "set_cfg c = modify (\<lambda>w. w\<lparr>sw_cfg := c\<rparr>)"

text \<open>At start: the file's settings go to the table, the others come from it, and the file is written anew.\<close>

definition sync_setting :: "setting \<Rightarrow> ('z store_world_scheme, unit) act" where
  "sync_setting st =
     (if st_kind st \<noteq> KindRuntime then ret ()
      else seq (gets (\<lambda>w. (sw_cfg w, sw_active w))) (\<lambda>(c, active).
        if st_key st \<in> set active then db_call (q_set_setting (st_key st) (st_get st c))
        else seq (attempt (db_call (q_get_setting (st_key st)))) (\<lambda>r. case r of
            Inl _ \<Rightarrow> ret ()
          | Inr v \<Rightarrow> if v = [] then ret ()
              else (case st_set st c v of
                  Inl e \<Rightarrow> fail (ErrWrap (''stored setting '' @ st_key st @ ''='' @ quoted v @ '' is invalid'') e)
                | Inr c' \<Rightarrow> set_cfg c'))))"

definition sync_settings :: "('z store_world_scheme, unit) act" where
  "sync_settings = seq (for_each sync_setting settings) (\<lambda>_. regenerate)"

definition list_settings :: "('z store_world_scheme, effective_setting list) act" where
  "list_settings = map_act effective settings"

definition get_setting :: "string \<Rightarrow> ('z store_world_scheme, effective_setting) act" where
  "get_setting key = (case lookup_setting key of
     None \<Rightarrow> fail (ErrMsg (''unknown setting '' @ quoted key))
   | Some st \<Rightarrow> effective st)"

text \<open>A registered callback runs after the change (\<open>hooks\<close>).\<close>

definition run_hook :: "(string \<Rightarrow> ('z store_world_scheme \<Rightarrow> 'z store_world_scheme) option) \<Rightarrow> string \<Rightarrow> ('z store_world_scheme, unit) act" where
  "run_hook hooks key = (case hooks key of None \<Rightarrow> ret () | Some f \<Rightarrow> modify f)"

definition editable_setting :: "string \<Rightarrow> ('z store_world_scheme, setting) act" where
  "editable_setting key = (case lookup_setting key of
     None \<Rightarrow> fail (ErrMsg (''unknown setting '' @ quoted key))
   | Some st \<Rightarrow> seq (gets sw_path) (\<lambda>path. if \<not> st_editable st
       then fail (ErrMsg (quoted key @ '' can only be changed in '' @ path_base path @ '' (then restart)''))
       else ret st))"

definition set_setting :: "(string \<Rightarrow> ('z store_world_scheme \<Rightarrow> 'z store_world_scheme) option) \<Rightarrow> string \<Rightarrow> string
    \<Rightarrow> ('z store_world_scheme, effective_setting) act" where
  "set_setting hooks key value =
     seq (editable_setting key) (\<lambda>st.
     seq (gets sw_cfg) (\<lambda>c. case st_set st c value of
       Inl e \<Rightarrow> fail e
     | Inr c' \<Rightarrow> seq (set_cfg c') (\<lambda>_.
         seq (db_call (q_set_setting key (st_get st c'))) (\<lambda>_.
         seq (modify (\<lambda>w. w\<lparr>sw_active := List.insert key (sw_active w)\<rparr>)) (\<lambda>_.
         seq regenerate (\<lambda>_.
         seq (effective st) (\<lambda>eff.
         seq (run_hook hooks key) (\<lambda>_. ret eff))))))))"

definition unset_setting :: "(string \<Rightarrow> ('z store_world_scheme \<Rightarrow> 'z store_world_scheme) option) \<Rightarrow> string
    \<Rightarrow> ('z store_world_scheme, effective_setting) act" where
  "unset_setting hooks key =
     seq (editable_setting key) (\<lambda>st.
     seq (ignore (db_call (q_set_setting key []))) (\<lambda>_.
     seq (modify (\<lambda>w. w\<lparr>sw_active := filter (\<lambda>k. k \<noteq> key) (sw_active w)\<rparr>)) (\<lambda>_.
     seq (gets sw_cfg) (\<lambda>c.
     seq (case st_set st c (st_get st default_config) of Inl _ \<Rightarrow> ret () | Inr c' \<Rightarrow> set_cfg c') (\<lambda>_.
     seq regenerate (\<lambda>_.
     seq (effective st) (\<lambda>eff.
     seq (run_hook hooks key) (\<lambda>_. ret eff))))))))"

text \<open>The command line's \<open>reset\<close> unsets every setting that can be edited, whatever fails.\<close>

definition reset_settings :: "(string \<Rightarrow> ('z store_world_scheme \<Rightarrow> 'z store_world_scheme) option) \<Rightarrow> ('z store_world_scheme, unit) act" where
  "reset_settings hooks = seq list_settings (\<lambda>es.
     for_each (\<lambda>e. ignore (unset_setting hooks (ef_key e))) (filter ef_editable es))"

end
