(* ===== verification/SettingsFile.thy ===== *)
theory SettingsFile
  imports Settings
begin

text \<open>
  The configuration file read back. \<open>toml_doc\<close> decodes the documents of the fragment of TOML 1.0 the store
  writes: comments, blank lines, and a bare key with a basic string, a boolean or a decimal integer;
  \<open>reads_toml\<close> says of a decoder that it agrees with it there. The locale \<open>setting_table\<close> states what makes a
  list of settings a faithful view of the configuration, and its interpretation shows that the 29 settings
  are one: then what \<open>regenerateLocked\<close> writes, \<open>Load\<close> reads back.
\<close>

section \<open>The fragment of TOML\<close>

definition unescape :: "char \<Rightarrow> char option" where
  "unescape c = (if c = CHR 0x22 \<or> c = CHR 0x5C then Some c
     else if c = CHR ''b'' then Some (CHR 0x08) else if c = CHR ''t'' then Some (CHR 0x09)
     else if c = CHR ''n'' then Some (CHR 0x0A) else if c = CHR ''f'' then Some (CHR 0x0C)
     else if c = CHR ''r'' then Some (CHR 0x0D) else None)"

text \<open>A basic string after its opening quote, to the end of the line.\<close>

fun toml_chars :: "string \<Rightarrow> string option" where
  "toml_chars [] = None"
| "toml_chars [c] = (if c = CHR 0x22 then Some [] else None)"
| "toml_chars (c # d # s) =
     (if c = CHR 0x22 then None
      else if c = CHR 0x5C then (case unescape d of None \<Rightarrow> None | Some e \<Rightarrow> map_option ((#) e) (toml_chars s))
      else if 32 \<le> ch c \<and> ch c < 127 then map_option ((#) c) (toml_chars (d # s)) else None)"

definition toml_read :: "string \<Rightarrow> decoded_value option" where
  "toml_read s = (if s = ''true'' then Some (TomlBool True) else if s = ''false'' then Some (TomlBool False)
     else case s of [] \<Rightarrow> None
     | c # t \<Rightarrow> if c = CHR 0x22 then map_option TomlString (toml_chars t)
       else (case parse_int64 s of None \<Rightarrow> None | Some n \<Rightarrow> if int_digits n = s then Some (TomlInt n) else None))"

definition bare_key_char :: "char \<Rightarrow> bool" where
  "bare_key_char c \<longleftrightarrow> is_alnum c \<or> c = CHR ''_'' \<or> c = CHR ''-''"

definition comment_char :: "char \<Rightarrow> bool" where
  "comment_char c \<longleftrightarrow> 32 \<le> ch c \<and> ch c < 127 \<or> c = CHR 0x09"

definition toml_line :: "string \<Rightarrow> (string \<times> decoded_value) option option" where
  "toml_line l = (case l of [] \<Rightarrow> Some None
     | c # s \<Rightarrow> if c = CHR ''#'' then (if list_all comment_char s then Some None else None)
        else let k = takeWhile bare_key_char l in
          if k = [] then None
          else (case cut_prefix (drop (length k) l) '' = '' of None \<Rightarrow> None
            | Some v \<Rightarrow> map_option (\<lambda>x. Some (k, x)) (toml_read v)))"

definition add_pair :: "(string \<times> decoded_value) option \<Rightarrow> (string \<times> decoded_value) list \<Rightarrow> (string \<times> decoded_value) list option" where
  "add_pair r kvs = (case r of None \<Rightarrow> Some kvs
     | Some (k, v) \<Rightarrow> if k \<in> set (map fst kvs) then None else Some ((k, v) # kvs))"

fun toml_lines :: "string list \<Rightarrow> (string \<times> decoded_value) list option" where
  "toml_lines [] = Some []"
| "toml_lines (l # ls) = (case toml_line l of None \<Rightarrow> None
     | Some r \<Rightarrow> (case toml_lines ls of None \<Rightarrow> None | Some kvs \<Rightarrow> add_pair r kvs))"

definition toml_doc :: "string \<Rightarrow> (string \<times> decoded_value) list option" where
  "toml_doc doc = toml_lines (split_on (CHR 0x0A) doc)"

definition reads_toml :: "toml_decoder \<Rightarrow> bool" where
  "reads_toml toml \<longleftrightarrow> (\<forall>doc kvs. toml_doc doc = Some kvs \<longrightarrow> (\<exists>kvs'. toml doc = Inr kvs' \<and> map_of kvs' = map_of kvs))"

text \<open>Text that \<open>%q\<close> writes in a form TOML has: no control character but those with a short escape.\<close>

definition plain_char :: "char \<Rightarrow> bool" where
  "plain_char c \<longleftrightarrow> 32 \<le> ch c \<and> ch c < 127 \<or> c \<in> set [CHR 0x08, CHR 0x09, CHR 0x0A, CHR 0x0C, CHR 0x0D]"

definition plain_config :: "config \<Rightarrow> bool" where
  "plain_config c \<longleftrightarrow> list_all (\<lambda>st. list_all plain_char (st_get st c)) settings"

text \<open>Every setting accepts its own value, as it is.\<close>

definition accepted :: "config \<Rightarrow> bool" where
  "accepted c \<longleftrightarrow> list_all (\<lambda>st. st_set st c (st_get st c) = Inr c) settings"

section \<open>A table of settings\<close>

locale setting_table =
  fixes sts :: "setting list"
  assumes keys_differ: "distinct (map st_key sts)"
    and set_frame: "s \<in> set sts \<Longrightarrow> t \<in> set sts \<Longrightarrow> st_key s \<noteq> st_key t \<Longrightarrow> st_set s d v = Inr d' \<Longrightarrow> st_get t d' = st_get t d"
    and set_own: "s \<in> set sts \<Longrightarrow> st_set s d v = Inr d' \<Longrightarrow> st_set s d' (st_get s d') = Inr d'"
    and set_copy: "s \<in> set sts \<Longrightarrow> st_set s c (st_get s c) = Inr c \<Longrightarrow> \<exists>d'. st_set s d (st_get s c) = Inr d' \<and> st_get s d' = st_get s c"
    and get_all: "(\<And>s. s \<in> set sts \<Longrightarrow> st_get s c = st_get s d) \<Longrightarrow> c = d"
begin

lemma setting_inj: "s \<in> set sts \<Longrightarrow> t \<in> set sts \<Longrightarrow> st_key s = st_key t \<Longrightarrow> s = t"
  using keys_differ by (simp add: distinct_map inj_on_def)

text \<open>Setting one value keeps every other one acceptable.\<close>

lemma set_keeps_accepted:
  assumes s: "s \<in> set sts" and set: "st_set s c v = Inr c'"
    and ok: "\<And>t. t \<in> set sts \<Longrightarrow> st_set t c (st_get t c) = Inr c" and t: "t \<in> set sts"
  shows "st_set t c' (st_get t c') = Inr c'"
proof (cases "st_key s = st_key t")
  case True
  then have "t = s" using setting_inj s t by metis
  then show ?thesis using set_own [OF s set] by simp
next
  case False
  have get: "st_get t c' = st_get t c" by (rule set_frame [OF s t False set])
  obtain d where d: "st_set t c' (st_get t c) = Inr d" "st_get t d = st_get t c"
    using set_copy [OF t ok [OF t], of c'] by auto
  have "st_get u d = st_get u c'" if u: "u \<in> set sts" for u
  proof (cases "st_key t = st_key u")
    case True
    then have "u = t" using setting_inj t u by metis
    then show ?thesis using d(2) get by simp
  next
    case False
    then show ?thesis using set_frame [OF t u False d(1)] by simp
  qed
  then have "d = c'" by (rule get_all)
  then show ?thesis using d(1) get by simp
qed

text \<open>Reading a decoded file in which some settings stand with the value they have in \<open>c\<close>.\<close>

lemma read_copies:
  assumes ok: "\<And>s. s \<in> set sts \<Longrightarrow> st_set s c (st_get s c) = Inr c"
    and kvs: "\<And>s. s \<in> set sts \<Longrightarrow> map_option to_string (map_of kvs (st_key s)) = (if P s then Some (st_get s c) else None)"
    and sub: "set xs \<subseteq> set sts" "distinct (map st_key xs)"
  shows "\<exists>d'. read_settings path kvs xs (d, act) = Inr (d', act @ map st_key (filter P xs)) \<and>
     (\<forall>t \<in> set sts. st_get t d' = (if P t \<and> t \<in> set xs then st_get t c else st_get t d))"
  using sub
proof (induction xs arbitrary: d act)
  case (Cons s xs)
  then have s: "s \<in> set sts" and xs: "set xs \<subseteq> set sts" "distinct (map st_key xs)" and new: "st_key s \<notin> st_key ` set xs" by auto
  show ?case
  proof (cases "P s")
    case True
    then obtain v where v: "map_of kvs (st_key s) = Some v" "to_string v = st_get s c" using kvs [OF s] by auto
    obtain d1 where d1: "st_set s d (st_get s c) = Inr d1" "st_get s d1 = st_get s c"
      using set_copy [OF s ok [OF s], of d] by auto
    obtain d' where d': "read_settings path kvs xs (d1, act @ [st_key s]) = Inr (d', (act @ [st_key s]) @ map st_key (filter P xs))"
      "\<And>t. t \<in> set sts \<Longrightarrow> st_get t d' = (if P t \<and> t \<in> set xs then st_get t c else st_get t d1)"
      using Cons.IH [OF xs, of d1 "act @ [st_key s]"] by blast
    have "st_get t d' = (if P t \<and> t \<in> set (s # xs) then st_get t c else st_get t d)" if t: "t \<in> set sts" for t
    proof (cases "t = s")
      case True
      then show ?thesis using d'(2) [OF t] d1(2) \<open>P s\<close> by simp
    next
      case False
      then have "st_key s \<noteq> st_key t" using setting_inj s t by metis
      then show ?thesis using d'(2) [OF t] set_frame [OF s t _ d1(1)] False by simp
    qed
    then show ?thesis using d'(1) v d1(1) True by simp
  next
    case False
    then have "map_of kvs (st_key s) = None" using kvs [OF s] by simp
    moreover have "t \<noteq> s" if "P t" for t using that False by auto
    ultimately show ?thesis using Cons.IH [OF xs, of d act] False by auto
  qed
qed auto

lemma read_back:
  assumes ok: "\<And>s. s \<in> set sts \<Longrightarrow> st_set s c (st_get s c) = Inr c"
    and kvs: "\<And>s. s \<in> set sts \<Longrightarrow> map_option to_string (map_of kvs (st_key s)) = (if P s then Some (st_get s c) else None)"
    and rest: "\<And>s. s \<in> set sts \<Longrightarrow> \<not> P s \<Longrightarrow> st_get s d = st_get s c"
  shows "read_settings path kvs sts (d, []) = Inr (c, map st_key (filter P sts))"
proof -
  obtain d' where d': "read_settings path kvs sts (d, []) = Inr (d', [] @ map st_key (filter P sts))"
    "\<forall>t \<in> set sts. st_get t d' = (if P t \<and> t \<in> set sts then st_get t c else st_get t d)"
    using read_copies [OF ok kvs order_refl keys_differ, of path d "[]"] by blast
  have "d' = c" by (rule get_all) (use d'(2) rest in auto)
  then show ?thesis using d'(1) by simp
qed

end

section \<open>The program's settings\<close>

lemma parse_bool_text [simp]: "parse_bool (bool_text b) = Some b"
proof -
  have "parse_bool (bool_text True) = Some True" "parse_bool (bool_text False) = Some False" by code_simp+
  then show ?thesis by (cases b) simp_all
qed

lemma trim_bool_text [simp]: "trim_space (bool_text b) = bool_text b"
proof -
  have "trim_space (bool_text True) = bool_text True" "trim_space (bool_text False) = bool_text False" by code_simp+
  then show ?thesis by (cases b) simp_all
qed

lemma digit_not_space [simp]: "is_digit c \<Longrightarrow> \<not> is_space c"
  by (auto simp: is_digit_def is_space_def ch_def)

lemma trim_by_none: "(\<And>c. c \<in> set s \<Longrightarrow> \<not> P c) \<Longrightarrow> trim_by P s = s"
proof -
  assume no: "\<And>c. c \<in> set s \<Longrightarrow> \<not> P c"
  have d: "dropWhile P t = t" if "set t \<subseteq> set s" for t
    using that no hd_in_set [of t] by (auto simp: dropWhile_eq_self_iff subset_iff)
  show ?thesis using d [of s] d [of "rev s"] by (simp add: trim_by_def)
qed

lemma int_digits_chars: "c \<in> set (int_digits n) \<Longrightarrow> is_digit c \<or> c = CHR ''-''"
  by (auto simp: int_digits_def nat_digits_all_digits split: if_splits)

lemma trim_int_digits [simp]: "trim_space (int_digits n) = int_digits n"
proof -
  have "\<not> is_space c" if "c \<in> set (int_digits n)" for c
    using int_digits_chars [OF that] by (auto simp: is_space_def ch_def is_digit_def)
  then show ?thesis unfolding trim_space_def by (rule trim_by_none)
qed

lemma parse_int_digits: "parse_int64 (int_digits n) = Some m \<Longrightarrow> m = n"
proof (cases "n < 0")
  case True
  assume "parse_int64 (int_digits n) = Some m"
  with True show ?thesis by (auto simp: parse_int64_def int_digits_def Let_def split: if_splits)
next
  case False
  assume p: "parse_int64 (int_digits n) = Some m"
  obtain c cs where d: "nat_digits (nat n) = c # cs" by (cases "nat_digits (nat n)") auto
  then have "is_digit c" using nat_digits_all_digits [of c "nat n"] by simp
  then have c: "c \<noteq> CHR ''-''" "c \<noteq> CHR ''+''" by (auto simp: is_digit_def ch_def)
  have "digits_val (c # cs) = nat n" using digits_val_nat_digits [of "nat n"] d by simp
  then show ?thesis using False p d c by (simp add: parse_int64_def int_digits_def Let_def split: if_splits)
qed

lemmas settings_defs = s_data_dir_def s_db_path_def s_http_addr_def s_api_token_def s_sandbox_jar_path_def s_public_url_def s_media_dir_def s_jar_cache_dir_def s_downloads_dir_def s_local_source_dir_def s_novel_enabled_def s_metadata_backfill_def s_idle_timeout_minutes_def s_tracker_poll_hours_def s_backup_interval_hours_def s_backup_retention_count_def s_anilist_client_id_def s_mal_client_id_def s_mal_client_secret_def s_sandbox_addr_def s_sandbox_port_def s_sandbox_extensions_dir_def s_sandbox_storage_dir_def s_sandbox_heap_mb_def s_pprof_addr_def s_content_filter_level_def s_manga_download_format_def s_cloudflare_solver_mode_def s_cloudflare_solver_url_def

text \<open>Each kind of setting: what a successful write does, and what it accepts.\<close>

lemma str_setting_simps [simp]:
  "st_key (str_setting k kd sc e ds g u) = k" "st_kind (str_setting k kd sc e ds g u) = kd"
  "st_type (str_setting k kd sc e ds g u) = TypeString" "st_scope (str_setting k kd sc e ds g u) = sc"
  "st_editable (str_setting k kd sc e ds g u) = e" "st_desc (str_setting k kd sc e ds g u) = ds"
  "st_get (str_setting k kd sc e ds g u) = g"
  "st_set (str_setting k kd sc e ds g u) d v = Inr d' \<longleftrightarrow> d' = u (trim_space v) d"
  by (auto simp: str_setting_def)

lemma bool_setting_simps [simp]:
  "st_key (bool_setting k kd sc e ds gb ub) = k" "st_kind (bool_setting k kd sc e ds gb ub) = kd"
  "st_type (bool_setting k kd sc e ds gb ub) = TypeBool" "st_scope (bool_setting k kd sc e ds gb ub) = sc"
  "st_editable (bool_setting k kd sc e ds gb ub) = e" "st_desc (bool_setting k kd sc e ds gb ub) = ds"
  "st_get (bool_setting k kd sc e ds gb ub) d = bool_text (gb d)"
  "st_set (bool_setting k kd sc e ds gb ub) d v = Inr d' \<longleftrightarrow> (\<exists>b. parse_bool (trim_space v) = Some b \<and> d' = ub b d)"
  by (auto simp: bool_setting_def split: option.splits)

lemma int_setting_simps [simp]:
  "st_key (int_setting m k kd sc e ds gi ui) = k" "st_kind (int_setting m k kd sc e ds gi ui) = kd"
  "st_type (int_setting m k kd sc e ds gi ui) = TypeInt" "st_scope (int_setting m k kd sc e ds gi ui) = sc"
  "st_editable (int_setting m k kd sc e ds gi ui) = e" "st_desc (int_setting m k kd sc e ds gi ui) = ds"
  "st_get (int_setting m k kd sc e ds gi ui) d = int_digits (gi d)"
  "st_set (int_setting m k kd sc e ds gi ui) d v = Inr d' \<longleftrightarrow> (\<exists>n. parse_int64 (trim_space v) = Some n \<and> m \<le> n \<and> d' = ui n d)"
  by (auto simp: int_setting_def split: option.splits)

lemma enum_setting_simps [simp]:
  "st_key (enum_setting al k kd sc e ds g u) = k" "st_kind (enum_setting al k kd sc e ds g u) = kd"
  "st_type (enum_setting al k kd sc e ds g u) = TypeString" "st_scope (enum_setting al k kd sc e ds g u) = sc"
  "st_editable (enum_setting al k kd sc e ds g u) = e" "st_desc (enum_setting al k kd sc e ds g u) = ds"
  "st_get (enum_setting al k kd sc e ds g u) = g"
  "st_set (enum_setting al k kd sc e ds g u) d v = Inr d' \<longleftrightarrow> to_lower (trim_space v) \<in> set al \<and> d' = u (to_lower (trim_space v)) d"
  by (auto simp: enum_setting_def Let_def)

lemma s_data_dir_simps [simp]:
  "st_key s_data_dir = ''data_dir''" "st_type s_data_dir = TypeString" "st_editable s_data_dir \<longleftrightarrow> False" "st_get s_data_dir d = cfg_data_dir d"
  "st_set s_data_dir d v = Inr d' \<longleftrightarrow> d' = cfg_data_dir_update (\<lambda>_. trim_space v) d"
  by (simp_all only: s_data_dir_def str_setting_simps)

lemma s_db_path_simps [simp]:
  "st_key s_db_path = ''db_path''" "st_type s_db_path = TypeString" "st_editable s_db_path \<longleftrightarrow> False" "st_get s_db_path d = cfg_db_path d"
  "st_set s_db_path d v = Inr d' \<longleftrightarrow> d' = cfg_db_path_update (\<lambda>_. trim_space v) d"
  by (simp_all only: s_db_path_def str_setting_simps)

lemma s_http_addr_simps [simp]:
  "st_key s_http_addr = ''http_addr''" "st_type s_http_addr = TypeString" "st_editable s_http_addr \<longleftrightarrow> False" "st_get s_http_addr d = cfg_http_addr d"
  "st_set s_http_addr d v = Inr d' \<longleftrightarrow> d' = cfg_http_addr_update (\<lambda>_. trim_space v) d"
  by (simp_all only: s_http_addr_def str_setting_simps)

lemma s_api_token_simps [simp]:
  "st_key s_api_token = ''api_token''" "st_type s_api_token = TypeString" "st_editable s_api_token \<longleftrightarrow> False" "st_get s_api_token d = cfg_api_token d"
  "st_set s_api_token d v = Inr d' \<longleftrightarrow> d' = cfg_api_token_update (\<lambda>_. trim_space v) d"
  by (simp_all only: s_api_token_def str_setting_simps)

lemma s_sandbox_jar_path_simps [simp]:
  "st_key s_sandbox_jar_path = ''sandbox_jar_path''" "st_type s_sandbox_jar_path = TypeString" "st_editable s_sandbox_jar_path \<longleftrightarrow> False" "st_get s_sandbox_jar_path d = cfg_sandbox_jar_path d"
  "st_set s_sandbox_jar_path d v = Inr d' \<longleftrightarrow> d' = cfg_sandbox_jar_path_update (\<lambda>_. trim_space v) d"
  by (simp_all only: s_sandbox_jar_path_def str_setting_simps)

lemma s_public_url_simps [simp]:
  "st_key s_public_url = ''public_url''" "st_type s_public_url = TypeString" "st_editable s_public_url \<longleftrightarrow> True" "st_get s_public_url d = cfg_public_url d"
  "st_set s_public_url d v = Inr d' \<longleftrightarrow> d' = cfg_public_url_update (\<lambda>_. trim_space v) d"
  by (simp_all only: s_public_url_def str_setting_simps)

lemma s_media_dir_simps [simp]:
  "st_key s_media_dir = ''media_dir''" "st_type s_media_dir = TypeString" "st_editable s_media_dir \<longleftrightarrow> True" "st_get s_media_dir d = cfg_media_dir d"
  "st_set s_media_dir d v = Inr d' \<longleftrightarrow> d' = cfg_media_dir_update (\<lambda>_. trim_space v) d"
  by (simp_all only: s_media_dir_def str_setting_simps)

lemma s_jar_cache_dir_simps [simp]:
  "st_key s_jar_cache_dir = ''jar_cache_dir''" "st_type s_jar_cache_dir = TypeString" "st_editable s_jar_cache_dir \<longleftrightarrow> True" "st_get s_jar_cache_dir d = cfg_jar_cache_dir d"
  "st_set s_jar_cache_dir d v = Inr d' \<longleftrightarrow> d' = cfg_jar_cache_dir_update (\<lambda>_. trim_space v) d"
  by (simp_all only: s_jar_cache_dir_def str_setting_simps)

lemma s_downloads_dir_simps [simp]:
  "st_key s_downloads_dir = ''downloads_dir''" "st_type s_downloads_dir = TypeString" "st_editable s_downloads_dir \<longleftrightarrow> True" "st_get s_downloads_dir d = cfg_downloads_dir d"
  "st_set s_downloads_dir d v = Inr d' \<longleftrightarrow> d' = cfg_downloads_dir_update (\<lambda>_. trim_space v) d"
  by (simp_all only: s_downloads_dir_def str_setting_simps)

lemma s_local_source_dir_simps [simp]:
  "st_key s_local_source_dir = ''local_source_dir''" "st_type s_local_source_dir = TypeString" "st_editable s_local_source_dir \<longleftrightarrow> True" "st_get s_local_source_dir d = cfg_local_source_dir d"
  "st_set s_local_source_dir d v = Inr d' \<longleftrightarrow> d' = cfg_local_source_dir_update (\<lambda>_. trim_space v) d"
  by (simp_all only: s_local_source_dir_def str_setting_simps)

lemma s_novel_enabled_simps [simp]:
  "st_key s_novel_enabled = ''novel_enabled''" "st_type s_novel_enabled = TypeBool" "st_editable s_novel_enabled \<longleftrightarrow> True" "st_get s_novel_enabled d = bool_text (cfg_novel_enabled d)"
  "st_set s_novel_enabled d v = Inr d' \<longleftrightarrow> (\<exists>b. parse_bool (trim_space v) = Some b \<and> d' = cfg_novel_enabled_update (\<lambda>_. b) d)"
  by (simp_all only: s_novel_enabled_def bool_setting_simps)

lemma s_metadata_backfill_simps [simp]:
  "st_key s_metadata_backfill = ''metadata_backfill''" "st_type s_metadata_backfill = TypeBool" "st_editable s_metadata_backfill \<longleftrightarrow> True" "st_get s_metadata_backfill d = bool_text (cfg_metadata_backfill d)"
  "st_set s_metadata_backfill d v = Inr d' \<longleftrightarrow> (\<exists>b. parse_bool (trim_space v) = Some b \<and> d' = cfg_metadata_backfill_update (\<lambda>_. b) d)"
  by (simp_all only: s_metadata_backfill_def bool_setting_simps)

lemma s_idle_timeout_minutes_simps [simp]:
  "st_key s_idle_timeout_minutes = ''idle_timeout_minutes''" "st_type s_idle_timeout_minutes = TypeInt" "st_editable s_idle_timeout_minutes \<longleftrightarrow> True" "st_get s_idle_timeout_minutes d = int_digits (cfg_idle_timeout_min d)"
  "st_set s_idle_timeout_minutes d v = Inr d' \<longleftrightarrow> (\<exists>n. parse_int64 (trim_space v) = Some n \<and> 0 \<le> n \<and> d' = cfg_idle_timeout_min_update (\<lambda>_. n) d)"
  by (simp_all only: s_idle_timeout_minutes_def int_setting_simps)

lemma s_tracker_poll_hours_simps [simp]:
  "st_key s_tracker_poll_hours = ''tracker_poll_hours''" "st_type s_tracker_poll_hours = TypeInt" "st_editable s_tracker_poll_hours \<longleftrightarrow> True" "st_get s_tracker_poll_hours d = int_digits (cfg_tracker_poll_hours d)"
  "st_set s_tracker_poll_hours d v = Inr d' \<longleftrightarrow> (\<exists>n. parse_int64 (trim_space v) = Some n \<and> 0 \<le> n \<and> d' = cfg_tracker_poll_hours_update (\<lambda>_. n) d)"
  by (simp_all only: s_tracker_poll_hours_def int_setting_simps)

lemma s_backup_interval_hours_simps [simp]:
  "st_key s_backup_interval_hours = ''backup_interval_hours''" "st_type s_backup_interval_hours = TypeInt" "st_editable s_backup_interval_hours \<longleftrightarrow> True" "st_get s_backup_interval_hours d = int_digits (cfg_backup_interval_hours d)"
  "st_set s_backup_interval_hours d v = Inr d' \<longleftrightarrow> (\<exists>n. parse_int64 (trim_space v) = Some n \<and> 0 \<le> n \<and> d' = cfg_backup_interval_hours_update (\<lambda>_. n) d)"
  by (simp_all only: s_backup_interval_hours_def int_setting_simps)

lemma s_backup_retention_count_simps [simp]:
  "st_key s_backup_retention_count = ''backup_retention_count''" "st_type s_backup_retention_count = TypeInt" "st_editable s_backup_retention_count \<longleftrightarrow> True" "st_get s_backup_retention_count d = int_digits (cfg_backup_retention_count d)"
  "st_set s_backup_retention_count d v = Inr d' \<longleftrightarrow> (\<exists>n. parse_int64 (trim_space v) = Some n \<and> 1 \<le> n \<and> d' = cfg_backup_retention_count_update (\<lambda>_. n) d)"
  by (simp_all only: s_backup_retention_count_def int_setting_simps)

lemma s_anilist_client_id_simps [simp]:
  "st_key s_anilist_client_id = ''anilist_client_id''" "st_type s_anilist_client_id = TypeString" "st_editable s_anilist_client_id \<longleftrightarrow> True" "st_get s_anilist_client_id d = cfg_anilist_client_id d"
  "st_set s_anilist_client_id d v = Inr d' \<longleftrightarrow> d' = cfg_anilist_client_id_update (\<lambda>_. trim_space v) d"
  by (simp_all only: s_anilist_client_id_def str_setting_simps)

lemma s_mal_client_id_simps [simp]:
  "st_key s_mal_client_id = ''mal_client_id''" "st_type s_mal_client_id = TypeString" "st_editable s_mal_client_id \<longleftrightarrow> True" "st_get s_mal_client_id d = cfg_mal_client_id d"
  "st_set s_mal_client_id d v = Inr d' \<longleftrightarrow> d' = cfg_mal_client_id_update (\<lambda>_. trim_space v) d"
  by (simp_all only: s_mal_client_id_def str_setting_simps)

lemma s_mal_client_secret_simps [simp]:
  "st_key s_mal_client_secret = ''mal_client_secret''" "st_type s_mal_client_secret = TypeString" "st_editable s_mal_client_secret \<longleftrightarrow> True" "st_get s_mal_client_secret d = cfg_mal_client_secret d"
  "st_set s_mal_client_secret d v = Inr d' \<longleftrightarrow> d' = cfg_mal_client_secret_update (\<lambda>_. trim_space v) d"
  by (simp_all only: s_mal_client_secret_def str_setting_simps)

lemma s_sandbox_addr_simps [simp]:
  "st_key s_sandbox_addr = ''sandbox_addr''" "st_type s_sandbox_addr = TypeString" "st_editable s_sandbox_addr \<longleftrightarrow> True" "st_get s_sandbox_addr d = cfg_sandbox_addr d"
  "st_set s_sandbox_addr d v = Inr d' \<longleftrightarrow> d' = cfg_sandbox_addr_update (\<lambda>_. trim_space v) d"
  by (simp_all only: s_sandbox_addr_def str_setting_simps)

lemma s_sandbox_port_simps [simp]:
  "st_key s_sandbox_port = ''sandbox_port''" "st_type s_sandbox_port = TypeInt" "st_editable s_sandbox_port \<longleftrightarrow> True" "st_get s_sandbox_port d = int_digits (cfg_sandbox_port d)"
  "st_set s_sandbox_port d v = Inr d' \<longleftrightarrow> (\<exists>n. parse_int64 (trim_space v) = Some n \<and> 1 \<le> n \<and> d' = cfg_sandbox_port_update (\<lambda>_. n) d)"
  by (simp_all only: s_sandbox_port_def int_setting_simps)

lemma s_sandbox_extensions_dir_simps [simp]:
  "st_key s_sandbox_extensions_dir = ''sandbox_extensions_dir''" "st_type s_sandbox_extensions_dir = TypeString" "st_editable s_sandbox_extensions_dir \<longleftrightarrow> True" "st_get s_sandbox_extensions_dir d = cfg_sandbox_ext_dir d"
  "st_set s_sandbox_extensions_dir d v = Inr d' \<longleftrightarrow> d' = cfg_sandbox_ext_dir_update (\<lambda>_. trim_space v) d"
  by (simp_all only: s_sandbox_extensions_dir_def str_setting_simps)

lemma s_sandbox_storage_dir_simps [simp]:
  "st_key s_sandbox_storage_dir = ''sandbox_storage_dir''" "st_type s_sandbox_storage_dir = TypeString" "st_editable s_sandbox_storage_dir \<longleftrightarrow> True" "st_get s_sandbox_storage_dir d = cfg_sandbox_storage_dir d"
  "st_set s_sandbox_storage_dir d v = Inr d' \<longleftrightarrow> d' = cfg_sandbox_storage_dir_update (\<lambda>_. trim_space v) d"
  by (simp_all only: s_sandbox_storage_dir_def str_setting_simps)

lemma s_sandbox_heap_mb_simps [simp]:
  "st_key s_sandbox_heap_mb = ''sandbox_heap_mb''" "st_type s_sandbox_heap_mb = TypeInt" "st_editable s_sandbox_heap_mb \<longleftrightarrow> True" "st_get s_sandbox_heap_mb d = int_digits (cfg_sandbox_heap_mb d)"
  "st_set s_sandbox_heap_mb d v = Inr d' \<longleftrightarrow> (\<exists>n. parse_int64 (trim_space v) = Some n \<and> 0 \<le> n \<and> d' = cfg_sandbox_heap_mb_update (\<lambda>_. n) d)"
  by (simp_all only: s_sandbox_heap_mb_def int_setting_simps)

lemma s_pprof_addr_simps [simp]:
  "st_key s_pprof_addr = ''pprof_addr''" "st_type s_pprof_addr = TypeString" "st_editable s_pprof_addr \<longleftrightarrow> True" "st_get s_pprof_addr d = cfg_pprof_addr d"
  "st_set s_pprof_addr d v = Inr d' \<longleftrightarrow> d' = cfg_pprof_addr_update (\<lambda>_. trim_space v) d"
  by (simp_all only: s_pprof_addr_def str_setting_simps)

lemma s_content_filter_level_simps [simp]:
  "st_key s_content_filter_level = ''content_filter_level''" "st_type s_content_filter_level = TypeString" "st_editable s_content_filter_level \<longleftrightarrow> True" "st_get s_content_filter_level d = cfg_content_filter_level d"
  "st_set s_content_filter_level d v = Inr d' \<longleftrightarrow> to_lower (trim_space v) \<in> set [''strict'', ''moderate'', ''unrestricted''] \<and> d' = cfg_content_filter_level_update (\<lambda>_. to_lower (trim_space v)) d"
  by (simp_all only: s_content_filter_level_def enum_setting_simps)

lemma s_manga_download_format_simps [simp]:
  "st_key s_manga_download_format = ''manga_download_format''" "st_type s_manga_download_format = TypeString" "st_editable s_manga_download_format \<longleftrightarrow> True" "st_get s_manga_download_format d = cfg_manga_download_format d"
  "st_set s_manga_download_format d v = Inr d' \<longleftrightarrow> to_lower (trim_space v) \<in> set [''loose'', ''cbz''] \<and> d' = cfg_manga_download_format_update (\<lambda>_. to_lower (trim_space v)) d"
  by (simp_all only: s_manga_download_format_def enum_setting_simps)

lemma s_cloudflare_solver_mode_simps [simp]:
  "st_key s_cloudflare_solver_mode = ''cloudflare_solver_mode''" "st_type s_cloudflare_solver_mode = TypeString" "st_editable s_cloudflare_solver_mode \<longleftrightarrow> True" "st_get s_cloudflare_solver_mode d = cfg_cloudflare_solver_mode d"
  "st_set s_cloudflare_solver_mode d v = Inr d' \<longleftrightarrow> to_lower (trim_space v) \<in> set [''disabled'', ''external'', ''managed''] \<and> d' = cfg_cloudflare_solver_mode_update (\<lambda>_. to_lower (trim_space v)) d"
  by (simp_all only: s_cloudflare_solver_mode_def enum_setting_simps)

lemma s_cloudflare_solver_url_simps [simp]:
  "st_key s_cloudflare_solver_url = ''cloudflare_solver_url''" "st_type s_cloudflare_solver_url = TypeString" "st_editable s_cloudflare_solver_url \<longleftrightarrow> True" "st_get s_cloudflare_solver_url d = cfg_cloudflare_solver_url d"
  "st_set s_cloudflare_solver_url d v = Inr d' \<longleftrightarrow> d' = cfg_cloudflare_solver_url_update (\<lambda>_. trim_space v) d"
  by (simp_all only: s_cloudflare_solver_url_def str_setting_simps)

lemma settings_keys_differ: "distinct (map st_key settings)"
  by code_simp

lemma settings_frame:
  assumes "s \<in> set settings" "st_set s d v = Inr d'"
  shows "\<forall>t \<in> set settings. st_key s = st_key t \<or> st_get t d' = st_get t d"
  using assms unfolding settings_def by (simp, elim disjE; clarsimp)

lemma parse_int_digits_range:
  assumes "int64_min \<le> n" "n \<le> int64_max"
  shows "parse_int64 (int_digits n) = Some n"
proof (cases "n < 0")
  case True
  then show ?thesis using assms by (simp add: parse_int64_def int_digits_def list_all_iff nat_digits_all_digits)
next
  case False
  then show ?thesis using assms parse_int64_nat_digits [of "nat n"] by (simp add: int_digits_def)
qed

lemma parse_int64_again: "parse_int64 s = Some n \<Longrightarrow> parse_int64 (int_digits n) = Some n"
  by (rule parse_int_digits_range) (auto simp: parse_int64_def Let_def split: if_splits list.splits)

lemma int_digits_inj: "int_digits a = int_digits b \<longleftrightarrow> a = b"
proof
  have neg: "is_digit (hd (int_digits n)) \<longleftrightarrow> 0 \<le> n" for n
    using nat_digits_all_digits [OF hd_in_set [OF nat_digits_not_Nil]] by (auto simp: int_digits_def is_digit_def ch_def)
  assume eq: "int_digits a = int_digits b"
  then have "0 \<le> a \<longleftrightarrow> 0 \<le> b" using neg by metis
  then show "a = b" using eq by (auto simp: int_digits_def dest!: nat_digits_inj split: if_splits)
qed simp

lemma bool_text_inj: "bool_text a = bool_text b \<longleftrightarrow> a = b"
  by (cases a; cases b) (simp_all add: bool_text_def)

lemma config_update_same:
  "c = cfg_data_dir_update (\<lambda>_. x0) c \<longleftrightarrow> cfg_data_dir c = x0"
  "c = cfg_http_addr_update (\<lambda>_. x1) c \<longleftrightarrow> cfg_http_addr c = x1"
  "c = cfg_db_path_update (\<lambda>_. x2) c \<longleftrightarrow> cfg_db_path c = x2"
  "c = cfg_jar_cache_dir_update (\<lambda>_. x3) c \<longleftrightarrow> cfg_jar_cache_dir c = x3"
  "c = cfg_media_dir_update (\<lambda>_. x4) c \<longleftrightarrow> cfg_media_dir c = x4"
  "c = cfg_downloads_dir_update (\<lambda>_. x5) c \<longleftrightarrow> cfg_downloads_dir c = x5"
  "c = cfg_local_source_dir_update (\<lambda>_. x6) c \<longleftrightarrow> cfg_local_source_dir c = x6"
  "c = cfg_sandbox_jar_path_update (\<lambda>_. x7) c \<longleftrightarrow> cfg_sandbox_jar_path c = x7"
  "c = cfg_sandbox_addr_update (\<lambda>_. x8) c \<longleftrightarrow> cfg_sandbox_addr c = x8"
  "c = cfg_sandbox_port_update (\<lambda>_. x9) c \<longleftrightarrow> cfg_sandbox_port c = x9"
  "c = cfg_sandbox_ext_dir_update (\<lambda>_. x10) c \<longleftrightarrow> cfg_sandbox_ext_dir c = x10"
  "c = cfg_sandbox_storage_dir_update (\<lambda>_. x11) c \<longleftrightarrow> cfg_sandbox_storage_dir c = x11"
  "c = cfg_sandbox_heap_mb_update (\<lambda>_. x12) c \<longleftrightarrow> cfg_sandbox_heap_mb c = x12"
  "c = cfg_api_token_update (\<lambda>_. x13) c \<longleftrightarrow> cfg_api_token c = x13"
  "c = cfg_pprof_addr_update (\<lambda>_. x14) c \<longleftrightarrow> cfg_pprof_addr c = x14"
  "c = cfg_novel_enabled_update (\<lambda>_. x15) c \<longleftrightarrow> cfg_novel_enabled c = x15"
  "c = cfg_metadata_backfill_update (\<lambda>_. x16) c \<longleftrightarrow> cfg_metadata_backfill c = x16"
  "c = cfg_idle_timeout_min_update (\<lambda>_. x17) c \<longleftrightarrow> cfg_idle_timeout_min c = x17"
  "c = cfg_tracker_poll_hours_update (\<lambda>_. x18) c \<longleftrightarrow> cfg_tracker_poll_hours c = x18"
  "c = cfg_backup_interval_hours_update (\<lambda>_. x19) c \<longleftrightarrow> cfg_backup_interval_hours c = x19"
  "c = cfg_backup_retention_count_update (\<lambda>_. x20) c \<longleftrightarrow> cfg_backup_retention_count c = x20"
  "c = cfg_public_url_update (\<lambda>_. x21) c \<longleftrightarrow> cfg_public_url c = x21"
  "c = cfg_anilist_client_id_update (\<lambda>_. x22) c \<longleftrightarrow> cfg_anilist_client_id c = x22"
  "c = cfg_mal_client_id_update (\<lambda>_. x23) c \<longleftrightarrow> cfg_mal_client_id c = x23"
  "c = cfg_mal_client_secret_update (\<lambda>_. x24) c \<longleftrightarrow> cfg_mal_client_secret c = x24"
  "c = cfg_cloudflare_solver_mode_update (\<lambda>_. x25) c \<longleftrightarrow> cfg_cloudflare_solver_mode c = x25"
  "c = cfg_cloudflare_solver_url_update (\<lambda>_. x26) c \<longleftrightarrow> cfg_cloudflare_solver_url c = x26"
  "c = cfg_content_filter_level_update (\<lambda>_. x27) c \<longleftrightarrow> cfg_content_filter_level c = x27"
  "c = cfg_manga_download_format_update (\<lambda>_. x28) c \<longleftrightarrow> cfg_manga_download_format c = x28"
  by (cases c; auto)+

text \<open>A value that was written is a normal form: writing it again changes nothing.\<close>

definition writes_normal :: "setting \<Rightarrow> bool" where
  "writes_normal s \<longleftrightarrow> (\<forall>d v d'. st_set s d v = Inr d' \<longrightarrow> st_set s d' (st_get s d') = Inr d')"

lemma str_own:
  assumes "\<And>x d. g (u x d) = x" "\<And>x y d. u x (u y d) = u x d"
  shows "writes_normal (str_setting k kd sc e ds g u)"
  by (simp add: writes_normal_def assms)

lemma bool_own:
  assumes "\<And>x d. gb (ub x d) = x" "\<And>x y d. ub x (ub y d) = ub x d"
  shows "writes_normal (bool_setting k kd sc e ds gb ub)"
  by (auto simp: writes_normal_def assms)

lemma int_own:
  assumes "\<And>x d. gi (ui x d) = x" "\<And>x y d. ui x (ui y d) = ui x d"
  shows "writes_normal (int_setting m k kd sc e ds gi ui)"
proof -
  have "\<exists>n'. parse_int64 (int_digits n) = Some n' \<and> m \<le> n' \<and> ui n d = ui n' d"
    if "parse_int64 v = Some n" "m \<le> n" for n v d
    using parse_int64_again [OF that(1)] that(2) by blast
  then show ?thesis by (auto simp: writes_normal_def assms)
qed

lemma enum_own:
  assumes "\<And>x d. g (u x d) = x" "\<And>x y d. u x (u y d) = u x d"
  shows "writes_normal (enum_setting al k kd sc e ds g u)"
  by (simp add: writes_normal_def assms trim_space_to_lower)

lemma settings_write_normal:
  "writes_normal s_data_dir"
  "writes_normal s_db_path"
  "writes_normal s_http_addr"
  "writes_normal s_api_token"
  "writes_normal s_sandbox_jar_path"
  "writes_normal s_public_url"
  "writes_normal s_media_dir"
  "writes_normal s_jar_cache_dir"
  "writes_normal s_downloads_dir"
  "writes_normal s_local_source_dir"
  "writes_normal s_novel_enabled"
  "writes_normal s_metadata_backfill"
  "writes_normal s_idle_timeout_minutes"
  "writes_normal s_tracker_poll_hours"
  "writes_normal s_backup_interval_hours"
  "writes_normal s_backup_retention_count"
  "writes_normal s_anilist_client_id"
  "writes_normal s_mal_client_id"
  "writes_normal s_mal_client_secret"
  "writes_normal s_sandbox_addr"
  "writes_normal s_sandbox_port"
  "writes_normal s_sandbox_extensions_dir"
  "writes_normal s_sandbox_storage_dir"
  "writes_normal s_sandbox_heap_mb"
  "writes_normal s_pprof_addr"
  "writes_normal s_content_filter_level"
  "writes_normal s_manga_download_format"
  "writes_normal s_cloudflare_solver_mode"
  "writes_normal s_cloudflare_solver_url"
  unfolding settings_defs by (rule str_own bool_own int_own enum_own; simp)+

lemma settings_own:
  assumes "s \<in> set settings" "st_set s d v = Inr d'"
  shows "st_set s d' (st_get s d') = Inr d'"
proof -
  have "\<forall>s \<in> set settings. writes_normal s" by (simp add: settings_def settings_write_normal)
  then show ?thesis using assms by (simp add: writes_normal_def)
qed

lemma settings_copy:
  assumes "s \<in> set settings" "st_set s c (st_get s c) = Inr c"
  shows "\<exists>d'. st_set s d (st_get s c) = Inr d' \<and> st_get s d' = st_get s c"
  using assms unfolding settings_def
  by (simp, elim disjE; clarsimp simp: config_update_same)

lemma settings_get_all:
  assumes "\<And>s. s \<in> set settings \<Longrightarrow> st_get s c = st_get s d"
  shows "c = d"
proof -
  have "\<forall>s \<in> set settings. st_get s c = st_get s d" using assms by blast
  then show ?thesis unfolding settings_def by (cases c; cases d) (simp add: bool_text_inj int_digits_inj)
qed

interpretation cfg: setting_table settings
proof
  show "st_get t d' = st_get t d"
    if "s \<in> set settings" "t \<in> set settings" "st_key s \<noteq> st_key t" "st_set s d v = Inr d'" for s t d v d'
    using settings_frame [OF that(1,4)] that(2,3) by blast
qed (rule settings_keys_differ settings_own settings_copy settings_get_all; assumption)+

section \<open>The document is read back\<close>

lemma split_line: "CHR 0x0A \<notin> set a \<Longrightarrow> split_on (CHR 0x0A) (a @ CHR 0x0A # b) = a # split_on (CHR 0x0A) b"
  by (induction a) auto

definition line_of :: "(string \<times> decoded_value) option option \<Rightarrow> (string \<times> decoded_value) list option \<Rightarrow> (string \<times> decoded_value) list option" where
  "line_of l rest = Option.bind l (\<lambda>r. Option.bind rest (add_pair r))"

lemma toml_doc_line: "CHR 0x0A \<notin> set a \<Longrightarrow> toml_doc (a @ CHR 0x0A # b) = line_of (toml_line a) (toml_doc b)"
  by (simp add: toml_doc_def split_line line_of_def split: option.splits)

lemma toml_doc_skip [simp]:
  "toml_doc (CHR 0x0A # b) = toml_doc b"
  "list_all comment_char a \<Longrightarrow> toml_doc (CHR ''#'' # a @ CHR 0x0A # b) = toml_doc b"
proof -
  show "toml_doc (CHR 0x0A # b) = toml_doc b"
    using toml_doc_line [of "[]" b] by (cases "toml_doc b") (simp_all add: toml_line_def line_of_def add_pair_def)
  assume a: "list_all comment_char a"
  then have "CHR 0x0A \<notin> set (CHR ''#'' # a)" by (auto simp: list_all_iff comment_char_def ch_def)
  then show "toml_doc (CHR ''#'' # a @ CHR 0x0A # b) = toml_doc b"
    using toml_doc_line [of "CHR ''#'' # a" b] a
    by (cases "toml_doc b") (simp_all add: toml_line_def line_of_def add_pair_def)
qed

text \<open>A quoted value is one line of printable characters, and is read back.\<close>

lemma quote_char_printable: "plain_char c \<Longrightarrow> x \<in> set (go_quote_char c) \<Longrightarrow> 32 \<le> ch x \<and> ch x < 127"
  by (auto simp: plain_char_def go_quote_char_def ch_def split: if_splits)

lemma toml_chars_plain:
  assumes "32 \<le> ch c" "ch c < 127" "c \<noteq> CHR 0x22" "c \<noteq> CHR 0x5C" "s \<noteq> []"
  shows "toml_chars (c # s) = map_option ((#) c) (toml_chars s)"
  using assms by (cases s) auto

lemma toml_chars_escape:
  assumes "unescape d = Some e"
  shows "toml_chars (CHR 0x5C # d # s) = map_option ((#) e) (toml_chars s)"
  using assms by simp

lemma toml_chars_quoted:
  "list_all plain_char s \<Longrightarrow> toml_chars (concat (map go_quote_char s) @ [CHR 0x22]) = Some s"
proof (induction s)
  case (Cons c s)
  let ?r = "concat (map go_quote_char s) @ [CHR 0x22]"
  have ih: "toml_chars ?r = Some s" using Cons by simp
  have "toml_chars (go_quote_char c @ ?r) = Some (c # s)"
  proof (cases "c \<in> set [CHR 0x22, CHR 0x5C, CHR 0x08, CHR 0x0C, CHR 0x0A, CHR 0x0D, CHR 0x09]")
    case True
    then obtain d where "go_quote_char c = [CHR 0x5C, d]" "unescape d = Some c"
      by (auto simp: go_quote_char_def unescape_def)
    then show ?thesis using ih toml_chars_escape [of d c ?r] by simp
  next
    case False
    then have "32 \<le> ch c" "ch c < 127" using Cons.prems by (auto simp: plain_char_def)
    moreover from this have "c \<noteq> CHR 0x07" "c \<noteq> CHR 0x0B" by (auto simp: ch_def)
    moreover from calculation have "go_quote_char c = [c]" using False by (simp add: go_quote_char_def)
    ultimately show ?thesis using ih False toml_chars_plain [of c ?r] by simp
  qed
  then show ?case by simp
qed simp

lemma toml_read_quoted: "list_all plain_char s \<Longrightarrow> toml_read (go_quote s) = Some (TomlString s)"
  by (simp add: toml_read_def go_quote_def toml_chars_quoted)

lemma int_digits_head: "\<exists>c s. int_digits n = c # s \<and> (is_digit c \<or> c = CHR ''-'')"
  using int_digits_chars [of _ n] by (cases "int_digits n") (auto simp: int_digits_def split: if_splits)

lemma toml_read_int: "parse_int64 (int_digits n) = Some n \<Longrightarrow> toml_read (int_digits n) = Some (TomlInt n)"
proof -
  obtain c s where d: "int_digits n = c # s" "is_digit c \<or> c = CHR ''-''" using int_digits_head by blast
  moreover have "c \<noteq> CHR ''t''" "c \<noteq> CHR ''f''" "c \<noteq> CHR 0x22" using d(2) by (auto simp: is_digit_def ch_def)
  moreover assume "parse_int64 (int_digits n) = Some n"
  ultimately show ?thesis by (simp add: toml_read_def)
qed

lemma toml_read_bool: "toml_read (bool_text b) = Some (TomlBool b)"
  by (cases b) (simp_all add: toml_read_def bool_text_def)

text \<open>Every setting's line: a comment, then its key and value, or that in a comment as well.\<close>

definition line_text :: "setting \<Rightarrow> bool" where
  "line_text st \<longleftrightarrow> list_all comment_char (st_desc st) \<and> list_all bare_key_char (st_key st) \<and> st_key st \<noteq> []"

lemma comment_char_bits: "comment_char (Char b0 b1 b2 b3 b4 b5 b6 False) \<longleftrightarrow>
    (b5 \<or> b6) \<and> \<not> (b0 \<and> b1 \<and> b2 \<and> b3 \<and> b4 \<and> b5 \<and> b6) \<or>
    b0 \<and> \<not> b1 \<and> \<not> b2 \<and> b3 \<and> \<not> b4 \<and> \<not> b5 \<and> \<not> b6"
  by (cases b0; cases b1; cases b2; cases b3; cases b4; cases b5; cases b6; simp add: comment_char_def ch_def)

lemma settings_comments: "list_all (\<lambda>st. list_all comment_char (st_desc st)) settings"
  by (simp only: settings_def settings_defs str_setting_simps bool_setting_simps int_setting_simps enum_setting_simps
      list.pred_inject comment_char_bits simp_thms)

lemma settings_bare_keys: "list_all (\<lambda>st. list_all bare_key_char (st_key st) \<and> st_key st \<noteq> []) settings"
  by code_simp

lemma settings_line_text: "s \<in> set settings \<Longrightarrow> line_text s"
  using settings_comments settings_bare_keys by (simp add: line_text_def list_all_iff)

definition typed_value :: "setting \<Rightarrow> bool" where
  "typed_value s \<longleftrightarrow> (\<forall>c. st_set s c (st_get s c) = Inr c \<longrightarrow>
     (st_type s = TypeBool \<longrightarrow> (\<exists>b. st_get s c = bool_text b)) \<and>
     (st_type s = TypeInt \<longrightarrow> (\<exists>n. st_get s c = int_digits n \<and> parse_int64 (int_digits n) = Some n)))"

lemma kinds_typed:
  "typed_value (str_setting k kd sc e ds g u)" "typed_value (bool_setting k kd sc e ds gb ub)"
  "typed_value (int_setting m k kd sc e ds gi ui)" "typed_value (enum_setting al k kd sc e ds g u)"
proof -
  show "typed_value (int_setting m k kd sc e ds gi ui)"
    unfolding typed_value_def using parse_int_digits by fastforce
qed (auto simp: typed_value_def)

lemma settings_typed_value:
  "typed_value s_data_dir"
  "typed_value s_db_path"
  "typed_value s_http_addr"
  "typed_value s_api_token"
  "typed_value s_sandbox_jar_path"
  "typed_value s_public_url"
  "typed_value s_media_dir"
  "typed_value s_jar_cache_dir"
  "typed_value s_downloads_dir"
  "typed_value s_local_source_dir"
  "typed_value s_novel_enabled"
  "typed_value s_metadata_backfill"
  "typed_value s_idle_timeout_minutes"
  "typed_value s_tracker_poll_hours"
  "typed_value s_backup_interval_hours"
  "typed_value s_backup_retention_count"
  "typed_value s_anilist_client_id"
  "typed_value s_mal_client_id"
  "typed_value s_mal_client_secret"
  "typed_value s_sandbox_addr"
  "typed_value s_sandbox_port"
  "typed_value s_sandbox_extensions_dir"
  "typed_value s_sandbox_storage_dir"
  "typed_value s_sandbox_heap_mb"
  "typed_value s_pprof_addr"
  "typed_value s_content_filter_level"
  "typed_value s_manga_download_format"
  "typed_value s_cloudflare_solver_mode"
  "typed_value s_cloudflare_solver_url"
  unfolding settings_defs by (rule kinds_typed)+

lemma settings_typed:
  assumes "s \<in> set settings" "st_set s c (st_get s c) = Inr c"
  shows "st_type s = TypeBool \<Longrightarrow> \<exists>b. st_get s c = bool_text b"
    "st_type s = TypeInt \<Longrightarrow> \<exists>n. st_get s c = int_digits n \<and> parse_int64 (int_digits n) = Some n"
proof -
  have "\<forall>s \<in> set settings. typed_value s" by (simp add: settings_def settings_typed_value)
  then have "typed_value s" using assms(1) by blast
  then show "st_type s = TypeBool \<Longrightarrow> \<exists>b. st_get s c = bool_text b"
    "st_type s = TypeInt \<Longrightarrow> \<exists>n. st_get s c = int_digits n \<and> parse_int64 (int_digits n) = Some n"
    using assms(2) unfolding typed_value_def by blast+
qed

definition printable :: "string \<Rightarrow> bool" where
  "printable s \<longleftrightarrow> list_all (\<lambda>x. 32 \<le> ch x \<and> ch x < 127) s"

lemma printable_quote: "list_all plain_char s \<Longrightarrow> printable (go_quote s)"
proof -
  assume s: "list_all plain_char s"
  have q: "32 \<le> ch (CHR 0x22) \<and> ch (CHR 0x22) < 127" by (simp add: ch_def)
  have "32 \<le> ch x \<and> ch x < 127" if x: "x \<in> set (concat (map go_quote_char s))" for x
  proof -
    obtain c where "c \<in> set s" "x \<in> set (go_quote_char c)" using x by auto
    then show ?thesis using s quote_char_printable [of c x] by (simp add: list_all_iff)
  qed
  then show ?thesis using q unfolding printable_def go_quote_def list_all_iff by simp
qed

lemma printable_int: "printable (int_digits n)"
proof -
  have "32 \<le> ch x \<and> ch x < 127" if "x \<in> set (int_digits n)" for x
    using int_digits_chars [OF that] by (auto simp: is_digit_def ch_def)
  then show ?thesis unfolding printable_def list_all_iff by blast
qed

lemma printable_bool: "printable (bool_text b)"
  by (simp add: printable_def bool_text_def ch_def)

lemma value_read:
  assumes s: "s \<in> set settings" "st_set s c (st_get s c) = Inr c" and p: "list_all plain_char (st_get s c)"
  shows "printable (toml_value s c) \<and> (\<exists>v. toml_read (toml_value s c) = Some v \<and> to_string v = st_get s c)"
proof (cases "st_type s")
  case TypeBool
  then obtain b where "st_get s c = bool_text b" using settings_typed(1) [OF s] TypeBool by blast
  then show ?thesis using TypeBool by (simp add: toml_value_def toml_read_bool printable_bool)
next
  case TypeInt
  then obtain n where "st_get s c = int_digits n" "parse_int64 (int_digits n) = Some n"
    using settings_typed(2) [OF s] TypeInt by blast
  then show ?thesis using TypeInt by (simp add: toml_value_def toml_read_int printable_int)
next
  case TypeString
  then show ?thesis using p by (simp add: toml_value_def toml_read_quoted printable_quote)
qed

lemma toml_line_pair:
  assumes "list_all bare_key_char k" "k \<noteq> []" "toml_read v = Some x"
  shows "toml_line (k @ '' = '' @ v) = Some (Some (k, x))"
proof -
  have "takeWhile bare_key_char (k @ '' = '' @ v) = k"
    using assms(1) by (simp add: takeWhile_append2 list_all_iff bare_key_char_def is_alnum_def is_digit_def is_upper_def is_lower_def ch_def)
  moreover have "hd k \<noteq> CHR ''#''" using assms(1,2)
    by (cases k) (auto simp: bare_key_char_def is_alnum_def is_digit_def is_upper_def is_lower_def ch_def)
  moreover have "cut_prefix ('' = '' @ v) '' = '' = Some v" by (rule cut_prefix_append)
  ultimately show ?thesis using assms(2,3) by (cases k) (simp_all add: toml_line_def)
qed

lemma printable_comment: "printable s \<Longrightarrow> list_all comment_char s"
  by (simp add: printable_def comment_char_def list_all_iff)

lemma toml_comment: "s \<noteq> [] \<Longrightarrow> hd s = CHR ''#'' \<Longrightarrow> list_all comment_char (tl s) \<Longrightarrow> toml_doc (s @ NL @ b) = toml_doc b"
  by (cases s) (simp_all add: NL_def)

lemma scope_text_comment: "list_all comment_char (''  ['' @ scope_text sc @ '']'')"
proof -
  have "list_all (\<lambda>s. list_all comment_char (''  ['' @ scope_text s @ '']'')) [ScopeLive, ScopeSandboxRestart, ScopeFullRestart]"
    by code_simp
  then show ?thesis by (cases sc) (simp_all only: list.pred_inject)
qed

lemma bare_printable: "list_all bare_key_char k \<Longrightarrow> printable k"
  by (auto simp: printable_def list_all_iff bare_key_char_def is_alnum_def is_digit_def is_upper_def is_lower_def ch_def)

lemma printable_append: "printable (s @ t) \<longleftrightarrow> printable s \<and> printable t"
  by (simp add: printable_def)

lemma printable_one_line: "printable s \<Longrightarrow> CHR 0x0A \<notin> set s"
  by (auto simp: printable_def list_all_iff ch_def)

lemma write_line_read:
  assumes s: "line_text s" and p: "printable (toml_value s c)" and v: "toml_read (toml_value s c) = Some v"
  shows "toml_doc (write_line s c act @ rest) =
    (if act then line_of (Some (Some (st_key s, v))) (toml_doc rest) else toml_doc rest)"
proof -
  define head where "head = '' '' @ st_desc s @ (if st_scope s \<noteq> ScopeLive then ''  ['' @ scope_text (st_scope s) @ '']'' else [])"
  define body where "body = st_key s @ '' = '' @ toml_value s c"
  have key: "list_all comment_char (st_desc s)" "list_all bare_key_char (st_key s)" "st_key s \<noteq> []"
    using s by (simp_all add: line_text_def)
  have eq: "printable '' = ''" by (simp add: printable_def ch_def)
  have bodyp: "printable body" unfolding body_def printable_append using bare_printable [OF key(2)] eq p by simp
  have sp: "list_all comment_char '' ''" by (simp add: comment_char_def ch_def)
  have headc: "list_all comment_char head"
    unfolding head_def list_all_append using sp key(1) scope_text_comment by simp
  have hc: "toml_doc ((CHR ''#'' # head) @ NL @ r) = toml_doc r" for r
    by (rule toml_comment) (simp_all add: headc)
  have "write_line s c act @ rest =
      (CHR ''#'' # head) @ NL @ ((if act then [] else ''# '') @ body) @ NL @ NL @ rest"
    by (simp add: write_line_def head_def body_def)
  then have "toml_doc (write_line s c act @ rest) = toml_doc (((if act then [] else ''# '') @ body) @ NL @ NL @ rest)"
    by (simp only: hc)
  also have "\<dots> = (if act then line_of (Some (Some (st_key s, v))) (toml_doc rest) else toml_doc rest)"
  proof (cases act)
    case True
    have "toml_doc (body @ NL @ NL @ rest) = line_of (toml_line body) (toml_doc (NL @ rest))"
      unfolding NL_def using toml_doc_line [OF printable_one_line [OF bodyp]] by simp
    then show ?thesis using True toml_line_pair [OF key(2,3) v] by (simp add: body_def NL_def)
  next
    case False
    have "list_all comment_char (tl (''# '' @ body))" using printable_comment [OF bodyp] sp by simp
    then have "toml_doc ((''# '' @ body) @ NL @ (NL @ rest)) = toml_doc (NL @ rest)"
      by (intro toml_comment) simp_all
    then show ?thesis using False by (simp add: NL_def)
  qed
  finally show ?thesis .
qed

text \<open>The pairs of the active lines of a list of settings.\<close>

definition pair_of :: "config \<Rightarrow> setting \<Rightarrow> string \<times> decoded_value" where
  "pair_of c s = (st_key s, the (toml_read (toml_value s c)))"

lemma lines_read:
  assumes "\<And>s. s \<in> set xs \<Longrightarrow> line_text s \<and> printable (toml_value s c) \<and> toml_read (toml_value s c) \<noteq> None"
    and "toml_doc rest = Some kvs" "distinct (map st_key xs)" "st_key ` set xs \<inter> fst ` set kvs = {}"
  shows "toml_doc (concat (map (\<lambda>s. write_line s c (P s)) xs) @ rest) = Some (map (pair_of c) (filter P xs) @ kvs)"
  using assms
proof (induction xs)
  case (Cons s xs)
  let ?more = "concat (map (\<lambda>s. write_line s c (P s)) xs) @ rest"
  have s: "line_text s" "printable (toml_value s c)" using Cons.prems(1) by auto
  obtain v where v: "toml_read (toml_value s c) = Some v" using Cons.prems(1) [of s] by auto
  have ih: "toml_doc ?more = Some (map (pair_of c) (filter P xs) @ kvs)"
    using Cons.prems by (intro Cons.IH) auto
  have new: "st_key s \<notin> set (map fst (map (pair_of c) (filter P xs) @ kvs))"
    using Cons.prems(3,4) by (auto simp: pair_of_def)
  have "toml_doc (write_line s c (P s) @ ?more) =
      (if P s then line_of (Some (Some (st_key s, v))) (toml_doc ?more) else toml_doc ?more)"
    by (rule write_line_read [OF s v])
  then show ?case
    using ih new v by (cases "P s") (simp_all add: line_of_def add_pair_def pair_of_def)
qed simp

definition comment_text :: "string \<Rightarrow> bool" where
  "comment_text s \<longleftrightarrow> s \<noteq> [] \<and> hd s = CHR ''#'' \<and> list_all comment_char (tl s)"

lemma comment_text_skip: "comment_text s \<Longrightarrow> toml_doc (s @ NL @ b) = toml_doc b"
  using toml_comment by (simp add: comment_text_def)

lemma document_head:
  "comment_text ''# Tsunagu configuration -- regenerated on every save.''"
  "comment_text ''# Active (uncommented) lines are authoritative: on boot they overwrite''"
  "comment_text ''# whatever the app last set. Commented lines show the default; the app''"
  "comment_text ''# controls those. Edit and restart to override.''"
  "comment_text ''# ---- not editable in the app: change here, then restart ----''"
  "comment_text ''# ---- editable here or in the app ----''"
  by (simp_all only: comment_text_def list.sel list.pred_inject comment_char_bits simp_thms list.distinct not_False_eq_True)

lemma toml_doc_blank: "toml_doc (NL @ b) = toml_doc b"
  by (simp add: NL_def)

lemma accepted_iff: "accepted c \<longleftrightarrow> (\<forall>s \<in> set settings. st_set s c (st_get s c) = Inr c)"
  by (simp add: accepted_def list_all_iff)

lemma document_read:
  assumes "accepted c" "plain_config c"
  shows "toml_doc (config_document active c) = Some (map (pair_of c)
    (filter (active_line active c) (filter (\<lambda>s. \<not> st_editable s) settings @ filter st_editable settings)))"
proof -
  let ?A = "filter (\<lambda>s. \<not> st_editable s) settings" and ?B = "filter st_editable settings"
  have ok: "line_text s \<and> printable (toml_value s c) \<and> toml_read (toml_value s c) \<noteq> None" if s: "s \<in> set settings" for s
  proof -
    have "st_set s c (st_get s c) = Inr c" using assms(1) s by (simp add: accepted_iff)
    moreover have "list_all plain_char (st_get s c)" using assms(2) s by (simp add: plain_config_def list_all_iff)
    ultimately have "printable (toml_value s c) \<and> (\<exists>v. toml_read (toml_value s c) = Some v \<and> to_string v = st_get s c)"
      by (rule value_read [OF s])
    then show ?thesis using settings_line_text [OF s] by auto
  qed
  have dis: "distinct (map st_key (filter P settings))" for P
    using settings_keys_differ by (simp add: distinct_map inj_on_def)
  have nil: "toml_doc [] = Some []" by (simp add: toml_doc_def toml_line_def add_pair_def)
  have B: "toml_doc (concat (map (\<lambda>s. write_line s c (active_line active c s)) ?B) @ []) =
      Some (map (pair_of c) (filter (active_line active c) ?B) @ [])"
    by (rule lines_read [OF _ nil dis]) (use ok in auto)
  have sep: "st_key ` set ?A \<inter> fst ` set (map (pair_of c) (filter (active_line active c) ?B)) = {}"
    using cfg.setting_inj by (fastforce simp: pair_of_def)
  have mid: "toml_doc (NL @ ''# ---- editable here or in the app ----'' @ NL @ NL @ concat (map (\<lambda>s. write_line s c (active_line active c s)) ?B)) =
      Some (map (pair_of c) (filter (active_line active c) ?B))"
    using B by (simp only: toml_doc_blank comment_text_skip [OF document_head(6)] append_Nil2)
  have A: "toml_doc (concat (map (\<lambda>s. write_line s c (active_line active c s)) ?A) @
      NL @ ''# ---- editable here or in the app ----'' @ NL @ NL @ concat (map (\<lambda>s. write_line s c (active_line active c s)) ?B)) =
      Some (map (pair_of c) (filter (active_line active c) ?A) @ map (pair_of c) (filter (active_line active c) ?B))"
    by (rule lines_read [OF _ mid dis sep]) (use ok in auto)
  show ?thesis
    unfolding config_document_def
    using A by (simp only: toml_doc_blank document_head [THEN comment_text_skip] filter_append map_append)
qed

end
