(* ===== verification/SettingsStore.thy ===== *)
theory SettingsStore
  imports SettingsFile
begin

text \<open>
  What the settings store promises: the values in force always pass their own checks, whatever operations
  ran and failed; and what a save writes, the next start reads, so that a setting that was set keeps its value.
\<close>

section \<open>The values in force are acceptable\<close>

lemma keeps_seq_gets: "(\<And>s. I s \<Longrightarrow> keeps I (f (g s))) \<Longrightarrow> keeps I (seq (gets g) f)"
  by (simp add: keeps_def act_simps)

lemma keeps_seq_result:
  assumes "keeps I m" "\<And>x s s'. m s = (Inr x, s') \<Longrightarrow> keeps I (f x)"
  shows "keeps I (seq m f)"
proof (rule keepsI)
  fix s assume s: "I s"
  obtain r s' where m: "m s = (r, s')" by (cases "m s")
  then have s': "I s'" using keepsD [OF assms(1) s] by blast
  show "I (snd (seq m f s))"
  proof (cases r)
    case (Inr x)
    then have "keeps I (f x)" using assms(2) m by blast
    then show ?thesis using s' m Inr by (simp add: seq_Inr keeps_def)
  qed (use s' m in \<open>simp add: seq_def\<close>)
qed

definition cfg_ok :: "'z store_world_scheme \<Rightarrow> bool" where
  "cfg_ok w \<longleftrightarrow> accepted (sw_cfg w)"

lemma accepted_set:
  assumes "accepted c" "st \<in> set settings" "st_set st c v = Inr c'"
  shows "accepted c'"
  using cfg.set_keeps_accepted [OF assms(2,3)] assms(1) by (simp add: accepted_iff)

text \<open>The store's own state, which a call on the table or the files leaves.\<close>

definition stored :: "'z store_world_scheme \<Rightarrow> config \<times> string \<times> string list" where
  "stored w = (sw_cfg w, sw_path w, sw_active w)"

lemma stored_call [simp]:
  fixes w :: "'z store_world_scheme"
  shows "stored (snd (db_call q w)) = stored w" "stored (snd (fs_call f w)) = stored w"
proof -
  obtain x w' where c: "db_call q w = (x, w')" by fastforce
  then have "stored w' = stored w" by (cases rule: db_call_cases) (auto simp: stored_def)
  with c show "stored (snd (db_call q w)) = stored w" by simp
  obtain y w'' where d: "fs_call f w = (y, w'')" by fastforce
  then have "stored w'' = stored w" by (cases rule: fs_call_cases) (auto simp: stored_def)
  with d show "stored (snd (fs_call f w)) = stored w" by simp
qed

lemma keeps_stored [keeps_intros]:
  "keeps (\<lambda>w :: 'z store_world_scheme. stored w = x) (db_call q)"
  "keeps (\<lambda>w :: 'z store_world_scheme. stored w = x) (fs_call f)"
  by (auto intro: keepsI)

lemma cfg_ok_stored: "stored w' = stored w \<Longrightarrow> cfg_ok w' \<longleftrightarrow> cfg_ok w"
  by (simp add: stored_def cfg_ok_def)

lemma keeps_cfg_calls [keeps_intros]: "keeps cfg_ok (db_call q)" "keeps cfg_ok (fs_call f)"
  using cfg_ok_stored stored_call by (blast intro: keepsI)+

lemma keeps_set_cfg: "accepted c \<Longrightarrow> keeps cfg_ok (set_cfg c)"
  by (simp add: keeps_def set_cfg_def act_simps cfg_ok_def)

lemma keeps_set_active: "keeps cfg_ok (modify (\<lambda>w. w\<lparr>sw_active := f (sw_active w)\<rparr>))"
  by (simp add: keeps_def act_simps cfg_ok_def)

lemma keeps_regenerate: "keeps cfg_ok regenerate"
  unfolding regenerate_def Let_def by (intro keeps_intros)

lemma keeps_effective: "keeps cfg_ok (effective st)"
  unfolding effective_def by (intro keeps_intros)

lemma lookup_in: "lookup_setting key = Some st \<Longrightarrow> st \<in> set settings \<and> st_key st = key"
  by (auto simp: lookup_setting_def dest!: find_SomeD)

lemma editable_result: "editable_setting key s = (Inr st, s') \<Longrightarrow> st \<in> set settings \<and> st_key st = key \<and> st_editable st \<and> s' = s"
  by (auto simp: editable_setting_def act_simps dest: lookup_in split: option.splits if_splits)

lemma keeps_editable: "keeps I (editable_setting key)"
  unfolding editable_setting_def by (intro keeps_intros)

lemma keeps_write_value:
  assumes "st \<in> set settings" "\<And>e. keeps cfg_ok (m e)" "\<And>c'. keeps cfg_ok (f c')" "accepted c"
  shows "keeps cfg_ok (case st_set st c v of Inl e \<Rightarrow> m e | Inr c' \<Rightarrow> seq (set_cfg c') (\<lambda>_. f c'))"
  by (intro keeps_case_sum keeps_seq keeps_set_cfg assms(2,3)) (rule accepted_set [OF assms(4,1)])

definition hooks_keep :: "(string \<Rightarrow> ('z store_world_scheme \<Rightarrow> 'z store_world_scheme) option) \<Rightarrow> bool" where
  "hooks_keep hooks \<longleftrightarrow> (\<forall>key f w. hooks key = Some f \<longrightarrow> sw_cfg (f w) = sw_cfg w)"

lemma keeps_hook: "hooks_keep hooks \<Longrightarrow> keeps cfg_ok (run_hook hooks key)"
  unfolding run_hook_def hooks_keep_def
  by (intro keeps_case_option keeps_ret) (simp add: keeps_def act_simps cfg_ok_def)

lemma keeps_set_setting: "hooks_keep hooks \<Longrightarrow> keeps cfg_ok (set_setting hooks key v)"
  unfolding set_setting_def
  by (rule keeps_seq_result [OF keeps_editable], rule keeps_seq_gets, rule keeps_write_value)
    (auto intro!: keeps_intros keeps_set_active keeps_regenerate keeps_effective keeps_hook
      dest: editable_result simp: cfg_ok_def)

lemma keeps_unset_setting: "hooks_keep hooks \<Longrightarrow> keeps cfg_ok (unset_setting hooks key)"
  unfolding unset_setting_def
proof (rule keeps_seq_result [OF keeps_editable])
  fix st and s s' :: "'z store_world_scheme"
  assume hooks: "hooks_keep hooks" and "editable_setting key s = (Inr st, s')"
  then have st: "st \<in> set settings" using editable_result by blast
  have "keeps cfg_ok (case st_set st c d of Inl _ \<Rightarrow> ret () | Inr c' \<Rightarrow> set_cfg c')" if "accepted c" for c d
    using keeps_set_cfg accepted_set [OF that st] by (auto split: sum.split intro: keeps_ret)
  then show "keeps cfg_ok (seq (ignore (db_call (q_set_setting key []))) (\<lambda>_.
     seq (modify (\<lambda>w. w\<lparr>sw_active := filter (\<lambda>k. k \<noteq> key) (sw_active w)\<rparr>)) (\<lambda>_.
     seq (gets sw_cfg) (\<lambda>c.
     seq (case st_set st c (st_get st default_config) of Inl _ \<Rightarrow> ret () | Inr c' \<Rightarrow> set_cfg c') (\<lambda>_.
     seq regenerate (\<lambda>_.
     seq (effective st) (\<lambda>eff.
     seq (run_hook hooks key) (\<lambda>_. ret eff))))))))"
    by (intro keeps_seq keeps_seq_gets keeps_ignore keeps_cfg_calls keeps_set_active keeps_regenerate
        keeps_effective keeps_hook [OF hooks] keeps_ret) (simp add: cfg_ok_def)
qed

lemma keeps_sync_setting: "st \<in> set settings \<Longrightarrow> keeps cfg_ok (sync_setting st)"
  unfolding sync_setting_def
proof (intro keeps_if keeps_ret keeps_seq_gets)
  fix s :: "'z store_world_scheme"
  assume st: "st \<in> set settings" and ok: "cfg_ok s"
  then have new: "accepted c'" if "st_set st (sw_cfg s) v = Inr c'" for v c'
    using accepted_set [OF _ st that] by (simp add: cfg_ok_def)
  show "keeps cfg_ok (case (sw_cfg s, sw_active s) of (c, active) \<Rightarrow>
      if st_key st \<in> set active then db_call (q_set_setting (st_key st) (st_get st c))
      else seq (attempt (db_call (q_get_setting (st_key st)))) (\<lambda>r. case r of
            Inl _ \<Rightarrow> ret ()
          | Inr v \<Rightarrow> if v = [] then ret ()
              else (case st_set st c v of
                  Inl e \<Rightarrow> fail (ErrWrap (''stored setting '' @ st_key st @ ''='' @ quoted v @ '' is invalid'') e)
                | Inr c' \<Rightarrow> set_cfg c')))"
    unfolding prod.case
    by (intro keeps_if keeps_seq keeps_attempt keeps_cfg_calls keeps_case_sum keeps_ret keeps_fail keeps_set_cfg) (rule new)
qed

lemma keeps_sync: "keeps cfg_ok sync_settings"
  unfolding sync_settings_def by (intro keeps_seq keeps_for_each keeps_sync_setting keeps_regenerate)

lemma keeps_reset: "hooks_keep hooks \<Longrightarrow> keeps cfg_ok (reset_settings hooks)"
  unfolding reset_settings_def list_settings_def
  by (intro keeps_seq keeps_for_each keeps_map_act keeps_effective keeps_ignore keeps_unset_setting)

text \<open>Any sequence of operations on the store.\<close>

datatype store_op = OpSync | OpSet string string | OpUnset string | OpReset

fun store_step :: "(string \<Rightarrow> ('z store_world_scheme \<Rightarrow> 'z store_world_scheme) option) \<Rightarrow> store_op \<Rightarrow> ('z store_world_scheme, unit) act" where
  "store_step hooks OpSync = sync_settings"
| "store_step hooks (OpSet key v) = seq (set_setting hooks key v) (\<lambda>_. ret ())"
| "store_step hooks (OpUnset key) = seq (unset_setting hooks key) (\<lambda>_. ret ())"
| "store_step hooks OpReset = reset_settings hooks"

definition store_run :: "(string \<Rightarrow> ('z store_world_scheme \<Rightarrow> 'z store_world_scheme) option) \<Rightarrow> store_op list \<Rightarrow> 'z store_world_scheme \<Rightarrow> 'z store_world_scheme" where
  "store_run hooks ops w = fold (\<lambda>op w. snd (store_step hooks op w)) ops w"

lemma keeps_step: "hooks_keep hooks \<Longrightarrow> keeps cfg_ok (store_step hooks op)"
  by (cases op) (auto intro: keeps_intros keeps_sync keeps_set_setting keeps_unset_setting keeps_reset)

text \<open>
  Whatever operations are run on the store, in any order and with any call failing, every setting's
  value in force is one its own check accepts and would store unchanged, if that holds at the start.
\<close>

theorem store_keeps_accepted:
  assumes "hooks_keep hooks" "accepted (sw_cfg w)"
  shows "accepted (sw_cfg (store_run hooks ops w))"
proof -
  have "cfg_ok w \<Longrightarrow> cfg_ok (store_run hooks ops w)" for w
    unfolding store_run_def
  proof (induction ops arbitrary: w)
    case (Cons op ops)
    have "cfg_ok (snd (store_step hooks op w))" using keeps_step [OF assms(1)] Cons.prems by (simp add: keeps_def)
    then show ?case using Cons.IH by simp
  qed simp
  then show ?thesis using assms(2) by (simp add: cfg_ok_def)
qed

lemma default_config_trimmed:
  "list_all (\<lambda>g. trim_space (g default_config) = g default_config) [cfg_data_dir, cfg_http_addr, cfg_db_path, cfg_jar_cache_dir, cfg_media_dir, cfg_downloads_dir, cfg_local_source_dir, cfg_sandbox_jar_path, cfg_sandbox_addr, cfg_sandbox_ext_dir, cfg_sandbox_storage_dir, cfg_api_token, cfg_pprof_addr, cfg_public_url, cfg_anilist_client_id, cfg_mal_client_id, cfg_mal_client_secret, cfg_cloudflare_solver_mode, cfg_cloudflare_solver_url, cfg_content_filter_level, cfg_manga_download_format]"
  by code_simp

lemma default_config_accepted: "accepted default_config"
proof -
  have small: "parse_int64 (int_digits n) = Some n" if "0 \<le> n" "n \<le> 100000" for n
    by (rule parse_int_digits_range) (use that in \<open>simp_all add: int64_min_def int64_max_def\<close>)
  have enum: "to_lower ''disabled'' = ''disabled''" "to_lower ''moderate'' = ''moderate''" "to_lower ''loose'' = ''loose''"
    by code_simp+
  have vals: "cfg_cloudflare_solver_mode default_config = ''disabled''" "cfg_content_filter_level default_config = ''moderate''"
    "cfg_manga_download_format default_config = ''loose''" "cfg_sandbox_port default_config = 50051"
    "cfg_sandbox_heap_mb default_config = 0" "cfg_idle_timeout_min default_config = 15" "cfg_tracker_poll_hours default_config = 6"
    "cfg_backup_interval_hours default_config = 24" "cfg_backup_retention_count default_config = 7"
    by (simp_all add: default_config_def)
  show ?thesis
    unfolding accepted_iff settings_def
    using default_config_trimmed by (simp add: config_update_same enum vals small)
qed

section \<open>A save survives a restart\<close>

text \<open>The keys of the active lines, in the order of the table.\<close>

definition written :: "string list \<Rightarrow> config \<Rightarrow> string list" where
  "written active c = map st_key (filter (active_line active c) settings)"

lemma lookup_setting_key: "s \<in> set settings \<Longrightarrow> lookup_setting (st_key s) = Some s"
  unfolding lookup_setting_def by (rule distinct_key_find [OF settings_keys_differ])

lemma editable_get_data_dir: "s \<in> set settings \<Longrightarrow> st_editable s \<Longrightarrow> st_get s (c\<lparr>cfg_data_dir := x\<rparr>) = st_get s c"
  unfolding settings_def by (simp, elim disjE; simp)

text \<open>Settings that are written keep their value when the rest is put under the data directory.\<close>

lemma apply_data_dir_get: "s \<in> set settings \<Longrightarrow> st_key s \<in> set active \<Longrightarrow> st_get s (apply_data_dir active c) = st_get s c"
proof (cases "cfg_data_dir c = []")
  case True
  then show ?thesis by (simp add: apply_data_dir_def)
next
  case False
  have act: "root_dir active d key def name v = v" if "key \<in> set active" for d key def name v
    using that by (simp add: root_dir_def)
  assume "s \<in> set settings" "st_key s \<in> set active"
  then show ?thesis
    using False unfolding settings_def apply_data_dir_def Let_def by (simp, elim disjE; simp add: act)
qed

lemma saved_pairs:
  assumes "accepted c" "plain_config c" "toml_doc (config_document active c) = Some kvs" "s \<in> set settings"
  shows "map_option to_string (map_of kvs (st_key s)) = (if active_line active c s then Some (st_get s c) else None)"
proof -
  let ?xs = "filter (active_line active c) (filter (\<lambda>s. \<not> st_editable s) settings @ filter st_editable settings)"
  have kvs: "kvs = map (pair_of c) ?xs" using document_read [OF assms(1,2)] assms(3) by simp
  have keys: "distinct (map fst kvs)"
  proof -
    have "distinct (map st_key (filter (\<lambda>s. \<not> st_editable s) settings @ filter st_editable settings))"
      by code_simp
    then have "distinct (map st_key ?xs)" by (simp only: distinct_map distinct_filter) (auto simp: inj_on_def)
    moreover have "map fst kvs = map st_key ?xs" by (simp add: kvs pair_of_def)
    ultimately show ?thesis by simp
  qed
  have val: "st_set s c (st_get s c) = Inr c" "list_all plain_char (st_get s c)"
    using assms(1,2,4) by (simp_all add: accepted_iff plain_config_def list_all_iff)
  obtain v where v: "toml_read (toml_value s c) = Some v" "to_string v = st_get s c"
    using value_read [OF assms(4) val] by blast
  show ?thesis
  proof (cases "active_line active c s")
    case True
    then have "pair_of c s \<in> set kvs" using assms(4) by (auto simp: kvs)
    then have "map_of kvs (st_key s) = Some v" using keys v(1) by (simp add: pair_of_def)
    then show ?thesis using True v(2) by simp
  next
    case False
    then have "st_key s \<notin> fst ` set kvs" using cfg.setting_inj [OF assms(4)] by (auto simp: kvs pair_of_def)
    then have "map_of kvs (st_key s) = None" by (simp add: map_of_eq_None_iff)
    then show ?thesis using False by simp
  qed
qed

lemma saved_settings_read:
  assumes "accepted c" "plain_config c" "toml_doc (config_document active c) = Some kvs" "map_of kvs' = map_of kvs"
  shows "read_settings path kvs' settings (default_config\<lparr>cfg_data_dir := x\<rparr>, []) = Inr (c, written active c)"
  unfolding written_def
proof (rule cfg.read_back)
  fix s assume s: "s \<in> set settings"
  show "st_set s c (st_get s c) = Inr c" using assms(1) s by (simp add: accepted_iff)
  show "map_option to_string (map_of kvs' (st_key s)) = (if active_line active c s then Some (st_get s c) else None)"
    using saved_pairs [OF assms(1-3) s] assms(4) by simp
  assume "\<not> active_line active c s"
  then have "st_editable s" "st_get s c = st_get s default_config"
    by (simp_all add: active_line_def default_string_def lookup_setting_key [OF s])
  then show "st_get s (default_config\<lparr>cfg_data_dir := x\<rparr>) = st_get s c"
    using editable_get_data_dir [OF s] by simp
qed

text \<open>After a save the file holds the document.\<close>

lemma regenerate_file:
  assumes "regenerate (w :: 'z store_world_scheme) = (Inr (), w')"
  shows "fs_get (w_fs w') (location (sw_path w)) = Some (FileNode (Bytes (config_document (sw_active w) (sw_cfg w))))"
    "stored w' = stored w"
proof -
  let ?path = "sw_path w" and ?doc = "config_document (sw_active w) (sw_cfg w)"
  obtain w1 where w1: "fs_call (os_mkdir_all (path_dir ?path)) w = (Inr (), w1)"
    and r1: "seq (fs_call (os_write_file (?path @ ''.tmp'') (Bytes ?doc))) (\<lambda>_. fs_call (os_rename (?path @ ''.tmp'') ?path)) w1 = (Inr (), w')"
    using assms by (auto simp: regenerate_def act_simps Let_def split: prod.splits sum.splits)
  obtain w2 where w2: "fs_call (os_write_file (?path @ ''.tmp'') (Bytes ?doc)) w1 = (Inr (), w2)"
    and w3: "fs_call (os_rename (?path @ ''.tmp'') ?path) w2 = (Inr (), w')"
    using r1 by (auto elim!: seq_InrE)
  show "stored w' = stored w" using w1 w2 w3 stored_call(2) by (metis snd_conv)
  from w2 have a: "fs_get (w_fs w2) (location (?path @ ''.tmp'')) = Some (FileNode (Bytes ?doc))"
    by (cases rule: fs_call_cases) (auto simp: os_write_file_def Let_def split: if_splits)
  from w3 show "fs_get (w_fs w') (location ?path) = Some (FileNode (Bytes ?doc))"
    by (cases rule: fs_call_cases) (use a in \<open>auto simp: os_rename_def Let_def split: if_splits\<close>)
qed

lemma load_saved:
  fixes w :: "'z store_world_scheme"
  assumes "reads_toml toml" "accepted c" "plain_config c" "config_path p dd = path" "fault_free w"
    and holds: "fs_get (w_fs w) (location path) = Some (FileNode (Bytes (config_document active c)))"
  shows "load_config zb toml p dd w = (Inr (apply_data_dir (written active c) c, path, written active c), w)"
proof -
  obtain kvs where kvs: "toml_doc (config_document active c) = Some kvs" using document_read [OF assms(2,3)] by blast
  then obtain kvs' where kvs': "toml (config_document active c) = Inr kvs'" "map_of kvs' = map_of kvs"
    using assms(1) unfolding reads_toml_def by blast
  have read: "fs_call (os_read_file path) w = (Inr (Bytes (config_document active c)), w)"
    using holds \<open>fault_free w\<close> by (simp add: fs_call_free os_read_file_def)
  have start: "(if dd \<noteq> [] then default_config\<lparr>cfg_data_dir := dd\<rparr> else default_config) = default_config\<lparr>cfg_data_dir := dd\<rparr>"
    by (simp add: default_config_def)
  show ?thesis
    unfolding load_config_def Let_def assms(4) start
    using read kvs' saved_settings_read [OF assms(2,3) kvs kvs'(2)] by (simp add: act_simps)
qed

text \<open>
  C16: A save that reports success is what the next start reads, for values each setting accepts as they
  are and that are plain text (\<open>plain_config\<close>: printable ASCII and the five control
  characters TOML has a short escape for; of other text Go's \<open>%q\<close> may write what TOML does
  not read), when no call fails at that start and the decoder reads TOML. Loading the file then gives
  the values that were in force, with the data directory's default places filled in for the settings
  whose lines are comments, and exactly the keys of the active lines as set by the file.
\<close>

theorem saved_config_is_read_back:
  fixes w :: "'z store_world_scheme"
  assumes "reads_toml toml" "accepted (sw_cfg w)" "plain_config (sw_cfg w)"
    and save: "regenerate w = (Inr (), w')" and path: "config_path p dd = sw_path w" and "fault_free w'"
  shows "load_config zb toml p dd w' =
    (Inr (apply_data_dir (written (sw_active w) (sw_cfg w)) (sw_cfg w), sw_path w, written (sw_active w) (sw_cfg w)), w')"
  by (rule load_saved [OF assms(1-3) path \<open>fault_free w'\<close> regenerate_file(1) [OF save]])

lemma effective_value:
  assumes "effective st (w :: 'z store_world_scheme) = (Inr eff, w')"
  shows "ef_value eff = st_get st (sw_cfg w)" "w_fs w' = w_fs w" "stored w' = stored w"
proof -
  show "ef_value eff = st_get st (sw_cfg w)"
    using assms by (auto simp: effective_def seq_eq_Inr gets_def ret_def)
  have fs: "keeps (\<lambda>u :: 'z store_world_scheme. w_fs u = w_fs w) (effective st)"
    unfolding effective_def by (intro keeps_intros)
  show "w_fs w' = w_fs w" by (rule keepsD [OF fs refl assms])
  have st: "keeps (\<lambda>u :: 'z store_world_scheme. stored u = stored w) (effective st)"
    unfolding effective_def by (intro keeps_intros)
  show "stored w' = stored w" by (rule keepsD [OF st refl assms])
qed

text \<open>
  C17: A setting that was set keeps its value: when \<open>Set\<close>, with no hook registered for the
  key, returns without an error, the next start finds the key in the file and gives the setting the
  value \<open>Set\<close> returned, wherever the data directory is. The values in force are ones the
  settings accept as they are, and plain text afterwards (\<open>plain_config\<close>); no call fails at
  the next start, and the decoder reads TOML.
\<close>

theorem set_survives_restart:
  fixes w :: "'z store_world_scheme"
  assumes "reads_toml toml" "accepted (sw_cfg w)"
    and set: "set_setting (\<lambda>_. None) key v w = (Inr eff, w')"
    and "plain_config (sw_cfg w')" "config_path p dd = sw_path w" "fault_free w'"
  shows "case load_config zb toml p dd w' of
      (Inr (c, path, keys), _) \<Rightarrow> path = sw_path w \<and> key \<in> set keys \<and>
        (case lookup_setting key of Some st \<Rightarrow> st_get st c = ef_value eff | None \<Rightarrow> False)
    | (Inl _, _) \<Rightarrow> False"
proof -
  obtain st w0 where "editable_setting key w = (Inr st, w0)"
    and r0: "(seq (gets sw_cfg) (\<lambda>c. case st_set st c v of Inl e \<Rightarrow> fail e
     | Inr c' \<Rightarrow> seq (set_cfg c') (\<lambda>_.
         seq (db_call (q_set_setting key (st_get st c'))) (\<lambda>_.
         seq (modify (\<lambda>w. w\<lparr>sw_active := List.insert key (sw_active w)\<rparr>)) (\<lambda>_.
         seq regenerate (\<lambda>_. seq (effective st) (\<lambda>eff. seq (run_hook (\<lambda>_. None) key) (\<lambda>_. ret eff)))))))) w0 = (Inr eff, w')"
    using set unfolding set_setting_def by (rule seq_InrE)
  then have st: "st \<in> set settings" "st_key st = key" "w0 = w" using editable_result by blast+
  obtain c' where c': "st_set st (sw_cfg w) v = Inr c'"
    and r1: "seq (db_call (q_set_setting key (st_get st c'))) (\<lambda>_.
         seq (modify (\<lambda>w. w\<lparr>sw_active := List.insert key (sw_active w)\<rparr>)) (\<lambda>_.
         seq regenerate (\<lambda>_. seq (effective st) (\<lambda>eff. seq (run_hook (\<lambda>_. None) key) (\<lambda>_. ret eff))))) (w\<lparr>sw_cfg := c'\<rparr>) = (Inr eff, w')"
    using r0 st(3) by (auto simp: seq_eq_Inr gets_def set_cfg_def modify_def fail_def split: sum.splits)
  obtain w2 where w2: "db_call (q_set_setting key (st_get st c')) (w\<lparr>sw_cfg := c'\<rparr>) = (Inr (), w2)"
    and r2: "seq regenerate (\<lambda>_. seq (effective st) (\<lambda>eff. seq (run_hook (\<lambda>_. None) key) (\<lambda>_. ret eff)))
       (w2\<lparr>sw_active := List.insert key (sw_active w2)\<rparr>) = (Inr eff, w')"
    using r1 by (auto simp: seq_eq_Inr modify_def)
  let ?w3 = "w2\<lparr>sw_active := List.insert key (sw_active w2)\<rparr>"
  obtain w4 where w4: "regenerate ?w3 = (Inr (), w4)" and w5: "effective st w4 = (Inr eff, w')"
    using r2 by (auto simp: seq_eq_Inr run_hook_def ret_def)
  have "stored w2 = (c', sw_path w, sw_active w)"
    using stored_call(1) [of "q_set_setting key (st_get st c')" "w\<lparr>sw_cfg := c'\<rparr>"] w2 by (simp add: stored_def)
  then have w3: "sw_cfg ?w3 = c'" "sw_path ?w3 = sw_path w" "key \<in> set (sw_active ?w3)" by (simp_all add: stored_def)
  note eff = effective_value [OF w5]
  have "stored w' = stored ?w3" using eff(3) regenerate_file(2) [OF w4] by simp
  then have cfg': "sw_cfg w' = c'" "sw_cfg w4 = c'" using w3 eff(3) by (simp_all add: stored_def)
  have holds: "fs_get (w_fs w') (location (sw_path w)) = Some (FileNode (Bytes (config_document (sw_active ?w3) c')))"
    using regenerate_file(1) [OF w4] eff(2) w3 by simp
  have "accepted c'" by (rule accepted_set [OF assms(2) st(1) c'])
  moreover have "plain_config c'" using assms(4) cfg' by simp
  ultimately have load: "load_config zb toml p dd w' =
      (Inr (apply_data_dir (written (sw_active ?w3) c') c', sw_path w, written (sw_active ?w3) c'), w')"
    by (rule load_saved [OF assms(1) _ _ assms(5,6) holds])
  have key: "key \<in> set (written (sw_active ?w3) c')"
    using st(1,2) w3(3) by (force simp: written_def active_line_def)
  then have "st_get st (apply_data_dir (written (sw_active ?w3) c') c') = ef_value eff"
    using apply_data_dir_get [OF st(1)] st(2) eff(1) cfg' by simp
  then show ?thesis using load key lookup_setting_key [OF st(1)] st(2) by simp
qed

section \<open>A store at work\<close>

definition fragment_decoder :: toml_decoder where
  "fragment_decoder doc = (case toml_doc doc of Some kvs \<Rightarrow> Inr kvs | None \<Rightarrow> Inl (ErrExternal ''toml''))"

lemma fragment_decoder_reads: "reads_toml fragment_decoder"
  by (simp add: reads_toml_def fragment_decoder_def)

definition demo_store :: store_world where
  "demo_store = \<lparr>w_db = empty_db, w_now = 3, w_faults = [], w_fs = [], sw_cfg = default_config, sw_path = ''t.toml'', sw_active = []\<rparr>"

lemma plain_chars: "plain_char c \<longleftrightarrow> comment_char c \<or> c \<in> set [CHR 0x08, CHR 0x0A, CHR 0x0C, CHR 0x0D]"
  by (auto simp: plain_char_def comment_char_def)

lemma default_config_plain: "plain_config default_config"
proof -
  have int: "list_all plain_char (int_digits n)" and bool: "list_all plain_char (bool_text b)" for n b
    using printable_int [of n] printable_bool [of b] by (simp_all add: printable_def plain_char_def list_all_iff)
  show ?thesis
    unfolding plain_config_def settings_def
    by (simp add: int bool default_config_def plain_chars comment_char_bits)
qed

lemma demo_paths:
  "location (path_dir ''t.toml'') = (False, [])" "location ''t.toml'' = (False, [''t.toml''])"
  "location ''t.toml.tmp'' = (False, [''t.toml.tmp''])" "parent (False, [''t.toml'']) = (False, [])"
  "parent (False, [''t.toml.tmp'']) = (False, [])"
  by code_simp+

lemma demo_regenerate:
  assumes "w_faults (w :: store_world) = []" "w_fs w = []" "sw_path w = ''t.toml''"
  shows "regenerate w = (Inr (), w\<lparr>w_fs := [((False, [''t.toml'']), FileNode (Bytes (config_document (sw_active w) (sw_cfg w))))]\<rparr>)"
  using assms demo_paths
  by (simp add: regenerate_def seq_def gets_def Let_def fs_call_free os_mkdir_all_def os_write_file_def os_rename_def
      is_dir_def fs_get_def fs_put_def fs_drop_def)

theorem saved_config_is_read_back_witness:
  "\<exists>w'. regenerate demo_store = (Inr (), w') \<and>
     load_config (\<lambda>_. []) fragment_decoder ''t.toml'' [] w' = (Inr (apply_data_dir (written [] default_config) default_config, ''t.toml'', written [] default_config), w')"
proof -
  let ?w' = "demo_store\<lparr>w_fs := [((False, [''t.toml'']), FileNode (Bytes (config_document [] default_config)))]\<rparr>"
  have s: "sw_cfg demo_store = default_config" "sw_path demo_store = ''t.toml''" "sw_active demo_store = []" "w_faults demo_store = []" "w_fs demo_store = []"
    by (simp_all add: demo_store_def)
  have r: "regenerate demo_store = (Inr (), ?w')" using demo_regenerate [of demo_store] s by simp
  have "load_config (\<lambda>_. []) fragment_decoder ''t.toml'' [] ?w' =
     (Inr (apply_data_dir (written (sw_active demo_store) (sw_cfg demo_store)) (sw_cfg demo_store), sw_path demo_store, written (sw_active demo_store) (sw_cfg demo_store)), ?w')"
    by (rule saved_config_is_read_back [OF fragment_decoder_reads _ _ r])
      (simp_all add: s default_config_accepted default_config_plain config_path_def)
  then show ?thesis using r s by auto
qed

theorem store_keeps_accepted_witness:
  "accepted (sw_cfg (store_run (\<lambda>_. None) [OpSet ''media_dir'' ''  /m  '', OpSync, OpUnset ''media_dir''] demo_store))"
  by (rule store_keeps_accepted) (simp_all add: hooks_keep_def demo_store_def default_config_accepted)

definition demo_config :: config where
  "demo_config = default_config\<lparr>cfg_media_dir := ''/m''\<rparr>"

lemma demo_config_plain: "plain_config demo_config"
proof -
  have int: "list_all plain_char (int_digits n)" and bool: "list_all plain_char (bool_text b)" for n b
    using printable_int [of n] printable_bool [of b] by (simp_all add: printable_def plain_char_def list_all_iff)
  show ?thesis
    unfolding plain_config_def settings_def
    by (simp add: int bool demo_config_def default_config_def plain_chars comment_char_bits)
qed

lemma media_dir_setting: "lookup_setting ''media_dir'' = Some s_media_dir" "st_editable s_media_dir"
  "st_set s_media_dir default_config '' /m '' = Inr demo_config"
proof -
  have "s_media_dir \<in> set settings" by (simp add: settings_def)
  from lookup_setting_key [OF this] show "lookup_setting ''media_dir'' = Some s_media_dir" by simp
  have "trim_space '' /m '' = ''/m''" by code_simp
  then show "st_set s_media_dir default_config '' /m '' = Inr demo_config" by (simp add: demo_config_def)
qed simp

lemma demo_set:
  "\<exists>eff w'. set_setting (\<lambda>_. None) ''media_dir'' '' /m '' demo_store = (Inr eff, w') \<and> fault_free w' \<and>
     ef_value eff = ''/m'' \<and> sw_cfg w' = demo_config"
proof -
  obtain d where d: "q_set_setting ''media_dir'' ''/m'' 3 empty_db = (Inr (), d)"
    by (cases "q_set_setting ''media_dir'' ''/m'' 3 empty_db") (auto simp: q_set_setting_def exec_def)
  let ?w1 = "demo_store\<lparr>sw_cfg := demo_config\<rparr>" and ?w2 = "demo_store\<lparr>sw_cfg := demo_config, w_db := d\<rparr>"
  let ?w3 = "demo_store\<lparr>sw_cfg := demo_config, w_db := d, sw_active := [''media_dir'']\<rparr>"
  let ?w4 = "?w3\<lparr>w_fs := [((False, [''t.toml'']), FileNode (Bytes (config_document [''media_dir''] demo_config)))]\<rparr>"
  have sel: "sw_cfg demo_store = default_config" "sw_active demo_store = []" by (simp_all add: demo_store_def)
  have get: "cfg_media_dir demo_config = ''/m''" by (simp add: demo_config_def)
  have a: "editable_setting ''media_dir'' demo_store = (Inr s_media_dir, demo_store)"
    unfolding editable_setting_def media_dir_setting(1) by (simp add: seq_def gets_def ret_def)
  have b: "db_call (q_set_setting ''media_dir'' ''/m'') ?w1 = (Inr (), ?w2)"
    using d by (simp add: db_call_free demo_store_def)
  have c: "regenerate ?w3 = (Inr (), ?w4)"
    using demo_regenerate [of ?w3] by (simp add: demo_store_def)
  obtain eff where e: "effective s_media_dir ?w4 = (Inr eff, ?w4)"
    by (simp add: effective_def seq_def gets_def ret_def demo_store_def)
  have "ef_value eff = ''/m''" using effective_value(1) [OF e] get by simp
  moreover have "set_setting (\<lambda>_. None) ''media_dir'' '' /m '' demo_store = (Inr eff, ?w4)"
    unfolding set_setting_def seq_Inr [where m = "editable_setting ''media_dir''" and s = demo_store, OF a]
    using b c e
    by (simp add: seq_def gets_def set_cfg_def modify_def ret_def run_hook_def get media_dir_setting(3) sel List.insert_def)
  moreover have "fault_free ?w4" by (simp add: demo_store_def)
  ultimately show ?thesis by fastforce
qed

theorem set_survives_restart_witness:
  "\<exists>eff w'. set_setting (\<lambda>_. None) ''media_dir'' '' /m '' demo_store = (Inr eff, w') \<and> ef_value eff = ''/m'' \<and>
     (case load_config (\<lambda>_. []) fragment_decoder ''t.toml'' [] w' of
      (Inr (c, path, keys), _) \<Rightarrow> path = sw_path demo_store \<and> ''media_dir'' \<in> set keys \<and>
        (case lookup_setting ''media_dir'' of Some st \<Rightarrow> st_get st c = ef_value eff | None \<Rightarrow> False)
    | (Inl _, _) \<Rightarrow> False)"
proof -
  obtain eff w' where s: "set_setting (\<lambda>_. None) ''media_dir'' '' /m '' demo_store = (Inr eff, w')"
    "fault_free w'" "ef_value eff = ''/m''" "sw_cfg w' = demo_config" using demo_set by blast
  have r: "case load_config (\<lambda>_. []) fragment_decoder ''t.toml'' [] w' of
      (Inr (c, path, keys), _) \<Rightarrow> path = sw_path demo_store \<and> ''media_dir'' \<in> set keys \<and>
        (case lookup_setting ''media_dir'' of Some st \<Rightarrow> st_get st c = ef_value eff | None \<Rightarrow> False)
    | (Inl _, _) \<Rightarrow> False"
    by (rule set_survives_restart [OF fragment_decoder_reads _ s(1)])
      (simp_all add: s demo_config_plain config_path_def demo_store_def default_config_accepted)
  show ?thesis by (intro exI [of _ eff] exI [of _ w'] conjI s(1,3) r)
qed

text \<open>
  The places under the data directory are no defaults: after the first save they stand in the file as
  active lines, and starting with another data directory leaves them in the old one.
\<close>

theorem data_dir_places_are_pinned:
  "active_line [] (apply_data_dir [] (default_config\<lparr>cfg_data_dir := ''/a''\<rparr>)) s_media_dir"
  by code_simp

text \<open>A call that fails to store the value has put it in force all the same.\<close>

theorem failed_set_is_in_force:
  "let (r, w') = set_setting (\<lambda>_. None) ''media_dir'' ''/n'' (demo_store\<lparr>w_faults := [Some (ErrExternal ''locked'')]\<rparr>)
   in (case r of Inl _ \<Rightarrow> True | Inr _ \<Rightarrow> False) \<and> cfg_media_dir (sw_cfg w') = ''/n'' \<and> w_fs w' = []"
  by code_simp

end
