(* ===== verification/Tokens.thy ===== *)
theory Tokens
  imports Sha1
begin

text \<open>
  What a session token is made of: SHA-256 (\<open>crypto/sha256\<close>) on 32-bit words, the keyed sum HMAC
  (\<open>crypto/hmac\<close>), and base64 in the URL alphabet without padding (\<open>base64.RawURLEncoding\<close>).
\<close>

section \<open>SHA-256\<close>

definition rotr32 :: "nat \<Rightarrow> w32 \<Rightarrow> w32" where
  "rotr32 n x = drop_bit n x OR push_bit (32 - n) x"

text \<open>
  The round constants are the first 32 bits of the fractions of the cube roots of the first 64 primes, the
  initial state those of the square roots of the first eight; both are computed.
\<close>

fun root_bits :: "nat \<Rightarrow> int \<Rightarrow> nat \<Rightarrow> int \<Rightarrow> int" where
  "root_bits e n 0 r = r"
| "root_bits e n (Suc b) r = (let r' = r + 2 ^ b in root_bits e n b (if r' ^ e \<le> n then r' else r))"

text \<open>The first 32 bits of the fraction of the e-th root of p.\<close>

definition root_fraction :: "nat \<Rightarrow> int \<Rightarrow> w32" where
  "root_fraction e p = word_of_int (root_bits e (p * 2 ^ (32 * e)) 40 0)"

definition small_primes :: "int list" where
  "small_primes = filter (\<lambda>n. list_all (\<lambda>d. n mod d \<noteq> 0) [2..min (n - 1) 17]) [2..311]"

definition sha256_k :: "w32 list" where
  "sha256_k = map (root_fraction 3) small_primes"

fun schedule256 :: "nat \<Rightarrow> w32 list \<Rightarrow> w32 list" where
  "schedule256 0 ws = ws"
| "schedule256 (Suc k) ws =
     (let i = length ws;
          x = ws ! (i - 15); y = ws ! (i - 2);
          s0 = rotr32 7 x XOR rotr32 18 x XOR drop_bit 3 x;
          s1 = rotr32 17 y XOR rotr32 19 y XOR drop_bit 10 y
      in schedule256 k (ws @ [ws ! (i - 16) + s0 + ws ! (i - 7) + s1]))"

type_synonym sha256_state = "w32 \<times> w32 \<times> w32 \<times> w32 \<times> w32 \<times> w32 \<times> w32 \<times> w32"

definition sha256_round :: "w32 \<times> w32 \<Rightarrow> sha256_state \<Rightarrow> sha256_state" where
  "sha256_round kw st = (case kw of (k, w) \<Rightarrow> case st of (a, b, c, d, e, f, g, h) \<Rightarrow>
     (let t1 = h + (rotr32 6 e XOR rotr32 11 e XOR rotr32 25 e) + ((e AND f) XOR (NOT e AND g)) + k + w;
          t2 = (rotr32 2 a XOR rotr32 13 a XOR rotr32 22 a) + ((a AND b) XOR (a AND c) XOR (b AND c))
      in (t1 + t2, a, b, c, d + t1, e, f, g)))"

definition sha256_block :: "string \<Rightarrow> sha256_state \<Rightarrow> sha256_state" where
  "sha256_block blk st =
     (let ws = schedule256 48 (map be_word (chunks_of 4 blk));
          (a, b, c, d, e, f, g, h) = fold sha256_round (zip sha256_k ws) st
      in case st of (h0, h1, h2, h3, h4, h5, h6, h7) \<Rightarrow>
        (h0 + a, h1 + b, h2 + c, h3 + d, h4 + e, h5 + f, h6 + g, h7 + h))"

definition sha256_init :: sha256_state where
  "sha256_init = (case map (root_fraction 2) (take 8 small_primes) of
       [a, b, c, d, e, f, g, h] \<Rightarrow> (a, b, c, d, e, f, g, h)
     | _ \<Rightarrow> (0, 0, 0, 0, 0, 0, 0, 0))"

definition sha256 :: "string \<Rightarrow> string" where
  "sha256 s = (case fold sha256_block (chunks_of 64 (sha1_pad s))
        sha256_init
     of (a, b, c, d, e, f, g, h) \<Rightarrow> concat (map (\<lambda>w. be_bytes 4 (uint w)) [a, b, c, d, e, f, g, h]))"

definition xor_byte :: "nat \<Rightarrow> char \<Rightarrow> char" where
  "xor_byte k c = char_of (ch c XOR k)"

definition hmac_key :: "string \<Rightarrow> string" where
  "hmac_key key = (let k = (if length key > 64 then sha256 key else key)
     in k @ replicate (64 - length k) (char_of (0::nat)))"

definition hmac_sha256 :: "string \<Rightarrow> string \<Rightarrow> string" where
  "hmac_sha256 key msg = sha256 (map (xor_byte 0x5c) (hmac_key key) @ sha256 (map (xor_byte 0x36) (hmac_key key) @ msg))"

section \<open>Base64\<close>

definition b64_char :: "nat \<Rightarrow> char" where
  "b64_char n = (if n < 26 then char_of (65 + n) else if n < 52 then char_of (71 + n)
     else if n < 62 then char_of (n - 4) else if n = 62 then CHR ''-'' else CHR ''_'')"

definition b64_val :: "char \<Rightarrow> nat option" where
  "b64_val c = (if is_upper c then Some (ch c - 65) else if is_lower c then Some (ch c - 71)
     else if is_digit c then Some (ch c + 4) else if c = CHR ''-'' then Some 62
     else if c = CHR ''_'' then Some 63 else None)"

fun b64_sextets :: "string \<Rightarrow> nat list" where
  "b64_sextets (a # b # c # s) =
     (let n = ch a * 65536 + ch b * 256 + ch c
      in [n div 262144 mod 64, n div 4096 mod 64, n div 64 mod 64, n mod 64] @ b64_sextets s)"
| "b64_sextets [a, b] =
     (let n = ch a * 65536 + ch b * 256 in [n div 262144 mod 64, n div 4096 mod 64, n div 64 mod 64])"
| "b64_sextets [a] = (let n = ch a * 65536 in [n div 262144 mod 64, n div 4096 mod 64])"
| "b64_sextets [] = []"

definition b64_encode :: "string \<Rightarrow> string" where
  "b64_encode s = map b64_char (b64_sextets s)"

text \<open>The decoder skips line breaks and ignores the unused bits of the last character.\<close>

fun b64_groups :: "nat list \<Rightarrow> string option" where
  "b64_groups (w # x # y # z # s) =
     map_option (\<lambda>t. char_of ((w * 262144 + x * 4096 + y * 64 + z) div 65536) # char_of ((w * 262144 + x * 4096 + y * 64 + z) div 256 mod 256)
        # char_of ((w * 262144 + x * 4096 + y * 64 + z) mod 256) # t) (b64_groups s)"
| "b64_groups [w, x, y] = Some [char_of ((w * 262144 + x * 4096 + y * 64) div 65536), char_of ((w * 262144 + x * 4096 + y * 64) div 256 mod 256)]"
| "b64_groups [w, x] = Some [char_of ((w * 262144 + x * 4096) div 65536)]"
| "b64_groups [w] = None"
| "b64_groups [] = Some []"

definition b64_decode :: "string \<Rightarrow> string option" where
  "b64_decode s = (let t = filter (\<lambda>c. c \<noteq> CHR 0x0A \<and> c \<noteq> CHR 0x0D) s
     in if list_all (\<lambda>c. b64_val c \<noteq> None) t then b64_groups (map (\<lambda>c. the (b64_val c)) t) else None)"

lemma b64_val_char: "n < 64 \<Longrightarrow> b64_val (b64_char n) = Some n"
  by (auto simp: b64_val_def b64_char_def is_upper_def is_lower_def is_digit_def ch_def)

lemma b64_char_not_break: "n < 64 \<Longrightarrow> b64_char n \<noteq> CHR 0x0A \<and> b64_char n \<noteq> CHR 0x0D"
  using b64_val_char [of n] by (auto simp: b64_val_def is_upper_def is_lower_def is_digit_def ch_def)

lemma b64_sextets_small: "list_all (\<lambda>n. n < 64) (b64_sextets s)"
  by (induction s rule: b64_sextets.induct) (simp_all add: Let_def)

lemma sextets_sum:
  fixes n :: nat
  assumes "n < 16777216"
  shows "n div 262144 mod 64 * 262144 + n div 4096 mod 64 * 4096 + n div 64 mod 64 * 64 + n mod 64 = n"
proof -
  have a: "n div 4096 = n div 64 div 64" "n div 262144 = n div 64 div 64 div 64"
    by (simp_all add: div_mult2_eq [symmetric])
  have "n div 64 div 64 div 64 < 64" using assms by (simp add: div_mult2_eq [symmetric] div_less_iff_less_mult)
  then have "n div 64 div 64 div 64 mod 64 = n div 64 div 64 div 64" by simp
  then show ?thesis
    unfolding a using div_mult_mod_eq [of n 64] div_mult_mod_eq [of "n div 64" 64] div_mult_mod_eq [of "n div 64 div 64" 64]
    by linarith
qed

lemma three_bytes:
  fixes a b c :: nat
  assumes "a < 256" "b < 256" "c < 256"
  shows "(a * 65536 + b * 256 + c) div 65536 = a" "(a * 65536 + b * 256 + c) div 256 mod 256 = b"
    "(a * 65536 + b * 256 + c) mod 256 = c" "a * 65536 + b * 256 + c < 16777216"
proof -
  have e: "a * 65536 + b * 256 + c = (a * 256 + b) * 256 + c" by simp
  have d: "((a * 256 + b) * 256 + c) div 256 = a * 256 + b" using assms(3) by (metis div_mult_self3 div_less add_0_right zero_neq_numeral)
  show "(a * 65536 + b * 256 + c) div 256 mod 256 = b" unfolding e d using assms(2) by (metis mod_less mod_mult_self3)
  show "(a * 65536 + b * 256 + c) mod 256 = c" unfolding e using assms(3) by (metis mod_less mod_mult_self3)
  have "n div 65536 = n div 256 div 256" for n :: nat by (simp add: div_mult2_eq [symmetric])
  then show "(a * 65536 + b * 256 + c) div 65536 = a" unfolding e d using assms(2) by (metis e d div_mult_self3 div_less add_0_right zero_neq_numeral)
  show "a * 65536 + b * 256 + c < 16777216" using assms by linarith
qed

lemma char_of_ch [simp]: "char_of (ch c) = c"
  by (simp add: ch_def)

lemma b64_groups_sextets: "b64_groups (b64_sextets s) = Some s"
proof (induction s rule: b64_sextets.induct)
  case (1 a b c s)
  note b = three_bytes [OF ch_less [of a] ch_less [of b] ch_less [of c]]
  show ?case using 1 by (simp only: b64_sextets.simps Let_def append.simps b64_groups.simps sextets_sum [OF b(4)] b(1-3) char_of_ch option.map)
next
  case (2 a b)
  note b = three_bytes [of "ch a" "ch b" 0, unfolded add_0_right, OF ch_less ch_less zero_less_numeral]
  have "(ch a * 65536 + ch b * 256) mod 64 = 0" by (simp add: mod_add_eq [symmetric] mod_mult_eq [symmetric])
  then have "(ch a * 65536 + ch b * 256) div 262144 mod 64 * 262144 + (ch a * 65536 + ch b * 256) div 4096 mod 64 * 4096 +
      (ch a * 65536 + ch b * 256) div 64 mod 64 * 64 = ch a * 65536 + ch b * 256"
    using sextets_sum [of "ch a * 65536 + ch b * 256"] b(4) by linarith
  then show ?case using b by (simp only: b64_sextets.simps Let_def b64_groups.simps char_of_ch)
next
  case (3 a)
  note b = three_bytes [OF ch_less [of a], of 0 0, simplified]
  have "(ch a * 65536) mod 64 = 0" by (simp add: mod_mult_eq [symmetric])
  moreover have "(ch a * 65536) div 64 mod 64 = 0"
  proof -
    have "ch a * 65536 div 64 = ch a * 1024" by simp
    then show ?thesis by (simp add: mod_mult_eq [symmetric])
  qed
  ultimately have "(ch a * 65536) div 262144 mod 64 * 262144 + (ch a * 65536) div 4096 mod 64 * 4096 = ch a * 65536"
    using sextets_sum [of "ch a * 65536"] b by linarith
  moreover have "ch a * 65536 div 65536 = ch a" by simp
  ultimately show ?case by (simp only: b64_sextets.simps Let_def b64_groups.simps char_of_ch)
qed simp

lemma b64_roundtrip: "b64_decode (b64_encode s) = Some s"
proof -
  have small: "n < 64" if "n \<in> set (b64_sextets s)" for n
    using that b64_sextets_small [of s] by (simp add: list_all_iff)
  have "filter (\<lambda>c. c \<noteq> CHR 0x0A \<and> c \<noteq> CHR 0x0D) (b64_encode s) = b64_encode s"
    unfolding b64_encode_def by (rule filter_True) (use small b64_char_not_break in auto)
  moreover have "list_all (\<lambda>c. b64_val c \<noteq> None) (b64_encode s)"
    using small b64_val_char by (simp add: b64_encode_def list_all_iff)
  moreover have "map (\<lambda>c. the (b64_val c)) (b64_encode s) = b64_sextets s"
    unfolding b64_encode_def map_map by (rule map_idI) (use small b64_val_char in simp)
  ultimately show ?thesis using b64_groups_sextets [of s] by (simp add: b64_decode_def)
qed

end
