(* ===== verification/Auth.thy ===== *)
theory Auth
  imports Tokens Settings
begin

text \<open>
  The server's password (\<open>internal/auth/auth.go\<close>) and the check of every request
  (\<open>authMiddleware\<close> in \<open>cmd/server/main.go\<close>). The password's hash and the secret that signs sessions are
  rows of \<open>app_settings\<close>, read once into the manager. bcrypt is a parameter; the random bytes are an argument.
  The clock \<open>w_now\<close> counts seconds.
\<close>

section \<open>The manager\<close>

record auth_world = world +
  aw_hash :: string
  aw_secret :: string
  aw_loaded :: bool

record bcrypt =
  bc_generate :: "string \<Rightarrow> string \<Rightarrow> go_err + string"
  bc_compare :: "string \<Rightarrow> string \<Rightarrow> bool"

definition key_password_hash :: string where "key_password_hash = ''auth_password_hash''"
definition key_session_secret :: string where "key_session_secret = ''auth_session_secret''"

definition session_ttl :: int where "session_ttl = 30 * 24 * 3600"

definition read_key :: "string \<Rightarrow> ('z auth_world_scheme, string) act" where
  "read_key key = seq (attempt (db_call (q_get_setting key))) (\<lambda>r. case r of
     Inr v \<Rightarrow> ret v
   | Inl e \<Rightarrow> if e = ErrNoRows then ret [] else fail e)"

definition new_secret :: "go_err + string \<Rightarrow> ('z auth_world_scheme, string) act" where
  "new_secret rnd = (case rnd of Inl e \<Rightarrow> fail e
   | Inr raw \<Rightarrow> seq (db_call (q_set_setting key_session_secret (b64_encode raw))) (\<lambda>_. ret (b64_encode raw)))"

definition ensure_loaded :: "go_err + string \<Rightarrow> ('z auth_world_scheme, unit) act" where
  "ensure_loaded rnd = seq (gets aw_loaded) (\<lambda>loaded. if loaded then ret () else
     seq (read_key key_password_hash) (\<lambda>hash.
     seq (read_key key_session_secret) (\<lambda>s.
     seq (if s = [] then new_secret rnd else ret s) (\<lambda>secret_str.
     case b64_decode secret_str of
       None \<Rightarrow> fail (ErrWrap ''decode session secret'' (ErrExternal ''illegal base64 data''))
     | Some secret \<Rightarrow> modify (\<lambda>w. w\<lparr>aw_hash := hash, aw_secret := secret, aw_loaded := True\<rparr>)))))"

definition password_set :: "go_err + string \<Rightarrow> ('z auth_world_scheme, bool) act" where
  "password_set rnd = seq (attempt (ensure_loaded rnd)) (\<lambda>r. case r of
     Inl _ \<Rightarrow> ret False
   | Inr _ \<Rightarrow> gets (\<lambda>w. aw_hash w \<noteq> []))"

definition store_hash :: "string \<Rightarrow> ('z auth_world_scheme, unit) act" where
  "store_hash h = seq (db_call (q_set_setting key_password_hash h)) (\<lambda>_. modify (\<lambda>w. w\<lparr>aw_hash := h\<rparr>))"

definition set_password :: "bcrypt \<Rightarrow> go_err + string \<Rightarrow> string \<Rightarrow> string \<Rightarrow> ('z auth_world_scheme, unit) act" where
  "set_password bc rnd salt new = seq (ensure_loaded rnd) (\<lambda>_.
     if new = [] then fail (ErrMsg ''password must not be empty'')
     else (case bc_generate bc salt new of Inl e \<Rightarrow> fail e | Inr h \<Rightarrow> store_hash h))"

definition disable_password :: "go_err + string \<Rightarrow> ('z auth_world_scheme, unit) act" where
  "disable_password rnd = seq (ensure_loaded rnd) (\<lambda>_. store_hash [])"

definition issue_token :: "string \<Rightarrow> int \<Rightarrow> string" where
  "issue_token secret until = (let payload = int_digits until
     in payload @ ''.'' @ b64_encode (hmac_sha256 secret payload))"

definition verify_token :: "string \<Rightarrow> int \<Rightarrow> string \<Rightarrow> bool" where
  "verify_token secret now token = (case cut token (CHR ''.'') of
     None \<Rightarrow> False
   | Some (payload, sig) \<Rightarrow> (case parse_int64 payload of
       None \<Rightarrow> False
     | Some until \<Rightarrow> if now > until then False
         else (case b64_decode sig of None \<Rightarrow> False | Some got \<Rightarrow> hmac_sha256 secret payload = got)))"

definition auth_login :: "bcrypt \<Rightarrow> go_err + string \<Rightarrow> string \<Rightarrow> ('z auth_world_scheme, string \<times> int) act" where
  "auth_login bc rnd password = seq (ensure_loaded rnd) (\<lambda>_.
     seq (gets (\<lambda>w. (aw_hash w, aw_secret w, w_now w))) (\<lambda>(hash, secret, now).
     if hash = [] then fail ErrNoPasswordSet
     else if \<not> bc_compare bc hash password then fail ErrWrongPassword
     else ret (issue_token secret (now + session_ttl), now + session_ttl)))"

definition verify_session :: "go_err + string \<Rightarrow> string \<Rightarrow> ('z auth_world_scheme, bool) act" where
  "verify_session rnd token = seq (attempt (ensure_loaded rnd)) (\<lambda>r. case r of
     Inl _ \<Rightarrow> ret False
   | Inr _ \<Rightarrow> gets (\<lambda>w. aw_hash w \<noteq> [] \<and> verify_token (aw_secret w) (w_now w) token))"

section \<open>The check of a request\<close>

record request =
  rq_method :: string
  rq_path :: string
  rq_authorization :: string
  rq_token :: string

definition open_request :: "request \<Rightarrow> bool" where
  "open_request r \<longleftrightarrow> rq_path r = ''/healthz'' \<or> rq_path r = ''/api/auth/status'' \<or> rq_path r = ''/api/auth/login'' \<or>
     has_prefix (rq_path r) ''/api/tracker/'' \<or> has_prefix (rq_path r) ''/internal/'' \<or> rq_method r = ''OPTIONS''"

definition credential :: "request \<Rightarrow> string" where
  "credential r = (let got = trim_prefix (rq_authorization r) ''Bearer '' in if got = [] then rq_token r else got)"

text \<open>The answer is whether the request goes on to its handler; otherwise it is answered 401.\<close>

definition auth_middleware :: "string \<Rightarrow> go_err + string \<Rightarrow> request \<Rightarrow> ('z auth_world_scheme, bool) act" where
  "auth_middleware token rnd r =
     (if open_request r then ret True
      else seq (password_set rnd) (\<lambda>pw.
        if token = [] \<and> \<not> pw then ret True
        else let got = credential r in
          if got = [] then ret False
          else if token \<noteq> [] \<and> got = token then ret True
          else if pw then verify_session rnd got
          else ret False))"

section \<open>Tokens\<close>

lemma cut_first: "c \<notin> set a \<Longrightarrow> cut (a @ c # b) c = Some (a, b)"
  by (simp add: cut_Some)

lemma int_digits_no_dot: "CHR ''.'' \<notin> set (int_digits n)"
proof
  assume "CHR ''.'' \<in> set (int_digits n)"
  then show False using nat_digits_all_digits [of "CHR ''.''"] by (auto simp: int_digits_def is_digit_def ch_def split: if_splits)
qed

lemma parse_int64_digits:
  assumes "0 \<le> n" "n \<le> int64_max"
  shows "parse_int64 (int_digits n) = Some n"
  using assms parse_int64_nat_digits [of "nat n"] by (simp add: int_digits_def)

text \<open>A token is accepted exactly until its time.\<close>

lemma verify_issued:
  assumes "0 \<le> until" "until \<le> int64_max"
  shows "verify_token secret now (issue_token secret until) \<longleftrightarrow> now \<le> until"
  using cut_first [OF int_digits_no_dot] parse_int64_digits [OF assms]
  by (simp add: verify_token_def issue_token_def Let_def b64_roundtrip)

text \<open>Whatever is accepted carries the keyed sum of an expiry that has not passed.\<close>

lemma verify_token_iff: "verify_token secret now token \<longleftrightarrow>
    (\<exists>payload sig until. token = payload @ CHR ''.'' # sig \<and> CHR ''.'' \<notin> set payload \<and> parse_int64 payload = Some until \<and> now \<le> until \<and>
       b64_decode sig = Some (hmac_sha256 secret payload))"
proof -
  have "verify_token secret now token \<longleftrightarrow>
      (\<exists>payload sig until. cut token (CHR ''.'') = Some (payload, sig) \<and> parse_int64 payload = Some until \<and> now \<le> until \<and>
         b64_decode sig = Some (hmac_sha256 secret payload))"
    by (auto simp: verify_token_def split: option.splits)
  then show ?thesis by (auto simp: cut_Some)
qed

section \<open>What is stored\<close>

definition stored_value :: "db \<Rightarrow> string \<Rightarrow> string" where
  "stored_value d key = (case find (\<lambda>r. se_key r = key) (app_settings d) of Some r \<Rightarrow> se_value r | None \<Rightarrow> [])"

lemma stored_value_set: "stored_value (snd (q_set_setting key v now d)) k = (if k = key then v else stored_value d k)"
  unfolding stored_value_def q_set_setting_def exec_def
  by (auto simp: upsert_find upsert_find_other split: option.split)

lemma set_setting_ok: "fst (q_set_setting key v now d) = Inr ()"
  by (simp add: q_set_setting_def exec_def)

lemma get_setting_value:
  "fst (q_get_setting key now d) = (if find (\<lambda>r. se_key r = key) (app_settings d) = None then Inl ErrNoRows else Inr (stored_value d key))"
  "snd (q_get_setting key now d) = d"
  by (auto simp: q_get_setting_def select_one_def stored_value_def split: option.splits)

lemma keys_differ_auth [simp]: "key_password_hash \<noteq> key_session_secret" "key_session_secret \<noteq> key_password_hash"
  by (simp_all add: key_password_hash_def key_session_secret_def)

text \<open>
  The manager, once loaded, holds what is stored. A failing call reports an error of its own, not the
  absence of a row.
\<close>

definition auth_ok :: "'z auth_world_scheme \<Rightarrow> bool" where
  "auth_ok w \<longleftrightarrow> Some ErrNoRows \<notin> set (w_faults w) \<and>
     (aw_loaded w \<longrightarrow> aw_hash w = stored_value (w_db w) key_password_hash \<and>
       stored_value (w_db w) key_session_secret \<noteq> [] \<and>
       b64_decode (stored_value (w_db w) key_session_secret) = Some (aw_secret w))"

text \<open>The stored secret, once there, is never written again.\<close>

definition secret_is :: "string \<Rightarrow> 'z auth_world_scheme \<Rightarrow> bool" where
  "secret_is k w \<longleftrightarrow> auth_ok w \<and> (k \<noteq> [] \<longrightarrow> stored_value (w_db w) key_session_secret = k)"

text \<open>A call takes the next outcome: it fails and changes nothing, or it runs.\<close>

lemma db_call_outcome:
  fixes w :: "'z auth_world_scheme"
  assumes "db_call q w = (r, w')"
  obtains e fs where "w_faults w = Some e # fs" "r = Inl e" "w' = w\<lparr>w_faults := fs\<rparr>"
    | d fs where "q (w_now w) (w_db w) = (r, d)" "w' = w\<lparr>w_faults := fs, w_db := d\<rparr>" "fs = tl (w_faults w)"
proof (cases "w_faults w")
  case Nil
  obtain x d where q: "q (w_now w) (w_db w) = (x, d)" by fastforce
  then have "r = x" "w' = w\<lparr>w_db := d\<rparr>" using assms Nil by (simp_all add: db_call_def)
  moreover have "w = w\<lparr>w_faults := tl (w_faults w)\<rparr>" using Nil by simp
  ultimately have "w' = w\<lparr>w_faults := tl (w_faults w), w_db := d\<rparr>" by metis
  then show thesis using that(2) q \<open>r = x\<close> by blast
next
  case (Cons f fs)
  show thesis
  proof (cases f)
    case None
    then show thesis using assms Cons that(2) by (auto simp: db_call_def next_fault_def split: prod.splits)
  next
    case (Some e)
    then show thesis using assms Cons that(1) by (auto simp: db_call_def next_fault_def)
  qed
qed

lemma read_key_result:
  fixes w :: "'z auth_world_scheme"
  assumes "auth_ok w" "read_key key w = (r, w')"
  shows "\<exists>fl. w' = w\<lparr>w_faults := fl\<rparr> \<and> set fl \<subseteq> set (w_faults w) \<and> (\<forall>v. r = Inr v \<longrightarrow> v = stored_value (w_db w) key) \<and>
    (fault_free w \<longrightarrow> fl = [] \<and> r = Inr (stored_value (w_db w) key))"
proof -
  obtain x d where q: "q_get_setting key (w_now w) (w_db w) = (x, d)" by fastforce
  have x: "x = Inl ErrNoRows \<and> stored_value (w_db w) key = [] \<or> x = Inr (stored_value (w_db w) key)" and d: "d = w_db w"
    using get_setting_value [of key "w_now w" "w_db w"] q by (auto simp: stored_value_def split: if_splits option.splits)
  obtain y w1 where c: "db_call (q_get_setting key) w = (y, w1)" by fastforce
  then show ?thesis
  proof (cases rule: db_call_outcome)
    case (1 e fs)
    then have "e \<noteq> ErrNoRows" using assms(1) by (auto simp: auth_ok_def)
    then have "r = Inl e" "w' = w\<lparr>w_faults := fs\<rparr>" using assms(2) c 1 by (auto simp: read_key_def act_simps)
    then show ?thesis using 1 by auto
  next
    case (2 d' fs)
    then have "w1 = w\<lparr>w_faults := fs\<rparr>" using q d by simp
    then have "r = Inr (stored_value (w_db w) key)" "w' = w\<lparr>w_faults := fs\<rparr>"
      using assms(2) c x 2 q by (auto simp: read_key_def act_simps)
    moreover have "set fs \<subseteq> set (w_faults w)" using 2(3) by (cases "w_faults w") auto
    ultimately show ?thesis using 2(3) by auto
  qed
qed

text \<open>A statement that stores a value: it runs, or it fails and changes nothing.\<close>

lemma store_value_result:
  fixes w :: "'z auth_world_scheme"
  assumes "db_call (q_set_setting key v) w = (r, w')"
  shows "\<exists>fl d. w' = w\<lparr>w_faults := fl, w_db := d\<rparr> \<and> set fl \<subseteq> set (w_faults w) \<and> (fault_free w \<longrightarrow> fl = [] \<and> r = Inr ()) \<and>
    (if r = Inr () then \<forall>k. stored_value d k = (if k = key then v else stored_value (w_db w) k) else d = w_db w)"
proof -
  obtain d where q: "q_set_setting key v (w_now w) (w_db w) = (Inr (), d)"
    using set_setting_ok [of key v "w_now w" "w_db w"] by (cases "q_set_setting key v (w_now w) (w_db w)") auto
  have sv: "\<forall>k. stored_value d k = (if k = key then v else stored_value (w_db w) k)"
    using stored_value_set [of key v "w_now w" "w_db w"] q by simp
  show ?thesis
    using assms
  proof (cases rule: db_call_outcome)
    case (1 e fs)
    then have "w' = w\<lparr>w_faults := fs, w_db := w_db w\<rparr>" by simp
    then show ?thesis using 1 by (intro exI [of _ fs] exI [of _ "w_db w"]) auto
  next
    case (2 d' fs)
    moreover have "set fs \<subseteq> set (w_faults w)" using 2(3) by (cases "w_faults w") auto
    ultimately show ?thesis using sv q by (intro exI [of _ fs] exI [of _ d]) auto
  qed
qed

text \<open>\<open>rand.Read\<close> fills the 32 bytes or fails.\<close>

definition random_ok :: "go_err + string \<Rightarrow> bool" where
  "random_ok rnd \<longleftrightarrow> (case rnd of Inl _ \<Rightarrow> True | Inr raw \<Rightarrow> length raw = 32)"

lemma b64_encode_nil: "b64_encode s = [] \<longleftrightarrow> s = []"
  using b64_roundtrip [of s] b64_roundtrip [of "[]"] by (auto simp: b64_encode_def)

text \<open>What two worlds of the manager share when only loading happened in between.\<close>

definition same_password :: "'z auth_world_scheme \<Rightarrow> 'z auth_world_scheme \<Rightarrow> bool" where
  "same_password w w' \<longleftrightarrow> w_now w' = w_now w \<and> set (w_faults w') \<subseteq> set (w_faults w) \<and>
     stored_value (w_db w') key_password_hash = stored_value (w_db w) key_password_hash"

lemma new_secret_result:
  fixes w :: "'z auth_world_scheme"
  assumes "random_ok rnd" "new_secret rnd w = (r, w')"
  shows "\<exists>fs d. w' = w\<lparr>w_faults := fs, w_db := d\<rparr> \<and> same_password w w' \<and> (fault_free w \<longrightarrow> fs = []) \<and>
    (case r of Inl _ \<Rightarrow> d = w_db w
     | Inr s \<Rightarrow> s \<noteq> [] \<and> stored_value d key_session_secret = s \<and> b64_decode s \<noteq> None)"
proof (cases rnd)
  case (Inl e)
  then have "w' = w" "r = Inl e" using assms(2) by (simp_all add: new_secret_def act_simps)
  then show ?thesis by (intro exI [of _ "w_faults w"] exI [of _ "w_db w"]) (simp add: same_password_def)
next
  case (Inr raw)
  obtain x w1 where c: "db_call (q_set_setting key_session_secret (b64_encode raw)) w = (x, w1)" by fastforce
  obtain fs d where s: "w1 = w\<lparr>w_faults := fs, w_db := d\<rparr>" "set fs \<subseteq> set (w_faults w)" "fault_free w \<longrightarrow> fs = [] \<and> x = Inr ()"
    "if x = Inr () then \<forall>k. stored_value d k = (if k = key_session_secret then b64_encode raw else stored_value (w_db w) k) else d = w_db w"
    using store_value_result [OF c] by blast
  have raw: "raw \<noteq> []" using assms(1) Inr by (auto simp: random_ok_def)
  have "w' = w1" "r = (case x of Inl e \<Rightarrow> Inl e | Inr _ \<Rightarrow> Inr (b64_encode raw))"
    using assms(2) Inr c by (auto simp: new_secret_def act_simps split: sum.splits)
  then show ?thesis
    using s raw by (intro exI [of _ fs] exI [of _ d]) (cases x; auto simp: same_password_def b64_encode_nil b64_roundtrip)
qed

lemma ensure_loaded_result:
  fixes w :: "'z auth_world_scheme"
  assumes k: "secret_is k w" and rnd: "random_ok rnd" and run: "ensure_loaded rnd w = (r, w')"
  shows "secret_is k w' \<and> same_password w w' \<and> (r = Inr () \<longrightarrow> aw_loaded w') \<and>
    (fault_free w \<longrightarrow> fault_free w' \<and> (k \<noteq> [] \<and> b64_decode k \<noteq> None \<longrightarrow> r = Inr ()))"
proof (cases "aw_loaded w")
  case True
  then have "w' = w" "r = Inr ()" using run by (simp_all add: ensure_loaded_def act_simps)
  then show ?thesis using k True by (simp add: same_password_def)
next
  case False
  have ok: "auth_ok w" using k by (simp add: secret_is_def)
  obtain r1 w1 where c1: "read_key key_password_hash w = (r1, w1)" by fastforce
  obtain f1 where w1: "w1 = w\<lparr>w_faults := f1\<rparr>" "set f1 \<subseteq> set (w_faults w)" "fault_free w \<longrightarrow> f1 = []"
    and r1: "\<forall>v. r1 = Inr v \<longrightarrow> v = stored_value (w_db w) key_password_hash" "fault_free w \<longrightarrow> r1 = Inr (stored_value (w_db w) key_password_hash)"
    using read_key_result [OF ok c1] by blast
  have k1: "secret_is k w1" "auth_ok w1" "\<not> aw_loaded w1" using k False w1 by (auto simp: secret_is_def auth_ok_def)
  show ?thesis
  proof (cases r1)
    case (Inl e)
    then have "w' = w1" "r = Inl e" using run False c1 by (simp_all add: ensure_loaded_def act_simps)
    then show ?thesis using k1 w1 r1(2) Inl by (auto simp: same_password_def)
  next
    case (Inr hash)
    then have hash: "hash = stored_value (w_db w) key_password_hash" using r1(1) by simp
    obtain r2 w2 where c2: "read_key key_session_secret w1 = (r2, w2)" by fastforce
    obtain f2 where w2: "w2 = w1\<lparr>w_faults := f2\<rparr>" "set f2 \<subseteq> set (w_faults w1)" "fault_free w1 \<longrightarrow> f2 = []"
      and r2: "\<forall>v. r2 = Inr v \<longrightarrow> v = stored_value (w_db w1) key_session_secret" "fault_free w1 \<longrightarrow> r2 = Inr (stored_value (w_db w1) key_session_secret)"
      using read_key_result [OF k1(2) c2] by blast
    have k2: "secret_is k w2" "\<not> aw_loaded w2" "same_password w w2" "fault_free w \<longrightarrow> fault_free w2"
      using k1 w1 w2 by (auto simp: secret_is_def auth_ok_def same_password_def)
    show ?thesis
    proof (cases r2)
      case (Inl e)
      then have "w' = w2" "r = Inl e" using run False c1 c2 \<open>r1 = Inr hash\<close> by (simp_all add: ensure_loaded_def act_simps)
      then show ?thesis using k2 w1 r2(2) Inl by auto
    next
      case (Inr s)
      then have s: "s = stored_value (w_db w) key_session_secret" using r2(1) w1 by simp
      obtain r3 w3 where c3: "(if s = [] then new_secret rnd else ret s) w2 = (r3, w3)" by fastforce
      have rest: "(r, w') = (case r3 of Inl e \<Rightarrow> (Inl e, w3) | Inr t \<Rightarrow> (case b64_decode t of
           None \<Rightarrow> (Inl (ErrWrap ''decode session secret'' (ErrExternal ''illegal base64 data'')), w3)
         | Some secret \<Rightarrow> (Inr (), w3\<lparr>aw_hash := hash, aw_secret := secret, aw_loaded := True\<rparr>)))"
        using run False c1 c2 c3 \<open>r1 = Inr hash\<close> Inr
        by (simp add: ensure_loaded_def act_simps split: sum.splits option.splits)
      have w3: "secret_is k w3 \<and> same_password w w3 \<and> (fault_free w \<longrightarrow> fault_free w3) \<and> \<not> aw_loaded w3 \<and>
          (case r3 of Inl _ \<Rightarrow> s = [] | Inr t \<Rightarrow> t \<noteq> [] \<and> stored_value (w_db w3) key_session_secret = t \<and> (s \<noteq> [] \<longrightarrow> t = s))"
      proof (cases "s = []")
        case True
        then have n: "new_secret rnd w2 = (r3, w3)" and "k = []" using c3 k s by (auto simp: secret_is_def)
        obtain fs d where "w3 = w2\<lparr>w_faults := fs, w_db := d\<rparr>" "same_password w2 w3" "fault_free w2 \<longrightarrow> fs = []"
          "case r3 of Inl _ \<Rightarrow> d = w_db w2 | Inr t \<Rightarrow> t \<noteq> [] \<and> stored_value d key_session_secret = t \<and> b64_decode t \<noteq> None"
          using new_secret_result [OF rnd n] by blast
        then show ?thesis using True k2 \<open>k = []\<close> by (auto simp: secret_is_def auth_ok_def same_password_def split: sum.splits)
      next
        case False
        then have "r3 = Inr s" "w3 = w2" using c3 by (simp_all add: act_simps)
        then show ?thesis using False k2 s w1 w2 by simp
      qed
      show ?thesis
      proof (cases r3)
        case (Inl e)
        then have "w' = w3" "r = Inl e" using rest by simp_all
        then show ?thesis using w3 Inl k s by (auto simp: secret_is_def)
      next
        case (Inr t)
        note t = Inr
        show ?thesis
        proof (cases "b64_decode t")
          case None
          then have "w' = w3" "r = Inl (ErrWrap ''decode session secret'' (ErrExternal ''illegal base64 data''))" using rest t by simp_all
          moreover have "k \<noteq> [] \<longrightarrow> t = k" using w3 t by (auto simp: secret_is_def)
          ultimately show ?thesis using w3 None by auto
        next
          case (Some secret)
          then have "w' = w3\<lparr>aw_hash := hash, aw_secret := secret, aw_loaded := True\<rparr>" "r = Inr ()" using rest t by simp_all
          then show ?thesis using w3 Some t hash by (auto simp: secret_is_def auth_ok_def same_password_def)
        qed
      qed
    qed
  qed
qed

end
