(* ===== verification/AuthSessions.thy ===== *)
theory AuthSessions
  imports Auth
begin

text \<open>
  What the password and the sessions of the server promise over time (\<open>internal/auth/auth.go\<close>), and which
  requests \<open>authMiddleware\<close> lets through.
\<close>

section \<open>The manager over time\<close>

lemma store_hash_result:
  fixes w :: "'z auth_world_scheme"
  assumes k: "secret_is k w" and l: "aw_loaded w" and run: "store_hash h w = (r, w')"
  shows "secret_is k w' \<and> aw_loaded w' \<and> w_now w' = w_now w \<and>
    (case r of Inr _ \<Rightarrow> stored_value (w_db w') key_password_hash = h | Inl _ \<Rightarrow> same_password w w')"
proof -
  obtain x w1 where c: "db_call (q_set_setting key_password_hash h) w = (x, w1)" by fastforce
  obtain fs d where s: "w1 = w\<lparr>w_faults := fs, w_db := d\<rparr>" "set fs \<subseteq> set (w_faults w)"
    "if x = Inr () then \<forall>k. stored_value d k = (if k = key_password_hash then h else stored_value (w_db w) k) else d = w_db w"
    using store_value_result [OF c] by blast
  have "w' = (case x of Inl e \<Rightarrow> w1 | Inr _ \<Rightarrow> w1\<lparr>aw_hash := h\<rparr>)" "r = x"
    using run c by (auto simp: store_hash_def act_simps split: sum.splits)
  then show ?thesis using s k l by (cases x) (auto simp: secret_is_def auth_ok_def same_password_def)
qed

text \<open>Every operation first loads: the rest runs on a loaded manager.\<close>

lemma loaded_first:
  fixes w :: "'z auth_world_scheme"
  assumes "secret_is k w" "random_ok rnd" "seq (ensure_loaded rnd) (\<lambda>_. f) w = (r, w')"
  obtains e where "r = Inl e" "secret_is k w'" "same_password w w'"
    | w1 where "secret_is k w1" "same_password w w1" "aw_loaded w1" "f w1 = (r, w')"
proof -
  obtain x w1 where x: "ensure_loaded rnd w = (x, w1)" by fastforce
  note res = ensure_loaded_result [OF assms(1,2) x]
  show thesis
  proof (cases x)
    case (Inl e)
    then show ?thesis using assms(3) x res that(1) by (auto simp: seq_def)
  next
    case (Inr u)
    then show ?thesis using assms(3) x res that(2) by (auto simp: seq_def)
  qed
qed

datatype auth_op = AuthSet string string | AuthDisable | AuthLogin string | AuthVerify string | AuthRestart | AuthWait nat

fun auth_step :: "bcrypt \<Rightarrow> go_err + string \<Rightarrow> auth_op \<Rightarrow> ('z auth_world_scheme, unit) act" where
  "auth_step bc rnd (AuthSet salt p) = ignore (set_password bc rnd salt p)"
| "auth_step bc rnd AuthDisable = ignore (disable_password rnd)"
| "auth_step bc rnd (AuthLogin p) = ignore (auth_login bc rnd p)"
| "auth_step bc rnd (AuthVerify t) = ignore (verify_session rnd t)"
| "auth_step bc rnd AuthRestart = modify (\<lambda>w. w\<lparr>aw_hash := [], aw_secret := [], aw_loaded := False\<rparr>)"
| "auth_step bc rnd (AuthWait n) = modify (\<lambda>w. w\<lparr>w_now := w_now w + int n\<rparr>)"

definition auth_run :: "bcrypt \<Rightarrow> go_err + string \<Rightarrow> auth_op list \<Rightarrow> 'z auth_world_scheme \<Rightarrow> 'z auth_world_scheme" where
  "auth_run bc rnd ops w = fold (\<lambda>op w. snd (auth_step bc rnd op w)) ops w"

definition changes_password :: "auth_op \<Rightarrow> bool" where
  "changes_password op \<longleftrightarrow> (case op of AuthSet _ _ \<Rightarrow> True | AuthDisable \<Rightarrow> True | _ \<Rightarrow> False)"

definition stored_hash :: "'z auth_world_scheme \<Rightarrow> string" where
  "stored_hash w = stored_value (w_db w) key_password_hash"

lemma verify_session_keeps:
  fixes w :: "'z auth_world_scheme"
  assumes "secret_is k w" "random_ok rnd" "verify_session rnd t w = (r, w')"
  shows "secret_is k w' \<and> same_password w w'"
proof -
  obtain x w1 where x: "ensure_loaded rnd w = (x, w1)" by fastforce
  then have "w' = w1" using assms(3) by (auto simp: verify_session_def act_simps split: sum.splits)
  then show ?thesis using ensure_loaded_result [OF assms(1,2) x] by blast
qed

lemma login_keeps:
  fixes w :: "'z auth_world_scheme"
  assumes "secret_is k w" "random_ok rnd" "auth_login bc rnd p w = (r, w')"
  shows "secret_is k w' \<and> same_password w w'"
  using assms(3) unfolding auth_login_def
proof (rule loaded_first [OF assms(1,2)])
  fix w1 :: "'z auth_world_scheme"
  assume w1: "secret_is k w1" "same_password w w1"
    and "seq (gets (\<lambda>w. (aw_hash w, aw_secret w, w_now w))) (\<lambda>(hash, secret, now).
     if hash = [] then fail ErrNoPasswordSet
     else if \<not> bc_compare bc hash p then fail ErrWrongPassword
     else ret (issue_token secret (now + session_ttl), now + session_ttl)) w1 = (r, w')"
  then have "w' = w1" by (auto simp: act_simps split: if_splits)
  then show ?thesis using w1 by simp
qed simp

lemma auth_step_keeps:
  fixes w :: "'z auth_world_scheme"
  assumes k: "secret_is k w" and rnd: "random_ok rnd"
  shows "secret_is k (snd (auth_step bc rnd op w)) \<and> (changes_password op \<or> stored_hash (snd (auth_step bc rnd op w)) = stored_hash w)"
proof (cases op)
  case (AuthSet salt p)
  obtain r w' where run: "set_password bc rnd salt p w = (r, w')" by fastforce
  have "secret_is k w'"
    using run unfolding set_password_def
  proof (rule loaded_first [OF k rnd])
    fix w1 :: "'z auth_world_scheme"
    assume w1: "secret_is k w1" "aw_loaded w1"
      and "(if p = [] then fail (ErrMsg ''password must not be empty'')
        else (case bc_generate bc salt p of Inl e \<Rightarrow> fail e | Inr h \<Rightarrow> store_hash h)) w1 = (r, w')"
    then show ?thesis using store_hash_result [OF w1] by (auto simp: act_simps split: if_splits sum.splits)
  qed simp
  then show ?thesis using AuthSet run by (simp add: ignore_eq changes_password_def)
next
  case AuthDisable
  obtain r w' where run: "disable_password rnd w = (r, w')" by fastforce
  have "secret_is k w'"
    using run unfolding disable_password_def
    by (rule loaded_first [OF k rnd]) (auto dest: store_hash_result)
  then show ?thesis using AuthDisable run by (simp add: ignore_eq changes_password_def)
next
  case (AuthLogin p)
  obtain r w' where "auth_login bc rnd p w = (r, w')" by fastforce
  then show ?thesis using login_keeps [OF k rnd] AuthLogin by (auto simp: ignore_eq same_password_def stored_hash_def)
next
  case (AuthVerify t)
  obtain r w' where "verify_session rnd t w = (r, w')" by fastforce
  then show ?thesis using verify_session_keeps [OF k rnd] AuthVerify by (auto simp: ignore_eq same_password_def stored_hash_def)
qed (use k in \<open>auto simp: act_simps secret_is_def auth_ok_def stored_hash_def\<close>)

lemma auth_run_keeps:
  fixes w :: "'z auth_world_scheme"
  assumes "secret_is k w" "random_ok rnd"
  shows "secret_is k (auth_run bc rnd ops w) \<and> (list_ex changes_password ops \<or> stored_hash (auth_run bc rnd ops w) = stored_hash w)"
  using assms(1)
proof (induction ops arbitrary: w)
  case (Cons op ops)
  note step = auth_step_keeps [OF Cons.prems assms(2), of bc op]
  show ?case using step Cons.IH [OF conjunct1 [OF step]] by (auto simp: auth_run_def)
qed (simp add: auth_run_def)

lemma login_Inr:
  fixes w :: "'z auth_world_scheme"
  assumes "auth_ok w" "random_ok rnd" "auth_login bc rnd p w = (Inr (token, until), w')"
  shows "\<exists>k secret. k \<noteq> [] \<and> secret_is k w' \<and> b64_decode k = Some secret \<and> token = issue_token secret until \<and> until = w_now w + session_ttl"
proof -
  have "secret_is [] w" using assms(1) by (simp add: secret_is_def)
  then show ?thesis
    using assms(3) unfolding auth_login_def
  proof (rule loaded_first [OF _ assms(2)])
    fix w1 :: "'z auth_world_scheme"
    assume w1: "secret_is [] w1" "same_password w w1" "aw_loaded w1"
      and run: "seq (gets (\<lambda>w. (aw_hash w, aw_secret w, w_now w))) (\<lambda>(hash, secret, now).
       if hash = [] then fail ErrNoPasswordSet
       else if \<not> bc_compare bc hash p then fail ErrWrongPassword
       else ret (issue_token secret (now + session_ttl), now + session_ttl)) w1 = (Inr (token, until), w')"
    then have "w' = w1" "token = issue_token (aw_secret w1) until" "until = w_now w1 + session_ttl"
      by (auto simp: act_simps split: if_splits)
    then show ?thesis using w1 by (auto simp: secret_is_def auth_ok_def same_password_def)
  qed simp
qed

text \<open>With no failing call, a stored secret and password decide what a session token is worth.\<close>

lemma verify_session_stored:
  fixes w :: "'z auth_world_scheme"
  assumes "secret_is k w" "k \<noteq> []" "b64_decode k = Some secret" "random_ok rnd" "fault_free w"
  shows "fst (verify_session rnd token w) = Inr (stored_hash w \<noteq> [] \<and> verify_token secret (w_now w) token)"
proof -
  obtain r w' where run: "ensure_loaded rnd w = (r, w')" by fastforce
  have "r = Inr ()" "aw_loaded w'" "secret_is k w'" "same_password w w'"
    using ensure_loaded_result [OF assms(1,4) run] assms(2,3,5) by auto
  then have "aw_hash w' = stored_hash w" "aw_secret w' = secret" "w_now w' = w_now w"
    using assms(2,3) by (auto simp: secret_is_def auth_ok_def same_password_def stored_hash_def)
  then show ?thesis using run \<open>r = Inr ()\<close> by (simp add: verify_session_def act_simps)
qed

text \<open>
  C5: a session lasts. Whatever happens after a login (password changes, other logins, restarts, failing
  calls, time passing), the token it issued is accepted, with no call failing, exactly as long as a password
  is set and its time, 30 days from the login, has not passed.
\<close>

theorem session_lasts_until_expiry:
  fixes w :: "'z auth_world_scheme"
  assumes "auth_ok w" "random_ok rnd" "auth_login bc rnd p w = (Inr (token, until), w1)"
    and "0 \<le> w_now w" "w_now w + session_ttl \<le> int64_max"
    and "w' = auth_run bc rnd ops w1" "fault_free w'"
  shows "until = w_now w + session_ttl \<and>
    fst (verify_session rnd token w') = Inr (stored_hash w' \<noteq> [] \<and> w_now w' \<le> until)"
proof -
  obtain k secret where k: "k \<noteq> []" "secret_is k w1" "b64_decode k = Some secret" "token = issue_token secret until" "until = w_now w + session_ttl"
    using login_Inr [OF assms(1-3)] by blast
  have "secret_is k w'" using auth_run_keeps [OF k(2) assms(2)] assms(6) by simp
  then have "fst (verify_session rnd token w') = Inr (stored_hash w' \<noteq> [] \<and> verify_token secret (w_now w') token)"
    by (rule verify_session_stored [OF _ k(1,3) assms(2,7)])
  moreover have "0 \<le> until" "until \<le> int64_max" using assms(4,5) k(5) by (simp_all add: session_ttl_def)
  ultimately show ?thesis using verify_issued [of until secret "w_now w'"] k(4,5) by simp
qed

lemma login_stored:
  fixes w :: "'z auth_world_scheme"
  assumes "secret_is k w" "k \<noteq> []" "b64_decode k \<noteq> None" "random_ok rnd" "fault_free w"
  shows "fst (auth_login bc rnd p w) = (if stored_hash w = [] then Inl ErrNoPasswordSet
    else if \<not> bc_compare bc (stored_hash w) p then Inl ErrWrongPassword
    else Inr (issue_token (the (b64_decode k)) (w_now w + session_ttl), w_now w + session_ttl))"
proof -
  obtain r w' where run: "ensure_loaded rnd w = (r, w')" by fastforce
  have "r = Inr ()" "aw_loaded w'" "secret_is k w'" "same_password w w'"
    using ensure_loaded_result [OF assms(1,4) run] assms(2,3,5) by auto
  then have "aw_hash w' = stored_hash w" "aw_secret w' = the (b64_decode k)" "w_now w' = w_now w"
    using assms(2,3) by (auto simp: secret_is_def auth_ok_def same_password_def stored_hash_def)
  then show ?thesis using run \<open>r = Inr ()\<close> by (simp add: auth_login_def act_simps)
qed

text \<open>bcrypt: what it generates for a password is no empty text and matches that password.\<close>

definition bcrypt_ok :: "bcrypt \<Rightarrow> bool" where
  "bcrypt_ok bc \<longleftrightarrow> (\<forall>salt p h. bc_generate bc salt p = Inr h \<longrightarrow> h \<noteq> [] \<and> bc_compare bc h p)"

lemma set_password_Inr:
  fixes w :: "'z auth_world_scheme"
  assumes "auth_ok w" "random_ok rnd" "set_password bc rnd salt p w = (Inr (), w')"
  shows "\<exists>k h. k \<noteq> [] \<and> b64_decode k \<noteq> None \<and> secret_is k w' \<and> bc_generate bc salt p = Inr h \<and> stored_hash w' = h"
proof -
  have "secret_is [] w" using assms(1) by (simp add: secret_is_def)
  then show ?thesis
    using assms(3) unfolding set_password_def
  proof (rule loaded_first [OF _ assms(2)])
    fix w1 :: "'z auth_world_scheme"
    assume w1: "secret_is [] w1" "same_password w w1" "aw_loaded w1"
      and run: "(if p = [] then fail (ErrMsg ''password must not be empty'')
        else (case bc_generate bc salt p of Inl e \<Rightarrow> fail e | Inr h \<Rightarrow> store_hash h)) w1 = (Inr (), w')"
    obtain h where h: "bc_generate bc salt p = Inr h" "store_hash h w1 = (Inr (), w')"
      using run by (auto simp: act_simps split: if_splits sum.splits)
    let ?k = "stored_value (w_db w1) key_session_secret"
    have k: "secret_is ?k w1" "?k \<noteq> []" "b64_decode ?k \<noteq> None" using w1 by (auto simp: secret_is_def auth_ok_def)
    then show ?thesis using store_hash_result [OF k(1) w1(3) h(2)] h(1) by (auto simp: stored_hash_def)
  qed simp
qed

text \<open>
  C18: the password that was set last decides who logs in. After \<open>SetPassword\<close> has succeeded, and whatever
  runs after it that does not change the password (logins, restarts, failing calls, time), a login with no
  call failing succeeds exactly with the passwords bcrypt matches with that password's hash.
\<close>

theorem last_password_decides_login:
  fixes w :: "'z auth_world_scheme"
  assumes "auth_ok w" "random_ok rnd" "bcrypt_ok bc" "set_password bc rnd salt p w = (Inr (), w1)"
    and "w' = auth_run bc rnd ops w1" "\<not> list_ex changes_password ops" "fault_free w'"
  shows "\<exists>h. bc_generate bc salt p = Inr h \<and> bc_compare bc h p \<and>
    (case fst (auth_login bc rnd q w') of
      Inr (token, until) \<Rightarrow> bc_compare bc h q \<and> until = w_now w' + session_ttl
    | Inl e \<Rightarrow> \<not> bc_compare bc h q \<and> e = ErrWrongPassword)"
proof -
  obtain k h where k: "k \<noteq> []" "b64_decode k \<noteq> None" "secret_is k w1" and h: "bc_generate bc salt p = Inr h" "stored_hash w1 = h"
    using set_password_Inr [OF assms(1,2,4)] by blast
  have "secret_is k w'" "stored_hash w' = h"
    using auth_run_keeps [OF k(3) assms(2), of bc ops] assms(5,6) h(2) by auto
  moreover have "h \<noteq> []" "bc_compare bc h p" using assms(3) h(1) by (auto simp: bcrypt_ok_def)
  ultimately show ?thesis using login_stored [OF _ k(1,2) assms(2,7), of bc q] h(1) by auto
qed

section \<open>The gate\<close>

text \<open>
  C4: What the server lets through, when no call fails and the stored password and session secret can be
  read: a request reaches its handler exactly if its path is open, or no password and no API token are
  configured, or it carries the configured API token, or a password is set and it carries a session
  token: an expiry that has not passed with the keyed sum of it under the stored secret. (When the
  password cannot be read the gate is not this strict:
  \<open>gate_opens_when_password_unreadable\<close>.)
\<close>

theorem gate_admits_only_credentials:
  fixes w :: "'z auth_world_scheme"
  assumes "auth_ok w" "random_ok rnd" "fault_free w"
    and "stored_value (w_db w) key_session_secret \<noteq> []" "b64_decode (stored_value (w_db w) key_session_secret) = Some secret"
  shows "fst (auth_middleware token rnd r w) = Inr (open_request r \<or> (token = [] \<and> stored_hash w = []) \<or>
    (token \<noteq> [] \<and> credential r = token) \<or>
    (stored_hash w \<noteq> [] \<and> (\<exists>payload sig until. credential r = payload @ CHR ''.'' # sig \<and> CHR ''.'' \<notin> set payload \<and>
       parse_int64 payload = Some until \<and> w_now w \<le> until \<and> b64_decode sig = Some (hmac_sha256 secret payload))))"
proof -
  let ?k = "stored_value (w_db w) key_session_secret"
  have k: "secret_is ?k w" using assms(1) by (simp add: secret_is_def)
  obtain x w1 where run: "ensure_loaded rnd w = (x, w1)" by fastforce
  have x: "x = Inr ()" "aw_loaded w1" "secret_is ?k w1" "same_password w w1" "fault_free w1"
    using ensure_loaded_result [OF k assms(2) run] assms(3-5) by auto
  then have w1: "aw_hash w1 = stored_hash w" "stored_hash w1 = stored_hash w" "w_now w1 = w_now w"
    by (auto simp: secret_is_def auth_ok_def same_password_def stored_hash_def)
  have pw: "password_set rnd w = (Inr (stored_hash w \<noteq> []), w1)"
    using run x w1 by (simp add: password_set_def act_simps)
  have "fst (verify_session rnd (credential r) w1) = Inr (stored_hash w \<noteq> [] \<and> verify_token secret (w_now w) (credential r))"
    using verify_session_stored [OF x(3) assms(4,5,2) x(5)] w1 by simp
  moreover have "\<not> verify_token secret (w_now w) []" by (simp add: verify_token_def)
  ultimately show ?thesis
    unfolding verify_token_iff [symmetric]
    by (auto simp: auth_middleware_def seq_Inr [where m = "password_set rnd", OF pw] Let_def ret_def)
qed

section \<open>The manager at work\<close>

definition demo_bcrypt :: bcrypt where
  "demo_bcrypt = \<lparr>bc_generate = (\<lambda>salt p. if length p > 72 then Inl (ErrExternal ''bcrypt: password too long'') else Inr (CHR ''$'' # p)),
     bc_compare = (\<lambda>h p. h = CHR ''$'' # p)\<rparr>"

lemma demo_bcrypt_ok: "bcrypt_ok demo_bcrypt"
  by (auto simp: bcrypt_ok_def demo_bcrypt_def)

definition demo_random :: "go_err + string" where
  "demo_random = Inr (replicate 32 (CHR ''r''))"

definition demo_secret :: string where "demo_secret = b64_encode ''key''"

definition demo_auth :: auth_world where
  "demo_auth = \<lparr>w_db = empty_db\<lparr>app_settings := [\<lparr>se_key = key_password_hash, se_value = ''$pw'', se_updated_at = 0\<rparr>,
       \<lparr>se_key = key_session_secret, se_value = demo_secret, se_updated_at = 0\<rparr>]\<rparr>,
     w_now = 1000, w_faults = [], aw_hash = ''$pw'', aw_secret = ''key'', aw_loaded = True\<rparr>"

lemma demo_auth_facts:
  "auth_ok demo_auth" "random_ok demo_random" "stored_value (w_db demo_auth) key_session_secret = demo_secret"
  "stored_hash demo_auth = ''$pw''" "demo_secret \<noteq> []" "b64_decode demo_secret = Some ''key''" "w_now demo_auth = 1000" "fault_free demo_auth"
proof -
  show s: "stored_value (w_db demo_auth) key_session_secret = demo_secret" "stored_hash demo_auth = ''$pw''"
    by (simp_all add: stored_hash_def stored_value_def demo_auth_def)
  show n: "demo_secret \<noteq> []" "b64_decode demo_secret = Some ''key''"
    by (simp_all add: demo_secret_def b64_encode_nil b64_roundtrip)
  show "auth_ok demo_auth" unfolding auth_ok_def s(1) n(2) using s(2) n(1)
    by (simp add: stored_hash_def) (simp add: demo_auth_def)
  show "random_ok demo_random" by (simp add: random_ok_def demo_random_def)
qed (simp_all add: demo_auth_def)

lemma demo_login: "auth_login demo_bcrypt demo_random ''pw'' demo_auth = (Inr (issue_token ''key'' (1000 + session_ttl), 1000 + session_ttl), demo_auth)"
  by (simp add: auth_login_def ensure_loaded_def act_simps demo_auth_def demo_bcrypt_def)

text \<open>A password change, and time, after the login.\<close>

definition demo_later :: auth_world where
  "demo_later = auth_run demo_bcrypt demo_random [AuthSet ''salt'' ''new'', AuthWait 100] demo_auth"

lemma demo_later_facts: "fault_free demo_later" "stored_hash demo_later = ''$new''" "w_now demo_later = 1100"
  by (simp_all add: demo_later_def auth_run_def set_password_def ensure_loaded_def act_simps demo_auth_def demo_bcrypt_def store_hash_def
      db_call_free q_set_setting_def exec_def upsert_def update_where_def stored_hash_def stored_value_def)

theorem session_lasts_until_expiry_witness:
  "auth_login demo_bcrypt demo_random ''pw'' demo_auth = (Inr (issue_token ''key'' (1000 + session_ttl), 1000 + session_ttl), demo_auth) \<and>
   fst (verify_session demo_random (issue_token ''key'' (1000 + session_ttl)) demo_later) = Inr True"
proof -
  have "1000 + session_ttl = w_now demo_auth + session_ttl \<and>
    fst (verify_session demo_random (issue_token ''key'' (1000 + session_ttl)) demo_later) = Inr (stored_hash demo_later \<noteq> [] \<and> w_now demo_later \<le> 1000 + session_ttl)"
    by (rule session_lasts_until_expiry [OF demo_auth_facts(1,2) demo_login _ _ demo_later_def demo_later_facts(1)])
      (simp_all add: demo_auth_facts session_ttl_def int64_max_def)
  then show ?thesis using demo_login demo_later_facts by (simp add: session_ttl_def)
qed

lemma demo_set_password: "\<exists>w1. set_password demo_bcrypt demo_random ''salt'' ''new'' demo_auth = (Inr (), w1) \<and>
    fault_free (auth_run demo_bcrypt demo_random [AuthWait 7] w1)"
  by (simp add: auth_run_def set_password_def ensure_loaded_def act_simps demo_auth_def demo_bcrypt_def store_hash_def
      db_call_free q_set_setting_def exec_def)

theorem last_password_decides_login_witness:
  "\<exists>w1. set_password demo_bcrypt demo_random ''salt'' ''new'' demo_auth = (Inr (), w1) \<and>
    fst (auth_login demo_bcrypt demo_random ''pw'' (auth_run demo_bcrypt demo_random [AuthWait 7] w1)) = Inl ErrWrongPassword"
proof -
  obtain w1 where w1: "set_password demo_bcrypt demo_random ''salt'' ''new'' demo_auth = (Inr (), w1)"
    "fault_free (auth_run demo_bcrypt demo_random [AuthWait 7] w1)" using demo_set_password by blast
  have "\<exists>h. bc_generate demo_bcrypt ''salt'' ''new'' = Inr h \<and> bc_compare demo_bcrypt h ''new'' \<and>
    (case fst (auth_login demo_bcrypt demo_random ''pw'' (auth_run demo_bcrypt demo_random [AuthWait 7] w1)) of
      Inr (token, until) \<Rightarrow> bc_compare demo_bcrypt h ''pw'' \<and> until = w_now (auth_run demo_bcrypt demo_random [AuthWait 7] w1) + session_ttl
    | Inl e \<Rightarrow> \<not> bc_compare demo_bcrypt h ''pw'' \<and> e = ErrWrongPassword)"
    by (rule last_password_decides_login [OF demo_auth_facts(1,2) demo_bcrypt_ok w1(1) refl _ w1(2)]) (simp add: changes_password_def)
  then have "fst (auth_login demo_bcrypt demo_random ''pw'' (auth_run demo_bcrypt demo_random [AuthWait 7] w1)) = Inl ErrWrongPassword"
    by (auto simp: demo_bcrypt_def split: sum.splits)
  then show ?thesis using w1(1) by blast
qed

definition demo_request :: request where
  "demo_request = \<lparr>rq_method = ''POST'', rq_path = ''/api/graphql'', rq_authorization = ''Bearer abc'', rq_token = []\<rparr>"

theorem gate_admits_only_credentials_witness:
  "fst (auth_middleware [] demo_random demo_request demo_auth) = Inr False"
proof -
  have s: "stored_value (w_db demo_auth) key_session_secret \<noteq> []" "b64_decode (stored_value (w_db demo_auth) key_session_secret) = Some ''key''"
    by (simp_all add: demo_auth_facts)
  note g = gate_admits_only_credentials [OF demo_auth_facts(1,2,8) s, of "[]" demo_request]
  have "credential demo_request = ''abc''" "\<not> open_request demo_request" by code_simp+
  moreover have "''abc'' \<noteq> payload @ CHR ''.'' # sig" for payload sig
  proof
    assume "''abc'' = payload @ CHR ''.'' # sig"
    then have "CHR ''.'' \<in> set ''abc''" by (metis in_set_conv_decomp)
    then show False by simp
  qed
  ultimately show ?thesis using g demo_auth_facts(4) by simp
qed

text \<open>
  While the password cannot be read, the server takes it for unset: without an API token, a request with
  no credentials reaches its handler.
\<close>

theorem gate_opens_when_password_unreadable:
  "fst (auth_middleware [] demo_random (demo_request\<lparr>rq_authorization := []\<rparr>)
     (demo_auth\<lparr>aw_loaded := False, w_faults := [Some (ErrExternal ''database is locked'')]\<rparr>)) = Inr True"
proof -
  have "\<not> open_request (demo_request\<lparr>rq_authorization := []\<rparr>)" by code_simp
  then show ?thesis
    by (simp add: auth_middleware_def password_set_def ensure_loaded_def read_key_def act_simps demo_auth_def db_call_def next_fault_def)
qed

end
