(* ===== verification/MetadataMatch.thy ===== *)
theory MetadataMatch
  imports GoStrings Float64 Prelude "HOL-Library.Multiset"
begin

text \<open>
  Matching a library title with the answers of a metadata provider (\<open>internal/metadata/metadata.go\<close>) and
  the conversion of AniList's answers (\<open>internal/metadata/anilist.go\<close>). Titles are compared by the Dice
  coefficient of their letter pairs; \<open>dice_coefficient_spec\<close> is that coefficient on multisets.
  Lower-casing is that of ASCII; the JSON text of an answer is a record.
\<close>

section \<open>Candidates\<close>

datatype content_type = CtManga | CtNovel | CtAnime

record candidate =
  ca_provider_id :: string
  ca_url :: string
  ca_primary_title :: string
  ca_titles :: "string list"
  ca_description :: string
  ca_cover_url :: string
  ca_status :: string
  ca_authors :: "string list"
  ca_genres :: "string list"
  ca_tags :: "string list"
  ca_tag_weights :: "int list"
  ca_start_year :: int
  ca_is_adult :: bool

definition no_candidate :: candidate where
  "no_candidate = \<lparr>ca_provider_id = [], ca_url = [], ca_primary_title = [], ca_titles = [], ca_description = [],
     ca_cover_url = [], ca_status = [], ca_authors = [], ca_genres = [], ca_tags = [], ca_tag_weights = [],
     ca_start_year = 0, ca_is_adult = False\<rparr>"

definition auto_apply_score :: f64 where "auto_apply_score = fl (87 / 100)"

section \<open>Titles\<close>

definition title_char :: "char \<Rightarrow> bool" where
  "title_char c \<longleftrightarrow> is_lower c \<or> is_digit c"

text \<open>\<open>nonAlnum.ReplaceAllString(s, " ")\<close>: every maximal run of other characters becomes one space.\<close>

fun squash :: "bool \<Rightarrow> string \<Rightarrow> string" where
  "squash in_run [] = []"
| "squash in_run (c # s) = (if title_char c then c # squash False s
     else if in_run then squash True s else CHR '' '' # squash True s)"

text \<open>\<open>strings.Fields\<close>.\<close>

fun fields_from :: "string \<Rightarrow> string \<Rightarrow> string list" where
  "fields_from w [] = (if w = [] then [] else [w])"
| "fields_from w (c # s) = (if is_space c then (if w = [] then fields_from [] s else w # fields_from [] s)
     else fields_from (w @ [c]) s)"

definition fields :: "string \<Rightarrow> string list" where
  "fields s = fields_from [] s"

definition strip_words :: "string list" where
  "strip_words = [''vol'', ''volume'', ''season'', ''part'', ''the'', ''manga'', ''novel'', ''ln'']"

definition normalize_title :: "string \<Rightarrow> string" where
  "normalize_title s = join '' '' (filter (\<lambda>f. f \<notin> set strip_words) (fields (squash False (to_lower s))))"

section \<open>The Dice coefficient\<close>

definition count_in :: "('k \<times> nat) list \<Rightarrow> 'k \<Rightarrow> ('k \<times> nat) list" where
  "count_in m g = (if g \<in> set (map fst m) then map (\<lambda>(h, n). if h = g then (h, Suc n) else (h, n)) m else m @ [(g, 1)])"

text \<open>Pairs of bytes: the code pairs runes, which is the same on the ASCII text a normalised title is.\<close>

fun bigrams_from :: "(string \<times> nat) list \<Rightarrow> string \<Rightarrow> (string \<times> nat) list" where
  "bigrams_from m (a # b # s) = bigrams_from (if a = CHR '' '' \<or> b = CHR '' '' then m else count_in m [a, b]) (b # s)"
| "bigrams_from m s = m"

definition bigrams :: "string \<Rightarrow> (string \<times> nat) list" where
  "bigrams s = bigrams_from [] s"

definition overlap :: "(string \<times> nat) list \<Rightarrow> (string \<times> nat) list \<Rightarrow> nat" where
  "overlap ba bb = sum_list (map (\<lambda>(g, n). case map_of bb g of Some m \<Rightarrow> min n m | None \<Rightarrow> 0) ba)"

definition dice_coefficient :: "string \<Rightarrow> string \<Rightarrow> f64" where
  "dice_coefficient a b =
     (if a = b then (if a = [] then 0 else 1)
      else if length a < 2 \<or> length b < 2 then 0
      else let ba = bigrams a; bb = bigrams b;
               inter = overlap ba bb;
               total = sum_list (map snd ba) + sum_list (map snd bb)
           in if total = 0 then 0 else fl (fl (2 * fl (of_nat inter)) / fl (of_nat total)))"

section \<open>The best candidate\<close>

fun best_title :: "string \<Rightarrow> f64 \<Rightarrow> string list \<Rightarrow> f64" where
  "best_title want s [] = s"
| "best_title want s (t # ts) = (let v = dice_coefficient want (normalize_title t) in best_title want (if v > s then v else s) ts)"

definition year_adjust :: "int \<Rightarrow> int \<Rightarrow> f64 \<Rightarrow> f64" where
  "year_adjust source_year start_year s =
     (if source_year > 0 \<and> start_year > 0
      then let d = source_year - start_year in
        if d = 0 then fl (s + fl (5 / 100)) else if d < -1 \<or> d > 1 then fl (s - fl (10 / 100)) else s
      else s)"

definition match_score :: "string \<Rightarrow> int \<Rightarrow> candidate \<Rightarrow> f64" where
  "match_score want source_year c = year_adjust source_year (ca_start_year c) (best_title want 0 (ca_titles c))"

fun best_from :: "string \<Rightarrow> int \<Rightarrow> candidate \<times> f64 \<Rightarrow> candidate list \<Rightarrow> candidate \<times> f64" where
  "best_from want year (best, score) [] = (best, score)"
| "best_from want year (best, score) (c # cs) =
     (let s = match_score want year c in best_from want year (if s > score then (c, s) else (best, score)) cs)"

definition best_match :: "string \<Rightarrow> int \<Rightarrow> candidate list \<Rightarrow> candidate \<times> f64" where
  "best_match source_title source_year cands =
     (let (best, score) = best_from (normalize_title source_title) source_year (no_candidate, -1) cands;
          lowest = (if score < 0 then 0 else score)
      in (best, if lowest > 1 then 1 else lowest))"

section \<open>AniList's answers\<close>

record al_media =
  al_id :: int
  al_site_url :: string
  al_format :: string
  al_status :: string
  al_genres :: "string list"
  al_synonyms :: "string list"
  al_is_adult :: bool
  al_romaji :: string
  al_english :: string
  al_native :: string
  al_description :: string
  al_cover_extra_large :: string
  al_cover_large :: string
  al_year :: int
  al_staff :: "(string \<times> string) list"
  al_tags :: "(string \<times> int \<times> bool \<times> bool) list"

definition max_tags :: nat where "max_tags = 40"
definition max_authors :: nat where "max_authors = 4"

definition author_role :: "string \<Rightarrow> bool" where
  "author_role role = (let r = to_lower role in contains r ''story'' \<or> contains r ''art'' \<or> contains r ''original creator'')"

fun authors_of :: "string list \<Rightarrow> (string \<times> string) list \<Rightarrow> string list" where
  "authors_of acc [] = acc"
| "authors_of acc ((role, n) # es) =
     (if author_role role \<and> n \<noteq> [] \<and> n \<notin> set acc
      then (if length (acc @ [n]) = max_authors then acc @ [n] else authors_of (acc @ [n]) es)
      else authors_of acc es)"

fun tags_of :: "(string \<times> int) list \<Rightarrow> (string \<times> int \<times> bool \<times> bool) list \<Rightarrow> (string \<times> int) list" where
  "tags_of acc [] = acc"
| "tags_of acc ((n, rank, general, own) # ts) =
     (if general \<or> own then tags_of acc ts
      else if length (acc @ [(n, rank)]) = max_tags then acc @ [(n, rank)] else tags_of (acc @ [(n, rank)]) ts)"

definition map_status :: "string \<Rightarrow> string" where
  "map_status s = (if s = ''RELEASING'' then ''Ongoing'' else if s = ''FINISHED'' then ''Completed''
     else if s = ''HIATUS'' then ''Hiatus'' else if s = ''CANCELLED'' then ''Cancelled''
     else if s = ''NOT_YET_RELEASED'' then ''Upcoming'' else [])"

text \<open>\<open>strings.ReplaceAll\<close> for a text that is not empty.\<close>

function replace_all :: "string \<Rightarrow> string \<Rightarrow> string \<Rightarrow> string" where
  "replace_all old new [] = []"
| "replace_all old new (c # s) = (if old \<noteq> [] \<and> has_prefix (c # s) old then new @ replace_all old new (drop (length old) (c # s))
     else c # replace_all old new s)"
  by pat_completeness auto
termination
  by (relation "measure (\<lambda>(old, new, s). length s)") (auto simp: less_Suc_eq_le has_prefix_iff neq_Nil_conv)

fun drop_tags :: "nat \<Rightarrow> string \<Rightarrow> string" where
  "drop_tags depth [] = []"
| "drop_tags depth (c # s) = (if c = CHR ''<'' then drop_tags (Suc depth) s
     else if c = CHR ''>'' then drop_tags (depth - 1) s
     else if depth = 0 then c # drop_tags depth s else drop_tags depth s)"

lemma has_prefix_length: "has_prefix s p \<Longrightarrow> length p \<le> length s"
  by (metis has_prefix_iff length_append le_add1)

lemma replace_all_le: "length new \<le> length old \<Longrightarrow> length (replace_all old new s) \<le> length s"
proof (induction old new s rule: replace_all.induct)
  case (2 old new c s)
  show ?case
  proof (cases "old \<noteq> [] \<and> has_prefix (c # s) old")
    case True
    then have "length old \<le> length (c # s)" using has_prefix_length by blast
    then show ?thesis using True 2 by simp
  next
    case False
    then have "replace_all old new (c # s) = c # replace_all old new s" by auto
    moreover have "length (replace_all old new s) \<le> length s" using 2(2) [OF False 2(3)] .
    ultimately show ?thesis by (simp only: list.size)
  qed
qed simp

lemma replace_all_shorter:
  "length new < length old \<Longrightarrow> contains s old \<Longrightarrow> length (replace_all old new s) < length s"
proof (induction old new s rule: replace_all.induct)
  case (2 old new c s)
  show ?case
  proof (cases "old \<noteq> [] \<and> has_prefix (c # s) old")
    case True
    then have "length old \<le> length (c # s)" using has_prefix_length by blast
    moreover have "length (replace_all old new (drop (length old) (c # s))) \<le> length (drop (length old) (c # s))"
      by (rule replace_all_le) (use 2(3) in simp)
    ultimately show ?thesis using True 2(3) by simp
  next
    case False
    then have "contains s old" using 2(3,4) by auto
    then show ?thesis using False 2(2,3) by auto
  qed
qed auto

definition triple_break :: string where "triple_break = [CHR 0x0A, CHR 0x0A, CHR 0x0A]"
definition double_break :: string where "double_break = [CHR 0x0A, CHR 0x0A]"

function collapse_breaks :: "string \<Rightarrow> string" where
  "collapse_breaks s = (if contains s triple_break then collapse_breaks (replace_all triple_break double_break s) else s)"
  by pat_completeness auto
termination
  by (relation "measure length") (auto intro!: replace_all_shorter simp: triple_break_def double_break_def)

declare collapse_breaks.simps [simp del]

lemma collapse_breaks_done: "\<not> contains (collapse_breaks s) triple_break"
  by (induction s rule: collapse_breaks.induct) (subst collapse_breaks.simps, simp)

definition clean_description :: "string \<Rightarrow> string" where
  "clean_description s =
     (let s = replace_all ''<br>'' [CHR 0x0A] s;
          s = replace_all ''<br/>'' [CHR 0x0A] s;
          s = replace_all ''<br />'' [CHR 0x0A] s
      in collapse_breaks (trim_space (drop_tags 0 s)))"

definition to_candidate :: "al_media \<Rightarrow> candidate" where
  "to_candidate m =
     (let titles = filter (\<lambda>t. t \<noteq> []) [al_english m, al_romaji m, al_native m] @ al_synonyms m;
          primary = (if al_english m \<noteq> [] then al_english m else if al_romaji m \<noteq> [] then al_romaji m else al_native m);
          tags = tags_of [] (al_tags m)
      in \<lparr>ca_provider_id = int_digits (al_id m), ca_url = al_site_url m, ca_primary_title = primary, ca_titles = titles,
          ca_description = clean_description (al_description m),
          ca_cover_url = (if al_cover_extra_large m \<noteq> [] then al_cover_extra_large m else al_cover_large m),
          ca_status = map_status (al_status m), ca_authors = authors_of [] (al_staff m), ca_genres = al_genres m,
          ca_tags = map fst tags, ca_tag_weights = map snd tags, ca_start_year = al_year m, ca_is_adult = al_is_adult m\<rparr>)"

text \<open>The answers of a search: a novel is no answer for a manga.\<close>

definition search_candidates :: "content_type \<Rightarrow> al_media list \<Rightarrow> candidate list" where
  "search_candidates ct ms = map to_candidate (filter (\<lambda>m. \<not> (ct = CtManga \<and> al_format m = ''NOVEL'')) ms)"

section \<open>The coefficient on multisets\<close>

fun letter_pairs :: "string \<Rightarrow> string multiset" where
  "letter_pairs (a # b # s) = (if a = CHR '' '' \<or> b = CHR '' '' then {#} else {#[a, b]#}) + letter_pairs (b # s)"
| "letter_pairs s = {#}"

definition counts :: "('k \<times> nat) list \<Rightarrow> 'k multiset \<Rightarrow> bool" where
  "counts m M \<longleftrightarrow> distinct (map fst m) \<and> (\<forall>g. (case map_of m g of Some n \<Rightarrow> n | None \<Rightarrow> 0) = count M g)"

lemma map_of_count_in: "map_of (count_in m g) h = (if h = g then Some (case map_of m g of Some n \<Rightarrow> Suc n | None \<Rightarrow> 1) else map_of m h)"
proof (cases "g \<in> set (map fst m)")
  case True
  have "map_of (map (\<lambda>(h, n). if h = g then (h, Suc n) else (h, n)) m) h =
      (if h = g then map_option Suc (map_of m g) else map_of m h)" for m :: "('a \<times> nat) list"
    by (induction m) auto
  moreover obtain n where "map_of m g = Some n" using True by (metis map_of_eq_None_iff not_None_eq set_map)
  ultimately show ?thesis using True by (simp add: count_in_def)
next
  case False
  then have "map_of m g = None" by (simp add: map_of_eq_None_iff)
  then show ?thesis using False by (auto simp: count_in_def map_add_def split: option.splits)
qed

lemma distinct_count_in:
  assumes "distinct (map fst m)"
  shows "distinct (map fst (count_in m g))"
proof (cases "g \<in> set (map fst m)")
  case True
  have "map fst (map (\<lambda>(h, n). if h = g then (h, Suc n) else (h, n)) m) = map fst m" by (induction m) auto
  then have "map fst (count_in m g) = map fst m" unfolding count_in_def using True by (simp only: if_True)
  then show ?thesis using assms by (simp only:)
next
  case False
  then show ?thesis using assms by (simp add: count_in_def)
qed

lemma counts_count_in:
  assumes "counts m M"
  shows "counts (count_in m g) (add_mset g M)"
proof -
  have "(case map_of (count_in m g) h of Some n \<Rightarrow> n | None \<Rightarrow> 0) = (case map_of m h of Some n \<Rightarrow> n | None \<Rightarrow> 0) + (if h = g then 1 else 0)" for h
    by (simp add: map_of_count_in split: option.split)
  then show ?thesis using assms by (auto simp: counts_def distinct_count_in)
qed

lemma counts_bigrams_from: "counts m M \<Longrightarrow> counts (bigrams_from m s) (M + letter_pairs s)"
proof (induction m s arbitrary: M rule: bigrams_from.induct)
  case (1 m a b s)
  show ?case
  proof (cases "a = CHR '' '' \<or> b = CHR '' ''")
    case True
    then show ?thesis using 1 by simp
  next
    case False
    have "counts (count_in m [a, b]) (add_mset [a, b] M)" by (rule counts_count_in [OF 1(2)])
    then have "counts (bigrams_from (count_in m [a, b]) (b # s)) (add_mset [a, b] M + letter_pairs (b # s))"
      using 1(1) [of "add_mset [a, b] M"] False by simp
    then show ?thesis using False by simp
  qed
qed auto

lemma counts_bigrams: "counts (bigrams s) (letter_pairs s)"
  using counts_bigrams_from [of "[]" "{#}" s] by (simp add: bigrams_def counts_def)

lemma counts_keys: "counts m M \<Longrightarrow> set_mset M \<subseteq> fst ` set m"
proof
  fix g assume m: "counts m M" and "g \<in># M"
  then have "count M g \<noteq> 0" by simp
  then have "map_of m g \<noteq> None" using m unfolding counts_def by (metis option.simps(4))
  then show "g \<in> fst ` set m" by (simp add: map_of_eq_None_iff)
qed

lemma counts_sum:
  assumes "counts m M" "\<And>g. g \<notin># M \<Longrightarrow> h g = 0"
  shows "sum_list (map (\<lambda>(g, n). h g) m) = sum h (set_mset M)"
proof -
  have "map (\<lambda>(g, n). h g) m = map h (map fst m)" by (induction m) auto
  then have "sum_list (map (\<lambda>(g, n). h g) m) = sum_list (map h (map fst m))" by (simp only:)
  also have "\<dots> = sum h (set (map fst m))"
    using assms(1) by (intro sum_list_distinct_conv_sum_set) (simp add: counts_def)
  also have "\<dots> = sum h (set_mset M)"
    using counts_keys [OF assms(1)] assms(2) by (intro sum.mono_neutral_right) auto
  finally show ?thesis .
qed

lemma counts_entry: "counts m M \<Longrightarrow> (g, n) \<in> set m \<Longrightarrow> n = count M g"
  unfolding counts_def by (metis map_of_is_SomeI option.simps(5))

lemma counts_total: "counts m M \<Longrightarrow> sum_list (map snd m) = size M"
proof -
  assume m: "counts m M"
  have "sum_list (map snd m) = sum_list (map (\<lambda>(g, n). count M g) m)"
    by (rule arg_cong [where f = sum_list], rule map_cong [OF refl]) (use counts_entry [OF m] in auto)
  also have "\<dots> = size M" using counts_sum [OF m, of "count M"] by (simp add: size_multiset_overloaded_eq not_in_iff)
  finally show ?thesis .
qed

lemma overlap_inter:
  assumes "counts ba A" "counts bb B"
  shows "overlap ba bb = size (A \<inter># B)"
proof -
  have "(case map_of bb g of Some m \<Rightarrow> min n m | None \<Rightarrow> 0) = count (A \<inter># B) g" if "(g, n) \<in> set ba" for g n
    using counts_entry [OF assms(1) that] assms(2) by (cases "map_of bb g") (auto simp: counts_def dest!: spec [of _ g])
  then have "overlap ba bb = sum_list (map (\<lambda>(g, n). count (A \<inter># B) g) ba)"
    unfolding overlap_def by (intro arg_cong [where f = sum_list] map_cong) auto
  also have "\<dots> = sum (count (A \<inter># B)) (set_mset A)"
    by (rule counts_sum [OF assms(1)]) (simp add: not_in_iff)
  also have "\<dots> = size (A \<inter># B)"
    unfolding size_multiset_overloaded_eq by (rule sum.mono_neutral_right) (auto simp: not_in_iff)
  finally show ?thesis .
qed

text \<open>The Dice coefficient of two titles on the multisets of their letter pairs.\<close>

definition dice_spec :: "string \<Rightarrow> string \<Rightarrow> f64" where
  "dice_spec a b =
     (if a = b then (if a = [] then 0 else 1)
      else if letter_pairs a + letter_pairs b = {#} then 0
      else fl (fl (2 * fl (of_nat (size (letter_pairs a \<inter># letter_pairs b)))) / fl (of_nat (size (letter_pairs a + letter_pairs b)))))"

lemma short_pairs: "length s < 2 \<Longrightarrow> letter_pairs s = {#}"
  by (cases s rule: letter_pairs.cases) auto

text \<open>
  C25: the score of two titles is the Dice coefficient of their letter pairs: twice the number of pairs they
  have in common, counted as often as they occur in both, over the number of all pairs, pairs with a space
  left out; equal titles score 1 and titles with no pair 0.
\<close>

theorem dice_coefficient_spec: "dice_coefficient a b = dice_spec a b"
proof (cases "length a < 2 \<or> length b < 2")
  case True
  then have "size (letter_pairs a \<inter># letter_pairs b) = 0" using short_pairs by auto
  then show ?thesis using True by (simp add: dice_coefficient_def dice_spec_def)
next
  case False
  define T where "T = letter_pairs a + letter_pairs b"
  have tot: "sum_list (map snd (bigrams a)) + sum_list (map snd (bigrams b)) = size T"
    using counts_total [OF counts_bigrams] by (simp add: T_def)
  show ?thesis
    unfolding dice_coefficient_def dice_spec_def Let_def overlap_inter [OF counts_bigrams counts_bigrams] tot T_def [symmetric]
    using False by simp
qed

section \<open>The best candidate\<close>

text \<open>The first candidate with the highest score.\<close>

definition first_best :: "(candidate \<Rightarrow> f64) \<Rightarrow> candidate list \<Rightarrow> candidate \<Rightarrow> bool" where
  "first_best f cs b \<longleftrightarrow> (\<exists>xs ys. cs = xs @ b # ys \<and> (\<forall>x \<in> set xs. f x < f b) \<and> (\<forall>y \<in> set ys. f y \<le> f b))"

lemma first_best_hd: "(\<forall>y \<in> set cs. f y \<le> f c) \<Longrightarrow> first_best f (c # cs) c"
  unfolding first_best_def by (intro exI [of _ "[]"] exI [of _ cs]) simp

lemma first_best_Cons: "first_best f cs b \<Longrightarrow> f c < f b \<Longrightarrow> first_best f (c # cs) b"
proof -
  assume "first_best f cs b" and c: "f c < f b"
  then obtain xs ys where "cs = xs @ b # ys" "\<forall>x \<in> set xs. f x < f b" "\<forall>y \<in> set ys. f y \<le> f b"
    unfolding first_best_def by blast
  then show ?thesis unfolding first_best_def using c by (intro exI [of _ "c # xs"] exI [of _ ys]) simp
qed

lemma best_from_result:
  assumes "best_from want year (b, s) cs = (b', s')"
  shows "(s' = s \<and> b' = b \<and> (\<forall>c \<in> set cs. match_score want year c \<le> s)) \<or>
     (s < s' \<and> s' = match_score want year b' \<and> first_best (match_score want year) cs b')"
  using assms
proof (induction cs arbitrary: b s)
  case (Cons c cs)
  let ?f = "match_score want year"
  show ?case
  proof (cases "?f c > s")
    case True
    then have "best_from want year (c, ?f c) cs = (b', s')" using Cons.prems by (simp add: Let_def)
    from Cons.IH [OF this] show ?thesis using True first_best_hd first_best_Cons by fastforce
  next
    case False
    then have "best_from want year (b, s) cs = (b', s')" using Cons.prems by (simp add: Let_def)
    from Cons.IH [OF this] show ?thesis using False first_best_Cons by fastforce
  qed
qed simp

lemma best_title_ge: "s \<le> best_title want s ts"
proof (induction ts arbitrary: s)
  case (Cons t ts)
  let ?v = "dice_coefficient want (normalize_title t)"
  have "s \<le> (if ?v > s then ?v else s)" by simp
  also have "\<dots> \<le> best_title want (if ?v > s then ?v else s) ts" by (rule Cons.IH)
  finally show ?case by (simp add: Let_def)
qed simp

lemma match_score_low: "-1 < match_score want year c"
proof -
  have "0 \<le> best_title want 0 (ca_titles c)" by (rule best_title_ge)
  moreover have "-1 < fl (s + fl (5 / 100))" if "0 \<le> s" for s
  proof -
    have "0 \<le> fl (5 / 100)" by (rule fl_nonneg) simp
    then have "0 \<le> fl (s + fl (5 / 100))" using that by (intro fl_nonneg) simp
    then show ?thesis by simp
  qed
  moreover have "-1 < fl (s - fl (10 / 100))" if "0 \<le> s" for s :: rat
  proof -
    have "fl (10 / 100) \<le> 11 / 100" using fl_error [of "10 / 100"] by (simp add: abs_if split: if_splits)
    then have "- (11 / 100) \<le> s - fl (10 / 100)" using that by simp
    then show ?thesis using fl_error [of "s - fl (10 / 100)"]
      by (cases "0 \<le> s - fl (10 / 100)") (use fl_nonneg in fastforce, simp add: abs_if split: if_splits)
  qed
  ultimately show ?thesis by (simp add: match_score_def year_adjust_def Let_def)
qed

text \<open>
  The match of a title is the first of the candidates with the highest score, and the score is
  brought into 0 to 1; with no candidate the score is 0.
\<close>

theorem best_match_is_first_best:
  assumes "best_match title year cands = (c, score)"
  shows "0 \<le> score \<and> score \<le> 1 \<and> (if cands = [] then score = 0 else
    score = max 0 (min 1 (match_score (normalize_title title) year c)) \<and>
    (\<exists>xs ys. cands = xs @ c # ys \<and>
      (\<forall>x \<in> set xs. match_score (normalize_title title) year x < match_score (normalize_title title) year c) \<and>
      (\<forall>y \<in> set ys. match_score (normalize_title title) year y \<le> match_score (normalize_title title) year c)))"
proof -
  let ?f = "match_score (normalize_title title) year"
  obtain b s where r: "best_from (normalize_title title) year (no_candidate, -1) cands = (b, s)" by fastforce
  have score: "c = b" "score = max 0 (min 1 s)"
    using assms r by (auto simp: best_match_def Let_def)
  show ?thesis
  proof (cases "cands = []")
    case True
    then have "s = -1" using r by simp
    then show ?thesis using True score by simp
  next
    case False
    then obtain x where "x \<in> set cands" by (cases cands) auto
    then have "\<not> (\<forall>x \<in> set cands. ?f x \<le> -1)" using match_score_low [of "normalize_title title" year x] by fastforce
    then have "s = ?f b" "first_best ?f cands b" using best_from_result [OF r] by auto
    then show ?thesis using False score unfolding first_best_def by simp
  qed
qed

theorem best_match_is_first_best_witness:
  "case best_match ''Naruto'' 0 [no_candidate\<lparr>ca_titles := [''Bleach'']\<rparr>, no_candidate\<lparr>ca_titles := [''naruto!'']\<rparr>] of
     (c, score) \<Rightarrow> 0 \<le> score \<and> score \<le> 1"
proof -
  obtain c score where "best_match ''Naruto'' 0 [no_candidate\<lparr>ca_titles := [''Bleach'']\<rparr>, no_candidate\<lparr>ca_titles := [''naruto!'']\<rparr>] = (c, score)"
    by fastforce
  then show ?thesis using best_match_is_first_best by simp
qed

end
