(* ===== verification/MetadataManager.thy ===== *)
theory MetadataManager
  imports MetadataMatch GoFs Q_Filter Q_Library Trackers
begin

text \<open>
  The metadata manager (\<open>internal/metadata/manager.go\<close>): library entries are matched with a provider's
  answers, and what the entry lacks is filled in. The provider (AniList behind HTTP) is a record of functions;
  a cancelled request and the recomputation of the content filter in the background are left out.
\<close>

section \<open>Statements\<close>

definition fill :: "string option \<Rightarrow> string \<Rightarrow> string option" where
  "fill old new = (if old = None \<or> old = Some [] then null_string new else old)"

definition no_cover :: "medium \<Rightarrow> bool" where
  "no_cover m \<longleftrightarrow> string_of (m_cover_path m) = [] \<and> string_of (m_cover_local_path m) = [] \<and> string_of (m_cover_override m) = []"

definition q_gap_fill_media_metadata :: "string \<Rightarrow> string \<Rightarrow> string \<Rightarrow> string \<Rightarrow> int \<Rightarrow> medium stmt" where
  "q_gap_fill_media_metadata description status author cover i =
     q_update_media i (\<lambda>now m. m\<lparr>m_description := fill (m_description m) description, m_status := fill (m_status m) status,
       m_author := fill (m_author m) author, m_cover_path := (if no_cover m then null_string cover else m_cover_path m)\<rparr>)"

definition q_get_metadata_link :: "int \<Rightarrow> string \<Rightarrow> metadata_link stmt" where
  "q_get_metadata_link i provider = select_one (\<lambda>d. find (\<lambda>l. l_media l = i \<and> l_provider l = provider) (metadata_links d))"

definition q_list_metadata_links_by_media :: "int \<Rightarrow> metadata_link list stmt" where
  "q_list_metadata_links_by_media i = select_all (\<lambda>d. filter (\<lambda>l. l_media l = i) (metadata_links d))"

definition q_delete_metadata_link :: "int \<Rightarrow> string \<Rightarrow> unit stmt" where
  "q_delete_metadata_link i provider = exec (\<lambda>now d. d\<lparr>metadata_links := delete_where (\<lambda>l. l_media l = i \<and> l_provider l = provider) (metadata_links d)\<rparr>)"

definition rematched :: "string \<Rightarrow> string \<Rightarrow> string \<Rightarrow> f64 \<Rightarrow> int \<Rightarrow> int \<Rightarrow> metadata_link \<Rightarrow> metadata_link" where
  "rematched pid url cover confidence locked now l = l\<lparr>l_provider_id := pid, l_provider_url := url, l_cover_url := cover,
     l_confidence := confidence, l_locked := locked, l_matched_at := now\<rparr>"

definition new_match :: "int \<Rightarrow> string \<Rightarrow> string \<Rightarrow> string \<Rightarrow> string \<Rightarrow> f64 \<Rightarrow> int \<Rightarrow> int \<Rightarrow> int \<Rightarrow> metadata_link" where
  "new_match i provider pid url cover confidence locked now row_id = \<lparr>l_id = row_id, l_media = i, l_provider = provider,
     l_provider_id = pid, l_provider_url = url, l_confidence = confidence, l_locked = locked, l_matched_at = now, l_cover_url = cover\<rparr>"

definition q_upsert_metadata_link :: "int \<Rightarrow> string \<Rightarrow> string \<Rightarrow> string \<Rightarrow> string \<Rightarrow> f64 \<Rightarrow> int \<Rightarrow> metadata_link stmt" where
  "q_upsert_metadata_link i provider pid url cover confidence locked =
     with_fk (\<lambda>d. i \<in> set (map m_id (media d))) (\<lambda>now d.
     (case upsert (\<lambda>l. l_media l = i \<and> l_provider l = provider) (rematched pid url cover confidence locked now)
         (new_match i provider pid url cover confidence locked now (next_id (map l_id (metadata_links d)))) (metadata_links d) of
        (row, rows) \<Rightarrow> (Inr row, d\<lparr>metadata_links := rows\<rparr>)))"

definition q_set_media_metadata_search_failed :: "int \<Rightarrow> unit stmt" where
  "q_set_media_metadata_search_failed i =
     exec (\<lambda>now d. d\<lparr>media := update_where (\<lambda>m. m_id m = i) (\<lambda>m. m\<lparr>m_search_failed_at := Some now\<rparr>) (media d)\<rparr>)"

text \<open>The cover of the most confident link that has one.\<close>

definition link_cover :: "db \<Rightarrow> int \<Rightarrow> string option" where
  "link_cover d i = (case sort_key (\<lambda>l. - l_confidence l) (filter (\<lambda>l. l_media l = i \<and> l_cover_url l \<noteq> []) (metadata_links d)) of
     [] \<Rightarrow> None | l # _ \<Rightarrow> Some (l_cover_url l))"

definition q_get_media_metadata_cover :: "int \<Rightarrow> string stmt" where
  "q_get_media_metadata_cover i = select_one (\<lambda>d. link_cover d i)"

definition q_list_metadata_links_by_media_ids :: "int list \<Rightarrow> metadata_link list stmt" where
  "q_list_metadata_links_by_media_ids is = select_all (\<lambda>d. filter (\<lambda>l. l_media l \<in> set is) (metadata_links d))"

definition q_backfill_missing_covers :: "int stmt" where
  "q_backfill_missing_covers now d =
     (let missing = (\<lambda>m. no_cover m \<and> link_cover d (m_id m) \<noteq> None)
      in (Inr (int (length (filter missing (media d)))),
          d\<lparr>media := update_where missing (\<lambda>m. m\<lparr>m_cover_path := link_cover d (m_id m)\<rparr>) (media d)\<rparr>))"

definition q_list_media_ids_without_metadata_link :: "int list stmt" where
  "q_list_media_ids_without_metadata_link now d = (Inr (map m_id (filter (\<lambda>m. m_added_at m \<noteq> None \<and> m_extension_id m \<noteq> None \<and>
     (\<forall>l \<in> set (metadata_links d). l_media l \<noteq> m_id m) \<and>
     (case m_search_failed_at m of None \<Rightarrow> True | Some t \<Rightarrow> t < now - 7 * 86400)) (media d))), d)"

section \<open>The manager\<close>

record provider =
  pv_search :: "string \<Rightarrow> content_type \<Rightarrow> go_err + candidate list"
  pv_fetch :: "string \<Rightarrow> go_err + candidate"
  pv_mal_id :: "string \<Rightarrow> go_err + int"

definition default_provider :: string where "default_provider = ''anilist''"

definition content_type_of :: "medium \<Rightarrow> content_type" where
  "content_type_of m = (if m_content_type m = ''anime'' then CtAnime else if m_content_type m = ''novel'' then CtNovel else CtManga)"

definition add_genre :: "int \<Rightarrow> string \<Rightarrow> ('z world_scheme, unit) act" where
  "add_genre i name = (if name = [] then ret ()
     else seq (db_call (q_create_genre name)) (\<lambda>g. db_call (q_add_genre_to_media i (g_id g))))"

definition add_tag :: "int \<Rightarrow> string \<times> int \<Rightarrow> ('z world_scheme, unit) act" where
  "add_tag i tw = (if fst tw = [] then ret ()
     else seq (db_call (q_create_tag (fst tw))) (\<lambda>t. db_call (q_add_tag_to_media i (t_id t) (snd tw))))"

definition weighted_tags :: "candidate \<Rightarrow> (string \<times> int) list" where
  "weighted_tags c = map (\<lambda>i. (ca_tags c ! i, if i < length (ca_tag_weights c) then ca_tag_weights c ! i else 0)) [0..<length (ca_tags c)]"

definition apply_candidate :: "int \<Rightarrow> string \<Rightarrow> candidate \<Rightarrow> f64 \<Rightarrow> bool \<Rightarrow> ('z world_scheme, medium) act" where
  "apply_candidate i provider c confidence locked = in_tx id id (
     seq (wrap (''gap-fill media '' @ int_digits i) (db_call (q_gap_fill_media_metadata (ca_description c) (ca_status c)
        (join '', '' (ca_authors c)) (ca_cover_url c) i))) (\<lambda>updated.
     seq (for_each (add_genre i) (ca_genres c)) (\<lambda>_.
     seq (for_each (add_tag i) (weighted_tags c)) (\<lambda>_.
     seq (db_call (q_upsert_metadata_link i provider (ca_provider_id c) (ca_url c) (ca_cover_url c) confidence (if locked then 1 else 0))) (\<lambda>_.
     ret updated)))))"

datatype match_outcome = MatchError | NoMatch | Matched

definition try_match :: "provider \<Rightarrow> medium \<Rightarrow> ('z world_scheme, match_outcome \<times> go_err option) act" where
  "try_match p m =
     seq (attempt (ext_call (pv_search p (m_title m) (content_type_of m)))) (\<lambda>r. case r of
       Inl e \<Rightarrow> ret (MatchError, Some e)
     | Inr cands \<Rightarrow> if cands = [] then ret (NoMatch, None)
         else (let (best, score) = best_match (m_title m) 0 cands in
           if score < auto_apply_score then ret (NoMatch, None)
           else seq (attempt (apply_candidate (m_id m) default_provider best score False)) (\<lambda>a. case a of
               Inl e \<Rightarrow> ret (MatchError, Some e)
             | Inr _ \<Rightarrow> ret (Matched, None))))"

definition note_failed :: "match_outcome \<Rightarrow> int \<Rightarrow> ('z world_scheme, unit) act" where
  "note_failed out i = (if out = NoMatch then ignore (db_call (q_set_media_metadata_search_failed i)) else ret ())"

definition auto_enrich :: "provider \<Rightarrow> int \<Rightarrow> ('z world_scheme, unit) act" where
  "auto_enrich p i =
     seq (attempt (db_call (q_get_media i))) (\<lambda>r. case r of
       Inl _ \<Rightarrow> ret ()
     | Inr m \<Rightarrow> seq (attempt (db_call (q_list_metadata_links_by_media i))) (\<lambda>ls.
         if (case ls of Inl _ \<Rightarrow> False | Inr ls \<Rightarrow> ls \<noteq> []) then ret ()
         else seq (try_match p m) (\<lambda>(out, _). note_failed out i)))"

definition apply_match :: "provider \<Rightarrow> int \<Rightarrow> string \<Rightarrow> string \<Rightarrow> ('z world_scheme, medium) act" where
  "apply_match p i provider pid = (if provider \<noteq> default_provider then fail (ErrMsg (''unknown metadata provider '' @ quoted provider))
     else seq (ext_call (pv_fetch p pid)) (\<lambda>c. apply_candidate i provider c 1 True))"

definition rate_limited :: "go_err option \<Rightarrow> bool" where
  "rate_limited err = (case err of None \<Rightarrow> False | Some e \<Rightarrow> err_is e ErrRateLimited)"

text \<open>The answer says whether the loop went through; a rate limit ends it.\<close>

fun refresh_tags_loop :: "provider \<Rightarrow> int list \<Rightarrow> ('z world_scheme, bool) act" where
  "refresh_tags_loop p [] = ret True"
| "refresh_tags_loop p (i # is) =
     seq (attempt (db_call (q_get_metadata_link i default_provider))) (\<lambda>r. case r of
       Inl _ \<Rightarrow> refresh_tags_loop p is
     | Inr l \<Rightarrow> if l_locked l \<noteq> 0 then refresh_tags_loop p is
         else seq (attempt (apply_match p i default_provider (l_provider_id l))) (\<lambda>a.
           if (case a of Inl e \<Rightarrow> err_is e ErrRateLimited | Inr _ \<Rightarrow> False) then ret False
           else refresh_tags_loop p is))"

definition refresh_sparse_tags :: "provider \<Rightarrow> ('z world_scheme, unit) act" where
  "refresh_sparse_tags p = seq (attempt (db_call (q_list_media_ids_with_sparse_tags 5))) (\<lambda>r. case r of
     Inl _ \<Rightarrow> ret () | Inr is \<Rightarrow> seq (refresh_tags_loop p is) (\<lambda>_. ret ()))"

fun enrich_loop :: "provider \<Rightarrow> int list \<Rightarrow> ('z world_scheme, bool) act" where
  "enrich_loop p [] = ret True"
| "enrich_loop p (i # is) =
     seq (attempt (db_call (q_get_media i))) (\<lambda>r. case r of
       Inl _ \<Rightarrow> enrich_loop p is
     | Inr m \<Rightarrow> seq (try_match p m) (\<lambda>(out, err).
         seq (note_failed out i) (\<lambda>_.
         if rate_limited err then ret False else enrich_loop p is)))"

definition enrich_library :: "provider \<Rightarrow> ('z world_scheme, unit) act" where
  "enrich_library p =
     seq (attempt (db_call q_backfill_missing_covers)) (\<lambda>_.
     seq (attempt (db_call q_list_media_ids_without_metadata_link)) (\<lambda>r. case r of
       Inl _ \<Rightarrow> ret ()
     | Inr is \<Rightarrow> if is = [] then ret ()
         else seq (enrich_loop p is) (\<lambda>went_through. if went_through then refresh_sparse_tags p else ret ())))"

definition search_provider :: "provider \<Rightarrow> string \<Rightarrow> string \<Rightarrow> content_type \<Rightarrow> ('z world_scheme, candidate list) act" where
  "search_provider p provider query ct = (if provider \<noteq> default_provider then fail (ErrMsg (''unknown metadata provider '' @ quoted provider))
     else ext_call (pv_search p query ct))"

definition refresh_media :: "provider \<Rightarrow> int \<Rightarrow> ('z world_scheme, medium) act" where
  "refresh_media p i =
     seq (db_call (q_get_media i)) (\<lambda>m.
     seq (attempt (db_call (q_get_metadata_link i default_provider))) (\<lambda>r.
     if (case r of Inr l \<Rightarrow> l_locked l \<noteq> 0 | Inl _ \<Rightarrow> False)
     then (case r of Inr l \<Rightarrow> apply_match p i (l_provider l) (l_provider_id l) | Inl e \<Rightarrow> fail e)
     else if (case r of Inl e \<Rightarrow> \<not> err_is e ErrNoRows | Inr _ \<Rightarrow> False)
     then (case r of Inl e \<Rightarrow> fail e | Inr _ \<Rightarrow> ret m)
     else seq (ext_call (pv_search p (m_title m) (content_type_of m))) (\<lambda>cands.
       if cands = [] then ret m
       else (let (best, score) = best_match (m_title m) 0 cands in
         if score < auto_apply_score then ret m
         else apply_candidate i default_provider best score False))))"

definition unlink :: "int \<Rightarrow> ('z world_scheme, unit) act" where
  "unlink i = db_call (q_delete_metadata_link i default_provider)"

definition link_of :: "int \<Rightarrow> ('z world_scheme, metadata_link option) act" where
  "link_of i = seq (attempt (db_call (q_get_metadata_link i default_provider))) (\<lambda>r. case r of
     Inr l \<Rightarrow> ret (Some l)
   | Inl e \<Rightarrow> if err_is e ErrNoRows then ret None else fail e)"

section \<open>The MyAnimeList id\<close>

record mal_world = world +
  mal_cache :: "(int \<times> int) list"

text \<open>The id a tracker link holds: for MyAnimeList what follows the colon, if there is one.\<close>

definition mal_link_id :: "string \<Rightarrow> string" where
  "mal_link_id s = (case cut s (CHR '':'') of Some (_, t) \<Rightarrow> t | None \<Rightarrow> s)"

fun scan_links :: "(int \<times> string) list \<Rightarrow> string \<Rightarrow> tracker_link list \<Rightarrow> int + string" where
  "scan_links types anilist [] = Inr anilist"
| "scan_links types anilist (l # ls) =
     (let ty = (case map_of types (tl_account l) of Some t \<Rightarrow> t | None \<Rightarrow> []) in
      if ty = ''mal'' then (case parse_int64 (mal_link_id (tl_external_id l)) of
          Some n \<Rightarrow> if n > 0 then Inl n else scan_links types anilist ls
        | None \<Rightarrow> scan_links types anilist ls)
      else if ty = ''anilist'' then scan_links types (tl_external_id l) ls
      else scan_links types anilist ls)"

definition remember_mal :: "int \<Rightarrow> int \<Rightarrow> ('z mal_world_scheme, int) act" where
  "remember_mal i n = seq (modify (\<lambda>w. w\<lparr>mal_cache := (i, n) # filter (\<lambda>e. fst e \<noteq> i) (mal_cache w)\<rparr>)) (\<lambda>_. ret n)"

definition fetch_mal_id :: "provider \<Rightarrow> int \<Rightarrow> ('z mal_world_scheme, int) act" where
  "fetch_mal_id p i =
     seq (attempt (db_call (q_list_tracker_links_by_media i))) (\<lambda>ls.
     seq (case ls of Inl _ \<Rightarrow> ret (Inr [])
        | Inr links \<Rightarrow> seq (attempt (db_call q_list_tracker_accounts)) (\<lambda>as.
            ret (scan_links (case as of Inl _ \<Rightarrow> [] | Inr as \<Rightarrow> rev (map (\<lambda>a. (ta_id a, ta_type a)) as)) [] links))) (\<lambda>found. case found of
       Inl n \<Rightarrow> remember_mal i n
     | Inr anilist \<Rightarrow>
         seq (link_of i) (\<lambda>l.
         let al = (case l of Some l \<Rightarrow> l_provider_id l | None \<Rightarrow> anilist) in
         if al = [] then ret 0
         else seq (ext_call (pv_mal_id p al)) (\<lambda>n. remember_mal i n))))"

text \<open>A caller waits 400 ms for the lookup (\<open>slow\<close>: it took longer); the lookup goes on.\<close>

definition mal_id :: "provider \<Rightarrow> bool \<Rightarrow> int \<Rightarrow> ('z mal_world_scheme, int) act" where
  "mal_id p slow i = seq (gets mal_cache) (\<lambda>cache. case map_of cache i of
     Some n \<Rightarrow> ret n
   | None \<Rightarrow> if slow then seq (ignore (fetch_mal_id p i)) (\<lambda>_. ret 0) else fetch_mal_id p i)"

end
