(* ===== verification/MetadataSafety.thy ===== *)
theory MetadataSafety
  imports MetadataManager DemoLibrary
begin

text \<open>
  What enriching the library never does: it keeps every text an entry has and every other table but genres,
  tags and links, and a library-wide run keeps the links the user fixed.
\<close>

section \<open>Entries only gain\<close>

definition kept_text :: "string option \<Rightarrow> string option \<Rightarrow> bool" where
  "kept_text x y \<longleftrightarrow> (string_of x \<noteq> [] \<longrightarrow> y = x)"

text \<open>The same entry with some of its empty texts filled in.\<close>

definition gap_filled :: "medium \<Rightarrow> medium \<Rightarrow> bool" where
  "gap_filled m m' \<longleftrightarrow>
     m' = m\<lparr>m_description := m_description m', m_status := m_status m', m_author := m_author m', m_cover_path := m_cover_path m',
       m_search_failed_at := m_search_failed_at m'\<rparr> \<and>
     kept_text (m_description m) (m_description m') \<and> kept_text (m_status m) (m_status m') \<and>
     kept_text (m_author m) (m_author m') \<and> kept_text (m_cover_path m) (m_cover_path m')"

definition other_tables :: "db \<Rightarrow> db" where
  "other_tables d = d\<lparr>media := [], genres := [], media_genres := [], tags := [], media_tags := [], metadata_links := []\<rparr>"

definition enriched :: "db \<Rightarrow> db \<Rightarrow> bool" where
  "enriched d d' \<longleftrightarrow> list_all2 gap_filled (media d) (media d') \<and> other_tables d' = other_tables d"

lemma gap_filled_refl [simp]: "gap_filled m m"
  by (simp add: gap_filled_def kept_text_def)

lemma gap_filled_trans:
  assumes "gap_filled a b" "gap_filled b c"
  shows "gap_filled a c"
proof -
  have "kept_text x z" if "kept_text x y" "kept_text y z" for x y z
    using that unfolding kept_text_def by auto
  moreover have "c = a\<lparr>m_description := m_description c, m_status := m_status c, m_author := m_author c, m_cover_path := m_cover_path c,
       m_search_failed_at := m_search_failed_at c\<rparr>"
    using assms unfolding gap_filled_def by (cases a; cases b; cases c) simp
  ultimately show ?thesis using assms unfolding gap_filled_def by blast
qed

lemma enriched_refl [simp]: "enriched d d"
  by (simp add: enriched_def list_all2_refl)

lemma enriched_trans: "enriched a b \<Longrightarrow> enriched b c \<Longrightarrow> enriched a c"
  unfolding enriched_def using list_all2_trans [of gap_filled gap_filled gap_filled] gap_filled_trans by metis

lemma update_where_all2: "(\<And>m. P m \<Longrightarrow> gap_filled m (f m)) \<Longrightarrow> list_all2 gap_filled ms (update_where P f ms)"
  by (induction ms) (auto simp: update_where_def)

lemma enriched_media:
  "(\<And>m. P m \<Longrightarrow> gap_filled m (f m)) \<Longrightarrow> enriched d (d\<lparr>media := update_where P f (media d)\<rparr>)"
  by (simp add: enriched_def update_where_all2 other_tables_def)

lemma kept_fill [simp]: "kept_text x (fill x y)"
  by (cases x) (auto simp: kept_text_def fill_def string_of_def)

lemma enriched_gap_fill: "enriched d (snd (q_gap_fill_media_metadata a b c e i now d))"
proof -
  have "gap_filled m (m\<lparr>m_description := fill (m_description m) a, m_status := fill (m_status m) b, m_author := fill (m_author m) c,
      m_cover_path := (if no_cover m then null_string e else m_cover_path m)\<rparr>)" for m
    by (simp add: gap_filled_def) (auto simp: kept_text_def no_cover_def)
  then show ?thesis
    unfolding q_gap_fill_media_metadata_def q_update_media_def update_returning_def
    by (auto split: option.split intro!: enriched_media)
qed

lemma enriched_writes:
  "enriched d (snd (q_create_genre name now d))" "enriched d (snd (q_add_genre_to_media i g now d))"
  "enriched d (snd (q_create_tag name now d))" "enriched d (snd (q_add_tag_to_media i g n now d))"
  "enriched d (snd (q_upsert_metadata_link i pr pid url cov conf lk now d))"
  "enriched d (snd (q_set_media_metadata_search_failed i now d))"
  "enriched d (snd (q_backfill_missing_covers now d))"
proof -
  show "enriched d (snd (q_set_media_metadata_search_failed i now d))"
    unfolding q_set_media_metadata_search_failed_def exec_def snd_conv
    by (rule enriched_media) (simp add: gap_filled_def kept_text_def)
  show "enriched d (snd (q_backfill_missing_covers now d))"
    unfolding q_backfill_missing_covers_def Let_def snd_conv
    by (rule enriched_media) (auto simp: gap_filled_def kept_text_def no_cover_def)
qed (simp_all add: enriched_def list_all2_refl other_tables_def q_create_genre_def q_add_genre_to_media_def q_create_tag_def
    q_add_tag_to_media_def q_upsert_metadata_link_def with_fk_def exec_def Let_def split: prod.split)

text \<open>The invariant of a run from the tables \<open>d0\<close>.\<close>

abbreviation only_gains :: "db \<Rightarrow> 'z world_scheme \<Rightarrow> bool" where
  "only_gains d0 \<equiv> \<lambda>w. enriched d0 (w_db w)"

lemma keeps_gain_call:
  assumes "\<And>now d. enriched d (snd (q now d))"
  shows "keeps (only_gains d0 :: 'z world_scheme \<Rightarrow> bool) (db_call q)"
proof (rule keepsI)
  fix w :: "'z world_scheme" assume w: "enriched d0 (w_db w)"
  obtain r w' where c: "db_call q w = (r, w')" by fastforce
  obtain fs d where "w' = w\<lparr>w_faults := fs, w_db := d\<rparr>" "(\<exists>e. r = Inl e \<and> d = w_db w) \<or> q (w_now w) (w_db w) = (r, d)"
    using db_call_result [OF c] by blast
  moreover have "enriched (w_db w) d" using calculation(2) assms [of "w_db w" "w_now w"] by auto
  ultimately show "enriched d0 (w_db (snd (db_call q w)))" using c enriched_trans [OF w] by simp
qed

lemma keeps_gain_calls [keeps_intros]:
  "keeps (only_gains d0) (db_call (q_gap_fill_media_metadata a b c e i))"
  "keeps (only_gains d0) (db_call (q_create_genre name))" "keeps (only_gains d0) (db_call (q_add_genre_to_media i gid))"
  "keeps (only_gains d0) (db_call (q_create_tag name))" "keeps (only_gains d0) (db_call (q_add_tag_to_media i g n))"
  "keeps (only_gains d0) (db_call (q_upsert_metadata_link i pr pid url cov conf lk))"
  "keeps (only_gains d0) (db_call (q_set_media_metadata_search_failed i))"
  "keeps (only_gains d0) (db_call q_backfill_missing_covers)"
  "keeps (only_gains d0) (db_call (select_one f))" "keeps (only_gains d0) (db_call (select_all h))"
  by (rule keeps_gain_call; simp add: enriched_gap_fill enriched_writes select_one_def select_all_def split: option.split)+

lemma keeps_gain_selects [keeps_intros]:
  "keeps (only_gains d0) (db_call (q_get_media i))" "keeps (only_gains d0) (db_call (q_get_metadata_link i pr))"
  "keeps (only_gains d0) (db_call (q_list_metadata_links_by_media i))"
  "keeps (only_gains d0) (db_call (q_list_media_ids_with_sparse_tags n))"
  "keeps (only_gains d0) (db_call q_list_media_ids_without_metadata_link)"
  unfolding q_get_media_def q_get_metadata_link_def q_list_metadata_links_by_media_def q_list_media_ids_with_sparse_tags_def
  by (rule keeps_gain_calls | rule keeps_gain_call, simp add: q_list_media_ids_without_metadata_link_def)+

lemma keeps_gain_apply [keeps_intros]: "keeps (only_gains d0) (apply_candidate i pr c conf lk)"
  unfolding apply_candidate_def add_genre_def add_tag_def by (intro keeps_intros)

lemma keeps_gain_match [keeps_intros]: "keeps (only_gains d0) (try_match p m)"
  unfolding try_match_def Let_def by (intro keeps_intros)

lemma keeps_gain_note [keeps_intros]: "keeps (only_gains d0) (note_failed out i)"
  unfolding note_failed_def by (intro keeps_intros)

lemma keeps_gain_apply_match [keeps_intros]: "keeps (only_gains d0) (apply_match p i pr pid)"
  unfolding apply_match_def by (intro keeps_intros)

lemma keeps_gain_tags_loop [keeps_intros]: "keeps (only_gains d0) (refresh_tags_loop p is)"
  by (induction "is") (auto intro!: keeps_intros)

lemma keeps_gain_enrich_loop [keeps_intros]: "keeps (only_gains d0) (enrich_loop p is)"
  by (induction "is") (auto intro!: keeps_intros)

lemma keeps_gain_runs:
  "keeps (only_gains d0) (auto_enrich p i)" "keeps (only_gains d0) (refresh_media p i)" "keeps (only_gains d0) (enrich_library p)"
  unfolding auto_enrich_def refresh_media_def enrich_library_def refresh_sparse_tags_def Let_def by (intro keeps_intros)+


text \<open>
  C20: enriching only fills gaps: whichever calls fail and whatever the provider answers, after a run over one
  entry, over the library or a refresh every row of the library is the one it was, but for a description, status,
  author or cover that were empty and the time of a failed search, and no table other than genres, tags and links
  has changed.
\<close>

theorem enriching_only_fills_gaps:
  "enriched (w_db w) (w_db (snd (auto_enrich p i w))) \<and> enriched (w_db w) (w_db (snd (refresh_media p i w))) \<and>
   enriched (w_db w) (w_db (snd (enrich_library p w)))" for w :: "'z world_scheme"
proof -
  have "keeps (only_gains (w_db w) :: 'z world_scheme \<Rightarrow> bool) (auto_enrich p i)"
    "keeps (only_gains (w_db w) :: 'z world_scheme \<Rightarrow> bool) (refresh_media p i)"
    "keeps (only_gains (w_db w) :: 'z world_scheme \<Rightarrow> bool) (enrich_library p)"
    by (rule keeps_gain_runs)+
  then show ?thesis by (simp add: keeps_def)
qed

section \<open>Links the user fixed\<close>

definition same_link :: "metadata_link \<Rightarrow> metadata_link \<Rightarrow> bool" where
  "same_link l x \<longleftrightarrow> l_media x = l_media l \<and> l_provider x = l_provider l"

text \<open>The link \<open>GetMetadataLink\<close> answers for the key of \<open>l\<close> is \<open>l\<close>.\<close>

definition holds_link :: "metadata_link \<Rightarrow> db \<Rightarrow> bool" where
  "holds_link l d \<longleftrightarrow> find (same_link l) (metadata_links d) = Some l"

abbreviation holding :: "metadata_link \<Rightarrow> 'z world_scheme \<Rightarrow> bool" where
  "holding l \<equiv> \<lambda>w. holds_link l (w_db w)"

lemma keeps_after_query:
  assumes "keeps I q" "\<And>e. keeps I (f (Inl e))" "\<And>w x w'. I w \<Longrightarrow> q w = (Inr x, w') \<Longrightarrow> keeps I (f (Inr x))"
  shows "keeps I (seq (attempt q) f)"
proof (rule keepsI)
  fix w assume w: "I w"
  obtain r w' where q: "q w = (r, w')" by fastforce
  then have "I w'" using assms(1) w keepsD by metis
  moreover have "keeps I (f r)" using assms(2,3) q w by (cases r) auto
  ultimately show "I (snd (seq (attempt q) f w))" using q by (simp add: keeps_def act_simps)
qed

lemma keeps_holding_calls [keeps_intros]:
  "keeps (holding l) (db_call (q_gap_fill_media_metadata a b c e i))"
  "keeps (holding l) (db_call (q_create_genre name))" "keeps (holding l) (db_call (q_add_genre_to_media i gid))"
  "keeps (holding l) (db_call (q_create_tag name))" "keeps (holding l) (db_call (q_add_tag_to_media i gid n))"
  "keeps (holding l) (db_call (q_set_media_metadata_search_failed i))"
  "keeps (holding l) (db_call q_backfill_missing_covers)"
  by (rule keeps_db_call; auto simp: holds_link_def q_gap_fill_media_metadata_def q_update_media_def update_returning_def
      q_create_genre_def q_add_genre_to_media_def q_create_tag_def q_add_tag_to_media_def q_set_media_metadata_search_failed_def
      q_backfill_missing_covers_def exec_def Let_def split: prod.splits option.splits)+

lemma keeps_holding_reads [keeps_intros]:
  "keeps (holding l) (db_call (q_get_media i))" "keeps (holding l) (db_call (q_get_metadata_link i pr))"
  "keeps (holding l) (db_call (q_list_media_ids_with_sparse_tags n))"
  "keeps (holding l) (db_call q_list_media_ids_without_metadata_link)"
  unfolding q_get_media_def q_get_metadata_link_def q_list_media_ids_with_sparse_tags_def
  by (rule keeps_db_call; auto simp: q_list_media_ids_without_metadata_link_def select_one_def select_all_def split: option.splits)+

lemma upsert_link_links:
  "metadata_links (snd (q_upsert_metadata_link i pr pid url cov conf lk now d)) =
     (if i \<in> m_id ` set (media d) then snd (upsert (\<lambda>l. l_media l = i \<and> l_provider l = pr) (rematched pid url cov conf lk now)
        (new_match i pr pid url cov conf lk now (next_id (map l_id (metadata_links d)))) (metadata_links d))
      else metadata_links d)"
  by (simp add: q_upsert_metadata_link_def with_fk_def split: prod.split)

lemma match_fields [simp]:
  "l_media (rematched pid url cov conf lk now l) = l_media l" "l_provider (rematched pid url cov conf lk now l) = l_provider l"
  "l_provider_id (rematched pid url cov conf lk now l) = pid" "l_locked (rematched pid url cov conf lk now l) = lk"
  "l_confidence (rematched pid url cov conf lk now l) = conf"
  "l_media (new_match i pr pid url cov conf lk now k) = i" "l_provider (new_match i pr pid url cov conf lk now k) = pr"
  "l_provider_id (new_match i pr pid url cov conf lk now k) = pid" "l_locked (new_match i pr pid url cov conf lk now k) = lk"
  "l_confidence (new_match i pr pid url cov conf lk now k) = conf"
  by (simp_all add: rematched_def new_match_def)

lemma keeps_holding_link [keeps_intros]:
  assumes "i \<noteq> l_media l \<or> pr \<noteq> l_provider l"
  shows "keeps (holding l) (db_call (q_upsert_metadata_link i pr pid url cov conf lk))"
proof (rule keeps_db_call)
  fix now d assume d: "holds_link l d"
  have "find (same_link l) (snd (upsert (\<lambda>x. l_media x = i \<and> l_provider x = pr) (rematched pid url cov conf lk now)
      (new_match i pr pid url cov conf lk now k) (metadata_links d))) = find (same_link l) (metadata_links d)" for k
    using assms by (intro upsert_find_other) (auto simp: same_link_def)
  then show "holds_link l (snd (q_upsert_metadata_link i pr pid url cov conf lk now d))"
    using d by (simp add: holds_link_def upsert_link_links)
qed

lemma keeps_holding_apply [keeps_intros]:
  "i \<noteq> l_media l \<or> pr \<noteq> l_provider l \<Longrightarrow> keeps (holding l) (apply_candidate i pr c conf lk)"
  unfolding apply_candidate_def add_genre_def add_tag_def by (intro keeps_intros)

lemma keeps_holding_match [keeps_intros]: "m_id m \<noteq> l_media l \<Longrightarrow> keeps (holding l) (try_match p m)"
  unfolding try_match_def Let_def by (intro keeps_intros) simp

lemma keeps_holding_note [keeps_intros]: "keeps (holding l) (note_failed out i)"
  unfolding note_failed_def by (intro keeps_intros)

lemma keeps_holding_enrich_loop: "l_media l \<notin> set is \<Longrightarrow> keeps (holding l :: 'z world_scheme \<Rightarrow> bool) (enrich_loop p is)"
proof (induction "is")
  case (Cons i "is")
  have get: "m_id m = i" if "db_call (q_get_media i) w = (Inr m, w')" for m and w w' :: "'z world_scheme"
    using db_select_one_ok [OF that [unfolded q_get_media_def]] by (auto simp: find_Some_iff)
  have step: "keeps (holding l :: 'z world_scheme \<Rightarrow> bool) (seq (try_match p m) (\<lambda>(out, err). seq (note_failed out i) (\<lambda>_. if rate_limited err then ret False else enrich_loop p is)))"
    if "m_id m = i" for m
    using that Cons by (intro keeps_intros) auto
  show ?case
    unfolding enrich_loop.simps
    by (rule keeps_after_query, intro keeps_intros) (use Cons step get in auto)
qed (simp add: keeps_ret)

lemma keeps_holding_tags_loop: "l_locked l \<noteq> 0 \<Longrightarrow> keeps (holding l :: 'z world_scheme \<Rightarrow> bool) (refresh_tags_loop p is)"
proof (induction "is")
  case (Cons i "is")
  have got: "x = l" if w: "holding l w" and "db_call (q_get_metadata_link i default_provider) w = (Inr x, w')"
      and k: "i = l_media l" "default_provider = l_provider l" for x and w w' :: "'z world_scheme"
  proof -
    have "find (\<lambda>x. l_media x = i \<and> l_provider x = default_provider) (metadata_links (w_db w)) = Some x"
      using db_select_one_ok [OF that(2) [unfolded q_get_metadata_link_def]] .
    moreover have "(\<lambda>x. l_media x = i \<and> l_provider x = default_provider) = same_link l"
      using k by (auto simp: same_link_def)
    ultimately show ?thesis using w by (simp add: holds_link_def)
  qed
  have app: "keeps (holding l :: 'z world_scheme \<Rightarrow> bool) (apply_match p i default_provider pid)" if "i \<noteq> l_media l \<or> default_provider \<noteq> l_provider l" for pid
    using that unfolding apply_match_def by (intro keeps_intros)
  show ?case
    unfolding refresh_tags_loop.simps
  proof (rule keeps_after_query, intro keeps_intros)
    show "keeps (holding l :: 'z world_scheme \<Rightarrow> bool) (case Inl e of Inl _ \<Rightarrow> refresh_tags_loop p is | Inr x \<Rightarrow> f x)" for e f
      using Cons by simp
    fix w x and w' :: "'z world_scheme"
    assume "holding l w" "db_call (q_get_metadata_link i default_provider) w = (Inr x, w')"
    then have "l_locked x \<noteq> 0 \<or> i \<noteq> l_media l \<or> default_provider \<noteq> l_provider l" using got Cons.prems by blast
    then show "keeps (holding l :: 'z world_scheme \<Rightarrow> bool) (case Inr x of Inl _ \<Rightarrow> refresh_tags_loop p is
        | Inr y \<Rightarrow> if l_locked y \<noteq> 0 then refresh_tags_loop p is
          else seq (attempt (apply_match p i default_provider (l_provider_id y))) (\<lambda>a.
             if (case a of Inl e \<Rightarrow> err_is e ErrRateLimited | Inr _ \<Rightarrow> False) then ret False else refresh_tags_loop p is))"
      using Cons app by (auto intro!: keeps_intros)
  qed
qed (simp add: keeps_ret)

lemma keeps_holding_library: 
  assumes "l_locked l \<noteq> 0"
  shows "keeps (holding l :: 'z world_scheme \<Rightarrow> bool) (enrich_library p)"
proof -
  have ids: "l_media l \<notin> set x" if "holding l w" "db_call q_list_media_ids_without_metadata_link w = (Inr x, w')" for x and w w' :: "'z world_scheme"
  proof -
    have "l \<in> set (metadata_links (w_db w))" using that(1) by (auto simp: holds_link_def find_Some_iff)
    then show ?thesis using db_call_result [OF that(2)] by (auto simp: q_list_media_ids_without_metadata_link_def)
  qed
  have "keeps (holding l :: 'z world_scheme \<Rightarrow> bool) (seq (attempt (db_call q_list_media_ids_without_metadata_link)) (\<lambda>r. case r of
       Inl _ \<Rightarrow> ret ()
     | Inr is \<Rightarrow> if is = [] then ret ()
         else seq (enrich_loop p is) (\<lambda>went_through. if went_through then refresh_sparse_tags p else ret ())))"
  proof (rule keeps_after_query, intro keeps_intros, simp add: keeps_ret)
    fix w x and w' :: "'z world_scheme"
    assume "holding l w" "db_call q_list_media_ids_without_metadata_link w = (Inr x, w')"
    then show "keeps (holding l :: 'z world_scheme \<Rightarrow> bool) (case Inr x of Inl _ \<Rightarrow> ret () | Inr is \<Rightarrow> if is = [] then ret ()
         else seq (enrich_loop p is) (\<lambda>went_through. if went_through then refresh_sparse_tags p else ret ()))"
      using ids keeps_holding_enrich_loop [where l = l and p = p] keeps_holding_tags_loop [OF assms] unfolding refresh_sparse_tags_def
      by (auto intro!: keeps_intros)
  qed
  then show ?thesis unfolding enrich_library_def by (rule keeps_seq [OF keeps_attempt [OF keeps_holding_calls(7)]])
qed

text \<open>
  C19: a run over the library never touches a link the user fixed: whichever calls fail and whatever the
  provider answers, the link \<open>GetMetadataLink\<close> answered before the run it answers after it.
\<close>

theorem library_run_keeps_fixed_links:
  fixes w :: "'z world_scheme"
  assumes "find (\<lambda>x. l_media x = i \<and> l_provider x = provider) (metadata_links (w_db w)) = Some l" "l_locked l \<noteq> 0"
  shows "find (\<lambda>x. l_media x = i \<and> l_provider x = provider) (metadata_links (w_db (snd (enrich_library p w)))) = Some l"
proof -
  have "l_media l = i" "l_provider l = provider" using assms(1) by (auto simp: find_Some_iff)
  then have s: "(\<lambda>x. l_media x = i \<and> l_provider x = provider) = same_link l" by (auto simp: same_link_def)
  show ?thesis
    using keeps_holding_library [OF assms(2), of p] assms(1) unfolding s keeps_def holds_link_def by blast
qed


section \<open>A run that loses a link\<close>

text \<open>An entry with the link its user fixed, and a provider that answers another entry of the same title.\<close>

definition demo_link :: metadata_link where
  "demo_link = \<lparr>l_id = 1, l_media = 1, l_provider = default_provider, l_provider_id = ''7'', l_provider_url = [],
     l_confidence = 1, l_locked = 1, l_matched_at = 5, l_cover_url = []\<rparr>"

definition demo_linked :: world where
  "demo_linked = demo_world\<lparr>w_db := empty_db\<lparr>media := [demo_medium 1 1 ''m1'' (Some 5)], metadata_links := [demo_link]\<rparr>\<rparr>"

definition demo_answer :: candidate where
  "demo_answer = no_candidate\<lparr>ca_provider_id := ''9'', ca_titles := [''T'']\<rparr>"

definition demo_provider :: provider where
  "demo_provider = \<lparr>pv_search = (\<lambda>_ _. Inr [demo_answer]), pv_fetch = (\<lambda>_. Inr demo_answer), pv_mal_id = (\<lambda>_. Inr 0)\<rparr>"

lemma find_demo_link: "find (\<lambda>x. l_media x = 1 \<and> l_provider x = default_provider) (metadata_links (w_db demo_linked)) = Some demo_link"
  by (simp add: demo_linked_def demo_link_def)

theorem library_run_keeps_fixed_links_witness:
  "find (\<lambda>x. l_media x = 1 \<and> l_provider x = default_provider)
     (metadata_links (w_db (snd (enrich_library demo_provider demo_linked)))) = Some demo_link"
  by (rule library_run_keeps_fixed_links [OF find_demo_link]) (simp add: demo_link_def)

lemma demo_match: "best_match ''T'' 0 [demo_answer] = (demo_answer, 1)"
proof -
  have "match_score (normalize_title ''T'') 0 demo_answer = 1"
    by (simp add: match_score_def year_adjust_def demo_answer_def no_candidate_def dice_coefficient_def normalize_title_def) code_simp
  then show ?thesis by (simp add: best_match_def Let_def)
qed

lemma auto_apply_score_le: "auto_apply_score \<le> 1"
  unfolding auto_apply_score_def using fl_error [of "87 / 100"] by (simp add: abs_if split: if_splits)

text \<open>
  When the links of an entry cannot be read, \<open>AutoEnrich\<close> takes that for an entry with no link: the link its
  user fixed is overwritten by the guess.
\<close>

theorem auto_enrich_loses_fixed_link:
  "find (\<lambda>x. l_media x = 1 \<and> l_provider x = default_provider)
     (metadata_links (w_db (snd (auto_enrich demo_provider 1 (demo_linked\<lparr>w_faults := [None, Some (ErrExternal ''database is locked'')]\<rparr>)))))
   = Some (demo_link\<lparr>l_provider_id := ''9'', l_locked := 0, l_matched_at := 9\<rparr>)"
proof -
  have answer: "ca_provider_id demo_answer = ''9''" "ca_url demo_answer = []" "ca_cover_url demo_answer = []" "ca_description demo_answer = []"
    "ca_status demo_answer = []" "ca_authors demo_answer = []" "ca_genres demo_answer = []" "weighted_tags demo_answer = []"
    by (simp_all add: demo_answer_def no_candidate_def weighted_tags_def)
  have match: "try_match demo_provider (demo_medium 1 1 ''m1'' (Some 5)) (demo_linked\<lparr>w_faults := []\<rparr>) =
      (Inr (Matched, None), demo_linked\<lparr>w_faults := [], w_db := empty_db\<lparr>media := [demo_medium 1 1 ''m1'' (Some 5)],
         metadata_links := [demo_link\<lparr>l_provider_id := ''9'', l_locked := 0, l_matched_at := 9\<rparr>]\<rparr>\<rparr>)"
    using auto_apply_score_le
    by (simp add: try_match_def apply_candidate_def ext_call_def in_tx_def act_simps db_call_def next_fault_def demo_provider_def demo_match answer
        demo_linked_def demo_world_def demo_link_def demo_medium_def q_gap_fill_media_metadata_def q_update_media_def update_returning_def
        q_upsert_metadata_link_def with_fk_def upsert_def rematched_def update_where_def fill_def no_cover_def string_of_def null_string_def)
  have "auto_enrich demo_provider 1 (demo_linked\<lparr>w_faults := [None, Some (ErrExternal ''database is locked'')]\<rparr>) =
     (case try_match demo_provider (demo_medium 1 1 ''m1'' (Some 5)) (demo_linked\<lparr>w_faults := []\<rparr>) of
        (Inl e, w) \<Rightarrow> (Inl e, w) | (Inr (out, _), w) \<Rightarrow> note_failed out 1 w)"
    by (simp add: auto_enrich_def act_simps db_call_def next_fault_def q_get_media_def select_one_def demo_linked_def demo_world_def
        demo_medium_def split: prod.split sum.split)
  then show ?thesis using match by (simp add: note_failed_def act_simps demo_linked_def demo_link_def)
qed

section \<open>What an applied match leaves\<close>

lemma ret_state: "ret x s = (r, s') \<Longrightarrow> s' = s"
  by (simp add: ret_def)

lemma apply_candidate_link:
  assumes "apply_candidate i pr c conf lk w = (Inr m, w')"
  obtains x where "find (\<lambda>x. l_media x = i \<and> l_provider x = pr) (metadata_links (w_db w')) = Some x"
    "l_locked x = (if lk then 1 else 0)" "l_provider_id x = ca_provider_id c" "l_confidence x = conf"
proof -
  obtain w1 w2 where body: "seq (wrap (''gap-fill media '' @ int_digits i) (db_call (q_gap_fill_media_metadata (ca_description c) (ca_status c)
        (join '', '' (ca_authors c)) (ca_cover_url c) i))) (\<lambda>updated.
     seq (for_each (add_genre i) (ca_genres c)) (\<lambda>_.
     seq (for_each (add_tag i) (weighted_tags c)) (\<lambda>_.
     seq (db_call (q_upsert_metadata_link i pr (ca_provider_id c) (ca_url c) (ca_cover_url c) conf (if lk then 1 else 0))) (\<lambda>_.
     ret updated)))) w1 = (Inr m, w2)" and "next_fault w2 = (None, w')"
    using in_tx_commit [OF assms [unfolded apply_candidate_def]] by metis
  moreover obtain u1 x where up: "db_call (q_upsert_metadata_link i pr (ca_provider_id c) (ca_url c) (ca_cover_url c) conf (if lk then 1 else 0)) u1 = (Inr x, w2)"
    using body by (elim seq_InrE) (drule ret_state, hypsubst, erule that)
  ultimately have d: "w_db w' = w_db w2" using next_fault_db [of w2] by simp
  let ?P = "\<lambda>l. l_media l = i \<and> l_provider l = pr"
  let ?f = "rematched (ca_provider_id c) (ca_url c) (ca_cover_url c) conf (if lk then 1 else 0) (w_now u1)"
  have "w_db w2 = snd (q_upsert_metadata_link i pr (ca_provider_id c) (ca_url c) (ca_cover_url c) conf (if lk then 1 else 0) (w_now u1) (w_db u1))"
    and fk: "i \<in> m_id ` set (media (w_db u1))"
    using db_call_result [OF up] by (auto simp: q_upsert_metadata_link_def with_fk_def split: if_splits prod.splits)
  then obtain new where links: "metadata_links (w_db w2) = snd (upsert ?P ?f new (metadata_links (w_db u1)))"
      and new: "l_media new = i" "l_provider new = pr" "l_locked new = (if lk then 1 else 0)" "l_provider_id new = ca_provider_id c" "l_confidence new = conf"
    using upsert_link_links match_fields by simp
  have "find ?P (metadata_links (w_db w')) = Some (case find ?P (metadata_links (w_db u1)) of None \<Rightarrow> new | Some r \<Rightarrow> ?f r)"
    unfolding d links by (rule upsert_find) (simp_all add: new)
  then show ?thesis
    by (rule that) (simp_all add: new split: option.split)
qed

text \<open>
  The tag refresh goes through \<open>Apply\<close>, which is the user's choice of a match: every link it refreshes is
  stored as one the user fixed, with full confidence.
\<close>

theorem tag_refresh_fixes_links:
  assumes "apply_match p i pr pid w = (Inr m, w')"
  shows "\<exists>x. find (\<lambda>x. l_media x = i \<and> l_provider x = pr) (metadata_links (w_db w')) = Some x \<and> l_locked x = 1 \<and> l_confidence x = 1"
proof -
  obtain c w1 where "apply_candidate i pr c 1 True w1 = (Inr m, w')"
    using assms by (auto simp: apply_match_def act_simps split: if_splits prod.splits sum.splits)
  then show ?thesis by (rule apply_candidate_link) auto
qed

end
