(* ===== verification/AniListApi.thy ===== *)
theory AniListApi
  imports MetadataMatch "HOL-Library.Word"
begin

text \<open>
  The AniList service as the program calls it: the limiter all calls share (\<open>internal/anilistrl/anilistrl.go\<close>) and
  the metadata client (\<open>internal/metadata/anilist.go\<close>). Times are nanoseconds. The network is a function of the
  number of the request and its contents that says how long the answer took and what it was; a decoded JSON text is a value. Of two
  texts in an error that wraps \<open>ErrRateLimited\<close> the wrapped one comes first in Go and last here.
\<close>

section \<open>The limiter\<close>

definition second :: int where "second = 1000000000"
definition min_gap :: int where "min_gap = 3 * second"

text \<open>How long a caller waits, and the next slot; that its context ends while it waits is left out.\<close>

definition rl_wait :: "int \<Rightarrow> int \<Rightarrow> int \<times> int" where
  "rl_wait now next = (let slot = (if next < now then now else next) in (slot - now, slot + min_gap))"

text \<open>A product of seconds wraps at 64 bits.\<close>

definition duration_of :: "int \<Rightarrow> int" where
  "duration_of secs = sint (word_of_int (secs * second) :: 64 word)"

definition rl_backoff :: "int \<Rightarrow> int \<Rightarrow> int \<Rightarrow> int" where
  "rl_backoff now secs next =
     (let secs = (if secs \<le> 0 then 60 else secs); extend = now + duration_of secs
      in if extend > next then extend else next)"

text \<open>
  The log of the requests, kept for the properties: when each was sent, and when it was answered with which
  status and which \<open>Retry-After\<close>.
\<close>

record sent_request =
  sr_time :: int
  sr_reply :: "(int \<times> int \<times> string) option"

record al_client =
  next_slot :: int
  clock :: int
  sent :: "sent_request list"

definition wait_turn :: "('z al_client_scheme, unit) act" where
  "wait_turn s = (let (wait, next) = rl_wait (clock s) (next_slot s)
     in (Inr (), s\<lparr>next_slot := next, clock := (if wait \<le> 0 then clock s else clock s + wait)\<rparr>))"

definition back_off :: "int \<Rightarrow> ('z al_client_scheme, unit) act" where
  "back_off secs s = (Inr (), s\<lparr>next_slot := rl_backoff (clock s) secs (next_slot s)\<rparr>)"

section \<open>Requests\<close>

record 'd http_reply =
  hr_status :: int
  hr_status_text :: string
  hr_retry_after :: string
  hr_body :: string
  hr_envelope :: "go_err + (string list \<times> (go_err + 'd))"

type_synonym ('q, 'd) net = "nat \<Rightarrow> 'q \<Rightarrow> nat \<times> (go_err + 'd http_reply)"

definition send :: "('q, 'd) net \<Rightarrow> 'q \<Rightarrow> ('z al_client_scheme, 'd http_reply) act" where
  "send net q s = (case net (length (sent s)) q of (took, r) \<Rightarrow>
     (r, s\<lparr>sent := sent s @ [\<lparr>sr_time = clock s, sr_reply = (case r of Inl _ \<Rightarrow> None
            | Inr h \<Rightarrow> Some (clock s + int took, hr_status h, hr_retry_after h))\<rparr>],
          clock := clock s + int took\<rparr>))"

text \<open>\<open>n, _ := strconv.Atoi(s)\<close>: 0 for no number, the nearest 64-bit number for one that is too large.\<close>

definition atoi_value :: "string \<Rightarrow> int" where
  "atoi_value s = (case parse_int64 s of Some n \<Rightarrow> n
     | None \<Rightarrow> (let neg = has_prefix s ''-''; ds = (if neg \<or> has_prefix s ''+'' then drop 1 s else s) in
         if ds = [] \<or> \<not> list_all is_digit ds then 0 else if neg then - (2 ^ 63) else 2 ^ 63 - 1))"

definition retry_after :: "'d http_reply \<Rightarrow> int" where
  "retry_after h = atoi_value (trim_space (hr_retry_after h))"

definition snip :: "string \<Rightarrow> nat \<Rightarrow> string" where
  "snip s n = (if length s \<le> n then s else take n s)"

definition http_error :: "'d http_reply \<Rightarrow> string" where
  "http_error h = hr_status_text h @ '': '' @ snip (hr_body h) 200"

definition decoded :: "go_err + 'd \<Rightarrow> ('s, 'd) act" where
  "decoded r s = (r, s)"

section \<open>The metadata client\<close>

function al_query_from :: "('q, 'd) net \<Rightarrow> 'q \<Rightarrow> nat \<Rightarrow> ('z al_client_scheme, 'd) act" where
  "al_query_from net q tries =
     seq wait_turn (\<lambda>_. seq (send net q) (\<lambda>h.
     if hr_status h = 429
     then seq (back_off (retry_after h)) (\<lambda>_.
            if tries = 0 then al_query_from net q (tries + 1) else fail (ErrWrap (http_error h) ErrRateLimited))
     else if hr_status h \<noteq> 200 then fail (ErrMsg (''anilist: '' @ http_error h))
     else (case hr_envelope h of
         Inl e \<Rightarrow> fail (ErrWrap ''anilist: decode'' e)
       | Inr (errs, d) \<Rightarrow> (case errs of
             msg # _ \<Rightarrow> if contains (to_lower msg) ''too many requests''
               then seq (back_off (retry_after h)) (\<lambda>_.
                      if tries = 0 then al_query_from net q (tries + 1) else fail (ErrWrap msg ErrRateLimited))
               else fail (ErrMsg (''anilist: '' @ msg))
           | [] \<Rightarrow> decoded d))))"
  by pat_completeness auto
termination
  by (relation "measure (\<lambda>(net, q, tries). 1 - tries)") auto

declare al_query_from.simps [simp del]

definition al_query :: "('q, 'd) net \<Rightarrow> 'q \<Rightarrow> ('z al_client_scheme, 'd) act" where
  "al_query net q = al_query_from net q 0"

text \<open>The variables of the three queries.\<close>

datatype al_request =
    SearchTitles string string "string option"
  | FetchEntry int
  | FetchMalId int

record al_service =
  an_search :: "(al_request, al_media list) net"
  an_entry :: "(al_request, al_media) net"
  an_mal :: "(al_request, int) net"

definition search_vars :: "string \<Rightarrow> content_type \<Rightarrow> al_request" where
  "search_vars query ct = SearchTitles query (if ct = CtAnime then ''ANIME'' else ''MANGA'') (if ct = CtNovel then Some ''NOVEL'' else None)"

definition al_search :: "al_service \<Rightarrow> string \<Rightarrow> content_type \<Rightarrow> ('z al_client_scheme, candidate list) act" where
  "al_search sv query ct = seq (al_query (an_search sv) (search_vars query ct)) (\<lambda>ms. ret (search_candidates ct ms))"

definition bad_anilist_id :: "string \<Rightarrow> go_err" where
  "bad_anilist_id pid = ErrMsg (''bad anilist id '' @ quoted pid)"

definition al_fetch :: "al_service \<Rightarrow> string \<Rightarrow> ('z al_client_scheme, candidate) act" where
  "al_fetch sv pid = (case parse_int64 pid of None \<Rightarrow> fail (bad_anilist_id pid)
     | Some i \<Rightarrow> seq (al_query (an_entry sv) (FetchEntry i)) (\<lambda>m. ret (to_candidate m)))"

definition al_mal_id :: "al_service \<Rightarrow> string \<Rightarrow> ('z al_client_scheme, int) act" where
  "al_mal_id sv pid = (case parse_int64 pid of None \<Rightarrow> fail (bad_anilist_id pid)
     | Some i \<Rightarrow> al_query (an_mal sv) (FetchMalId i))"

section \<open>The answer of a query\<close>

definition limited :: "'d http_reply \<Rightarrow> bool" where
  "limited h \<longleftrightarrow> hr_status h = 429 \<or> hr_status h = 200 \<and>
     (case hr_envelope h of Inr (msg # _, _) \<Rightarrow> contains (to_lower msg) ''too many requests'' | _ \<Rightarrow> False)"

text \<open>What a reply means to the caller once it is not asked again.\<close>

definition meaning :: "'d http_reply \<Rightarrow> go_err + 'd" where
  "meaning h =
     (if hr_status h = 429 then Inl (ErrWrap (http_error h) ErrRateLimited)
      else if hr_status h \<noteq> 200 then Inl (ErrMsg (''anilist: '' @ http_error h))
      else case hr_envelope h of Inl e \<Rightarrow> Inl (ErrWrap ''anilist: decode'' e)
       | Inr (msg # _, d) \<Rightarrow> Inl (if limited h then ErrWrap msg ErrRateLimited else ErrMsg (''anilist: '' @ msg))
       | Inr ([], d) \<Rightarrow> d)"

lemma al_query_last:
  "al_query_from net q (Suc n) s = (case wait_turn s of (_, s1) \<Rightarrow> (case send net q s1 of
     (Inl e, s2) \<Rightarrow> (Inl e, s2) | (Inr h, s2) \<Rightarrow> (meaning h, if limited h then snd (back_off (retry_after h) s2) else s2)))"
  by (subst al_query_from.simps)
    (auto simp: act_simps wait_turn_def back_off_def meaning_def limited_def decoded_def Let_def split: prod.split sum.split list.split)

lemma al_query_first:
  "al_query net q s = (case wait_turn s of (_, s1) \<Rightarrow> (case send net q s1 of
     (Inl e, s2) \<Rightarrow> (Inl e, s2)
   | (Inr h, s2) \<Rightarrow> if limited h then al_query_from net q 1 (snd (back_off (retry_after h) s2)) else (meaning h, s2)))"
  unfolding al_query_def
  by (subst al_query_from.simps)
    (auto simp: act_simps wait_turn_def back_off_def meaning_def limited_def decoded_def Let_def split: prod.split sum.split list.split)

text \<open>
  C23: a query that is told to slow down is asked once more and no third time: it sends one request, or two if the
  first was limited, and answers what the last reply means; so the caller is told of a rate limit exactly if the
  retry was limited too, with status 429 or with the error AniList sends with status 200.
\<close>

theorem al_query_retries_once:
  "case al_query net q s of (r, s') \<Rightarrow>
     (let n = length (sent s) in case snd (net n q) of
        Inl e \<Rightarrow> r = Inl e \<and> length (sent s') = n + 1
      | Inr h \<Rightarrow> if \<not> limited h then r = meaning h \<and> length (sent s') = n + 1
          else r = (case snd (net (n + 1) q) of Inl e \<Rightarrow> Inl e | Inr h' \<Rightarrow> meaning h') \<and> length (sent s') = n + 2)"
  by (auto simp: al_query_first al_query_last [of net q 0, simplified] wait_turn_def send_def back_off_def Let_def
      split: prod.splits sum.splits if_splits)

section \<open>Spacing\<close>

text \<open>
  Until when a reply asks the program to send nothing: a reply with status 429 names the seconds, and means a
  minute when it names none. More seconds than fit into 64 bits of nanoseconds, 292 years, are not counted.
\<close>

definition paused_until :: "sent_request \<Rightarrow> int option" where
  "paused_until r = (case sr_reply r of None \<Rightarrow> None
     | Some (t, status, header) \<Rightarrow> (let n = atoi_value (trim_space header) in
         if status \<noteq> 429 \<or> 9223372036 < n then None
         else Some (t + (if n \<le> 0 then 60 else n) * 1000000000)))"

text \<open>
  What a client did between two states: it sent requests at times not before the next slot it started with, each
  at least a gap after the one before and not within a pause an earlier reply asked for; and the next slot is a
  gap after the last and after all these pauses.
\<close>

abbreviation gap_after :: "int \<Rightarrow> int \<Rightarrow> bool" where
  "gap_after a b \<equiv> a + 3000000000 \<le> b"

definition lets_pass :: "sent_request \<Rightarrow> int \<Rightarrow> bool" where
  "lets_pass r t \<longleftrightarrow> gap_after (sr_time r) t \<and> (\<forall>u. paused_until r = Some u \<longrightarrow> u \<le> t)"

definition spaced_run :: "'y al_client_scheme \<Rightarrow> 'z al_client_scheme \<Rightarrow> bool" where
  "spaced_run s s' \<longleftrightarrow> next_slot s \<le> next_slot s' \<and>
     (\<exists>new. sent s' = sent s @ new \<and> sorted_wrt (\<lambda>a b. lets_pass a (sr_time b)) new \<and>
        (\<forall>r \<in> set new. next_slot s \<le> sr_time r \<and> lets_pass r (next_slot s')))"

lemma spaced_refl [simp]: "spaced_run s s"
  by (simp add: spaced_run_def)

lemma lets_pass_later: "lets_pass r t \<Longrightarrow> t \<le> t' \<Longrightarrow> lets_pass r t'"
  by (auto simp: lets_pass_def intro: order_trans)

lemma spaced_trans:
  assumes "spaced_run a b" "spaced_run b c"
  shows "spaced_run a c"
proof -
  obtain x y where x: "sent b = sent a @ x" "sorted_wrt (\<lambda>a b. lets_pass a (sr_time b)) x"
      "\<forall>r \<in> set x. next_slot a \<le> sr_time r \<and> lets_pass r (next_slot b)"
    and y: "sent c = sent b @ y" "sorted_wrt (\<lambda>a b. lets_pass a (sr_time b)) y"
      "\<forall>r \<in> set y. next_slot b \<le> sr_time r \<and> lets_pass r (next_slot c)"
    using assms unfolding spaced_run_def by auto
  have ab: "next_slot a \<le> next_slot b" "next_slot b \<le> next_slot c" using assms by (simp_all add: spaced_run_def)
  have "sorted_wrt (\<lambda>a b. lets_pass a (sr_time b)) (x @ y)"
    using x y by (auto simp: sorted_wrt_append intro: lets_pass_later)
  then show ?thesis
    unfolding spaced_run_def using x y ab
    by (intro conjI exI [of _ "x @ y"]) (auto intro: lets_pass_later order_trans)
qed

lemma keeps_spaced: "(\<And>s. spaced_run s (snd (m s))) \<Longrightarrow> keeps (spaced_run s0 :: 'z al_client_scheme \<Rightarrow> bool) m"
  by (blast intro: keepsI spaced_trans)

lemma spaced_back_off [simp]: "spaced_run s (snd (back_off n s))"
  by (simp add: spaced_run_def back_off_def rl_backoff_def Let_def)

lemma keeps_spaced_back_off [keeps_intros]: "keeps (spaced_run s0 :: 'z al_client_scheme \<Rightarrow> bool) (back_off n)"
  by (rule keeps_spaced) simp

text \<open>A request is sent when its turn has come, and a pause it is answered with holds up the next.\<close>

lemma duration_of_fits: "0 \<le> n \<Longrightarrow> n \<le> 9223372036 \<Longrightarrow> duration_of n = n * 1000000000"
  unfolding duration_of_def second_def sint_sbintrunc' by (simp add: signed_take_bit_int_eq_self)

lemma backoff_passes:
  assumes "sr_reply r = Some (now, 429, hr_retry_after h)"
  shows "paused_until r = Some u \<Longrightarrow> u \<le> rl_backoff now (retry_after h) next"
  using assms duration_of_fits [of "retry_after h"] duration_of_fits [of 60]
  by (auto simp: paused_until_def rl_backoff_def retry_after_def Let_def split: if_splits)

lemma spaced_send:
  assumes "wait_turn s = (w, s1)" "send net q s1 = (r, s2)"
  shows "case r of Inl e \<Rightarrow> spaced_run s s2
    | Inr h \<Rightarrow> if hr_status h = 429 then spaced_run s (snd (back_off (retry_after h) s2)) else spaced_run s s2"
proof -
  define slot where "slot = max (clock s) (next_slot s)"
  obtain took where s1: "clock s1 = slot" "next_slot s1 = slot + 3000000000" "sent s1 = sent s"
    and net: "net (length (sent s1)) q = (took, r)"
    using assms by (auto simp: wait_turn_def rl_wait_def send_def Let_def min_gap_def second_def slot_def split: prod.splits if_splits)
  define e where "e = \<lparr>sr_time = slot, sr_reply = (case r of Inl _ \<Rightarrow> None
      | Inr h \<Rightarrow> Some (slot + int took, hr_status h, hr_retry_after h))\<rparr>"
  have s2: "sent s2 = sent s @ [e]" "clock s2 = slot + int took" "next_slot s2 = slot + 3000000000"
    using assms(2) net s1 by (auto simp: send_def e_def)
  have slot: "next_slot s \<le> slot" "sr_time e = slot" by (simp_all add: slot_def e_def)
  have quiet: "paused_until e = None" if "\<And>h. r = Inr h \<Longrightarrow> hr_status h \<noteq> 429"
    using that by (auto simp: e_def paused_until_def Let_def split: sum.split)
  have plain: "spaced_run s s2" if "\<And>h. r = Inr h \<Longrightarrow> hr_status h \<noteq> 429"
    using s2 slot quiet [OF that] by (auto simp: spaced_run_def lets_pass_def)
  have "spaced_run s (snd (back_off (retry_after h) s2))" if h: "r = Inr h" "hr_status h = 429" for h
  proof -
    let ?s3 = "snd (back_off (retry_after h) s2)"
    have "next_slot s2 \<le> next_slot ?s3" "sent ?s3 = sent s2" by (simp_all add: back_off_def rl_backoff_def Let_def)
    moreover have "paused_until e = Some u \<Longrightarrow> u \<le> next_slot ?s3" for u
      using backoff_passes [of e "slot + int took" h u "next_slot s2"] h s2(2) by (simp add: e_def back_off_def)
    ultimately show ?thesis using s2 slot by (auto simp: spaced_run_def lets_pass_def)
  qed
  then show ?thesis using plain by (cases r) auto
qed

lemma keeps_spaced_turn:
  assumes "\<And>h. keeps (spaced_run s0 :: 'z al_client_scheme \<Rightarrow> bool) (g h)" "\<And>h. keeps (spaced_run s0 :: 'z al_client_scheme \<Rightarrow> bool) (k h)"
  shows "keeps (spaced_run s0 :: 'z al_client_scheme \<Rightarrow> bool) (seq wait_turn (\<lambda>_. seq (send net q) (\<lambda>h.
     if hr_status h = 429 then seq (back_off (retry_after h)) (\<lambda>_. g h) else k h)))"
proof (rule keepsI)
  fix s :: "'z al_client_scheme" assume s: "spaced_run s0 s"
  obtain w s1 where w: "wait_turn s = (w, s1)" by fastforce
  obtain r s2 where r: "send net q s1 = (r, s2)" by fastforce
  have "w = Inr ()" using w by (auto simp: wait_turn_def split: prod.splits)
  note run = spaced_send [OF w r]
  show "spaced_run s0 (snd (seq wait_turn (\<lambda>_. seq (send net q) (\<lambda>h.
     if hr_status h = 429 then seq (back_off (retry_after h)) (\<lambda>_. g h) else k h)) s))"
  proof (cases r)
    case (Inl e)
    then show ?thesis using run w r \<open>w = Inr ()\<close> s by (auto simp: seq_def intro: spaced_trans)
  next
    case (Inr h)
    then show ?thesis
      using run w r \<open>w = Inr ()\<close> spaced_trans [OF s] assms [of h]
      by (auto simp: seq_def keeps_def back_off_def split: if_splits)
  qed
qed

lemma keeps_decoded [keeps_intros]: "keeps I (decoded r)"
  by (simp add: keeps_def decoded_def)

lemma keeps_spaced_al_query [keeps_intros]: "keeps (spaced_run s0 :: 'z al_client_scheme \<Rightarrow> bool) (al_query net q)"
proof -
  have "keeps (spaced_run s0 :: 'z al_client_scheme \<Rightarrow> bool) (al_query_from net q 1)"
    by (subst al_query_from.simps, rule keeps_spaced_turn) (auto intro!: keeps_intros)
  then show ?thesis
    unfolding al_query_def by (subst al_query_from.simps, intro keeps_spaced_turn) (auto intro!: keeps_intros)
qed

lemma keeps_spaced_metadata [keeps_intros]:
  "keeps (spaced_run s0 :: 'z al_client_scheme \<Rightarrow> bool) (al_search sv query ct)" "keeps (spaced_run s0 :: 'z al_client_scheme \<Rightarrow> bool) (al_fetch sv pid)" "keeps (spaced_run s0 :: 'z al_client_scheme \<Rightarrow> bool) (al_mal_id sv pid)"
  unfolding al_search_def al_fetch_def al_mal_id_def by (intro keeps_intros)+

text \<open>A time to wait that does not fit 64 bits of nanoseconds is one in the past.\<close>

theorem huge_retry_after_is_ignored:
  "now \<le> next \<Longrightarrow> rl_backoff now (atoi_value ''99999999999999999999'') next = next"
proof -
  have "atoi_value ''99999999999999999999'' = 2 ^ 63 - 1"
    by (simp add: atoi_value_def parse_int64_def is_digit_def ch_def digits_val_def digit_val_def Let_def int64_max_def int64_min_def)
  moreover have "duration_of (2 ^ 63 - 1) = - second" by (simp add: duration_of_def second_def)
  ultimately show "now \<le> next \<Longrightarrow> rl_backoff now (atoi_value ''99999999999999999999'') next = next"
    by (simp add: rl_backoff_def Let_def second_def)
qed

end
