(* ===== verification/TrackerAniList.thy ===== *)
theory TrackerAniList
  imports AniListApi Trackers
begin

text \<open>
  The statuses of the reading trackers (\<open>internal/tracker/tracker.go\<close>) and the tracker client of AniList
  (\<open>internal/tracker/anilist.go\<close>), which shares the limiter of \<open>AniListApi\<close> with the metadata client. An answer
  holds only the fields the query names. \<open>strings.EqualFold\<close> is used with letters that fold as ASCII.
\<close>

section \<open>Statuses\<close>

definition status_completed :: int where "status_completed = 3"
definition status_on_hold :: int where "status_on_hold = 4"
definition status_dropped :: int where "status_dropped = 5"
definition status_rereading :: int where "status_rereading = 6"

lemmas status_defs = status_reading_def status_plan_to_read_def status_completed_def status_on_hold_def status_dropped_def status_rereading_def

definition all_statuses :: "int list" where
  "all_statuses = [status_reading, status_plan_to_read, status_completed, status_on_hold, status_dropped, status_rereading]"

definition status_string :: "int \<Rightarrow> string" where
  "status_string s = (if s = status_reading then ''Reading'' else if s = status_plan_to_read then ''Plan to read''
     else if s = status_completed then ''Completed'' else if s = status_on_hold then ''On hold''
     else if s = status_dropped then ''Dropped'' else if s = status_rereading then ''Rereading'' else ''Unknown'')"

definition anime_string :: "int \<Rightarrow> string" where
  "anime_string s = (if s = status_reading then ''Watching'' else if s = status_plan_to_read then ''Plan to watch''
     else if s = status_rereading then ''Rewatching'' else status_string s)"

text \<open>How a tracker writes a status and reads it back.\<close>

locale status_codec =
  fixes to_remote :: "int \<Rightarrow> 'r" and from_remote :: "'r \<Rightarrow> int"
  assumes read_back: "s \<in> set all_statuses \<Longrightarrow> from_remote (to_remote s) = s"
    and known: "from_remote r \<in> set all_statuses"
begin

lemma settled: "from_remote (to_remote (from_remote r)) = from_remote r"
  by (rule read_back [OF known])

lemma told_apart: "s \<in> set all_statuses \<Longrightarrow> t \<in> set all_statuses \<Longrightarrow> to_remote s = to_remote t \<Longrightarrow> s = t"
  by (metis read_back)

end

section \<open>The service\<close>

type_synonym fuzzy_date = "int option \<times> int option \<times> int option"

record tal_entry =
  te_id :: int
  te_status :: string
  te_score :: f64
  te_progress :: f64
  te_private :: bool
  te_started :: fuzzy_date
  te_completed :: fuzzy_date

record tal_media =
  tm_id :: int
  tm_site_url :: string
  tm_chapters :: int
  tm_episodes :: int
  tm_type :: string
  tm_status :: string
  tm_format :: string
  tm_romaji :: string
  tm_english :: string
  tm_native :: string
  tm_description :: string
  tm_cover :: string
  tm_entry :: "tal_entry option"

record tal_item =
  ti_status :: string
  ti_score :: f64
  ti_progress :: f64
  ti_media :: tal_media

record tal_group =
  tg_status :: string
  tg_entries :: "tal_item list"

record tal_collection =
  tc_has_next :: bool
  tc_lists :: "tal_group list"

datatype tal_request =
    AskViewer string
  | AskSearch string string "(string \<times> string) list"
  | AskLibrary string string string "string list" int
  | AskMedia string int
  | AskSave string int string int f64 bool

record tal_service =
  tn_viewer :: "(tal_request, string \<times> string) net"
  tn_search :: "(tal_request, string \<Rightarrow> tal_media list) net"
  tn_library :: "(tal_request, tal_collection option) net"
  tn_media :: "(tal_request, tal_media) net"
  tn_save :: "(tal_request, tal_entry) net"

record tal_client = al_client +
  tal_list :: "(string \<times> library_entry \<times> int) list"

function tal_query_from :: "('q, 'd) net \<Rightarrow> 'q \<Rightarrow> nat \<Rightarrow> ('z al_client_scheme, 'd) act" where
  "tal_query_from net q tries =
     seq wait_turn (\<lambda>_. seq (send net q) (\<lambda>h.
     if hr_status h = 429
     then seq (back_off (retry_after h)) (\<lambda>_.
            if tries = 0 then tal_query_from net q (tries + 1) else fail (ErrMsg (''anilist: '' @ http_error h)))
     else if hr_status h = 401 then fail ErrReauth
     else if hr_status h \<noteq> 200 then fail (ErrMsg (''anilist: '' @ http_error h))
     else (case hr_envelope h of
         Inl e \<Rightarrow> fail (ErrWrap ''anilist: decode'' e)
       | Inr (errs, d) \<Rightarrow> (case errs of msg # _ \<Rightarrow> fail (ErrMsg (''anilist: '' @ msg)) | [] \<Rightarrow> decoded d))))"
  by pat_completeness auto
termination
  by (relation "measure (\<lambda>(net, q, tries). 1 - tries)") auto

declare tal_query_from.simps [simp del]

definition tal_query :: "('q, 'd) net \<Rightarrow> 'q \<Rightarrow> ('z al_client_scheme, 'd) act" where
  "tal_query net q = tal_query_from net q 0"

section \<open>Logging in\<close>

definition extract_token :: "string \<Rightarrow> string" where
  "extract_token pasted =
     (let s = trim_space pasted in
      if \<not> contains s ''access_token='' then s
      else let s = replace_all ''#'' ''&'' s;
               params = (case cut s (CHR ''?'') of Some (_, t) \<Rightarrow> t | None \<Rightarrow> s)
           in case find (\<lambda>p. has_prefix p ''access_token='') (split_on (CHR ''&'') params) of
                Some p \<Rightarrow> drop (length ''access_token='') p | None \<Rightarrow> [])"

definition anilist_token_ttl :: int where "anilist_token_ttl = 365 * 86400"

definition tal_exchange :: "tal_service \<Rightarrow> string \<Rightarrow> ('z al_client_scheme, auth) act" where
  "tal_exchange sv pasted =
     (let token = extract_token pasted in
      if token = [] then fail (ErrMsg ''no access token found in pasted value'')
      else seq (tal_query (tn_viewer sv) (AskViewer token)) (\<lambda>(name, format).
           seq (gets clock) (\<lambda>now.
           ret \<lparr>au_access_token = token, au_refresh_token = [], au_expires_at = Some (now div second + anilist_token_ttl),
                au_username = name, au_score_format = format\<rparr>)))"

definition tal_auth_url :: "string \<Rightarrow> string" where
  "tal_auth_url client_id = (if client_id = [] then []
     else ''https://anilist.co/api/v2/oauth/authorize?client_id='' @ client_id @ ''&response_type=token'')"

section \<open>Searching\<close>

definition tal_title :: "tal_media \<Rightarrow> string" where
  "tal_title m = (if tm_english m \<noteq> [] then tm_english m else if tm_romaji m \<noteq> [] then tm_romaji m else tm_native m)"

definition strip_tags :: "string \<Rightarrow> string" where
  "strip_tags s = trim_space (drop_tags 0 s)"

definition tal_search_result :: "tal_media \<Rightarrow> search_result" where
  "tal_search_result m = \<lparr>sr_remote_id = int_digits (tm_id m), sr_title = tal_title m, sr_url = tm_site_url m,
     sr_cover_url = tm_cover m, sr_summary = snip (strip_tags (tm_description m)) 500,
     sr_total_chapters = (if tm_type m = ''ANIME'' then tm_episodes m else tm_chapters m),
     sr_publishing_status = tm_status m, sr_media_type = tm_type m\<rparr>"

definition search_pages :: "string \<Rightarrow> (string \<times> string) list" where
  "search_pages content_type =
     (let anime = (''anime'', ''type: ANIME''); novel = (''novel'', ''type: MANGA, format: NOVEL'');
          manga = (''manga'', ''type: MANGA, format_not: NOVEL'')
      in if content_type = ''anime'' then [anime] else if content_type = ''novel'' then [novel]
         else if content_type = ''manga'' then [manga] else [manga, novel, anime])"

text \<open>The results of the kinds in turn.\<close>

definition interleave :: "'a list list \<Rightarrow> 'a list" where
  "interleave ls = concat (map (\<lambda>i. map (\<lambda>l. l ! i) (filter (\<lambda>l. i < length l) ls)) [0..<foldr max (map length ls) 0])"

definition tal_search :: "tal_service \<Rightarrow> auth \<Rightarrow> string \<Rightarrow> string \<Rightarrow> ('z al_client_scheme, search_result list) act" where
  "tal_search sv a q content_type =
     (let pages = search_pages content_type in
      seq (tal_query (tn_search sv) (AskSearch (au_access_token a) q pages)) (\<lambda>out.
      ret (map tal_search_result (interleave (map (\<lambda>(alias_of, _). out alias_of) pages)))))"

section \<open>The user's list\<close>

definition is_kind :: "string \<Rightarrow> string \<Rightarrow> bool" where
  "is_kind s kind \<longleftrightarrow> to_lower s = to_lower kind"

definition library_row :: "string \<Rightarrow> tal_item \<Rightarrow> library_entry" where
  "library_row list_status i =
     (let m = ti_media i in
      \<lparr>lib_remote_id = int_digits (tm_id m), lib_title = tal_title m, lib_title_romaji = tm_romaji m, lib_title_english = tm_english m,
       lib_status = (if ti_status i = [] then list_status else ti_status i), lib_progress = ti_progress i, lib_score = ti_score i,
       lib_cover_url = tm_cover m, lib_media_type = tm_type m, lib_url = tm_site_url m,
       lib_total_chapters = (if tm_type m = ''ANIME'' then tm_episodes m else tm_chapters m)\<rparr>)"

definition add_item :: "string \<Rightarrow> string \<Rightarrow> tal_item \<Rightarrow> int list \<times> library_entry list \<Rightarrow> int list \<times> library_entry list" where
  "add_item content_type list_status i acc =
     (case acc of (seen, entries) \<Rightarrow>
        (let m = ti_media i in
         if tm_id m = 0 \<or> tm_id m \<in> set seen then acc
         else if is_kind content_type ''novel'' \<and> \<not> is_kind (tm_format m) ''NOVEL'' then acc
         else if is_kind content_type ''manga'' \<and> is_kind (tm_format m) ''NOVEL'' then acc
         else (tm_id m # seen, entries @ [library_row list_status i])))"

definition add_chunk :: "string \<Rightarrow> tal_collection \<Rightarrow> int list \<times> library_entry list \<Rightarrow> int list \<times> library_entry list" where
  "add_chunk content_type c = fold (\<lambda>g. fold (add_item content_type (tg_status g)) (tg_entries g)) (tc_lists c)"

definition max_chunks :: nat where "max_chunks = 50"

function library_chunks ::
    "tal_service \<Rightarrow> (int \<Rightarrow> tal_request) \<Rightarrow> string \<Rightarrow> nat \<Rightarrow> int list \<times> library_entry list \<Rightarrow> ('z al_client_scheme, library_entry list) act" where
  "library_chunks sv request content_type chunk acc =
     (if chunk \<le> max_chunks
      then seq (tal_query (tn_library sv) (request (int chunk))) (\<lambda>out. case out of
          None \<Rightarrow> ret (snd acc)
        | Some c \<Rightarrow> let acc = add_chunk content_type c acc in
            if tc_has_next c then library_chunks sv request content_type (chunk + 1) acc else ret (snd acc))
      else ret (snd acc))"
  by pat_completeness auto
termination
  by (relation "measure (\<lambda>(sv, request, content_type, chunk, acc). Suc max_chunks - chunk)") auto

declare library_chunks.simps [simp del]

text \<open>The list of a user is kept by the id of its entries.\<close>

definition remember_list :: "library_entry list \<Rightarrow> ('z tal_client_scheme, unit) act" where
  "remember_list es = modify (\<lambda>s. s\<lparr>tal_list := fold (\<lambda>e l. if lib_remote_id e = [] then l
     else (lib_remote_id e, e, clock s) # filter (\<lambda>(k, _). k \<noteq> lib_remote_id e) l) es (tal_list s)\<rparr>)"

definition upper_char :: "char \<Rightarrow> char" where
  "upper_char c = (if is_lower c then char_of (ch c - 32) else c)"

definition status_filter :: "string list \<Rightarrow> string list" where
  "status_filter statuses = filter (\<lambda>s. s \<noteq> []) (map (\<lambda>s. map upper_char (trim_space s)) statuses)"

definition no_anilist_username :: go_err where
  "no_anilist_username = ErrMsg ''no username associated with AniList account''"

definition tal_username :: "tal_service \<Rightarrow> auth \<Rightarrow> ('z al_client_scheme, string) act" where
  "tal_username sv a =
     (if au_username a \<noteq> [] then ret (au_username a)
      else seq (attempt (tal_query (tn_viewer sv) (AskViewer (au_access_token a)))) (\<lambda>r. case r of
          Inr (name, _) \<Rightarrow> if name \<noteq> [] then ret name else fail no_anilist_username
        | Inl _ \<Rightarrow> fail no_anilist_username))"

definition tal_list_library :: "tal_service \<Rightarrow> auth \<Rightarrow> string \<Rightarrow> string list \<Rightarrow> ('z tal_client_scheme, library_entry list) act" where
  "tal_list_library sv a content_type statuses =
     seq (tal_username sv a) (\<lambda>name.
     let kind = (if is_kind content_type ''anime'' then ''ANIME'' else ''MANGA'') in
     seq (library_chunks sv (AskLibrary (au_access_token a) name kind (status_filter statuses)) content_type 1 ([], [])) (\<lambda>entries.
     seq (remember_list entries) (\<lambda>_. ret entries)))"

section \<open>One entry\<close>

definition status_from_anilist :: "string \<Rightarrow> int" where
  "status_from_anilist s = (if s = ''CURRENT'' then status_reading else if s = ''PLANNING'' then status_plan_to_read
     else if s = ''COMPLETED'' then status_completed else if s = ''DROPPED'' then status_dropped
     else if s = ''PAUSED'' then status_on_hold else if s = ''REPEATING'' then status_rereading else status_plan_to_read)"

definition status_to_anilist :: "int \<Rightarrow> string" where
  "status_to_anilist s = (if s = status_reading then ''CURRENT'' else if s = status_plan_to_read then ''PLANNING''
     else if s = status_completed then ''COMPLETED'' else if s = status_dropped then ''DROPPED''
     else if s = status_on_hold then ''PAUSED'' else if s = status_rereading then ''REPEATING'' else ''PLANNING'')"

text \<open>Midnight of a day, in seconds of Unix time; a month out of range moves the year (\<open>time.Date\<close>).\<close>

definition civil_days :: "int \<Rightarrow> int \<Rightarrow> int \<Rightarrow> int" where
  "civil_days y m d =
     (let y' = y + (m - 1) div 12; m' = (m - 1) mod 12 + 1;
          a = (if m' \<le> 2 then y' - 1 else y'); n = (m' + 9) mod 12
      in 365 * a + a div 4 - a div 100 + a div 400 + (153 * n + 2) div 5 + d - 1 - 719468)"

definition fuzzy_time :: "fuzzy_date \<Rightarrow> int option" where
  "fuzzy_time = (\<lambda>(y, m, d). case (y, m, d) of (Some y, Some m, Some d) \<Rightarrow> Some (86400 * civil_days y m d) | _ \<Rightarrow> None)"

definition no_track :: track where
  "no_track = \<lparr>tk_remote_id = [], tk_library_id = [], tk_title = [], tk_url = [], tk_status = 0, tk_last_chapter_read = 0,
     tk_total_chapters = 0, tk_score = 0, tk_started_at = None, tk_finished_at = None, tk_private = False\<rparr>"

definition track_from_library :: "library_entry \<Rightarrow> track" where
  "track_from_library e = no_track\<lparr>tk_remote_id := lib_remote_id e, tk_title := lib_title e, tk_url := lib_url e,
     tk_total_chapters := lib_total_chapters e, tk_status := status_from_anilist (lib_status e), tk_score := lib_score e,
     tk_last_chapter_read := lib_progress e\<rparr>"

definition anilist_list_ttl :: int where "anilist_list_ttl = 15 * 60 * second"

definition cached_track :: "string \<Rightarrow> ('z tal_client_scheme, track option) act" where
  "cached_track rid = gets (\<lambda>s. case map_of (tal_list s) rid of
      None \<Rightarrow> None
    | Some (e, since) \<Rightarrow> if clock s - since > anilist_list_ttl then None else Some (track_from_library e))"

text \<open>The query of one entry names no episodes, kind, format, description and cover: their values are empty.\<close>

definition as_selected :: "tal_media \<Rightarrow> tal_media" where
  "as_selected m = m\<lparr>tm_episodes := 0, tm_type := [], tm_format := [], tm_description := [], tm_cover := []\<rparr>"

definition bad_media_id :: "string \<Rightarrow> go_err" where
  "bad_media_id rid = ErrMsg (''bad anilist media id '' @ quoted rid)"

definition fetch_media :: "tal_service \<Rightarrow> auth \<Rightarrow> string \<Rightarrow> ('z al_client_scheme, tal_media) act" where
  "fetch_media sv a rid = (case parse_int64 rid of
      None \<Rightarrow> fail (bad_media_id rid)
    | Some i \<Rightarrow> seq (tal_query (tn_media sv) (AskMedia (au_access_token a) i)) (\<lambda>m. ret (as_selected m)))"

definition entry_onto :: "tal_entry \<Rightarrow> track \<Rightarrow> track" where
  "entry_onto e t = t\<lparr>tk_library_id := int_digits (te_id e), tk_status := status_from_anilist (te_status e), tk_score := te_score e,
     tk_last_chapter_read := te_progress e, tk_private := te_private e\<rparr>"

definition track_from_media :: "tal_media \<Rightarrow> track" where
  "track_from_media m =
     (let t = no_track\<lparr>tk_remote_id := int_digits (tm_id m), tk_title := tal_title m, tk_url := tm_site_url m,
          tk_total_chapters := tm_chapters m, tk_status := status_plan_to_read\<rparr>
      in case tm_entry m of None \<Rightarrow> t
       | Some e \<Rightarrow> (entry_onto e t)\<lparr>tk_started_at := fuzzy_time (te_started e), tk_finished_at := fuzzy_time (te_completed e)\<rparr>)"

definition tal_bind :: "tal_service \<Rightarrow> auth \<Rightarrow> string \<Rightarrow> ('z tal_client_scheme, track) act" where
  "tal_bind sv a rid = seq (cached_track rid) (\<lambda>c. case c of
      Some t \<Rightarrow> ret t
    | None \<Rightarrow> seq (fetch_media sv a rid) (\<lambda>m. ret (track_from_media m)))"

definition tal_refresh :: "tal_service \<Rightarrow> auth \<Rightarrow> track \<Rightarrow> ('z tal_client_scheme, track) act" where
  "tal_refresh sv a t = tal_bind sv a (tk_remote_id t)"

text \<open>\<open>int(x)\<close> of a float: the fraction is dropped.\<close>

definition int_of_f64 :: "f64 \<Rightarrow> int" where
  "int_of_f64 x = (if x < 0 then - \<lfloor>- x\<rfloor> else \<lfloor>x\<rfloor>)"

definition newer_time :: "'a option \<Rightarrow> 'a option \<Rightarrow> 'a option" where
  "newer_time x y = (case x of None \<Rightarrow> y | Some _ \<Rightarrow> x)"

definition save_request :: "auth \<Rightarrow> int \<Rightarrow> track \<Rightarrow> tal_request" where
  "save_request a i t = AskSave (au_access_token a) i (status_to_anilist (tk_status t)) (int_of_f64 (tk_last_chapter_read t))
     (tk_score t) (tk_private t)"

definition tal_push :: "tal_service \<Rightarrow> auth \<Rightarrow> track \<Rightarrow> ('z al_client_scheme, track) act" where
  "tal_push sv a t = (case parse_int64 (tk_remote_id t) of
      None \<Rightarrow> fail (bad_media_id (tk_remote_id t))
    | Some i \<Rightarrow> seq (tal_query (tn_save sv) (save_request a i t)) (\<lambda>e.
        ret ((entry_onto e t)\<lparr>tk_started_at := newer_time (fuzzy_time (te_started e)) (tk_started_at t),
               tk_finished_at := newer_time (fuzzy_time (te_completed e)) (tk_finished_at t)\<rparr>)))"

definition num_range :: "int \<Rightarrow> int \<Rightarrow> string list" where
  "num_range lo hi = map int_digits [lo..hi]"

text \<open>The faces are texts in UTF-8.\<close>

definition tal_score_options :: "auth \<Rightarrow> string list" where
  "tal_score_options a =
     (let f = au_score_format a in
      if f = ''POINT_100'' then num_range 0 100
      else if f = ''POINT_10_DECIMAL'' then map (\<lambda>i. int_digits (i div 2) @ (if even i then ''.0'' else ''.5'')) [0..20]
      else if f = ''POINT_5'' then num_range 0 5
      else if f = ''POINT_3'' then map (map char_of) [[0xE2, 0x80, 0x93 :: nat], [0xF0, 0x9F, 0x98, 0xA6], [0xF0, 0x9F, 0x98, 0x90], [0xF0, 0x9F, 0x98, 0x8A]]
      else num_range 0 10)"

end
