(* ===== verification/TrackerMal.thy ===== *)
theory TrackerMal
  imports TrackerAniList Tokens
begin

text \<open>
  The tracker client of MyAnimeList (\<open>internal/tracker/mal.go\<close>): the login with a one-time state and its verifier,
  the tokens, and entries whose ids carry their kind. The network answers a request from all requests up to it, so the
  service may keep any state; random bytes are inputs. Times are seconds. \<open>url.Parse\<close> is a parameter.
\<close>

section \<open>The service\<close>

type_synonym form = "(string \<times> string) list"

datatype mal_request =
    MalToken form
  | MalGet string string
  | MalPatch string string form

record 'd mal_reply =
  mr_status :: int
  mr_body :: string
  mr_decoded :: "go_err + 'd"

type_synonym 'd mal_net = "mal_request list \<Rightarrow> go_err + 'd mal_reply"

record token_reply =
  tr_access_token :: string
  tr_refresh_token :: string
  tr_expires_in :: int

record mal_list_status =
  ml_status :: string
  ml_score :: f64
  ml_chapters_read :: f64
  ml_episodes_watched :: f64
  ml_is_rereading :: bool
  ml_start_date :: string
  ml_finish_date :: string

record mal_node =
  mn_id :: int
  mn_title :: string
  mn_medium :: string
  mn_large :: string
  mn_synopsis :: string
  mn_chapters :: int
  mn_episodes :: int
  mn_status :: string
  mn_media_type :: string
  mn_list_status :: "mal_list_status option"

record mal_config =
  mc_client_id :: string
  mc_client_secret :: string
  mc_callback_url :: string

record mal_service =
  mv_token :: "token_reply mal_net"
  mv_name :: "string mal_net"
  mv_search :: "mal_node list mal_net"
  mv_node :: "mal_node mal_net"
  mv_patch :: "unit mal_net"

text \<open>The logins under way: the verifier of each state, and when it began.\<close>

record mal_client =
  mal_pkce :: "(string \<times> string \<times> int) list"
  mal_now :: int
  mal_sent :: "mal_request list"

definition mal_send :: "'d mal_net \<Rightarrow> mal_request \<Rightarrow> ('z mal_client_scheme, 'd mal_reply) act" where
  "mal_send net r s = (net (mal_sent s @ [r]), s\<lparr>mal_sent := mal_sent s @ [r]\<rparr>)"

definition err_token_rejected :: go_err where
  "err_token_rejected = ErrMsg ''mal: token request rejected''"

section \<open>Logging in\<close>

text \<open>
  \<open>sweep\<close> drops the logins older than a quarter of an hour, then the oldest until 64 are left; of several as old
  the first in the list goes (Go's choice among them is arbitrary).
\<close>

definition max_logins :: nat where "max_logins = 64"

fun oldest :: "(string \<times> string \<times> int) list \<Rightarrow> (string \<times> string \<times> int) option" where
  "oldest [] = None"
| "oldest (e # es) = (case oldest es of None \<Rightarrow> Some e | Some e' \<Rightarrow> Some (if snd (snd e') < snd (snd e) then e' else e))"

lemma oldest_mem: "oldest es = Some e \<Longrightarrow> e \<in> set es"
  by (induction es arbitrary: e) (auto split: option.splits if_splits)

lemma oldest_None [simp]: "oldest es = None \<longleftrightarrow> es = []"
  by (cases es) (auto split: option.splits)

function drop_oldest :: "(string \<times> string \<times> int) list \<Rightarrow> (string \<times> string \<times> int) list" where
  "drop_oldest es = (if length es > max_logins
     then (case oldest es of None \<Rightarrow> es | Some e \<Rightarrow> drop_oldest (filter (\<lambda>x. fst x \<noteq> fst e) es)) else es)"
  by pat_completeness auto
termination
  by (relation "measure length") (auto dest!: oldest_mem intro!: length_filter_less)

declare drop_oldest.simps [simp del]

definition sweep :: "int \<Rightarrow> (string \<times> string \<times> int) list \<Rightarrow> (string \<times> string \<times> int) list" where
  "sweep now es = drop_oldest (filter (\<lambda>(_, _, since). \<not> since < now - 15 * 60) es)"

text \<open>\<open>url.QueryEscape\<close>.\<close>

definition hex_digit :: "nat \<Rightarrow> char" where
  "hex_digit n = (if n < 10 then char_of (48 + n) else char_of (55 + n))"

definition query_escape :: "string \<Rightarrow> string" where
  "query_escape s = concat (map (\<lambda>c.
     if is_lower c \<or> is_upper c \<or> is_digit c \<or> c \<in> set ''-_.~'' then [c]
     else if c = CHR '' '' then ''+'' else [CHR ''%'', hex_digit (ch c div 16), hex_digit (ch c mod 16)]) s)"

text \<open>\<open>Values.Encode\<close> of parameters in the order of their names.\<close>

definition url_encode :: "form \<Rightarrow> string" where
  "url_encode ps = join ''&'' (map (\<lambda>(k, v). query_escape k @ ''='' @ query_escape v) ps)"

definition mal_configured :: "mal_config \<Rightarrow> bool" where
  "mal_configured cfg \<longleftrightarrow> mc_client_id cfg \<noteq> []"

text \<open>The random bytes of the state and of the verifier.\<close>

definition mal_auth_url :: "mal_config \<Rightarrow> string \<Rightarrow> string \<Rightarrow> ('z mal_client_scheme, string) act" where
  "mal_auth_url cfg state_bytes verifier_bytes =
     (if \<not> mal_configured cfg then ret []
      else let state = b64_encode state_bytes; verifier = b64_encode verifier_bytes in
        seq (modify (\<lambda>s. s\<lparr>mal_pkce := (state, verifier, mal_now s) # filter (\<lambda>e. fst e \<noteq> state) (sweep (mal_now s) (mal_pkce s))\<rparr>)) (\<lambda>_.
        ret (''https://myanimelist.net/v1/oauth2/authorize?'' @ url_encode
          ([(''client_id'', mc_client_id cfg), (''code_challenge'', verifier), (''code_challenge_method'', ''plain'')] @
           (if mc_callback_url cfg \<noteq> [] then [(''redirect_uri'', mc_callback_url cfg)] else []) @
           [(''response_type'', ''code''), (''state'', state)]))))"

definition client_auth :: "mal_config \<Rightarrow> form" where
  "client_auth cfg = (''client_id'', mc_client_id cfg) # (if mc_client_secret cfg \<noteq> [] then [(''client_secret'', mc_client_secret cfg)] else [])"

definition api_reply :: "'d mal_reply \<Rightarrow> go_err + 'd" where
  "api_reply h =
     (if mr_status h = 401 then Inl ErrReauth
      else if mr_status h < 200 \<or> mr_status h \<ge> 300 then Inl (ErrMsg (''mal: HTTP '' @ int_digits (mr_status h) @ '': '' @ snip (mr_body h) 200))
      else mr_decoded h)"

definition mal_do :: "'d mal_net \<Rightarrow> mal_request \<Rightarrow> ('z mal_client_scheme, 'd) act" where
  "mal_do net r = seq (mal_send net r) (\<lambda>h. decoded (api_reply h))"

definition mal_username :: "mal_service \<Rightarrow> string \<Rightarrow> ('z mal_client_scheme, string) act" where
  "mal_username sv token = mal_do (mv_name sv) (MalGet token ''/users/@me?fields=name'')"

definition token_error :: "token_reply mal_reply \<Rightarrow> go_err" where
  "token_error h = ErrWrap (''(HTTP '' @ int_digits (mr_status h) @ ''): '' @ snip (trim_space (mr_body h)) 300) err_token_rejected"

definition token_request :: "mal_service \<Rightarrow> form \<Rightarrow> ('z mal_client_scheme, auth) act" where
  "token_request sv form =
     seq (mal_send (mv_token sv) (MalToken form)) (\<lambda>h.
     if mr_status h < 200 \<or> mr_status h \<ge> 300 then fail (token_error h)
     else seq (decoded (mr_decoded h)) (\<lambda>t.
     seq (gets mal_now) (\<lambda>now.
     seq (attempt (mal_username sv (tr_access_token t))) (\<lambda>name.
     ret \<lparr>au_access_token = tr_access_token t, au_refresh_token = tr_refresh_token t,
          au_expires_at = (if tr_expires_in t > 0 then Some (now + tr_expires_in t) else None),
          au_username = (case name of Inl _ \<Rightarrow> [] | Inr n \<Rightarrow> n), au_score_format = ''POINT_10''\<rparr>))))"

definition query_get :: "(string \<times> string list) list \<Rightarrow> string \<Rightarrow> string" where
  "query_get q k = (case map_of q k of Some (v # _) \<Rightarrow> v | _ \<Rightarrow> [])"

definition mal_complete_auth :: "mal_service \<Rightarrow> mal_config \<Rightarrow> (string \<times> string list) list \<Rightarrow> ('z mal_client_scheme, auth) act" where
  "mal_complete_auth sv cfg q =
     (if \<not> mal_configured cfg then fail (ErrMsg ''MyAnimeList is not configured on this server'')
      else if query_get q ''error'' \<noteq> [] then fail (ErrMsg (''MyAnimeList denied authorization: '' @ query_get q ''error''))
      else let code = query_get q ''code''; state = query_get q ''state'' in
        if code = [] \<or> state = [] then fail (ErrMsg ''callback missing code/state'')
        else seq (gets (\<lambda>s. map_of (mal_pkce s) state)) (\<lambda>entry.
          seq (modify (\<lambda>s. s\<lparr>mal_pkce := filter (\<lambda>e. fst e \<noteq> state) (mal_pkce s)\<rparr>)) (\<lambda>_. case entry of
            None \<Rightarrow> fail (ErrMsg ''login expired or already used -- start again'')
          | Some (verifier, _) \<Rightarrow> token_request sv (client_auth cfg @
              [(''grant_type'', ''authorization_code''), (''code'', code), (''code_verifier'', verifier)] @
              (if mc_callback_url cfg \<noteq> [] then [(''redirect_uri'', mc_callback_url cfg)] else [])))))"

text \<open>The query of a pasted address, or of a pasted query.\<close>

definition mal_exchange ::
    "(string \<Rightarrow> (string \<times> string list) list option) \<Rightarrow> (string \<Rightarrow> (string \<times> string list) list) \<Rightarrow>
      mal_service \<Rightarrow> mal_config \<Rightarrow> string \<Rightarrow> ('z mal_client_scheme, auth) act" where
  "mal_exchange url_query parse_query sv cfg pasted =
     (let s = trim_space pasted;
          q = (case url_query s of
                 Some q \<Rightarrow> if query_get q ''code'' \<noteq> [] then q else parse_query (trim_prefix s ''?'')
               | None \<Rightarrow> parse_query (trim_prefix s ''?''))
      in if query_get q ''code'' = []
         then fail (ErrMsg (''paste the full redirected URL from MyAnimeList (it contains ?code='' @ map char_of [0xE2, 0x80, 0xA6 :: nat] @ '')''))
         else mal_complete_auth sv cfg q)"

definition mal_refresh_auth :: "mal_service \<Rightarrow> mal_config \<Rightarrow> auth \<Rightarrow> ('z mal_client_scheme, auth) act" where
  "mal_refresh_auth sv cfg a =
     (if au_refresh_token a = [] then fail ErrReauth
      else seq (attempt (token_request sv (client_auth cfg @ [(''grant_type'', ''refresh_token''), (''refresh_token'', au_refresh_token a)]))) (\<lambda>r. case r of
          Inl e \<Rightarrow> fail (if err_is e err_token_rejected then ErrReauth else e)
        | Inr fresh \<Rightarrow> ret (fresh\<lparr>au_username := (if au_username fresh = [] then au_username a else au_username fresh),
            au_score_format := (if au_score_format fresh = [] then au_score_format a else au_score_format fresh)\<rparr>)))"

section \<open>Entries\<close>

text \<open>The kind before the first colon, which is not the first character; a plain id is a manga.\<close>

definition mal_split_id :: "string \<Rightarrow> string \<times> string" where
  "mal_split_id rid = (case cut rid (CHR '':'') of
      Some (kind, i) \<Rightarrow> if kind \<noteq> [] then (kind, i) else (''manga'', rid)
    | None \<Rightarrow> (''manga'', rid))"

definition mal_join_id :: "string \<Rightarrow> string \<Rightarrow> string" where
  "mal_join_id kind i = kind @ '':'' @ i"

text \<open>The number of characters of a text in UTF-8.\<close>

definition rune_count :: "string \<Rightarrow> nat" where
  "rune_count s = length (filter (\<lambda>c. \<not> (128 \<le> ch c \<and> ch c < 192)) s)"

definition first_non_empty :: "string \<Rightarrow> string \<Rightarrow> string" where
  "first_non_empty a b = (if a \<noteq> [] then a else b)"

definition search_kinds :: "string \<Rightarrow> string list" where
  "search_kinds content_type = (if content_type = ''anime'' then [''anime'']
     else if content_type = ''manga'' \<or> content_type = ''novel'' then [''manga''] else [''manga'', ''anime''])"

definition mal_search_result :: "string \<Rightarrow> mal_node \<Rightarrow> search_result" where
  "mal_search_result kind n = \<lparr>sr_remote_id = mal_join_id kind (int_digits (mn_id n)), sr_title = mn_title n,
     sr_url = ''https://myanimelist.net/'' @ kind @ ''/'' @ int_digits (mn_id n),
     sr_cover_url = first_non_empty (mn_large n) (mn_medium n), sr_summary = snip (mn_synopsis n) 500,
     sr_total_chapters = (if kind = ''anime'' then mn_episodes n else mn_chapters n), sr_publishing_status = mn_status n,
     sr_media_type = (if kind = ''anime'' then ''ANIME'' else ''MANGA'')\<rparr>"

definition search_path :: "string \<Rightarrow> string \<Rightarrow> string" where
  "search_path kind q = ''/'' @ kind @ ''?q='' @ query_escape q @ ''&limit=15&fields='' @
     (if kind = ''anime'' then ''id,title,main_picture,synopsis,status,media_type,num_episodes''
      else ''id,title,main_picture,synopsis,status,media_type,num_chapters'')"

definition mal_search :: "mal_service \<Rightarrow> auth \<Rightarrow> string \<Rightarrow> string \<Rightarrow> ('z mal_client_scheme, search_result list) act" where
  "mal_search sv a q content_type =
     (if rune_count q < 3 then ret []
      else fold_act (\<lambda>res kind. seq (mal_do (mv_search sv) (MalGet (au_access_token a) (search_path kind q))) (\<lambda>ns.
             ret (res @ map (mal_search_result kind) (filter (\<lambda>n. \<not> (content_type = ''novel'' \<and> \<not> contains (mn_media_type n) ''novel'')) ns))))
           [] (search_kinds content_type))"

text \<open>An answer holds only the fields asked for.\<close>

definition node_path :: "string \<Rightarrow> string \<Rightarrow> string" where
  "node_path kind i = ''/'' @ kind @ ''/'' @ i @ ''?fields='' @
     (if kind = ''anime'' then ''id,title,num_episodes,status,my_list_status{status,score,num_episodes_watched,is_rereading,start_date,finish_date}''
      else ''id,title,num_chapters,status,my_list_status{status,score,num_chapters_read,is_rereading,start_date,finish_date}'')"

definition node_of :: "mal_service \<Rightarrow> string \<Rightarrow> string \<Rightarrow> string \<Rightarrow> ('z mal_client_scheme, mal_node) act" where
  "node_of sv token kind i = mal_do (mv_node sv) (MalGet token (node_path kind i))"

definition mal_status_to_canonical :: "string \<Rightarrow> bool \<Rightarrow> int" where
  "mal_status_to_canonical s rereading =
     (if s = ''reading'' \<or> s = ''watching'' then (if rereading then status_rereading else status_reading)
      else if s = ''completed'' then status_completed else if s = ''on_hold'' then status_on_hold
      else if s = ''dropped'' then status_dropped else status_plan_to_read)"

definition canonical_to_mal_status :: "int \<Rightarrow> string \<Rightarrow> string" where
  "canonical_to_mal_status s kind =
     (if s = status_reading \<or> s = status_rereading then (if kind = ''anime'' then ''watching'' else ''reading'')
      else if s = status_completed then ''completed'' else if s = status_on_hold then ''on_hold''
      else if s = status_dropped then ''dropped''
      else if kind = ''anime'' then ''plan_to_watch'' else ''plan_to_read'')"

text \<open>A date \<open>YYYY-MM-DD\<close> that is a day of the calendar.\<close>

definition leap_year :: "nat \<Rightarrow> bool" where
  "leap_year y \<longleftrightarrow> y mod 4 = 0 \<and> (y mod 100 \<noteq> 0 \<or> y mod 400 = 0)"

definition days_in_month :: "nat \<Rightarrow> nat \<Rightarrow> nat" where
  "days_in_month y m = (if m = 2 then (if leap_year y then 29 else 28) else if m \<in> {4, 6, 9, 11} then 30 else 31)"

definition parse_mal_date :: "string \<Rightarrow> int option" where
  "parse_mal_date s =
     (if length s = 10 \<and> s ! 4 = CHR ''-'' \<and> s ! 7 = CHR ''-'' \<and> list_all is_digit (take 4 s @ take 2 (drop 5 s) @ drop 8 s)
      then let y = digits_val (take 4 s); m = digits_val (take 2 (drop 5 s)); d = digits_val (drop 8 s)
           in if 1 \<le> m \<and> m \<le> 12 \<and> 1 \<le> d \<and> d \<le> days_in_month y m then Some (86400 * civil_days (int y) (int m) (int d)) else None
      else None)"

definition track_from_node :: "string \<Rightarrow> string \<Rightarrow> mal_node \<Rightarrow> track" where
  "track_from_node kind i n =
     (let t = no_track\<lparr>tk_remote_id := mal_join_id kind i, tk_title := mn_title n,
          tk_url := ''https://myanimelist.net/'' @ kind @ ''/'' @ i,
          tk_total_chapters := (if kind = ''anime'' then mn_episodes n else mn_chapters n), tk_status := status_plan_to_read\<rparr>
      in case mn_list_status n of None \<Rightarrow> t
       | Some l \<Rightarrow> t\<lparr>tk_score := ml_score l,
           tk_last_chapter_read := (if kind = ''anime'' then ml_episodes_watched l else ml_chapters_read l),
           tk_status := mal_status_to_canonical (ml_status l) (ml_is_rereading l),
           tk_started_at := parse_mal_date (ml_start_date l), tk_finished_at := parse_mal_date (ml_finish_date l)\<rparr>)"

definition mal_bind :: "mal_service \<Rightarrow> auth \<Rightarrow> string \<Rightarrow> ('z mal_client_scheme, track) act" where
  "mal_bind sv a rid = (case mal_split_id rid of (kind, i) \<Rightarrow>
     seq (node_of sv (au_access_token a) kind i) (\<lambda>n. ret (track_from_node kind i n)))"

definition mal_refresh :: "mal_service \<Rightarrow> auth \<Rightarrow> track \<Rightarrow> ('z mal_client_scheme, track) act" where
  "mal_refresh sv a t = mal_bind sv a (tk_remote_id t)"

definition rounded_half_up :: "f64 \<Rightarrow> int" where
  "rounded_half_up x = int_of_f64 (fl (x + 1 / 2))"

definition push_form :: "string \<Rightarrow> track \<Rightarrow> form" where
  "push_form kind t =
     [(''status'', canonical_to_mal_status (tk_status t) kind), (''score'', int_digits (rounded_half_up (tk_score t))),
      (if kind = ''anime'' then ''num_watched_episodes'' else ''num_chapters_read'', int_digits (rounded_half_up (tk_last_chapter_read t)))] @
     (if tk_status t = status_rereading then [(''is_rereading'', ''true'')] else [])"

definition mal_push :: "mal_service \<Rightarrow> auth \<Rightarrow> track \<Rightarrow> ('z mal_client_scheme, track) act" where
  "mal_push sv a t = (case mal_split_id (tk_remote_id t) of (kind, i) \<Rightarrow>
     seq (mal_do (mv_patch sv) (MalPatch (au_access_token a) (''/'' @ kind @ ''/'' @ i @ ''/my_list_status'') (push_form kind t))) (\<lambda>_.
     mal_refresh sv a t))"

definition mal_score_options :: "string list" where
  "mal_score_options = map int_digits [0..10]"

definition mal_list_library :: "('z mal_client_scheme, library_entry list) act" where
  "mal_list_library = fail (ErrMsg ''library list not implemented for MyAnimeList yet'')"

end
