(* ===== verification/TrackerClients.thy ===== *)
theory TrackerClients
  imports TrackerMal
begin

text \<open>
  What the tracker clients promise: statuses survive the way to a tracker and back, requests to AniList keep their
  distance, a user's list names each entry once, and a login to MyAnimeList works once.
\<close>

section \<open>Statuses\<close>

interpretation anilist: status_codec status_to_anilist status_from_anilist
  by unfold_locales (auto simp: all_statuses_def status_defs status_to_anilist_def status_from_anilist_def)

text \<open>MyAnimeList keeps rereading beside the status.\<close>

definition mal_written :: "string \<Rightarrow> int \<Rightarrow> string \<times> bool" where
  "mal_written kind s = (canonical_to_mal_status s kind, s = status_rereading)"

definition mal_read :: "string \<times> bool \<Rightarrow> int" where
  "mal_read = (\<lambda>(s, rereading). mal_status_to_canonical s rereading)"

interpretation mal: status_codec "mal_written kind" mal_read for kind
  by unfold_locales
    (auto simp: all_statuses_def status_defs mal_written_def mal_read_def canonical_to_mal_status_def mal_status_to_canonical_def split: prod.split)

text \<open>Every status comes back from both trackers as it was sent.\<close>

theorem statuses_survive_trackers:
  "list_all (\<lambda>s. status_from_anilist (status_to_anilist s) = s \<and> mal_status_to_canonical (canonical_to_mal_status s kind) (s = status_rereading) = s)
     all_statuses"
  using anilist.read_back mal.read_back [of _ kind] by (simp add: list_all_iff mal_read_def mal_written_def)

section \<open>Spacing\<close>

lemma keeps_spaced_tal_query [keeps_intros]: "keeps (spaced_run s0 :: 'z al_client_scheme \<Rightarrow> bool) (tal_query net q)"
proof -
  have "keeps (spaced_run s0 :: 'z al_client_scheme \<Rightarrow> bool) (tal_query_from net q 1)"
    by (subst tal_query_from.simps, rule keeps_spaced_turn) (auto intro!: keeps_intros)
  then show ?thesis
    unfolding tal_query_def by (subst tal_query_from.simps, intro keeps_spaced_turn) (auto intro!: keeps_intros)
qed

lemma keeps_spaced_chunks [keeps_intros]:
  "keeps (spaced_run s0 :: 'z al_client_scheme \<Rightarrow> bool) (library_chunks sv request ct n acc)"
proof (induction "Suc max_chunks - n" arbitrary: n acc)
  case 0
  then show ?case by (subst library_chunks.simps) (simp add: keeps_ret)
next
  case (Suc k)
  then have "k = Suc max_chunks - (n + 1)" by simp
  then have "keeps (spaced_run s0 :: 'z al_client_scheme \<Rightarrow> bool) (library_chunks sv request ct (n + 1) acc')" for acc'
    by (rule Suc(1))
  then show ?case
    by (subst library_chunks.simps, unfold Let_def, intro keeps_intros)
qed

lemma keeps_spaced_tracker [keeps_intros]:
  "keeps (spaced_run s0 :: 'z al_client_scheme \<Rightarrow> bool) (tal_exchange tsv pasted)"
  "keeps (spaced_run s0 :: 'z al_client_scheme \<Rightarrow> bool) (tal_search tsv a query kind)"
  "keeps (spaced_run s0 :: 'z al_client_scheme \<Rightarrow> bool) (tal_username tsv a)"
  "keeps (spaced_run s0 :: 'z al_client_scheme \<Rightarrow> bool) (fetch_media tsv a rid)"
  "keeps (spaced_run s0 :: 'z al_client_scheme \<Rightarrow> bool) (tal_push tsv a t)"
  unfolding tal_exchange_def tal_search_def tal_username_def fetch_media_def tal_push_def Let_def
  by (intro keeps_intros)+

lemma keeps_spaced_remember [keeps_intros]: "keeps (spaced_run s0 :: 'z tal_client_scheme \<Rightarrow> bool) (remember_list es)"
  by (rule keepsI) (simp add: remember_list_def act_simps spaced_run_def)

lemma keeps_spaced_lists [keeps_intros]:
  "keeps (spaced_run s0 :: 'z tal_client_scheme \<Rightarrow> bool) (tal_list_library tsv a kind statuses)"
  "keeps (spaced_run s0 :: 'z tal_client_scheme \<Rightarrow> bool) (tal_bind tsv a rid)"
  "keeps (spaced_run s0 :: 'z tal_client_scheme \<Rightarrow> bool) (tal_refresh tsv a t)"
  unfolding tal_list_library_def tal_refresh_def tal_bind_def cached_track_def Let_def
  by (intro keeps_intros)+

text \<open>A sequence of calls of the two clients, with time passing between them.\<close>

datatype anilist_call =
    MetaSearch string content_type
  | MetaFetch string
  | MetaMalId string
  | TrackerExchange string
  | TrackerSearch auth string string
  | TrackerList auth string "string list"
  | TrackerBind auth string
  | TrackerRefresh auth track
  | TrackerPush auth track
  | Idle nat

fun run_call :: "al_service \<Rightarrow> tal_service \<Rightarrow> anilist_call \<Rightarrow> tal_client \<Rightarrow> tal_client" where
  "run_call sv tsv (MetaSearch query ct) s = snd (al_search sv query ct s)"
| "run_call sv tsv (MetaFetch pid) s = snd (al_fetch sv pid s)"
| "run_call sv tsv (MetaMalId pid) s = snd (al_mal_id sv pid s)"
| "run_call sv tsv (TrackerExchange pasted) s = snd (tal_exchange tsv pasted s)"
| "run_call sv tsv (TrackerSearch a query kind) s = snd (tal_search tsv a query kind s)"
| "run_call sv tsv (TrackerList a kind statuses) s = snd (tal_list_library tsv a kind statuses s)"
| "run_call sv tsv (TrackerBind a rid) s = snd (tal_bind tsv a rid s)"
| "run_call sv tsv (TrackerRefresh a t) s = snd (tal_refresh tsv a t s)"
| "run_call sv tsv (TrackerPush a t) s = snd (tal_push tsv a t s)"
| "run_call sv tsv (Idle ns) s = s\<lparr>clock := clock s + int ns\<rparr>"

lemma spaced_run_call: "spaced_run s (run_call sv tsv c s)"
proof -
  have run: "spaced_run s (snd (m s))" if "keeps (spaced_run s :: tal_client \<Rightarrow> bool) m" for m :: "(tal_client, 'x) act"
    using that by (simp add: keeps_def)
  show ?thesis
    by (cases c; simp only: run_call.simps; (intro run keeps_intros | simp add: spaced_run_def))
qed

text \<open>
  C21: the requests the program sends to AniList are at least three seconds apart and keep to the pauses AniList asks
  for: whatever calls of the metadata client and of the tracker client run one after another, they only add requests,
  at times not before the next slot they found, each at least three seconds after every request before it and not
  before the end of a pause that a reply with status 429 to one of these asked for (the seconds of its
  \<open>Retry-After\<close>, a minute when it names none; more seconds than 64 bits of nanoseconds hold are not counted); the
  next slot they leave is after all of that, and never goes back.
\<close>

theorem anilist_requests_are_spaced: "spaced_run s (fold (run_call sv tsv) calls s)"
  by (induction calls arbitrary: s) (auto intro: spaced_trans spaced_run_call)

section \<open>The user's list\<close>

text \<open>How often a call asks the service.\<close>

definition asks_at_most :: "nat \<Rightarrow> ('z al_client_scheme, 'a) act \<Rightarrow> bool" where
  "asks_at_most n m \<longleftrightarrow> (\<forall>s. length (sent (snd (m s))) \<le> length (sent s) + n)"

lemma asks_ret [simp]: "asks_at_most n (ret x)" "asks_at_most n (fail e)" "asks_at_most n (decoded r)" "asks_at_most n (back_off k)"
  by (simp_all add: asks_at_most_def act_simps decoded_def back_off_def)

lemma asks_seq:
  assumes "asks_at_most i m" "\<And>x. asks_at_most k (f x)"
  shows "asks_at_most (i + k) (seq m f)"
  unfolding asks_at_most_def
proof
  fix s
  obtain r s' where m: "m s = (r, s')" by fastforce
  have "length (sent s') \<le> length (sent s) + i" using assms(1) m unfolding asks_at_most_def by (metis snd_conv)
  moreover from this have "length (sent (snd (f x s'))) \<le> length (sent s) + (i + k)" for x
    using assms(2) [of x] unfolding asks_at_most_def by (metis add.assoc add.commute add_le_cancel_left order_trans)
  ultimately show "length (sent (snd (seq m f s))) \<le> length (sent s) + (i + k)"
    using m by (cases r) (auto simp: seq_def)
qed

lemma asks_more: "asks_at_most i m \<Longrightarrow> i \<le> k \<Longrightarrow> asks_at_most k m"
  unfolding asks_at_most_def by (meson add_le_cancel_left order_trans)

lemma asks_attempt: "asks_at_most i m \<Longrightarrow> asks_at_most i (attempt m)"
  by (auto simp: asks_at_most_def act_simps split: prod.split) (metis snd_conv)

lemma asks_turn: "asks_at_most 0 wait_turn" "asks_at_most 1 (send net q)"
  by (auto simp: asks_at_most_def wait_turn_def send_def split: prod.split)

lemma asks_tal_query: "asks_at_most 2 (tal_query net q)"
proof -
  have turn: "asks_at_most (Suc i) (seq wait_turn (\<lambda>_. seq (send net q) f))" if "\<And>h. asks_at_most i (f h)" for i f
    using asks_seq [OF asks_turn(1) asks_seq [OF asks_turn(2) that]] by simp
  have "asks_at_most 1 (tal_query_from net q 1)"
    by (subst tal_query_from.simps, subst One_nat_def, rule turn)
      (auto intro!: asks_more [OF asks_seq [of 0 _ 0]] split: sum.split list.split prod.split)
  then show ?thesis
    unfolding tal_query_def numeral_2_eq_2
    by (subst tal_query_from.simps, intro turn)
      (auto intro!: asks_more [OF asks_seq [of 0 _ 1]] split: sum.split list.split prod.split)
qed

lemma asks_chunks:
  "asks_at_most (2 * (Suc max_chunks - n)) (library_chunks sv request ct n acc :: ('z al_client_scheme, library_entry list) act)"
proof (induction "Suc max_chunks - n" arbitrary: n acc)
  case 0
  then show ?case by (subst library_chunks.simps) simp
next
  case (Suc k)
  then have "k = Suc max_chunks - (n + 1)" by simp
  then have IH: "asks_at_most (2 * k) (library_chunks sv request ct (n + 1) acc' :: ('z al_client_scheme, library_entry list) act)" for acc'
    using Suc(1) [of "n + 1" acc'] by simp
  have "asks_at_most (2 + 2 * k) (library_chunks sv request ct n acc :: ('z al_client_scheme, library_entry list) act)"
    by (subst library_chunks.simps, rule asks_more [OF _ order_refl])
      (auto simp del: add_2_eq_Suc add_2_eq_Suc' intro!: asks_seq asks_tal_query IH [simplified] simp: Let_def split: option.split)
  moreover have "2 + 2 * k = 2 * (Suc max_chunks - n)" using Suc(2) by simp
  ultimately show ?case by metis
qed

text \<open>An entry is listed once.\<close>

definition listed_once :: "int list \<times> library_entry list \<Rightarrow> bool" where
  "listed_once acc \<longleftrightarrow> distinct (map lib_remote_id (snd acc)) \<and> set (map lib_remote_id (snd acc)) \<subseteq> int_digits ` set (fst acc)"

lemma remote_id_inj: "int_digits i = int_digits k \<Longrightarrow> i = k"
proof -
  assume e: "int_digits i = int_digits k"
  have "CHR ''-'' \<notin> set (nat_digits n)" for n
    using nat_digits_all_digits [of "CHR ''-''" n] by (auto simp: is_digit_def ch_def)
  then have m: "nat_digits n \<noteq> CHR ''-'' # t" for n t by (metis list.set_intros(1))
  show "i = k"
    using e m [of "nat i"] m [of "nat k"] m [symmetric]
    by (cases "i < 0"; cases "k < 0") (auto simp: int_digits_def dest!: nat_digits_inj)
qed

lemma add_item_cases:
  "add_item ct ls i acc = acc \<or> tm_id (ti_media i) \<notin> set (fst acc) \<and>
     add_item ct ls i acc = (tm_id (ti_media i) # fst acc, snd acc @ [library_row ls i])"
  by (cases acc) (simp add: add_item_def Let_def)

lemma listed_once_add_item: "listed_once acc \<Longrightarrow> listed_once (add_item ct ls i acc)"
proof (cases "add_item ct ls i acc = acc")
  case False
  assume acc: "listed_once acc"
  then have new: "tm_id (ti_media i) \<notin> set (fst acc)"
      "add_item ct ls i acc = (tm_id (ti_media i) # fst acc, snd acc @ [library_row ls i])"
    using add_item_cases [of ct ls i acc] False by auto
  have row: "lib_remote_id (library_row ls i) = int_digits (tm_id (ti_media i))" by (simp add: library_row_def Let_def)
  have "int_digits (tm_id (ti_media i)) \<notin> int_digits ` set (fst acc)" using new(1) remote_id_inj by blast
  then show ?thesis using acc unfolding listed_once_def new(2) by (auto simp: row)
qed simp

lemma listed_once_add_chunk: "listed_once acc \<Longrightarrow> listed_once (add_chunk ct c acc)"
proof -
  have items: "listed_once (fold (add_item ct ls) xs acc)" if "listed_once acc" for ls xs acc
    using that by (induction xs arbitrary: acc) (auto simp: listed_once_add_item)
  have "listed_once (fold (\<lambda>g. fold (add_item ct (tg_status g)) (tg_entries g)) gs acc)" if "listed_once acc" for gs acc
    using that by (induction gs arbitrary: acc) (auto simp: items)
  then show "listed_once acc \<Longrightarrow> listed_once (add_chunk ct c acc)" by (simp add: add_chunk_def)
qed

lemma chunks_listed_once:
  "library_chunks sv request ct n acc s = (Inr es, s') \<Longrightarrow> listed_once acc \<Longrightarrow> distinct (map lib_remote_id es)"
proof (induction "Suc max_chunks - n" arbitrary: n acc s)
  case 0
  then show ?case by (subst (asm) library_chunks.simps) (auto simp: ret_def listed_once_def)
next
  case (Suc k)
  have k: "k = Suc max_chunks - (n + 1)" using Suc(2) by simp
  consider "es = snd acc" | c where "es = snd (add_chunk ct c acc)"
    | c s1 where "library_chunks sv request ct (n + 1) (add_chunk ct c acc) s1 = (Inr es, s')"
    using Suc.prems(1)
    by (subst (asm) library_chunks.simps) (auto simp: Let_def ret_def elim!: seq_InrE split: if_splits option.splits)
  then show ?case
    using Suc.prems(2) listed_once_add_chunk [OF Suc.prems(2)] Suc.hyps(1) [OF k]
    by cases (auto simp: listed_once_def)
qed

lemma asks_username: "asks_at_most 2 (tal_username sv a)"
  unfolding tal_username_def
  by (auto intro!: asks_more [OF asks_seq [of 2 _ 0]] asks_attempt asks_tal_query split: sum.split)

lemma asks_gets: "asks_at_most 0 (gets f)" "asks_at_most 0 (remember_list es)"
  by (simp_all add: asks_at_most_def act_simps remember_list_def)

lemma asks_list_library: "asks_at_most 102 (tal_list_library sv a kind statuses :: ('z tal_client_scheme, library_entry list) act)"
proof -
  have "asks_at_most (2 + (2 * (Suc max_chunks - 1) + (0 + 0))) (tal_list_library sv a kind statuses :: ('z tal_client_scheme, library_entry list) act)"
    unfolding tal_list_library_def Let_def by (intro asks_seq asks_username asks_chunks asks_gets asks_ret)
  then show ?thesis by (simp add: max_chunks_def)
qed

text \<open>
  C24: reading a user's list ends and names each entry once, though an entry may stand in several of the user's lists:
  it sends at most 102 requests, whatever the service answers, and the ids of the entries it returns are distinct.
\<close>

theorem library_is_listed_once:
  "case tal_list_library sv a kind statuses s of (r, s') \<Rightarrow>
     length (sent s') \<le> length (sent s) + 102 \<and> (case r of Inl e \<Rightarrow> True | Inr es \<Rightarrow> distinct (map lib_remote_id es))" for s :: tal_client
proof -
  obtain r s' where r: "tal_list_library sv a kind statuses s = (r, s')" by fastforce
  have "length (sent s') \<le> length (sent s) + 102"
    using asks_list_library [of sv a kind statuses] r unfolding asks_at_most_def by (metis snd_conv)
  moreover have "distinct (map lib_remote_id es)" if es: "r = Inr es" for es
  proof -
    obtain name and s1 s2 :: tal_client where "library_chunks sv (AskLibrary (au_access_token a) name (if is_kind kind ''anime'' then ''ANIME'' else ''MANGA'')
        (status_filter statuses)) kind 1 ([], []) s1 = (Inr es, s2)"
      using r unfolding es tal_list_library_def Let_def by (elim seq_InrE) (auto simp: ret_def)
    then show ?thesis by (rule chunks_listed_once) (simp add: listed_once_def)
  qed
  ultimately show ?thesis using r by (auto split: sum.split)
qed

section \<open>What the remembered list hides\<close>

lemma keeps_list_query: "keeps (\<lambda>s :: 'z tal_client_scheme. tal_list s = l) (tal_query net q)"
proof -
  have turn: "keeps (\<lambda>s :: 'z tal_client_scheme. tal_list s = l) wait_turn"
      "keeps (\<lambda>s :: 'z tal_client_scheme. tal_list s = l) (back_off n)"
      "keeps (\<lambda>s :: 'z tal_client_scheme. tal_list s = l) (send net q)" for n
    by (auto simp: keeps_def wait_turn_def back_off_def send_def split: prod.split)
  have "keeps (\<lambda>s :: 'z tal_client_scheme. tal_list s = l) (tal_query_from net q 1)"
    by (subst tal_query_from.simps) (auto intro!: keeps_intros turn)
  then show ?thesis
    unfolding tal_query_def by (subst tal_query_from.simps) (auto intro!: keeps_intros turn)
qed

text \<open>
  While the remembered list is fresh, an entry is bound and refreshed from it: what a push has just changed on AniList
  is not seen, and the entry counts as public with no id, start and end, so that the next push makes a private entry
  public.
\<close>

theorem refresh_after_push_is_stale:
  fixes s :: "'z tal_client_scheme"
  assumes "map_of (tal_list s) (tk_remote_id t) = Some (e, since)" "clock (snd (tal_push sv a t s)) - since \<le> anilist_list_ttl"
  shows "fst (tal_refresh sv a t (snd (tal_push sv a t s))) = Inr (track_from_library e) \<and>
    \<not> tk_private (track_from_library e) \<and> save_request a i (track_from_library e) =
      AskSave (au_access_token a) i (status_to_anilist (status_from_anilist (lib_status e))) (int_of_f64 (lib_progress e)) (lib_score e) False"
proof -
  have "keeps (\<lambda>u :: 'z tal_client_scheme. tal_list u = tal_list s) (tal_push sv a t)"
    unfolding tal_push_def by (intro keeps_intros keeps_list_query)
  then have "tal_list (snd (tal_push sv a t s)) = tal_list s" by (simp add: keeps_def)
  then show ?thesis using assms
    by (simp add: tal_refresh_def tal_bind_def cached_track_def act_simps track_from_library_def no_track_def save_request_def)
qed

text \<open>The total of an anime is its number of chapters, which it does not have: the query of one entry names no episodes.\<close>

theorem bound_anime_has_no_total:
  "tm_type m = ''ANIME'' \<Longrightarrow> tm_chapters m = 0 \<Longrightarrow>
    tk_total_chapters (track_from_media (as_selected m)) = 0 \<and> sr_total_chapters (tal_search_result m) = tm_episodes m"
  by (simp add: track_from_media_def as_selected_def tal_search_result_def entry_onto_def no_track_def Let_def split: option.split)

text \<open>MyAnimeList is never told that a reread is over.\<close>

theorem push_form_never_clears_rereading: "(''is_rereading'', v) \<in> set (push_form kind t) \<Longrightarrow> v = ''true''"
  by (auto simp: push_form_def split: if_splits)

text \<open>After half of chapter 11, AniList is told ten chapters and MyAnimeList eleven.\<close>

theorem half_chapters_round_apart: "int_of_f64 (21 / 2) = 10 \<and> rounded_half_up (21 / 2) = 11"
proof
  show "int_of_f64 (21 / 2) = 10" unfolding int_of_f64_def by code_simp
  have "fl (11 :: rat) = 11" by code_simp
  then show "rounded_half_up (21 / 2) = 11" by (simp add: rounded_half_up_def int_of_f64_def)
qed

section \<open>Logging in to MyAnimeList\<close>

lemma drop_oldest_le: "length (drop_oldest es) \<le> max_logins"
proof (induction es rule: drop_oldest.induct)
  case (1 es)
  show ?case
  proof (cases "length es > max_logins")
    case True
    then obtain e where "oldest es = Some e" by (cases "oldest es") auto
    then show ?thesis using True 1 by (subst drop_oldest.simps) simp
  qed (simp add: drop_oldest.simps)
qed

lemma drop_oldest_subset: "set (drop_oldest es) \<subseteq> set es"
proof (induction es rule: drop_oldest.induct)
  case (1 es)
  then show ?case by (subst drop_oldest.simps) (auto split: option.split)
qed

lemma mal_send_keeps_logins: "mal_pkce (snd (mal_send net r s)) = mal_pkce s" "mal_now (snd (mal_send net r s)) = mal_now s"
  by (simp_all add: mal_send_def)

lemma keeps_logins_token [keeps_intros]: "keeps (\<lambda>s. P (mal_pkce s)) (token_request sv f)"
  and keeps_logins_do [keeps_intros]: "keeps (\<lambda>s. P (mal_pkce s)) (mal_do net r)"
proof -
  have send: "keeps (\<lambda>s. P (mal_pkce s)) (mal_send net r)" for net r by (simp add: keeps_def mal_send_keeps_logins)
  show do: "keeps (\<lambda>s. P (mal_pkce s)) (mal_do net r)" for net r
    unfolding mal_do_def by (intro keeps_intros send)
  show "keeps (\<lambda>s. P (mal_pkce s)) (token_request sv f)"
    unfolding token_request_def mal_username_def by (intro keeps_intros send do)
qed

lemma token_request_sent: "\<exists>rest. mal_sent (snd (token_request sv f s)) = mal_sent s @ MalToken f # rest"
  by (auto simp: token_request_def mal_username_def mal_do_def mal_send_def decoded_def act_simps split: prod.split sum.split)

lemma token_request_logins: "mal_pkce (snd (token_request sv f s)) = mal_pkce s" for s :: "'z mal_client_scheme"
proof -
  have "keeps (\<lambda>u :: 'z mal_client_scheme. mal_pkce u = mal_pkce s) (token_request sv f)"
    by (rule keeps_logins_token [where P = "\<lambda>l. l = mal_pkce s"])
  then show ?thesis by (simp add: keeps_def)
qed

text \<open>
  C22: a login to MyAnimeList works once: completing it takes its state out of the logins under way whatever the service
  answers; without a login under way for that state nothing is sent, and else the first request hands in the code with the
  verifier that was stored for exactly this state.
\<close>

theorem login_state_works_once:
  "mal_configured cfg \<Longrightarrow> query_get q ''error'' = [] \<Longrightarrow> query_get q ''code'' \<noteq> [] \<Longrightarrow> query_get q ''state'' = st \<Longrightarrow> st \<noteq> [] \<Longrightarrow>
     (case mal_complete_auth sv cfg q s of (r, s') \<Rightarrow>
        mal_pkce s' = filter (\<lambda>e. fst e \<noteq> st) (mal_pkce s) \<and>
        (case map_of (mal_pkce s) st of
           None \<Rightarrow> (\<exists>e. r = Inl e) \<and> mal_sent s' = mal_sent s
         | Some (verifier, _) \<Rightarrow> \<exists>f rest. mal_sent s' = mal_sent s @ MalToken f # rest \<and>
             map_of f ''code'' = Some (query_get q ''code'') \<and> map_of f ''code_verifier'' = Some verifier))"
proof -
  assume q: "mal_configured cfg" "query_get q ''error'' = []" "query_get q ''code'' \<noteq> []" "query_get q ''state'' = st" "st \<noteq> []"
  define s1 where "s1 = s\<lparr>mal_pkce := filter (\<lambda>e. fst e \<noteq> st) (mal_pkce s)\<rparr>"
  define f where "f v = client_auth cfg @ [(''grant_type'', ''authorization_code''), (''code'', query_get q ''code''), (''code_verifier'', v)] @
      (if mc_callback_url cfg \<noteq> [] then [(''redirect_uri'', mc_callback_url cfg)] else [])" for v
  have run: "mal_complete_auth sv cfg q s = (case map_of (mal_pkce s) st of
      None \<Rightarrow> (Inl (ErrMsg ''login expired or already used -- start again''), s1)
    | Some (v, _) \<Rightarrow> token_request sv (f v) s1)"
    using q by (simp add: mal_complete_auth_def Let_def act_simps s1_def f_def split: option.split)
  have form: "map_of (f v) ''code'' = Some (query_get q ''code'')" "map_of (f v) ''code_verifier'' = Some v" for v
    by (simp_all add: f_def client_auth_def)
  show ?thesis
  proof (cases "map_of (mal_pkce s) st")
    case None
    then show ?thesis using run by (simp add: s1_def)
  next
    case (Some e)
    then obtain v since where v: "map_of (mal_pkce s) st = Some (v, since)" by (cases e) simp
    obtain r s' where t: "token_request sv (f v) s1 = (r, s')" by fastforce
    then have "mal_pkce s' = mal_pkce s1" "\<exists>rest. mal_sent s' = mal_sent s @ MalToken (f v) # rest"
      using token_request_logins [of sv "f v" s1] token_request_sent [of sv "f v" s1] by (simp_all add: s1_def)
    then show ?thesis using run t v form by (auto simp: s1_def)
  qed
qed

text \<open>A service that grants every code, and a login under way.\<close>

definition demo_mal :: mal_service where
  "demo_mal = \<lparr>mv_token = (\<lambda>_. Inr \<lparr>mr_status = 200, mr_body = [], mr_decoded = Inr \<lparr>tr_access_token = ''tok'', tr_refresh_token = [], tr_expires_in = 60\<rparr>\<rparr>),
     mv_name = (\<lambda>_. Inl ErrReauth), mv_search = (\<lambda>_. Inl ErrReauth), mv_node = (\<lambda>_. Inl ErrReauth), mv_patch = (\<lambda>_. Inl ErrReauth)\<rparr>"

definition demo_mal_client :: mal_client where
  "demo_mal_client = \<lparr>mal_pkce = [(''st'', ''verifier'', 10)], mal_now = 20, mal_sent = []\<rparr>"

theorem login_state_works_once_witness:
  "mal_pkce (snd (mal_complete_auth demo_mal \<lparr>mc_client_id = ''id'', mc_client_secret = [], mc_callback_url = []\<rparr>
     [(''code'', [''abc'']), (''state'', [''st''])] demo_mal_client)) = []"
proof -
  have "mal_configured \<lparr>mc_client_id = ''id'', mc_client_secret = [], mc_callback_url = []\<rparr>"
    "query_get [(''code'', [''abc'']), (''state'', [''st''])] ''error'' = []"
    "query_get [(''code'', [''abc'']), (''state'', [''st''])] ''code'' \<noteq> []"
    "query_get [(''code'', [''abc'']), (''state'', [''st''])] ''state'' = ''st''" "''st'' \<noteq> []"
    by (simp_all add: mal_configured_def query_get_def)
  from login_state_works_once [OF this, where sv = demo_mal and s = demo_mal_client] show ?thesis
    by (simp add: demo_mal_client_def split: prod.splits)
qed

text \<open>
  At most 65 logins are under way, however many are begun: a new one makes room by dropping what is older than a
  quarter of an hour and then the oldest, and it is stored with its verifier under its state.
\<close>

theorem logins_are_bounded:
  "mal_configured cfg \<Longrightarrow> (case mal_auth_url cfg sb vb s of (r, s') \<Rightarrow>
     length (mal_pkce s') \<le> 65 \<and> map_of (mal_pkce s') (b64_encode sb) = Some (b64_encode vb, mal_now s) \<and>
     set (mal_pkce s') \<subseteq> insert (b64_encode sb, b64_encode vb, mal_now s) {(st, v, since) \<in> set (mal_pkce s). mal_now s - 900 \<le> since})"
proof -
  assume "mal_configured cfg"
  then have "mal_pkce (snd (mal_auth_url cfg sb vb s)) =
      (b64_encode sb, b64_encode vb, mal_now s) # filter (\<lambda>e. fst e \<noteq> b64_encode sb) (sweep (mal_now s) (mal_pkce s))"
    by (simp add: mal_auth_url_def Let_def act_simps)
  moreover have "length (filter (\<lambda>e. fst e \<noteq> b64_encode sb) (sweep (mal_now s) (mal_pkce s))) \<le> 64"
    using drop_oldest_le le_trans [OF length_filter_le] by (force simp: sweep_def max_logins_def)
  moreover have "set (sweep (mal_now s) (mal_pkce s)) \<subseteq> {(st, v, since) \<in> set (mal_pkce s). mal_now s - 900 \<le> since}"
    unfolding sweep_def using drop_oldest_subset by force
  ultimately show ?thesis by (auto split: prod.split)
qed

theorem logins_are_bounded_witness:
  "length (mal_pkce (snd (mal_auth_url \<lparr>mc_client_id = ''id'', mc_client_secret = [], mc_callback_url = []\<rparr> ''s'' ''v'' demo_mal_client))) \<le> 65"
proof -
  have "mal_configured \<lparr>mc_client_id = ''id'', mc_client_secret = [], mc_callback_url = []\<rparr>" by (simp add: mal_configured_def)
  from logins_are_bounded [OF this, where sb = "''s''" and vb = "''v''" and s = demo_mal_client] show ?thesis by (simp split: prod.splits)
qed

end
