(* ===== verification/Spec2Isabelle.thy ===== *)
theory Spec2Isabelle
  imports ChapterNum ContentFilter DownloadWorkers ChapterSync LibraryMigration LibraryUpdate
    RepositoryDecode RepositorySync ExtensionFiles TrackerSync MediaCaches NovelHtml LibraryQuery
    LocalSource DownloadsMove FormatMigration SettingsStore AuthSessions MetadataSafety TrackerClients
begin

text \<open>
  Tsunagu is a self-hosted library of manga, anime and novels. Its backend (\<open>src/backend\<close>, in Go)
  keeps a SQLite database, downloads chapters to disk, synchronises them with source extensions that
  run in a sandbox process, hides entries by content rules, and reconciles reading progress with
  tracker sites. This development models that backend's own logic and states what makes it correct.

  How the parts interact. A user's request (GraphQL or REST) calls one of the managers. The syncer
  (\<open>internal/sync\<close>) asks the sandbox (\<open>internal/sandbox\<close>) for details and chapter lists and writes
  them to the tables; it fetches extension indexes with \<open>internal/repository\<close>. The download manager
  (\<open>internal/download\<close>) takes jobs from the table \<open>downloads\<close>, asks the sandbox for pages, writes files
  and records them. The content filter (\<open>internal/contentfilter\<close>) stores a block rank for every entry
  that the listing statements compare with the configured level. The tracker manager
  (\<open>internal/tracker\<close>) reads and raises the reading progress the syncer records, through the clients of
  AniList and MyAnimeList; the metadata manager (\<open>internal/metadata\<close>) matches entries with AniList and
  fills the gaps of their rows. The settings store (\<open>internal/config\<close>) writes the configuration file, and
  the password manager (\<open>internal/auth\<close>) decides which requests reach a handler. All of them share the
  tables and the file system; the two clients of AniList also share one limiter (\<open>internal/anilistrl\<close>).

  How the state is modelled. \<open>World\<close> has a record per table row and the record \<open>db\<close> of all tables; a
  statement of \<open>internal/db/sqlcgen\<close> is a function from the clock and the tables to a result and new
  tables, defined in \<open>Q_Chapters\<close>, \<open>Q_Downloads\<close>, \<open>Q_Filter\<close>, \<open>Q_Library\<close> (or beside its only user) with the
  WHERE, ORDER BY, ON CONFLICT and ON DELETE of its SQL. Code is an \<open>act\<close>: a function from the world to
  an error or a value, and the world after it (\<open>Prelude\<close>). Every call that leaves the process takes
  the next outcome of the schedule \<open>w_faults\<close>, so a theorem for all worlds is a theorem for every
  pattern of failing calls. \<open>in_tx\<close> restores the tables when its body or the commit fails. Files are
  an association list from locations to nodes (\<open>GoFs\<close>), paths are Go's \<open>filepath\<close> (\<open>GoPath\<close>), strings
  are bytes with the functions of \<open>strings\<close> and \<open>strconv\<close> (\<open>GoStrings\<close>), a float64 is the rational it
  denotes with results rounded to 53 bits (\<open>Float64\<close>), SHA-1 is computed on 32-bit words (\<open>Sha1\<close>).
  Worlds are extended per component (queue state, syncer state, filter cache, tracker history, settings
  in force, password and secret in memory, the log of requests to AniList with their replies).

  Theories, in the order of the code they model:
  \<^item> \<open>ChapterNum\<close>: \<open>internal/chapternum\<close>, the number in a chapter title.
  \<^item> \<open>ContentFilter\<close>: \<open>internal/contentfilter\<close>, rules, ranks and the manager's cache.
  \<^item> \<open>ZipPath\<close>: the virtual paths of \<open>internal/localsource/zippath.go\<close>.
  \<^item> \<open>FileNames\<close>, \<open>Downloads\<close>, \<open>DownloadQueue\<close>: \<open>internal/download/manager.go\<close>, with the lemmas on files
    in \<open>DownloadSafety\<close> and \<open>DownloadPages\<close>, on what a job may change in \<open>JobFrame\<close>, on the queue and the
    interleavings of its workers in \<open>DownloadWorkers\<close> and \<open>QueueOrder\<close>.
  \<^item> \<open>Sandbox\<close>, \<open>ChapterSync\<close>, \<open>LibrarySync\<close>, \<open>ExtensionSync\<close>: \<open>internal/sync/sync.go\<close>, with the lemmas on
    folders, migration, updates and repositories in \<open>LibraryFolders\<close>, \<open>LibraryMigration\<close>,
    \<open>LibraryUpdate\<close>, \<open>RepositorySync\<close>, \<open>ExtensionFiles\<close>; \<open>Repositories\<close> and \<open>RepositoryDecode\<close>:
    \<open>internal/repository\<close>; \<open>Images\<close>: \<open>internal/image\<close>.
  \<^item> \<open>Trackers\<close>, \<open>TrackerSync\<close>: \<open>internal/tracker/manager.go\<close> and \<open>progress.go\<close>.
  \<^item> \<open>DemoLibrary\<close>: the concrete library the witnesses use.
  \<^item> \<open>MediaCaches\<close>: \<open>internal/api/rest/segcache.go\<close>, \<open>mangacache.go\<close>, \<open>internal/sandbox/pagecache.go\<close>;
    \<open>NovelHtml\<close>: \<open>internal/api/rest/sanitize.go\<close>; \<open>LibraryQuery\<close>: the library pages of \<open>sync.go\<close>.
  \<^item> \<open>NaturalSort\<close>, \<open>Archives\<close>, \<open>LocalScan\<close>, \<open>LocalSource\<close>: \<open>internal/localsource\<close>, the directory of
    hand-added titles, with its archives and books.
  \<^item> \<open>Relocation\<close>: moving the downloads and the local source (\<open>internal/download/relocate.go\<close>,
    \<open>internal/localsource/relocate.go\<close>), with the lemmas on directory trees in \<open>FileTrees\<close>, on the copy in
    \<open>RelocationSafety\<close> and on the whole move in \<open>DownloadsMove\<close>; \<open>FormatMigration\<close>: repacking chapters
    (\<open>format_migrate.go\<close>).
  \<^item> \<open>Settings\<close>, \<open>SettingsFile\<close>, \<open>SettingsStore\<close>: \<open>internal/config\<close>, the table of settings, the file it
    writes and a decoder of the fragment of TOML it uses, and the store over a program's life.
  \<^item> \<open>Tokens\<close>, \<open>Auth\<close>, \<open>AuthSessions\<close>: \<open>internal/auth/auth.go\<close> and the check of requests in
    \<open>cmd/server/main.go\<close>, with SHA-256, HMAC and base64 computed.
  \<^item> \<open>MetadataMatch\<close>, \<open>MetadataManager\<close>, \<open>MetadataSafety\<close>: \<open>internal/metadata\<close>, the score of a match and
    the runs that enrich the library.
  \<^item> \<open>AniListApi\<close>: \<open>internal/anilistrl\<close> and \<open>internal/metadata/anilist.go\<close>; \<open>TrackerAniList\<close>, \<open>TrackerMal\<close>:
    \<open>internal/tracker/anilist.go\<close> and \<open>mal.go\<close>; \<open>TrackerClients\<close>: what these clients promise together.

  What the lemmas show. For every component: what each operation returns and writes on its branches;
  the invariants of its tables and caches under every operation and every schedule of failures
  (\<open>keeps\<close>, with the collection \<open>keeps_intros\<close> that composes it along the code); atomicity of its
  transactions; where it may touch files; that its loops end. Where a property speaks of an order, a
  selection or a place, it does so in words of its own that do not mention the code's function: the reading
  order of a chapter list (\<open>reading_order\<close>), the entries and the order a library query asks for
  (\<open>asked_for\<close>, \<open>comes_before\<close>), the place a stored path names (\<open>place_there\<close>), the columns a catalogue entry
  sets and an installation keeps (\<open>package_stored\<close>), the matching end tag (\<open>balanced\<close>), the pause a reply asks
  for (\<open>paused_until\<close>). Contracts between components are the locales \<open>codec\<close> (\<open>ZipPath\<close>), \<open>job_steps\<close>
  (\<open>JobFrame\<close>), \<open>message_decoder\<close> (\<open>RepositoryDecode\<close>), \<open>memo_cache\<close> (\<open>MediaCaches\<close>), \<open>row_table\<close> and its
  extensions \<open>path_table\<close> (\<open>LocalSource\<close>) and \<open>rewrite_table\<close> (\<open>DownloadsMove\<close>), \<open>setting_table\<close>
  (\<open>SettingsFile\<close>) and \<open>status_codec\<close> (\<open>TrackerAniList\<close>), each interpreted on the model's own definitions.

  Bounds and fuel. No loop of the model needs fuel for its result except the protobuf decoder, whose
  fuel is the length of its input; every field takes at least one byte, so that is enough
  (\<open>decode_repo_index_ends\<close>). Page numbers, positions and ids are \<open>int\<close>: they count rows. Parsed numbers
  are checked against the range of int64 (\<open>parse_int64\<close>). The eviction of a cache ends because every
  step drops the last element of its list; sorting and tokenising end with their strings.

  Simplifications. Letters and blanks are those of ASCII: \<open>strings.ToLower\<close> and \<open>strings.TrimSpace\<close> also
  know those of Unicode, and titles are compared by pairs of bytes after they were reduced to ASCII.
  Work the code starts in the background (the recomputation of an entry's rank after a match, the
  matching of a scanned title) is recorded as started or left out where the theory says so. A caller of
  the AniList limiter that gives up while it waits is not modelled.

  Not modelled. Generated code: the GraphQL executor (\<open>internal/api/graph/generated.go\<close>,
  \<open>models_gen.go\<close>), the protobuf and gRPC stubs (\<open>sandbox/gen\<close>, \<open>backup/mihonpb\<close>). Code that only hands
  arguments over: the resolvers and converters of \<open>internal/api/graph\<close>, the routes of
  \<open>internal/api/rest\<close>, the rest of \<open>cmd/server\<close>. Clients of other services and processes: \<open>aniskip\<close>,
  \<open>flaresolverr\<close>, \<open>streamresolve\<close>, the process control of \<open>internal/sandbox\<close>. Export and import of backups
  (\<open>internal/backup\<close>). Third-party packages (protowire, gzip, JSON, archive readers, the TOML decoder,
  bcrypt, ffmpeg) and the network are parameters. Goroutines run as the atomic steps the code's locks make
  of them; the memory model below that, cancellation of contexts other than a download's, and log output
  are outside the model.
\<close>

end
